(* ===== verification/Prelude.thy ===== *)
theory Prelude
  imports "HOL-Library.Word" "HOL-Library.AList"
begin

text \<open>
  The prelude of the development: bytes and fixed-width integers, fallible computations
  (\<open>Result\<close> as a sum, \<open>Inl\<close> the error), the fallible loop
  \<open>for x in xs { s = step(s, x)?; }\<close> with the locale that carries its invariants, and the
  little-endian and checked-arithmetic helpers that several components share.
\<close>

unbundle bit_operations_syntax

section \<open>Bytes and machine integers\<close>

type_synonym u8 = "8 word"
type_synonym u16 = "16 word"
type_synonym u32 = "32 word"
type_synonym u64 = "64 word"
type_synonym bytes = "u8 list"

named_theorems res_simps "rewriting of fallible computations"
named_theorems size_simps "byte-size constants and length facts"

section \<open>Fallible computations\<close>

text \<open>\<open>bindE m k\<close> is \<open>let x = m?; k(x)\<close>; \<open>guardE b e\<close> is \<open>if !b { return Err(e) }\<close>.\<close>

definition bindE :: "'e + 'a \<Rightarrow> ('a \<Rightarrow> 'e + 'b) \<Rightarrow> 'e + 'b" where
  "bindE m k = (case m of Inl e \<Rightarrow> Inl e | Inr x \<Rightarrow> k x)"

definition guardE :: "bool \<Rightarrow> 'e \<Rightarrow> 'e + unit" where
  "guardE b e = (if b then Inr () else Inl e)"

definition ok_or :: "'a option \<Rightarrow> 'e \<Rightarrow> 'e + 'a" where
  "ok_or x e = (case x of None \<Rightarrow> Inl e | Some y \<Rightarrow> Inr y)"

definition mapErr :: "('e \<Rightarrow> 'f) \<Rightarrow> 'e + 'a \<Rightarrow> 'f + 'a" where
  "mapErr f m = (case m of Inl e \<Rightarrow> Inl (f e) | Inr x \<Rightarrow> Inr x)"

definition is_ok :: "'e + 'a \<Rightarrow> bool" where
  "is_ok m = (case m of Inl _ \<Rightarrow> False | Inr _ \<Rightarrow> True)"

lemma bindE_Inl [simp]: "bindE (Inl e) k = Inl e"
  and bindE_Inr [simp]: "bindE (Inr x) k = k x"
  by (simp_all add: bindE_def)

lemma bindE_eq_Inr [simp]: "(bindE m k = Inr y) = (\<exists>x. m = Inr x \<and> k x = Inr y)"
  by (cases m) (auto simp: bindE_def)

lemma bindE_eq_Inl: "(bindE m k = Inl e) = (m = Inl e \<or> (\<exists>x. m = Inr x \<and> k x = Inl e))"
  by (cases m) (auto simp: bindE_def)

lemma guardE_True [simp]: "guardE True e = Inr ()"
  and guardE_False [simp]: "guardE False e = Inl e"
  by (simp_all add: guardE_def)

lemma guardE_eq_Inr [simp]: "(guardE b e = Inr u) = b"
  by (simp add: guardE_def)

lemma guardE_eq_Inl: "(guardE b e = Inl f) = (\<not> b \<and> e = f)"
  by (simp add: guardE_def)

lemma ok_or_None [simp]: "ok_or None e = Inl e"
  and ok_or_Some [simp]: "ok_or (Some x) e = Inr x"
  by (simp_all add: ok_or_def)

lemma ok_or_eq_Inr [simp]: "(ok_or x e = Inr y) = (x = Some y)"
  by (cases x) (simp_all add: ok_or_def)

lemma ok_or_eq_Inl: "(ok_or x e = Inl f) = (x = None \<and> e = f)"
  by (cases x) (simp_all add: ok_or_def)

lemma mapErr_Inl [simp]: "mapErr f (Inl e) = Inl (f e)"
  and mapErr_Inr [simp]: "mapErr f (Inr x) = Inr x"
  by (simp_all add: mapErr_def)

lemma mapErr_eq_Inr [simp]: "(mapErr f m = Inr y) = (m = Inr y)"
  by (cases m) (simp_all add: mapErr_def)

lemma mapErr_eq_Inl: "(mapErr f m = Inl e) = (\<exists>d. m = Inl d \<and> e = f d)"
  by (cases m) (auto simp: mapErr_def)

lemma is_ok_Inl [simp]: "\<not> is_ok (Inl e)"
  and is_ok_Inr [simp]: "is_ok (Inr x)"
  by (simp_all add: is_ok_def)

lemma is_ok_iff: "is_ok m = (\<exists>x. m = Inr x)"
  by (cases m) auto

lemma not_is_ok_iff: "(\<not> is_ok m) = (\<exists>e. m = Inl e)"
  by (cases m) auto

lemma sum_unit_Inr [simp]: "(\<forall>u. x = Inr u \<longrightarrow> P) = (x = Inr () \<longrightarrow> P)"
  by auto

lemmas res_Inl_iffs = bindE_eq_Inl guardE_eq_Inl ok_or_eq_Inl mapErr_eq_Inl

section \<open>The fallible loop\<close>

text \<open>
  \<open>foldE step s xs\<close> runs the loop body \<open>step\<close> over \<open>xs\<close> from state \<open>s\<close> and stops at the
  first error, as a \<open>for\<close> loop whose body ends in \<open>?\<close>.
\<close>

fun foldE :: "('s \<Rightarrow> 'a \<Rightarrow> 'e + 's) \<Rightarrow> 's \<Rightarrow> 'a list \<Rightarrow> 'e + 's" where
  "foldE step s [] = Inr s"
| "foldE step s (x # xs) = bindE (step s x) (\<lambda>s'. foldE step s' xs)"

lemma foldE_append:
  "foldE step s (xs @ ys) = bindE (foldE step s xs) (\<lambda>s'. foldE step s' ys)"
proof (induction xs arbitrary: s)
  case (Cons x xs)
  show ?case by (cases "step s x") (simp_all add: Cons.IH)
qed simp

lemma foldE_snoc: "foldE step s (xs @ [x]) = bindE (foldE step s xs) (\<lambda>s'. step s' x)"
  by (simp add: foldE_append bindE_def split: sum.splits)

lemma foldE_take: "foldE step s xs = Inr s' \<Longrightarrow> \<exists>t. foldE step s (take n xs) = Inr t"
proof -
  assume run: "foldE step s xs = Inr s'"
  have "foldE step s (take n xs @ drop n xs) = Inr s'" using run by simp
  then show ?thesis unfolding foldE_append by auto
qed

text \<open>
  The contract of such loops: an invariant that every successful body keeps, and a property
  that every successful body establishes of the element it processed. The clients (the leaf
  script parser, the script interpreter, the transaction and block validators) discharge the
  one-step law and read off the facts about the whole run.
\<close>

locale fallible_loop =
  fixes step :: "'s \<Rightarrow> 'a \<Rightarrow> 'e + 's"
    and inv :: "'s \<Rightarrow> bool"
    and seen :: "'a \<Rightarrow> bool"
  assumes step_inv: "inv s \<Longrightarrow> step s x = Inr s' \<Longrightarrow> inv s'"
    and step_seen: "inv s \<Longrightarrow> step s x = Inr s' \<Longrightarrow> seen x"
begin

lemma loop_inv: "inv s \<Longrightarrow> foldE step s xs = Inr s' \<Longrightarrow> inv s'"
  by (induction xs arbitrary: s) (auto dest: step_inv)

lemma loop_seen: "inv s \<Longrightarrow> foldE step s xs = Inr s' \<Longrightarrow> x \<in> set xs \<Longrightarrow> seen x"
  by (induction xs arbitrary: s) (auto dest: step_inv step_seen)

lemma loop_stops_at: "inv s \<Longrightarrow> x \<in> set xs \<Longrightarrow> \<not> seen x \<Longrightarrow> \<not> is_ok (foldE step s xs)"
  using loop_seen by (auto simp: is_ok_iff)

end

section \<open>Computations with state and errors\<close>

text \<open>
  \<open>('s, 'e, 'a) st\<close> is code that changes a state of type \<open>'s\<close> (a database transaction) and returns
  a \<open>Result\<close>. An error leaves the state as the failing code had changed it; whether the caller
  keeps or drops that state is up to the caller.
\<close>

type_synonym ('s, 'e, 'a) st = "'s \<Rightarrow> ('e + 'a) \<times> 's"

definition returnS :: "'a \<Rightarrow> ('s, 'e, 'a) st" where
  "returnS x = (\<lambda>s. (Inr x, s))"

definition throwS :: "'e \<Rightarrow> ('s, 'e, 'a) st" where
  "throwS e = (\<lambda>s. (Inl e, s))"

definition bindS :: "('s, 'e, 'a) st \<Rightarrow> ('a \<Rightarrow> ('s, 'e, 'b) st) \<Rightarrow> ('s, 'e, 'b) st" where
  "bindS m k = (\<lambda>s. case m s of (Inl e, t) \<Rightarrow> (Inl e, t) | (Inr x, t) \<Rightarrow> k x t)"

definition liftS :: "('s \<Rightarrow> 'e + 'a) \<Rightarrow> ('s, 'e, 'a) st" where
  "liftS f = (\<lambda>s. (f s, s))"

definition modifyS :: "('s \<Rightarrow> 's) \<Rightarrow> ('s, 'e, unit) st" where
  "modifyS f = (\<lambda>s. (Inr (), f s))"

definition mapErrS :: "('e \<Rightarrow> 'f) \<Rightarrow> ('s, 'e, 'a) st \<Rightarrow> ('s, 'f, 'a) st" where
  "mapErrS f m = (\<lambda>s. case m s of (r, t) \<Rightarrow> (mapErr f r, t))"

fun for_each :: "('x \<Rightarrow> ('s, 'e, unit) st) \<Rightarrow> 'x list \<Rightarrow> ('s, 'e, unit) st" where
  "for_each f [] = returnS ()"
| "for_each f (x # xs) = bindS (f x) (\<lambda>_. for_each f xs)"

lemma returnS_eq [simp]: "(returnS x s = (r, t)) = (r = Inr x \<and> t = s)"
  by (auto simp: returnS_def)

lemma throwS_eq [simp]: "(throwS e s = (r, t)) = (r = Inl e \<and> t = s)"
  by (auto simp: throwS_def)

lemma liftS_eq [simp]: "(liftS f s = (r, t)) = (f s = r \<and> t = s)"
  by (auto simp: liftS_def)

lemma modifyS_eq [simp]: "(modifyS f s = (r, t)) = (r = Inr () \<and> t = f s)"
  by (auto simp: modifyS_def)

lemma bindS_Inl [simp]: "m s = (Inl e, t) \<Longrightarrow> bindS m k s = (Inl e, t)"
  and bindS_Inr [simp]: "m s = (Inr x, t) \<Longrightarrow> bindS m k s = k x t"
  by (simp_all add: bindS_def)

lemma bindS_eq_Inr: "(bindS m k s = (Inr y, u)) = (\<exists>x t. m s = (Inr x, t) \<and> k x t = (Inr y, u))"
  by (auto simp: bindS_def split: prod.splits sum.splits)

lemma bindS_eq_Inl:
  "(bindS m k s = (Inl e, u)) =
     (m s = (Inl e, u) \<or> (\<exists>x t. m s = (Inr x, t) \<and> k x t = (Inl e, u)))"
  by (auto simp: bindS_def split: prod.splits sum.splits)

lemma mapErrS_eq_Inr [simp]: "(mapErrS f m s = (Inr y, u)) = (m s = (Inr y, u))"
  by (auto simp: mapErrS_def split: prod.splits)

lemma mapErrS_eq_Inl: "(mapErrS f m s = (Inl e, u)) = (\<exists>d. m s = (Inl d, u) \<and> e = f d)"
  by (auto simp: mapErrS_def mapErr_eq_Inl split: prod.splits)

text \<open>
  A reversible store: the client applies a list of changes and takes them back in reverse order.
  \<open>runs_ok\<close> says that every change of the list fits the state it is applied to.
\<close>

fun runs_ok :: "('d \<Rightarrow> ('s, 'e, unit) st) \<Rightarrow> ('d \<Rightarrow> 's \<Rightarrow> bool) \<Rightarrow> 'd list \<Rightarrow> 's \<Rightarrow> bool" where
  "runs_ok f ok [] s = True"
| "runs_ok f ok (d # ds) s =
     (ok d s \<and> (case f d s of (Inr _, t) \<Rightarrow> runs_ok f ok ds t | (Inl _, _) \<Rightarrow> False))"

locale reversible =
  fixes do :: "'d \<Rightarrow> ('s, 'e, unit) st"
    and undo :: "'d \<Rightarrow> 's \<Rightarrow> 's"
    and ok :: "'d \<Rightarrow> 's \<Rightarrow> bool"
  assumes do_ok: "ok d s \<Longrightarrow> \<exists>t. do d s = (Inr (), t)"
    and undo_do: "ok d s \<Longrightarrow> do d s = (Inr (), t) \<Longrightarrow> undo d t = s"
begin

lemma undo_all:
  "runs_ok do ok ds s \<Longrightarrow>
   \<exists>t. for_each do ds s = (Inr (), t) \<and> foldr undo ds t = s"
proof (induction ds arbitrary: s)
  case Nil
  then show ?case by simp
next
  case (Cons d ds)
  then obtain t where t: "do d s = (Inr (), t)" and ok: "ok d s" and run: "runs_ok do ok ds t"
    using do_ok by (fastforce split: prod.splits sum.splits)
  obtain u where "for_each do ds t = (Inr (), u)" "foldr undo ds u = t"
    using Cons.IH [OF run] by blast
  then show ?case
    using t undo_do [OF ok t] by simp
qed

end

section \<open>Little-endian encodings\<close>

text \<open>\<open>le_bytes k n\<close> is \<open>to_le_bytes\<close> of a \<open>k\<close>-byte unsigned integer of value \<open>n\<close>.\<close>

primrec le_bytes :: "nat \<Rightarrow> nat \<Rightarrow> bytes" where
  "le_bytes 0 n = []"
| "le_bytes (Suc k) n = word_of_nat (n mod 256) # le_bytes k (n div 256)"

primrec le_value :: "bytes \<Rightarrow> nat" where
  "le_value [] = 0"
| "le_value (b # bs) = unat b + 256 * le_value bs"

lemma length_le_bytes [simp, size_simps]: "length (le_bytes k n) = k"
  by (induction k arbitrary: n) simp_all

lemma le_bytes_numeral:
  "le_bytes (numeral k) n = word_of_nat (n mod 256) # le_bytes (pred_numeral k) (n div 256)"
  unfolding numeral_eq_Suc [of k] by (rule le_bytes.simps(2))

lemma le_bytes_0: "le_bytes k 0 = replicate k 0"
  by (induction k) simp_all

lemma le_bytes_small: "n < 256 \<Longrightarrow> le_bytes (Suc k) n = word_of_nat n # replicate k 0"
  by (simp add: le_bytes_0)

lemma unat_byte_less: "unat (b :: u8) < 256"
proof -
  have "unat b < 2 ^ LENGTH(8)" by (rule unsigned_less)
  then show ?thesis by simp
qed

lemma unat_word_of_nat_byte [simp]: "n < 256 \<Longrightarrow> unat (word_of_nat n :: u8) = n"
  by (simp add: unat_of_nat take_bit_nat_eq_self)

lemma le_value_le_bytes: "n < 256 ^ k \<Longrightarrow> le_value (le_bytes k n) = n"
proof (induction k arbitrary: n)
  case (Suc k)
  have "n div 256 < 256 ^ k"
    using Suc.prems by (simp add: less_mult_imp_div_less mult.commute)
  then have "le_value (le_bytes k (n div 256)) = n div 256"
    by (rule Suc.IH)
  then show ?case by simp
qed simp

lemma le_value_bound: "le_value bs < 256 ^ length bs"
proof (induction bs)
  case (Cons b bs)
  have "unat b + 256 * le_value bs \<le> 255 + 256 * (256 ^ length bs - 1)"
    using Cons.IH unat_byte_less [of b] by (intro add_mono mult_le_mono) auto
  also have "\<dots> < 256 ^ length (b # bs)"
    by (simp add: algebra_simps)
  finally show ?case by simp
qed simp

lemma le_value_append: "le_value (xs @ ys) = le_value xs + 256 ^ length xs * le_value ys"
  by (induction xs) (simp_all add: algebra_simps)

lemma le_bytes_inject:
  "m < 256 ^ k \<Longrightarrow> n < 256 ^ k \<Longrightarrow> le_bytes k m = le_bytes k n \<Longrightarrow> m = n"
  by (metis le_value_le_bytes)

section \<open>Checked arithmetic\<close>

definition checked_add_u64 :: "u64 \<Rightarrow> u64 \<Rightarrow> u64 option" where
  "checked_add_u64 a b = (if unat a + unat b < 2 ^ 64 then Some (a + b) else None)"

definition checked_sub_u64 :: "u64 \<Rightarrow> u64 \<Rightarrow> u64 option" where
  "checked_sub_u64 a b = (if b \<le> a then Some (a - b) else None)"

lemma checked_add_u64_Some:
  "checked_add_u64 a b = Some c \<longleftrightarrow> unat a + unat b < 2 ^ 64 \<and> unat c = unat a + unat b"
proof -
  have "unat (a + b) = unat a + unat b" if "unat a + unat b < 2 ^ 64"
    using that by (simp add: unat_word_ariths)
  then show ?thesis
    by (auto simp: checked_add_u64_def word_unat_eq_iff)
qed

lemma checked_add_u64_None: "checked_add_u64 a b = None \<longleftrightarrow> 2 ^ 64 \<le> unat a + unat b"
  by (auto simp: checked_add_u64_def)

lemma checked_sub_u64_Some:
  "checked_sub_u64 a b = Some c \<longleftrightarrow> unat b \<le> unat a \<and> unat c = unat a - unat b"
proof -
  have "unat (a - b) = unat a - unat b" if "b \<le> a"
    using that by (simp add: unat_sub)
  then show ?thesis
    by (auto simp: checked_sub_u64_def word_unat_eq_iff word_le_nat_alt)
qed

lemma checked_sub_u64_None: "checked_sub_u64 a b = None \<longleftrightarrow> unat a < unat b"
  by (auto simp: checked_sub_u64_def word_le_nat_alt)

end
