(* ===== verification/Tx_Model.thy ===== *)
theory Tx_Model
  imports Prelude
begin

text \<open>
  The data the enforcer works on and the libraries it calls. Transactions, outputs and blocks
  are the structs of the \<open>bitcoin\<close> crate, as records of the fields the sources read.

  Everything the sources only call (hash functions, the script instruction iterator, signature
  decoding and verification, control-block decoding, sighashes) is a field of the record
  \<open>libs\<close>, which every definition that needs it takes as its first argument \<open>L\<close>. No theorem
  assumes more of these functions than its own hypotheses say.
\<close>

section \<open>Transactions and blocks\<close>

record out_point =
  op_txid :: bytes
  op_vout :: u32

record tx_out =
  txo_value :: u64
  txo_script_pubkey :: bytes

record tx_in =
  txi_previous_output :: out_point
  txi_script_sig :: bytes
  txi_sequence :: u32
  txi_witness :: "bytes list"

record transaction =
  tx_version :: u32
  tx_lock_time :: u32
  tx_input :: "tx_in list"
  tx_output :: "tx_out list"

record header =
  hdr_version :: u32
  hdr_prev_blockhash :: bytes
  hdr_merkle_root :: bytes
  hdr_time :: u32
  hdr_bits :: u32
  hdr_nonce :: u32

record block =
  blk_header :: header
  blk_txdata :: "transaction list"

type_synonym utxo_map = "out_point \<rightharpoonup> tx_out"

text \<open>\<open>BlockHash::all_zeros()\<close>.\<close>

definition all_zeros :: bytes where
  "all_zeros = replicate 32 0"

section \<open>Scripts as the instruction iterator yields them\<close>

text \<open>
  \<open>Script::instructions()\<close> yields \<open>Ok(PushBytes)\<close>, \<open>Ok(Op)\<close> or \<open>Err\<close>; \<open>None\<close> below is
  \<open>Err\<close>. Pushes (the empty push \<open>OP_0\<close> included) are never \<open>Op\<close> items.
\<close>

datatype instruction = PushBytes bytes | Op u8

type_synonym instr_item = "instruction option"

section \<open>Signatures, sighashes, control blocks\<close>

datatype tap_sighash_type =
  SighashDefault | SighashAll | SighashNone | SighashSingle
| AllPlusAnyoneCanPay | NonePlusAnyoneCanPay | SinglePlusAnyoneCanPay

text \<open>\<open>Prevouts::One(index, txout)\<close> and \<open>Prevouts::All(slice)\<close>.\<close>

datatype prevouts = PrevoutsOne nat tx_out | PrevoutsAll "tx_out list"

datatype pqc_algorithm = SECP256K1_SCHNORR | ML_DSA_44 | SLH_DSA_SHA2_128S

record control_block =
  cb_leaf_version :: u8
  cb_internal_key :: bytes
  cb_merkle_branch :: "bytes list"

section \<open>The libraries\<close>

text \<open>
  Byte strings stand for the libraries' own types (hashes, keys, signatures). A \<open>None\<close> result
  is the library's \<open>Err\<close>. \<open>lib_clock k\<close> is the wall time, in nanoseconds, that the program
  measures around its \<open>k\<close>-th post-quantum verification.
\<close>

record libs =
  script_instructions :: "bytes \<Rightarrow> instr_item list"
  compute_txid :: "transaction \<Rightarrow> bytes"
  header_block_hash :: "header \<Rightarrow> bytes"
  header_work :: "header \<Rightarrow> nat"
  sha256_hash :: "bytes \<Rightarrow> bytes"
  sha256d_hash :: "bytes \<Rightarrow> bytes"
  hash160_hash :: "bytes \<Rightarrow> bytes"
  ripemd160_hash :: "bytes \<Rightarrow> bytes"
  serialize_txout :: "tx_out \<Rightarrow> bytes"
  serialize_script :: "bytes \<Rightarrow> bytes"
  script_is_p2tr :: "bytes \<Rightarrow> bool"
  p2mr_control_byte :: u8
  p2mr_leaf_version :: u8
  leaf_version_from_consensus :: "u8 \<Rightarrow> u8 option"
  tap_leaf_hash :: "bytes \<Rightarrow> u8 \<Rightarrow> bytes"
  tap_node_from_script :: "bytes \<Rightarrow> u8 \<Rightarrow> bytes"
  tap_node_from_nodes :: "bytes \<Rightarrow> bytes \<Rightarrow> bytes"
  tap_tweaked_spk :: "bytes \<Rightarrow> bytes \<Rightarrow> bytes"
  control_block_decode :: "bytes \<Rightarrow> control_block option"
  annex_new :: "bytes \<Rightarrow> bytes option"
  sighash_from_u8 :: "u8 \<Rightarrow> tap_sighash_type option"
  sighash_to_u8 :: "tap_sighash_type \<Rightarrow> u8"
  taproot_signature_hash ::
    "transaction \<Rightarrow> nat \<Rightarrow> prevouts \<Rightarrow> bytes option \<Rightarrow> bytes \<times> u32 \<Rightarrow> tap_sighash_type \<Rightarrow> bytes option"
  script_spend_sighash ::
    "transaction \<Rightarrow> nat \<Rightarrow> prevouts \<Rightarrow> bytes \<Rightarrow> tap_sighash_type \<Rightarrow> string + bytes"
  xonly_from_slice :: "bytes \<Rightarrow> bytes option"
  schnorr_from_slice :: "bytes \<Rightarrow> bytes option"
  taproot_sig_from_slice :: "bytes \<Rightarrow> (bytes \<times> tap_sighash_type) option"
  schnorr_verify :: "bytes \<Rightarrow> bytes \<Rightarrow> bytes \<Rightarrow> bool"
  pqc_sig_from_slice :: "pqc_algorithm \<Rightarrow> bytes \<Rightarrow> bytes option"
  pqc_pk_from_slice :: "pqc_algorithm \<Rightarrow> bytes \<Rightarrow> bytes option"
  pqc_verify :: "bytes \<Rightarrow> bytes \<Rightarrow> bytes \<Rightarrow> bool"
  lib_clock :: "nat \<Rightarrow> nat"

text \<open>\<open>tx.output.iter().enumerate()\<close> as the outpoints and outputs that \<open>tx\<close> creates.\<close>

definition tx_outpoints :: "libs \<Rightarrow> transaction \<Rightarrow> (out_point \<times> tx_out) list" where
  "tx_outpoints L tx =
     map (\<lambda>(vout, out). (\<lparr>op_txid = compute_txid L tx, op_vout = word_of_nat vout\<rparr>, out))
       (enumerate 0 (tx_output tx))"

lemma op_txid_tx_outpoints: "(k, v) \<in> set (tx_outpoints L tx) \<Longrightarrow> op_txid k = compute_txid L tx"
  by (auto simp: tx_outpoints_def)

lemma snd_tx_outpoints: "map snd (tx_outpoints L tx) = tx_output tx"
  by (simp add: tx_outpoints_def case_prod_unfold comp_def)

text \<open>Wrapping the vout at \<open>2 ^ 32\<close> never identifies two outputs of a transaction that fits a block.\<close>

lemma distinct_tx_outpoints:
  assumes "length (tx_output tx) \<le> 2 ^ 32"
  shows "distinct (map fst (tx_outpoints L tx))"
proof -
  have inj: "inj_on (\<lambda>vout. \<lparr>op_txid = compute_txid L tx, op_vout = (word_of_nat vout :: u32)\<rparr>)
      {0..<length (tx_output tx)}"
  proof (rule inj_onI)
    fix x y
    assume xy: "x \<in> {0..<length (tx_output tx)}" "y \<in> {0..<length (tx_output tx)}"
      and eq: "\<lparr>op_txid = compute_txid L tx, op_vout = (word_of_nat x :: u32)\<rparr>
        = \<lparr>op_txid = compute_txid L tx, op_vout = word_of_nat y\<rparr>"
    have "x < 2 ^ 32" "y < 2 ^ 32"
      using xy assms by auto
    moreover have "unat (word_of_nat x :: u32) = unat (word_of_nat y :: u32)"
      using eq by simp
    ultimately show "x = y"
      by (simp add: unat_of_nat take_bit_nat_eq_self)
  qed
  have "map fst (tx_outpoints L tx)
      = map (\<lambda>vout. \<lparr>op_txid = compute_txid L tx, op_vout = word_of_nat vout\<rparr>)
          [0..<length (tx_output tx)]"
    by (rule nth_equalityI) (auto simp: tx_outpoints_def nth_enumerate_eq)
  then show ?thesis
    using inj by (simp add: distinct_map)
qed

section \<open>Bitcoin opcode bytes the sources name\<close>

definition OP_CHECKSIG :: u8 where "OP_CHECKSIG = 0xac"
definition OP_CHECKSIGVERIFY :: u8 where "OP_CHECKSIGVERIFY = 0xad"
definition OP_CHECKSIGADD :: u8 where "OP_CHECKSIGADD = 0xba"
definition OP_CHECKMULTISIG :: u8 where "OP_CHECKMULTISIG = 0xae"
definition OP_CHECKMULTISIGVERIFY :: u8 where "OP_CHECKMULTISIGVERIFY = 0xaf"
definition OP_PUSHBYTES_0 :: u8 where "OP_PUSHBYTES_0 = 0x00"
definition OP_PUSHDATA1 :: u8 where "OP_PUSHDATA1 = 0x4c"
definition OP_PUSHDATA2 :: u8 where "OP_PUSHDATA2 = 0x4d"
definition OP_PUSHNUM_1 :: u8 where "OP_PUSHNUM_1 = 0x51"
definition OP_PUSHNUM_16 :: u8 where "OP_PUSHNUM_16 = 0x60"
definition OP_VERIFY :: u8 where "OP_VERIFY = 0x69"
definition OP_DROP :: u8 where "OP_DROP = 0x75"
definition OP_DUP :: u8 where "OP_DUP = 0x76"
definition OP_SWAP :: u8 where "OP_SWAP = 0x7c"
definition OP_SUBSTR :: u8 where "OP_SUBSTR = 0x7f"
definition OP_EQUAL :: u8 where "OP_EQUAL = 0x87"
definition OP_EQUALVERIFY :: u8 where "OP_EQUALVERIFY = 0x88"
definition OP_BOOLAND :: u8 where "OP_BOOLAND = 0x9a"
definition OP_RIPEMD160 :: u8 where "OP_RIPEMD160 = 0xa6"
definition OP_SHA256 :: u8 where "OP_SHA256 = 0xa8"
definition OP_HASH160 :: u8 where "OP_HASH160 = 0xa9"
definition OP_HASH256 :: u8 where "OP_HASH256 = 0xaa"
definition OP_CLTV :: u8 where "OP_CLTV = 0xb1"
definition OP_CSV :: u8 where "OP_CSV = 0xb2"

lemmas opcode_defs =
  OP_CHECKSIG_def OP_CHECKSIGVERIFY_def OP_CHECKSIGADD_def OP_CHECKMULTISIG_def
  OP_CHECKMULTISIGVERIFY_def OP_PUSHBYTES_0_def OP_PUSHDATA1_def OP_PUSHDATA2_def
  OP_PUSHNUM_1_def OP_PUSHNUM_16_def OP_VERIFY_def OP_DROP_def OP_DUP_def OP_SWAP_def
  OP_SUBSTR_def OP_EQUAL_def OP_EQUALVERIFY_def OP_BOOLAND_def OP_RIPEMD160_def OP_SHA256_def
  OP_HASH160_def OP_HASH256_def OP_CLTV_def OP_CSV_def

end
