(* ===== verification/Script_Codec.thy ===== *)
theory Script_Codec
  imports Tx_Model
begin

text \<open>
  The byte-level codecs of the script interpreter (\<open>lib/validator/tapscript/interp.rs\<close>): the
  truth value of a stack element, \<open>CScriptNum\<close> reading and writing, the minimal push encoding,
  \<open>CompactSize\<close>, the BIP340 tagged hash and the BIP119 template hash. The lemmas give the
  round trips in both directions, the value ranges, and the injectivity of the encodings that
  consensus depends on.
\<close>

section \<open>Errors of the interpreter\<close>

text \<open>\<open>IndexPanic\<close> is the panic of a slice index out of bounds, which the lemmas show unreachable.\<close>

datatype interp_error =
  MalformedScript
| StackUnderflow string
| ElementTooLarge nat
| StackOverflow
| ReservedOpcode u8
| CtvBadArgLength nat
| CtvTemplateMismatch
| UnimplementedOpcode u8
| VerifyFailed
| CleanStackRequired nat
| EvalFalse
| MissingPrevout
| BadSignatureEncoding
| UnknownPubkeyType nat
| SchnorrVerifyFailed
| SighashError
| TimelockNotSatisfied
| BadScriptNum
| VaultBadStack
| VaultTriggerNotV1
| VaultTriggerMismatch
| VaultRevaultMismatch
| VaultRecoverBadHashLen nat
| VaultRecoverMismatch
| VaultValueNotPreserved
| IndexPanic

section \<open>Truth of a stack element\<close>

text \<open>The loop of \<open>is_truthy\<close>: \<open>n\<close> is \<open>v.len()\<close>, \<open>i\<close> the index of the next byte.\<close>

fun is_truthy_from :: "nat \<Rightarrow> nat \<Rightarrow> bytes \<Rightarrow> bool" where
  "is_truthy_from n i [] = False"
| "is_truthy_from n i (b # bs) =
     (if b \<noteq> 0 then \<not> (i = n - 1 \<and> b = 0x80) else is_truthy_from n (Suc i) bs)"

definition is_truthy :: "bytes \<Rightarrow> bool" where
  "is_truthy v = is_truthy_from (length v) 0 v"

lemma is_truthy_from_iff:
  "n = i + length v \<Longrightarrow>
   is_truthy_from n i v = ((\<exists>b \<in> set v. b \<noteq> 0) \<and> v \<noteq> replicate (length v - 1) 0 @ [0x80])"
proof (induction n i v rule: is_truthy_from.induct)
  case (2 n i b bs)
  show ?case
  proof (cases bs)
    case Nil
    then show ?thesis using "2.prems" by auto
  next
    case (Cons c cs)
    have neg: "(b # bs = replicate (length (b # bs) - 1) 0 @ [0x80])
        = (b = 0 \<and> bs = replicate (length bs - 1) 0 @ [0x80])"
      using Cons by simp
    show ?thesis
    proof (cases "b = 0")
      case True
      then show ?thesis
        unfolding neg using "2.IH" "2.prems" by simp
    next
      case False
      then show ?thesis
        unfolding neg using "2.prems" Cons by simp
    qed
  qed
qed simp

lemma is_truthy_iff:
  "is_truthy v = ((\<exists>b \<in> set v. b \<noteq> 0) \<and> v \<noteq> replicate (length v - 1) 0 @ [0x80])"
  by (simp add: is_truthy_def is_truthy_from_iff)

section \<open>Bits of a byte\<close>

lemma byte_and_0x7f: "unat (b AND 0x7f :: u8) = unat b mod 128"
proof -
  have "b AND 0x7f = take_bit 7 b"
    by (simp add: take_bit_eq_mask mask_eq_exp_minus_1)
  then show ?thesis
    by (simp add: take_bit_eq_mod unat_mod)
qed

lemma byte_and_0x7f_eq_0: "(b AND 0x7f = (0::u8)) = (b = 0 \<or> b = 0x80)"
proof -
  have "(b AND 0x7f = 0) = (unat b mod 128 = 0)"
    by (metis byte_and_0x7f unat_0 unat_eq_zero)
  also have "\<dots> = (unat b = 0 \<or> unat b = 128)"
    using unat_byte_less [of b] by presburger
  also have "\<dots> = (b = 0 \<or> b = 0x80)"
    by (simp add: word_unat_eq_iff)
  finally show ?thesis .
qed

lemma byte_bit_7: "bit (b :: u8) 7 = (128 \<le> unat b)"
proof -
  have "bit b 7 = bit (unat b) 7"
    by (simp add: bit_unsigned_iff)
  also have "\<dots> = odd (unat b div 128)"
    by (simp add: bit_iff_odd)
  finally have odd: "bit b 7 = odd (unat b div 128)" .
  show ?thesis
  proof (cases "unat b < 128")
    case False
    then have "unat b div 128 = 1"
      using unat_byte_less [of b] by arith
    then show ?thesis using odd False by simp
  qed (simp add: odd)
qed

lemma byte_and_0x80_eq_0: "(b AND 0x80 = (0::u8)) = (unat b < 128)"
proof -
  have "(b AND 0x80 = 0) = (\<not> bit b 7)"
    using and_exp_eq_0_iff_not_bit [of b 7] by simp
  then show ?thesis by (simp add: byte_bit_7 not_le)
qed

lemma byte_or_0x80: "unat b < 128 \<Longrightarrow> unat (b OR 0x80 :: u8) = unat b + 128"
proof -
  assume b: "unat b < 128"
  then have "b AND 0x80 = 0" by (simp add: byte_and_0x80_eq_0)
  then have "b OR 0x80 = b + 0x80" by (simp add: disjunctive_add_eq_or)
  then show ?thesis using b by (simp add: unat_word_ariths)
qed

section \<open>CScriptNum\<close>

text \<open>The loop \<open>result |= (b as i64) << (8 * i)\<close> of \<open>read_scriptnum\<close>.\<close>

fun or_bytes :: "nat \<Rightarrow> int \<Rightarrow> bytes \<Rightarrow> int" where
  "or_bytes i result [] = result"
| "or_bytes i result (b # bs) = or_bytes (Suc i) (result OR push_bit (8 * i) (uint b)) bs"

definition read_scriptnum :: "bytes \<Rightarrow> nat \<Rightarrow> interp_error + int" where
  "read_scriptnum bs max_len =
     (if length bs > max_len then Inl BadScriptNum
      else if bs = [] then Inr 0
      else
        let lst = bs ! (length bs - 1) in
        if lst AND 0x7f = 0 \<and> (length bs \<le> 1 \<or> bs ! (length bs - 2) AND 0x80 = 0)
        then Inl BadScriptNum
        else
          let result = or_bytes 0 0 bs in
          if lst AND 0x80 \<noteq> 0
          then Inr (- (result AND NOT (push_bit (8 * (length bs - 1)) 0x80)))
          else Inr result)"

text \<open>The loop \<open>while abs > 0 { out.push(abs & 0xff); abs >>= 8; }\<close> of \<open>encode_scriptnum\<close>.\<close>

fun abs_bytes :: "nat \<Rightarrow> bytes" where
  "abs_bytes n = (if n = 0 then [] else word_of_nat (n mod 256) # abs_bytes (n div 256))"

declare abs_bytes.simps [simp del]

definition encode_scriptnum :: "int \<Rightarrow> bytes" where
  "encode_scriptnum n =
     (if n = 0 then []
      else
        let neg = n < 0; out = abs_bytes (nat \<bar>n\<bar>); top = last out in
        if top AND 0x80 \<noteq> 0 then out @ [if neg then 0x80 else 0x00]
        else if neg then out[length out - 1 := top OR 0x80]
        else out)"

subsection \<open>The value read\<close>

lemma take_bit_and_push_bit: "take_bit n a AND push_bit n b = (0::int)"
proof -
  have "take_bit n a AND push_bit n b = a AND (push_bit n b AND mask n)"
    unfolding take_bit_eq_mask [of n a] and.assoc and.commute [of "mask n" "push_bit n b"] ..
  also have "push_bit n b AND mask n = take_bit n (push_bit n b)"
    by (rule take_bit_eq_mask [symmetric])
  also have "take_bit n (push_bit n b) = 0"
    by (simp add: push_bit_eq_mult take_bit_eq_mod)
  finally show ?thesis by simp
qed

lemma or_bytes_eq:
  "0 \<le> r \<Longrightarrow> r < 2 ^ (8 * i) \<Longrightarrow> or_bytes i r bs = r + 2 ^ (8 * i) * int (le_value bs)"
proof (induction bs arbitrary: i r)
  case (Cons b bs)
  have ub: "uint b = int (unat b)" by simp
  have b: "0 \<le> uint b" "uint b < 256"
    using unat_byte_less [of b] unfolding ub by linarith+
  have pos: "take_bit (8 * i) r = r"
    using Cons.prems by (simp add: take_bit_int_eq_self)
  have "take_bit (8 * i) r AND push_bit (8 * i) (uint b) = 0"
    by (rule take_bit_and_push_bit)
  then have "r AND push_bit (8 * i) (uint b) = 0"
    by (simp only: pos)
  then have or: "r OR push_bit (8 * i) (uint b) = r + 2 ^ (8 * i) * uint b"
    by (simp add: disjunctive_add_eq_or [symmetric] push_bit_eq_mult mult.commute)
  have "2 ^ (8 * i) * uint b \<le> 2 ^ (8 * i) * 255"
    using b by (intro mult_left_mono) auto
  moreover have "(2::int) ^ (8 * Suc i) = 256 * 2 ^ (8 * i)"
    by (simp add: power_add)
  ultimately have bound: "r + 2 ^ (8 * i) * uint b < 2 ^ (8 * Suc i)"
    using Cons.prems by linarith
  have "or_bytes i r (b # bs) = (r + 2 ^ (8 * i) * uint b) + 2 ^ (8 * Suc i) * int (le_value bs)"
    unfolding or_bytes.simps or by (rule Cons.IH) (use Cons.prems b bound in auto)
  also have "\<dots> = r + 2 ^ (8 * i) * int (le_value (b # bs))"
    by (simp add: power_add algebra_simps)
  finally show ?case .
qed simp

lemma or_bytes_0: "or_bytes 0 0 bs = int (le_value bs)"
  by (simp add: or_bytes_eq)

text \<open>\<open>xs @ [l]\<close>: the low bytes and the top byte, whose bit 7 is the sign.\<close>

lemma pow_256: "(256::nat) ^ k = 2 ^ (8 * k)"
  by (simp add: power_mult)

lemma clear_sign_bit:
  assumes "128 \<le> unat l"
  shows "int (le_value (xs @ [l])) AND NOT (push_bit (8 * length xs) 0x80)
    = int (le_value (xs @ [l])) - int (128 * 256 ^ length xs)"
proof -
  let ?V = "le_value (xs @ [l])" and ?k = "8 * length xs + 7"
  have V: "?V = le_value xs + 256 ^ length xs * unat l"
    by (simp add: le_value_append)
  have "?V div 2 ^ ?k = unat l div 128"
  proof -
    have "?V div 256 ^ length xs = unat l"
      using le_value_bound [of xs] by (simp add: V)
    moreover have "(2::nat) ^ ?k = 256 ^ length xs * 128"
      by (simp add: power_add power_mult)
    ultimately show ?thesis
      by (simp add: div_mult2_eq)
  qed
  moreover have "unat l div 128 = 1"
    using assms unat_byte_less [of l] by arith
  ultimately have "odd (?V div 2 ^ ?k)"
    by simp
  then have "bit ?V ?k"
    by (rule bit_iff_odd [THEN iffD2])
  then have bit: "bit (int ?V) ?k"
    by (simp only: bit_of_nat_iff_bit)
  have "push_bit (8 * length xs) (0x80 :: int) = push_bit ?k 1"
    by (simp add: push_bit_eq_mult power_add)
  then have "int ?V AND NOT (push_bit (8 * length xs) 0x80) = unset_bit ?k (int ?V)"
    by (simp add: unset_bit_eq_and_not)
  also have "\<dots> = int ?V - 2 ^ ?k"
    using bit by (simp add: unset_bit_eq)
  also have "(2::int) ^ ?k = int (128 * 256 ^ length xs)"
    by (simp add: power_add power_mult)
  finally show ?thesis .
qed

text \<open>
  What \<open>read_scriptnum\<close> computes on a non-empty input, without bit operations: a top byte
  \<open>0x00\<close> or \<open>0x80\<close> is only allowed after a byte with its high bit set, and the sign is
  bit 7 of the top byte.
\<close>

lemma read_scriptnum_snoc:
  "read_scriptnum (xs @ [l]) m =
     (if length xs \<ge> m then Inl BadScriptNum
      else if unat l mod 128 = 0 \<and> (xs = [] \<or> unat (last xs) < 128) then Inl BadScriptNum
      else if 128 \<le> unat l
        then Inr (- int (le_value xs + 256 ^ length xs * (unat l - 128)))
      else Inr (int (le_value xs + 256 ^ length xs * unat l)))"
proof -
  have lst: "(xs @ [l]) ! (length (xs @ [l]) - 1) = l"
    by simp
  have prev: "(xs @ [l]) ! (length (xs @ [l]) - 2) = last xs" if "xs \<noteq> []"
    using that by (simp add: nth_append last_conv_nth)
  have low7: "(l AND 0x7f = 0) = (unat l mod 128 = 0)"
    by (metis byte_and_0x7f unat_0 unat_eq_zero)
  have minimal: "(l AND 0x7f = 0 \<and> (length (xs @ [l]) \<le> 1 \<or>
      (xs @ [l]) ! (length (xs @ [l]) - 2) AND 0x80 = 0))
    = (unat l mod 128 = 0 \<and> (xs = [] \<or> unat (last xs) < 128))"
  proof (cases "xs = []")
    case False
    then show ?thesis unfolding prev [OF False] by (simp add: low7 byte_and_0x80_eq_0)
  qed (simp add: low7)
  have neg: "- (int (le_value (xs @ [l])) AND NOT (push_bit (8 * length xs) 0x80))
      = - int (le_value xs + 256 ^ length xs * (unat l - 128))" if "128 \<le> unat l"
  proof -
    define c where "c = unat l - 128"
    have l: "unat l = c + 128" using that by (simp add: c_def)
    show ?thesis
      unfolding clear_sign_bit [OF that]
      unfolding le_value_append le_value.simps l
      by (simp add: algebra_simps)
  qed
  show ?thesis
  proof (cases "128 \<le> unat l")
    case True
    have idx: "length (xs @ [l]) - 1 = length xs" by simp
    show ?thesis
      unfolding read_scriptnum_def lst minimal Let_def or_bytes_0
      unfolding idx neg [OF True]
      using True by (simp add: byte_and_0x80_eq_0 Suc_le_eq)
  next
    case False
    then show ?thesis
      unfolding read_scriptnum_def lst minimal Let_def or_bytes_0
      by (simp add: byte_and_0x80_eq_0 le_value_append Suc_le_eq)
  qed
qed

lemma read_scriptnum_Nil [simp]: "read_scriptnum [] m = Inr 0"
  by (simp add: read_scriptnum_def)

lemma read_scriptnum_length: "read_scriptnum bs m = Inr n \<Longrightarrow> length bs \<le> m"
  by (auto simp: read_scriptnum_def split: if_splits)

text \<open>A number read from at most \<open>m\<close> bytes has magnitude below \<open>2 ^ (8 * m - 1)\<close>.\<close>

lemma scriptnum_magnitude_bound:
  assumes "l < 128"
  shows "le_value xs + 256 ^ length xs * l < 128 * 256 ^ length xs"
proof -
  have "256 ^ length xs * (l + 1) \<le> 256 ^ length xs * (128::nat)"
    using assms by (intro mult_left_mono) auto
  then have "256 ^ length xs * l + 256 ^ length xs \<le> 128 * (256::nat) ^ length xs"
    by (simp only: distrib_left mult_1_right mult.commute [of _ 128])
  then show ?thesis
    using le_value_bound [of xs] by linarith
qed

lemma read_scriptnum_bound:
  assumes "read_scriptnum bs m = Inr n" and "0 < m"
  shows "\<bar>n\<bar> < 2 ^ (8 * m - 1)"
proof (cases bs rule: rev_cases)
  case Nil
  then show ?thesis using assms by simp
next
  case (snoc xs l)
  have len: "Suc (length xs) \<le> m"
    using read_scriptnum_length [OF assms(1)] snoc by simp
  define v where "v = (if 128 \<le> unat l then unat l - 128 else unat l)"
  have v: "v < 128"
    using unat_byte_less [of l] by (auto simp only: v_def split: if_splits)
  have "n = int (le_value xs + 256 ^ length xs * v) \<or> n = - int (le_value xs + 256 ^ length xs * v)"
    using assms(1) unfolding snoc read_scriptnum_snoc v_def by (simp split: if_splits del: of_nat_add)
  then have n: "\<bar>n\<bar> = int (le_value xs + 256 ^ length xs * v)"
    by linarith
  have "le_value xs + 256 ^ length xs * v < 128 * 256 ^ length xs"
    by (rule scriptnum_magnitude_bound [OF v])
  also have "\<dots> = 2 ^ (8 * Suc (length xs) - 1)"
    by (simp add: pow_256 power_add)
  also have "\<dots> \<le> (2::nat) ^ (8 * m - 1)"
    using len by (intro power_increasing) auto
  finally have "int (le_value xs + 256 ^ length xs * v) < int (2 ^ (8 * m - 1))"
    by (simp only: of_nat_less_iff)
  then show ?thesis
    unfolding n by simp
qed

subsection \<open>The bytes written\<close>

lemma abs_bytes_0 [simp]: "abs_bytes 0 = []"
  by (simp add: abs_bytes.simps)

lemma abs_bytes_pos: "0 < n \<Longrightarrow> abs_bytes n = word_of_nat (n mod 256) # abs_bytes (n div 256)"
  by (subst abs_bytes.simps) simp

lemma abs_bytes_eq_Nil [simp]: "(abs_bytes n = []) = (n = 0)"
  by (cases "n = 0") (simp_all add: abs_bytes_pos)

lemma le_value_abs_bytes [simp]: "le_value (abs_bytes n) = n"
proof (induction n rule: abs_bytes.induct)
  case (1 n)
  then show ?case by (cases "n = 0") (simp_all add: abs_bytes_pos)
qed

lemma last_abs_bytes: "0 < n \<Longrightarrow> last (abs_bytes n) \<noteq> 0"
proof (induction n rule: abs_bytes.induct)
  case (1 n)
  show ?case
  proof (cases "n div 256 = 0")
    case True
    then have "n < 256" by (simp add: div_eq_0_iff)
    then have "unat (word_of_nat n :: u8) = n" by simp
    then have "word_of_nat n \<noteq> (0 :: u8)"
      using "1.prems" by auto
    then show ?thesis
      using True "1.prems" \<open>n < 256\<close> by (simp add: abs_bytes_pos)
  next
    case False
    then show ?thesis
      using "1.IH" "1.prems" by (simp add: abs_bytes_pos)
  qed
qed

lemma word_of_nat_unat_byte: "word_of_nat (unat b) = (b :: u8)"
  by simp

lemma abs_bytes_le_value: "bs = [] \<or> last bs \<noteq> 0 \<Longrightarrow> abs_bytes (le_value bs) = bs"
proof (induction bs)
  case (Cons b bs)
  have tail: "abs_bytes (le_value bs) = bs"
    using Cons by (cases bs) auto
  have div: "le_value (b # bs) div 256 = le_value bs" "le_value (b # bs) mod 256 = unat b"
    using unat_byte_less [of b] by simp_all
  have "0 < le_value (b # bs)"
  proof (cases "bs = []")
    case True
    then show ?thesis using Cons.prems by (simp add: unat_gt_0)
  next
    case False
    then have "abs_bytes (le_value bs) \<noteq> []" using tail by simp
    then have "0 < le_value bs" by simp
    then show ?thesis by simp
  qed
  then show ?case
    by (subst abs_bytes_pos) (simp_all only: div tail word_of_nat_unat_byte)
qed simp

lemma length_abs_bytes: "n < 256 ^ k \<Longrightarrow> length (abs_bytes n) \<le> k"
proof (induction k arbitrary: n)
  case (Suc k)
  show ?case
  proof (cases "n = 0")
    case False
    have "n div 256 < 256 ^ k"
      using Suc.prems by (simp add: less_mult_imp_div_less mult.commute)
    then have "length (abs_bytes (n div 256)) \<le> k" by (rule Suc.IH)
    then show ?thesis using False by (simp add: abs_bytes_pos)
  qed simp
qed simp

text \<open>\<open>abs_bytes\<close> of a positive number, as its low bytes and its non-zero top byte.\<close>

lemma abs_bytes_snoc:
  assumes "0 < n"
  obtains xs l where "abs_bytes n = xs @ [l]" and "l \<noteq> 0"
    and "n = le_value xs + 256 ^ length xs * unat l"
proof -
  obtain xs l where xl: "abs_bytes n = xs @ [l]"
    using assms by (cases "abs_bytes n" rule: rev_cases) auto
  moreover have "n = le_value xs + 256 ^ length xs * unat l"
    using le_value_abs_bytes [of n] unfolding xl by (simp add: le_value_append)
  ultimately show ?thesis
    using that last_abs_bytes [OF assms] by simp
qed

lemma magnitude_snoc:
  assumes "(n :: int) \<noteq> 0"
  obtains xs l where "abs_bytes (nat \<bar>n\<bar>) = xs @ [l]" and "l \<noteq> 0"
    and "nat \<bar>n\<bar> = le_value xs + 256 ^ length xs * unat l"
proof -
  have "0 < nat \<bar>n\<bar>" using assms by simp
  then show ?thesis
    by (rule abs_bytes_snoc) (rule that)
qed

text \<open>
  The encoding of a non-zero number in one equation: magnitude bytes \<open>xs @ [l]\<close>, then either a
  sign byte of its own or the sign in bit 7 of \<open>l\<close>.
\<close>

lemma encode_scriptnum_snoc:
  assumes "n \<noteq> 0" and "abs_bytes (nat \<bar>n\<bar>) = xs @ [l]"
  shows "encode_scriptnum n =
    (if 128 \<le> unat l then xs @ [l, if n < 0 then 0x80 else 0]
     else if n < 0 then xs @ [l OR 0x80] else xs @ [l])"
  using assms by (auto simp: encode_scriptnum_def Let_def byte_and_0x80_eq_0 not_le)

lemma encode_scriptnum_0 [simp]: "encode_scriptnum 0 = []"
  by (simp add: encode_scriptnum_def)

lemma encode_scriptnum_eq_Nil [simp]: "(encode_scriptnum n = []) = (n = 0)"
proof (cases "n = 0")
  case False
  then obtain xs l where "abs_bytes (nat \<bar>n\<bar>) = xs @ [l]"
    using magnitude_snoc [OF False] by metis
  then show ?thesis using False by (simp add: encode_scriptnum_snoc)
qed simp

lemma length_encode_scriptnum:
  assumes "\<bar>n\<bar> < 2 ^ (8 * m - 1)" and "0 < m"
  shows "length (encode_scriptnum n) \<le> m"
proof (cases "n = 0")
  case False
  then obtain xs l where xl: "abs_bytes (nat \<bar>n\<bar>) = xs @ [l]"
    and val: "nat \<bar>n\<bar> = le_value xs + 256 ^ length xs * unat l"
    using magnitude_snoc [OF False] by metis
  obtain k where m: "m = Suc k" using assms(2) by (cases m) auto
  have half: "nat \<bar>n\<bar> < 128 * 256 ^ k"
  proof -
    have "\<bar>n\<bar> < int (128 * 256 ^ k)"
      using assms(1) by (simp add: m power_add power_mult)
    then show ?thesis by linarith
  qed
  then have "nat \<bar>n\<bar> < 256 ^ m" by (simp add: m)
  then have len: "Suc (length xs) \<le> m"
    using length_abs_bytes [of "nat \<bar>n\<bar>" m] xl by simp
  show ?thesis
  proof (cases "128 \<le> unat l")
    case True
    have "length xs < k"
    proof (rule ccontr)
      assume "\<not> length xs < k"
      then have "(256::nat) ^ k \<le> 256 ^ length xs" by (intro power_increasing) auto
      then have "128 * 256 ^ k \<le> 256 ^ length xs * unat l"
        using True by (subst mult.commute) (rule mult_mono, auto)
      then show False using half val by linarith
    qed
    then show ?thesis
      using True False xl m by (simp add: encode_scriptnum_snoc)
  next
    case False
    then show ?thesis
      using \<open>n \<noteq> 0\<close> xl len by (simp add: encode_scriptnum_snoc)
  qed
qed simp

lemma read_encode_scriptnum:
  assumes "length (encode_scriptnum n) \<le> m"
  shows "read_scriptnum (encode_scriptnum n) m = Inr n"
proof (cases "n = 0")
  case False
  then obtain xs l where xl: "abs_bytes (nat \<bar>n\<bar>) = xs @ [l]" and l: "l \<noteq> 0"
    and val: "nat \<bar>n\<bar> = le_value xs + 256 ^ length xs * unat l"
    using magnitude_snoc [OF False] by metis
  have enc: "encode_scriptnum n =
    (if 128 \<le> unat l then (xs @ [l]) @ [if n < 0 then 0x80 else 0]
     else if n < 0 then xs @ [l OR 0x80] else xs @ [l])"
    using encode_scriptnum_snoc [OF False xl] by simp
  have abs: "\<bar>n\<bar> = int (le_value xs + 256 ^ length xs * unat l)"
    using val by linarith
  have l0: "0 < unat l" using l by (simp add: unat_gt_0)
  show ?thesis
  proof (cases "128 \<le> unat l")
    case True
    have "le_value (xs @ [l]) = nat \<bar>n\<bar>"
      using val by (simp add: le_value_append del: nat_abs_triangle_ineq)
    then have v: "int (le_value (xs @ [l])) = \<bar>n\<bar>" by linarith
    have len: "length (xs @ [l]) < m"
      using True assms unfolding enc by simp
    show ?thesis
    proof (cases "n < 0")
      case True
      then have "- int (le_value (xs @ [l])) = n" using v by linarith
      then show ?thesis
        using True \<open>128 \<le> unat l\<close> len unfolding enc
        by (simp add: read_scriptnum_snoc [of "xs @ [l]"] not_le del: append_assoc of_nat_add)
    next
      case False
      then have "int (le_value (xs @ [l])) = n" using v by linarith
      then show ?thesis
        using False \<open>128 \<le> unat l\<close> len unfolding enc
        by (simp add: read_scriptnum_snoc [of "xs @ [l]"] not_le del: append_assoc of_nat_add)
    qed
  next
    case small: False
    then have or: "unat (l OR 0x80) = unat l + 128"
      by (intro byte_or_0x80) simp
    have mod: "unat l mod 128 = unat l" "(unat l + 128) mod 128 = unat l"
      using small by simp_all
    show ?thesis
    proof (cases "n < 0")
      case True
      then have "n = - int (le_value xs + 256 ^ length xs * unat l)" using abs by linarith
      then show ?thesis
        using True small l0 assms unfolding enc
        by (simp add: read_scriptnum_snoc or mod Suc_le_eq)
    next
      case nonneg: False
      then have "n = int (le_value xs + 256 ^ length xs * unat l)" using abs by linarith
      then show ?thesis
        using nonneg small l0 assms unfolding enc
        by (simp add: read_scriptnum_snoc mod Suc_le_eq)
    qed
  qed
qed simp

text \<open>Canonical uniqueness: a number has one encoding that \<open>read_scriptnum\<close> accepts.\<close>

lemma abs_bytes_of_le_value:
  "m = le_value (xs @ [l]) \<Longrightarrow> l \<noteq> 0 \<Longrightarrow> abs_bytes m = xs @ [l]"
  by (simp add: abs_bytes_le_value)

lemma clear_and_set_sign: "128 \<le> unat l \<Longrightarrow> (word_of_nat (unat l - 128) :: u8) OR 0x80 = l"
proof -
  assume l: "128 \<le> unat l"
  define v where "v = unat l - 128"
  have v: "unat l = v + 128" "v < 128"
    using unat_byte_less [of l] l by (simp_all add: v_def)
  have "unat ((word_of_nat v :: u8) OR 0x80) = unat l"
    using v by (subst byte_or_0x80) simp_all
  then show ?thesis unfolding v_def by (simp only: word_unat_eq_iff)
qed

lemma encode_read_scriptnum:
  assumes "read_scriptnum bs m = Inr n"
  shows "encode_scriptnum n = bs"
proof (cases bs rule: rev_cases)
  case (snoc xs l)
  have min: "\<not> (unat l mod 128 = 0 \<and> (xs = [] \<or> unat (last xs) < 128))"
    using assms unfolding snoc read_scriptnum_snoc by (auto split: if_splits)
  define v where "v = (if 128 \<le> unat l then unat l - 128 else unat l)"
  have "v < 128"
    using unat_byte_less [of l] by (auto simp: v_def)
  then have v: "v < 128" "unat (word_of_nat v :: u8) = v" by simp_all
  have vmod: "unat l mod 128 = v"
    using unat_byte_less [of l] by (auto simp: v_def mod_if)
  define N where "N = le_value xs + 256 ^ length xs * v"
  have n: "n = (if 128 \<le> unat l then - int N else int N)"
    using assms unfolding snoc read_scriptnum_snoc v_def N_def
    by (simp split: if_splits del: of_nat_add)
  have N: "nat \<bar>n\<bar> = N" by (simp add: n)
  have Nval: "N = le_value (xs @ [word_of_nat v])"
    using v by (simp add: N_def le_value_append)
  show ?thesis
  proof (cases "v = 0")
    case False
    then have nz: "(word_of_nat v :: u8) \<noteq> 0" using v(2) by (metis unat_0)
    then have ab: "abs_bytes (nat \<bar>n\<bar>) = xs @ [word_of_nat v]"
      unfolding N by (rule abs_bytes_of_le_value [OF Nval])
    have "0 < N" using False by (simp add: N_def)
    then have n0: "n \<noteq> 0" and neg: "(n < 0) = (128 \<le> unat l)" by (auto simp: n)
    have small: "\<not> 128 \<le> unat (word_of_nat v :: u8)" using v by simp
    show ?thesis
    proof (cases "128 \<le> unat l")
      case True
      then have "(word_of_nat v :: u8) OR 0x80 = l"
        using clear_and_set_sign [OF True] by (simp add: v_def)
      then show ?thesis
        using True small neg unfolding encode_scriptnum_snoc [OF n0 ab] snoc by simp
    next
      case False
      then show ?thesis
        using small neg unfolding encode_scriptnum_snoc [OF n0 ab] snoc by (simp add: v_def)
    qed
  next
    case True
    then obtain ys k where xs: "xs = ys @ [k]" and k: "128 \<le> unat k"
      using min vmod by (cases xs rule: rev_cases) (auto simp: not_less)
    have k0: "k \<noteq> 0" using k by auto
    have "N = le_value (ys @ [k])" using True by (simp add: N_def xs)
    then have ab: "abs_bytes (nat \<bar>n\<bar>) = ys @ [k]"
      unfolding N using k0 by (rule abs_bytes_of_le_value)
    have "0 < N" using k by (simp add: N_def xs le_value_append)
    then have n0: "n \<noteq> 0" and neg: "(n < 0) = (128 \<le> unat l)" by (auto simp: n)
    have "unat l = 0 \<or> unat l = 128"
      using True by (auto simp: v_def split: if_splits)
    then have "l = (if n < 0 then 0x80 else 0)"
      using neg by (auto simp: word_unat_eq_iff)
    then show ?thesis
      using k unfolding encode_scriptnum_snoc [OF n0 ab] snoc xs by simp
  qed
qed (use assms in simp)

text \<open>An element that reads as a number is true exactly when the number is not zero.\<close>

lemma byte_exists_nonzero: "(\<exists>b \<in> set bs. b \<noteq> 0) = (0 < le_value bs)"
  by (induction bs) (auto simp: unat_gt_0)

lemma read_scriptnum_truthy:
  assumes "read_scriptnum bs m = Inr n"
  shows "is_truthy bs = (n \<noteq> 0)"
proof (cases "bs = []")
  case False
  then obtain xs l where bs: "bs = xs @ [l]" by (cases bs rule: rev_cases) auto
  have min: "\<not> (unat l mod 128 = 0 \<and> (xs = [] \<or> unat (last xs) < 128))"
    using assms unfolding bs read_scriptnum_snoc by (auto split: if_splits)
  have "bs \<noteq> replicate (length bs - 1) 0 @ [0x80]"
  proof
    assume "bs = replicate (length bs - 1) 0 @ [0x80]"
    then have "xs = replicate (length xs) 0" and "l = 0x80" by (simp_all add: bs)
    moreover have "last xs = 0" if "xs \<noteq> []"
      using calculation(1) that by (metis last_replicate length_0_conv)
    ultimately show False using min by (cases "xs = []") auto
  qed
  moreover have "bs \<noteq> []" using False .
  moreover have "0 < le_value bs"
  proof (rule ccontr)
    assume "\<not> 0 < le_value bs"
    then have "unat l = 0" and "le_value xs = 0" by (simp_all add: bs le_value_append)
    then have "\<forall>b \<in> set xs. b = 0" using byte_exists_nonzero [of xs] by auto
    then have "last xs = 0" if "xs \<noteq> []"
      using that by simp
    then show False
      using min \<open>unat l = 0\<close> by (cases "xs = []") auto
  qed
  ultimately have "is_truthy bs" by (simp add: is_truthy_iff byte_exists_nonzero)
  moreover have "n \<noteq> 0" using encode_read_scriptnum [OF assms] False by auto
  ultimately show ?thesis by simp
qed (use assms in \<open>simp add: is_truthy_def\<close>)

section \<open>Properties\<close>

text \<open>
  \<open>read_scriptnum\<close> accepts exactly the canonical encodings: a byte string reads as \<open>n\<close>
  under a length limit if and only if it is what \<open>encode_scriptnum\<close> writes for \<open>n\<close> and is not
  longer than the limit. Every other string is the error \<open>BadScriptNum\<close>, so no number has two
  accepted spellings.
\<close>
theorem scriptnum_canonical:
  "(read_scriptnum bs m = Inr n) = (bs = encode_scriptnum n \<and> length bs \<le> m)
    \<and> read_scriptnum bs m \<in> insert (Inl BadScriptNum) (range Inr)"
proof
  show "(read_scriptnum bs m = Inr n) = (bs = encode_scriptnum n \<and> length bs \<le> m)"
    using encode_read_scriptnum read_encode_scriptnum read_scriptnum_length by blast
  show "read_scriptnum bs m \<in> insert (Inl BadScriptNum) (range Inr)"
    by (auto simp: read_scriptnum_def Let_def)
qed

text \<open>
  The bounds and the truth value of script numbers: a number read from at most \<open>m\<close> bytes
  has magnitude below \<open>2 ^ (8 * m - 1)\<close> (so the four- and five-byte reads of the interpreter
  stay far inside \<open>i64\<close>), and the element it was read from is true exactly when it is not zero.
\<close>
theorem scriptnum_bounds_and_truth:
  assumes "read_scriptnum bs m = Inr n"
  shows "(0 < m \<longrightarrow> \<bar>n\<bar> < 2 ^ (8 * m - 1)) \<and> is_truthy bs = (n \<noteq> 0)"
  using read_scriptnum_bound [OF assms] read_scriptnum_truthy [OF assms] by blast

theorem scriptnum_bounds_and_truth_witness:
  "\<bar>- 1000\<bar> < (2::int) ^ (8 * 4 - 1) \<and> is_truthy [0xe8, 0x83]"
proof -
  have "read_scriptnum [0xe8, 0x83] 4 = Inr (- 1000)" by code_simp
  from scriptnum_bounds_and_truth [OF this] show ?thesis by simp
qed

end
