(* ===== verification/Sample_Libs.thy ===== *)
theory Sample_Libs
  imports Tx_Model
begin

text \<open>
  Concrete, executable library functions. The model takes the libraries as a parameter; the
  witnesses of properties instantiate it with \<open>sample_libs\<close>, whose functions have the shape the
  documentation of the real ones promises (32-byte hashes, an instruction iterator that reads
  direct pushes and \<open>OP_PUSHDATA\<close>, signatures that verify for one key and one message) and are
  small enough to compute with.
\<close>

subsection \<open>The instruction iterator\<close>

text \<open>\<open>fuel\<close> bounds the number of instructions; a script has at most as many as bytes.\<close>

fun sample_instrs :: "nat \<Rightarrow> bytes \<Rightarrow> instr_item list" where
  "sample_instrs 0 s = []"
| "sample_instrs (Suc fuel) [] = []"
| "sample_instrs (Suc fuel) (c # r) =
     (if c < 0x4c then
        (if length r < unat c then [None]
         else Some (PushBytes (take (unat c) r)) # sample_instrs fuel (drop (unat c) r))
      else if c = OP_PUSHDATA1 then
        (case r of [] \<Rightarrow> [None]
         | n # r' \<Rightarrow>
             if length r' < unat n then [None]
             else Some (PushBytes (take (unat n) r')) # sample_instrs fuel (drop (unat n) r'))
      else if c = OP_PUSHDATA2 then
        (if length r < 2 \<or> length (drop 2 r) < le_value (take 2 r) then [None]
         else Some (PushBytes (take (le_value (take 2 r)) (drop 2 r)))
           # sample_instrs fuel (drop (le_value (take 2 r)) (drop 2 r)))
      else Some (Op c) # sample_instrs fuel r)"

definition sample_instructions :: "bytes \<Rightarrow> instr_item list" where
  "sample_instructions s = sample_instrs (length s) s"

text \<open>The iterator does not depend on the fuel, and reads one item at a time.\<close>

lemma sample_instrs_Nil [simp]: "sample_instrs n [] = []"
  by (cases n) simp_all

lemma sample_instrs_fuel:
  "length s \<le> n \<Longrightarrow> length s \<le> m \<Longrightarrow> sample_instrs n s = sample_instrs m s"
proof (induction n arbitrary: s m)
  case (Suc n)
  show ?case
  proof (cases s)
    case Nil
    then show ?thesis by simp
  next
    case (Cons c r)
    then obtain k where m: "m = Suc k" using Suc.prems by (cases m) auto
    have IH: "sample_instrs n t = sample_instrs k t" if "length t \<le> length r" for t
      by (rule Suc.IH) (use that Suc.prems Cons m in auto)
    show ?thesis
      unfolding Cons m by (simp add: IH split: list.splits)
  qed
qed simp

lemma sample_instructions_Nil [simp]: "sample_instructions [] = []"
  by (simp add: sample_instructions_def)

lemma sample_instructions_push:
  assumes "c < 0x4c" and "length k = unat c"
  shows "sample_instructions (c # k @ r) = Some (PushBytes k) # sample_instructions r"
proof -
  have "sample_instructions (c # k @ r) = Some (PushBytes k) # sample_instrs (length (k @ r)) r"
    using assms by (simp add: sample_instructions_def)
  also have "sample_instrs (length (k @ r)) r = sample_instructions r"
    unfolding sample_instructions_def by (rule sample_instrs_fuel) simp_all
  finally show ?thesis .
qed

lemma sample_instructions_push32 [simp]:
  "length k = 32 \<Longrightarrow> sample_instructions (0x20 # k @ r) = Some (PushBytes k) # sample_instructions r"
  by (rule sample_instructions_push) simp_all

lemma sample_instructions_op:
  "0x4e \<le> c \<Longrightarrow> sample_instructions (c # r) = Some (Op c) # sample_instructions r"
  by (auto simp: sample_instructions_def opcode_defs word_le_nat_alt word_less_nat_alt)

subsection \<open>Hashes, sighashes and signatures\<close>

definition sample_hash32 :: "bytes \<Rightarrow> bytes" where
  "sample_hash32 m = word_of_nat (length m) # take 31 (m @ replicate 31 0)"

definition sample_hash20 :: "bytes \<Rightarrow> bytes" where
  "sample_hash20 m = take 20 (sample_hash32 m)"

definition sample_sighash_from_u8 :: "u8 \<Rightarrow> tap_sighash_type option" where
  "sample_sighash_from_u8 b =
     (if b = 0x00 then Some SighashDefault else if b = 0x01 then Some SighashAll
      else if b = 0x02 then Some SighashNone else if b = 0x03 then Some SighashSingle
      else if b = 0x81 then Some AllPlusAnyoneCanPay else if b = 0x82 then Some NonePlusAnyoneCanPay
      else if b = 0x83 then Some SinglePlusAnyoneCanPay else None)"

definition sample_sighash_to_u8 :: "tap_sighash_type \<Rightarrow> u8" where
  "sample_sighash_to_u8 t =
     (case t of SighashDefault \<Rightarrow> 0x00 | SighashAll \<Rightarrow> 0x01 | SighashNone \<Rightarrow> 0x02
      | SighashSingle \<Rightarrow> 0x03 | AllPlusAnyoneCanPay \<Rightarrow> 0x81 | NonePlusAnyoneCanPay \<Rightarrow> 0x82
      | SinglePlusAnyoneCanPay \<Rightarrow> 0x83)"

definition sample_anyone_can_pay :: "tap_sighash_type \<Rightarrow> bool" where
  "sample_anyone_can_pay t = (sample_sighash_to_u8 t AND 0x80 \<noteq> 0)"

text \<open>The prevouts must fit the sighash type: all of them unless ANYONECANPAY.\<close>

definition sample_prevouts_fit :: "transaction \<Rightarrow> nat \<Rightarrow> prevouts \<Rightarrow> tap_sighash_type \<Rightarrow> bool" where
  "sample_prevouts_fit tx i ps t =
     (i < length (tx_input tx) \<and>
      (case ps of PrevoutsOne k out \<Rightarrow> k = i \<and> sample_anyone_can_pay t
       | PrevoutsAll outs \<Rightarrow> length outs = length (tx_input tx)))"

definition sample_digest :: "transaction \<Rightarrow> nat \<Rightarrow> tap_sighash_type \<Rightarrow> bytes" where
  "sample_digest tx i t =
     le_bytes 4 (unat (tx_lock_time tx)) @ le_bytes 4 i @ sample_sighash_to_u8 t # replicate 23 7"

definition sample_node :: "bytes \<Rightarrow> bytes \<Rightarrow> bytes" where
  "sample_node a b =
     (if lexordp (\<lambda>x y. x < (y :: u8)) a b then sample_hash32 (take 12 a @ take 12 b)
      else sample_hash32 (take 12 b @ take 12 a))"

definition sample_control_block :: "bytes \<Rightarrow> control_block option" where
  "sample_control_block b =
     (if length b = 33 then
        Some \<lparr>cb_leaf_version = hd b AND 0xfe, cb_internal_key = drop 1 b, cb_merkle_branch = []\<rparr>
      else if length b = 65 then
        Some \<lparr>cb_leaf_version = hd b AND 0xfe, cb_internal_key = take 32 (drop 1 b),
              cb_merkle_branch = [drop 33 b]\<rparr>
      else None)"

definition sample_libs :: libs where
  "sample_libs = \<lparr>
     script_instructions = sample_instructions,
     compute_txid = (\<lambda>tx. le_bytes 32 (unat (tx_lock_time tx) + 1)),
     header_block_hash = (\<lambda>h. le_bytes 32 (unat (hdr_nonce h) + 1)),
     header_work = (\<lambda>h. unat (hdr_bits h)),
     sha256_hash = sample_hash32,
     sha256d_hash = sample_hash32,
     hash160_hash = sample_hash20,
     ripemd160_hash = sample_hash20,
     serialize_txout = (\<lambda>t. le_bytes 8 (unat (txo_value t)) @
       word_of_nat (length (txo_script_pubkey t)) # txo_script_pubkey t),
     serialize_script = (\<lambda>s. word_of_nat (length s) # s),
     script_is_p2tr = (\<lambda>s. length s = 34 \<and> take 2 s = [0x51, 0x20]),
     p2mr_control_byte = 0xc1,
     p2mr_leaf_version = 0xc0,
     leaf_version_from_consensus = (\<lambda>v. if v AND 1 = 0 \<and> v \<noteq> 0x50 then Some v else None),
     tap_leaf_hash = (\<lambda>s v. sample_hash32 (v # take 24 s)),
     tap_node_from_script = (\<lambda>s v. sample_hash32 (v # take 24 s)),
     tap_node_from_nodes = sample_node,
     tap_tweaked_spk = (\<lambda>k n. [0x51, 0x20] @ sample_hash32 (take 12 k @ take 12 n)),
     control_block_decode = sample_control_block,
     annex_new = (\<lambda>a. if a \<noteq> [] \<and> hd a = 0x50 then Some a else None),
     sighash_from_u8 = sample_sighash_from_u8,
     sighash_to_u8 = sample_sighash_to_u8,
     taproot_signature_hash = (\<lambda>tx i ps annex leaf t.
       if sample_prevouts_fit tx i ps t then Some (sample_digest tx i t) else None),
     script_spend_sighash = (\<lambda>tx i ps leaf t.
       if sample_prevouts_fit tx i ps t then Inr (sample_digest tx i t) else Inl ''prevouts''),
     xonly_from_slice = (\<lambda>k. if length k = 32 then Some k else None),
     schnorr_from_slice = (\<lambda>s. if length s = 64 then Some s else None),
     taproot_sig_from_slice = (\<lambda>s.
       if length s = 64 then Some (s, SighashDefault)
       else if length s = 65 \<and> last s \<noteq> 0 then map_option (Pair (butlast s)) (sample_sighash_from_u8 (last s))
       else None),
     schnorr_verify = (\<lambda>s m k. s = m @ k),
     pqc_sig_from_slice = (\<lambda>alg s. Some s),
     pqc_pk_from_slice = (\<lambda>alg k. Some k),
     pqc_verify = (\<lambda>k m s. take 32 s = m \<and> take 32 (drop 32 s) = take 32 k),
     lib_clock = (\<lambda>k. 1000)\<rparr>"


text \<open>Each field as a rewrite rule, so that \<open>simp\<close> never unfolds the whole record.\<close>

lemma sample_libs_sel [simp]:
  "script_instructions sample_libs = sample_instructions"
  "compute_txid sample_libs = (\<lambda>tx. le_bytes 32 (unat (tx_lock_time tx) + 1))"
  "header_block_hash sample_libs = (\<lambda>h. le_bytes 32 (unat (hdr_nonce h) + 1))"
  "header_work sample_libs = (\<lambda>h. unat (hdr_bits h))"
  "sha256_hash sample_libs = sample_hash32"
  "sha256d_hash sample_libs = sample_hash32"
  "hash160_hash sample_libs = sample_hash20"
  "ripemd160_hash sample_libs = sample_hash20"
  "serialize_txout sample_libs = (\<lambda>t. le_bytes 8 (unat (txo_value t)) @
       word_of_nat (length (txo_script_pubkey t)) # txo_script_pubkey t)"
  "serialize_script sample_libs = (\<lambda>s. word_of_nat (length s) # s)"
  "script_is_p2tr sample_libs = (\<lambda>s. length s = 34 \<and> take 2 s = [0x51, 0x20])"
  "p2mr_control_byte sample_libs = 0xc1"
  "p2mr_leaf_version sample_libs = 0xc0"
  "leaf_version_from_consensus sample_libs = (\<lambda>v. if v AND 1 = 0 \<and> v \<noteq> 0x50 then Some v else None)"
  "tap_leaf_hash sample_libs = (\<lambda>s v. sample_hash32 (v # take 24 s))"
  "tap_node_from_script sample_libs = (\<lambda>s v. sample_hash32 (v # take 24 s))"
  "tap_node_from_nodes sample_libs = sample_node"
  "tap_tweaked_spk sample_libs = (\<lambda>k n. [0x51, 0x20] @ sample_hash32 (take 12 k @ take 12 n))"
  "control_block_decode sample_libs = sample_control_block"
  "annex_new sample_libs = (\<lambda>a. if a \<noteq> [] \<and> hd a = 0x50 then Some a else None)"
  "sighash_from_u8 sample_libs = sample_sighash_from_u8"
  "sighash_to_u8 sample_libs = sample_sighash_to_u8"
  "taproot_signature_hash sample_libs = (\<lambda>tx i ps annex leaf t.
       if sample_prevouts_fit tx i ps t then Some (sample_digest tx i t) else None)"
  "script_spend_sighash sample_libs = (\<lambda>tx i ps leaf t.
       if sample_prevouts_fit tx i ps t then Inr (sample_digest tx i t) else Inl ''prevouts'')"
  "xonly_from_slice sample_libs = (\<lambda>k. if length k = 32 then Some k else None)"
  "schnorr_from_slice sample_libs = (\<lambda>s. if length s = 64 then Some s else None)"
  "taproot_sig_from_slice sample_libs = (\<lambda>s.
       if length s = 64 then Some (s, SighashDefault)
       else if length s = 65 \<and> last s \<noteq> 0 then map_option (Pair (butlast s)) (sample_sighash_from_u8 (last s))
       else None)"
  "schnorr_verify sample_libs = (\<lambda>s m k. s = m @ k)"
  "pqc_sig_from_slice sample_libs = (\<lambda>alg s. Some s)"
  "pqc_pk_from_slice sample_libs = (\<lambda>alg k. Some k)"
  "pqc_verify sample_libs = (\<lambda>k m s. take 32 s = m \<and> take 32 (drop 32 s) = take 32 k)"
  "lib_clock sample_libs = (\<lambda>k. 1000)"
  by (simp_all add: sample_libs_def)

subsection \<open>Sample transactions\<close>

definition sample_in :: "u8 \<Rightarrow> u32 \<Rightarrow> u32 \<Rightarrow> bytes list \<Rightarrow> tx_in" where
  "sample_in t vout sequence wit =
     \<lparr>txi_previous_output = \<lparr>op_txid = t # replicate 31 0, op_vout = vout\<rparr>,
      txi_script_sig = [], txi_sequence = sequence, txi_witness = wit\<rparr>"

definition sample_out :: "u64 \<Rightarrow> bytes \<Rightarrow> tx_out" where
  "sample_out v spk = \<lparr>txo_value = v, txo_script_pubkey = spk\<rparr>"

definition sample_tx :: "u32 \<Rightarrow> tx_in list \<Rightarrow> tx_out list \<Rightarrow> transaction" where
  "sample_tx lock ins outs =
     \<lparr>tx_version = 2, tx_lock_time = lock, tx_input = ins, tx_output = outs\<rparr>"

lemma length_sample_hash32 [simp]: "length (sample_hash32 m) = 32"
  by (simp add: sample_hash32_def)

lemma distinct_inj_on: "distinct (map f xs) \<Longrightarrow> A \<subseteq> set xs \<Longrightarrow> inj_on f A"
  by (auto simp: distinct_map intro: inj_on_subset)

end
