(* ===== verification/Script_Hash.thy ===== *)
theory Script_Hash
  imports Script_Codec Sample_Libs
begin

text \<open>
  The encodings that the script interpreter commits to (\<open>lib/validator/tapscript/interp.rs\<close>):
  minimal pushes, \<open>CompactSize\<close>, the BIP340 tagged hash, the recovery hash of BIP345 and the
  template hash of BIP119. The lemmas give the unique readability of each byte encoding, so
  that equal hashes mean equal data up to a collision of the hash function.
\<close>

section \<open>Minimal pushes\<close>

definition push_minimal :: "bytes \<Rightarrow> bytes \<Rightarrow> bytes" where
  "push_minimal out data =
     (case data of
        [] \<Rightarrow> out @ [0x00]
      | [b] \<Rightarrow>
          if 1 \<le> b \<and> b \<le> 16 then out @ [0x50 + b]
          else if b = 0x81 then out @ [0x4f]
          else out @ [1] @ data
      | _ \<Rightarrow>
          let len = length data in
          if len < 0x4c then out @ [word_of_nat len] @ data
          else if len \<le> 0xff then out @ [OP_PUSHDATA1, word_of_nat len] @ data
          else out @ [OP_PUSHDATA2] @ le_bytes 2 len @ data)"

text \<open>
  The specification side: what a script reader takes off the front of a byte string, as the
  element pushed and the rest of the script.
\<close>

definition split_push :: "nat \<Rightarrow> bytes \<Rightarrow> (bytes \<times> bytes) option" where
  "split_push n r = (if length r < n then None else Some (take n r, drop n r))"

fun read_push :: "bytes \<Rightarrow> (bytes \<times> bytes) option" where
  "read_push [] = None"
| "read_push (c # r) =
     (if c = 0x00 then Some ([], r)
      else if c < 0x4c then split_push (unat c) r
      else if c = OP_PUSHDATA1 then
        (case r of [] \<Rightarrow> None | n # r' \<Rightarrow> split_push (unat n) r')
      else if c = OP_PUSHDATA2 then split_push (le_value (take 2 r)) (drop 2 r)
      else if c = 0x4f then Some ([0x81], r)
      else if OP_PUSHNUM_1 \<le> c \<and> c \<le> OP_PUSHNUM_16 then Some ([c - 0x50], r)
      else None)"

lemma split_push_append [simp]: "split_push (length d) (d @ rest) = Some (d, rest)"
  by (simp add: split_push_def)

lemma push_minimal_append: "push_minimal out d = out @ push_minimal [] d"
  by (cases d rule: remdups_adj.cases) (simp_all add: push_minimal_def Let_def)

lemma small_push_num:
  assumes "1 \<le> b" and "b \<le> (16 :: u8)"
  shows "read_push ((0x50 + b) # rest) = Some ([b], rest)"
proof -
  have b: "1 \<le> unat b" "unat b \<le> 16"
    using assms by (simp_all add: word_le_nat_alt)
  then have "unat (0x50 + b) = 80 + unat b"
    by (simp add: unat_word_ariths)
  then show ?thesis
    using b by (simp add: opcode_defs word_le_nat_alt word_less_nat_alt word_unat_eq_iff)
qed

lemma read_push_short:
  assumes "0 < length d" and "length d < 0x4c"
  shows "read_push (word_of_nat (length d) # d @ rest) = Some (d, rest)"
proof -
  have n: "unat (word_of_nat (length d) :: u8) = length d"
    using assms by simp
  then show ?thesis
    using assms by (simp add: word_less_nat_alt word_unat_eq_iff)
qed

lemma read_push_push_minimal:
  assumes "length d < 2 ^ 16"
  shows "read_push (push_minimal [] d @ rest) = Some (d, rest)"
proof (cases d rule: remdups_adj.cases)
  case 1
  then show ?thesis by (simp add: push_minimal_def)
next
  case (2 b)
  consider (small) "1 \<le> b \<and> b \<le> 16" | (neg) "\<not> (1 \<le> b \<and> b \<le> 16)" "b = 0x81"
    | (other) "\<not> (1 \<le> b \<and> b \<le> 16)" "b \<noteq> 0x81"
    by blast
  then show ?thesis
  proof cases
    case small
    then have "push_minimal [] d = [0x50 + b]" by (simp add: 2 push_minimal_def)
    then show ?thesis using small by (simp add: 2 small_push_num del: read_push.simps)
  next
    case neg
    then have "push_minimal [] d = [0x4f]" by (simp add: 2 push_minimal_def)
    then show ?thesis using neg by (simp add: 2 opcode_defs)
  next
    case other
    then have "push_minimal [] d = [1] @ [b]" unfolding 2 push_minimal_def by simp
    then show ?thesis using read_push_short [of "[b]" rest] by (simp add: 2 del: read_push.simps)
  qed
next
  case (3 a b bs)
  let ?n = "length d"
  have pm: "push_minimal [] d =
      (if ?n < 0x4c then word_of_nat ?n # d
       else if ?n \<le> 0xff then OP_PUSHDATA1 # word_of_nat ?n # d
       else OP_PUSHDATA2 # le_bytes 2 ?n @ d)"
    unfolding 3 push_minimal_def by (simp add: Let_def)
  consider (short) "?n < 0x4c" | (mid) "0x4c \<le> ?n" "?n \<le> 0xff" | (long) "0xff < ?n"
    by linarith
  then show ?thesis
  proof cases
    case short
    then show ?thesis unfolding pm using 3 read_push_short [of d rest] by simp
  next
    case mid
    then have "unat (word_of_nat ?n :: u8) = ?n" by simp
    then show ?thesis unfolding pm using mid by (simp add: opcode_defs word_less_nat_alt)
  next
    case long
    have "le_value (le_bytes 2 ?n) = ?n"
      using assms by (intro le_value_le_bytes) simp
    then show ?thesis unfolding pm using long by (simp add: opcode_defs word_less_nat_alt)
  qed
qed

text \<open>Hence two elements with the same minimal push at the front of a script are equal.\<close>

lemma push_minimal_prefix_free:
  assumes "length d < 2 ^ 16" and "length e < 2 ^ 16"
    and "push_minimal [] d @ xs = push_minimal [] e @ ys"
  shows "d = e \<and> xs = ys"
proof -
  have "read_push (push_minimal [] d @ xs) = read_push (push_minimal [] e @ ys)"
    using assms(3) by (rule arg_cong)
  then show ?thesis
    unfolding read_push_push_minimal [OF assms(1)] read_push_push_minimal [OF assms(2)] by simp
qed

section \<open>CompactSize\<close>

text \<open>\<open>n\<close> is the value of the \<open>u64\<close>, \<open>out\<close> the bytes so far.\<close>

definition compact_size :: "nat \<Rightarrow> bytes \<Rightarrow> bytes" where
  "compact_size n out =
     (if n < 0xfd then out @ [word_of_nat n]
      else if n \<le> 0xffff then out @ [0xfd] @ le_bytes 2 n
      else if n \<le> 0xffffffff then out @ [0xfe] @ le_bytes 4 n
      else out @ [0xff] @ le_bytes 8 n)"

fun read_compact :: "bytes \<Rightarrow> (nat \<times> bytes) option" where
  "read_compact [] = None"
| "read_compact (c # r) =
     (let k = (if c = 0xfd then 2 else if c = 0xfe then 4 else if c = 0xff then 8 else 0) in
      if k = 0 then Some (unat c, r) else Some (le_value (take k r), drop k r))"

lemma read_compact_compact_size:
  assumes "n < 2 ^ 64"
  shows "read_compact (compact_size n [] @ rest) = Some (n, rest)"
proof -
  have u: "unat (word_of_nat n :: u8) = n" if "n < 0xfd"
    using that by simp
  consider "n < 0xfd" | "0xfd \<le> n" "n < 256 ^ 2" | "256 ^ 2 \<le> n" "n < 256 ^ 4"
    | "256 ^ 4 \<le> n" "n < 256 ^ 8"
    using assms by (simp, linarith)
  then show ?thesis
  proof cases
    case 1
    then have "compact_size n [] @ rest = word_of_nat n # rest"
      by (simp add: compact_size_def)
    then show ?thesis using u [OF 1] 1 by (simp add: word_unat_eq_iff del: unat_word_of_nat_byte)
  next
    case 2
    then show ?thesis using le_value_le_bytes [OF 2(2)] by (simp add: compact_size_def)
  next
    case 3
    then show ?thesis using le_value_le_bytes [OF 3(2)] by (simp add: compact_size_def)
  next
    case 4
    then show ?thesis using le_value_le_bytes [OF 4(2)] by (simp add: compact_size_def)
  qed
qed

lemma compact_size_prefix_free:
  assumes "m < 2 ^ 64" and "n < 2 ^ 64"
    and "compact_size m [] @ xs = compact_size n [] @ ys"
  shows "m = n \<and> xs = ys"
proof -
  have "read_compact (compact_size m [] @ xs) = read_compact (compact_size n [] @ ys)"
    using assms(3) by (rule arg_cong)
  then show ?thesis
    unfolding read_compact_compact_size [OF assms(1)] read_compact_compact_size [OF assms(2)]
    by simp
qed

section \<open>Tagged hashes\<close>

definition tagged_hash :: "libs \<Rightarrow> bytes \<Rightarrow> bytes \<Rightarrow> bytes" where
  "tagged_hash L tag msg =
     (let tag_hash = sha256_hash L tag in sha256_hash L (tag_hash @ tag_hash @ msg))"

text \<open>The ASCII bytes of \<open>VaultRecoverySPK\<close>.\<close>

definition vault_recovery_tag :: bytes where
  "vault_recovery_tag =
     [0x56, 0x61, 0x75, 0x6c, 0x74, 0x52, 0x65, 0x63, 0x6f, 0x76, 0x65, 0x72, 0x79,
      0x53, 0x50, 0x4b]"

definition vault_recovery_spk_hash :: "libs \<Rightarrow> bytes \<Rightarrow> bytes" where
  "vault_recovery_spk_hash L spk =
     (let msg = compact_size (length spk) [] @ spk in tagged_hash L vault_recovery_tag msg)"

section \<open>The template hash\<close>

text \<open>The bytes \<open>r\<close> that \<open>default_check_template_verify_hash\<close> hashes.\<close>

definition sequence_bytes :: "transaction \<Rightarrow> bytes" where
  "sequence_bytes tx = concat (map (\<lambda>i. le_bytes 4 (unat (txi_sequence i))) (tx_input tx))"

definition output_bytes :: "libs \<Rightarrow> transaction \<Rightarrow> bytes" where
  "output_bytes L tx = concat (map (serialize_txout L) (tx_output tx))"

definition script_sig_bytes :: "libs \<Rightarrow> transaction \<Rightarrow> bytes" where
  "script_sig_bytes L tx = concat (map (\<lambda>i. serialize_script L (txi_script_sig i)) (tx_input tx))"

definition has_script_sig :: "transaction \<Rightarrow> bool" where
  "has_script_sig tx = (\<exists>i \<in> set (tx_input tx). txi_script_sig i \<noteq> [])"

definition ctv_preimage :: "libs \<Rightarrow> transaction \<Rightarrow> nat \<Rightarrow> bytes" where
  "ctv_preimage L tx input_index =
     le_bytes 4 (unat (tx_version tx))
     @ le_bytes 4 (unat (tx_lock_time tx))
     @ (if has_script_sig tx then sha256_hash L (script_sig_bytes L tx) else [])
     @ le_bytes 4 (length (tx_input tx))
     @ sha256_hash L (sequence_bytes tx)
     @ le_bytes 4 (length (tx_output tx))
     @ sha256_hash L (output_bytes L tx)
     @ le_bytes 4 input_index"

definition default_check_template_verify_hash :: "libs \<Rightarrow> transaction \<Rightarrow> nat \<Rightarrow> bytes" where
  "default_check_template_verify_hash L tx input_index = sha256_hash L (ctv_preimage L tx input_index)"

text \<open>The messages hashed on the way: the hypotheses on SHA-256 are about these only.\<close>

definition ctv_messages :: "libs \<Rightarrow> transaction \<Rightarrow> nat \<Rightarrow> bytes set" where
  "ctv_messages L tx i =
     {ctv_preimage L tx i, script_sig_bytes L tx, sequence_bytes tx, output_bytes L tx}"

lemma le_bytes_u32_inject: "le_bytes 4 (unat a) = le_bytes 4 (unat (b :: u32)) \<Longrightarrow> a = b"
proof -
  assume eq: "le_bytes 4 (unat a) = le_bytes 4 (unat b)"
  have "unat a < 256 ^ 4" "unat b < 256 ^ 4"
    using unsigned_less [of a] unsigned_less [of b] by simp_all
  then have "unat a = unat b" using eq by (rule le_bytes_inject)
  then show "a = b" by (simp add: word_unat_eq_iff)
qed

lemma sequence_bytes_inject:
  "concat (map (\<lambda>i. le_bytes 4 (unat (txi_sequence i))) xs)
     = concat (map (\<lambda>i. le_bytes 4 (unat (txi_sequence i))) ys)
   \<Longrightarrow> map txi_sequence xs = map txi_sequence ys"
proof (induction xs arbitrary: ys)
  case Nil
  then show ?case by (cases ys) (auto dest: arg_cong [where f = length])
next
  case (Cons x xs)
  then obtain y ys' where ys: "ys = y # ys'"
    by (cases ys) (auto dest: arg_cong [where f = length])
  have "le_bytes 4 (unat (txi_sequence x)) = le_bytes 4 (unat (txi_sequence y))"
    and rest: "concat (map (\<lambda>i. le_bytes 4 (unat (txi_sequence i))) xs)
     = concat (map (\<lambda>i. le_bytes 4 (unat (txi_sequence i))) ys')"
    using Cons.prems unfolding ys by simp_all
  then show ?case
    using Cons.IH [OF rest] by (simp add: ys le_bytes_u32_inject)
qed

lemma length_ctv_preimage:
  "(\<And>m. length (sha256_hash L m) = 32) \<Longrightarrow>
   length (ctv_preimage L tx i) = (if has_script_sig tx then 116 else 84)"
  by (simp add: ctv_preimage_def)

text \<open>A serialization is self-delimiting on \<open>A\<close> when it can be read back off a longer string.\<close>

definition self_delimiting :: "('a \<Rightarrow> bytes) \<Rightarrow> 'a set \<Rightarrow> bool" where
  "self_delimiting f A = (\<forall>a \<in> A. \<forall>b \<in> A. \<forall>xs ys. f a @ xs = f b @ ys \<longrightarrow> a = b \<and> xs = ys)"

lemma self_delimitingD:
  "self_delimiting f A \<Longrightarrow> a \<in> A \<Longrightarrow> b \<in> A \<Longrightarrow> f a @ xs = f b @ ys \<Longrightarrow> a = b \<and> xs = ys"
  unfolding self_delimiting_def by blast

lemma self_delimiting_mono: "self_delimiting f A \<Longrightarrow> B \<subseteq> A \<Longrightarrow> self_delimiting f B"
  unfolding self_delimiting_def by blast

lemma append_eq_same_length:
  "length a = length b \<Longrightarrow> (a @ x = b @ y) = (a = b \<and> x = y)"
  by simp

lemma self_delimiting_concat:
  "self_delimiting f (set xs \<union> set ys) \<Longrightarrow> length xs = length ys \<Longrightarrow>
   concat (map f xs) = concat (map f ys) \<Longrightarrow> xs = ys"
proof (induction xs arbitrary: ys)
  case (Cons x xs)
  then obtain y ys' where ys: "ys = y # ys'" by (cases ys) auto
  have "x = y \<and> concat (map f xs) = concat (map f ys')"
  proof (rule self_delimitingD [OF Cons.prems(1)])
    show "f x @ concat (map f xs) = f y @ concat (map f ys')"
      using Cons.prems(3) by (simp add: ys)
  qed (simp_all add: ys)
  moreover have "self_delimiting f (set xs \<union> set ys')"
    by (rule self_delimiting_mono [OF Cons.prems(1)]) (auto simp: ys)
  ultimately show ?case
    using Cons.IH [of ys'] Cons.prems(2) ys by simp
qed simp

lemma ctv_preimage_fields:
  assumes len: "\<And>m. length (sha256_hash L m) = 32"
    and eq: "ctv_preimage L tx i = ctv_preimage L tx' i'"
  shows "tx_version tx = tx_version tx'" and "tx_lock_time tx = tx_lock_time tx'"
    and "has_script_sig tx = has_script_sig tx'"
    and "has_script_sig tx \<longrightarrow>
      sha256_hash L (script_sig_bytes L tx) = sha256_hash L (script_sig_bytes L tx')"
    and "sha256_hash L (sequence_bytes tx) = sha256_hash L (sequence_bytes tx')"
    and "le_bytes 4 (length (tx_output tx)) = le_bytes 4 (length (tx_output tx'))"
    and "sha256_hash L (output_bytes L tx) = sha256_hash L (output_bytes L tx')"
    and "le_bytes 4 i = le_bytes 4 i'"
proof -
  have ss: "has_script_sig tx = has_script_sig tx'"
    using arg_cong [OF eq, of length] by (simp add: length_ctv_preimage len split: if_splits)
  then show "has_script_sig tx = has_script_sig tx'" .
  have v: "le_bytes 4 (unat (tx_version tx)) = le_bytes 4 (unat (tx_version tx'))"
    and l: "le_bytes 4 (unat (tx_lock_time tx)) = le_bytes 4 (unat (tx_lock_time tx'))"
    and *: "has_script_sig tx \<longrightarrow>
      sha256_hash L (script_sig_bytes L tx) = sha256_hash L (script_sig_bytes L tx')"
      "sha256_hash L (sequence_bytes tx) = sha256_hash L (sequence_bytes tx')"
      "le_bytes 4 (length (tx_output tx)) = le_bytes 4 (length (tx_output tx'))"
      "sha256_hash L (output_bytes L tx) = sha256_hash L (output_bytes L tx')"
      "le_bytes 4 i = le_bytes 4 i'"
    using eq unfolding ctv_preimage_def ss
    by (cases "has_script_sig tx'"; simp add: append_eq_same_length len)+
  from * show "has_script_sig tx \<longrightarrow>
      sha256_hash L (script_sig_bytes L tx) = sha256_hash L (script_sig_bytes L tx')"
    and "sha256_hash L (sequence_bytes tx) = sha256_hash L (sequence_bytes tx')"
    and "le_bytes 4 (length (tx_output tx)) = le_bytes 4 (length (tx_output tx'))"
    and "sha256_hash L (output_bytes L tx) = sha256_hash L (output_bytes L tx')"
    and "le_bytes 4 i = le_bytes 4 i'" by simp_all
  show "tx_version tx = tx_version tx'" using v by (rule le_bytes_u32_inject)
  show "tx_lock_time tx = tx_lock_time tx'" using l by (rule le_bytes_u32_inject)
qed

section \<open>Properties\<close>

text \<open>
  An element is read back from its minimal push: a script that starts with
  \<open>push_minimal data\<close> pushes exactly \<open>data\<close> and goes on with the rest, whatever follows, for all
  lengths up to the 65535 that \<open>OP_PUSHDATA2\<close> can say.
\<close>
theorem push_minimal_roundtrip:
  assumes "length data < 2 ^ 16"
  shows "push_minimal out data = out @ push_minimal [] data
    \<and> read_push (push_minimal [] data @ rest) = Some (data, rest)"
  using push_minimal_append [of out data] read_push_push_minimal [OF assms] by simp

theorem push_minimal_roundtrip_witness:
  "push_minimal [0xbb] [0x81] = [0xbb] @ push_minimal [] [0x81]
    \<and> read_push (push_minimal [] [0x81] @ [0xac]) = Some ([0x81], [0xac])"
  by (rule push_minimal_roundtrip) simp

text \<open>
  The template hash of BIP119 commits to what the code says it does: if two transactions
  have the same hash, then, up to a SHA-256 collision among the messages hashed, they have the
  same version, lock time, input sequences (hence the same number of inputs), outputs and input
  index, and agree on the script sigs.
\<close>
theorem ctv_hash_commits:
  assumes "\<And>m. length (sha256_hash L m) = 32"
    and "inj_on (sha256_hash L) (ctv_messages L tx i \<union> ctv_messages L tx' i')"
    and "self_delimiting (serialize_txout L) (set (tx_output tx) \<union> set (tx_output tx'))"
    and "length (tx_output tx) < 2 ^ 32" and "length (tx_output tx') < 2 ^ 32"
    and "i < 2 ^ 32" and "i' < 2 ^ 32"
    and "default_check_template_verify_hash L tx i = default_check_template_verify_hash L tx' i'"
  shows "tx_version tx = tx_version tx' \<and> tx_lock_time tx = tx_lock_time tx'
    \<and> map txi_sequence (tx_input tx) = map txi_sequence (tx_input tx')
    \<and> tx_output tx = tx_output tx' \<and> i = i'
    \<and> has_script_sig tx = has_script_sig tx'
    \<and> (has_script_sig tx \<longrightarrow> script_sig_bytes L tx = script_sig_bytes L tx')"
proof -
  have inj: "a = b" if "sha256_hash L a = sha256_hash L b"
    "a \<in> ctv_messages L tx i" "b \<in> ctv_messages L tx' i'" for a b
    using inj_onD [OF assms(2) that(1)] that by simp
  have eq: "ctv_preimage L tx i = ctv_preimage L tx' i'"
    by (rule inj) (use assms(8) in \<open>simp_all add: default_check_template_verify_hash_def ctv_messages_def\<close>)
  note f = ctv_preimage_fields [OF assms(1) eq]
  have "sequence_bytes tx = sequence_bytes tx'"
    by (rule inj [OF f(5)]) (simp_all add: ctv_messages_def)
  then have seqs: "map txi_sequence (tx_input tx) = map txi_sequence (tx_input tx')"
    unfolding sequence_bytes_def by (rule sequence_bytes_inject)
  have len: "length (tx_output tx) = length (tx_output tx')"
    by (rule le_bytes_inject [OF _ _ f(6)]) (use assms(4,5) in simp_all)
  have "output_bytes L tx = output_bytes L tx'"
    by (rule inj [OF f(7)]) (simp_all add: ctv_messages_def)
  then have outs: "tx_output tx = tx_output tx'"
    unfolding output_bytes_def by (rule self_delimiting_concat [OF assms(3) len])
  have idx: "i = i'"
    by (rule le_bytes_inject [OF _ _ f(8)]) (use assms(6,7) in simp_all)
  have sigs: "script_sig_bytes L tx = script_sig_bytes L tx'" if "has_script_sig tx"
    by (rule inj [OF f(4) [rule_format, OF that]]) (simp_all add: ctv_messages_def)
  show ?thesis
    by (intro conjI impI f(1-3) seqs outs idx sigs)
qed

text \<open>Two transactions that spend different outpoints, with the same template.\<close>

definition ctv_tx :: "u8 \<Rightarrow> transaction" where
  "ctv_tx t = sample_tx 9 [sample_in t 0 5 []] [sample_out 1000 [0x6a]]"

lemma ctv_tx_messages:
  "ctv_messages sample_libs (ctv_tx t) 0 =
    set [[2, 0, 0, 0, 9, 0, 0, 0, 1, 0, 0, 0] @ sample_hash32 [5, 0, 0, 0] @ [1, 0, 0, 0]
           @ sample_hash32 [0xe8, 3, 0, 0, 0, 0, 0, 0, 1, 0x6a] @ [0, 0, 0, 0],
         [0], [5, 0, 0, 0], [0xe8, 3, 0, 0, 0, 0, 0, 0, 1, 0x6a]]"
  unfolding ctv_messages_def ctv_preimage_def output_bytes_def sequence_bytes_def
    script_sig_bytes_def has_script_sig_def ctv_tx_def sample_tx_def sample_in_def sample_out_def
  by (simp add: le_bytes_numeral)

lemma ctv_tx_hash:
  "default_check_template_verify_hash sample_libs (ctv_tx t) 0 =
     default_check_template_verify_hash sample_libs (ctv_tx 1) 0"
  unfolding default_check_template_verify_hash_def ctv_preimage_def output_bytes_def
    sequence_bytes_def script_sig_bytes_def has_script_sig_def ctv_tx_def sample_tx_def sample_in_def
  by simp

theorem ctv_hash_commits_witness:
  "tx_version (ctv_tx 1) = tx_version (ctv_tx 2) \<and> tx_lock_time (ctv_tx 1) = tx_lock_time (ctv_tx 2)
    \<and> map txi_sequence (tx_input (ctv_tx 1)) = map txi_sequence (tx_input (ctv_tx 2))
    \<and> tx_output (ctv_tx 1) = tx_output (ctv_tx 2) \<and> (0::nat) = 0
    \<and> has_script_sig (ctv_tx 1) = has_script_sig (ctv_tx 2)"
proof -
  have "?thesis \<and> (has_script_sig (ctv_tx 1) \<longrightarrow>
        script_sig_bytes sample_libs (ctv_tx 1) = script_sig_bytes sample_libs (ctv_tx 2))"
    unfolding conj_assoc
  proof (rule ctv_hash_commits)
  show "inj_on (sha256_hash sample_libs)
     (ctv_messages sample_libs (ctv_tx 1) 0 \<union> ctv_messages sample_libs (ctv_tx 2) 0)"
    unfolding ctv_tx_messages Un_absorb sample_libs_sel
    by (rule distinct_inj_on [OF _ subset_refl]) (simp add: sample_hash32_def)
  show "self_delimiting (serialize_txout sample_libs)
     (set (tx_output (ctv_tx 1)) \<union> set (tx_output (ctv_tx 2)))"
    by (simp add: self_delimiting_def ctv_tx_def sample_tx_def)
  show "default_check_template_verify_hash sample_libs (ctv_tx 1) 0
      = default_check_template_verify_hash sample_libs (ctv_tx 2) 0"
    by (rule ctv_tx_hash [symmetric])
qed (simp_all add: ctv_tx_def sample_tx_def)
  then show ?thesis by blast
qed

end
