(* ===== verification/Interp.thy ===== *)
theory Interp
  imports Script_Hash
begin

text \<open>
  The stack interpreter of revealed Taproot leaves (\<open>lib/validator/tapscript/interp.rs\<close>): the
  bounded stack, every opcode of the implemented set, the vault opcodes of BIP345 with their
  deferred value checks, the BIP65 and BIP112 timelocks and the BIP342 signature checks.
  The stack is a list whose head is the top; \<open>stack_new\<close> reverses the witness order.
\<close>

section \<open>Constants\<close>

definition INTERP_CTV_HASH_LEN :: nat where "INTERP_CTV_HASH_LEN = 32"
definition RECOVERY_SPK_HASH_LEN :: nat where "RECOVERY_SPK_HASH_LEN = 32"
definition MAX_SCRIPT_ELEMENT_SIZE :: nat where "MAX_SCRIPT_ELEMENT_SIZE = 520"
definition MAX_STACK_SIZE :: nat where "MAX_STACK_SIZE = 1000"
definition SEQUENCE_LOCKTIME_DISABLE_FLAG :: int where
  "SEQUENCE_LOCKTIME_DISABLE_FLAG = push_bit 31 1"
definition SEQUENCE_LOCKTIME_TYPE_FLAG :: int where "SEQUENCE_LOCKTIME_TYPE_FLAG = push_bit 22 1"
definition SEQUENCE_LOCKTIME_MASK :: int where "SEQUENCE_LOCKTIME_MASK = 0xffff"
definition LOCKTIME_THRESHOLD :: int where "LOCKTIME_THRESHOLD = 500000000"
definition NO_CODESEPARATOR :: u32 where "NO_CODESEPARATOR = 0xffffffff"

definition OP_CAT :: u8 where "OP_CAT = 0xfe"
definition OP_CTV :: u8 where "OP_CTV = 0xfd"
definition OP_VAULT :: u8 where "OP_VAULT = 0xfc"
definition OP_VAULT_RECOVER :: u8 where "OP_VAULT_RECOVER = 0xfb"

lemmas enforced_defs = OP_CAT_def OP_CTV_def OP_VAULT_def OP_VAULT_RECOVER_def

lemmas stack_size_defs [size_simps] =
  MAX_SCRIPT_ELEMENT_SIZE_def MAX_STACK_SIZE_def INTERP_CTV_HASH_LEN_def RECOVERY_SPK_HASH_LEN_def

section \<open>State and context\<close>

datatype deferred_check =
  Trigger (dc_input_amount: u64) (dc_revault_amount: u64) (dc_trigger_idx: nat) (dc_revault_idx: int)
| Recovery (dc_input_amount: u64) (dc_vout_idx: nat)

record leaf_context =
  lc_tx :: transaction
  lc_input_index :: nat
  lc_prevouts :: utxo_map
  lc_input_txout :: "tx_out option"
  lc_control :: control_block
  lc_annex :: "bytes option"
  lc_leaf :: bytes

type_synonym stack = "bytes list"

text \<open>The two mutable arguments of \<open>exec_op\<close>.\<close>

record exec_state =
  es_stack :: stack
  es_deferred :: "deferred_check list"

section \<open>The stack\<close>

fun check_elements :: "bytes list \<Rightarrow> interp_error + unit" where
  "check_elements [] = Inr ()"
| "check_elements (item # rest) =
     (if length item > MAX_SCRIPT_ELEMENT_SIZE then Inl (ElementTooLarge (length item))
      else check_elements rest)"

definition stack_new :: "bytes list \<Rightarrow> interp_error + stack" where
  "stack_new initial =
     bindE (check_elements initial) (\<lambda>_.
       if length initial > MAX_STACK_SIZE then Inl StackOverflow else Inr (rev initial))"

definition stack_push :: "stack \<Rightarrow> bytes \<Rightarrow> interp_error + stack" where
  "stack_push items item =
     (if length item > MAX_SCRIPT_ELEMENT_SIZE then Inl (ElementTooLarge (length item))
      else if length (item # items) > MAX_STACK_SIZE then Inl StackOverflow
      else Inr (item # items))"

definition stack_pop :: "stack \<Rightarrow> string \<Rightarrow> interp_error + (bytes \<times> stack)" where
  "stack_pop items opcode =
     (case items of [] \<Rightarrow> Inl (StackUnderflow opcode) | x # xs \<Rightarrow> Inr (x, xs))"

definition stack_top :: "stack \<Rightarrow> string \<Rightarrow> interp_error + bytes" where
  "stack_top items opcode = (case items of [] \<Rightarrow> Inl (StackUnderflow opcode) | x # xs \<Rightarrow> Inr x)"

section \<open>Taptree reconstruction, prevouts, signatures\<close>

definition LEAF_VERSION_TAPSCRIPT :: u8 where "LEAF_VERSION_TAPSCRIPT = 0xc0"

definition reconstruct_trigger_spk :: "libs \<Rightarrow> control_block \<Rightarrow> bytes \<Rightarrow> bytes" where
  "reconstruct_trigger_spk L control leaf_update =
     (let node = foldl (tap_node_from_nodes L)
                   (tap_node_from_script L leaf_update LEAF_VERSION_TAPSCRIPT)
                   (cb_merkle_branch control)
      in tap_tweaked_spk L (cb_internal_key control) node)"

definition ordered_prevouts :: "transaction \<Rightarrow> utxo_map \<Rightarrow> interp_error + tx_out list" where
  "ordered_prevouts tx prevouts =
     foldE (\<lambda>all input.
        bindE (ok_or (prevouts (txi_previous_output input)) MissingPrevout) (\<lambda>txout.
        Inr (all @ [txout]))) [] (tx_input tx)"

definition interp_acp :: "tap_sighash_type \<Rightarrow> bool" where
  "interp_acp t =
     (case t of AllPlusAnyoneCanPay \<Rightarrow> True | NonePlusAnyoneCanPay \<Rightarrow> True
      | SinglePlusAnyoneCanPay \<Rightarrow> True | _ \<Rightarrow> False)"

definition verify_schnorr :: "libs \<Rightarrow> bytes \<Rightarrow> bytes \<Rightarrow> leaf_context \<Rightarrow> interp_error + bool" where
  "verify_schnorr L sig_bytes pubkey_bytes ctx =
     (if length pubkey_bytes \<noteq> 32 then Inl (UnknownPubkeyType (length pubkey_bytes))
      else
        bindE (ok_or (xonly_from_slice L pubkey_bytes) (UnknownPubkeyType (length pubkey_bytes))) (\<lambda>xonly.
        bindE (ok_or (taproot_sig_from_slice L sig_bytes) BadSignatureEncoding) (\<lambda>(sig, sighash_type).
        let leaf_hash = tap_leaf_hash L (lc_leaf ctx) LEAF_VERSION_TAPSCRIPT in
        bindE (case lc_annex ctx of
                 Some bs \<Rightarrow> bindE (ok_or (annex_new L bs) MalformedScript) (\<lambda>a. Inr (Some a))
               | None \<Rightarrow> Inr None) (\<lambda>annex.
        bindE (if interp_acp sighash_type then
                 bindE (ok_or (lc_input_txout ctx) MissingPrevout) (\<lambda>txout.
                 Inr (PrevoutsOne (lc_input_index ctx) txout))
               else
                 bindE (ordered_prevouts (lc_tx ctx) (lc_prevouts ctx)) (\<lambda>all. Inr (PrevoutsAll all)))
          (\<lambda>prevouts.
        bindE (ok_or (taproot_signature_hash L (lc_tx ctx) (lc_input_index ctx) prevouts annex
                 (leaf_hash, NO_CODESEPARATOR) sighash_type) SighashError) (\<lambda>msg.
        Inr (schnorr_verify L sig msg xonly)))))))"

section \<open>Timelocks\<close>

definition check_sequence :: "int \<Rightarrow> transaction \<Rightarrow> nat \<Rightarrow> interp_error + unit" where
  "check_sequence n tx input_index =
     (if n AND SEQUENCE_LOCKTIME_DISABLE_FLAG \<noteq> 0 then Inr ()
      else if unat (tx_version tx) < 2 then Inl TimelockNotSatisfied
      else if input_index \<ge> length (tx_input tx) then Inl IndexPanic
      else
        let tx_seq = uint (txi_sequence (tx_input tx ! input_index)) in
        if tx_seq AND SEQUENCE_LOCKTIME_DISABLE_FLAG \<noteq> 0 then Inl TimelockNotSatisfied
        else
          let mask = SEQUENCE_LOCKTIME_TYPE_FLAG OR SEQUENCE_LOCKTIME_MASK;
              tx_masked = tx_seq AND mask;
              n_masked = n AND mask;
              same_type =
                (tx_masked < SEQUENCE_LOCKTIME_TYPE_FLAG \<and> n_masked < SEQUENCE_LOCKTIME_TYPE_FLAG)
                \<or> (tx_masked \<ge> SEQUENCE_LOCKTIME_TYPE_FLAG \<and> n_masked \<ge> SEQUENCE_LOCKTIME_TYPE_FLAG)
          in if \<not> same_type \<or> tx_masked < n_masked then Inl TimelockNotSatisfied else Inr ())"

definition check_locktime :: "int \<Rightarrow> transaction \<Rightarrow> nat \<Rightarrow> interp_error + unit" where
  "check_locktime n tx input_index =
     (let tx_lock = uint (tx_lock_time tx);
          same_type = (tx_lock < LOCKTIME_THRESHOLD \<and> n < LOCKTIME_THRESHOLD)
            \<or> (tx_lock \<ge> LOCKTIME_THRESHOLD \<and> n \<ge> LOCKTIME_THRESHOLD) in
      if \<not> same_type \<or> n > tx_lock then Inl TimelockNotSatisfied
      else if input_index \<ge> length (tx_input tx) then Inl IndexPanic
      else if txi_sequence (tx_input tx ! input_index) = 0xffffffff then Inl TimelockNotSatisfied
      else Inr ())"

section \<open>The vault opcodes\<close>

definition output_at :: "transaction \<Rightarrow> nat \<Rightarrow> interp_error + tx_out" where
  "output_at tx i = (if i < length (tx_output tx) then Inr (tx_output tx ! i) else Inl IndexPanic)"

text \<open>The loop that pops the \<open>push_count\<close> leaf-update items, first popped first.\<close>

fun pop_items :: "nat \<Rightarrow> stack \<Rightarrow> interp_error + (bytes list \<times> stack)" where
  "pop_items 0 s = Inr ([], s)"
| "pop_items (Suc k) s =
     bindE (stack_pop s ''OP_VAULT'') (\<lambda>(x, s).
     bindE (pop_items k s) (\<lambda>(items, s). Inr (x # items, s)))"

text \<open>The leaf-update script: the items, last popped first, as minimal pushes, then the body.\<close>

definition leaf_update_script :: "bytes list \<Rightarrow> bytes \<Rightarrow> bytes" where
  "leaf_update_script items body = foldl push_minimal [] (rev items) @ body"

text \<open>The first half of \<open>exec_op_vault\<close>: the arguments, parsed off the stack and checked.\<close>

record vault_args =
  va_leaf_update :: bytes
  va_trigger_idx :: nat
  va_revault_idx :: int
  va_revault_amount :: u64

definition parse_vault_args :: "int \<Rightarrow> stack \<Rightarrow> interp_error + (vault_args \<times> stack)" where
  "parse_vault_args num_outputs s =
     bindE (stack_pop s ''OP_VAULT'') (\<lambda>(body, s).
     bindE (stack_pop s ''OP_VAULT'') (\<lambda>(count_bytes, s).
     bindE (read_scriptnum count_bytes 4) (\<lambda>push_count.
     bindE (guardE (\<not> push_count < 0) VaultBadStack) (\<lambda>_.
     bindE (guardE (\<not> length s < 3 + nat push_count) VaultBadStack) (\<lambda>_.
     bindE (pop_items (nat push_count) s) (\<lambda>(items, s).
     bindE (stack_pop s ''OP_VAULT'') (\<lambda>(trigger_bytes, s).
     bindE (read_scriptnum trigger_bytes 4) (\<lambda>trigger_idx.
     bindE (guardE (\<not> (trigger_idx < 0 \<or> trigger_idx \<ge> num_outputs)) VaultBadStack) (\<lambda>_.
     bindE (stack_pop s ''OP_VAULT'') (\<lambda>(revault_bytes, s).
     bindE (read_scriptnum revault_bytes 4) (\<lambda>revault_idx.
     bindE (guardE (\<not> (revault_idx \<ge> num_outputs \<or> (revault_idx < 0 \<and> revault_idx \<noteq> - 1)))
       VaultBadStack) (\<lambda>_.
     bindE (stack_pop s ''OP_VAULT'') (\<lambda>(amount_bytes, s).
     bindE (read_scriptnum amount_bytes 7) (\<lambda>revault_amount.
     bindE (guardE (\<not> (revault_amount < 0 \<or> (revault_amount > 0 \<and> revault_idx < 0)
              \<or> (revault_amount = 0 \<and> revault_idx \<noteq> - 1))) VaultBadStack) (\<lambda>_.
     Inr (\<lparr>va_leaf_update = leaf_update_script items body, va_trigger_idx = nat trigger_idx,
           va_revault_idx = revault_idx, va_revault_amount = word_of_int revault_amount\<rparr>, s))))))))))))))))"

text \<open>The second half: the trigger output, the revault output, the value, the deferred check.\<close>

definition check_vault_outputs ::
  "libs \<Rightarrow> leaf_context \<Rightarrow> tx_out \<Rightarrow> vault_args \<Rightarrow> interp_error + deferred_check" where
  "check_vault_outputs L ctx input_txout args =
     bindE (output_at (lc_tx ctx) (va_trigger_idx args)) (\<lambda>trigger_out.
     bindE (guardE (script_is_p2tr L (txo_script_pubkey trigger_out)) VaultTriggerNotV1) (\<lambda>_.
     bindE (guardE (txo_script_pubkey trigger_out
              = reconstruct_trigger_spk L (lc_control ctx) (va_leaf_update args))
       VaultTriggerMismatch) (\<lambda>_.
     bindE (if va_revault_idx args \<ge> 0 then
              bindE (output_at (lc_tx ctx) (nat (va_revault_idx args))) (\<lambda>revault_out.
              bindE (guardE (txo_script_pubkey revault_out = txo_script_pubkey input_txout)
                VaultRevaultMismatch) (\<lambda>_. Inr (txo_value revault_out)))
            else Inr 0) (\<lambda>revault_value.
     bindE (ok_or (checked_add_u64 (txo_value trigger_out) revault_value) VaultValueNotPreserved) (\<lambda>total.
     bindE (guardE (\<not> total < txo_value input_txout) VaultValueNotPreserved) (\<lambda>_.
     Inr (Trigger (txo_value input_txout) (va_revault_amount args) (va_trigger_idx args)
            (va_revault_idx args))))))))"

definition exec_op_vault :: "libs \<Rightarrow> leaf_context \<Rightarrow> exec_state \<Rightarrow> interp_error + exec_state" where
  "exec_op_vault L ctx st =
     bindE (ok_or (lc_input_txout ctx) MissingPrevout) (\<lambda>input_txout.
     bindE (parse_vault_args (int (length (tx_output (lc_tx ctx)))) (es_stack st)) (\<lambda>(args, s).
     bindE (check_vault_outputs L ctx input_txout args) (\<lambda>check.
     bindE (stack_push s [1]) (\<lambda>s.
     Inr \<lparr>es_stack = s, es_deferred = es_deferred st @ [check]\<rparr>))))"

definition exec_op_vault_recover :: "libs \<Rightarrow> leaf_context \<Rightarrow> exec_state \<Rightarrow> interp_error + exec_state" where
  "exec_op_vault_recover L ctx st =
     (let num_outputs = int (length (tx_output (lc_tx ctx))) in
      bindE (ok_or (lc_input_txout ctx) MissingPrevout) (\<lambda>input_txout.
      bindE (stack_pop (es_stack st) ''OP_VAULT_RECOVER'') (\<lambda>(hash_arg, s).
      bindE (guardE (length hash_arg = RECOVERY_SPK_HASH_LEN) (VaultRecoverBadHashLen (length hash_arg))) (\<lambda>_.
      bindE (stack_pop s ''OP_VAULT_RECOVER'') (\<lambda>(idx_bytes, s).
      bindE (read_scriptnum idx_bytes 4) (\<lambda>vout_idx.
      bindE (guardE (\<not> (vout_idx < 0 \<or> vout_idx \<ge> num_outputs)) VaultBadStack) (\<lambda>_.
      let vout_idx = nat vout_idx in
      bindE (output_at (lc_tx ctx) vout_idx) (\<lambda>recovery_out.
      bindE (guardE (vault_recovery_spk_hash L (txo_script_pubkey recovery_out) = hash_arg)
        VaultRecoverMismatch) (\<lambda>_.
      let deferred = es_deferred st @ [Recovery (txo_value input_txout) vout_idx] in
      bindE (stack_push s [1]) (\<lambda>s.
      Inr \<lparr>es_stack = s, es_deferred = deferred\<rparr>))))))))))"

section \<open>One opcode\<close>

text \<open>A result stack with the deferred checks unchanged.\<close>

definition with_stack :: "exec_state \<Rightarrow> interp_error + stack \<Rightarrow> interp_error + exec_state" where
  "with_stack st m = bindE m (\<lambda>s. Inr (st\<lparr>es_stack := s\<rparr>))"

definition exec_cat :: "stack \<Rightarrow> interp_error + stack" where
  "exec_cat s =
     bindE (stack_pop s ''OP_CAT'') (\<lambda>(x2, s).
     bindE (stack_pop s ''OP_CAT'') (\<lambda>(x1, s).
     let cat = x1 @ x2 in
     if length cat > MAX_SCRIPT_ELEMENT_SIZE then Inl (ElementTooLarge (length cat))
     else stack_push s cat))"

definition exec_ctv :: "libs \<Rightarrow> leaf_context \<Rightarrow> stack \<Rightarrow> interp_error + stack" where
  "exec_ctv L ctx s =
     bindE (stack_top s ''OP_CHECKTEMPLATEVERIFY'') (\<lambda>arg.
     if length arg \<noteq> INTERP_CTV_HASH_LEN then Inl (CtvBadArgLength (length arg))
     else if arg \<noteq> default_check_template_verify_hash L (lc_tx ctx) (lc_input_index ctx)
     then Inl CtvTemplateMismatch
     else Inr s)"

text \<open>The four hash opcodes share their shape.\<close>

definition exec_hash :: "(bytes \<Rightarrow> bytes) \<Rightarrow> string \<Rightarrow> stack \<Rightarrow> interp_error + stack" where
  "exec_hash h opcode s = bindE (stack_pop s opcode) (\<lambda>(top, s). stack_push s (h top))"

definition exec_stack_op :: "u8 \<Rightarrow> stack \<Rightarrow> interp_error + stack" where
  "exec_stack_op op s =
     (if op = OP_DUP then
        bindE (stack_pop s ''OP_DUP'') (\<lambda>(top, s).
        bindE (stack_push s top) (\<lambda>s. stack_push s top))
      else if op = OP_DROP then bindE (stack_pop s ''OP_DROP'') (\<lambda>(_, s). Inr s)
      else
        bindE (stack_pop s ''OP_SWAP'') (\<lambda>(a, s).
        bindE (stack_pop s ''OP_SWAP'') (\<lambda>(b, s).
        bindE (stack_push s a) (\<lambda>s. stack_push s b))))"

definition exec_compare_op :: "u8 \<Rightarrow> stack \<Rightarrow> interp_error + stack" where
  "exec_compare_op op s =
     (if op = OP_EQUAL then
        bindE (stack_pop s ''OP_EQUAL'') (\<lambda>(a, s).
        bindE (stack_pop s ''OP_EQUAL'') (\<lambda>(b, s).
        stack_push s (if a = b then [1] else [])))
      else if op = OP_EQUALVERIFY then
        bindE (stack_pop s ''OP_EQUALVERIFY'') (\<lambda>(a, s).
        bindE (stack_pop s ''OP_EQUALVERIFY'') (\<lambda>(b, s).
        if a = b then Inr s else Inl VerifyFailed))
      else
        bindE (stack_pop s ''OP_VERIFY'') (\<lambda>(top, s).
        if is_truthy top then Inr s else Inl VerifyFailed))"

definition exec_timelock_op :: "u8 \<Rightarrow> leaf_context \<Rightarrow> stack \<Rightarrow> interp_error + stack" where
  "exec_timelock_op op ctx s =
     (if op = OP_CSV then
        bindE (stack_top s ''OP_CHECKSEQUENCEVERIFY'') (\<lambda>top.
        bindE (read_scriptnum top 5) (\<lambda>n.
        if n < 0 then Inl TimelockNotSatisfied
        else bindE (check_sequence n (lc_tx ctx) (lc_input_index ctx)) (\<lambda>_. Inr s)))
      else
        bindE (stack_top s ''OP_CHECKLOCKTIMEVERIFY'') (\<lambda>top.
        bindE (read_scriptnum top 5) (\<lambda>n.
        if n < 0 then Inl TimelockNotSatisfied
        else bindE (check_locktime n (lc_tx ctx) (lc_input_index ctx)) (\<lambda>_. Inr s))))"

definition exec_sig_op :: "libs \<Rightarrow> u8 \<Rightarrow> leaf_context \<Rightarrow> stack \<Rightarrow> interp_error + stack" where
  "exec_sig_op L op ctx s =
     (if op = OP_CHECKSIG then
        bindE (stack_pop s ''OP_CHECKSIG'') (\<lambda>(pubkey, s).
        bindE (stack_pop s ''OP_CHECKSIG'') (\<lambda>(sig, s).
        if sig = [] then stack_push s []
        else bindE (verify_schnorr L sig pubkey ctx) (\<lambda>ok.
          if ok then stack_push s [1] else Inl SchnorrVerifyFailed)))
      else if op = OP_CHECKSIGVERIFY then
        bindE (stack_pop s ''OP_CHECKSIGVERIFY'') (\<lambda>(pubkey, s).
        bindE (stack_pop s ''OP_CHECKSIGVERIFY'') (\<lambda>(sig, s).
        if sig = [] then Inl VerifyFailed
        else bindE (verify_schnorr L sig pubkey ctx) (\<lambda>ok.
          if ok then Inr s else Inl SchnorrVerifyFailed)))
      else
        bindE (stack_pop s ''OP_CHECKSIGADD'') (\<lambda>(pubkey, s).
        bindE (stack_pop s ''OP_CHECKSIGADD'') (\<lambda>(num, s).
        bindE (read_scriptnum num 4) (\<lambda>n.
        bindE (stack_pop s ''OP_CHECKSIGADD'') (\<lambda>(sig, s).
        if sig = [] then stack_push s (encode_scriptnum n)
        else bindE (verify_schnorr L sig pubkey ctx) (\<lambda>ok.
          if ok then stack_push s (encode_scriptnum (n + 1)) else Inl SchnorrVerifyFailed))))))"

definition exec_op :: "libs \<Rightarrow> leaf_context \<Rightarrow> exec_state \<Rightarrow> u8 \<Rightarrow> interp_error + exec_state" where
  "exec_op L ctx st op =
     (let s = es_stack st in
      if op = OP_CAT then with_stack st (exec_cat s)
      else if op = OP_CTV then with_stack st (exec_ctv L ctx s)
      else if op = OP_VAULT then exec_op_vault L ctx st
      else if op = OP_VAULT_RECOVER then exec_op_vault_recover L ctx st
      else if OP_PUSHNUM_1 \<le> op \<and> op \<le> OP_PUSHNUM_16 then
        with_stack st (stack_push s [op - (OP_PUSHNUM_1 - 1)])
      else if op = OP_DUP \<or> op = OP_DROP \<or> op = OP_SWAP then with_stack st (exec_stack_op op s)
      else if op = OP_EQUAL \<or> op = OP_EQUALVERIFY \<or> op = OP_VERIFY then
        with_stack st (exec_compare_op op s)
      else if op = OP_SHA256 then with_stack st (exec_hash (sha256_hash L) ''OP_SHA256'' s)
      else if op = OP_HASH256 then with_stack st (exec_hash (sha256d_hash L) ''OP_HASH256'' s)
      else if op = OP_HASH160 then with_stack st (exec_hash (hash160_hash L) ''OP_HASH160'' s)
      else if op = OP_RIPEMD160 then with_stack st (exec_hash (ripemd160_hash L) ''OP_RIPEMD160'' s)
      else if op = OP_CSV \<or> op = OP_CLTV then with_stack st (exec_timelock_op op ctx s)
      else if op = OP_CHECKSIG \<or> op = OP_CHECKSIGVERIFY \<or> op = OP_CHECKSIGADD then
        with_stack st (exec_sig_op L op ctx s)
      else Inl (UnimplementedOpcode op))"

section \<open>A leaf\<close>

definition exec_item :: "libs \<Rightarrow> leaf_context \<Rightarrow> exec_state \<Rightarrow> instr_item \<Rightarrow> interp_error + exec_state" where
  "exec_item L ctx st item =
     bindE (ok_or item MalformedScript) (\<lambda>instruction.
       case instruction of
         PushBytes bs \<Rightarrow> with_stack st (stack_push (es_stack st) bs)
       | Op op \<Rightarrow> exec_op L ctx st op)"

text \<open>On success the result is the queue of deferred checks.\<close>

definition execute_leaf ::
  "libs \<Rightarrow> leaf_context \<Rightarrow> bytes list \<Rightarrow> deferred_check list \<Rightarrow> interp_error + deferred_check list" where
  "execute_leaf L ctx initial_stack deferred =
     bindE (stack_new initial_stack) (\<lambda>stack.
     bindE (foldE (exec_item L ctx) \<lparr>es_stack = stack, es_deferred = deferred\<rparr>
              (script_instructions L (lc_leaf ctx))) (\<lambda>st.
       case es_stack st of
         [x] \<Rightarrow> if is_truthy x then Inr (es_deferred st) else Inl EvalFalse
       | xs \<Rightarrow> Inl (CleanStackRequired (length xs))))"

section \<open>Deferred checks\<close>

text \<open>\<open>out_map.entry(idx).or_insert(0)\<close> and the checked addition.\<close>

definition add_demand :: "(nat \<times> u64) list \<Rightarrow> nat \<Rightarrow> u64 \<Rightarrow> interp_error + (nat \<times> u64) list" where
  "add_demand out_map idx amount =
     (let entry = (case map_of out_map idx of None \<Rightarrow> 0 | Some v \<Rightarrow> v) in
      bindE (ok_or (checked_add_u64 entry amount) VaultValueNotPreserved) (\<lambda>v.
      Inr (AList.update idx v out_map)))"

fun collect_demand :: "(nat \<times> u64) list \<Rightarrow> deferred_check \<Rightarrow> interp_error + (nat \<times> u64) list" where
  "collect_demand out_map (Trigger input_amount revault_amount trigger_idx revault_idx) =
     bindE (ok_or (checked_sub_u64 input_amount revault_amount) VaultValueNotPreserved) (\<lambda>carry.
     bindE (add_demand out_map trigger_idx carry) (\<lambda>out_map.
     if revault_amount > 0 then add_demand out_map (nat revault_idx) revault_amount
     else Inr out_map))"
| "collect_demand out_map (Recovery input_amount vout_idx) = add_demand out_map vout_idx input_amount"

definition check_demand :: "transaction \<Rightarrow> unit \<Rightarrow> nat \<times> u64 \<Rightarrow> interp_error + unit" where
  "check_demand tx u x =
     (case x of (idx, amount) \<Rightarrow>
        bindE (output_at tx idx) (\<lambda>out.
        if txo_value out < amount then Inl VaultValueNotPreserved else Inr ()))"

definition evaluate_deferred_checks :: "deferred_check list \<Rightarrow> transaction \<Rightarrow> interp_error + unit" where
  "evaluate_deferred_checks checks tx =
     (if checks = [] then Inr ()
      else bindE (foldE collect_demand [] checks) (\<lambda>out_map. foldE (check_demand tx) () out_map))"

end
