(* ===== verification/Interp_Deferred.thy ===== *)
theory Interp_Deferred
  imports Interp
begin

text \<open>
  The deferred value checks of the vault opcodes (\<open>evaluate_deferred_checks\<close> of
  \<open>lib/validator/tapscript/interp.rs\<close>) against their specification: the amounts that the checks
  demand of each output, added up over all inputs as natural numbers, are at most the output's
  value. The accumulator of the code is a map of 64-bit sums; the lemmas show that its checked
  additions never make it disagree with the unbounded sums.
\<close>

section \<open>The specification\<close>

text \<open>What one check demands, as pairs of an output index and an amount.\<close>

fun check_demands :: "deferred_check \<Rightarrow> (nat \<times> nat) list" where
  "check_demands (Trigger a r t v) =
     (t, unat a - unat r) # (if r > 0 then [(nat v, unat r)] else [])"
| "check_demands (Recovery a i) = [(i, unat a)]"

definition demand_at :: "nat \<Rightarrow> (nat \<times> nat) list \<Rightarrow> nat" where
  "demand_at i ds = sum_list (map snd (filter (\<lambda>d. fst d = i) ds))"

definition total_demand :: "deferred_check list \<Rightarrow> nat \<Rightarrow> nat" where
  "total_demand checks i = demand_at i (concat (map check_demands checks))"

fun no_underflow :: "deferred_check \<Rightarrow> bool" where
  "no_underflow (Trigger a r t v) = (r \<le> a)"
| "no_underflow (Recovery a i) = True"

text \<open>The indices that the opcodes queue, as they have checked them.\<close>

fun indices_ok :: "nat \<Rightarrow> deferred_check \<Rightarrow> bool" where
  "indices_ok n (Trigger a r t v) = (t < n \<and> (r > 0 \<longrightarrow> 0 \<le> v \<and> nat v < n))"
| "indices_ok n (Recovery a i) = (i < n)"

definition demands_met :: "deferred_check list \<Rightarrow> transaction \<Rightarrow> bool" where
  "demands_met checks tx =
     (list_all no_underflow checks
      \<and> (\<forall>i < length (tx_output tx). total_demand checks i \<le> unat (txo_value (tx_output tx ! i))))"

lemma demand_at_simps [simp]:
  "demand_at i [] = 0"
  "demand_at i (d # ds) = (if fst d = i then snd d + demand_at i ds else demand_at i ds)"
  "demand_at i (xs @ ys) = demand_at i xs + demand_at i ys"
  by (simp_all add: demand_at_def)

lemma total_demand_Cons:
  "total_demand (c # cs) i = demand_at i (check_demands c) + total_demand cs i"
  by (simp add: total_demand_def)

section \<open>The accumulator\<close>

definition accumulates :: "(nat \<times> u64) list \<Rightarrow> (nat \<Rightarrow> nat) \<Rightarrow> bool" where
  "accumulates m f =
     (distinct (map fst m) \<and> (\<forall>i. f i = (case map_of m i of None \<Rightarrow> 0 | Some v \<Rightarrow> unat v)))"

lemma accumulates_Nil [simp]: "accumulates [] (\<lambda>_. 0)"
  by (simp add: accumulates_def)

lemma entry_value:
  "accumulates m f \<Longrightarrow> unat (case map_of m i of None \<Rightarrow> 0 | Some v \<Rightarrow> v) = f i"
  by (auto simp: accumulates_def split: option.splits)

lemma add_demand_Inr:
  assumes "accumulates m f" and "add_demand m i a = Inr m'"
  shows "accumulates m' (f(i := f i + unat a))"
proof -
  obtain v where v: "unat v = f i + unat a" and m': "m' = AList.update i v m"
    using assms by (auto simp: add_demand_def Let_def checked_add_u64_Some entry_value)
  have "distinct (map fst m')"
    using assms(1) by (simp add: m' accumulates_def distinct_update)
  then show ?thesis
    using assms(1) v by (auto simp: accumulates_def m' update_conv')
qed

lemma add_demand_Inl:
  assumes "accumulates m f" and "add_demand m i a = Inl e"
  shows "e = VaultValueNotPreserved \<and> 2 ^ 64 \<le> f i + unat a"
  using assms by (auto simp: add_demand_def Let_def res_Inl_iffs checked_add_u64_None entry_value)

text \<open>One check, in both outcomes.\<close>

lemma collect_demand_Inr:
  assumes "accumulates m f" and "collect_demand m c = Inr m'"
  shows "no_underflow c \<and> accumulates m' (\<lambda>i. f i + demand_at i (check_demands c))"
proof (cases c)
  case (Recovery a i)
  have "accumulates m' (f(i := f i + unat a))"
    using assms by (auto simp: Recovery intro: add_demand_Inr)
  moreover have "f(i := f i + unat a) = (\<lambda>j. f j + demand_at j (check_demands c))"
    by (auto simp: Recovery)
  ultimately show ?thesis by (simp add: Recovery)
next
  case (Trigger a r t v)
  obtain carry m1 where carry: "unat r \<le> unat a" "unat carry = unat a - unat r"
    and m1: "add_demand m t carry = Inr m1"
    and m': "if r > 0 then add_demand m1 (nat v) r = Inr m' else m' = m1"
    using assms(2) by (auto simp: Trigger checked_sub_u64_Some split: if_splits)
  let ?f = "f(t := f t + unat carry)"
  have acc: "accumulates m1 ?f" using assms(1) m1 by (rule add_demand_Inr)
  have "accumulates m' (\<lambda>i. f i + demand_at i (check_demands c))"
  proof (cases "r > 0")
    case True
    then have "add_demand m1 (nat v) r = Inr m'" using m' by simp
    then have "accumulates m' (?f(nat v := ?f (nat v) + unat r))"
      by (rule add_demand_Inr [OF acc])
    moreover have "?f(nat v := ?f (nat v) + unat r) = (\<lambda>i. f i + demand_at i (check_demands c))"
      using True carry by (auto simp: Trigger)
    ultimately show ?thesis by simp
  next
    case False
    moreover have "?f = (\<lambda>i. f i + demand_at i (check_demands c))"
      using False carry by (auto simp: Trigger)
    ultimately show ?thesis using m' acc by simp
  qed
  then show ?thesis using carry(1) by (simp add: Trigger word_le_nat_alt)
qed

lemma collect_demand_Inl:
  assumes "accumulates m f" and "collect_demand m c = Inl e"
  shows "e = VaultValueNotPreserved
    \<and> (no_underflow c \<longrightarrow> (\<exists>i \<in> fst ` set (check_demands c). 2 ^ 64 \<le> f i + demand_at i (check_demands c)))"
proof (cases c)
  case (Recovery a i)
  then show ?thesis using add_demand_Inl [OF assms(1)] assms(2) by simp
next
  case (Trigger a r t v)
  show ?thesis
  proof (cases "r \<le> a")
    case False
    then show ?thesis
      using assms(2) by (simp add: Trigger checked_sub_u64_def)
  next
    case True
    then obtain carry where carry: "checked_sub_u64 a r = Some carry" "unat carry = unat a - unat r"
      using checked_sub_u64_Some [of a r "a - r"] by (auto simp: checked_sub_u64_def word_le_nat_alt)
    show ?thesis
    proof (cases "add_demand m t carry")
      case (Inl d)
      then show ?thesis
        using add_demand_Inl [OF assms(1) Inl] assms(2) carry by (auto simp: Trigger)
    next
      case (Inr m1)
      then have r: "r > 0" and bad: "add_demand m1 (nat v) r = Inl e"
        using assms(2) carry by (auto simp: Trigger split: if_splits)
      from add_demand_Inl [OF add_demand_Inr [OF assms(1) Inr] bad] r carry
      show ?thesis by (auto simp: Trigger split: if_splits)
    qed
  qed
qed

lemma collect_all_Inr:
  "accumulates m f \<Longrightarrow> foldE collect_demand m checks = Inr m' \<Longrightarrow>
   list_all no_underflow checks \<and> accumulates m' (\<lambda>i. f i + total_demand checks i)"
proof (induction checks arbitrary: m f)
  case Nil
  then show ?case by (simp add: total_demand_def)
next
  case (Cons c checks)
  then obtain m1 where m1: "collect_demand m c = Inr m1" "foldE collect_demand m1 checks = Inr m'"
    by auto
  show ?case
    using collect_demand_Inr [OF Cons.prems(1) m1(1)] Cons.IH [OF _ m1(2)]
    by (fastforce simp: total_demand_Cons add.assoc)
qed

lemma collect_all_Inl:
  "accumulates m f \<Longrightarrow> foldE collect_demand m checks = Inl e \<Longrightarrow>
   e = VaultValueNotPreserved
   \<and> (list_all no_underflow checks \<longrightarrow>
       (\<exists>c \<in> set checks. \<exists>i \<in> fst ` set (check_demands c). 2 ^ 64 \<le> f i + total_demand checks i))"
proof (induction checks arbitrary: m f)
  case (Cons c checks)
  show ?case
  proof (cases "collect_demand m c")
    case (Inl d)
    then show ?thesis
      using collect_demand_Inl [OF Cons.prems(1) Inl] Cons.prems(2)
      by (fastforce simp: total_demand_Cons)
  next
    case (Inr m1)
    then have "foldE collect_demand m1 checks = Inl e" using Cons.prems(2) by simp
    from Cons.IH [OF conjunct2 [OF collect_demand_Inr [OF Cons.prems(1) Inr]] this]
    show ?thesis by (auto simp: total_demand_Cons add.assoc)
  qed
qed simp

lemma demand_index_bound:
  "indices_ok n c \<Longrightarrow> i \<in> fst ` set (check_demands c) \<Longrightarrow> i < n"
  by (cases c) (auto split: if_splits)

lemma check_demands_loop:
  "\<forall>(i, v) \<in> set m. i < length (tx_output tx) \<Longrightarrow>
   foldE (check_demand tx) () m =
     (if \<forall>(i, v) \<in> set m. v \<le> txo_value (tx_output tx ! i) then Inr () else Inl VaultValueNotPreserved)"
  by (induction m) (auto simp: check_demand_def output_at_def not_less)

text \<open>Outputs with no demand are trivially served; indices with a demand are in the map.\<close>

lemma total_demand_support:
  "0 < total_demand checks i \<Longrightarrow> \<exists>c \<in> set checks. i \<in> fst ` set (check_demands c)"
proof (induction checks)
  case Nil
  then show ?case by (simp add: total_demand_def)
next
  case (Cons c checks)
  have "0 < demand_at i ds \<Longrightarrow> i \<in> fst ` set ds" for ds
    by (induction ds) (auto split: if_splits)
  then show ?case using Cons by (auto simp: total_demand_Cons)
qed

lemma add_demand_keys: "add_demand m i a = Inr m' \<Longrightarrow> fst ` set m' = insert i (fst ` set m)"
proof -
  assume "add_demand m i a = Inr m'"
  then obtain v where "m' = AList.update i v m" by (auto simp: add_demand_def Let_def)
  then show ?thesis by (simp add: dom_update)
qed

lemma collect_demand_keys:
  "collect_demand m c = Inr m' \<Longrightarrow> fst ` set m' = fst ` set m \<union> fst ` set (check_demands c)"
proof (cases c)
  case (Trigger a r t v)
  assume "collect_demand m c = Inr m'"
  then obtain carry m1 where m1: "add_demand m t carry = Inr m1"
    and m': "if r > 0 then add_demand m1 (nat v) r = Inr m' else m' = m1"
    by (auto simp: Trigger split: if_splits)
  show ?thesis
    using add_demand_keys [OF m1] m' add_demand_keys [of m1 "nat v" r m']
    by (simp add: Trigger insert_commute split: if_splits)
next
  case (Recovery a i)
  assume "collect_demand m c = Inr m'"
  then show ?thesis using add_demand_keys [of m i a m'] by (simp add: Recovery)
qed

lemma collect_all_keys:
  "foldE collect_demand m checks = Inr m' \<Longrightarrow>
   fst ` set m' = fst ` set m \<union> (\<Union>c \<in> set checks. fst ` set (check_demands c))"
proof (induction checks arbitrary: m)
  case (Cons c checks)
  then obtain m1 where m1: "collect_demand m c = Inr m1" "foldE collect_demand m1 checks = Inr m'"
    by auto
  show ?case
    using collect_demand_keys [OF m1(1)] Cons.IH [OF m1(2)] by (simp add: Un_assoc)
qed simp

lemma evaluate_cases:
  assumes "list_all (indices_ok (length (tx_output tx))) checks"
  shows "evaluate_deferred_checks checks tx =
    (if demands_met checks tx then Inr () else Inl VaultValueNotPreserved)"
proof (cases "checks = []")
  case True
  then show ?thesis
    by (simp add: evaluate_deferred_checks_def demands_met_def total_demand_def)
next
  case False
  let ?outs = "tx_output tx"
  have idx: "i < length ?outs" if "c \<in> set checks" "i \<in> fst ` set (check_demands c)" for c i
    by (rule demand_index_bound [OF _ that(2)]) (use assms that(1) in \<open>simp add: list_all_iff\<close>)
  show ?thesis
  proof (cases "foldE collect_demand [] checks")
    case (Inl e)
    from collect_all_Inl [OF accumulates_Nil Inl]
    have e: "e = VaultValueNotPreserved" and
      big: "list_all no_underflow checks \<longrightarrow>
        (\<exists>c \<in> set checks. \<exists>i \<in> fst ` set (check_demands c). 2 ^ 64 \<le> total_demand checks i)"
      by simp_all
    have "\<not> demands_met checks tx"
    proof
      assume met: "demands_met checks tx"
      then obtain c i where c: "c \<in> set checks" "i \<in> fst ` set (check_demands c)"
        and i: "2 ^ 64 \<le> total_demand checks i"
        using big unfolding demands_met_def by blast
      have "total_demand checks i \<le> unat (txo_value (?outs ! i))"
        using met idx [OF c] unfolding demands_met_def by blast
      moreover have "unat (txo_value (?outs ! i)) < 2 ^ 64"
        using unsigned_less [of "txo_value (?outs ! i)"] by simp
      ultimately show False using i by linarith
    qed
    then show ?thesis using False Inl e by (simp add: evaluate_deferred_checks_def)
  next
    case (Inr m)
    from collect_all_Inr [OF accumulates_Nil Inr]
    have nu: "list_all no_underflow checks" and acc: "accumulates m (total_demand checks)"
      by simp_all
    have dist: "distinct (map fst m)" and
      val: "total_demand checks i = (case map_of m i of None \<Rightarrow> 0 | Some v \<Rightarrow> unat v)" for i
      using acc by (simp_all add: accumulates_def)
    have entry: "unat v = total_demand checks i" if "(i, v) \<in> set m" for i v
      using val [of i] map_of_is_SomeI [OF dist that] by simp
    have keys: "fst ` set m \<subseteq> (\<Union>c \<in> set checks. fst ` set (check_demands c))"
      using collect_all_keys [OF Inr] by simp
    have "\<forall>(i, v) \<in> set m. i < length ?outs"
      using keys idx by fastforce
    from check_demands_loop [OF this]
    have ev: "evaluate_deferred_checks checks tx =
      (if \<forall>(i, v) \<in> set m. v \<le> txo_value (?outs ! i) then Inr () else Inl VaultValueNotPreserved)"
      using False Inr by (simp add: evaluate_deferred_checks_def)
    have "(\<forall>(i, v) \<in> set m. v \<le> txo_value (?outs ! i)) = demands_met checks tx"
    proof
      assume all: "\<forall>(i, v) \<in> set m. v \<le> txo_value (?outs ! i)"
      have "total_demand checks i \<le> unat (txo_value (?outs ! i))" for i
      proof (cases "map_of m i")
        case (Some v)
        then have "v \<le> txo_value (?outs ! i)" using all map_of_SomeD by fastforce
        then show ?thesis using val [of i] Some by (simp add: word_le_nat_alt)
      qed (use val [of i] in simp)
      then show "demands_met checks tx" using nu by (simp add: demands_met_def)
    next
      assume met: "demands_met checks tx"
      show "\<forall>(i, v) \<in> set m. v \<le> txo_value (?outs ! i)"
        using met entry \<open>\<forall>(i, v) \<in> set m. i < length ?outs\<close>
        by (fastforce simp: demands_met_def word_le_nat_alt)
    qed
    then show ?thesis using ev by simp
  qed
qed

end
