(* ===== verification/Interp_Ops.thy ===== *)
theory Interp_Ops
  imports Interp_Deferred
begin

text \<open>
  What the opcodes of the interpreter do: the bounds of the stack as an invariant of execution,
  the effect of every opcode on success, and the run of a whole leaf. The vault opcodes and the
  signature and timelock opcodes get a complete account of what their success implies.
\<close>

section \<open>The stack\<close>

definition stack_ok :: "stack \<Rightarrow> bool" where
  "stack_ok s = (length s \<le> MAX_STACK_SIZE \<and> list_all (\<lambda>x. length x \<le> MAX_SCRIPT_ELEMENT_SIZE) s)"

lemma stack_push_ok [simp]:
  "(stack_push s x = Inr s') =
    (length x \<le> MAX_SCRIPT_ELEMENT_SIZE \<and> length s < MAX_STACK_SIZE \<and> s' = x # s)"
  by (auto simp: stack_push_def)

lemma stack_pop_ok [simp]: "(stack_pop s opcode = Inr r) = (s = fst r # snd r)"
  by (cases s; cases r) (auto simp: stack_pop_def)

lemma stack_top_ok [simp]: "(stack_top s opcode = Inr x) = (\<exists>r. s = x # r)"
  by (cases s) (auto simp: stack_top_def)

lemma pop_items_ok [simp]:
  "(pop_items k s = Inr r) = (s = fst r @ snd r \<and> length (fst r) = k)"
proof (induction k arbitrary: s r)
  case 0
  then show ?case by (cases r) auto
next
  case (Suc k)
  show ?case
    by (cases s; cases r) (auto simp: Suc.IH length_Suc_conv stack_pop_def Cons_eq_append_conv)
qed

lemma check_elements_ok [simp]:
  "(check_elements xs = Inr u) = list_all (\<lambda>x. length x \<le> MAX_SCRIPT_ELEMENT_SIZE) xs"
  by (induction xs) auto

lemma stack_new_ok [simp]: "(stack_new xs = Inr s) = (s = rev xs \<and> stack_ok s)"
  by (auto simp: stack_new_def stack_ok_def list_all_iff)

lemma with_stack_ok [simp]:
  "(with_stack st m = Inr st') = (\<exists>s. m = Inr s \<and> st' = st\<lparr>es_stack := s\<rparr>)"
  by (auto simp: with_stack_def)

lemma output_at_ok [simp]:
  "(output_at tx i = Inr out) = (i < length (tx_output tx) \<and> out = tx_output tx ! i)"
  by (auto simp: output_at_def)

section \<open>The vault opcodes\<close>

lemma leaf_update_script_eq:
  "leaf_update_script items body = concat (map (push_minimal []) (rev items)) @ body"
proof -
  have "foldl push_minimal out xs = out @ concat (map (push_minimal []) xs)" for out xs
  proof (induction xs arbitrary: out)
    case (Cons x xs)
    show ?case
      using push_minimal_append [of out x] by (simp add: Cons.IH)
  qed simp
  then show ?thesis by (simp add: leaf_update_script_def)
qed

text \<open>Elimination of a successful chain of fallible steps, one rule per kind of step.\<close>

lemma bindE_InrE: "bindE m k = Inr y \<Longrightarrow> (\<And>x. m = Inr x \<Longrightarrow> k x = Inr y \<Longrightarrow> P) \<Longrightarrow> P"
  by auto

lemma guard_bindE: "bindE (guardE b e) k = Inr y \<Longrightarrow> (b \<Longrightarrow> k () = Inr y \<Longrightarrow> P) \<Longrightarrow> P"
  by auto

lemma pop_bindE:
  "bindE (stack_pop s opcode) (\<lambda>(x, s'). k x s') = Inr y \<Longrightarrow>
   (\<And>x s'. s = x # s' \<Longrightarrow> k x s' = Inr y \<Longrightarrow> P) \<Longrightarrow> P"
  by auto

lemma items_bindE:
  "bindE (pop_items n s) (\<lambda>(x, s'). k x s') = Inr y \<Longrightarrow>
   (\<And>x s'. s = x @ s' \<Longrightarrow> length x = n \<Longrightarrow> k x s' = Inr y \<Longrightarrow> P) \<Longrightarrow> P"
  by auto

lemma pair_bindE:
  "bindE m (\<lambda>(a, b). k a b) = Inr y \<Longrightarrow> (\<And>a b. m = Inr (a, b) \<Longrightarrow> k a b = Inr y \<Longrightarrow> P) \<Longrightarrow> P"
  by auto

lemmas res_elims = pop_bindE items_bindE guard_bindE pair_bindE bindE_InrE

lemma parse_vault_args_ok:
  assumes "parse_vault_args n s = Inr (args, rest)"
  shows "\<exists>body count items tb rb ab pc ti ri ra.
      s = body # count # items @ tb # rb # ab # rest
    \<and> read_scriptnum count 4 = Inr pc \<and> \<not> pc < 0 \<and> length items = nat pc
    \<and> read_scriptnum tb 4 = Inr ti \<and> \<not> (ti < 0 \<or> ti \<ge> n)
    \<and> read_scriptnum rb 4 = Inr ri \<and> \<not> (ri \<ge> n \<or> (ri < 0 \<and> ri \<noteq> - 1))
    \<and> read_scriptnum ab 7 = Inr ra \<and> \<not> (ra < 0 \<or> (ra > 0 \<and> ri < 0) \<or> (ra = 0 \<and> ri \<noteq> - 1))
    \<and> args = \<lparr>va_leaf_update = leaf_update_script items body, va_trigger_idx = nat ti,
              va_revault_idx = ri, va_revault_amount = word_of_int ra\<rparr>"
  using assms unfolding parse_vault_args_def
  by (elim res_elims, simp only: sum.inject prod.inject, elim conjE, hypsubst)
    (intro exI conjI; (rule refl | assumption))

text \<open>Both halves together: what a successful \<open>OP_VAULT\<close> has established.\<close>

definition vault_outputs_ok :: "libs \<Rightarrow> leaf_context \<Rightarrow> tx_out \<Rightarrow> vault_args \<Rightarrow> bool" where
  "vault_outputs_ok L ctx input args =
     (let outs = tx_output (lc_tx ctx); trigger = outs ! va_trigger_idx args; ri = va_revault_idx args in
      va_trigger_idx args < length outs
      \<and> script_is_p2tr L (txo_script_pubkey trigger)
      \<and> txo_script_pubkey trigger = reconstruct_trigger_spk L (lc_control ctx) (va_leaf_update args)
      \<and> (0 \<le> ri \<longrightarrow> nat ri < length outs \<and> txo_script_pubkey (outs ! nat ri) = txo_script_pubkey input)
      \<and> unat (txo_value input) \<le> unat (txo_value trigger) + (if 0 \<le> ri then unat (txo_value (outs ! nat ri)) else 0))"

lemma check_vault_outputs_ok:
  assumes "check_vault_outputs L ctx input args = Inr check"
  shows "vault_outputs_ok L ctx input args
    \<and> check = Trigger (txo_value input) (va_revault_amount args) (va_trigger_idx args) (va_revault_idx args)"
proof -
  let ?outs = "tx_output (lc_tx ctx)"
  let ?t = "?outs ! va_trigger_idx args" and ?ri = "va_revault_idx args"
  obtain rv total where t: "va_trigger_idx args < length ?outs"
    and p2tr: "script_is_p2tr L (txo_script_pubkey ?t)"
    and spk: "txo_script_pubkey ?t = reconstruct_trigger_spk L (lc_control ctx) (va_leaf_update args)"
    and rv: "(if ?ri \<ge> 0 then
              bindE (output_at (lc_tx ctx) (nat ?ri)) (\<lambda>revault_out.
              bindE (guardE (txo_script_pubkey revault_out = txo_script_pubkey input)
                VaultRevaultMismatch) (\<lambda>_. Inr (txo_value revault_out)))
            else Inr 0) = Inr rv"
    and total: "checked_add_u64 (txo_value ?t) rv = Some total" "\<not> total < txo_value input"
    and check: "check = Trigger (txo_value input) (va_revault_amount args) (va_trigger_idx args) ?ri"
    using assms unfolding check_vault_outputs_def
    by (elim bindE_InrE guard_bindE) auto
  have rv': "if 0 \<le> ?ri then nat ?ri < length ?outs
      \<and> txo_script_pubkey (?outs ! nat ?ri) = txo_script_pubkey input \<and> rv = txo_value (?outs ! nat ?ri)
    else rv = 0"
    using rv by (auto split: if_splits)
  have "unat total = unat (txo_value ?t) + unat rv"
    using total(1) by (simp add: checked_add_u64_Some)
  then have "unat (txo_value input) \<le> unat (txo_value ?t) + unat rv"
    using total(2) by (simp add: word_le_nat_alt not_less)
  then show ?thesis
    using t p2tr spk rv' check by (auto simp: vault_outputs_ok_def Let_def split: if_splits)
qed

lemma exec_op_vault_ok:
  assumes "exec_op_vault L ctx st = Inr st'"
  shows "\<exists>input args rest. lc_input_txout ctx = Some input
    \<and> parse_vault_args (int (length (tx_output (lc_tx ctx)))) (es_stack st) = Inr (args, rest)
    \<and> vault_outputs_ok L ctx input args
    \<and> length rest < MAX_STACK_SIZE
    \<and> st' = \<lparr>es_stack = [1] # rest,
             es_deferred = es_deferred st @ [Trigger (txo_value input) (va_revault_amount args)
               (va_trigger_idx args) (va_revault_idx args)]\<rparr>"
proof -
  obtain input args rest check where *: "lc_input_txout ctx = Some input"
    "parse_vault_args (int (length (tx_output (lc_tx ctx)))) (es_stack st) = Inr (args, rest)"
    "check_vault_outputs L ctx input args = Inr check" "length rest < MAX_STACK_SIZE"
    "st' = \<lparr>es_stack = [1] # rest, es_deferred = es_deferred st @ [check]\<rparr>"
    using assms unfolding exec_op_vault_def by (elim pair_bindE bindE_InrE) auto
  then show ?thesis using check_vault_outputs_ok [OF *(3)] by blast
qed

lemma exec_op_vault_recover_ok:
  assumes "exec_op_vault_recover L ctx st = Inr st'"
  shows "\<exists>input hash idx_bytes i rest. lc_input_txout ctx = Some input
    \<and> es_stack st = hash # idx_bytes # rest \<and> length hash = 32
    \<and> read_scriptnum idx_bytes 4 = Inr (int i) \<and> i < length (tx_output (lc_tx ctx))
    \<and> vault_recovery_spk_hash L (txo_script_pubkey (tx_output (lc_tx ctx) ! i)) = hash
    \<and> length rest < MAX_STACK_SIZE
    \<and> st' = \<lparr>es_stack = [1] # rest, es_deferred = es_deferred st @ [Recovery (txo_value input) i]\<rparr>"
proof -
  obtain input hash idx_bytes i rest where *: "lc_input_txout ctx = Some input"
    "es_stack st = hash # idx_bytes # rest" "length hash = RECOVERY_SPK_HASH_LEN"
    "read_scriptnum idx_bytes 4 = Inr i" "\<not> (i < 0 \<or> i \<ge> int (length (tx_output (lc_tx ctx))))"
    "vault_recovery_spk_hash L (txo_script_pubkey (tx_output (lc_tx ctx) ! nat i)) = hash"
    "length rest < MAX_STACK_SIZE"
    "st' = \<lparr>es_stack = [1] # rest, es_deferred = es_deferred st @ [Recovery (txo_value input) (nat i)]\<rparr>"
    using assms unfolding exec_op_vault_recover_def Let_def by (elim res_elims) auto
  then show ?thesis
    by (intro exI [of _ input] exI [of _ hash] exI [of _ idx_bytes] exI [of _ "nat i"] exI [of _ rest])
      (auto simp: RECOVERY_SPK_HASH_LEN_def)
qed

section \<open>Dispatch\<close>

lemma exec_op_simps:
  "exec_op L ctx st OP_CAT = with_stack st (exec_cat (es_stack st))"
  "exec_op L ctx st OP_CTV = with_stack st (exec_ctv L ctx (es_stack st))"
  "exec_op L ctx st OP_VAULT = exec_op_vault L ctx st"
  "exec_op L ctx st OP_VAULT_RECOVER = exec_op_vault_recover L ctx st"
  "exec_op L ctx st OP_CSV = with_stack st (exec_timelock_op OP_CSV ctx (es_stack st))"
  "exec_op L ctx st OP_CLTV = with_stack st (exec_timelock_op OP_CLTV ctx (es_stack st))"
  "exec_op L ctx st OP_CHECKSIG = with_stack st (exec_sig_op L OP_CHECKSIG ctx (es_stack st))"
  "exec_op L ctx st OP_CHECKSIGVERIFY = with_stack st (exec_sig_op L OP_CHECKSIGVERIFY ctx (es_stack st))"
  "exec_op L ctx st OP_CHECKSIGADD = with_stack st (exec_sig_op L OP_CHECKSIGADD ctx (es_stack st))"
  "exec_op L ctx st OP_DROP = with_stack st (exec_stack_op OP_DROP (es_stack st))"
  "exec_op L ctx st OP_EQUALVERIFY = with_stack st (exec_compare_op OP_EQUALVERIFY (es_stack st))"
  by (simp_all add: exec_op_def Let_def opcode_defs enforced_defs)

definition implemented_op :: "u8 \<Rightarrow> bool" where
  "implemented_op op =
     (op \<in> {OP_CAT, OP_CTV, OP_VAULT, OP_VAULT_RECOVER, OP_DUP, OP_DROP, OP_SWAP, OP_EQUAL,
            OP_EQUALVERIFY, OP_VERIFY, OP_SHA256, OP_HASH256, OP_HASH160, OP_RIPEMD160, OP_CSV,
            OP_CLTV, OP_CHECKSIG, OP_CHECKSIGVERIFY, OP_CHECKSIGADD}
      \<or> OP_PUSHNUM_1 \<le> op \<and> op \<le> OP_PUSHNUM_16)"

lemma exec_op_unimplemented: "\<not> implemented_op op \<Longrightarrow> exec_op L ctx st op = Inl (UnimplementedOpcode op)"
  by (auto simp add: exec_op_def implemented_op_def)

text \<open>A successful opcode is one of the vault opcodes or changes only the stack.\<close>

lemma exec_op_cases:
  assumes "exec_op L ctx st op = Inr st'"
  obtains
    (vault) "op = OP_VAULT" and "exec_op_vault L ctx st = Inr st'"
  | (recover) "op = OP_VAULT_RECOVER" and "exec_op_vault_recover L ctx st = Inr st'"
  | (stack) s where "st' = st\<lparr>es_stack := s\<rparr>" and "op \<noteq> OP_VAULT" and "op \<noteq> OP_VAULT_RECOVER"
      and "exec_cat (es_stack st) = Inr s \<or> exec_ctv L ctx (es_stack st) = Inr s
        \<or> stack_push (es_stack st) [op - (OP_PUSHNUM_1 - 1)] = Inr s
        \<or> exec_stack_op op (es_stack st) = Inr s \<or> exec_compare_op op (es_stack st) = Inr s
        \<or> (\<exists>h n. exec_hash h n (es_stack st) = Inr s)
        \<or> exec_timelock_op op ctx (es_stack st) = Inr s \<or> exec_sig_op L op ctx (es_stack st) = Inr s"
proof -
  have distinct: "OP_VAULT \<noteq> OP_CAT" "OP_VAULT \<noteq> OP_CTV" "OP_VAULT_RECOVER \<noteq> OP_CAT"
    "OP_VAULT_RECOVER \<noteq> OP_CTV" "OP_VAULT_RECOVER \<noteq> OP_VAULT"
    by (simp_all add: enforced_defs)
  consider "op = OP_VAULT" | "op = OP_VAULT_RECOVER" | "op \<noteq> OP_VAULT" "op \<noteq> OP_VAULT_RECOVER" by blast
  then show thesis
  proof cases
    case 1
    then show ?thesis using assms vault by (simp add: exec_op_simps)
  next
    case 2
    then show ?thesis using assms recover by (simp add: exec_op_simps)
  next
    case 3
    then show ?thesis
      using assms stack unfolding exec_op_def Let_def
      by (simp only: if_False split: if_split_asm) (auto simp only: with_stack_ok sum.distinct)
  qed
qed

section \<open>The stack stays within its bounds\<close>

definition exec_inv :: "leaf_context \<Rightarrow> exec_state \<Rightarrow> bool" where
  "exec_inv ctx st =
     (stack_ok (es_stack st) \<and> list_all (indices_ok (length (tx_output (lc_tx ctx)))) (es_deferred st))"

lemma stack_ok_simps [simp]:
  "stack_ok (x # s) = (length x \<le> MAX_SCRIPT_ELEMENT_SIZE \<and> length s < MAX_STACK_SIZE \<and> stack_ok s)"
  "stack_ok (xs @ s) \<Longrightarrow> stack_ok s"
  by (auto simp: stack_ok_def)

lemma stack_ok_length: "stack_ok s \<Longrightarrow> length s \<le> MAX_STACK_SIZE"
  by (simp add: stack_ok_def)

lemma exec_stack_ops_ok:
  "exec_cat s = Inr s' \<Longrightarrow> stack_ok s \<Longrightarrow> stack_ok s'"
  "exec_ctv L ctx s = Inr s' \<Longrightarrow> stack_ok s \<Longrightarrow> stack_ok s'"
  "stack_push s x = Inr s' \<Longrightarrow> stack_ok s \<Longrightarrow> stack_ok s'"
  "exec_stack_op op s = Inr s' \<Longrightarrow> stack_ok s \<Longrightarrow> stack_ok s'"
  "exec_compare_op op s = Inr s' \<Longrightarrow> stack_ok s \<Longrightarrow> stack_ok s'"
  "exec_hash h n s = Inr s' \<Longrightarrow> stack_ok s \<Longrightarrow> stack_ok s'"
  "exec_timelock_op op ctx s = Inr s' \<Longrightarrow> stack_ok s \<Longrightarrow> stack_ok s'"
  "exec_sig_op L op ctx s = Inr s' \<Longrightarrow> stack_ok s \<Longrightarrow> stack_ok s'"
  by (auto simp: exec_cat_def exec_ctv_def exec_stack_op_def exec_compare_op_def exec_hash_def
      exec_timelock_op_def exec_sig_op_def Let_def split: if_splits)

lemma exec_op_inv:
  assumes "exec_inv ctx st" and "exec_op L ctx st op = Inr st'"
  shows "exec_inv ctx st'"
  using assms(2)
proof (cases rule: exec_op_cases)
  case vault
  obtain input args rest where v: "parse_vault_args (int (length (tx_output (lc_tx ctx)))) (es_stack st) = Inr (args, rest)"
    and o: "vault_outputs_ok L ctx input args" and len: "length rest < MAX_STACK_SIZE"
    and st': "st' = \<lparr>es_stack = [1] # rest, es_deferred = es_deferred st @ [Trigger (txo_value input)
      (va_revault_amount args) (va_trigger_idx args) (va_revault_idx args)]\<rparr>"
    using exec_op_vault_ok [OF vault(2)] by blast
  obtain pre where s: "es_stack st = pre @ rest"
    and amt: "va_revault_amount args > 0 \<longrightarrow> 0 \<le> va_revault_idx args
      \<and> nat (va_revault_idx args) < length (tx_output (lc_tx ctx))"
  proof -
    obtain body count items tb rb ab ri ra
      where "es_stack st = (body # count # items @ [tb, rb, ab]) @ rest"
        and "\<not> (ri \<ge> int (length (tx_output (lc_tx ctx))) \<or> (ri < 0 \<and> ri \<noteq> - 1))"
        and "\<not> (ra < 0 \<or> (ra > 0 \<and> ri < 0) \<or> (ra = 0 \<and> ri \<noteq> - 1))"
        and "va_revault_idx args = ri" and "va_revault_amount args = word_of_int ra"
      using parse_vault_args_ok [OF v] by (elim exE conjE) simp
    then show thesis by (intro that) auto
  qed
  have "stack_ok (es_stack st)" using assms(1) by (simp add: exec_inv_def)
  then have "stack_ok rest" unfolding s by (rule stack_ok_simps(2))
  then show ?thesis
    using assms(1) o amt len
    by (simp add: exec_inv_def st' vault_outputs_ok_def Let_def stack_size_defs)
next
  case recover
  obtain input :: tx_out and hash idx_bytes i rest where "es_stack st = hash # idx_bytes # rest"
    and "i < length (tx_output (lc_tx ctx))" and "length rest < MAX_STACK_SIZE"
    and "st' = \<lparr>es_stack = [1] # rest, es_deferred = es_deferred st @ [Recovery (txo_value input) i]\<rparr>"
    using exec_op_vault_recover_ok [OF recover(2)] by blast
  then show ?thesis
    using assms(1) by (simp add: exec_inv_def stack_size_defs)
next
  case (stack s)
  have "stack_ok (es_stack st)" using assms(1) by (simp add: exec_inv_def)
  then have "stack_ok s"
    using stack(4) by (elim disjE exE) (erule exec_stack_ops_ok, assumption)+
  then show ?thesis using assms(1) by (simp add: exec_inv_def stack(1))
qed

text \<open>Which instructions a successful run contains.\<close>

definition item_executable :: "instr_item \<Rightarrow> bool" where
  "item_executable item =
     (case item of None \<Rightarrow> False
      | Some (PushBytes bs) \<Rightarrow> length bs \<le> MAX_SCRIPT_ELEMENT_SIZE
      | Some (Op op) \<Rightarrow> implemented_op op)"

interpretation exec_loop: fallible_loop "exec_item L ctx" "exec_inv ctx" item_executable for L ctx
proof
  fix st item st'
  assume inv: "exec_inv ctx st" and ok: "exec_item L ctx st item = Inr st'"
  obtain i where i: "item = Some i" using ok by (auto simp: exec_item_def)
  show "exec_inv ctx st'"
  proof (cases i)
    case (PushBytes bs)
    then have "with_stack st (stack_push (es_stack st) bs) = Inr st'"
      using ok by (simp add: exec_item_def i)
    then show ?thesis using inv by (auto simp: exec_inv_def)
  next
    case (Op op)
    then have "exec_op L ctx st op = Inr st'" using ok by (simp add: exec_item_def i)
    then show ?thesis by (rule exec_op_inv [OF inv])
  qed
  show "item_executable item"
  proof (cases i)
    case (PushBytes bs)
    then show ?thesis using ok by (auto simp: exec_item_def i item_executable_def)
  next
    case (Op op)
    then have "exec_op L ctx st op = Inr st'" using ok by (simp add: exec_item_def i)
    then have "implemented_op op" using exec_op_unimplemented [of op L ctx st] by fastforce
    then show ?thesis by (simp add: i Op item_executable_def)
  qed
qed

end
