(* ===== verification/Interp_Rules.thy ===== *)
theory Interp_Rules
  imports Interp_Ops
begin

text \<open>
  The meaning of the verifying opcodes: BIP112 and BIP65 timelocks in arithmetic terms, the BIP342
  signature check, and a run of a leaf taken apart at any instruction. The unreachability of index
  panics is proved here for every operation of the interpreter.
\<close>

section \<open>Timelocks\<close>

lemma and_flag: "x AND push_bit n 1 = (if bit x n then 2 ^ n else 0 :: int)"
proof (rule bit_eqI)
  fix k
  show "bit (x AND push_bit n 1) k = bit (if bit x n then 2 ^ n else 0 :: int) k"
    by (auto simp: bit_and_iff bit_push_bit_iff bit_1_iff bit_exp_iff)
qed
lemma masked_sequence:
  "x AND (SEQUENCE_LOCKTIME_TYPE_FLAG OR SEQUENCE_LOCKTIME_MASK)
    = (if bit x 22 then 2 ^ 22 else 0) + x mod 2 ^ 16"
proof -
  have mask: "SEQUENCE_LOCKTIME_MASK = mask 16"
    by (simp add: SEQUENCE_LOCKTIME_MASK_def mask_eq_exp_minus_1)
  have "(x AND push_bit 22 1) AND (x AND mask 16) = 0"
  proof -
    have "push_bit 22 (1::int) AND mask 16 = 0" by (simp add: mask_eq_exp_minus_1)
    then have "x AND (push_bit 22 1 AND mask 16) = 0" by simp
    then show ?thesis by (metis and.left_commute and.assoc and.left_idem)
  qed
  then have "x AND (push_bit 22 1 OR mask 16) = (x AND push_bit 22 1) + (x AND mask 16)"
    by (simp only: bit.conj_disj_distrib disjunctive_add_eq_or [symmetric])
  then show ?thesis
    by (simp only: mask SEQUENCE_LOCKTIME_TYPE_FLAG_def and_flag flip: take_bit_eq_mask)
      (simp add: take_bit_eq_mod)
qed
lemma disable_flag: "(x AND SEQUENCE_LOCKTIME_DISABLE_FLAG = 0) = (\<not> bit x 31)"
  unfolding SEQUENCE_LOCKTIME_DISABLE_FLAG_def and_flag by simp

text \<open>BIP112, on the argument \<open>n\<close>, the input's sequence and the version.\<close>

definition sequence_satisfied :: "int \<Rightarrow> transaction \<Rightarrow> nat \<Rightarrow> bool" where
  "sequence_satisfied n tx i =
     (bit n 31
      \<or> (let seq = uint (txi_sequence (tx_input tx ! i)) in
         2 \<le> unat (tx_version tx) \<and> i < length (tx_input tx) \<and> \<not> bit seq 31
         \<and> bit n 22 = bit seq 22 \<and> n mod 2 ^ 16 \<le> seq mod 2 ^ 16))"

text \<open>BIP65.\<close>

definition locktime_satisfied :: "int \<Rightarrow> transaction \<Rightarrow> nat \<Rightarrow> bool" where
  "locktime_satisfied n tx i =
     (let lock = uint (tx_lock_time tx) in
      (n < 500000000) = (lock < 500000000) \<and> n \<le> lock
      \<and> i < length (tx_input tx) \<and> txi_sequence (tx_input tx ! i) \<noteq> 0xffffffff)"

lemma masked_type: "((if b then 2 ^ 22 else 0) + y mod 2 ^ 16 < (2 ^ 22 :: int)) = (\<not> b)"
proof -
  have "0 \<le> y mod (2 ^ 16 :: int)" "y mod (2 ^ 16 :: int) < 2 ^ 16" by simp_all
  then show ?thesis by (cases b) simp_all
qed

lemma check_sequence_ok: "(check_sequence n tx i = Inr ()) = sequence_satisfied n tx i"
proof -
  let ?seq = "uint (txi_sequence (tx_input tx ! i))"
  have flag: "SEQUENCE_LOCKTIME_TYPE_FLAG = 2 ^ 22"
    by (simp add: SEQUENCE_LOCKTIME_TYPE_FLAG_def)
  show ?thesis
    unfolding check_sequence_def sequence_satisfied_def Let_def disable_flag masked_sequence
    unfolding flag masked_type not_less [symmetric]
    by (cases "bit n 22"; cases "bit ?seq 22") (auto simp: not_less)
qed

lemma check_locktime_ok: "(check_locktime n tx i = Inr ()) = locktime_satisfied n tx i"
  by (auto simp: check_locktime_def locktime_satisfied_def Let_def LOCKTIME_THRESHOLD_def)

section \<open>Signatures\<close>

text \<open>
  What \<open>verify_schnorr\<close> returning true means: a 32-byte key, a well-formed signature, all the
  prevouts that its type commits to, and a verification over the BIP341 sighash.
\<close>

definition tapscript_sig_valid :: "libs \<Rightarrow> leaf_context \<Rightarrow> bytes \<Rightarrow> bytes \<Rightarrow> bool" where
  "tapscript_sig_valid L ctx sig_bytes pubkey =
     (\<exists>xonly sig t annex ps msg.
        length pubkey = 32 \<and> xonly_from_slice L pubkey = Some xonly
      \<and> taproot_sig_from_slice L sig_bytes = Some (sig, t)
      \<and> (case lc_annex ctx of None \<Rightarrow> annex = None | Some a \<Rightarrow> \<exists>x. annex_new L a = Some x \<and> annex = Some x)
      \<and> (if interp_acp t then \<exists>out. lc_input_txout ctx = Some out \<and> ps = PrevoutsOne (lc_input_index ctx) out
         else \<exists>outs. ps = PrevoutsAll outs
           \<and> map (\<lambda>i. lc_prevouts ctx (txi_previous_output i)) (tx_input (lc_tx ctx)) = map Some outs)
      \<and> taproot_signature_hash L (lc_tx ctx) (lc_input_index ctx) ps annex
          (tap_leaf_hash L (lc_leaf ctx) LEAF_VERSION_TAPSCRIPT, NO_CODESEPARATOR) t = Some msg
      \<and> schnorr_verify L sig msg xonly)"

lemma ordered_prevouts_ok:
  "(ordered_prevouts tx prevouts = Inr outs)
    = (map (\<lambda>i. prevouts (txi_previous_output i)) (tx_input tx) = map Some outs)"
proof -
  have "(foldE (\<lambda>all input. bindE (ok_or (prevouts (txi_previous_output input)) MissingPrevout)
      (\<lambda>txout. Inr (all @ [txout]))) acc ins = Inr outs)
    = (\<exists>new. outs = acc @ new \<and> map (\<lambda>i. prevouts (txi_previous_output i)) ins = map Some new)"
    for acc ins
    by (induction ins arbitrary: acc) (auto simp: Cons_eq_map_conv)
  from this [of "[]" "tx_input tx"] show ?thesis unfolding ordered_prevouts_def by simp
qed

lemma verify_schnorr_sound:
  assumes "verify_schnorr L sig pubkey ctx = Inr True"
  shows "tapscript_sig_valid L ctx sig pubkey"
proof -
  have len: "length pubkey = 32"
    using assms by (auto simp: verify_schnorr_def split: if_splits)
  have "\<exists>xonly s t annex ps msg. xonly_from_slice L pubkey = Some xonly
    \<and> taproot_sig_from_slice L sig = Some (s, t)
    \<and> (case lc_annex ctx of
                 Some bs \<Rightarrow> bindE (ok_or (annex_new L bs) MalformedScript) (\<lambda>a. Inr (Some a))
               | None \<Rightarrow> Inr None) = Inr annex
    \<and> (if interp_acp t then
                 bindE (ok_or (lc_input_txout ctx) MissingPrevout) (\<lambda>txout.
                 Inr (PrevoutsOne (lc_input_index ctx) txout))
               else
                 bindE (ordered_prevouts (lc_tx ctx) (lc_prevouts ctx)) (\<lambda>all. Inr (PrevoutsAll all))) = Inr ps
    \<and> taproot_signature_hash L (lc_tx ctx) (lc_input_index ctx) ps annex
          (tap_leaf_hash L (lc_leaf ctx) LEAF_VERSION_TAPSCRIPT, NO_CODESEPARATOR) t = Some msg
    \<and> schnorr_verify L s msg xonly"
    using assms unfolding verify_schnorr_def Let_def len
    by (simp only: simp_thms if_False)
      (elim pair_bindE bindE_InrE, simp only: ok_or_eq_Inr sum.inject simp_thms,
       intro exI conjI; (assumption | simp only: simp_thms))
  then obtain xonly s t annex ps msg where x: "xonly_from_slice L pubkey = Some xonly"
    and s: "taproot_sig_from_slice L sig = Some (s, t)"
    and annex: "(case lc_annex ctx of
                 Some bs \<Rightarrow> bindE (ok_or (annex_new L bs) MalformedScript) (\<lambda>a. Inr (Some a))
               | None \<Rightarrow> Inr None) = Inr annex"
    and ps: "(if interp_acp t then
                 bindE (ok_or (lc_input_txout ctx) MissingPrevout) (\<lambda>txout.
                 Inr (PrevoutsOne (lc_input_index ctx) txout))
               else
                 bindE (ordered_prevouts (lc_tx ctx) (lc_prevouts ctx)) (\<lambda>all. Inr (PrevoutsAll all))) = Inr ps"
    and msg: "taproot_signature_hash L (lc_tx ctx) (lc_input_index ctx) ps annex
          (tap_leaf_hash L (lc_leaf ctx) LEAF_VERSION_TAPSCRIPT, NO_CODESEPARATOR) t = Some msg"
    and v: "schnorr_verify L s msg xonly"
    by (elim exE conjE)
  have "case lc_annex ctx of None \<Rightarrow> annex = None | Some a \<Rightarrow> \<exists>x. annex_new L a = Some x \<and> annex = Some x"
    using annex by (auto split: option.splits)
  moreover have "if interp_acp t then \<exists>out. lc_input_txout ctx = Some out \<and> ps = PrevoutsOne (lc_input_index ctx) out
     else \<exists>outs. ps = PrevoutsAll outs
       \<and> map (\<lambda>i. lc_prevouts ctx (txi_previous_output i)) (tx_input (lc_tx ctx)) = map Some outs"
    using ps by (auto simp: ordered_prevouts_ok split: if_splits)
  ultimately show ?thesis
    unfolding tapscript_sig_valid_def using len x s msg v by blast
qed

section \<open>The verifying opcodes\<close>

lemma exec_ctv_ok:
  "(exec_op L ctx st OP_CTV = Inr st') =
    (st' = st \<and> (\<exists>arg r. es_stack st = arg # r \<and> length arg = 32
       \<and> arg = default_check_template_verify_hash L (lc_tx ctx) (lc_input_index ctx)))"
  by (auto simp: exec_op_simps exec_ctv_def INTERP_CTV_HASH_LEN_def split: if_splits)

lemma exec_checksigverify_ok:
  assumes "exec_op L ctx st OP_CHECKSIGVERIFY = Inr st'"
  shows "\<exists>pubkey sig rest. es_stack st = pubkey # sig # rest \<and> sig \<noteq> []
    \<and> tapscript_sig_valid L ctx sig pubkey \<and> st' = st\<lparr>es_stack := rest\<rparr>"
proof -
  have "OP_CHECKSIGVERIFY \<noteq> OP_CHECKSIG" by (simp add: opcode_defs)
  then show ?thesis
    using assms verify_schnorr_sound
    by (auto simp: exec_op_simps exec_sig_op_def split: if_splits)
qed

lemma exec_checksig_ok:
  assumes "exec_op L ctx st OP_CHECKSIG = Inr st'"
  shows "\<exists>pubkey sig rest. es_stack st = pubkey # sig # rest
    \<and> (sig = [] \<and> st' = st\<lparr>es_stack := [] # rest\<rparr>
       \<or> sig \<noteq> [] \<and> tapscript_sig_valid L ctx sig pubkey \<and> st' = st\<lparr>es_stack := [1] # rest\<rparr>)"
proof -
  obtain pubkey sig rest where st: "es_stack st = pubkey # sig # rest"
    using assms by (auto simp: exec_op_simps exec_sig_op_def)
  then show ?thesis
    using assms verify_schnorr_sound [of L sig pubkey ctx]
    by (cases "sig = []") (auto simp: exec_op_simps exec_sig_op_def stack_pop_def split: if_splits)
qed

lemma exec_timelocks_ok:
  "exec_op L ctx st OP_CSV = Inr st' \<Longrightarrow>
     \<exists>top r n. es_stack st = top # r \<and> read_scriptnum top 5 = Inr n \<and> 0 \<le> n
       \<and> sequence_satisfied n (lc_tx ctx) (lc_input_index ctx) \<and> st' = st"
  "exec_op L ctx st OP_CLTV = Inr st' \<Longrightarrow>
     \<exists>top r n. es_stack st = top # r \<and> read_scriptnum top 5 = Inr n \<and> 0 \<le> n
       \<and> locktime_satisfied n (lc_tx ctx) (lc_input_index ctx) \<and> st' = st"
proof -
  have "OP_CLTV \<noteq> OP_CSV" by (simp add: opcode_defs)
  then show "exec_op L ctx st OP_CSV = Inr st' \<Longrightarrow>
     \<exists>top r n. es_stack st = top # r \<and> read_scriptnum top 5 = Inr n \<and> 0 \<le> n
       \<and> sequence_satisfied n (lc_tx ctx) (lc_input_index ctx) \<and> st' = st"
    "exec_op L ctx st OP_CLTV = Inr st' \<Longrightarrow>
     \<exists>top r n. es_stack st = top # r \<and> read_scriptnum top 5 = Inr n \<and> 0 \<le> n
       \<and> locktime_satisfied n (lc_tx ctx) (lc_input_index ctx) \<and> st' = st"
    by (auto simp: exec_op_simps exec_timelock_op_def check_sequence_ok check_locktime_ok split: if_splits)
qed

section \<open>No index panics\<close>

definition no_panic :: "interp_error + 'a \<Rightarrow> bool" where
  "no_panic m = (m \<noteq> Inl IndexPanic)"

named_theorems no_panics "operations that never panic"

lemma no_panic_bindE [no_panics]:
  "no_panic m \<Longrightarrow> (\<And>x. m = Inr x \<Longrightarrow> no_panic (k x)) \<Longrightarrow> no_panic (bindE m k)"
  by (cases m) (auto simp: no_panic_def)

lemma no_panic_if [no_panics]: "(b \<Longrightarrow> no_panic m) \<Longrightarrow> (\<not> b \<Longrightarrow> no_panic n) \<Longrightarrow> no_panic (if b then m else n)"
  by simp

lemma no_panic_Inr [no_panics]: "no_panic (Inr x)"
  by (simp add: no_panic_def)

lemma no_panic_Inl [no_panics]: "e \<noteq> IndexPanic \<Longrightarrow> no_panic (Inl e)"
  by (simp add: no_panic_def)

lemma no_panic_basic [no_panics]:
  "e \<noteq> IndexPanic \<Longrightarrow> no_panic (ok_or m e)"
  "e \<noteq> IndexPanic \<Longrightarrow> no_panic (guardE b e)"
  "no_panic (stack_push s x)"
  "no_panic (stack_pop s opcode)"
  "no_panic (stack_top s opcode)"
  "no_panic (read_scriptnum bs n)"
  by (auto simp: no_panic_def res_Inl_iffs stack_push_def stack_pop_def stack_top_def
      read_scriptnum_def Let_def split: list.splits if_splits)

lemma no_panic_case_prod [no_panics]: "(\<And>a b. p = (a, b) \<Longrightarrow> no_panic (f a b)) \<Longrightarrow> no_panic (case p of (a, b) \<Rightarrow> f a b)"
  by (cases p) simp

lemma no_panic_pop_items [no_panics]: "no_panic (pop_items n s)"
proof (induction n arbitrary: s)
  case (Suc n)
  show ?case
    unfolding pop_items.simps
    by (intro no_panics Suc.IH)
qed (simp add: no_panic_def)

lemma no_panic_with_stack [no_panics]: "no_panic m \<Longrightarrow> no_panic (with_stack st m)"
  unfolding with_stack_def by (intro no_panics)

lemma no_panic_verify_schnorr [no_panics]: "no_panic (verify_schnorr L sig pubkey ctx)"
proof -
  have ord: "no_panic (ordered_prevouts tx ps)" for tx ps
  proof -
    have "no_panic (foldE (\<lambda>all input. bindE (ok_or (ps (txi_previous_output input)) MissingPrevout)
        (\<lambda>txout. Inr (all @ [txout]))) acc ins)" for acc ins
      by (induction ins arbitrary: acc) (auto intro!: no_panics)
    then show ?thesis by (simp add: ordered_prevouts_def)
  qed
  show ?thesis
    unfolding verify_schnorr_def Let_def
    by (cases "lc_annex ctx") (auto intro!: no_panics ord)
qed

lemma no_panic_output_at: "i < length (tx_output tx) \<Longrightarrow> no_panic (output_at tx i)"
  by (simp add: output_at_def no_panic_def)

lemma no_panic_check_vault_outputs:
  "va_trigger_idx args < length (tx_output (lc_tx ctx)) \<Longrightarrow>
   (0 \<le> va_revault_idx args \<Longrightarrow> nat (va_revault_idx args) < length (tx_output (lc_tx ctx))) \<Longrightarrow>
   no_panic (check_vault_outputs L ctx input args)"
  unfolding check_vault_outputs_def by (auto intro!: no_panics no_panic_output_at)

lemma no_panic_exec_op_vault: "no_panic (exec_op_vault L ctx st)"
proof -
  have parse: "no_panic (parse_vault_args n s)" for n s
    unfolding parse_vault_args_def by (intro no_panics) simp_all
  have "no_panic (check_vault_outputs L ctx input args)"
    if "parse_vault_args (int (length (tx_output (lc_tx ctx)))) s = Inr (args, rest)" for input args s rest
  proof (rule no_panic_check_vault_outputs)
    show "va_trigger_idx args < length (tx_output (lc_tx ctx))"
      using parse_vault_args_ok [OF that] by auto
    show "nat (va_revault_idx args) < length (tx_output (lc_tx ctx))" if "0 \<le> va_revault_idx args"
      using parse_vault_args_ok [OF \<open>parse_vault_args _ _ = _\<close>] that by auto
  qed
  then show ?thesis
    unfolding exec_op_vault_def by (auto intro!: no_panics parse)
qed

lemma no_panic_exec_op_vault_recover: "no_panic (exec_op_vault_recover L ctx st)"
  unfolding exec_op_vault_recover_def Let_def
  by (auto intro!: no_panics no_panic_output_at)

lemma no_panic_timelock:
  "lc_input_index ctx < length (tx_input (lc_tx ctx)) \<Longrightarrow> no_panic (exec_timelock_op op ctx s)"
  unfolding exec_timelock_op_def check_sequence_def check_locktime_def Let_def
  by (intro no_panics) simp_all

lemma no_panic_exec_op:
  assumes "lc_input_index ctx < length (tx_input (lc_tx ctx))"
  shows "no_panic (exec_op L ctx st op)"
  unfolding exec_op_def Let_def
  by (intro no_panics no_panic_exec_op_vault no_panic_exec_op_vault_recover
      no_panic_timelock [OF assms])
    (auto simp: exec_cat_def exec_ctv_def exec_stack_op_def exec_compare_op_def exec_hash_def
      exec_sig_op_def Let_def intro!: no_panics)

lemma no_panic_execute_leaf:
  assumes "lc_input_index ctx < length (tx_input (lc_tx ctx))"
  shows "no_panic (execute_leaf L ctx initial deferred)"
proof -
  have item: "no_panic (exec_item L ctx st item)" for st item
    unfolding exec_item_def
    by (auto intro!: no_panics no_panic_exec_op [OF assms] split: instruction.split)
  have loop: "no_panic (foldE (exec_item L ctx) st items)" for st items
    by (induction items arbitrary: st) (auto intro!: no_panics item)
  have "no_panic (check_elements initial)"
    by (induction initial) (auto intro!: no_panics)
  then show ?thesis
    unfolding execute_leaf_def stack_new_def
    by (auto intro!: no_panics loop split: list.split)
qed

section \<open>Running a leaf\<close>

lemma final_stack_ok:
  "((case s of [x] \<Rightarrow> if is_truthy x then Inr d else Inl EvalFalse
     | xs \<Rightarrow> Inl (CleanStackRequired (length xs))) = Inr d')
   = (\<exists>x. s = [x] \<and> is_truthy x \<and> d' = d)"
  by (cases s rule: remdups_adj.cases) auto

lemma execute_leaf_ok:
  "(execute_leaf L ctx initial deferred = Inr deferred') =
    (stack_ok (rev initial) \<and>
     (\<exists>x st. foldE (exec_item L ctx) \<lparr>es_stack = rev initial, es_deferred = deferred\<rparr>
               (script_instructions L (lc_leaf ctx)) = Inr st
        \<and> es_stack st = [x] \<and> is_truthy x \<and> deferred' = es_deferred st))"
  unfolding execute_leaf_def by (simp only: bindE_eq_Inr final_stack_ok stack_new_ok) blast

text \<open>The run split at an instruction: the state before it and the state it leaves.\<close>

lemma execute_leaf_at:
  assumes "execute_leaf L ctx initial deferred = Inr deferred'"
    and "script_instructions L (lc_leaf ctx) = pre @ Some (Op op) # post"
  obtains st st' where
    "foldE (exec_item L ctx) \<lparr>es_stack = rev initial, es_deferred = deferred\<rparr> pre = Inr st"
    and "exec_op L ctx st op = Inr st'"
  using assms by (auto simp: execute_leaf_ok foldE_append exec_item_def)

text \<open>The deferred checks are only appended to, and do not influence execution.\<close>

lemma exec_op_appends:
  assumes "exec_op L ctx st op = Inr st'"
  shows "\<exists>new. es_deferred st' = es_deferred st @ new"
  using assms
proof (cases rule: exec_op_cases)
  case vault
  then show ?thesis using exec_op_vault_ok [OF vault(2)] by auto
next
  case recover
  then show ?thesis using exec_op_vault_recover_ok [OF recover(2)] by auto
qed simp

lemma exec_item_appends:
  assumes "exec_item L ctx st item = Inr st'"
  shows "\<exists>new. es_deferred st' = es_deferred st @ new"
proof -
  obtain i where i: "item = Some i" using assms by (auto simp: exec_item_def)
  show ?thesis
    using assms exec_op_appends [of L ctx st _ st']
    by (cases i) (auto simp: exec_item_def i)
qed

lemma exec_loop_appends:
  "foldE (exec_item L ctx) st items = Inr st' \<Longrightarrow> \<exists>new. es_deferred st' = es_deferred st @ new"
proof (induction items arbitrary: st)
  case (Cons item items)
  then obtain st1 where st1: "exec_item L ctx st item = Inr st1" "foldE (exec_item L ctx) st1 items = Inr st'"
    by auto
  have "\<exists>new. es_deferred st1 = es_deferred st @ new"
    by (rule exec_item_appends [OF st1(1)])
  then show ?case using Cons.IH [OF st1(2)] by auto
qed simp

end
