(* ===== verification/Tapscript.thy ===== *)
theory Tapscript
  imports Interp_Rules
begin

text \<open>
  Enforcement of the leaf opcodes on the inputs of a transaction (\<open>lib/validator/tapscript/mod.rs\<close>):
  which witnesses reveal an enforced leaf, their execution input by input with one queue of
  deferred checks, and the evaluation of that queue.
\<close>

definition CTV_HASH_LEN :: nat where "CTV_HASH_LEN = 32"
definition ENFORCED_OPCODES :: "u8 list" where
  "ENFORCED_OPCODES = [OP_CAT, OP_CTV, OP_VAULT, OP_VAULT_RECOVER]"
definition ANNEX_PREFIX :: u8 where "ANNEX_PREFIX = 0x50"

datatype tapscript_error = InterpFailed nat interp_error | DeferredFailed interp_error

text \<open>The loops \<open>for instruction in leaf.instructions()\<close> that stop at a parse error.\<close>

fun uses_opcode :: "u8 list \<Rightarrow> instr_item list \<Rightarrow> bool" where
  "uses_opcode ops [] = False"
| "uses_opcode ops (item # rest) =
     (case item of
        None \<Rightarrow> False
      | Some (Op op) \<Rightarrow> if List.member ops op then True else uses_opcode ops rest
      | Some (PushBytes _) \<Rightarrow> uses_opcode ops rest)"

definition leaf_uses_vault_opcode :: "libs \<Rightarrow> bytes \<Rightarrow> bool" where
  "leaf_uses_vault_opcode L leaf = uses_opcode [OP_VAULT, OP_VAULT_RECOVER] (script_instructions L leaf)"

definition leaf_uses_enforced_opcode :: "libs \<Rightarrow> bytes \<Rightarrow> bool" where
  "leaf_uses_enforced_opcode L leaf = uses_opcode ENFORCED_OPCODES (script_instructions L leaf)"

record enforced_leaf =
  el_leaf :: bytes
  el_stack :: "bytes list"
  el_control :: control_block
  el_annex :: "bytes option"

text \<open>The annex, if the last element starts with its prefix, and the elements left.\<close>

definition strip_annex :: "bytes list \<Rightarrow> bytes option \<times> bytes list" where
  "strip_annex elems =
     (if elems \<noteq> [] \<and> last elems \<noteq> [] \<and> hd (last elems) = ANNEX_PREFIX
      then (Some (last elems), butlast elems) else (None, elems))"

definition detect_enforced_leaf :: "libs \<Rightarrow> bytes list \<Rightarrow> enforced_leaf option" where
  "detect_enforced_leaf L witness =
     (if length witness < 2 then None
      else
        let (annex, elems) = strip_annex witness in
        if length elems < 2 then None
        else
          let control_block = last elems; leaf = last (butlast elems); stack = butlast (butlast elems) in
          (case control_block_decode L control_block of
             None \<Rightarrow> None
           | Some control \<Rightarrow>
               if cb_leaf_version control \<noteq> LEAF_VERSION_TAPSCRIPT then None
               else if \<not> leaf_uses_enforced_opcode L leaf then None
               else Some \<lparr>el_leaf = leaf, el_stack = stack, el_control = control, el_annex = annex\<rparr>))"

definition input_reveals_vault_leaf :: "libs \<Rightarrow> bytes list \<Rightarrow> bool" where
  "input_reveals_vault_leaf L witness =
     (case detect_enforced_leaf L witness of
        Some e \<Rightarrow> leaf_uses_vault_opcode L (el_leaf e) | None \<Rightarrow> False)"

definition leaf_context_of ::
  "transaction \<Rightarrow> utxo_map \<Rightarrow> nat \<Rightarrow> tx_in \<Rightarrow> enforced_leaf \<Rightarrow> leaf_context" where
  "leaf_context_of tx prevouts input_index input e =
     \<lparr>lc_tx = tx, lc_input_index = input_index, lc_prevouts = prevouts,
      lc_input_txout = prevouts (txi_previous_output input), lc_control = el_control e,
      lc_annex = el_annex e, lc_leaf = el_leaf e\<rparr>"

definition enforce_input ::
  "libs \<Rightarrow> transaction \<Rightarrow> utxo_map \<Rightarrow> deferred_check list \<Rightarrow> nat \<times> tx_in
    \<Rightarrow> tapscript_error + deferred_check list" where
  "enforce_input L tx prevouts deferred x =
     (case x of (input_index, input) \<Rightarrow>
        (case detect_enforced_leaf L (txi_witness input) of
           None \<Rightarrow> Inr deferred
         | Some e \<Rightarrow>
             mapErr (InterpFailed input_index)
               (execute_leaf L (leaf_context_of tx prevouts input_index input e) (el_stack e) deferred)))"

definition enforce_transaction :: "libs \<Rightarrow> transaction \<Rightarrow> utxo_map \<Rightarrow> tapscript_error + unit" where
  "enforce_transaction L tx prevouts =
     bindE (foldE (enforce_input L tx prevouts) [] (enumerate 0 (tx_input tx))) (\<lambda>deferred.
       mapErr DeferredFailed (evaluate_deferred_checks deferred tx))"

section \<open>Detection\<close>

lemma uses_opcode_iff:
  "uses_opcode ops items =
    (\<exists>pre op post. items = pre @ Some (Op op) # post \<and> op \<in> set ops \<and> None \<notin> set pre)"
proof (induction items)
  case (Cons item items)
  have tail: "(\<exists>pre op post. item # items = pre @ Some (Op op) # post \<and> op \<in> set ops \<and> None \<notin> set pre)
    = ((\<exists>op. item = Some (Op op) \<and> op \<in> set ops)
       \<or> item \<noteq> None \<and> (\<exists>pre op post. items = pre @ Some (Op op) # post \<and> op \<in> set ops \<and> None \<notin> set pre))"
    (is "?l = ?r")
  proof
    assume ?l
    then obtain pre op post where *: "item # items = pre @ Some (Op op) # post"
      "op \<in> set ops" "None \<notin> set pre" by blast
    then show ?r by (cases pre) auto
  next
    assume ?r
    then show ?l
    proof
      assume "\<exists>op. item = Some (Op op) \<and> op \<in> set ops"
      then show ?l by (metis append_Nil empty_iff empty_set)
    next
      assume "item \<noteq> None \<and> (\<exists>pre op post. items = pre @ Some (Op op) # post \<and> op \<in> set ops \<and> None \<notin> set pre)"
      then obtain pre op post where "items = pre @ Some (Op op) # post" "op \<in> set ops"
        "None \<notin> set (item # pre)" by auto
      then show ?l by (metis append_Cons)
    qed
  qed
  show ?case
    unfolding tail Cons.IH [symmetric] by (auto split: option.splits instruction.splits)
qed simp

lemma detect_enforced_leaf_Some:
  assumes "detect_enforced_leaf L witness = Some e"
  shows "leaf_uses_enforced_opcode L (el_leaf e)
    \<and> cb_leaf_version (el_control e) = LEAF_VERSION_TAPSCRIPT
    \<and> (\<exists>cb. control_block_decode L cb = Some (el_control e)
         \<and> witness = el_stack e @ [el_leaf e, cb] @ (case el_annex e of None \<Rightarrow> [] | Some a \<Rightarrow> [a]))"
proof -
  obtain annex elems where sa: "strip_annex witness = (annex, elems)" by force
  have w: "witness = elems @ (case annex of None \<Rightarrow> [] | Some a \<Rightarrow> [a])"
    using sa by (auto simp: strip_annex_def split: if_splits)
  have len: "2 \<le> length elems"
    using assms by (auto simp: detect_enforced_leaf_def sa split: if_splits)
  then obtain u cb where u: "elems = u @ [cb]" by (cases elems rule: rev_cases) auto
  then obtain s leaf where "u = s @ [leaf]" using len by (cases u rule: rev_cases) auto
  then have elems: "elems = s @ [leaf, cb]" using u by simp
  have wl: "\<not> length witness < 2" using w len by simp
  have d: "detect_enforced_leaf L witness =
     (case control_block_decode L cb of None \<Rightarrow> None
      | Some control \<Rightarrow>
          if cb_leaf_version control \<noteq> LEAF_VERSION_TAPSCRIPT then None
          else if \<not> leaf_uses_enforced_opcode L leaf then None
          else Some \<lparr>el_leaf = leaf, el_stack = s, el_control = control, el_annex = annex\<rparr>)"
    using wl len by (simp add: detect_enforced_leaf_def sa elems Let_def butlast_append)
  obtain control where c: "control_block_decode L cb = Some control"
      "cb_leaf_version control = LEAF_VERSION_TAPSCRIPT" "leaf_uses_enforced_opcode L leaf"
    and e: "e = \<lparr>el_leaf = leaf, el_stack = s, el_control = control, el_annex = annex\<rparr>"
    using assms unfolding d by (auto split: option.splits if_splits)
  show ?thesis
    unfolding e w elems using c by simp
qed

section \<open>All inputs\<close>

text \<open>The queue after each input: what was queued before, then the checks of this input.\<close>

definition input_enforced ::
  "libs \<Rightarrow> transaction \<Rightarrow> utxo_map \<Rightarrow> deferred_check list \<Rightarrow> nat \<Rightarrow> tx_in \<Rightarrow> bool" where
  "input_enforced L tx prevouts queue i input =
     (case detect_enforced_leaf L (txi_witness input) of
        None \<Rightarrow> True
      | Some e \<Rightarrow> \<exists>before new. execute_leaf L (leaf_context_of tx prevouts i input e) (el_stack e) before
            = Inr (before @ new) \<and> set new \<subseteq> set queue)"

lemma execute_leaf_appends:
  assumes "execute_leaf L ctx initial before = Inr after"
  obtains new where "after = before @ new"
proof -
  obtain st where "foldE (exec_item L ctx) \<lparr>es_stack = rev initial, es_deferred = before\<rparr>
      (script_instructions L (lc_leaf ctx)) = Inr st" and "after = es_deferred st"
    using assms by (auto simp: execute_leaf_ok)
  then show thesis using exec_loop_appends [of L ctx] that by fastforce
qed

lemma execute_leaf_indices:
  assumes "execute_leaf L ctx initial before = Inr after"
    and "list_all (indices_ok (length (tx_output (lc_tx ctx)))) before"
  shows "list_all (indices_ok (length (tx_output (lc_tx ctx)))) after"
proof -
  obtain st where st: "foldE (exec_item L ctx) \<lparr>es_stack = rev initial, es_deferred = before\<rparr>
      (script_instructions L (lc_leaf ctx)) = Inr st" and "after = es_deferred st"
    and "stack_ok (rev initial)"
    using assms(1) by (auto simp: execute_leaf_ok)
  moreover have "exec_inv ctx \<lparr>es_stack = rev initial, es_deferred = before\<rparr>"
    using assms(2) \<open>stack_ok (rev initial)\<close> by (simp add: exec_inv_def)
  from exec_loop.loop_inv [OF this st] show ?thesis
    using \<open>after = es_deferred st\<close> by (simp add: exec_inv_def)
qed

lemma enforce_loop:
  "foldE (enforce_input L tx prevouts) queue ins = Inr queue' \<Longrightarrow>
   list_all (indices_ok (length (tx_output tx))) queue \<Longrightarrow>
   (\<exists>new. queue' = queue @ new)
   \<and> (\<forall>(i, input) \<in> set ins. input_enforced L tx prevouts queue' i input)
   \<and> list_all (indices_ok (length (tx_output tx))) queue'"
proof (induction ins arbitrary: queue)
  case (Cons x ins)
  obtain i input where x: "x = (i, input)" by (cases x)
  obtain q where q: "enforce_input L tx prevouts queue (i, input) = Inr q"
    and rest: "foldE (enforce_input L tx prevouts) q ins = Inr queue'"
    using Cons.prems(1) x by auto
  have step: "(\<exists>new. q = queue @ new) \<and> list_all (indices_ok (length (tx_output tx))) q
    \<and> (\<forall>final. set q \<subseteq> set final \<longrightarrow> input_enforced L tx prevouts final i input)"
  proof (cases "detect_enforced_leaf L (txi_witness input)")
    case None
    then show ?thesis
      using q Cons.prems(2) by (simp add: enforce_input_def input_enforced_def)
  next
    case (Some e)
    let ?ctx = "leaf_context_of tx prevouts i input e"
    have run: "execute_leaf L ?ctx (el_stack e) queue = Inr q"
      using q by (simp add: enforce_input_def Some)
    obtain new where new: "q = queue @ new" by (rule execute_leaf_appends [OF run])
    have "list_all (indices_ok (length (tx_output tx))) q"
      using execute_leaf_indices [OF run] Cons.prems(2) by (simp add: leaf_context_of_def)
    then show ?thesis
      using run new by (auto simp: input_enforced_def Some)
  qed
  have IH: "(\<exists>new. queue' = q @ new)
   \<and> (\<forall>(i, input) \<in> set ins. input_enforced L tx prevouts queue' i input)
   \<and> list_all (indices_ok (length (tx_output tx))) queue'"
    using Cons.IH [OF rest] step by blast
  then have "set q \<subseteq> set queue'" by auto
  then show ?case using step IH x by auto
qed auto

text \<open>Executability of the instructions does not depend on the invariant.\<close>

lemma foldE_items_executable:
  "foldE (exec_item L ctx) st items = Inr st' \<Longrightarrow> item \<in> set items \<Longrightarrow> item_executable item"
proof (induction items arbitrary: st)
  case (Cons x items)
  then obtain st1 where st1: "exec_item L ctx st x = Inr st1" "foldE (exec_item L ctx) st1 items = Inr st'"
    by auto
  have "item_executable x"
  proof (cases x)
    case (Some i)
    then show ?thesis
      using st1(1) exec_op_unimplemented [of _ L ctx st]
      by (cases i) (fastforce simp: exec_item_def item_executable_def)+
  qed (use st1(1) in \<open>simp add: exec_item_def\<close>)
  then show ?case using Cons.IH [OF st1(2)] Cons.prems(2) by auto
qed simp

lemma no_panic_enforce_input:
  "i < length (tx_input tx) \<Longrightarrow> enforce_input L tx prevouts queue (i, input) \<noteq> Inl (InterpFailed k IndexPanic)"
proof
  assume i: "i < length (tx_input tx)"
    and bad: "enforce_input L tx prevouts queue (i, input) = Inl (InterpFailed k IndexPanic)"
  then obtain e where e: "execute_leaf L (leaf_context_of tx prevouts i input e) (el_stack e) queue = Inl IndexPanic"
    by (auto simp: enforce_input_def mapErr_eq_Inl split: option.splits)
  have "no_panic (execute_leaf L (leaf_context_of tx prevouts i input e) (el_stack e) queue)"
    by (rule no_panic_execute_leaf) (simp add: leaf_context_of_def i)
  then show False using e by (simp add: no_panic_def)
qed

lemma enforce_loop_no_panic:
  "\<forall>(i, input) \<in> set ins. i < length (tx_input tx) \<Longrightarrow>
   foldE (enforce_input L tx prevouts) queue ins \<noteq> Inl (InterpFailed k IndexPanic)
   \<and> foldE (enforce_input L tx prevouts) queue ins \<noteq> Inl (DeferredFailed e)"
proof (induction ins arbitrary: queue)
  case (Cons x ins)
  obtain i input where x: "x = (i, input)" by (cases x)
  have i: "i < length (tx_input tx)" using Cons.prems x by simp
  have "enforce_input L tx prevouts queue (i, input) \<noteq> Inl (DeferredFailed e)"
    by (auto simp: enforce_input_def mapErr_eq_Inl split: option.splits)
  then show ?case
    using no_panic_enforce_input [OF i] Cons.IH Cons.prems unfolding x
    by (cases "enforce_input L tx prevouts queue (i, input)") auto
qed simp

section \<open>Properties\<close>


text \<open>
  Enforcement never panics: no transaction, prevout map or witness makes an index of the
  interpreter or of the deferred checks run out of the transaction's inputs or outputs.
\<close>
theorem enforce_transaction_no_panic:
  "enforce_transaction L tx prevouts \<notin> {Inl (InterpFailed i IndexPanic), Inl (DeferredFailed IndexPanic)}"
proof -
  have idx: "\<forall>(i, input) \<in> set (enumerate 0 (tx_input tx)). i < length (tx_input tx)"
    by (auto simp: in_set_enumerate_eq)
  show ?thesis
  proof (cases "foldE (enforce_input L tx prevouts) [] (enumerate 0 (tx_input tx))")
    case (Inl e)
    then show ?thesis
      using enforce_loop_no_panic [OF idx, of L prevouts "[]"] by (auto simp: enforce_transaction_def)
  next
    case (Inr queue)
    have "list_all (indices_ok (length (tx_output tx))) queue"
      using enforce_loop [OF Inr] by simp
    then show ?thesis
      using evaluate_cases [of tx queue] by (simp add: enforce_transaction_def Inr)
  qed
qed

text \<open>
  C8: a leaf that executes successfully contains only pushes within the element limit and
  implemented opcodes; the stack is within its bounds after every instruction; and exactly one
  element, a true one, is left.
\<close>
theorem execute_leaf_sound:
  assumes "execute_leaf L ctx initial before = Inr after"
    and "list_all (indices_ok (length (tx_output (lc_tx ctx)))) before"
  shows "list_all item_executable (script_instructions L (lc_leaf ctx))
    \<and> (\<forall>n. \<exists>st. foldE (exec_item L ctx) \<lparr>es_stack = rev initial, es_deferred = before\<rparr>
          (take n (script_instructions L (lc_leaf ctx))) = Inr st \<and> stack_ok (es_stack st))
    \<and> (\<exists>x st. foldE (exec_item L ctx) \<lparr>es_stack = rev initial, es_deferred = before\<rparr>
          (script_instructions L (lc_leaf ctx)) = Inr st \<and> es_stack st = [x] \<and> is_truthy x)"
proof -
  let ?st0 = "\<lparr>es_stack = rev initial, es_deferred = before\<rparr>"
  let ?items = "script_instructions L (lc_leaf ctx)"
  obtain x st where run: "foldE (exec_item L ctx) ?st0 ?items = Inr st"
    and fin: "es_stack st = [x]" "is_truthy x" and init: "stack_ok (rev initial)"
    using assms(1) by (auto simp: execute_leaf_ok)
  have inv: "exec_inv ctx ?st0" using init assms(2) by (simp add: exec_inv_def)
  have "\<exists>st. foldE (exec_item L ctx) ?st0 (take n ?items) = Inr st \<and> stack_ok (es_stack st)" for n
  proof -
    obtain st1 where "foldE (exec_item L ctx) ?st0 (take n ?items) = Inr st1"
      using foldE_take [OF run] by blast
    then show ?thesis using exec_loop.loop_inv [OF inv] by (auto simp: exec_inv_def)
  qed
  moreover have "list_all item_executable ?items"
    using exec_loop.loop_seen [OF inv run] by (simp add: list_all_iff)
  ultimately show ?thesis using run fin by blast
qed

text \<open>
  C7: \<open>OP_CHECKTEMPLATEVERIFY\<close> is a covenant: in a successful leaf, the element on top of the
  stack when it executes is the 32-byte template hash of the spending transaction at the input.
\<close>
theorem ctv_enforced:
  assumes "execute_leaf L ctx initial before = Inr after"
    and "script_instructions L (lc_leaf ctx) = pre @ Some (Op OP_CTV) # post"
  shows "\<exists>st arg rest. foldE (exec_item L ctx) \<lparr>es_stack = rev initial, es_deferred = before\<rparr> pre = Inr st
    \<and> es_stack st = arg # rest \<and> length arg = 32
    \<and> arg = default_check_template_verify_hash L (lc_tx ctx) (lc_input_index ctx)"
proof -
  obtain st st' where st: "foldE (exec_item L ctx) \<lparr>es_stack = rev initial, es_deferred = before\<rparr> pre = Inr st"
    and op: "exec_op L ctx st OP_CTV = Inr st'"
    by (rule execute_leaf_at [OF assms])
  then show ?thesis by (auto simp: exec_ctv_ok)
qed

text \<open>
  Signature opcodes are checked signatures: in a successful leaf, \<open>OP_CHECKSIGVERIFY\<close> has
  on the stack a 32-byte key and a non-empty signature that verifies under it for the input's
  BIP341 sighash with all the prevouts its type commits to; \<open>OP_CHECKSIG\<close> pushes true only for
  such a signature, and false only for an empty one.
\<close>
theorem signatures_enforced:
  assumes "execute_leaf L ctx initial before = Inr after"
    and "script_instructions L (lc_leaf ctx) = pre @ Some (Op op) # post"
    and "op = OP_CHECKSIGVERIFY \<or> op = OP_CHECKSIG"
  shows "\<exists>st st' pubkey sig rest.
      foldE (exec_item L ctx) \<lparr>es_stack = rev initial, es_deferred = before\<rparr> pre = Inr st
    \<and> exec_op L ctx st op = Inr st' \<and> es_stack st = pubkey # sig # rest
    \<and> (tapscript_sig_valid L ctx sig pubkey \<and> sig \<noteq> []
         \<and> es_stack st' = (if op = OP_CHECKSIG then [1] # rest else rest)
       \<or> op = OP_CHECKSIG \<and> sig = [] \<and> es_stack st' = [] # rest)"
proof -
  obtain st st' where st: "foldE (exec_item L ctx) \<lparr>es_stack = rev initial, es_deferred = before\<rparr> pre = Inr st"
    and op: "exec_op L ctx st op = Inr st'"
    by (rule execute_leaf_at [OF assms(1,2)])
  have ne: "OP_CHECKSIGVERIFY \<noteq> OP_CHECKSIG" by (simp add: opcode_defs)
  show ?thesis
  proof (cases "op = OP_CHECKSIG")
    case True
    then show ?thesis using exec_checksig_ok [of L ctx st st'] op st by fastforce
  next
    case False
    then show ?thesis using exec_checksigverify_ok [of L ctx st st'] op st assms(3) by fastforce
  qed
qed

text \<open>
  Timelocks are enforced: when \<open>OP_CSV\<close> or \<open>OP_CLTV\<close> executes in a successful leaf, the top
  element is a non-negative number of at most five bytes for which the BIP112, respectively
  BIP65, condition holds of the spending transaction and input, and the stack is unchanged.
\<close>
theorem timelocks_enforced:
  assumes "execute_leaf L ctx initial before = Inr after"
    and "script_instructions L (lc_leaf ctx) = pre @ Some (Op op) # post"
    and "op = OP_CSV \<or> op = OP_CLTV"
  shows "\<exists>st top rest n.
      foldE (exec_item L ctx) \<lparr>es_stack = rev initial, es_deferred = before\<rparr> pre = Inr st
    \<and> exec_op L ctx st op = Inr st \<and> es_stack st = top # rest
    \<and> read_scriptnum top 5 = Inr n \<and> 0 \<le> n
    \<and> (if op = OP_CSV then sequence_satisfied n (lc_tx ctx) (lc_input_index ctx)
       else locktime_satisfied n (lc_tx ctx) (lc_input_index ctx))"
proof -
  obtain st st' where st: "foldE (exec_item L ctx) \<lparr>es_stack = rev initial, es_deferred = before\<rparr> pre = Inr st"
    and op: "exec_op L ctx st op = Inr st'"
    by (rule execute_leaf_at [OF assms(1,2)])
  have ne: "OP_CLTV \<noteq> OP_CSV" by (simp add: opcode_defs)
  show ?thesis
  proof (cases "op = OP_CSV")
    case True
    then show ?thesis using exec_timelocks_ok(1) [of L ctx st st'] op st by fastforce
  next
    case False
    then show ?thesis using exec_timelocks_ok(2) [of L ctx st st'] op st assms(3) ne by fastforce
  qed
qed


text \<open>
  \<open>OP_VAULT_RECOVER\<close> is enforced: when it executes in a successful leaf, the output it
  names exists, the tagged hash of that output's script is the 32-byte hash on the stack, and
  the whole value of the input is queued as a demand on that output.
\<close>
theorem vault_recover_enforced:
  assumes "execute_leaf L ctx initial before = Inr after"
    and "script_instructions L (lc_leaf ctx) = pre @ Some (Op OP_VAULT_RECOVER) # post"
  shows "\<exists>st input hash idx_bytes i rest.
      foldE (exec_item L ctx) \<lparr>es_stack = rev initial, es_deferred = before\<rparr> pre = Inr st
    \<and> lc_input_txout ctx = Some input
    \<and> es_stack st = hash # idx_bytes # rest \<and> length hash = 32
    \<and> read_scriptnum idx_bytes 4 = Inr (int i) \<and> i < length (tx_output (lc_tx ctx))
    \<and> vault_recovery_spk_hash L (txo_script_pubkey (tx_output (lc_tx ctx) ! i)) = hash
    \<and> Recovery (txo_value input) i \<in> set after"
proof -
  obtain st st' st_end where st: "foldE (exec_item L ctx) \<lparr>es_stack = rev initial, es_deferred = before\<rparr> pre = Inr st"
    and op: "exec_op L ctx st OP_VAULT_RECOVER = Inr st'"
    and post: "foldE (exec_item L ctx) st' post = Inr st_end" and after: "after = es_deferred st_end"
    using assms by (auto simp: execute_leaf_ok foldE_append exec_item_def)
  obtain new where "es_deferred st_end = es_deferred st' @ new"
    using exec_loop_appends [OF post] by blast
  then show ?thesis
    using exec_op_vault_recover_ok [OF op [unfolded exec_op_simps]] st after by fastforce
qed

text \<open>
  C5: the deferred value checks are exact: for queued checks whose output indices are in range,
  evaluation succeeds if and only if no check spends more than its input and, for every output,
  the natural-number sum of the demands is at most the output's value; the only failure is
  \<open>VaultValueNotPreserved\<close>. The 64-bit accumulator never changes the answer.
\<close>
theorem deferred_checks_exact:
  assumes "list_all (indices_ok (length (tx_output tx))) checks"
  shows "evaluate_deferred_checks checks tx =
    (if demands_met checks tx then Inr () else Inl VaultValueNotPreserved)"
  using evaluate_cases [OF assms] .

text \<open>
  Unknown opcodes fail closed: if the leaf that an input reveals is enforced (some enforced
  opcode comes before any undecodable instruction) and contains an instruction that does not
  decode, an oversized push or an opcode outside the implemented set, the transaction is
  rejected.
\<close>
theorem unimplemented_leaf_rejected:
  assumes "i < length (tx_input tx)"
    and "detect_enforced_leaf L (txi_witness (tx_input tx ! i)) = Some e"
    and "item \<in> set (script_instructions L (el_leaf e))" and "\<not> item_executable item"
  shows "\<not> is_ok (enforce_transaction L tx prevouts)"
proof
  assume "is_ok (enforce_transaction L tx prevouts)"
  then obtain queue where loop: "foldE (enforce_input L tx prevouts) [] (enumerate 0 (tx_input tx)) = Inr queue"
    by (auto simp: enforce_transaction_def is_ok_iff)
  have "(i, tx_input tx ! i) \<in> set (enumerate 0 (tx_input tx))"
    using assms(1) by (simp add: in_set_enumerate_eq)
  then have "input_enforced L tx prevouts queue i (tx_input tx ! i)"
    using enforce_loop [OF loop] by fastforce
  then obtain before new where run: "execute_leaf L (leaf_context_of tx prevouts i (tx_input tx ! i) e)
      (el_stack e) before = Inr (before @ new)"
    by (auto simp: input_enforced_def assms(2))
  let ?ctx = "leaf_context_of tx prevouts i (tx_input tx ! i) e"
  have leaf: "lc_leaf ?ctx = el_leaf e" by (simp add: leaf_context_of_def)
  obtain st where st: "foldE (exec_item L ?ctx) \<lparr>es_stack = rev (el_stack e), es_deferred = before\<rparr>
      (script_instructions L (el_leaf e)) = Inr st"
    using run by (auto simp: execute_leaf_ok leaf)
  show False
    using foldE_items_executable [OF st] assms(3,4) by blast
qed

end
