(* ===== verification/Tapscript_Witnesses.thy ===== *)
theory Tapscript_Witnesses
  imports Tapscript
begin

text \<open>
  Concrete leaves and transactions on which the properties of the interpreter and of its
  enforcement apply: a template covenant, a signed and time-locked leaf, a vault trigger, a vault
  recovery, and a transaction that reveals a covenant leaf.
\<close>

lemmas exec_eval =
  execute_leaf_def stack_new_def exec_item_def exec_op_simps exec_ctv_def exec_sig_op_def
  exec_timelock_op_def with_stack_def stack_pop_def stack_push_def stack_top_def
  stack_size_defs

lemma is_truthy_Cons: "b \<noteq> 0 \<Longrightarrow> bs \<noteq> [] \<Longrightarrow> is_truthy (b # bs)"
  by (simp add: is_truthy_def)

lemma is_truthy_one: "is_truthy [1]"
  by (simp add: is_truthy_def)

definition demo_control :: control_block where
  "demo_control = \<lparr>cb_leaf_version = 0xc0, cb_internal_key = replicate 32 3, cb_merkle_branch = []\<rparr>"

definition demo_context :: "transaction \<Rightarrow> tx_out option \<Rightarrow> bytes \<Rightarrow> leaf_context" where
  "demo_context tx prevout leaf =
     \<lparr>lc_tx = tx, lc_input_index = 0,
      lc_prevouts = (\<lambda>_. prevout), lc_input_txout = prevout, lc_control = demo_control,
      lc_annex = None, lc_leaf = leaf\<rparr>"

lemma demo_context_sel [simp]:
  "lc_tx (demo_context tx prevout leaf) = tx"
  "lc_input_index (demo_context tx prevout leaf) = 0"
  "lc_prevouts (demo_context tx prevout leaf) = (\<lambda>_. prevout)"
  "lc_input_txout (demo_context tx prevout leaf) = prevout"
  "lc_control (demo_context tx prevout leaf) = demo_control"
  "lc_annex (demo_context tx prevout leaf) = None"
  "lc_leaf (demo_context tx prevout leaf) = leaf"
  by (simp_all add: demo_context_def)

section \<open>A template covenant\<close>

definition ctv_hash :: bytes where
  "ctv_hash = default_check_template_verify_hash sample_libs (ctv_tx 1) 0"

definition ctv_leaf :: bytes where
  "ctv_leaf = 0x20 # ctv_hash @ [OP_CTV]"

lemma length_ctv_hash [simp]: "length ctv_hash = 32"
  by (simp add: ctv_hash_def default_check_template_verify_hash_def)

lemma is_truthy_ctv_hash: "is_truthy ctv_hash"
proof -
  have "length (ctv_preimage sample_libs (ctv_tx 1) 0) = 84"
    by (subst length_ctv_preimage)
      (simp_all add: has_script_sig_def ctv_tx_def sample_tx_def sample_in_def)
  then show ?thesis
    by (auto simp: ctv_hash_def default_check_template_verify_hash_def sample_hash32_def
        intro!: is_truthy_Cons)
qed

lemma ctv_leaf_instructions:
  "script_instructions sample_libs ctv_leaf = [Some (PushBytes ctv_hash)] @ Some (Op OP_CTV) # []"
  by (simp add: ctv_leaf_def sample_instructions_op enforced_defs)

lemma ctv_leaf_runs:
  "execute_leaf sample_libs (demo_context (ctv_tx 1) None ctv_leaf) [] [] = Inr []"
  using is_truthy_ctv_hash
  by (simp add: exec_eval ctv_leaf_instructions [unfolded sample_libs_sel] flip: ctv_hash_def)

theorem ctv_enforced_witness:
  "\<exists>st arg rest. foldE (exec_item sample_libs (demo_context (ctv_tx 1) None ctv_leaf))
        \<lparr>es_stack = rev [], es_deferred = []\<rparr> [Some (PushBytes ctv_hash)] = Inr st
    \<and> es_stack st = arg # rest \<and> length arg = 32
    \<and> arg = default_check_template_verify_hash sample_libs
        (lc_tx (demo_context (ctv_tx 1) None ctv_leaf))
        (lc_input_index (demo_context (ctv_tx 1) None ctv_leaf))"
  by (rule ctv_enforced [OF ctv_leaf_runs]) (simp only: demo_context_sel ctv_leaf_instructions)

theorem execute_leaf_sound_witness:
  "list_all item_executable (script_instructions sample_libs (lc_leaf (demo_context (ctv_tx 1) None ctv_leaf)))
    \<and> (\<forall>n. \<exists>st. foldE (exec_item sample_libs (demo_context (ctv_tx 1) None ctv_leaf))
          \<lparr>es_stack = rev [], es_deferred = []\<rparr>
          (take n (script_instructions sample_libs (lc_leaf (demo_context (ctv_tx 1) None ctv_leaf)))) = Inr st
          \<and> stack_ok (es_stack st))
    \<and> (\<exists>x st. foldE (exec_item sample_libs (demo_context (ctv_tx 1) None ctv_leaf))
          \<lparr>es_stack = rev [], es_deferred = []\<rparr>
          (script_instructions sample_libs (lc_leaf (demo_context (ctv_tx 1) None ctv_leaf))) = Inr st
          \<and> es_stack st = [x] \<and> is_truthy x)"
  by (rule execute_leaf_sound [OF ctv_leaf_runs]) simp

section \<open>A time-locked leaf and a signed leaf\<close>

definition csv_tx :: transaction where
  "csv_tx = sample_tx 9 [sample_in 1 0 10 []] [sample_out 1000 [0x6a]]"

lemma csv_leaf_instructions:
  "script_instructions sample_libs [1, 5, OP_CSV] = [Some (PushBytes [5])] @ Some (Op OP_CSV) # []"
  using sample_instructions_push [of 1 "[5]" "[OP_CSV]"]
  by (simp add: sample_instructions_op opcode_defs)

lemma csv_satisfied: "check_sequence 5 csv_tx 0 = Inr ()"
  by (simp add: check_sequence_ok sequence_satisfied_def csv_tx_def sample_tx_def sample_in_def
      bit_iff_odd)

lemma csv_leaf_runs:
  "execute_leaf sample_libs (demo_context csv_tx None [1, 5, OP_CSV]) [] [] = Inr []"
proof -
  have "read_scriptnum [5] 5 = Inr 5" by code_simp
  then show ?thesis
    by (simp add: exec_eval csv_leaf_instructions [unfolded sample_libs_sel] csv_satisfied is_truthy_def)
qed

theorem timelocks_enforced_witness:
  "\<exists>st top rest n.
      foldE (exec_item sample_libs (demo_context csv_tx None [1, 5, OP_CSV]))
        \<lparr>es_stack = rev [], es_deferred = []\<rparr> [Some (PushBytes [5])] = Inr st
    \<and> exec_op sample_libs (demo_context csv_tx None [1, 5, OP_CSV]) st OP_CSV = Inr st
    \<and> es_stack st = top # rest \<and> read_scriptnum top 5 = Inr n \<and> 0 \<le> n
    \<and> (if OP_CSV = OP_CSV then sequence_satisfied n csv_tx 0 else locktime_satisfied n csv_tx 0)"
proof -
  have "script_instructions sample_libs (lc_leaf (demo_context csv_tx None [1, 5, OP_CSV]))
      = [Some (PushBytes [5])] @ Some (Op OP_CSV) # []"
    by (simp only: demo_context_sel csv_leaf_instructions)
  from timelocks_enforced [OF csv_leaf_runs this] show ?thesis by simp
qed

definition sig_leaf :: bytes where
  "sig_leaf = 0x20 # replicate 32 4 @ [OP_CHECKSIG]"

definition sig_tx_sig :: bytes where
  "sig_tx_sig = sample_digest csv_tx 0 SighashDefault @ replicate 32 4"

lemma sig_leaf_instructions:
  "script_instructions sample_libs sig_leaf = [Some (PushBytes (replicate 32 4))] @ Some (Op OP_CHECKSIG) # []"
  by (simp add: sig_leaf_def sample_instructions_op opcode_defs)

lemma sig_verifies:
  "verify_schnorr sample_libs sig_tx_sig (replicate 32 4)
     (demo_context csv_tx (Some (sample_out 5 [])) sig_leaf) = Inr True"
proof -
  have len: "length sig_tx_sig = 64" by (simp add: sig_tx_sig_def sample_digest_def)
  have ps: "ordered_prevouts csv_tx (\<lambda>_. Some (sample_out 5 [])) = Inr [sample_out 5 []]"
    by (simp add: ordered_prevouts_def csv_tx_def sample_tx_def)
  have fit: "sample_prevouts_fit csv_tx 0 (PrevoutsAll [sample_out 5 []]) SighashDefault"
    by (simp add: sample_prevouts_fit_def csv_tx_def sample_tx_def)
  show ?thesis
    by (simp add: verify_schnorr_def len interp_acp_def ps fit) (simp add: sig_tx_sig_def)
qed

lemma sig_leaf_runs:
  "execute_leaf sample_libs (demo_context csv_tx (Some (sample_out 5 [])) sig_leaf) [sig_tx_sig] [] = Inr []"
proof -
  have len: "length sig_tx_sig = 64" by (simp add: sig_tx_sig_def sample_digest_def)
  then have "sig_tx_sig \<noteq> []" by auto
  then show ?thesis
    using sig_verifies len by (simp add: exec_eval sig_leaf_instructions [unfolded sample_libs_sel] is_truthy_one)
qed

theorem signatures_enforced_witness:
  "\<exists>st st' pubkey sig rest.
      foldE (exec_item sample_libs (demo_context csv_tx (Some (sample_out 5 [])) sig_leaf))
        \<lparr>es_stack = rev [sig_tx_sig], es_deferred = []\<rparr> [Some (PushBytes (replicate 32 4))] = Inr st
    \<and> exec_op sample_libs (demo_context csv_tx (Some (sample_out 5 [])) sig_leaf) st OP_CHECKSIG = Inr st'
    \<and> es_stack st = pubkey # sig # rest
    \<and> (tapscript_sig_valid sample_libs (demo_context csv_tx (Some (sample_out 5 [])) sig_leaf) sig pubkey
         \<and> sig \<noteq> [] \<and> es_stack st' = (if OP_CHECKSIG = OP_CHECKSIG then [1] # rest else rest)
       \<or> OP_CHECKSIG = OP_CHECKSIG \<and> sig = [] \<and> es_stack st' = [] # rest)"
  by (rule signatures_enforced [OF sig_leaf_runs]) (simp_all only: demo_context_sel sig_leaf_instructions simp_thms)

section \<open>A vault trigger and a vault recovery\<close>

text \<open>Body \<open>OP_1\<close>, no items, trigger output 0, no revault: amount 0 and index -1.\<close>

definition trigger_spk :: bytes where
  "trigger_spk = reconstruct_trigger_spk sample_libs demo_control (leaf_update_script [] [0x51])"

definition vault_tx :: transaction where
  "vault_tx = sample_tx 9 [sample_in 1 0 0 []] [sample_out 1000 trigger_spk, sample_out 5 [0x6a]]"

definition vault_stack :: "bytes list" where
  "vault_stack = [[], [0x81], [], [], [0x51]]"

lemma trigger_spk_p2tr: "length trigger_spk = 34 \<and> take 2 trigger_spk = [0x51, 0x20]"
  by (simp add: trigger_spk_def reconstruct_trigger_spk_def)

lemma vault_parse:
  "parse_vault_args 2 (rev vault_stack) =
    Inr (\<lparr>va_leaf_update = leaf_update_script [] [0x51], va_trigger_idx = 0, va_revault_idx = - 1,
          va_revault_amount = 0\<rparr>, [])"
proof -
  have "read_scriptnum [0x81] 4 = Inr (- 1)" by code_simp
  then show ?thesis
    by (simp add: parse_vault_args_def vault_stack_def stack_pop_def)
qed

lemma vault_outputs:
  "check_vault_outputs sample_libs (demo_context vault_tx (Some (sample_out 900 [])) [OP_VAULT]) (sample_out 900 [])
     \<lparr>va_leaf_update = leaf_update_script [] [0x51], va_trigger_idx = 0, va_revault_idx = - 1,
          va_revault_amount = 0\<rparr> = Inr (Trigger 900 0 0 (- 1))"
  using trigger_spk_p2tr
  by (simp add: check_vault_outputs_def output_at_def vault_tx_def sample_tx_def sample_out_def
      checked_add_u64_def flip: trigger_spk_def)

lemma vault_leaf_instructions:
  "script_instructions sample_libs [OP_VAULT] = [] @ Some (Op OP_VAULT) # []"
  by (simp add: sample_instructions_op enforced_defs)

lemma vault_leaf_runs:
  "execute_leaf sample_libs (demo_context vault_tx (Some (sample_out 900 [])) [OP_VAULT]) vault_stack []
    = Inr [Trigger 900 0 0 (- 1)]"
proof -
  have n: "length (tx_output vault_tx) = 2" by (simp add: vault_tx_def sample_tx_def)
  have "stack_ok (rev vault_stack)"
    by (simp add: vault_stack_def stack_ok_def stack_size_defs)
  then have new: "stack_new vault_stack = Inr (rev vault_stack)" by simp
  show ?thesis
    unfolding execute_leaf_def new
    by (simp add: exec_item_def exec_op_simps exec_op_vault_def vault_leaf_instructions [unfolded sample_libs_sel]
        vault_parse vault_outputs n stack_push_def stack_size_defs is_truthy_one)
qed


definition recover_hash :: bytes where
  "recover_hash = vault_recovery_spk_hash sample_libs [0x6a]"

lemma length_recover_hash [simp]: "length recover_hash = 32"
  by (simp add: recover_hash_def vault_recovery_spk_hash_def tagged_hash_def Let_def)

lemma recover_leaf_instructions:
  "script_instructions sample_libs [OP_VAULT_RECOVER] = [] @ Some (Op OP_VAULT_RECOVER) # []"
  by (simp add: sample_instructions_op enforced_defs)

definition recover_ctx :: leaf_context where
  "recover_ctx = demo_context vault_tx (Some (sample_out 4 [])) [OP_VAULT_RECOVER]"

lemma recover_leaf_runs:
  "execute_leaf sample_libs recover_ctx [[1], recover_hash] [] = Inr [Recovery 4 1]"
proof -
  have "read_scriptnum [1] 4 = Inr 1" by code_simp
  then show ?thesis
    by (simp add: recover_ctx_def exec_eval exec_op_vault_recover_def
        recover_leaf_instructions [unfolded sample_libs_sel] vault_tx_def sample_tx_def sample_out_def
        output_at_def is_truthy_one flip: recover_hash_def)
qed

theorem vault_recover_enforced_witness:
  "\<exists>st input hash idx_bytes i rest.
      foldE (exec_item sample_libs recover_ctx)
        \<lparr>es_stack = rev [[1], recover_hash], es_deferred = []\<rparr> [] = Inr st
    \<and> lc_input_txout recover_ctx = Some input
    \<and> es_stack st = hash # idx_bytes # rest \<and> length hash = 32
    \<and> read_scriptnum idx_bytes 4 = Inr (int i) \<and> i < length (tx_output (lc_tx recover_ctx))
    \<and> vault_recovery_spk_hash sample_libs (txo_script_pubkey (tx_output (lc_tx recover_ctx) ! i)) = hash
    \<and> Recovery (txo_value input) i \<in> set [Recovery 4 1]"
  by (rule vault_recover_enforced [OF recover_leaf_runs])
    (simp only: recover_ctx_def demo_context_sel recover_leaf_instructions)

section \<open>Deferred checks and a whole transaction\<close>

lemma all_less_two: "(\<forall>i < (2 :: nat). P i) = (P 0 \<and> P 1)"
  by (auto simp: numeral_2_eq_2 less_Suc_eq)

lemma demo_demands_met: "demands_met [Trigger 900 0 0 (- 1), Recovery 4 1, Recovery 100 0] vault_tx"
proof -
  have "length (tx_output vault_tx) = 2" by (simp add: vault_tx_def sample_tx_def)
  then show ?thesis
    by (simp add: demands_met_def total_demand_def all_less_two)
      (simp add: vault_tx_def sample_tx_def sample_out_def)
qed

theorem deferred_checks_exact_witness:
  "evaluate_deferred_checks [Trigger 900 0 0 (- 1), Recovery 4 1, Recovery 100 0] vault_tx = Inr ()"
proof -
  have "list_all (indices_ok (length (tx_output vault_tx))) [Trigger 900 0 0 (- 1), Recovery 4 1, Recovery 100 0]"
    by (simp add: vault_tx_def sample_tx_def)
  from deferred_checks_exact [OF this] show ?thesis by (simp only: demo_demands_met if_True)
qed

definition ctv_spend :: transaction where
  "ctv_spend = sample_tx 9 [sample_in 1 0 5 [ctv_leaf, 0xc0 # replicate 32 3]] [sample_out 1000 [0x6a]]"

lemma ctv_spend_hash: "default_check_template_verify_hash sample_libs ctv_spend 0 = ctv_hash"
  unfolding ctv_hash_def default_check_template_verify_hash_def ctv_preimage_def output_bytes_def
    sequence_bytes_def script_sig_bytes_def has_script_sig_def ctv_tx_def ctv_spend_def sample_tx_def sample_in_def
  by simp

lemma ctv_leaf_enforced: "leaf_uses_enforced_opcode sample_libs ctv_leaf"
  by (simp add: leaf_uses_enforced_opcode_def ctv_leaf_instructions [unfolded sample_libs_sel] ENFORCED_OPCODES_def)

lemma ctv_detected:
  "detect_enforced_leaf sample_libs [ctv_leaf, 0xc0 # replicate 32 3] =
    Some \<lparr>el_leaf = ctv_leaf, el_stack = [], el_control = demo_control, el_annex = None\<rparr>"
  using ctv_leaf_enforced
  by (simp add: detect_enforced_leaf_def strip_annex_def ANNEX_PREFIX_def sample_control_block_def
      LEAF_VERSION_TAPSCRIPT_def demo_control_def)

lemma ctv_spend_passes: "enforce_transaction sample_libs ctv_spend Map.empty = Inr ()"
proof -
  let ?input = "sample_in 1 0 5 [ctv_leaf, 0xc0 # replicate 32 3]"
  have ins: "tx_input ctv_spend = [?input]" by (simp add: ctv_spend_def sample_tx_def)
  have wit: "txi_witness ?input = [ctv_leaf, 0xc0 # replicate 32 3]" by (simp add: sample_in_def)
  have run: "execute_leaf sample_libs (leaf_context_of ctv_spend Map.empty 0 ?input
      \<lparr>el_leaf = ctv_leaf, el_stack = [], el_control = demo_control, el_annex = None\<rparr>) [] [] = Inr []"
    using is_truthy_ctv_hash
    by (simp add: exec_eval leaf_context_of_def ctv_leaf_instructions [unfolded sample_libs_sel] ctv_spend_hash)
  show ?thesis
    by (simp add: enforce_transaction_def ins enforce_input_def wit ctv_detected run
        evaluate_deferred_checks_def)
qed


text \<open>An enforced leaf that also holds \<open>OP_NOP\<close>, which the interpreter does not implement.\<close>

definition nop_spend :: transaction where
  "nop_spend = sample_tx 9 [sample_in 1 0 5 [[0x61, OP_CTV], 0xc0 # replicate 32 3]] []"

theorem unimplemented_leaf_rejected_witness:
  "\<not> is_ok (enforce_transaction sample_libs nop_spend Map.empty)"
proof (rule unimplemented_leaf_rejected)
  have ins: "sample_instructions [0x61, OP_CTV] = [Some (Op 0x61), Some (Op OP_CTV)]"
    by (simp add: sample_instructions_op enforced_defs)
  have enf: "leaf_uses_enforced_opcode sample_libs [0x61, OP_CTV]"
    by (simp add: leaf_uses_enforced_opcode_def ins ENFORCED_OPCODES_def)
  show "0 < length (tx_input nop_spend)" by (simp add: nop_spend_def sample_tx_def)
  show "detect_enforced_leaf sample_libs (txi_witness (tx_input nop_spend ! 0)) =
    Some \<lparr>el_leaf = [0x61, OP_CTV], el_stack = [], el_control = demo_control, el_annex = None\<rparr>"
    by (simp add: nop_spend_def sample_tx_def sample_in_def detect_enforced_leaf_def strip_annex_def
        ANNEX_PREFIX_def sample_control_block_def LEAF_VERSION_TAPSCRIPT_def demo_control_def enf)
  show "Some (Op 0x61) \<in> set (script_instructions sample_libs
      (el_leaf \<lparr>el_leaf = [0x61, OP_CTV], el_stack = [], el_control = demo_control, el_annex = None\<rparr>))"
    by (simp add: ins)
  show "\<not> item_executable (Some (Op 0x61))"
    by (simp add: item_executable_def implemented_op_def enforced_defs opcode_defs)
qed

end
