(* ===== verification/Leaf_Script.thy ===== *)
theory Leaf_Script
  imports Sample_Libs
begin

text \<open>
  The parser of P2MR leaf scripts (\<open>lib/validator/pqc/leaf_script.rs\<close>) and the consensus limits
  (\<open>limits.rs\<close>). The parser is one pass over the instructions, with the state of the source's
  local variables; its lemmas say which scripts it accepts, which signature sites it finds and
  that it finds all of them.
\<close>

section \<open>Consensus limits\<close>

definition SLH_DSA_PUBLIC_KEY_SIZE :: nat where "SLH_DSA_PUBLIC_KEY_SIZE = 32"
definition ML_DSA_44_PUBLIC_KEY_SIZE :: nat where "ML_DSA_44_PUBLIC_KEY_SIZE = 1312"
definition SCHNORR_SIGNATURE_SIZE :: nat where "SCHNORR_SIGNATURE_SIZE = 64"
definition ML_DSA_44_SIGNATURE_SIZE :: nat where "ML_DSA_44_SIGNATURE_SIZE = 2420"
definition SLH_DSA_128S_SIGNATURE_SIZE :: nat where "SLH_DSA_128S_SIGNATURE_SIZE = 7856"
definition MAX_P2MR_WITNESS_STACK :: nat where "MAX_P2MR_WITNESS_STACK = 100"
definition MAX_P2MR_LEAF_SCRIPT_SIZE :: nat where "MAX_P2MR_LEAF_SCRIPT_SIZE = 10000"
definition MAX_PQC_SIG_WU_PER_INPUT :: nat where "MAX_PQC_SIG_WU_PER_INPUT = 12288"
definition DEFAULT_PQC_VERIFY_BUDGET_MS :: nat where "DEFAULT_PQC_VERIFY_BUDGET_MS = 500"
definition PQC_SIGNATURE_SIZE_TOLERANCE :: nat where "PQC_SIGNATURE_SIZE_TOLERANCE = 4"

lemmas limit_defs [size_simps] =
  SLH_DSA_PUBLIC_KEY_SIZE_def ML_DSA_44_PUBLIC_KEY_SIZE_def SCHNORR_SIGNATURE_SIZE_def
  ML_DSA_44_SIGNATURE_SIZE_def SLH_DSA_128S_SIGNATURE_SIZE_def MAX_P2MR_WITNESS_STACK_def
  MAX_P2MR_LEAF_SCRIPT_SIZE_def MAX_PQC_SIG_WU_PER_INPUT_def DEFAULT_PQC_VERIFY_BUDGET_MS_def
  PQC_SIGNATURE_SIZE_TOLERANCE_def

definition estimate_sig_wu :: "nat \<Rightarrow> nat" where
  "estimate_sig_wu sig_len = sig_len"

section \<open>Data\<close>

datatype leaf_script_error =
  OpSubstrForbidden
| InvalidPush
| InvalidOpcode
| ForbiddenOpcode u8
| NoSigCheckOpcode
| MissingPubkeyPush
| InvalidPubkeySize nat
| WitnessSigCountMismatch nat nat
| MultisigMissingKeyCount
| MultisigPubkeyCountMismatch nat nat
| DanglingMultisigKeyCount
| LeafScriptTooLarge
| EmptyScript

record sig_check_site =
  scs_pubkey :: bytes
  scs_opcode :: u8

record parsed_leaf_script =
  pls_sig_sites :: "sig_check_site list"

section \<open>Opcode classes\<close>

definition SIG_CHECK_OPCODES :: "u8 list" where
  "SIG_CHECK_OPCODES =
     [OP_CHECKSIG, OP_CHECKSIGVERIFY, OP_CHECKSIGADD, OP_CHECKMULTISIG, OP_CHECKMULTISIGVERIFY]"

definition is_sig_check_opcode :: "u8 \<Rightarrow> bool" where
  "is_sig_check_opcode opcode = List.member SIG_CHECK_OPCODES opcode"

definition is_pushnum_opcode :: "u8 \<Rightarrow> bool" where
  "is_pushnum_opcode opcode = (opcode \<ge> OP_PUSHNUM_1 \<and> opcode \<le> OP_PUSHNUM_16)"

definition decode_pushnum :: "u8 \<Rightarrow> nat option" where
  "decode_pushnum opcode =
     (if is_pushnum_opcode opcode then Some (unat (opcode - OP_PUSHNUM_1 + 1)) else None)"

definition is_allowed_between_sig_sites :: "u8 \<Rightarrow> bool" where
  "is_allowed_between_sig_sites opcode =
     (opcode = OP_BOOLAND \<or> opcode = OP_VERIFY \<or> opcode = OP_PUSHBYTES_0 \<or> is_pushnum_opcode opcode)"

section \<open>The parser\<close>

definition validate_pubkey_size :: "bytes \<Rightarrow> leaf_script_error + unit" where
  "validate_pubkey_size pubkey =
     (let size = length pubkey in
      if size = SLH_DSA_PUBLIC_KEY_SIZE \<or> size = ML_DSA_44_PUBLIC_KEY_SIZE
      then Inr () else Inl (InvalidPubkeySize size))"

definition push_single_sig_site ::
  "sig_check_site list \<Rightarrow> bytes \<Rightarrow> u8 \<Rightarrow> leaf_script_error + sig_check_site list" where
  "push_single_sig_site sig_sites pubkey opcode =
     bindE (validate_pubkey_size pubkey)
       (\<lambda>_. Inr (sig_sites @ [\<lparr>scs_pubkey = pubkey, scs_opcode = opcode\<rparr>]))"

text \<open>The sites and the push buffer without the drained keys.\<close>

definition push_multisig_sites ::
  "sig_check_site list \<Rightarrow> bytes list \<Rightarrow> nat \<Rightarrow> u8 \<Rightarrow>
   leaf_script_error + (sig_check_site list \<times> bytes list)" where
  "push_multisig_sites sig_sites push_buffer key_count opcode =
     (if length push_buffer < key_count
      then Inl (MultisigPubkeyCountMismatch key_count (length push_buffer))
      else
        let start = length push_buffer - key_count in
        bindE (foldE (\<lambda>sites pubkey. push_single_sig_site sites pubkey opcode)
                 sig_sites (drop start push_buffer))
          (\<lambda>sites. Inr (sites, take start push_buffer)))"

record leaf_parser =
  lp_sig_sites :: "sig_check_site list"
  lp_last_push :: "bytes option"
  lp_push_buffer :: "bytes list"
  lp_pending_multisig_keys :: "nat option"

definition leaf_push :: "leaf_parser \<Rightarrow> bytes \<Rightarrow> leaf_parser" where
  "leaf_push p data =
     (if data = [] then p\<lparr>lp_last_push := None\<rparr>
      else p\<lparr>lp_push_buffer := lp_push_buffer p @ [data], lp_last_push := Some data\<rparr>)"

definition leaf_op :: "leaf_parser \<Rightarrow> u8 \<Rightarrow> leaf_script_error + leaf_parser" where
  "leaf_op p opcode =
     (if opcode = OP_SUBSTR then Inl OpSubstrForbidden
      else if is_sig_check_opcode opcode then
        (if opcode = OP_CHECKMULTISIG \<or> opcode = OP_CHECKMULTISIGVERIFY then
           bindE (ok_or (lp_pending_multisig_keys p) MultisigMissingKeyCount) (\<lambda>key_count.
           bindE (push_multisig_sites (lp_sig_sites p) (lp_push_buffer p) key_count opcode)
             (\<lambda>(sites, buffer).
           Inr (p\<lparr>lp_sig_sites := sites, lp_push_buffer := buffer,
                  lp_pending_multisig_keys := None, lp_last_push := None\<rparr>)))
         else
           bindE (ok_or (lp_last_push p) MissingPubkeyPush) (\<lambda>pubkey.
           bindE (push_single_sig_site (lp_sig_sites p) pubkey opcode) (\<lambda>sites.
           Inr (p\<lparr>lp_sig_sites := sites, lp_last_push := None, lp_push_buffer := [],
                  lp_pending_multisig_keys := None\<rparr>))))
      else
        (case decode_pushnum opcode of
           Some key_count \<Rightarrow>
             Inr (p\<lparr>lp_pending_multisig_keys := Some key_count, lp_last_push := None\<rparr>)
         | None \<Rightarrow>
             if is_allowed_between_sig_sites opcode then Inr (p\<lparr>lp_last_push := None\<rparr>)
             else Inl (ForbiddenOpcode opcode)))"

definition leaf_step :: "leaf_parser \<Rightarrow> instr_item \<Rightarrow> leaf_script_error + leaf_parser" where
  "leaf_step p item =
     bindE (ok_or item InvalidOpcode) (\<lambda>instruction.
       case instruction of PushBytes data \<Rightarrow> Inr (leaf_push p data) | Op opcode \<Rightarrow> leaf_op p opcode)"

definition leaf_parser_new :: leaf_parser where
  "leaf_parser_new =
     \<lparr>lp_sig_sites = [], lp_last_push = None, lp_push_buffer = [], lp_pending_multisig_keys = None\<rparr>"

definition parse_leaf_script :: "libs \<Rightarrow> bytes \<Rightarrow> leaf_script_error + parsed_leaf_script" where
  "parse_leaf_script L script =
     (if script = [] then Inl EmptyScript
      else if length script > MAX_P2MR_LEAF_SCRIPT_SIZE then Inl LeafScriptTooLarge
      else
        bindE (foldE leaf_step leaf_parser_new (script_instructions L script)) (\<lambda>p.
          if lp_pending_multisig_keys p \<noteq> None then Inl DanglingMultisigKeyCount
          else if lp_sig_sites p = [] then Inl NoSigCheckOpcode
          else Inr \<lparr>pls_sig_sites = lp_sig_sites p\<rparr>))"

definition validate_witness_sig_count ::
  "libs \<Rightarrow> bytes \<Rightarrow> nat \<Rightarrow> leaf_script_error + parsed_leaf_script" where
  "validate_witness_sig_count L script witness_sig_count =
     bindE (parse_leaf_script L script) (\<lambda>parsed.
       let script_sites = length (pls_sig_sites parsed) in
       if witness_sig_count \<noteq> script_sites
       then Inl (WitnessSigCountMismatch witness_sig_count script_sites)
       else Inr parsed)"

section \<open>The builder of hybrid leaves\<close>

text \<open>\<open>push_slice\<close> of a 32-byte array writes the direct push \<open>0x20\<close>.\<close>

definition build_hybrid_ec_slh_leaf :: "bytes \<Rightarrow> bytes \<Rightarrow> bytes" where
  "build_hybrid_ec_slh_leaf ec_pk slh_pk =
     [0x20] @ ec_pk @ [OP_CHECKSIG] @ [0x20] @ slh_pk @ [OP_CHECKSIG, OP_BOOLAND, OP_VERIFY]"

section \<open>Signature sites\<close>

lemma is_sig_check_opcode_iff:
  "is_sig_check_opcode c = (c \<in> {OP_CHECKSIG, OP_CHECKSIGVERIFY, OP_CHECKSIGADD,
     OP_CHECKMULTISIG, OP_CHECKMULTISIGVERIFY})"
  by (simp add: is_sig_check_opcode_def SIG_CHECK_OPCODES_def)

definition multisig_opcode :: "u8 \<Rightarrow> bool" where
  "multisig_opcode c = (c = OP_CHECKMULTISIG \<or> c = OP_CHECKMULTISIGVERIFY)"

definition pubkey_size_ok :: "bytes \<Rightarrow> bool" where
  "pubkey_size_ok k = (length k = 32 \<or> length k = 1312)"

definition site_ok :: "sig_check_site \<Rightarrow> bool" where
  "site_ok s = (pubkey_size_ok (scs_pubkey s) \<and> is_sig_check_opcode (scs_opcode s))"

lemma validate_pubkey_size_ok [simp]: "(validate_pubkey_size k = Inr u) = pubkey_size_ok k"
  by (simp add: validate_pubkey_size_def pubkey_size_ok_def Let_def limit_defs)

lemma push_single_sig_site_ok [simp]:
  "(push_single_sig_site sites k c = Inr sites')
    = (pubkey_size_ok k \<and> sites' = sites @ [\<lparr>scs_pubkey = k, scs_opcode = c\<rparr>])"
  by (auto simp: push_single_sig_site_def)

lemma push_sites_foldE:
  "(foldE (\<lambda>sites k. push_single_sig_site sites k c) sites ks = Inr sites')
    = ((\<forall>k \<in> set ks. pubkey_size_ok k)
       \<and> sites' = sites @ map (\<lambda>k. \<lparr>scs_pubkey = k, scs_opcode = c\<rparr>) ks)"
  by (induction ks arbitrary: sites) auto

lemma push_multisig_sites_ok:
  "(push_multisig_sites sites buf n c = Inr (sites', buf'))
    = (n \<le> length buf \<and> buf' = take (length buf - n) buf
       \<and> (\<forall>k \<in> set (drop (length buf - n) buf). pubkey_size_ok k)
       \<and> sites' = sites @ map (\<lambda>k. \<lparr>scs_pubkey = k, scs_opcode = c\<rparr>) (drop (length buf - n) buf))"
  by (auto simp: push_multisig_sites_def Let_def push_sites_foldE not_less)

section \<open>The steps of the parser\<close>

lemma pushnum_bounds: "is_pushnum_opcode c = (0x51 \<le> unat c \<and> unat c \<le> 0x60)"
  by (simp add: is_pushnum_opcode_def opcode_defs word_le_nat_alt)

lemma pushnum_not_sig_check: "is_pushnum_opcode c \<Longrightarrow> \<not> is_sig_check_opcode c"
  by (auto simp: pushnum_bounds is_sig_check_opcode_iff opcode_defs)

lemma decode_pushnum_Some:
  "(decode_pushnum c = Some n) = (is_pushnum_opcode c \<and> n = unat c - 0x50)"
proof (cases "is_pushnum_opcode c")
  case True
  then have c: "0x51 \<le> unat c" "unat c \<le> 0x60" by (simp_all add: pushnum_bounds)
  have "unat (c - 0x51 + 1) = unat c - 0x50"
    using c by (simp add: unat_sub word_le_nat_alt)
  then show ?thesis using True by (auto simp: decode_pushnum_def OP_PUSHNUM_1_def)
qed (simp add: decode_pushnum_def)

lemma decode_pushnum_None: "(decode_pushnum c = None) = (\<not> is_pushnum_opcode c)"
  by (simp add: decode_pushnum_def)

text \<open>What a successful step did, by the kind of instruction.\<close>

definition item_allowed :: "instr_item \<Rightarrow> bool" where
  "item_allowed item =
     (case item of None \<Rightarrow> False | Some (PushBytes _) \<Rightarrow> True
      | Some (Op c) \<Rightarrow> c \<noteq> OP_SUBSTR \<and> (is_sig_check_opcode c \<or> is_allowed_between_sig_sites c))"

lemma leaf_step_cases:
  assumes "leaf_step p item = Inr p'"
  obtains
    (push) data where "item = Some (PushBytes data)" and "p' = leaf_push p data"
  | (multisig) c n sites buf where "item = Some (Op c)" and "multisig_opcode c"
      and "is_sig_check_opcode c" and "c \<noteq> OP_SUBSTR"
      and "lp_pending_multisig_keys p = Some n"
      and "push_multisig_sites (lp_sig_sites p) (lp_push_buffer p) n c = Inr (sites, buf)"
      and "p' = p\<lparr>lp_sig_sites := sites, lp_push_buffer := buf,
                  lp_pending_multisig_keys := None, lp_last_push := None\<rparr>"
  | (single) c k where "item = Some (Op c)" and "\<not> multisig_opcode c"
      and "is_sig_check_opcode c" and "c \<noteq> OP_SUBSTR"
      and "lp_last_push p = Some k" and "pubkey_size_ok k"
      and "p' = p\<lparr>lp_sig_sites := lp_sig_sites p @ [\<lparr>scs_pubkey = k, scs_opcode = c\<rparr>],
                  lp_last_push := None, lp_push_buffer := [], lp_pending_multisig_keys := None\<rparr>"
  | (pushnum) c where "item = Some (Op c)" and "is_pushnum_opcode c"
      and "\<not> is_sig_check_opcode c" and "c \<noteq> OP_SUBSTR"
      and "p' = p\<lparr>lp_pending_multisig_keys := Some (unat c - 0x50), lp_last_push := None\<rparr>"
  | (between) c where "item = Some (Op c)" and "\<not> is_pushnum_opcode c"
      and "\<not> is_sig_check_opcode c" and "c \<noteq> OP_SUBSTR"
      and "is_allowed_between_sig_sites c" and "p' = p\<lparr>lp_last_push := None\<rparr>"
proof -
  obtain i where item: "item = Some i"
    using assms by (auto simp: leaf_step_def)
  show thesis
  proof (cases i)
    case (PushBytes data)
    then show ?thesis using assms item push by (simp add: leaf_step_def)
  next
    case (Op c)
    then have op: "leaf_op p c = Inr p'" using assms item by (simp add: leaf_step_def)
    then have ns: "c \<noteq> OP_SUBSTR" by (auto simp: leaf_op_def)
    consider "is_sig_check_opcode c" "multisig_opcode c" | "is_sig_check_opcode c" "\<not> multisig_opcode c"
      | "\<not> is_sig_check_opcode c" "is_pushnum_opcode c"
      | "\<not> is_sig_check_opcode c" "\<not> is_pushnum_opcode c" by blast
    then show ?thesis
    proof cases
      case 1
      then show ?thesis
        using op ns item Op multisig by (auto simp: leaf_op_def multisig_opcode_def)
    next
      case 2
      then show ?thesis
        using op ns item Op single by (auto simp: leaf_op_def multisig_opcode_def)
    next
      case 3
      then have "decode_pushnum c = Some (unat c - 0x50)" by (simp add: decode_pushnum_Some)
      then show ?thesis using 3 op ns item Op pushnum by (simp add: leaf_op_def)
    next
      case 4
      then have "decode_pushnum c = None" by (simp add: decode_pushnum_None)
      then show ?thesis using 4 op ns item Op between by (auto simp: leaf_op_def split: if_splits)
    qed
  qed
qed

definition leaf_inv :: "leaf_parser \<Rightarrow> bool" where
  "leaf_inv p =
     ((\<forall>s \<in> set (lp_sig_sites p). site_ok s)
      \<and> (\<forall>n. lp_pending_multisig_keys p = Some n \<longrightarrow> 1 \<le> n \<and> n \<le> 16)
      \<and> (\<forall>d. lp_last_push p = Some d \<longrightarrow> d \<noteq> [] \<and> lp_push_buffer p \<noteq> [] \<and> last (lp_push_buffer p) = d))"

lemma leaf_inv_new [simp]: "leaf_inv leaf_parser_new"
  by (simp add: leaf_inv_def leaf_parser_new_def)

lemma leaf_step_inv: "leaf_inv p \<Longrightarrow> leaf_step p item = Inr p' \<Longrightarrow> leaf_inv p'"
  by (erule leaf_step_cases)
    (auto simp: leaf_inv_def leaf_push_def push_multisig_sites_ok site_ok_def pushnum_bounds
      dest: in_set_dropD)

lemma leaf_step_seen: "leaf_inv p \<Longrightarrow> leaf_step p item = Inr p' \<Longrightarrow> item_allowed item"
  by (erule leaf_step_cases)
    (auto simp: item_allowed_def is_allowed_between_sig_sites_def)

interpretation leaf_loop: fallible_loop leaf_step leaf_inv item_allowed
  by unfold_locales (rule leaf_step_inv leaf_step_seen; assumption)+

text \<open>Where public keys come from, and that no signature opcode is passed over.\<close>

definition pushes_of :: "instr_item list \<Rightarrow> bytes set" where
  "pushes_of items = {d. Some (PushBytes d) \<in> set items}"

definition sig_ops :: "instr_item list \<Rightarrow> u8 list" where
  "sig_ops items =
     concat (map (\<lambda>i. case i of Some (Op c) \<Rightarrow> if is_sig_check_opcode c then [c] else [] | _ \<Rightarrow> []) items)"

lemma leaf_loop_pubkeys:
  "foldE leaf_step p items = Inr p' \<Longrightarrow> leaf_inv p \<Longrightarrow>
   scs_pubkey ` set (lp_sig_sites p') \<union> set (lp_push_buffer p')
     \<subseteq> scs_pubkey ` set (lp_sig_sites p) \<union> set (lp_push_buffer p) \<union> pushes_of items"
proof (induction items arbitrary: p)
  case (Cons i items)
  then obtain q where q: "leaf_step p i = Inr q" "foldE leaf_step q items = Inr p'" by auto
  have "scs_pubkey ` set (lp_sig_sites q) \<union> set (lp_push_buffer q)
      \<subseteq> scs_pubkey ` set (lp_sig_sites p) \<union> set (lp_push_buffer p) \<union> pushes_of [i]"
    using q(1) Cons.prems(2)
    by (cases rule: leaf_step_cases)
      (auto simp: leaf_push_def push_multisig_sites_ok leaf_inv_def pushes_of_def
        dest: in_set_dropD in_set_takeD split: if_splits)
  moreover have "scs_pubkey ` set (lp_sig_sites p') \<union> set (lp_push_buffer p')
      \<subseteq> scs_pubkey ` set (lp_sig_sites q) \<union> set (lp_push_buffer q) \<union> pushes_of items"
    using Cons.IH [OF q(2)] leaf_step_inv [OF Cons.prems(2) q(1)] by simp
  moreover have "pushes_of (i # items) = pushes_of [i] \<union> pushes_of items"
    by (auto simp: pushes_of_def)
  ultimately show ?case by blast
qed simp

lemma leaf_loop_sig_ops:
  "foldE leaf_step p items = Inr p' \<Longrightarrow> leaf_inv p \<Longrightarrow>
   \<exists>new. lp_sig_sites p' = lp_sig_sites p @ new
     \<and> set (map scs_opcode new) = set (sig_ops items) \<and> length (sig_ops items) \<le> length new"
proof (induction items arbitrary: p)
  case Nil
  then show ?case by (simp add: sig_ops_def)
next
  case (Cons i items)
  then obtain q where q: "leaf_step p i = Inr q" "foldE leaf_step q items = Inr p'" by auto
  have "\<exists>new. lp_sig_sites q = lp_sig_sites p @ new
     \<and> set (map scs_opcode new) = set (sig_ops [i]) \<and> length (sig_ops [i]) \<le> length new"
    using q(1) Cons.prems(2)
    by (cases rule: leaf_step_cases)
      (auto simp: leaf_push_def sig_ops_def leaf_inv_def push_multisig_sites_ok
        image_image image_constant_conv split: if_splits)
  then obtain a where a: "lp_sig_sites q = lp_sig_sites p @ a"
    "set (map scs_opcode a) = set (sig_ops [i])" "length (sig_ops [i]) \<le> length a" by blast
  obtain b where b: "lp_sig_sites p' = lp_sig_sites q @ b"
    "set (map scs_opcode b) = set (sig_ops items)" "length (sig_ops items) \<le> length b"
    using Cons.IH [OF q(2)] leaf_step_inv [OF Cons.prems(2) q(1)] by blast
  have "sig_ops (i # items) = sig_ops [i] @ sig_ops items" by (simp add: sig_ops_def)
  then show ?case
    using a b by (intro exI [of _ "a @ b"]) simp
qed

section \<open>Leaf scripts as clauses\<close>

text \<open>
  The shapes of leaf that the parser is for: \<open>PUSH pk OP_CHECKSIG*\<close>, the classic
  \<open>OP_0 PUSH pk.. OP_N OP_CHECKMULTISIG*\<close>, and combinators.
\<close>

datatype leaf_clause = SingleSig bytes u8 | MultiSig "bytes list" u8 | Combinator u8

fun clause_items :: "leaf_clause \<Rightarrow> instr_item list" where
  "clause_items (SingleSig k c) = [Some (PushBytes k), Some (Op c)]"
| "clause_items (MultiSig ks c) =
     Some (PushBytes []) # map (\<lambda>k. Some (PushBytes k)) ks
       @ [Some (Op (0x50 + word_of_nat (length ks))), Some (Op c)]"
| "clause_items (Combinator c) = [Some (Op c)]"

fun clause_sites :: "leaf_clause \<Rightarrow> sig_check_site list" where
  "clause_sites (SingleSig k c) = [\<lparr>scs_pubkey = k, scs_opcode = c\<rparr>]"
| "clause_sites (MultiSig ks c) = map (\<lambda>k. \<lparr>scs_pubkey = k, scs_opcode = c\<rparr>) ks"
| "clause_sites (Combinator c) = []"

fun clause_ok :: "leaf_clause \<Rightarrow> bool" where
  "clause_ok (SingleSig k c) = (pubkey_size_ok k \<and> is_sig_check_opcode c \<and> \<not> multisig_opcode c)"
| "clause_ok (MultiSig ks c) =
     (1 \<le> length ks \<and> length ks \<le> 16 \<and> (\<forall>k \<in> set ks. pubkey_size_ok k) \<and> multisig_opcode c)"
| "clause_ok (Combinator c) = (c = OP_BOOLAND \<or> c = OP_VERIFY)"

definition at_boundary :: "leaf_parser \<Rightarrow> bool" where
  "at_boundary p = (lp_push_buffer p = [] \<and> lp_pending_multisig_keys p = None)"

lemma leaf_pushes:
  "\<forall>k \<in> set ks. k \<noteq> [] \<Longrightarrow>
   foldE leaf_step p (map (\<lambda>k. Some (PushBytes k)) ks)
     = Inr (p\<lparr>lp_push_buffer := lp_push_buffer p @ ks,
             lp_last_push := (if ks = [] then lp_last_push p else Some (last ks))\<rparr>)"
  by (induction ks arbitrary: p) (simp_all add: leaf_step_def leaf_push_def)

lemma pubkey_size_ok_not_Nil: "pubkey_size_ok k \<Longrightarrow> k \<noteq> []"
  by (auto simp: pubkey_size_ok_def)

lemma leaf_op_pushnum:
  assumes "1 \<le> n" and "n \<le> 16"
  shows "leaf_op p (0x50 + word_of_nat n) =
    Inr (p\<lparr>lp_pending_multisig_keys := Some n, lp_last_push := None\<rparr>)"
proof -
  let ?c = "0x50 + word_of_nat n :: u8"
  have "unat (word_of_nat n :: u8) = n" using assms by simp
  then have c: "unat ?c = 0x50 + n"
    using assms by (simp add: unat_word_ariths)
  then have pn: "is_pushnum_opcode ?c" and "decode_pushnum ?c = Some n"
    using assms by (simp_all add: pushnum_bounds decode_pushnum_Some)
  moreover have "?c \<noteq> OP_SUBSTR"
    using c assms by (auto simp: OP_SUBSTR_def word_unat_eq_iff)
  ultimately show ?thesis
    using pushnum_not_sig_check [OF pn] by (simp add: leaf_op_def)
qed

lemma sig_check_not_substr: "is_sig_check_opcode c \<Longrightarrow> c \<noteq> OP_SUBSTR"
  by (auto simp: is_sig_check_opcode_iff opcode_defs)

lemma multisig_is_sig_check: "multisig_opcode c \<Longrightarrow> is_sig_check_opcode c"
  by (auto simp: is_sig_check_opcode_iff multisig_opcode_def)

lemma combinator_facts:
  assumes "c = OP_BOOLAND \<or> c = OP_VERIFY"
  shows "c \<noteq> OP_SUBSTR" and "\<not> is_sig_check_opcode c" and "\<not> is_pushnum_opcode c"
    and "is_allowed_between_sig_sites c"
  using assms
  by (auto simp: is_sig_check_opcode_iff pushnum_bounds is_allowed_between_sig_sites_def opcode_defs)

lemma leaf_clause_run:
  assumes "clause_ok cl" and "at_boundary p"
  shows "\<exists>p'. foldE leaf_step p (clause_items cl) = Inr p' \<and> at_boundary p'
    \<and> lp_sig_sites p' = lp_sig_sites p @ clause_sites cl"
proof (cases cl)
  case (SingleSig k c)
  then show ?thesis
    using assms pubkey_size_ok_not_Nil [of k] sig_check_not_substr [of c]
    by (simp add: leaf_step_def leaf_push_def leaf_op_def at_boundary_def multisig_opcode_def
        push_single_sig_site_def validate_pubkey_size_def pubkey_size_ok_def limit_defs Let_def)
next
  case (MultiSig ks c)
  let ?b = "p\<lparr>lp_push_buffer := ks, lp_last_push := None, lp_pending_multisig_keys := Some (length ks)\<rparr>"
  have ks: "1 \<le> length ks" "length ks \<le> 16" "\<forall>k \<in> set ks. pubkey_size_ok k" and c: "multisig_opcode c"
    using assms(1) by (simp_all add: MultiSig)
  have ne: "\<forall>k \<in> set ks. k \<noteq> []"
    using ks(3) pubkey_size_ok_not_Nil by blast
  let ?pre = "Some (PushBytes []) # map (\<lambda>k. Some (PushBytes k)) ks
      @ [Some (Op (0x50 + word_of_nat (length ks)))]"
  have "foldE leaf_step p ?pre = Inr ?b"
    using assms(2)
    by (simp add: foldE_append leaf_pushes [OF ne] leaf_step_def leaf_push_def
        leaf_op_pushnum [OF ks(1,2)] at_boundary_def)
  moreover have "clause_items cl = ?pre @ [Some (Op c)]" by (simp add: MultiSig)
  ultimately have "foldE leaf_step p (clause_items cl) = foldE leaf_step ?b [Some (Op c)]"
    by (simp only: foldE_append bindE_Inr)
  moreover have "push_multisig_sites (lp_sig_sites p) ks (length ks) c
      = Inr (lp_sig_sites p @ clause_sites cl, [])"
    using ks(3) by (simp add: push_multisig_sites_ok MultiSig)
  ultimately show ?thesis
    using c multisig_is_sig_check [OF c] sig_check_not_substr [of c]
    by (simp add: leaf_step_def leaf_op_def multisig_opcode_def at_boundary_def)
next
  case (Combinator c)
  then have "c = OP_BOOLAND \<or> c = OP_VERIFY" using assms(1) by simp
  then show ?thesis
    using combinator_facts [of c] assms(2)
    by (simp add: Combinator leaf_step_def leaf_op_def decode_pushnum_def at_boundary_def)
qed

lemma leaf_clauses_run:
  "\<forall>cl \<in> set cls. clause_ok cl \<Longrightarrow> at_boundary p \<Longrightarrow>
   \<exists>p'. foldE leaf_step p (concat (map clause_items cls)) = Inr p' \<and> at_boundary p'
     \<and> lp_sig_sites p' = lp_sig_sites p @ concat (map clause_sites cls)"
proof (induction cls arbitrary: p)
  case (Cons cl cls)
  obtain q where q: "foldE leaf_step p (clause_items cl) = Inr q" "at_boundary q"
    "lp_sig_sites q = lp_sig_sites p @ clause_sites cl"
    using leaf_clause_run [of cl p] Cons.prems by auto
  then show ?case
    using Cons.IH [OF _ q(2)] Cons.prems(1) by (auto simp: foldE_append)
qed simp

lemma hybrid_leaf_sites:
  assumes "length ec_pk = 32" and "length slh_pk = 32"
    and "script_instructions L (build_hybrid_ec_slh_leaf ec_pk slh_pk) =
      [Some (PushBytes ec_pk), Some (Op OP_CHECKSIG), Some (PushBytes slh_pk), Some (Op OP_CHECKSIG),
       Some (Op OP_BOOLAND), Some (Op OP_VERIFY)]"
  shows "parse_leaf_script L (build_hybrid_ec_slh_leaf ec_pk slh_pk) =
    Inr \<lparr>pls_sig_sites = [\<lparr>scs_pubkey = ec_pk, scs_opcode = OP_CHECKSIG\<rparr>,
                         \<lparr>scs_pubkey = slh_pk, scs_opcode = OP_CHECKSIG\<rparr>]\<rparr>"
proof -
  let ?cls = "[SingleSig ec_pk OP_CHECKSIG, SingleSig slh_pk OP_CHECKSIG,
    Combinator OP_BOOLAND, Combinator OP_VERIFY]"
  have cs: "is_sig_check_opcode OP_CHECKSIG" "\<not> multisig_opcode OP_CHECKSIG"
    by (simp_all add: is_sig_check_opcode_iff multisig_opcode_def opcode_defs)
  show ?thesis
    using assms cs
      leaf_clauses_run [of ?cls leaf_parser_new]
    by (auto simp: parse_leaf_script_def at_boundary_def pubkey_size_ok_def leaf_parser_new_def
        build_hybrid_ec_slh_leaf_def limit_defs)
qed

section \<open>Properties\<close>

text \<open>
  What the leaf parser accepts. If it returns sites, the script is not empty and within the
  size limit, every instruction decodes and is a push, a signature check or an allowed
  combinator (so \<open>OP_SUBSTR\<close> and every other opcode are rejected), every site has a
  32- or 1312-byte public key that the script pushes, and the sites cover the signature
  opcodes: there is at least one site per signature opcode executed, with that opcode, and
  at least one in all.
\<close>
theorem parse_leaf_script_sound:
  assumes "parse_leaf_script L script = Inr parsed"
  shows "script \<noteq> [] \<and> length script \<le> MAX_P2MR_LEAF_SCRIPT_SIZE
    \<and> list_all item_allowed (script_instructions L script)
    \<and> list_all site_ok (pls_sig_sites parsed)
    \<and> scs_pubkey ` set (pls_sig_sites parsed) \<subseteq> pushes_of (script_instructions L script)
    \<and> set (map scs_opcode (pls_sig_sites parsed)) = set (sig_ops (script_instructions L script))
    \<and> 0 < length (pls_sig_sites parsed)
    \<and> length (sig_ops (script_instructions L script)) \<le> length (pls_sig_sites parsed)"
proof -
  let ?items = "script_instructions L script"
  obtain p where p: "foldE leaf_step leaf_parser_new ?items = Inr p"
    and sites: "lp_sig_sites p \<noteq> []" "pls_sig_sites parsed = lp_sig_sites p"
    and size: "script \<noteq> []" "length script \<le> MAX_P2MR_LEAF_SCRIPT_SIZE"
    using assms by (auto simp: parse_leaf_script_def split: if_splits)
  have "list_all item_allowed ?items"
    using leaf_loop.loop_seen [OF leaf_inv_new p] by (simp add: list_all_iff)
  moreover have "leaf_inv p"
    by (rule leaf_loop.loop_inv [OF leaf_inv_new p])
  then have "list_all site_ok (lp_sig_sites p)"
    by (simp add: leaf_inv_def list_all_iff)
  moreover have "scs_pubkey ` set (lp_sig_sites p) \<subseteq> pushes_of ?items"
    using leaf_loop_pubkeys [OF p leaf_inv_new] by (simp add: leaf_parser_new_def)
  moreover have "set (map scs_opcode (lp_sig_sites p)) = set (sig_ops ?items)
      \<and> length (sig_ops ?items) \<le> length (lp_sig_sites p)"
    using leaf_loop_sig_ops [OF p leaf_inv_new] by (auto simp: leaf_parser_new_def)
  ultimately show ?thesis
    using sites size by simp
qed

text \<open>
  The leaf parser finds the sites of every well-formed leaf, in execution order: a script
  made of single-key clauses, multisig clauses and combinators, with admissible key sizes and at
  least one key, parses to exactly the concatenation of the clauses' sites.
\<close>
theorem parse_leaf_script_complete:
  assumes "script_instructions L script = concat (map clause_items cls)"
    and "list_all clause_ok cls" and "concat (map clause_sites cls) \<noteq> []"
    and "script \<noteq> []" and "length script \<le> MAX_P2MR_LEAF_SCRIPT_SIZE"
  shows "parse_leaf_script L script = Inr \<lparr>pls_sig_sites = concat (map clause_sites cls)\<rparr>"
proof -
  have "at_boundary leaf_parser_new"
    by (simp add: at_boundary_def leaf_parser_new_def)
  then obtain p where "foldE leaf_step leaf_parser_new (concat (map clause_items cls)) = Inr p"
    "at_boundary p" "lp_sig_sites p = concat (map clause_sites cls)"
    using leaf_clauses_run [of cls leaf_parser_new] assms(2)
    by (auto simp: list_all_iff leaf_parser_new_def)
  then show ?thesis
    using assms by (simp add: parse_leaf_script_def at_boundary_def)
qed

text \<open>
  A number opcode that no multisig opcode consumes is an error: a leaf that ends in
  \<open>OP_1\<close>..\<open>OP_16\<close> is rejected whatever precedes it. In particular the trailing
  \<open>OP_TRUE\<close> that the documentation of the parser lists as a supported combinator is never
  accepted, because \<open>OP_TRUE\<close> is \<open>OP_1\<close>.
\<close>
theorem trailing_pushnum_rejected:
  assumes "script_instructions L script = items @ [Some (Op c)]" and "is_pushnum_opcode c"
  shows "\<not> is_ok (parse_leaf_script L script)"
proof
  assume "is_ok (parse_leaf_script L script)"
  then obtain p where p: "foldE leaf_step leaf_parser_new (items @ [Some (Op c)]) = Inr p"
    and np: "lp_pending_multisig_keys p = None"
    using assms(1) by (auto simp: parse_leaf_script_def is_ok_iff split: if_splits)
  obtain q where "leaf_step q (Some (Op c)) = Inr p"
    using p by (auto simp: foldE_snoc)
  then show False
    using np assms(2) pushnum_not_sig_check [OF assms(2)] by (cases rule: leaf_step_cases) auto
qed

text \<open>
  The leaf that the program builds for a hybrid EC and SLH-DSA output parses to its two keys,
  EC key first, for every pair of 32-byte keys, provided the instruction iterator reads the
  pushes and opcodes the builder wrote.
\<close>
theorem hybrid_leaf_parses:
  assumes "length ec_pk = 32" and "length slh_pk = 32"
    and "script_instructions L (build_hybrid_ec_slh_leaf ec_pk slh_pk) =
      [Some (PushBytes ec_pk), Some (Op OP_CHECKSIG), Some (PushBytes slh_pk), Some (Op OP_CHECKSIG),
       Some (Op OP_BOOLAND), Some (Op OP_VERIFY)]"
  shows "parse_leaf_script L (build_hybrid_ec_slh_leaf ec_pk slh_pk) =
    Inr \<lparr>pls_sig_sites = [\<lparr>scs_pubkey = ec_pk, scs_opcode = OP_CHECKSIG\<rparr>,
                         \<lparr>scs_pubkey = slh_pk, scs_opcode = OP_CHECKSIG\<rparr>]\<rparr>"
  using assms by (rule hybrid_leaf_sites)

subsection \<open>Concrete leaves\<close>

definition key32 :: "u8 \<Rightarrow> bytes" where
  "key32 b = replicate 32 b"

lemma length_key32 [simp]: "length (key32 b) = 32"
  by (simp add: key32_def)

lemma hybrid_leaf_instructions:
  "length a = 32 \<Longrightarrow> length b = 32 \<Longrightarrow>
   script_instructions sample_libs (build_hybrid_ec_slh_leaf a b) =
     [Some (PushBytes a), Some (Op OP_CHECKSIG), Some (PushBytes b), Some (Op OP_CHECKSIG),
      Some (Op OP_BOOLAND), Some (Op OP_VERIFY)]"
  by (simp add: build_hybrid_ec_slh_leaf_def sample_instructions_op opcode_defs)

theorem hybrid_leaf_parses_witness:
  "parse_leaf_script sample_libs (build_hybrid_ec_slh_leaf (key32 1) (key32 2)) =
    Inr \<lparr>pls_sig_sites = [\<lparr>scs_pubkey = key32 1, scs_opcode = OP_CHECKSIG\<rparr>,
                         \<lparr>scs_pubkey = key32 2, scs_opcode = OP_CHECKSIG\<rparr>]\<rparr>"
  by (rule hybrid_leaf_parses) (simp_all only: length_key32 hybrid_leaf_instructions)

text \<open>A two-of-two multisig leaf: \<open>OP_0 <pk1> <pk2> OP_2 OP_CHECKMULTISIG\<close>.\<close>

definition multisig_leaf :: bytes where
  "multisig_leaf = [0x00, 0x20] @ key32 1 @ [0x20] @ key32 2 @ [0x52, OP_CHECKMULTISIG]"

lemma multisig_leaf_instructions:
  "script_instructions sample_libs multisig_leaf =
    concat (map clause_items [MultiSig [key32 1, key32 2] OP_CHECKMULTISIG])"
  using sample_instructions_push [of 0 "[]"]
  by (simp add: multisig_leaf_def sample_instructions_op opcode_defs)

theorem parse_leaf_script_complete_witness:
  "parse_leaf_script sample_libs multisig_leaf =
    Inr \<lparr>pls_sig_sites = concat (map clause_sites [MultiSig [key32 1, key32 2] OP_CHECKMULTISIG])\<rparr>"
  by (rule parse_leaf_script_complete [OF multisig_leaf_instructions])
    (simp_all add: multisig_opcode_def pubkey_size_ok_def multisig_leaf_def limit_defs)

lemma multisig_leaf_parsed:
  "parse_leaf_script sample_libs multisig_leaf =
    Inr \<lparr>pls_sig_sites = [\<lparr>scs_pubkey = key32 1, scs_opcode = OP_CHECKMULTISIG\<rparr>,
                         \<lparr>scs_pubkey = key32 2, scs_opcode = OP_CHECKMULTISIG\<rparr>]\<rparr>"
proof -
  have "\<exists>p'. foldE leaf_step leaf_parser_new (script_instructions sample_libs multisig_leaf) = Inr p'
      \<and> at_boundary p' \<and> lp_sig_sites p' = lp_sig_sites leaf_parser_new
        @ concat (map clause_sites [MultiSig [key32 1, key32 2] OP_CHECKMULTISIG])"
    unfolding multisig_leaf_instructions
    by (rule leaf_clauses_run)
      (simp_all add: multisig_opcode_def pubkey_size_ok_def at_boundary_def leaf_parser_new_def)
  then show ?thesis
    by (auto simp: parse_leaf_script_def at_boundary_def leaf_parser_new_def multisig_leaf_def
        limit_defs)
qed

theorem parse_leaf_script_sound_witness:
  "\<exists>parsed :: parsed_leaf_script. multisig_leaf \<noteq> [] \<and> length multisig_leaf \<le> MAX_P2MR_LEAF_SCRIPT_SIZE
    \<and> list_all item_allowed (script_instructions sample_libs multisig_leaf)
    \<and> list_all site_ok (pls_sig_sites parsed)
    \<and> scs_pubkey ` set (pls_sig_sites parsed) \<subseteq> pushes_of (script_instructions sample_libs multisig_leaf)
    \<and> set (map scs_opcode (pls_sig_sites parsed)) = set (sig_ops (script_instructions sample_libs multisig_leaf))
    \<and> 0 < length (pls_sig_sites parsed)
    \<and> length (sig_ops (script_instructions sample_libs multisig_leaf)) \<le> length (pls_sig_sites parsed)"
  by (rule exI, rule parse_leaf_script_sound [OF multisig_leaf_parsed])

theorem trailing_pushnum_rejected_witness:
  "\<not> is_ok (parse_leaf_script sample_libs ([0x20] @ key32 1 @ [OP_CHECKSIG, 0x51]))"
  by (rule trailing_pushnum_rejected
      [of _ _ "[Some (PushBytes (key32 1)), Some (Op OP_CHECKSIG)]" "0x51"])
    (simp_all add: sample_instructions_op opcode_defs pushnum_bounds)

end
