(* ===== verification/P2mr.thy ===== *)
theory P2mr
  imports Sample_Libs
begin

text \<open>
  P2MR outputs and their Merkle commitment: the activation gate (\<open>activation.rs\<close>), the output
  script (\<open>p2mr_output.rs\<close>) and the control-block path (\<open>merkle.rs\<close>), all under
  \<open>lib/validator/pqc/\<close>.
\<close>

section \<open>Activation\<close>

text \<open>\<open>Bip360Activation\<close> is its height.\<close>

type_synonym activation = u32

definition is_active :: "activation \<Rightarrow> u32 \<Rightarrow> bool" where
  "is_active activation height = (height \<ge> activation)"

lemma is_active_mono: "is_active a h \<Longrightarrow> h \<le> h' \<Longrightarrow> is_active a h'"
  by (simp add: is_active_def)

section \<open>Output scripts\<close>

datatype p2mr_output_error = NotP2mr | InvalidLength | InvalidMerkleRoot

definition is_p2mr_script :: "bytes \<Rightarrow> bool" where
  "is_p2mr_script script = (length script = 34 \<and> script ! 0 = 0x52 \<and> script ! 1 = 0x20)"

definition validate_p2mr_output :: "bytes \<Rightarrow> p2mr_output_error + bytes" where
  "validate_p2mr_output script =
     (if \<not> is_p2mr_script script then Inl NotP2mr
      else if length script \<noteq> 34 \<or> script ! 0 \<noteq> 0x52 \<or> script ! 1 \<noteq> 0x20 then Inl InvalidLength
      else
        let root = take 32 (drop 2 script) in
        if length root \<noteq> 32 then Inl InvalidMerkleRoot else Inr root)"

definition is_valid_p2mr_control_byte :: "libs \<Rightarrow> u8 \<Rightarrow> bool" where
  "is_valid_p2mr_control_byte L b = (b = p2mr_control_byte L)"

text \<open>The output script of a Merkle root.\<close>

definition p2mr_script :: "bytes \<Rightarrow> bytes" where
  "p2mr_script root = [0x52, 0x20] @ root"

lemma is_p2mr_script_iff: "is_p2mr_script s = (\<exists>root. length root = 32 \<and> s = p2mr_script root)"
proof
  assume s: "is_p2mr_script s"
  then obtain a b root where "s = a # b # root"
    by (cases s rule: remdups_adj.cases) (auto simp: is_p2mr_script_def)
  then show "\<exists>root. length root = 32 \<and> s = p2mr_script root"
    using s by (simp add: is_p2mr_script_def p2mr_script_def)
qed (auto simp: is_p2mr_script_def p2mr_script_def)

lemma validate_p2mr_output_iff:
  "(validate_p2mr_output s = Inr root) = (length root = 32 \<and> s = p2mr_script root)"
proof
  assume v: "validate_p2mr_output s = Inr root"
  then have "is_p2mr_script s" by (auto simp: validate_p2mr_output_def split: if_splits)
  then obtain r where "length r = 32" "s = p2mr_script r" by (auto simp: is_p2mr_script_iff)
  then show "length root = 32 \<and> s = p2mr_script root"
    using v by (simp add: validate_p2mr_output_def p2mr_script_def is_p2mr_script_def)
next
  assume "length root = 32 \<and> s = p2mr_script root"
  then show "validate_p2mr_output s = Inr root"
    by (simp add: validate_p2mr_output_def p2mr_script_def is_p2mr_script_def)
qed

lemma validate_p2mr_output_total: "is_ok (validate_p2mr_output s) = is_p2mr_script s"
  by (auto simp: is_ok_iff validate_p2mr_output_iff is_p2mr_script_iff)

section \<open>Control blocks and Merkle paths\<close>

definition P2MR_CONTROL_BASE_SIZE_CORE :: nat where "P2MR_CONTROL_BASE_SIZE_CORE = 1"
definition MERKLE_NODE_SIZE :: nat where "MERKLE_NODE_SIZE = 32"
definition LEGACY_PADDED_BASE_SIZE :: nat where "LEGACY_PADDED_BASE_SIZE = 33"

lemmas merkle_size_defs [size_simps] =
  P2MR_CONTROL_BASE_SIZE_CORE_def MERKLE_NODE_SIZE_def LEGACY_PADDED_BASE_SIZE_def

datatype merkle_error = InvalidControlBlockSize | InvalidControlByte | DecodeFailed | MerkleRootMismatch

definition merkle_branch_bytes :: "libs \<Rightarrow> bytes \<Rightarrow> merkle_error + bytes" where
  "merkle_branch_bytes L cb =
     (if cb = [] then Inl InvalidControlBlockSize
      else if \<not> is_valid_p2mr_control_byte L (cb ! 0) then Inl InvalidControlByte
      else if length cb \<ge> LEGACY_PADDED_BASE_SIZE
        \<and> list_all (\<lambda>b. b = 0) (drop P2MR_CONTROL_BASE_SIZE_CORE (take LEGACY_PADDED_BASE_SIZE cb))
        \<and> (length cb - LEGACY_PADDED_BASE_SIZE) mod MERKLE_NODE_SIZE = 0
      then Inr (drop LEGACY_PADDED_BASE_SIZE cb)
      else
        let branch = drop P2MR_CONTROL_BASE_SIZE_CORE cb in
        if length branch mod MERKLE_NODE_SIZE \<noteq> 0 then Inl InvalidControlBlockSize
        else Inr branch)"

text \<open>\<open>chunks_exact\<close>: full chunks only, the remainder left out.\<close>

function chunks_exact :: "nat \<Rightarrow> 'a list \<Rightarrow> 'a list list" where
  "chunks_exact n xs =
     (if n = 0 \<or> length xs < n then [] else take n xs # chunks_exact n (drop n xs))"
  by pat_completeness auto
termination by (relation "measure (\<lambda>(n, xs). length xs)") auto

declare chunks_exact.simps [simp del]

definition recompute_merkle_root :: "libs \<Rightarrow> bytes \<Rightarrow> bytes \<Rightarrow> merkle_error + bytes" where
  "recompute_merkle_root L leaf_script cb =
     bindE (merkle_branch_bytes L cb) (\<lambda>branch.
     bindE (ok_or (leaf_version_from_consensus L (p2mr_leaf_version L)) DecodeFailed) (\<lambda>leaf_version.
     let curr_hash = tap_node_from_script L leaf_script leaf_version in
     Inr (foldl (tap_node_from_nodes L) curr_hash (chunks_exact MERKLE_NODE_SIZE branch))))"

definition verify_merkle_path :: "libs \<Rightarrow> bytes \<Rightarrow> bytes \<Rightarrow> bytes \<Rightarrow> merkle_error + unit" where
  "verify_merkle_path L leaf_script merkle_root cb =
     bindE (recompute_merkle_root L leaf_script cb) (\<lambda>derived.
       if derived \<noteq> merkle_root then Inl MerkleRootMismatch else Inr ())"

lemma chunks_exact_concat:
  "0 < n \<Longrightarrow> \<forall>c \<in> set cs. length c = n \<Longrightarrow> chunks_exact n (concat cs) = cs"
proof (induction cs)
  case Nil
  then show ?case by (simp add: chunks_exact.simps)
next
  case (Cons c cs)
  then show ?case by (subst chunks_exact.simps) simp
qed

lemma chunks_exact_step:
  "0 < n \<Longrightarrow> n \<le> length xs \<Longrightarrow> chunks_exact n xs = take n xs # chunks_exact n (drop n xs)"
  by (rule trans [OF chunks_exact.simps]) (simp add: not_less)

lemma concat_chunks_exact:
  "0 < n \<Longrightarrow> length xs mod n = 0 \<Longrightarrow>
   concat (chunks_exact n xs) = xs \<and> (\<forall>c \<in> set (chunks_exact n xs). length c = n)"
proof (induction n xs rule: chunks_exact.induct)
  case (1 n xs)
  show ?case
  proof (cases "length xs < n")
    case True
    then have "xs = []" using "1.prems" by simp
    then show ?thesis using "1.prems" by (simp add: chunks_exact.simps)
  next
    case False
    then have "(length xs - n) mod n = length xs mod n"
      by (simp only: le_mod_geq not_less)
    then have m: "length (drop n xs) mod n = 0"
      using "1.prems"(2) by simp
    have IH: "concat (chunks_exact n (drop n xs)) = drop n xs
        \<and> (\<forall>c \<in> set (chunks_exact n (drop n xs)). length c = n)"
    proof (rule "1.IH")
      show "\<not> (n = 0 \<or> length xs < n)" using "1.prems"(1) False by blast
    qed (fact "1.prems"(1), fact m)
    have le: "n \<le> length xs" using False by simp
    show ?thesis
      unfolding chunks_exact_step [OF "1.prems"(1) le]
    proof
      show "concat (take n xs # chunks_exact n (drop n xs)) = xs"
        by (simp only: concat.simps conjunct1 [OF IH] append_take_drop_id)
      show "\<forall>c \<in> set (take n xs # chunks_exact n (drop n xs)). length c = n"
        using conjunct2 [OF IH] le by (simp only: list.set ball_simps length_take min_absorb2)
    qed
  qed
qed

text \<open>The root that a leaf and a list of sibling nodes commit to.\<close>

definition tap_root :: "libs \<Rightarrow> bytes \<Rightarrow> bytes list \<Rightarrow> bytes option" where
  "tap_root L leaf_script nodes =
     map_option (\<lambda>v. foldl (tap_node_from_nodes L) (tap_node_from_script L leaf_script v) nodes)
       (leaf_version_from_consensus L (p2mr_leaf_version L))"

text \<open>The two wire forms of a path: Core's, and the padded one of earlier versions.\<close>

definition core_control :: "libs \<Rightarrow> bytes list \<Rightarrow> bytes" where
  "core_control L nodes = p2mr_control_byte L # concat nodes"

definition legacy_control :: "libs \<Rightarrow> bytes list \<Rightarrow> bytes" where
  "legacy_control L nodes = p2mr_control_byte L # replicate 32 0 @ concat nodes"

definition nodes_ok :: "bytes list \<Rightarrow> bool" where
  "nodes_ok nodes = list_all (\<lambda>n. length n = 32) nodes"

lemma length_concat_nodes: "nodes_ok nodes \<Longrightarrow> length (concat nodes) = 32 * length nodes"
  by (induction nodes) (simp_all add: nodes_ok_def)

lemma list_all_zero: "list_all (\<lambda>b. b = 0) xs = (xs = replicate (length xs) 0)"
  by (induction xs) auto

lemma branch_legacy: "nodes_ok nodes \<Longrightarrow> merkle_branch_bytes L (legacy_control L nodes) = Inr (concat nodes)"
  by (simp add: merkle_branch_bytes_def legacy_control_def is_valid_p2mr_control_byte_def
      merkle_size_defs length_concat_nodes list_all_zero)

lemma branch_core:
  assumes "nodes_ok nodes" and "nodes = [] \<or> hd nodes \<noteq> replicate 32 0"
  shows "merkle_branch_bytes L (core_control L nodes) = Inr (concat nodes)"
proof (cases nodes)
  case Nil
  then show ?thesis
    by (simp add: merkle_branch_bytes_def core_control_def is_valid_p2mr_control_byte_def merkle_size_defs)
next
  case (Cons n ns)
  then have "length n = 32" and "n \<noteq> replicate 32 0" and ns: "nodes_ok ns"
    using assms by (auto simp: nodes_ok_def)
  then show ?thesis
    using length_concat_nodes [OF ns]
    by (simp add: Cons merkle_branch_bytes_def core_control_def is_valid_p2mr_control_byte_def
        merkle_size_defs list_all_zero Let_def)
qed

text \<open>Conversely, a control block that decodes has one of the two forms.\<close>

lemma branch_cases:
  assumes "merkle_branch_bytes L cb = Inr branch"
  obtains nodes where "nodes_ok nodes" and "branch = concat nodes"
    and "chunks_exact 32 branch = nodes"
    and "cb = core_control L nodes \<or> cb = legacy_control L nodes"
proof -
  have mod: "length branch mod 32 = 0"
    using assms by (auto simp: merkle_branch_bytes_def merkle_size_defs Let_def split: if_splits)
  define nodes where "nodes = chunks_exact 32 branch"
  have nodes: "nodes_ok nodes" "branch = concat nodes"
    using concat_chunks_exact [OF _ mod] by (simp_all add: nodes_def nodes_ok_def list_all_iff)
  have hd: "cb \<noteq> []" "cb ! 0 = p2mr_control_byte L"
    using assms
    by (auto simp: merkle_branch_bytes_def is_valid_p2mr_control_byte_def split: if_splits)
  then obtain rest where cb: "cb = p2mr_control_byte L # rest" by (cases cb) simp_all
  have ch: "chunks_exact 32 branch = nodes" by (simp add: nodes_def)
  have "branch = drop 1 cb \<or>
      length cb \<ge> 33 \<and> list_all (\<lambda>b. b = 0) (drop 1 (take 33 cb)) \<and> branch = drop 33 cb"
    using assms by (auto simp: merkle_branch_bytes_def merkle_size_defs Let_def split: if_splits)
  then show thesis
  proof
    assume "branch = drop 1 cb"
    then have "cb = core_control L nodes"
      unfolding core_control_def nodes(2) [symmetric] by (simp add: cb)
    then show thesis using that [OF nodes ch] by blast
  next
    assume legacy: "length cb \<ge> 33 \<and> list_all (\<lambda>b. b = 0) (drop 1 (take 33 cb)) \<and> branch = drop 33 cb"
    then have "rest = replicate 32 0 @ branch"
      using append_take_drop_id [of 32 rest] by (simp add: cb list_all_zero)
    then have "cb = legacy_control L nodes"
      unfolding legacy_control_def nodes(2) [symmetric] by (simp add: cb)
    then show thesis using that [OF nodes ch] by blast
  qed
qed

lemma recompute_from_branch:
  assumes "merkle_branch_bytes L cb = Inr (concat nodes)" and "nodes_ok nodes"
  shows "recompute_merkle_root L s cb = ok_or (tap_root L s nodes) DecodeFailed"
proof -
  have "chunks_exact 32 (concat nodes) = nodes"
    using assms(2) by (intro chunks_exact_concat) (simp_all add: nodes_ok_def list_all_iff)
  then show ?thesis
    using assms(1)
    by (cases "leaf_version_from_consensus L (p2mr_leaf_version L)")
      (simp_all add: recompute_merkle_root_def tap_root_def MERKLE_NODE_SIZE_def)
qed

section \<open>Properties\<close>

text \<open>
  P2MR outputs round trip: \<open>validate_p2mr_output\<close> returns a root exactly for the output
  script of that root (\<open>OP_2\<close>, a 32-byte push, the root), it succeeds exactly on the scripts
  that \<open>is_p2mr_script\<close> recognises, and its only reachable error is \<open>NotP2mr\<close>.
\<close>
theorem p2mr_output_roundtrip:
  "(validate_p2mr_output script = Inr root) = (length root = 32 \<and> script = p2mr_script root)
    \<and> is_ok (validate_p2mr_output script) = is_p2mr_script script
    \<and> validate_p2mr_output script \<in> insert (Inl NotP2mr) (range Inr)"
  using validate_p2mr_output_iff [of script root] validate_p2mr_output_total [of script]
  by (auto simp: validate_p2mr_output_def is_p2mr_script_def Let_def)

text \<open>
  A Merkle path is accepted exactly when the control block is the Core wire form or the
  legacy padded form of a list of 32-byte nodes, and folding those nodes over the leaf gives the
  committed root; a Core control block whose first node is all zeros is read as the padded form
  of the remaining nodes.
\<close>
theorem verify_merkle_path_iff:
  "(verify_merkle_path L s root cb = Inr ()) =
    (\<exists>nodes. nodes_ok nodes \<and> tap_root L s nodes = Some root
      \<and> (cb = legacy_control L nodes
         \<or> cb = core_control L nodes \<and> \<not> (nodes \<noteq> [] \<and> hd nodes = replicate 32 0)))"
proof
  assume v: "verify_merkle_path L s root cb = Inr ()"
  then obtain branch where br: "merkle_branch_bytes L cb = Inr branch"
    by (auto simp: verify_merkle_path_def recompute_merkle_root_def)
  obtain nodes where nodes: "nodes_ok nodes" "branch = concat nodes" "chunks_exact 32 branch = nodes"
    and cb: "cb = core_control L nodes \<or> cb = legacy_control L nodes"
    by (rule branch_cases [OF br])
  have root: "tap_root L s nodes = Some root"
    using v recompute_from_branch [of L cb nodes s] br nodes
    by (auto simp: verify_merkle_path_def split: if_splits)
  have "\<not> (nodes \<noteq> [] \<and> hd nodes = replicate 32 0)" if core: "cb = core_control L nodes"
  proof
    assume z: "nodes \<noteq> [] \<and> hd nodes = replicate 32 0"
    then obtain ns where ns: "nodes = replicate 32 0 # ns" by (cases nodes) auto
    then have "cb = legacy_control L ns"
      by (simp add: core core_control_def legacy_control_def)
    moreover have "nodes_ok ns" using nodes(1) by (simp add: ns nodes_ok_def)
    ultimately have "branch = concat ns" using br branch_legacy by simp
    then show False using nodes(2) by (simp add: ns)
  qed
  then show "\<exists>nodes. nodes_ok nodes \<and> tap_root L s nodes = Some root
      \<and> (cb = legacy_control L nodes
         \<or> cb = core_control L nodes \<and> \<not> (nodes \<noteq> [] \<and> hd nodes = replicate 32 0))"
    using nodes(1) root cb by blast
next
  assume "\<exists>nodes. nodes_ok nodes \<and> tap_root L s nodes = Some root
      \<and> (cb = legacy_control L nodes
         \<or> cb = core_control L nodes \<and> \<not> (nodes \<noteq> [] \<and> hd nodes = replicate 32 0))"
  then obtain nodes where nodes: "nodes_ok nodes" and root: "tap_root L s nodes = Some root"
    and cb: "cb = legacy_control L nodes
      \<or> cb = core_control L nodes \<and> \<not> (nodes \<noteq> [] \<and> hd nodes = replicate 32 0)" by blast
  have "merkle_branch_bytes L cb = Inr (concat nodes)"
    using cb branch_legacy [OF nodes] branch_core [OF nodes] by auto
  then show "verify_merkle_path L s root cb = Inr ()"
    using recompute_from_branch [OF _ nodes] root by (simp add: verify_merkle_path_def)
qed

end
