(* ===== verification/Schemes.thy ===== *)
theory Schemes
  imports Leaf_Script P2mr
begin

text \<open>
  Signature schemes by size (\<open>lib/validator/pqc/schemes.rs\<close>) and the per-block verification
  budget (\<open>limits.rs\<close>). The budget is state that the verification of each post-quantum signature
  advances; \<open>lib_clock\<close> supplies the measured times.
\<close>

section \<open>The verification budget\<close>

text \<open>Durations are nanoseconds.\<close>

record pqc_verify_budget =
  vb_budget :: nat
  vb_elapsed :: nat

definition with_budget_ms :: "nat \<Rightarrow> pqc_verify_budget" where
  "with_budget_ms ms = \<lparr>vb_budget = ms * 1000000, vb_elapsed = 0\<rparr>"

definition new_default_budget :: pqc_verify_budget where
  "new_default_budget = with_budget_ms DEFAULT_PQC_VERIFY_BUDGET_MS"

definition budget_record :: "pqc_verify_budget \<Rightarrow> nat \<Rightarrow> bool \<times> pqc_verify_budget" where
  "budget_record b duration =
     (let b' = b\<lparr>vb_elapsed := vb_elapsed b + duration\<rparr> in (vb_elapsed b' > vb_budget b', b'))"

text \<open>
  The mutable verification state: the \<open>Option<PqcVerifyBudget>\<close> that is threaded through, and
  the number of post-quantum verifications so far, which indexes \<open>lib_clock\<close>.
\<close>

record pqc_state =
  ps_budget :: "pqc_verify_budget option"
  ps_clock :: nat

definition pqc_state_new :: "pqc_verify_budget option \<Rightarrow> pqc_state" where
  "pqc_state_new b = \<lparr>ps_budget = b, ps_clock = 0\<rparr>"

definition budget_exhausted :: "pqc_state \<Rightarrow> bool" where
  "budget_exhausted s =
     (case ps_budget s of None \<Rightarrow> False | Some b \<Rightarrow> vb_elapsed b > vb_budget b)"

section \<open>Schemes\<close>

datatype signature_scheme = Schnorr | MlDsa44 | SlhDsaSha2128s

datatype scheme_error =
  UnrecognizedSize nat
| InvalidSchnorr
| InvalidMlDsa44
| InvalidSlhDsaSha2128s
| PubkeySchemeMismatch nat signature_scheme
| SighashFailed string
| PqcVerifyBudgetExceeded
| BlockVerifyBudgetExhausted

definition canonical_size :: "nat \<Rightarrow> bool" where
  "canonical_size n =
     (n = SCHNORR_SIGNATURE_SIZE \<or> n = ML_DSA_44_SIGNATURE_SIZE \<or> n = SLH_DSA_128S_SIGNATURE_SIZE)"

definition parse_sighash_type :: "libs \<Rightarrow> bytes \<Rightarrow> tap_sighash_type" where
  "parse_sighash_type L signature =
     (if length signature \<le> 1 then SighashDefault
      else if canonical_size (length (butlast signature)) then
        (case sighash_from_u8 L (last signature) of
           Some t \<Rightarrow> t | None \<Rightarrow> SighashDefault)
      else SighashDefault)"

definition strip_sighash_byte :: "libs \<Rightarrow> bytes \<Rightarrow> bytes" where
  "strip_sighash_byte L signature =
     (if length signature \<le> 1 then signature
      else if sighash_from_u8 L (last signature) = None then signature
      else if canonical_size (length (butlast signature)) then butlast signature
      else signature)"

definition classify_signature :: "libs \<Rightarrow> bytes \<Rightarrow> scheme_error + signature_scheme" where
  "classify_signature L signature =
     (let size = length (strip_sighash_byte L signature) in
      if size = SCHNORR_SIGNATURE_SIZE then Inr Schnorr
      else if size + PQC_SIGNATURE_SIZE_TOLERANCE \<ge> ML_DSA_44_SIGNATURE_SIZE
        \<and> size \<le> ML_DSA_44_SIGNATURE_SIZE + PQC_SIGNATURE_SIZE_TOLERANCE then Inr MlDsa44
      else if size + PQC_SIGNATURE_SIZE_TOLERANCE \<ge> SLH_DSA_128S_SIGNATURE_SIZE
        \<and> size \<le> SLH_DSA_128S_SIGNATURE_SIZE + PQC_SIGNATURE_SIZE_TOLERANCE then Inr SlhDsaSha2128s
      else Inl (UnrecognizedSize size))"

definition expected_pubkey_size :: "signature_scheme \<Rightarrow> nat" where
  "expected_pubkey_size scheme =
     (case scheme of
        Schnorr \<Rightarrow> SLH_DSA_PUBLIC_KEY_SIZE
      | SlhDsaSha2128s \<Rightarrow> SLH_DSA_PUBLIC_KEY_SIZE
      | MlDsa44 \<Rightarrow> ML_DSA_44_PUBLIC_KEY_SIZE)"

definition validate_pubkey_for_scheme :: "bytes \<Rightarrow> signature_scheme \<Rightarrow> scheme_error + unit" where
  "validate_pubkey_for_scheme pubkey scheme =
     (let size = length pubkey; expected = expected_pubkey_size scheme in
      if size = expected then Inr () else Inl (PubkeySchemeMismatch size scheme))"

section \<open>Verification\<close>

text \<open>\<open>TapscriptVerifyContext\<close>, less the budget, which is the state.\<close>

record tapscript_verify_context =
  vc_tx :: transaction
  vc_input_index :: nat
  vc_prevouts :: prevouts
  vc_leaf_hash :: bytes

definition verify_schnorr_sig :: "libs \<Rightarrow> bytes \<Rightarrow> bytes \<Rightarrow> bytes \<Rightarrow> scheme_error + unit" where
  "verify_schnorr_sig L signature message pubkey =
     bindE (ok_or (schnorr_from_slice L (strip_sighash_byte L signature)) InvalidSchnorr) (\<lambda>sig.
     bindE (ok_or (xonly_from_slice L pubkey) InvalidSchnorr) (\<lambda>pk.
     guardE (schnorr_verify L sig message pk) InvalidSchnorr))"

text \<open>The closure that \<open>verify_pqc\<close> times.\<close>

definition pqc_result ::
  "libs \<Rightarrow> pqc_algorithm \<Rightarrow> bytes \<Rightarrow> bytes \<Rightarrow> bytes \<Rightarrow> scheme_error \<Rightarrow> scheme_error + unit" where
  "pqc_result L algorithm sig_bytes message pubkey invalid =
     bindE (ok_or (pqc_sig_from_slice L algorithm sig_bytes) invalid) (\<lambda>pqc_sig.
     bindE (ok_or (pqc_pk_from_slice L algorithm pubkey) invalid) (\<lambda>pqc_pk.
     guardE (pqc_verify L pqc_pk message pqc_sig) invalid))"

definition verify_pqc ::
  "libs \<Rightarrow> pqc_algorithm \<Rightarrow> bytes \<Rightarrow> bytes \<Rightarrow> bytes \<Rightarrow> scheme_error \<Rightarrow> pqc_state
    \<Rightarrow> (scheme_error + unit) \<times> pqc_state" where
  "verify_pqc L algorithm sig_bytes message pubkey invalid s =
     (let result = pqc_result L algorithm sig_bytes message pubkey invalid;
          elapsed = lib_clock L (ps_clock s) in
      case ps_budget s of
        None \<Rightarrow> (result, s\<lparr>ps_clock := Suc (ps_clock s)\<rparr>)
      | Some b \<Rightarrow>
          let (exceeded, b') = budget_record b elapsed;
              s' = s\<lparr>ps_budget := Some b', ps_clock := Suc (ps_clock s)\<rparr> in
          if exceeded then (Inl PqcVerifyBudgetExceeded, s') else (result, s'))"

definition verify_ml_dsa_44 ::
  "libs \<Rightarrow> bytes \<Rightarrow> bytes \<Rightarrow> bytes \<Rightarrow> pqc_state \<Rightarrow> (scheme_error + unit) \<times> pqc_state" where
  "verify_ml_dsa_44 L signature message pubkey s =
     verify_pqc L ML_DSA_44 (strip_sighash_byte L signature) message pubkey InvalidMlDsa44 s"

definition verify_slh_dsa_sha2_128s ::
  "libs \<Rightarrow> bytes \<Rightarrow> bytes \<Rightarrow> bytes \<Rightarrow> pqc_state \<Rightarrow> (scheme_error + unit) \<times> pqc_state" where
  "verify_slh_dsa_sha2_128s L signature message pubkey s =
     verify_pqc L SLH_DSA_SHA2_128S (strip_sighash_byte L signature) message pubkey
       InvalidSlhDsaSha2128s s"

definition verify_tapscript_signature ::
  "libs \<Rightarrow> signature_scheme \<Rightarrow> bytes \<Rightarrow> bytes \<Rightarrow> tapscript_verify_context \<Rightarrow> pqc_state
    \<Rightarrow> (scheme_error + unit) \<times> pqc_state" where
  "verify_tapscript_signature L scheme signature pubkey ctx s =
     (case script_spend_sighash L (vc_tx ctx) (vc_input_index ctx) (vc_prevouts ctx)
             (vc_leaf_hash ctx) (parse_sighash_type L signature) of
        Inl err \<Rightarrow> (Inl (SighashFailed err), s)
      | Inr sighash \<Rightarrow>
          (case scheme of
             Schnorr \<Rightarrow> (verify_schnorr_sig L signature sighash pubkey, s)
           | MlDsa44 \<Rightarrow> verify_ml_dsa_44 L signature sighash pubkey s
           | SlhDsaSha2128s \<Rightarrow> verify_slh_dsa_sha2_128s L signature sighash pubkey s))"

definition verify_overloaded_checksig ::
  "libs \<Rightarrow> bytes \<Rightarrow> bytes \<Rightarrow> tapscript_verify_context \<Rightarrow> pqc_state
    \<Rightarrow> (scheme_error + unit) \<times> pqc_state" where
  "verify_overloaded_checksig L pubkey signature ctx s =
     (if budget_exhausted s then (Inl BlockVerifyBudgetExhausted, s)
      else
        case bindE (classify_signature L signature) (\<lambda>scheme.
               bindE (validate_pubkey_for_scheme pubkey scheme) (\<lambda>_. Inr scheme)) of
          Inl e \<Rightarrow> (Inl e, s)
        | Inr scheme \<Rightarrow> verify_tapscript_signature L scheme signature pubkey ctx s)"

section \<open>Sizes and sighash bytes\<close>

lemma strip_sighash_byte_cases:
  "strip_sighash_byte L sig = sig
   \<or> (\<exists>body b. sig = body @ [b] \<and> strip_sighash_byte L sig = body \<and> canonical_size (length body)
        \<and> sighash_from_u8 L b \<noteq> None)"
proof (cases sig rule: rev_cases)
  case (snoc body b)
  then show ?thesis by (auto simp: strip_sighash_byte_def)
qed (simp add: strip_sighash_byte_def)

lemma canonical_size_bounds: "canonical_size n \<Longrightarrow> 64 \<le> n"
  by (auto simp: canonical_size_def limit_defs)

lemma strip_appended_sighash:
  "canonical_size (length body) \<Longrightarrow> sighash_from_u8 L b = Some t \<Longrightarrow>
   strip_sighash_byte L (body @ [b]) = body \<and> parse_sighash_type L (body @ [b]) = t"
  using canonical_size_bounds [of "length body"]
  by (auto simp: strip_sighash_byte_def parse_sighash_type_def)

lemma not_canonical_pred: "canonical_size n \<Longrightarrow> \<not> canonical_size (n - 1)"
  by (auto simp: canonical_size_def limit_defs)

lemma strip_bare:
  "canonical_size (length body) \<Longrightarrow>
   strip_sighash_byte L body = body \<and> parse_sighash_type L body = SighashDefault"
  using not_canonical_pred [of "length body"]
  by (auto simp: strip_sighash_byte_def parse_sighash_type_def)

lemma classify_signature_iff:
  "(classify_signature L sig = Inr scheme) =
    (let n = length (strip_sighash_byte L sig) in
     case scheme of Schnorr \<Rightarrow> n = 64 | MlDsa44 \<Rightarrow> 2416 \<le> n \<and> n \<le> 2424
     | SlhDsaSha2128s \<Rightarrow> 7852 \<le> n \<and> n \<le> 7860)"
  by (cases scheme) (auto simp: classify_signature_def Let_def limit_defs)

lemma classify_canonical:
  "canonical_size (length body) \<Longrightarrow> strip_sighash_byte L sig = body \<Longrightarrow> is_ok (classify_signature L sig)"
  by (auto simp: classify_signature_def Let_def canonical_size_def limit_defs)

section \<open>The budget only grows, and stays exhausted\<close>

definition budget_le :: "pqc_state \<Rightarrow> pqc_state \<Rightarrow> bool" where
  "budget_le s s' =
     (ps_clock s \<le> ps_clock s' \<and>
      (case (ps_budget s, ps_budget s') of
         (None, None) \<Rightarrow> True
       | (Some b, Some b') \<Rightarrow> vb_budget b = vb_budget b' \<and> vb_elapsed b \<le> vb_elapsed b'
       | _ \<Rightarrow> False))"

lemma budget_le_refl [simp]: "budget_le s s"
  by (simp add: budget_le_def split: option.splits)

lemma budget_le_trans: "budget_le s t \<Longrightarrow> budget_le t u \<Longrightarrow> budget_le s u"
  by (auto simp: budget_le_def split: option.splits)

lemma budget_le_exhausted: "budget_le s s' \<Longrightarrow> budget_exhausted s \<Longrightarrow> budget_exhausted s'"
  by (auto simp: budget_le_def budget_exhausted_def split: option.splits)

lemma verify_pqc_budget: "verify_pqc L alg sig m pk e s = (r, s') \<Longrightarrow> budget_le s s'"
  by (auto simp: verify_pqc_def budget_record_def budget_le_def Let_def split: option.splits if_splits)

lemma verify_tapscript_budget:
  assumes "verify_tapscript_signature L scheme sig pk ctx s = (r, s')"
  shows "budget_le s s'"
proof (cases "script_spend_sighash L (vc_tx ctx) (vc_input_index ctx) (vc_prevouts ctx)
    (vc_leaf_hash ctx) (parse_sighash_type L sig)")
  case (Inl e)
  then show ?thesis using assms by (simp add: verify_tapscript_signature_def)
next
  case (Inr m)
  then show ?thesis
    using assms verify_pqc_budget
    by (cases scheme)
      (auto simp: verify_tapscript_signature_def verify_ml_dsa_44_def verify_slh_dsa_sha2_128s_def)
qed

lemma verify_overloaded_eq:
  "verify_overloaded_checksig L pk sig ctx s =
    (if budget_exhausted s then (Inl BlockVerifyBudgetExhausted, s)
     else case classify_signature L sig of Inl e \<Rightarrow> (Inl e, s)
       | Inr scheme \<Rightarrow>
           if length pk = expected_pubkey_size scheme
           then verify_tapscript_signature L scheme sig pk ctx s
           else (Inl (PubkeySchemeMismatch (length pk) scheme), s))"
  by (cases "classify_signature L sig")
    (simp_all add: verify_overloaded_checksig_def validate_pubkey_for_scheme_def Let_def)

lemma verify_overloaded_budget:
  assumes "verify_overloaded_checksig L pk sig ctx s = (r, s')"
  shows "budget_le s s'"
proof (cases "classify_signature L sig")
  case (Inr scheme)
  then show ?thesis
    using assms verify_tapscript_budget by (auto simp: verify_overloaded_eq split: if_splits)
qed (use assms in \<open>auto simp: verify_overloaded_eq split: if_splits\<close>)

lemma verify_pqc_ok:
  assumes "verify_pqc L alg sig m pk e s = (Inr (), s')"
  shows "pqc_result L alg sig m pk e = Inr () \<and> (\<not> budget_exhausted s')"
  using assms
  by (auto simp: verify_pqc_def budget_record_def budget_exhausted_def Let_def
      split: option.splits if_splits)

section \<open>What a successful check means\<close>

text \<open>
  The signature body verifies under the public key, for the sighash of its own sighash byte, by
  the algorithm of its size.
\<close>

definition signature_valid :: "libs \<Rightarrow> tapscript_verify_context \<Rightarrow> bytes \<Rightarrow> bytes \<Rightarrow> bool" where
  "signature_valid L ctx pubkey sig =
     (\<exists>m. script_spend_sighash L (vc_tx ctx) (vc_input_index ctx) (vc_prevouts ctx)
             (vc_leaf_hash ctx) (parse_sighash_type L sig) = Inr m
        \<and> (let body = strip_sighash_byte L sig in
           length body = 64 \<and> length pubkey = 32
             \<and> (\<exists>x k. schnorr_from_slice L body = Some x \<and> xonly_from_slice L pubkey = Some k
                  \<and> schnorr_verify L x m k)
         \<or> 2416 \<le> length body \<and> length body \<le> 2424 \<and> length pubkey = 1312
             \<and> (\<exists>x k. pqc_sig_from_slice L ML_DSA_44 body = Some x
                  \<and> pqc_pk_from_slice L ML_DSA_44 pubkey = Some k \<and> pqc_verify L k m x)
         \<or> 7852 \<le> length body \<and> length body \<le> 7860 \<and> length pubkey = 32
             \<and> (\<exists>x k. pqc_sig_from_slice L SLH_DSA_SHA2_128S body = Some x
                  \<and> pqc_pk_from_slice L SLH_DSA_SHA2_128S pubkey = Some k \<and> pqc_verify L k m x)))"

lemma validate_pubkey_for_scheme_ok [simp]:
  "(validate_pubkey_for_scheme pk scheme = Inr u) = (length pk = expected_pubkey_size scheme)"
  by (auto simp: validate_pubkey_for_scheme_def Let_def)

lemma verify_overloaded_ok:
  assumes "verify_overloaded_checksig L pk sig ctx s = (Inr (), s')"
  shows "signature_valid L ctx pk sig \<and> \<not> budget_exhausted s \<and> \<not> budget_exhausted s'"
proof -
  have nb: "\<not> budget_exhausted s"
    using assms by (auto simp: verify_overloaded_checksig_def)
  obtain scheme where cls: "classify_signature L sig = Inr scheme"
    and len: "length pk = expected_pubkey_size scheme"
    and v: "verify_tapscript_signature L scheme sig pk ctx s = (Inr (), s')"
    using assms nb by (cases "classify_signature L sig") (auto simp: verify_overloaded_eq split: if_splits)
  obtain m where m: "script_spend_sighash L (vc_tx ctx) (vc_input_index ctx) (vc_prevouts ctx)
      (vc_leaf_hash ctx) (parse_sighash_type L sig) = Inr m"
    using v by (auto simp: verify_tapscript_signature_def split: sum.splits)
  note c = cls [unfolded classify_signature_iff Let_def]
  show ?thesis
  proof (cases scheme)
    case Schnorr
    then have "verify_schnorr_sig L sig m pk = Inr ()" and "s' = s"
      using v m by (simp_all add: verify_tapscript_signature_def)
    then show ?thesis
      using m c len nb Schnorr
      by (auto simp: signature_valid_def Let_def verify_schnorr_sig_def expected_pubkey_size_def limit_defs)
  next
    case MlDsa44
    then have "verify_ml_dsa_44 L sig m pk s = (Inr (), s')"
      using v m by (simp add: verify_tapscript_signature_def)
    then show ?thesis
      using m c len nb MlDsa44 verify_pqc_ok
      by (fastforce simp: signature_valid_def Let_def verify_ml_dsa_44_def pqc_result_def
          expected_pubkey_size_def limit_defs)
  next
    case SlhDsaSha2128s
    then have "verify_slh_dsa_sha2_128s L sig m pk s = (Inr (), s')"
      using v m by (simp add: verify_tapscript_signature_def)
    then show ?thesis
      using m c len nb SlhDsaSha2128s verify_pqc_ok
      by (fastforce simp: signature_valid_def Let_def verify_slh_dsa_sha2_128s_def pqc_result_def
          expected_pubkey_size_def limit_defs)
  qed
qed

section \<open>Properties\<close>

text \<open>
  An overloaded \<open>OP_CHECKSIG\<close> that succeeds is a verified signature: the sighash of the
  input under the signature's own sighash type exists, the sizes of body and key select exactly
  one algorithm, and that algorithm's verification of the body over that sighash under that key
  succeeded; and the block's time budget was not used up, before or after.
\<close>
theorem overloaded_checksig_sound:
  assumes "verify_overloaded_checksig L pubkey sig ctx s = (Inr (), s')"
  shows "signature_valid L ctx pubkey sig \<and> \<not> budget_exhausted s \<and> \<not> budget_exhausted s'"
  using verify_overloaded_ok [OF assms] .

theorem overloaded_checksig_sound_witness:
  "\<exists>ctx :: tapscript_verify_context. signature_valid sample_libs ctx (key32 1)
      (sample_digest (sample_tx 7 [sample_in 1 0 0 []] []) 0 SighashDefault @ key32 1)
    \<and> \<not> budget_exhausted (pqc_state_new None) \<and> \<not> budget_exhausted (pqc_state_new None)"
proof (intro exI overloaded_checksig_sound)
  let ?tx = "sample_tx 7 [sample_in 1 0 0 []] []"
  let ?d = "sample_digest ?tx 0 SighashDefault"
  let ?ctx = "\<lparr>vc_tx = ?tx, vc_input_index = 0, vc_prevouts = PrevoutsAll [sample_out 1 []], vc_leaf_hash = []\<rparr>"
  have len: "length ?d = 32" by (simp add: sample_digest_def)
  have st: "strip_sighash_byte sample_libs (?d @ key32 1) = ?d @ key32 1
      \<and> parse_sighash_type sample_libs (?d @ key32 1) = SighashDefault"
    by (rule strip_bare) (simp add: canonical_size_def limit_defs len)
  have fit: "sample_prevouts_fit ?tx 0 (PrevoutsAll [sample_out 1 []]) SighashDefault"
    by (simp add: sample_prevouts_fit_def sample_tx_def)
  have "classify_signature sample_libs (?d @ key32 1) = Inr Schnorr"
    by (simp add: classify_signature_iff st len)
  then show "verify_overloaded_checksig sample_libs (key32 1) (?d @ key32 1) ?ctx (pqc_state_new None)
      = (Inr (), pqc_state_new None)"
    by (simp add: verify_overloaded_eq pqc_state_new_def budget_exhausted_def expected_pubkey_size_def
        limit_defs verify_tapscript_signature_def st fit verify_schnorr_sig_def len)
qed

text \<open>
  The time budget is monotone and sticky: a check never lowers the elapsed time or changes
  the limit, a check that reports the budget exceeded leaves it exhausted, and once it is
  exhausted every later check of the block fails with \<open>BlockVerifyBudgetExhausted\<close> before any
  cryptography runs.
\<close>
theorem budget_sticky:
  assumes "verify_overloaded_checksig L pubkey sig ctx s = (r, s')"
  shows "budget_le s s'
    \<and> (r = Inl PqcVerifyBudgetExceeded \<longrightarrow> budget_exhausted s')
    \<and> (budget_exhausted s' \<longrightarrow>
        verify_overloaded_checksig L pubkey2 sig2 ctx2 s' = (Inl BlockVerifyBudgetExhausted, s'))"
proof (intro conjI impI)
  show "budget_le s s'" by (rule verify_overloaded_budget [OF assms])
  show "verify_overloaded_checksig L pubkey2 sig2 ctx2 s' = (Inl BlockVerifyBudgetExhausted, s')"
    if "budget_exhausted s'" using that by (simp add: verify_overloaded_eq)
  assume r: "r = Inl PqcVerifyBudgetExceeded"
  have pqc: "budget_exhausted s'"
    if "verify_pqc L alg b m k e s = (Inl PqcVerifyBudgetExceeded, s')" "e \<noteq> PqcVerifyBudgetExceeded"
    for alg b m k e
  proof -
    have "pqc_result L alg b m k e \<noteq> Inl PqcVerifyBudgetExceeded"
      using that(2) by (auto simp: pqc_result_def res_Inl_iffs)
    then show ?thesis
      using that(1)
      by (cases "ps_budget s") (auto simp: verify_pqc_def budget_record_def budget_exhausted_def Let_def
          split: if_splits)
  qed
  obtain scheme where cls: "classify_signature L sig = Inr scheme"
    and v: "verify_tapscript_signature L scheme sig pubkey ctx s = (Inl PqcVerifyBudgetExceeded, s')"
    using assms r
    by (cases "classify_signature L sig")
      (auto simp: verify_overloaded_eq classify_signature_def Let_def split: if_splits)
  obtain m where m: "script_spend_sighash L (vc_tx ctx) (vc_input_index ctx) (vc_prevouts ctx)
      (vc_leaf_hash ctx) (parse_sighash_type L sig) = Inr m"
    using v by (cases "script_spend_sighash L (vc_tx ctx) (vc_input_index ctx) (vc_prevouts ctx)
      (vc_leaf_hash ctx) (parse_sighash_type L sig)") (auto simp: verify_tapscript_signature_def)
  show "budget_exhausted s'"
    using v m pqc
    by (cases scheme) (auto simp: verify_tapscript_signature_def verify_ml_dsa_44_def
        verify_slh_dsa_sha2_128s_def verify_schnorr_sig_def res_Inl_iffs)
qed

text \<open>A budget of 500 ns is exceeded by one SLH-DSA verification of 1000 ns.\<close>

definition tight_budget :: "nat \<Rightarrow> nat \<Rightarrow> pqc_state" where
  "tight_budget e k = \<lparr>ps_budget = Some \<lparr>vb_budget = 500, vb_elapsed = e\<rparr>, ps_clock = k\<rparr>"

definition slh_ctx :: tapscript_verify_context where
  "slh_ctx = \<lparr>vc_tx = sample_tx 7 [sample_in 1 0 0 []] [], vc_input_index = 0,
     vc_prevouts = PrevoutsAll [sample_out 1 []], vc_leaf_hash = []\<rparr>"

theorem budget_sticky_witness:
  "budget_le (tight_budget 0 0) (tight_budget 1000 1) \<and> budget_exhausted (tight_budget 1000 1)
    \<and> verify_overloaded_checksig sample_libs [] [] slh_ctx (tight_budget 1000 1)
          = (Inl BlockVerifyBudgetExhausted, tight_budget 1000 1)"
proof -
  let ?sig = "replicate 7856 0 :: bytes"
  have st: "strip_sighash_byte sample_libs ?sig = ?sig
      \<and> parse_sighash_type sample_libs ?sig = SighashDefault"
    by (rule strip_bare) (simp add: canonical_size_def limit_defs)
  have fit: "sample_prevouts_fit (sample_tx 7 [sample_in 1 0 0 []] []) 0 (PrevoutsAll [sample_out 1 []])
      SighashDefault"
    by (simp add: sample_prevouts_fit_def sample_tx_def)
  have "classify_signature sample_libs ?sig = Inr SlhDsaSha2128s"
    by (simp add: classify_signature_iff st)
  then have "verify_overloaded_checksig sample_libs (key32 1) ?sig slh_ctx (tight_budget 0 0)
      = (Inl PqcVerifyBudgetExceeded, tight_budget 1000 1)"
    by (simp add: verify_overloaded_eq tight_budget_def budget_exhausted_def expected_pubkey_size_def
        limit_defs verify_tapscript_signature_def st fit slh_ctx_def verify_slh_dsa_sha2_128s_def
        verify_pqc_def budget_record_def)
  from budget_sticky [OF this] show ?thesis by simp
qed

text \<open>
  Sighash bytes round trip: a body of a canonical size followed by a byte that names a
  sighash type is read as that body with that type, a bare canonical body is read as itself with
  the default type, and both are classified.
\<close>
theorem sighash_byte_roundtrip:
  assumes "canonical_size (length body)" and "sighash_from_u8 L b = Some t"
  shows "strip_sighash_byte L (body @ [b]) = body \<and> parse_sighash_type L (body @ [b]) = t
    \<and> strip_sighash_byte L body = body \<and> parse_sighash_type L body = SighashDefault
    \<and> is_ok (classify_signature L (body @ [b])) \<and> is_ok (classify_signature L body)"
  using strip_appended_sighash [OF assms] strip_bare [OF assms(1)] classify_canonical [OF assms(1)]
  by blast

theorem sighash_byte_roundtrip_witness:
  "strip_sighash_byte sample_libs (replicate 64 9 @ [1]) = replicate 64 9
    \<and> parse_sighash_type sample_libs (replicate 64 9 @ [1]) = SighashAll
    \<and> strip_sighash_byte sample_libs (replicate 64 9) = replicate 64 9
    \<and> parse_sighash_type sample_libs (replicate 64 9) = SighashDefault
    \<and> is_ok (classify_signature sample_libs (replicate 64 9 @ [1]))
    \<and> is_ok (classify_signature sample_libs (replicate 64 9))"
  by (rule sighash_byte_roundtrip) (simp_all add: canonical_size_def limit_defs sample_sighash_from_u8_def)

end
