(* ===== verification/Spend.thy ===== *)
theory Spend
  imports Schemes
begin

text \<open>
  Validation of P2MR script-path spends (\<open>lib/validator/pqc/spend.rs\<close>): one input, the prevouts
  its sighash commits to, and all inputs of a transaction against the outputs known to the
  enforcer. The lemmas state what acceptance guarantees and which transactions fail closed.
\<close>

datatype spend_error =
  EmptyWitness
| WitnessStackTooLarge
| IncompleteWitness
| SignatureWeightExceeded nat
| SpendLeafScriptTooLarge
| InvalidP2mrLeafVersion
| LeafScriptFailed leaf_script_error
| SpendMissingPrevout nat
| UnverifiableSpend nat
| OutputFailed p2mr_output_error
| MerkleFailed merkle_error
| SchemeFailed scheme_error

section \<open>One input\<close>

definition spend_leaf_version :: "libs \<Rightarrow> spend_error + u8" where
  "spend_leaf_version L =
     ok_or (leaf_version_from_consensus L (p2mr_leaf_version L)) InvalidP2mrLeafVersion"

text \<open>One round of the loop over signature sites.\<close>

definition verify_site ::
  "libs \<Rightarrow> tapscript_verify_context \<Rightarrow> pqc_state \<Rightarrow> sig_check_site \<times> bytes
    \<Rightarrow> spend_error + pqc_state" where
  "verify_site L ctx s x =
     (case x of (site, signature) \<Rightarrow>
        (case verify_overloaded_checksig L (scs_pubkey site) signature ctx s of
           (Inl e, _) \<Rightarrow> Inl (SchemeFailed e)
         | (Inr _, s') \<Rightarrow> Inr s'))"

definition validate_p2mr_input_spend ::
  "libs \<Rightarrow> transaction \<Rightarrow> nat \<Rightarrow> tx_out \<Rightarrow> prevouts \<Rightarrow> pqc_state \<Rightarrow> spend_error + pqc_state" where
  "validate_p2mr_input_spend L tx input_index prevout prevouts s =
     (if input_index \<ge> length (tx_input tx) then Inl (SpendMissingPrevout input_index)
      else
        let witness = txi_witness (tx_input tx ! input_index);
            witness_len = length witness in
        bindE (guardE (witness \<noteq> []) EmptyWitness) (\<lambda>_.
        bindE (guardE (witness_len \<le> MAX_P2MR_WITNESS_STACK) WitnessStackTooLarge) (\<lambda>_.
        bindE (mapErr OutputFailed (validate_p2mr_output (txo_script_pubkey prevout))) (\<lambda>merkle_root.
        bindE (guardE (\<not> witness_len < 2) IncompleteWitness) (\<lambda>_.
        let control_block_bytes = witness ! (witness_len - 1);
            leaf_script = witness ! (witness_len - 2) in
        bindE (guardE (length leaf_script \<le> MAX_P2MR_LEAF_SCRIPT_SIZE) SpendLeafScriptTooLarge) (\<lambda>_.
        let signature_count = witness_len - 2 in
        bindE (guardE (signature_count \<noteq> 0) EmptyWitness) (\<lambda>_.
        let sig_wu = sum_list (map (\<lambda>sig. estimate_sig_wu (length sig)) (take signature_count witness)) in
        bindE (guardE (sig_wu \<le> MAX_PQC_SIG_WU_PER_INPUT) (SignatureWeightExceeded sig_wu)) (\<lambda>_.
        bindE (mapErr LeafScriptFailed (validate_witness_sig_count L leaf_script signature_count)) (\<lambda>parsed.
        bindE (mapErr MerkleFailed (verify_merkle_path L leaf_script merkle_root control_block_bytes)) (\<lambda>_.
        bindE (spend_leaf_version L) (\<lambda>leaf_version.
        let ctx = \<lparr>vc_tx = tx, vc_input_index = input_index, vc_prevouts = prevouts,
                   vc_leaf_hash = tap_leaf_hash L leaf_script leaf_version\<rparr> in
        foldE (verify_site L ctx) s
          (zip (pls_sig_sites parsed) (take signature_count witness)))))))))))))"

section \<open>The transaction\<close>

definition validate_p2mr_outputs :: "transaction \<Rightarrow> spend_error + unit" where
  "validate_p2mr_outputs tx =
     foldE (\<lambda>_ output.
        if is_p2mr_script (txo_script_pubkey output)
        then bindE (mapErr OutputFailed (validate_p2mr_output (txo_script_pubkey output))) (\<lambda>_. Inr ())
        else Inr ()) () (tx_output tx)"

text \<open>Outputs of transactions in order; a later insert overrides an earlier one.\<close>

definition utxo_map_from_transactions :: "libs \<Rightarrow> transaction list \<Rightarrow> utxo_map" where
  "utxo_map_from_transactions L txs =
     foldl (\<lambda>m tx. foldl (\<lambda>m (outpoint, output). m(outpoint \<mapsto> output)) m (tx_outpoints L tx))
       Map.empty txs"

definition sighash_anyonecanpay :: "tap_sighash_type \<Rightarrow> bool" where
  "sighash_anyonecanpay t =
     (case t of AllPlusAnyoneCanPay \<Rightarrow> True | NonePlusAnyoneCanPay \<Rightarrow> True
      | SinglePlusAnyoneCanPay \<Rightarrow> True | _ \<Rightarrow> False)"

text \<open>The loop that collects the prevout of every input, or stops at the first missing one.\<close>

fun collect_prevouts :: "utxo_map \<Rightarrow> tx_in list \<Rightarrow> tx_out list option" where
  "collect_prevouts available [] = Some []"
| "collect_prevouts available (input # rest) =
     (case available (txi_previous_output input) of None \<Rightarrow> None
      | Some p \<Rightarrow> map_option ((#) p) (collect_prevouts available rest))"

definition prevouts_for_p2mr_input ::
  "transaction \<Rightarrow> nat \<Rightarrow> utxo_map \<Rightarrow> tap_sighash_type \<Rightarrow> prevouts option" where
  "prevouts_for_p2mr_input tx input_index available sighash_type =
     (case available (txi_previous_output (tx_input tx ! input_index)) of
        None \<Rightarrow> None
      | Some prevout \<Rightarrow>
          if sighash_anyonecanpay sighash_type then Some (PrevoutsOne input_index prevout)
          else if length (tx_input tx) = 1 then Some (PrevoutsAll [prevout])
          else map_option PrevoutsAll (collect_prevouts available (tx_input tx)))"

text \<open>The loop body: \<open>chain\<close> and \<open>spent\<close> are the two optional arguments.\<close>

definition validate_input ::
  "libs \<Rightarrow> transaction \<Rightarrow> utxo_map \<Rightarrow> utxo_map option \<Rightarrow> out_point set option \<Rightarrow> pqc_state
    \<Rightarrow> nat \<times> tx_in \<Rightarrow> spend_error + pqc_state" where
  "validate_input L tx available chain spent s x =
     (case x of (input_index, input) \<Rightarrow>
        (case available (txi_previous_output input) of
           None \<Rightarrow>
             if txi_witness input \<noteq> []
               \<and> ((case chain of None \<Rightarrow> False | Some c \<Rightarrow> c (txi_previous_output input) \<noteq> None)
                 \<or> (case spent of None \<Rightarrow> False | Some sp \<Rightarrow> txi_previous_output input \<in> sp))
             then Inl (SpendMissingPrevout input_index)
             else Inr s
         | Some prevout \<Rightarrow>
             if \<not> is_p2mr_script (txo_script_pubkey prevout) then Inr s
             else if txi_witness input = [] then Inl EmptyWitness
             else
               let sighash_type = parse_sighash_type L (hd (txi_witness input)) in
               (case prevouts_for_p2mr_input tx input_index available sighash_type of
                  None \<Rightarrow> Inl (UnverifiableSpend input_index)
                | Some prevouts \<Rightarrow> validate_p2mr_input_spend L tx input_index prevout prevouts s)))"

definition validate_transaction_spends ::
  "libs \<Rightarrow> transaction \<Rightarrow> utxo_map \<Rightarrow> utxo_map option \<Rightarrow> out_point set option \<Rightarrow> pqc_state
    \<Rightarrow> spend_error + pqc_state" where
  "validate_transaction_spends L tx available chain spent s =
     bindE (validate_p2mr_outputs tx) (\<lambda>_.
       foldE (validate_input L tx available chain spent) s (enumerate 0 (tx_input tx)))"

section \<open>Authorised inputs\<close>

text \<open>
  The abstract statement of a script-path spend: signatures, leaf and control block; the leaf is
  committed to by the output; there is one signature per site and each verifies.
\<close>

definition spend_authorized ::
  "libs \<Rightarrow> transaction \<Rightarrow> nat \<Rightarrow> tx_out \<Rightarrow> prevouts \<Rightarrow> bool" where
  "spend_authorized L tx i prevout prevouts =
     (\<exists>sigs leaf cb root parsed v.
        txi_witness (tx_input tx ! i) = sigs @ [leaf, cb] \<and> sigs \<noteq> [] \<and> length sigs \<le> 98
      \<and> sum_list (map length sigs) \<le> MAX_PQC_SIG_WU_PER_INPUT
      \<and> length root = 32 \<and> txo_script_pubkey prevout = p2mr_script root
      \<and> parse_leaf_script L leaf = Inr parsed
      \<and> verify_merkle_path L leaf root cb = Inr ()
      \<and> leaf_version_from_consensus L (p2mr_leaf_version L) = Some v
      \<and> list_all2 (\<lambda>site sig. signature_valid L
           \<lparr>vc_tx = tx, vc_input_index = i, vc_prevouts = prevouts, vc_leaf_hash = tap_leaf_hash L leaf v\<rparr>
           (scs_pubkey site) sig)
         (pls_sig_sites parsed) sigs)"

lemma verify_site_ok:
  "verify_site L ctx s (site, sig) = Inr s' \<Longrightarrow>
   signature_valid L ctx (scs_pubkey site) sig \<and> budget_le s s' \<and> \<not> budget_exhausted s'"
  by (auto simp: verify_site_def split: prod.splits sum.splits
      dest: verify_overloaded_ok verify_overloaded_budget)

text \<open>The site loop as a fallible loop: the budget grows from \<open>s\<^sub>0\<close>, and every pair seen verified.\<close>

interpretation site_loop: fallible_loop "verify_site L ctx" "budget_le s\<^sub>0"
    "\<lambda>(site, sig). signature_valid L ctx (scs_pubkey site) sig" for L ctx s\<^sub>0
proof
  fix s x s' assume s: "budget_le s\<^sub>0 s" and v: "verify_site L ctx s x = Inr s'"
  obtain site sig where x: "x = (site, sig)" by (cases x)
  show "budget_le s\<^sub>0 s'"
    using verify_site_ok v budget_le_trans [OF s] unfolding x by blast
  show "case x of (site, sig) \<Rightarrow> signature_valid L ctx (scs_pubkey site) sig"
    using verify_site_ok v unfolding x by auto
qed

lemma validate_witness_sig_count_ok:
  "(validate_witness_sig_count L script n = Inr parsed)
    = (parse_leaf_script L script = Inr parsed \<and> n = length (pls_sig_sites parsed))"
  by (auto simp: validate_witness_sig_count_def Let_def split: if_splits)

lemma witness_split:
  assumes "2 \<le> length w"
  shows "w = take (length w - 2) w @ [w ! (length w - 2), w ! (length w - 1)]"
proof -
  obtain u b where u: "w = u @ [b]" using assms by (cases w rule: rev_cases) auto
  then obtain t a where "u = t @ [a]" using assms by (cases u rule: rev_cases) auto
  then show ?thesis using u by (simp add: nth_append)
qed

lemma validate_p2mr_input_spend_sound:
  assumes "validate_p2mr_input_spend L tx i prevout prevouts s = Inr s'"
  shows "i < length (tx_input tx) \<and> spend_authorized L tx i prevout prevouts \<and> budget_le s s'"
proof -
  define w where "w = txi_witness (tx_input tx ! i)"
  define n where "n = length w - 2"
  define leaf where "leaf = w ! n"
  define cb where "cb = w ! (length w - 1)"
  have i: "i < length (tx_input tx)"
    using assms by (auto simp: validate_p2mr_input_spend_def not_le split: if_splits)
  obtain root parsed v where len: "length w \<le> 100" "2 \<le> length w" "n \<noteq> 0"
    and wu: "sum_list (map (\<lambda>sig. length sig) (take n w)) \<le> MAX_PQC_SIG_WU_PER_INPUT"
    and root: "validate_p2mr_output (txo_script_pubkey prevout) = Inr root"
    and parsed: "validate_witness_sig_count L leaf n = Inr parsed"
    and path: "verify_merkle_path L leaf root cb = Inr ()"
    and v: "leaf_version_from_consensus L (p2mr_leaf_version L) = Some v"
    and loop: "foldE (verify_site L \<lparr>vc_tx = tx, vc_input_index = i, vc_prevouts = prevouts,
        vc_leaf_hash = tap_leaf_hash L leaf v\<rparr>) s (zip (pls_sig_sites parsed) (take n w)) = Inr s'"
    using assms i unfolding validate_p2mr_input_spend_def w_def [symmetric] Let_def
      n_def [symmetric] leaf_def [symmetric] cb_def [symmetric]
    by (auto simp: spend_leaf_version_def estimate_sig_wu_def MAX_P2MR_WITNESS_STACK_def not_less)
  have w: "w = take n w @ [leaf, cb]"
    unfolding leaf_def cb_def n_def by (rule witness_split [OF len(2)])
  have sites: "length (pls_sig_sites parsed) = length (take n w)"
    using parsed by (auto simp: validate_witness_sig_count_ok n_def)
  have "list_all2 (\<lambda>site sig. signature_valid L \<lparr>vc_tx = tx, vc_input_index = i,
      vc_prevouts = prevouts, vc_leaf_hash = tap_leaf_hash L leaf v\<rparr> (scs_pubkey site) sig)
      (pls_sig_sites parsed) (take n w)"
    using site_loop.loop_seen [OF budget_le_refl loop] sites by (auto simp: list_all2_iff)
  moreover have "take n w \<noteq> []" "length (take n w) \<le> 98"
    using len by (auto simp: n_def)
  ultimately have "spend_authorized L tx i prevout prevouts"
    unfolding spend_authorized_def w_def [symmetric]
    using w wu root parsed path v
    by (intro exI [of _ "take n w"] exI [of _ leaf] exI [of _ cb] exI [of _ root] exI [of _ parsed] exI [of _ v])
      (simp add: validate_p2mr_output_iff validate_witness_sig_count_ok)
  then show ?thesis
    using i site_loop.loop_inv [OF budget_le_refl loop] by blast
qed

section \<open>All inputs of a transaction\<close>

lemma validate_p2mr_outputs_ok: "validate_p2mr_outputs tx = Inr ()"
proof -
  have "foldE (\<lambda>_ output. if is_p2mr_script (txo_script_pubkey output)
        then bindE (mapErr OutputFailed (validate_p2mr_output (txo_script_pubkey output))) (\<lambda>_. Inr ())
        else Inr ()) () outs = Inr ()" for outs
  proof (induction outs)
    case (Cons x outs)
    have "is_ok (validate_p2mr_output (txo_script_pubkey x))" if "is_p2mr_script (txo_script_pubkey x)"
      using that by (simp add: validate_p2mr_output_total)
    then show ?case using Cons.IH by (auto simp: is_ok_iff)
  qed simp
  then show ?thesis by (simp add: validate_p2mr_outputs_def)
qed

text \<open>What one successful round says of its input.\<close>

definition input_checked ::
  "libs \<Rightarrow> transaction \<Rightarrow> utxo_map \<Rightarrow> utxo_map option \<Rightarrow> out_point set option \<Rightarrow> nat \<Rightarrow> tx_in \<Rightarrow> bool" where
  "input_checked L tx available chain spent i input =
     (case available (txi_previous_output input) of
        Some prevout \<Rightarrow>
          is_p2mr_script (txo_script_pubkey prevout) \<longrightarrow>
            txi_witness input \<noteq> []
            \<and> (\<exists>ps. prevouts_for_p2mr_input tx i available (parse_sighash_type L (hd (txi_witness input))) = Some ps
                 \<and> spend_authorized L tx i prevout ps)
      | None \<Rightarrow>
          txi_witness input = []
          \<or> \<not> ((case chain of None \<Rightarrow> False | Some c \<Rightarrow> c (txi_previous_output input) \<noteq> None)
               \<or> (case spent of None \<Rightarrow> False | Some sp \<Rightarrow> txi_previous_output input \<in> sp)))"

lemma validate_input_ok:
  assumes "validate_input L tx available chain spent s (i, input) = Inr s'"
  shows "input_checked L tx available chain spent i input \<and> budget_le s s'"
proof (cases "available (txi_previous_output input)")
  case None
  have eq: "validate_input L tx available chain spent s (i, input) =
    (if txi_witness input \<noteq> []
       \<and> ((case chain of None \<Rightarrow> False | Some c \<Rightarrow> c (txi_previous_output input) \<noteq> None)
         \<or> (case spent of None \<Rightarrow> False | Some sp \<Rightarrow> txi_previous_output input \<in> sp))
     then Inl (SpendMissingPrevout i) else Inr s)"
    by (simp add: validate_input_def None)
  show ?thesis
    using assms unfolding eq input_checked_def None option.case by (simp split: if_split_asm)
next
  case (Some prevout)
  show ?thesis
  proof (cases "is_p2mr_script (txo_script_pubkey prevout)")
    case False
    then show ?thesis
      using assms by (simp add: validate_input_def input_checked_def Some)
  next
    case True
    then have w: "txi_witness input \<noteq> []"
      using assms by (auto simp: validate_input_def Some)
    obtain ps where ps: "prevouts_for_p2mr_input tx i available
        (parse_sighash_type L (hd (txi_witness input))) = Some ps"
      and v: "validate_p2mr_input_spend L tx i prevout ps s = Inr s'"
      using assms True w by (auto simp: validate_input_def Some Let_def split: option.splits)
    then show ?thesis
      using validate_p2mr_input_spend_sound [OF v] True w by (simp add: input_checked_def Some)
  qed
qed

interpretation input_loop: fallible_loop "validate_input L tx available chain spent"
    "budget_le s\<^sub>0" "\<lambda>(i, input). input_checked L tx available chain spent i input"
    for L tx available chain spent s\<^sub>0
proof
  fix s x s'
  assume s: "budget_le s\<^sub>0 s" and v: "validate_input L tx available chain spent s x = Inr s'"
  obtain i input where x: "x = (i, input)" by (cases x)
  show "budget_le s\<^sub>0 s'"
    using validate_input_ok v budget_le_trans [OF s] unfolding x by blast
  show "case x of (i, input) \<Rightarrow> input_checked L tx available chain spent i input"
    using validate_input_ok v unfolding x by auto
qed

lemma validate_transaction_spends_ok:
  assumes "validate_transaction_spends L tx available chain spent s = Inr s'"
  shows "(\<forall>i < length (tx_input tx). input_checked L tx available chain spent i (tx_input tx ! i))
    \<and> budget_le s s'"
proof -
  have loop: "foldE (validate_input L tx available chain spent) s (enumerate 0 (tx_input tx)) = Inr s'"
    using assms by (simp add: validate_transaction_spends_def validate_p2mr_outputs_ok)
  have "input_checked L tx available chain spent i (tx_input tx ! i)" if "i < length (tx_input tx)" for i
    using input_loop.loop_seen [OF budget_le_refl loop, of "(i, tx_input tx ! i)"] that
    by (auto simp: in_set_enumerate_eq)
  then show ?thesis using input_loop.loop_inv [OF budget_le_refl loop] by blast
qed

lemma collect_prevouts_Some:
  "(collect_prevouts available ins = Some outs)
    = (map (\<lambda>i. available (txi_previous_output i)) ins = map Some outs)"
  by (induction ins arbitrary: outs) (auto split: option.splits simp: Cons_eq_map_conv)

lemma prevouts_for_Some:
  assumes "prevouts_for_p2mr_input tx i available t = Some ps" and "i < length (tx_input tx)"
  shows "if sighash_anyonecanpay t
     then \<exists>p. available (txi_previous_output (tx_input tx ! i)) = Some p \<and> ps = PrevoutsOne i p
     else \<exists>outs. ps = PrevoutsAll outs
       \<and> map (\<lambda>i. available (txi_previous_output i)) (tx_input tx) = map Some outs"
proof (cases "available (txi_previous_output (tx_input tx ! i))")
  case (Some p)
  show ?thesis
  proof (cases "length (tx_input tx) = 1")
    case True
    then obtain input where "tx_input tx = [input]" by (auto simp: length_Suc_conv)
    then show ?thesis
      using assms Some by (auto simp: prevouts_for_p2mr_input_def)
  next
    case False
    then show ?thesis
      using assms Some
      by (auto simp: prevouts_for_p2mr_input_def collect_prevouts_Some split: if_splits)
  qed
qed (use assms in \<open>simp add: prevouts_for_p2mr_input_def\<close>)

section \<open>Acceptance within the budget\<close>

text \<open>The next \<open>k\<close> post-quantum verifications fit the budget; then the checks are also complete.\<close>

definition time_left :: "libs \<Rightarrow> nat \<Rightarrow> pqc_state \<Rightarrow> bool" where
  "time_left L k s =
     (case ps_budget s of None \<Rightarrow> True
      | Some b \<Rightarrow> vb_elapsed b + (\<Sum>i = 0..<k. lib_clock L (ps_clock s + i)) \<le> vb_budget b)"

lemma time_left_Suc: "time_left L (Suc k) s \<Longrightarrow> time_left L k s"
  by (auto simp: time_left_def split: option.splits)

lemma time_left_not_exhausted: "time_left L k s \<Longrightarrow> \<not> budget_exhausted s"
  by (auto simp: time_left_def budget_exhausted_def split: option.splits)

lemma verify_pqc_in_time:
  assumes "time_left L (Suc k) s" and "pqc_result L alg sig m pk e = Inr ()"
  shows "\<exists>s'. verify_pqc L alg sig m pk e s = (Inr (), s') \<and> time_left L k s'"
proof (cases "ps_budget s")
  case None
  then show ?thesis using assms by (simp add: verify_pqc_def time_left_def)
next
  case (Some b)
  then have "vb_elapsed b + (lib_clock L (ps_clock s) + (\<Sum>i = 0..<k. lib_clock L (ps_clock s + Suc i)))
      \<le> vb_budget b"
    using assms(1) unfolding time_left_def sum.atLeast0_lessThan_Suc_shift by simp
  then show ?thesis
    using assms(2) Some by (simp add: verify_pqc_def time_left_def budget_record_def Let_def)
qed

lemma verify_overloaded_complete:
  assumes "signature_valid L ctx pk sig" and "time_left L (Suc k) s"
  shows "\<exists>s'. verify_overloaded_checksig L pk sig ctx s = (Inr (), s') \<and> time_left L k s'"
proof -
  let ?n = "length (strip_sighash_byte L sig)"
  have nb: "\<not> budget_exhausted s" using assms(2) by (rule time_left_not_exhausted)
  obtain m where m: "script_spend_sighash L (vc_tx ctx) (vc_input_index ctx) (vc_prevouts ctx)
      (vc_leaf_hash ctx) (parse_sighash_type L sig) = Inr m"
    and c: "(?n = 64 \<and> length pk = 32
          \<and> verify_schnorr_sig L sig m pk = Inr ())
       \<or> (2416 \<le> ?n \<and> ?n \<le> 2424 \<and> length pk = 1312
          \<and> pqc_result L ML_DSA_44 (strip_sighash_byte L sig) m pk InvalidMlDsa44 = Inr ())
       \<or> (7852 \<le> ?n \<and> ?n \<le> 7860 \<and> length pk = 32
          \<and> pqc_result L SLH_DSA_SHA2_128S (strip_sighash_byte L sig) m pk InvalidSlhDsaSha2128s = Inr ())"
    using assms(1) unfolding signature_valid_def Let_def verify_schnorr_sig_def pqc_result_def
    by (simp only: bindE_eq_Inr ok_or_eq_Inr guardE_eq_Inr) blast
  from c show ?thesis
  proof (elim disjE conjE)
    assume n: "?n = 64" and pk: "length pk = 32" and v: "verify_schnorr_sig L sig m pk = Inr ()"
    have "classify_signature L sig = Inr Schnorr" by (simp add: classify_signature_iff n)
    then show ?thesis
      using nb m pk v time_left_Suc [OF assms(2)]
      by (simp add: verify_overloaded_eq verify_tapscript_signature_def expected_pubkey_size_def limit_defs)
  next
    assume n: "2416 \<le> ?n" "?n \<le> 2424" and pk: "length pk = 1312"
      and v: "pqc_result L ML_DSA_44 (strip_sighash_byte L sig) m pk InvalidMlDsa44 = Inr ()"
    have "classify_signature L sig = Inr MlDsa44" using n by (simp add: classify_signature_iff)
    then show ?thesis
      using nb m pk verify_pqc_in_time [OF assms(2) v]
      by (simp add: verify_overloaded_eq verify_tapscript_signature_def verify_ml_dsa_44_def
          expected_pubkey_size_def limit_defs)
  next
    assume n: "7852 \<le> ?n" "?n \<le> 7860" and pk: "length pk = 32"
      and v: "pqc_result L SLH_DSA_SHA2_128S (strip_sighash_byte L sig) m pk InvalidSlhDsaSha2128s = Inr ()"
    have "classify_signature L sig = Inr SlhDsaSha2128s" using n by (simp add: classify_signature_iff)
    then show ?thesis
      using nb m pk verify_pqc_in_time [OF assms(2) v]
      by (simp add: verify_overloaded_eq verify_tapscript_signature_def verify_slh_dsa_sha2_128s_def
          expected_pubkey_size_def limit_defs)
  qed
qed

lemma site_loop_complete:
  "list_all2 (\<lambda>site sig. signature_valid L ctx (scs_pubkey site) sig) sites sigs \<Longrightarrow>
   time_left L (length sigs) s \<Longrightarrow> is_ok (foldE (verify_site L ctx) s (zip sites sigs))"
proof (induction sites sigs arbitrary: s rule: list_all2_induct)
  case (Cons site sites sig sigs)
  obtain s' where "verify_overloaded_checksig L (scs_pubkey site) sig ctx s = (Inr (), s')"
    and "time_left L (length sigs) s'"
    using verify_overloaded_complete [OF Cons.hyps(1), of "length sigs" s] Cons.prems by auto
  then show ?case using Cons.IH by (simp add: verify_site_def)
qed simp

lemma validate_p2mr_input_spend_complete:
  assumes "i < length (tx_input tx)" and "spend_authorized L tx i prevout ps"
    and "time_left L (length (txi_witness (tx_input tx ! i)) - 2) s"
  shows "is_ok (validate_p2mr_input_spend L tx i prevout ps s)"
proof -
  obtain sigs leaf cb root parsed v where w: "txi_witness (tx_input tx ! i) = sigs @ [leaf, cb]"
    and len: "sigs \<noteq> []" "length sigs \<le> 98"
    and wu: "sum_list (map length sigs) \<le> MAX_PQC_SIG_WU_PER_INPUT"
    and root: "length root = 32" "txo_script_pubkey prevout = p2mr_script root"
    and parsed: "parse_leaf_script L leaf = Inr parsed"
    and path: "verify_merkle_path L leaf root cb = Inr ()"
    and v: "leaf_version_from_consensus L (p2mr_leaf_version L) = Some v"
    and sites: "list_all2 (\<lambda>site sig. signature_valid L
           \<lparr>vc_tx = tx, vc_input_index = i, vc_prevouts = ps, vc_leaf_hash = tap_leaf_hash L leaf v\<rparr>
           (scs_pubkey site) sig) (pls_sig_sites parsed) sigs"
    using assms(2) unfolding spend_authorized_def by blast
  have leaf: "length leaf \<le> MAX_P2MR_LEAF_SCRIPT_SIZE"
    using parsed by (auto simp: parse_leaf_script_def split: if_splits)
  have count: "validate_witness_sig_count L leaf (length sigs) = Inr parsed"
    using parsed list_all2_lengthD [OF sites] by (simp add: validate_witness_sig_count_ok)
  have out: "validate_p2mr_output (txo_script_pubkey prevout) = Inr root"
    using root by (simp add: validate_p2mr_output_iff)
  have "(sigs @ [leaf, cb]) ! (length sigs) = leaf" "(sigs @ [leaf, cb]) ! Suc (length sigs) = cb"
    by (simp_all add: nth_append)
  then show ?thesis
    using assms(1) len wu leaf site_loop_complete [OF sites] assms(3)
    by (simp add: validate_p2mr_input_spend_def Let_def w out count path spend_leaf_version_def v
        estimate_sig_wu_def [abs_def] MAX_P2MR_WITNESS_STACK_def not_le)
qed

section \<open>Properties\<close>

text \<open>
  C1: spend validation of one P2MR input is exactly the abstract rule: with enough of the time
  budget left for one verification per signature (or with no budget), it accepts if and only if the input exists and its witness is signatures, a leaf script and a
  control block such that the output commits to the leaf, the leaf parses to as many signature
  sites as there are signatures, and every signature verifies under the public key of its site
  by the algorithm of its size, within the stack and weight limits. A spent budget can only make
  it reject more.
\<close>
theorem p2mr_input_spend_iff:
  "(time_left L (length (txi_witness (tx_input tx ! i)) - 2) s \<longrightarrow>
      is_ok (validate_p2mr_input_spend L tx i prevout ps s)
        = (i < length (tx_input tx) \<and> spend_authorized L tx i prevout ps))
    \<and> (is_ok (validate_p2mr_input_spend L tx i prevout ps s) \<longrightarrow>
        i < length (tx_input tx) \<and> spend_authorized L tx i prevout ps)"
  using validate_p2mr_input_spend_sound validate_p2mr_input_spend_complete
  unfolding is_ok_iff by blast


text \<open>
  C3: a missing co-input fails closed: if the first signature of a P2MR input has a sighash type
  that commits to all prevouts and the prevout of any input is unknown, the transaction is
  rejected; the signature check is never skipped for lack of data.
\<close>
theorem missing_coinput_rejected:
  assumes "i < length (tx_input tx)" and "j < length (tx_input tx)"
    and "available (txi_previous_output (tx_input tx ! i)) = Some prevout"
    and "is_p2mr_script (txo_script_pubkey prevout)"
    and "available (txi_previous_output (tx_input tx ! j)) = None"
    and "\<not> sighash_anyonecanpay (parse_sighash_type L (hd (txi_witness (tx_input tx ! i))))"
  shows "\<not> is_ok (validate_transaction_spends L tx available chain spent s)"
proof
  assume "is_ok (validate_transaction_spends L tx available chain spent s)"
  then obtain s' where v: "validate_transaction_spends L tx available chain spent s = Inr s'"
    by (auto simp: is_ok_iff)
  have "input_checked L tx available chain spent i (tx_input tx ! i)"
    using validate_transaction_spends_ok [OF v] assms(1) by blast
  then obtain ps where "prevouts_for_p2mr_input tx i available
      (parse_sighash_type L (hd (txi_witness (tx_input tx ! i)))) = Some ps"
    using assms(3,4) by (auto simp: input_checked_def)
  from prevouts_for_Some [OF this assms(1)] obtain outs
    where outs: "map (\<lambda>i. available (txi_previous_output i)) (tx_input tx) = map Some outs"
    using assms(6) by auto
  then have "length outs = length (tx_input tx)" using map_eq_imp_length_eq by metis
  then show False
    using arg_cong [OF outs, of "\<lambda>l. l ! j"] assms(2,5) by simp
qed

text \<open>
  The sighash type of the first witness element decides the prevouts for the whole input.
  With a sighash library that refuses a single prevout for a type that commits to all of them
  (as \<open>rust-bitcoin\<close> documents), a leaf with an ANYONECANPAY signature first and any signature
  of another type after it is always rejected, although the same two signatures are checked one
  by one in the opposite order.
\<close>
theorem anyonecanpay_first_rejects_mixed:
  assumes "\<And>tx i k out leaf t. \<not> sighash_anyonecanpay t \<Longrightarrow>
      \<not> is_ok (script_spend_sighash L tx i (PrevoutsOne k out) leaf t)"
    and "i < length (tx_input tx)"
    and "available (txi_previous_output (tx_input tx ! i)) = Some prevout"
    and "is_p2mr_script (txo_script_pubkey prevout)"
    and "txi_witness (tx_input tx ! i) = sigs @ [leaf, cb]" and "sigs \<noteq> []"
    and "sighash_anyonecanpay (parse_sighash_type L (hd sigs))"
    and "sig \<in> set sigs" and "\<not> sighash_anyonecanpay (parse_sighash_type L sig)"
  shows "\<not> is_ok (validate_transaction_spends L tx available chain spent s)"
proof
  assume "is_ok (validate_transaction_spends L tx available chain spent s)"
  then obtain s' where v: "validate_transaction_spends L tx available chain spent s = Inr s'"
    by (auto simp: is_ok_iff)
  have hd: "hd (sigs @ [leaf, cb]) = hd sigs" using assms(6) by simp
  have "input_checked L tx available chain spent i (tx_input tx ! i)"
    using validate_transaction_spends_ok [OF v] assms(2) by blast
  then obtain ps where ps: "prevouts_for_p2mr_input tx i available (parse_sighash_type L (hd sigs)) = Some ps"
    and auth: "spend_authorized L tx i prevout ps"
    using assms(3,4,5) hd by (auto simp: input_checked_def)
  obtain p where p: "ps = PrevoutsOne i p"
    using prevouts_for_Some [OF ps assms(2)] assms(7) by auto
  obtain parsed :: parsed_leaf_script and v where sites: "list_all2 (\<lambda>site sig. signature_valid L
       \<lparr>vc_tx = tx, vc_input_index = i, vc_prevouts = ps, vc_leaf_hash = tap_leaf_hash L leaf v\<rparr>
       (scs_pubkey site) sig) (pls_sig_sites parsed) sigs"
    using auth unfolding spend_authorized_def assms(5) by auto
  obtain k where "k < length sigs" and k: "sigs ! k = sig"
    using assms(8) by (auto simp: in_set_conv_nth)
  from list_all2_nthD2 [OF sites this(1)]
  obtain pk where "signature_valid L
       \<lparr>vc_tx = tx, vc_input_index = i, vc_prevouts = ps, vc_leaf_hash = tap_leaf_hash L leaf v\<rparr> pk sig"
    unfolding k by blast
  then have "is_ok (script_spend_sighash L tx i (PrevoutsOne i p) (tap_leaf_hash L leaf v)
      (parse_sighash_type L sig))"
    by (auto simp: signature_valid_def p is_ok_iff)
  then show False using assms(1) [OF assms(9)] by blast
qed

subsection \<open>A concrete hybrid spend\<close>

definition demo_leaf :: bytes where
  "demo_leaf = build_hybrid_ec_slh_leaf (key32 1) (key32 2)"

definition demo_root :: bytes where
  "demo_root = sample_hash32 (0xc0 # take 24 demo_leaf)"

definition demo_prevout :: tx_out where
  "demo_prevout = sample_out 50000 (p2mr_script demo_root)"

definition demo_digest :: bytes where
  "demo_digest = le_bytes 4 7 @ le_bytes 4 0 @ 0 # replicate 23 7"

definition demo_sigs :: "bytes list" where
  "demo_sigs = [demo_digest @ key32 1, demo_digest @ key32 2 @ replicate 7792 0]"

definition demo_tx :: "u8 \<Rightarrow> tx_in list \<Rightarrow> transaction" where
  "demo_tx t rest = sample_tx 7 (sample_in t 0 0 (demo_sigs @ [demo_leaf, [0xc1]]) # rest) [sample_out 40000 [0x6a]]"

lemma length_demo_digest [simp]: "length demo_digest = 32"
  by (simp add: demo_digest_def)

lemma demo_digest_eq: "sample_digest (demo_tx t rest) 0 SighashDefault = demo_digest"
  by (simp add: sample_digest_def demo_tx_def sample_tx_def demo_digest_def sample_sighash_to_u8_def)

lemma demo_leaf_parsed:
  "parse_leaf_script sample_libs demo_leaf =
    Inr \<lparr>pls_sig_sites = [\<lparr>scs_pubkey = key32 1, scs_opcode = OP_CHECKSIG\<rparr>,
                         \<lparr>scs_pubkey = key32 2, scs_opcode = OP_CHECKSIG\<rparr>]\<rparr>"
  unfolding demo_leaf_def
  by (rule hybrid_leaf_sites) (simp_all only: length_key32 hybrid_leaf_instructions)

lemma demo_path: "verify_merkle_path sample_libs demo_leaf demo_root [0xc1] = Inr ()"
proof -
  have "merkle_branch_bytes sample_libs [0xc1] = Inr (concat [])"
    using branch_core [of "[]" sample_libs] by (simp add: nodes_ok_def core_control_def)
  from recompute_from_branch [OF this] show ?thesis
    by (simp add: verify_merkle_path_def tap_root_def demo_root_def nodes_ok_def)
qed

lemma demo_strip:
  "strip_sighash_byte sample_libs (demo_digest @ key32 1) = demo_digest @ key32 1"
  "parse_sighash_type sample_libs (demo_digest @ key32 1) = SighashDefault"
  "strip_sighash_byte sample_libs (demo_digest @ key32 2 @ replicate 7792 0)
     = demo_digest @ key32 2 @ replicate 7792 0"
  "parse_sighash_type sample_libs (demo_digest @ key32 2 @ replicate 7792 0) = SighashDefault"
  using strip_bare [of "demo_digest @ key32 1" sample_libs]
    strip_bare [of "demo_digest @ key32 2 @ replicate 7792 0" sample_libs]
  by (simp_all add: canonical_size_def limit_defs)

lemma demo_sigs_valid:
  assumes "sample_prevouts_fit (demo_tx t rest) 0 ps SighashDefault"
  shows "list_all2 (\<lambda>site sig. signature_valid sample_libs
      \<lparr>vc_tx = demo_tx t rest, vc_input_index = 0, vc_prevouts = ps, vc_leaf_hash = h\<rparr> (scs_pubkey site) sig)
    [\<lparr>scs_pubkey = key32 1, scs_opcode = OP_CHECKSIG\<rparr>, \<lparr>scs_pubkey = key32 2, scs_opcode = OP_CHECKSIG\<rparr>]
    demo_sigs"
  using assms by (simp add: demo_sigs_def signature_valid_def demo_strip demo_digest_eq)

lemma demo_authorized:
  assumes "sample_prevouts_fit (demo_tx t rest) 0 ps SighashDefault"
  shows "spend_authorized sample_libs (demo_tx t rest) 0 demo_prevout ps"
proof -
  have w: "txi_witness (tx_input (demo_tx t rest) ! 0) = demo_sigs @ [demo_leaf, [0xc1]]"
    by (simp add: demo_tx_def sample_tx_def sample_in_def)
  show ?thesis
    unfolding spend_authorized_def w
    using demo_sigs_valid [OF assms] demo_leaf_parsed demo_path
    by (intro exI [of _ demo_sigs] exI [of _ demo_leaf] exI [of _ "[0xc1]"] exI [of _ demo_root]
        exI [of _ "\<lparr>pls_sig_sites = [\<lparr>scs_pubkey = key32 1, scs_opcode = OP_CHECKSIG\<rparr>,
                         \<lparr>scs_pubkey = key32 2, scs_opcode = OP_CHECKSIG\<rparr>]\<rparr>"] exI [of _ "0xc0"])
      (simp add: demo_sigs_def limit_defs demo_prevout_def sample_out_def demo_root_def)
qed

theorem p2mr_input_spend_iff_witness:
  "is_ok (validate_p2mr_input_spend sample_libs (demo_tx 1 []) 0 demo_prevout
     (PrevoutsAll [demo_prevout]) (pqc_state_new (Some new_default_budget)))"
proof -
  have "sample_prevouts_fit (demo_tx 1 []) 0 (PrevoutsAll [demo_prevout]) SighashDefault"
    by (simp add: sample_prevouts_fit_def demo_tx_def sample_tx_def)
  from demo_authorized [OF this] show ?thesis
    using p2mr_input_spend_iff [of sample_libs "demo_tx 1 []" 0 "pqc_state_new (Some new_default_budget)" demo_prevout]
    by (simp add: pqc_state_new_def demo_tx_def sample_tx_def sample_in_def demo_sigs_def time_left_def
        new_default_budget_def with_budget_ms_def DEFAULT_PQC_VERIFY_BUDGET_MS_def)
qed

definition demo_available :: utxo_map where
  "demo_available = [\<lparr>op_txid = 1 # replicate 31 0, op_vout = 0\<rparr> \<mapsto> demo_prevout]"

lemma demo_prevout_p2mr [simp]: "is_p2mr_script (txo_script_pubkey demo_prevout)"
  by (simp add: demo_prevout_def sample_out_def is_p2mr_script_def p2mr_script_def demo_root_def)

lemma demo_validates:
  assumes "time_left sample_libs 2 s"
    and "available \<lparr>op_txid = t # replicate 31 0, op_vout = 0\<rparr> = Some demo_prevout"
  shows "\<exists>s'. validate_transaction_spends sample_libs (demo_tx t []) available chain spent s = Inr s'"
proof -
  have fit: "sample_prevouts_fit (demo_tx t []) 0 (PrevoutsAll [demo_prevout]) SighashDefault"
    by (simp add: sample_prevouts_fit_def demo_tx_def sample_tx_def)
  have "is_ok (validate_p2mr_input_spend sample_libs (demo_tx t []) 0 demo_prevout (PrevoutsAll [demo_prevout]) s)"
    by (rule validate_p2mr_input_spend_complete [OF _ demo_authorized [OF fit]])
      (use assms(1) in \<open>simp_all add: demo_tx_def sample_tx_def sample_in_def demo_sigs_def numeral_2_eq_2\<close>)
  then obtain s' where s': "validate_p2mr_input_spend sample_libs (demo_tx t []) 0 demo_prevout
      (PrevoutsAll [demo_prevout]) s = Inr s'"
    by (auto simp: is_ok_iff)
  obtain input where ins: "tx_input (demo_tx t []) = [input]"
    and input: "txi_previous_output input = \<lparr>op_txid = t # replicate 31 0, op_vout = 0\<rparr>"
      "txi_witness input = demo_sigs @ [demo_leaf, [0xc1]]"
    by (simp add: demo_tx_def sample_tx_def sample_in_def)
  have ps: "prevouts_for_p2mr_input (demo_tx t []) 0 available SighashDefault
      = Some (PrevoutsAll [demo_prevout])"
    by (simp add: prevouts_for_p2mr_input_def ins input assms(2) sighash_anyonecanpay_def)
  show ?thesis
    using s' ps
    by (simp add: validate_transaction_spends_def validate_p2mr_outputs_ok ins validate_input_def
        input assms(2) demo_sigs_def demo_strip Let_def)
qed


theorem missing_coinput_rejected_witness:
  "\<not> is_ok (validate_transaction_spends sample_libs (demo_tx 1 [sample_in 2 0 0 []]) demo_available
     None None (pqc_state_new None))"
proof (rule missing_coinput_rejected [of 0 _ 1 _ demo_prevout])
  show "\<not> sighash_anyonecanpay (parse_sighash_type sample_libs
      (hd (txi_witness (tx_input (demo_tx 1 [sample_in 2 0 0 []]) ! 0))))"
    by (simp add: demo_tx_def sample_tx_def sample_in_def demo_sigs_def demo_strip sighash_anyonecanpay_def)
qed (simp_all add: demo_tx_def sample_tx_def sample_in_def demo_available_def)

text \<open>An \<open>ALL|ANYONECANPAY\<close> signature first and a bare one second.\<close>

definition mixed_tx :: transaction where
  "mixed_tx = sample_tx 7 [sample_in 1 0 0
     [demo_digest @ key32 1 @ [0x81], demo_digest @ key32 1, demo_leaf, [0xc1]]] []"

theorem anyonecanpay_first_rejects_mixed_witness:
  "\<not> is_ok (validate_transaction_spends sample_libs mixed_tx demo_available None None (pqc_state_new None))"
proof (rule anyonecanpay_first_rejects_mixed
    [of sample_libs 0 _ _ demo_prevout "[demo_digest @ key32 1 @ [0x81], demo_digest @ key32 1]" demo_leaf "[0xc1]"
        "demo_digest @ key32 1"])
  show "\<not> is_ok (script_spend_sighash sample_libs tx i (PrevoutsOne k out) leaf t)"
    if "\<not> sighash_anyonecanpay t" for tx i k out leaf t
    using that
    by (cases t) (simp_all add: sample_prevouts_fit_def sample_anyone_can_pay_def
        sample_sighash_to_u8_def sighash_anyonecanpay_def)
  have "parse_sighash_type sample_libs ((demo_digest @ key32 1) @ [0x81]) = AllPlusAnyoneCanPay"
    using strip_appended_sighash [of "demo_digest @ key32 1" sample_libs "0x81" AllPlusAnyoneCanPay]
    by (simp add: canonical_size_def limit_defs sample_sighash_from_u8_def)
  then show "sighash_anyonecanpay (parse_sighash_type sample_libs
      (hd [demo_digest @ key32 1 @ [0x81], demo_digest @ key32 1]))"
    by (simp add: sighash_anyonecanpay_def)
qed (simp_all add: mixed_tx_def sample_tx_def sample_in_def demo_available_def demo_strip
    sighash_anyonecanpay_def)

end
