(* ===== verification/P2mr_Utxo.thy ===== *)
theory P2mr_Utxo
  imports P2mr
begin

text \<open>
  The P2MR output diff of a block (\<open>lib/validator/pqc/p2mr_utxo.rs\<close>) and its application to and
  removal from the persistent set (\<open>lib/validator/dbs/p2mr_utxos.rs\<close>). A \<open>HashMap\<close> that is
  iterated is an association list with distinct keys, in the order of insertion; one that is only
  looked up is a map. The specification is the direct replay of transactions on the set.
\<close>

section \<open>Block diffs\<close>

type_synonym utxo_list = "(out_point \<times> tx_out) list"

record p2mr_diff =
  pd_spent :: utxo_list
  pd_created :: utxo_list

definition is_p2mr_out :: "tx_out \<Rightarrow> bool" where
  "is_p2mr_out output = is_p2mr_script (txo_script_pubkey output)"

text \<open>The two loops of \<open>apply_tx_to_available\<close>, over the inputs and over the outputs.\<close>

definition spend_input :: "utxo_map \<times> p2mr_diff \<Rightarrow> tx_in \<Rightarrow> utxo_map \<times> p2mr_diff" where
  "spend_input s input =
     (case s of (available, d) \<Rightarrow>
        let outpoint = txi_previous_output input in
        (case available outpoint of
           None \<Rightarrow> (available, d)
         | Some prevout \<Rightarrow>
             (available(outpoint := None),
              if \<not> is_p2mr_out prevout then d
              else if map_of (pd_created d) outpoint = None
              then d\<lparr>pd_spent := AList.update outpoint prevout (pd_spent d)\<rparr>
              else d\<lparr>pd_created := AList.delete outpoint (pd_created d)\<rparr>)))"

definition create_output :: "utxo_map \<times> p2mr_diff \<Rightarrow> out_point \<times> tx_out \<Rightarrow> utxo_map \<times> p2mr_diff" where
  "create_output s x =
     (case (s, x) of ((available, d), (outpoint, output)) \<Rightarrow>
        if is_p2mr_out output
        then (available(outpoint \<mapsto> output),
              d\<lparr>pd_created := AList.update outpoint output (pd_created d)\<rparr>)
        else (available, d))"

definition apply_tx_to_available ::
  "libs \<Rightarrow> utxo_map \<times> p2mr_diff \<Rightarrow> transaction \<Rightarrow> utxo_map \<times> p2mr_diff" where
  "apply_tx_to_available L s tx =
     foldl create_output (foldl spend_input s (tx_input tx)) (tx_outpoints L tx)"

definition diff_default :: p2mr_diff where
  "diff_default = \<lparr>pd_spent = [], pd_created = []\<rparr>"

definition compute_block_diff :: "libs \<Rightarrow> block \<Rightarrow> utxo_map \<Rightarrow> p2mr_diff" where
  "compute_block_diff L blk chain_utxos =
     snd (foldl (apply_tx_to_available L) (chain_utxos, diff_default) (blk_txdata blk))"

text \<open>
  The variant that block validation uses: every output enters \<open>available\<close>, the spent P2MR
  outpoints are collected, and the diff is optional.
\<close>

type_synonym validation_view = "utxo_map \<times> p2mr_diff option \<times> out_point set"

definition validation_spend :: "validation_view \<Rightarrow> tx_in \<Rightarrow> validation_view" where
  "validation_spend s input =
     (case s of (available, diff, spent_in_block) \<Rightarrow>
        let outpoint = txi_previous_output input in
        (case available outpoint of
           None \<Rightarrow> (available, diff, spent_in_block)
         | Some prevout \<Rightarrow>
             if is_p2mr_out prevout
             then (available(outpoint := None),
                   map_option (\<lambda>d.
                     if map_of (pd_created d) outpoint = None
                     then d\<lparr>pd_spent := AList.update outpoint prevout (pd_spent d)\<rparr>
                     else d\<lparr>pd_created := AList.delete outpoint (pd_created d)\<rparr>) diff,
                   insert outpoint spent_in_block)
             else (available(outpoint := None), diff, spent_in_block)))"

definition validation_create :: "validation_view \<Rightarrow> out_point \<times> tx_out \<Rightarrow> validation_view" where
  "validation_create s x =
     (case (s, x) of ((available, diff, spent_in_block), (outpoint, output)) \<Rightarrow>
        (available(outpoint \<mapsto> output),
         (if is_p2mr_out output
          then map_option (\<lambda>d. d\<lparr>pd_created := AList.update outpoint output (pd_created d)\<rparr>) diff
          else diff),
         spent_in_block))"

definition apply_tx_to_validation_available ::
  "libs \<Rightarrow> validation_view \<Rightarrow> transaction \<Rightarrow> validation_view" where
  "apply_tx_to_validation_available L s tx =
     foldl validation_create (foldl validation_spend s (tx_input tx)) (tx_outpoints L tx)"

section \<open>The persistent set\<close>

datatype db_error = DbMissingValue | DbInconsistent

text \<open>
  \<open>apply_diff\<close>: each spent key must exist and is deleted, then the created outputs are stored.
  When a key is missing the deletions made so far stay in the transaction.
\<close>

definition delete_spent :: "out_point \<Rightarrow> (utxo_map, db_error, unit) st" where
  "delete_spent outpoint =
     (\<lambda>utxos. case utxos outpoint of None \<Rightarrow> (Inl DbMissingValue, utxos)
              | Some _ \<Rightarrow> (Inr (), utxos(outpoint := None)))"

definition apply_diff :: "utxo_list \<Rightarrow> utxo_list \<Rightarrow> (utxo_map, db_error, unit) st" where
  "apply_diff spent created =
     bindS (for_each delete_spent (map fst spent)) (\<lambda>_.
       modifyS (\<lambda>utxos. foldl (\<lambda>m (outpoint, txout). m(outpoint \<mapsto> txout)) utxos created))"

definition undo_diff :: "utxo_list \<Rightarrow> utxo_list \<Rightarrow> utxo_map \<Rightarrow> utxo_map" where
  "undo_diff spent created utxos =
     foldl (\<lambda>m (outpoint, txout). m(outpoint \<mapsto> txout))
       (foldl (\<lambda>m outpoint. m(outpoint := None)) utxos (map fst created)) spent"

section \<open>Replay\<close>

text \<open>The specification: inputs leave the set, P2MR outputs enter it, transaction by transaction.\<close>

definition replay_input :: "utxo_map \<Rightarrow> tx_in \<Rightarrow> utxo_map" where
  "replay_input m input = m(txi_previous_output input := None)"

definition replay_output :: "utxo_map \<Rightarrow> out_point \<times> tx_out \<Rightarrow> utxo_map" where
  "replay_output m x = (case x of (outpoint, output) \<Rightarrow>
     if is_p2mr_out output then m(outpoint \<mapsto> output) else m)"

definition replay_tx :: "libs \<Rightarrow> utxo_map \<Rightarrow> transaction \<Rightarrow> utxo_map" where
  "replay_tx L m tx = foldl replay_output (foldl replay_input m (tx_input tx)) (tx_outpoints L tx)"

definition replay_block :: "libs \<Rightarrow> utxo_map \<Rightarrow> block \<Rightarrow> utxo_map" where
  "replay_block L m blk = foldl (replay_tx L) m (blk_txdata blk)"

text \<open>The set of the chain holds P2MR outputs only; the outputs of a block are new to it.\<close>

definition p2mr_set :: "utxo_map \<Rightarrow> bool" where
  "p2mr_set c = (\<forall>p \<in> ran c. is_p2mr_out p)"

definition block_outpoints :: "libs \<Rightarrow> block \<Rightarrow> out_point list" where
  "block_outpoints L blk = concat (map (\<lambda>tx. map fst (tx_outpoints L tx)) (blk_txdata blk))"

definition new_outputs :: "libs \<Rightarrow> utxo_map \<Rightarrow> block \<Rightarrow> bool" where
  "new_outputs L c blk = list_all (\<lambda>k. c k = None) (block_outpoints L blk)"

lemma new_outputsD:
  "new_outputs L c blk \<Longrightarrow> tx \<in> set (blk_txdata blk) \<Longrightarrow> (k, out) \<in> set (tx_outpoints L tx) \<Longrightarrow> c k = None"
  by (force simp: new_outputs_def block_outpoints_def list_all_iff)

lemma p2mr_set_replay_input: "p2mr_set m \<Longrightarrow> p2mr_set (replay_input m i)"
  by (auto simp: p2mr_set_def replay_input_def ran_def)

lemma p2mr_set_replay_output: "p2mr_set m \<Longrightarrow> p2mr_set (replay_output m x)"
  by (auto simp: p2mr_set_def replay_output_def ran_def split: prod.splits)

lemma foldl_invariant: "P s \<Longrightarrow> (\<And>s x. P s \<Longrightarrow> x \<in> set xs \<Longrightarrow> P (f s x)) \<Longrightarrow> P (foldl f s xs)"
  by (induction xs arbitrary: s) auto

lemma p2mr_set_replay_tx: "p2mr_set m \<Longrightarrow> p2mr_set (replay_tx L m tx)"
  unfolding replay_tx_def
  by (intro foldl_invariant [where P = p2mr_set] p2mr_set_replay_input p2mr_set_replay_output)

lemma p2mr_set_replay_block: "p2mr_set m \<Longrightarrow> p2mr_set (replay_block L m blk)"
  unfolding replay_block_def by (intro foldl_invariant [where P = p2mr_set] p2mr_set_replay_tx)

section \<open>The diff against the chain\<close>

text \<open>
  \<open>diff_ok d c\<close>: \<open>d\<close> can be applied to the set \<open>c\<close> and taken back; \<open>diff_view d c\<close> is the set
  it leads to.
\<close>

definition diff_ok :: "p2mr_diff \<Rightarrow> utxo_map \<Rightarrow> bool" where
  "diff_ok d c =
     (distinct (map fst (pd_spent d)) \<and> distinct (map fst (pd_created d))
      \<and> map_of (pd_spent d) \<subseteq>\<^sub>m c \<and> dom (map_of (pd_created d)) \<inter> dom c = {})"

definition diff_view :: "p2mr_diff \<Rightarrow> utxo_map \<Rightarrow> utxo_map" where
  "diff_view d c = (c |` (- set (map fst (pd_spent d)))) ++ map_of (pd_created d)"

lemma foldl_map_updates:
  "distinct (map fst xs) \<Longrightarrow> foldl (\<lambda>m (k, v). m(k \<mapsto> v)) m xs = m ++ map_of xs"
proof (induction xs arbitrary: m)
  case (Cons x xs)
  obtain k v where x: "x = (k, v)" by (cases x)
  have "map_of xs k = None"
    using Cons.prems by (auto simp: x map_of_eq_None_iff)
  then show ?case
    using Cons by (auto simp: x fun_eq_iff map_add_def split: option.splits)
qed simp

lemma foldl_map_deletes: "foldl (\<lambda>m k. m(k := None)) m ks = m |` (- set ks)"
  by (induction ks arbitrary: m) (auto simp: restrict_map_def fun_eq_iff)

lemma delete_all_spent:
  "distinct ks \<Longrightarrow> set ks \<subseteq> dom m \<Longrightarrow> for_each delete_spent ks m = (Inr (), m |` (- set ks))"
proof (induction ks arbitrary: m)
  case (Cons k ks)
  then have k: "delete_spent k m = (Inr (), m(k := None))"
    by (auto simp: delete_spent_def)
  have "for_each delete_spent ks (m(k := None)) = (Inr (), m(k := None) |` (- set ks))"
    using Cons by (intro Cons.IH) auto
  moreover have "m(k := None) |` (- set ks) = m |` (- set (k # ks))"
    by (auto simp: restrict_map_def fun_eq_iff)
  ultimately show ?case by (simp add: bindS_def k)
qed (simp add: returnS_def restrict_map_def)

lemma diff_ok_spent: "diff_ok d c \<Longrightarrow> map_of (pd_spent d) k = Some v \<Longrightarrow> c k = Some v"
  by (auto simp: diff_ok_def map_le_def dest!: bspec)

lemma diff_ok_created: "diff_ok d c \<Longrightarrow> map_of (pd_created d) k = Some v \<Longrightarrow> c k = None"
  unfolding diff_ok_def by (metis disjoint_iff domIff option.distinct(1))

lemma diff_ok_distinct:
  "diff_ok d c \<Longrightarrow> distinct (map fst (pd_spent d))"
  "diff_ok d c \<Longrightarrow> distinct (map fst (pd_created d))"
  by (simp_all add: diff_ok_def)

lemma map_of_key: "k \<in> set (map fst xs) \<longleftrightarrow> map_of xs k \<noteq> None"
  by (simp add: map_of_eq_None_iff)

lemma spent_keys_in_dom: "diff_ok d c \<Longrightarrow> set (map fst (pd_spent d)) \<subseteq> dom c"
  unfolding subset_iff map_of_key by (auto dest: diff_ok_spent)

lemma apply_diff_view:
  assumes "diff_ok d c"
  shows "apply_diff (pd_spent d) (pd_created d) c = (Inr (), diff_view d c)"
proof -
  have "for_each delete_spent (map fst (pd_spent d)) c = (Inr (), c |` (- set (map fst (pd_spent d))))"
    by (rule delete_all_spent [OF diff_ok_distinct(1) [OF assms] spent_keys_in_dom [OF assms]])
  then show ?thesis
    by (simp add: apply_diff_def bindS_def modifyS_def diff_view_def
        foldl_map_updates [OF diff_ok_distinct(2) [OF assms]])
qed

lemma undo_diff_view:
  assumes "diff_ok d c"
  shows "undo_diff (pd_spent d) (pd_created d) (diff_view d c) = c"
proof -
  have "undo_diff (pd_spent d) (pd_created d) (diff_view d c)
      = (diff_view d c |` (- set (map fst (pd_created d)))) ++ map_of (pd_spent d)"
    by (simp add: undo_diff_def foldl_map_deletes foldl_map_updates [OF diff_ok_distinct(1) [OF assms]])
  also have "\<dots> = c"
  proof
    fix k
    show "((diff_view d c |` (- set (map fst (pd_created d)))) ++ map_of (pd_spent d)) k = c k"
      using diff_ok_spent [OF assms, of k] diff_ok_created [OF assms, of k]
      by (cases "map_of (pd_spent d) k"; cases "map_of (pd_created d) k")
        (simp_all add: diff_view_def map_add_def restrict_map_def map_of_key del: set_map)
  qed
  finally show ?thesis .
qed

interpretation utxo_diff: reversible
    "\<lambda>d. apply_diff (pd_spent d) (pd_created d)" "\<lambda>d. undo_diff (pd_spent d) (pd_created d)" diff_ok
proof
  show "diff_ok d s \<Longrightarrow> \<exists>t. apply_diff (pd_spent d) (pd_created d) s = (Inr (), t)" for d s
    using apply_diff_view by blast
  show "undo_diff (pd_spent d) (pd_created d) t = s"
    if "diff_ok d s" "apply_diff (pd_spent d) (pd_created d) s = (Inr (), t)" for d s t
    using that undo_diff_view [OF that(1)] by (simp add: apply_diff_view)
qed

subsection \<open>The running diff\<close>

text \<open>While a block is processed, the diff so far is applicable and leads to the running set.\<close>

definition running :: "utxo_map \<Rightarrow> utxo_map \<times> p2mr_diff \<Rightarrow> bool" where
  "running c s = (p2mr_set (fst s) \<and> diff_ok (snd s) c \<and> fst s = diff_view (snd s) c)"

lemma fst_spend_input: "fst (spend_input s i) = replay_input (fst s) i"
  by (cases s) (auto simp: spend_input_def replay_input_def Let_def fun_eq_iff split: option.splits)

lemma fst_create_output: "fst (create_output s x) = replay_output (fst s) x"
  by (cases s; cases x) (simp add: create_output_def replay_output_def)

lemma fst_foldl: "(\<And>s x. fst (f s x) = g (fst s) x) \<Longrightarrow> fst (foldl f s xs) = foldl g (fst s) xs"
  by (induction xs arbitrary: s) auto

lemma fst_apply_tx: "fst (apply_tx_to_available L s tx) = replay_tx L (fst s) tx"
  by (simp add: apply_tx_to_available_def replay_tx_def fst_foldl fst_spend_input fst_create_output)

lemma running_spend:
  assumes "running c s"
  shows "running c (spend_input s i)"
proof -
  obtain m d where s: "s = (m, d)" by (cases s)
  let ?o = "txi_previous_output i"
  show ?thesis
  proof (cases "m ?o")
    case None
    then show ?thesis using assms by (simp add: s spend_input_def)
  next
    case (Some p)
    then have p: "is_p2mr_out p" using assms by (auto simp: running_def s p2mr_set_def ran_def)
    have set: "p2mr_set (m(?o := None))"
      using p2mr_set_replay_input [of m i] assms by (simp only: running_def s replay_input_def fst_conv)
    have d: "diff_ok d c" and m: "m = diff_view d c" using assms by (simp_all add: running_def s)
    show ?thesis
    proof (cases "map_of (pd_created d) ?o")
      case created: None
      have o: "?o \<notin> set (map fst (pd_spent d))" "c ?o = Some p"
        using Some created unfolding m diff_view_def by (auto simp: map_add_def restrict_map_def split: if_splits)
      let ?d = "d\<lparr>pd_spent := AList.update ?o p (pd_spent d)\<rparr>"
      have "diff_ok ?d c"
        using d o by (auto simp: diff_ok_def distinct_update update_conv' map_le_def)
      moreover have "m(?o := None) = diff_view ?d c"
        using created unfolding m diff_view_def
        by (auto simp: fun_eq_iff map_add_def restrict_map_def dom_update split: option.splits)
      moreover have "spend_input s i = (m(?o := None), ?d)"
        using p Some created by (simp add: s spend_input_def Let_def)
      ultimately show ?thesis
        using set by (simp only: running_def fst_conv snd_conv)
    next
      case (Some v)
      let ?d = "d\<lparr>pd_created := AList.delete ?o (pd_created d)\<rparr>"
      have "c ?o = None" using d Some by (rule diff_ok_created)
      then have "m(?o := None) = diff_view ?d c"
        unfolding m diff_view_def
        by (auto simp: fun_eq_iff map_add_def restrict_map_def delete_conv' split: option.splits)
      moreover have "diff_ok ?d c"
        using d by (auto simp: diff_ok_def distinct_delete delete_conv')
      moreover have "spend_input s i = (m(?o := None), ?d)"
        using p \<open>m ?o = Some p\<close> Some by (simp add: s spend_input_def Let_def)
      ultimately show ?thesis
        using set by (simp only: running_def fst_conv snd_conv)
    qed
  qed
qed

lemma running_create:
  assumes "running c s" and "c (fst x) = None"
  shows "running c (create_output s x)"
proof -
  obtain m d where s: "s = (m, d)" by (cases s)
  obtain k out where x: "x = (k, out)" by (cases x)
  let ?d = "d\<lparr>pd_created := AList.update k out (pd_created d)\<rparr>"
  show ?thesis
  proof (cases "is_p2mr_out out")
    case True
    have "p2mr_set (m(k \<mapsto> out))"
      using p2mr_set_replay_output [of m x] assms(1) True
      by (simp only: running_def s x replay_output_def fst_conv prod.case if_True)
    moreover have "diff_ok ?d c"
      using assms by (auto simp: running_def s x diff_ok_def distinct_update update_conv')
    moreover have "m(k \<mapsto> out) = diff_view ?d c"
      using assms by (auto simp: running_def s diff_view_def update_conv')
    moreover have "create_output s x = (m(k \<mapsto> out), ?d)"
      by (simp add: s x create_output_def True)
    ultimately show ?thesis by (simp only: running_def fst_conv snd_conv)
  next
    case False
    then show ?thesis using assms by (simp add: s x create_output_def)
  qed
qed

lemma running_tx:
  assumes "running c s" and "\<And>k out. (k, out) \<in> set (tx_outpoints L tx) \<Longrightarrow> c k = None"
  shows "running c (apply_tx_to_available L s tx)"
  unfolding apply_tx_to_available_def
  by (intro foldl_invariant [where P = "running c"] running_spend running_create assms(1))
    (use assms(2) in auto)

lemma running_block:
  assumes "p2mr_set c" and "new_outputs L c blk"
  shows "running c (foldl (apply_tx_to_available L) (c, diff_default) (blk_txdata blk))"
proof (rule foldl_invariant)
  show "running c (c, diff_default)"
    using assms(1) by (simp add: running_def diff_ok_def diff_view_def diff_default_def restrict_map_def)
qed (use running_tx new_outputsD [OF assms(2)] in blast)

lemma compute_block_diff_ok:
  assumes "p2mr_set c" and "new_outputs L c blk"
  shows "diff_ok (compute_block_diff L blk c) c
    \<and> diff_view (compute_block_diff L blk c) c = replay_block L c blk"
proof -
  have "fst (foldl (apply_tx_to_available L) (c, diff_default) (blk_txdata blk)) = replay_block L c blk"
    by (simp add: fst_foldl fst_apply_tx replay_block_def)
  then show ?thesis
    using running_block [OF assms] by (simp add: running_def compute_block_diff_def)
qed

end
