(* ===== verification/Pqc.thy ===== *)
theory Pqc
  imports Spend Tapscript P2mr_Utxo
begin

text \<open>
  BIP 360 validation of transactions, blocks and mempool transactions
  (\<open>lib/validator/pqc/mod.rs\<close>): the activation gate, P2MR spends, enforced Tapscript leaves, and
  the working set that grows and shrinks through a block together with the block's P2MR diff.
\<close>

datatype pqc_validation_error =
  TransactionFailed bytes spend_error
| BlockFailed string
| TapscriptFailed bytes tapscript_error

definition validate_transaction ::
  "libs \<Rightarrow> transaction \<Rightarrow> u32 \<Rightarrow> activation \<Rightarrow> utxo_map \<Rightarrow> utxo_map option \<Rightarrow> out_point set option
    \<Rightarrow> pqc_state \<Rightarrow> pqc_validation_error + pqc_state" where
  "validate_transaction L tx height activation available_prevouts chain spent s =
     (if \<not> is_active activation height then Inr s
      else
        bindE (mapErr (TransactionFailed (compute_txid L tx))
                 (validate_transaction_spends L tx available_prevouts chain spent s)) (\<lambda>s'.
        bindE (mapErr (TapscriptFailed (compute_txid L tx))
                 (enforce_transaction L tx available_prevouts)) (\<lambda>_. Inr s')))"

section \<open>Blocks\<close>

definition seed_coinbase_outputs :: "libs \<Rightarrow> block \<Rightarrow> utxo_map \<Rightarrow> utxo_map" where
  "seed_coinbase_outputs L blk available =
     (case blk_txdata blk of [] \<Rightarrow> available
      | coinbase # _ \<Rightarrow> foldl (\<lambda>m (outpoint, output). m(outpoint \<mapsto> output)) available (tx_outpoints L coinbase))"

definition seed_coinbase_p2mr_diff ::
  "libs \<Rightarrow> block \<Rightarrow> utxo_map \<times> utxo_list \<Rightarrow> utxo_map \<times> utxo_list" where
  "seed_coinbase_p2mr_diff L blk s =
     (case blk_txdata blk of [] \<Rightarrow> s
      | coinbase # _ \<Rightarrow>
          foldl (\<lambda>(available, created) (outpoint, output).
              (available(outpoint \<mapsto> output),
               if is_p2mr_out output then AList.update outpoint output created else created))
            s (tx_outpoints L coinbase))"

text \<open>The loop body over \<open>block.txdata.iter().skip(1)\<close>, with the budget and the working set.\<close>

definition validate_block_tx ::
  "libs \<Rightarrow> u32 \<Rightarrow> activation \<Rightarrow> utxo_map \<Rightarrow> pqc_state \<times> validation_view \<Rightarrow> transaction
    \<Rightarrow> pqc_validation_error + pqc_state \<times> validation_view" where
  "validate_block_tx L height activation chain st tx =
     (case st of (s, available, diff, spent_in_block) \<Rightarrow>
        bindE (validate_transaction L tx height activation available (Some chain) (Some spent_in_block) s)
          (\<lambda>s'. Inr (s', apply_tx_to_validation_available L (available, diff, spent_in_block) tx)))"

definition validate_block_transactions ::
  "libs \<Rightarrow> block \<Rightarrow> u32 \<Rightarrow> activation \<Rightarrow> utxo_map \<Rightarrow> nat \<Rightarrow> pqc_validation_error + unit" where
  "validate_block_transactions L blk height activation chain_utxos budget_ms =
     (if \<not> is_active activation height then Inr ()
      else
        bindE (foldE (validate_block_tx L height activation chain_utxos)
                 (pqc_state_new (Some (with_budget_ms budget_ms)),
                  seed_coinbase_outputs L blk chain_utxos, None, {})
                 (drop 1 (blk_txdata blk))) (\<lambda>_. Inr ()))"

definition validate_mempool_transaction ::
  "libs \<Rightarrow> transaction \<Rightarrow> u32 \<Rightarrow> activation \<Rightarrow> pqc_validation_error + unit" where
  "validate_mempool_transaction L tx height activation =
     (if \<not> is_active activation height then Inr ()
      else bindE (validate_transaction L tx height activation Map.empty None None (pqc_state_new None))
             (\<lambda>_. Inr ()))"

text \<open>The fill-only loop over \<open>extra_prevouts\<close>: entries that are already there win.\<close>

definition fill_extra :: "utxo_map \<Rightarrow> utxo_map \<Rightarrow> utxo_map" where
  "fill_extra available extra = extra ++ available"

text \<open>The working set before the first non-coinbase transaction.\<close>

definition initial_view :: "libs \<Rightarrow> block \<Rightarrow> utxo_map \<Rightarrow> utxo_map \<Rightarrow> validation_view" where
  "initial_view L blk chain_utxos extra =
     (case seed_coinbase_p2mr_diff L blk (chain_utxos, []) of (available, created) \<Rightarrow>
        (fill_extra available extra, Some \<lparr>pd_spent = [], pd_created = created\<rparr>, {}))"

definition validate_and_diff_block_transactions ::
  "libs \<Rightarrow> block \<Rightarrow> u32 \<Rightarrow> activation \<Rightarrow> utxo_map \<Rightarrow> utxo_map \<Rightarrow> nat
    \<Rightarrow> pqc_validation_error + p2mr_diff" where
  "validate_and_diff_block_transactions L blk height activation chain_utxos extra budget_ms =
     (if \<not> is_active activation height then Inr (compute_block_diff L blk chain_utxos)
      else
        bindE (foldE (validate_block_tx L height activation chain_utxos)
                 (pqc_state_new (Some (with_budget_ms budget_ms)), initial_view L blk chain_utxos extra)
                 (drop 1 (blk_txdata blk)))
          (\<lambda>(_, _, diff, _). Inr (case diff of Some d \<Rightarrow> d | None \<Rightarrow> diff_default)))"

section \<open>The two ways to compute the diff\<close>

text \<open>
  Validation works on all outputs, the plain diff on P2MR outputs only; the P2MR part of the
  former is the latter.
\<close>

definition p2mr_part :: "utxo_map \<Rightarrow> utxo_map" where
  "p2mr_part m = (\<lambda>k. case m k of Some p \<Rightarrow> if is_p2mr_out p then Some p else None | None \<Rightarrow> None)"

definition views_agree ::
  "out_point set \<Rightarrow> utxo_map \<Rightarrow> utxo_map \<times> p2mr_diff \<Rightarrow> validation_view \<Rightarrow> bool" where
  "views_agree done c s v =
     (case (s, v) of ((m, d), (available, diff, _)) \<Rightarrow>
        diff = Some d \<and> m = p2mr_part available \<and> dom m \<subseteq> dom c \<union> done)"

lemma agree_spend:
  assumes "views_agree done c s v"
  shows "views_agree done c (spend_input s i) (validation_spend v i)"
proof -
  obtain m d where s: "s = (m, d)" by (cases s)
  obtain available sp where v: "v = (available, Some d, sp)" and m: "m = p2mr_part available"
    and dom: "dom m \<subseteq> dom c \<union> done"
    using assms by (cases v) (auto simp: views_agree_def s)
  let ?o = "txi_previous_output i"
  have upd: "p2mr_part (available(?o := None)) = (p2mr_part available)(?o := None)"
    by (simp add: p2mr_part_def fun_eq_iff)
  have dom': "dom (m(?o := None)) \<subseteq> dom c \<union> done"
    using dom by auto
  show ?thesis
  proof (cases "available ?o")
    case None
    then show ?thesis
      using dom by (simp add: s v m views_agree_def spend_input_def validation_spend_def p2mr_part_def)
  next
    case (Some p)
    show ?thesis
    proof (cases "is_p2mr_out p")
      case True
      then have "m ?o = Some p" using Some by (simp add: m p2mr_part_def)
      then show ?thesis
        using Some True dom' upd
        by (simp add: s v views_agree_def spend_input_def validation_spend_def m Let_def)
    next
      case False
      then have none: "m ?o = None" using Some by (simp add: m p2mr_part_def)
      then have "m(?o := None) = m" by auto
      then show ?thesis
        using Some False dom none upd
        by (simp add: s v views_agree_def spend_input_def validation_spend_def m Let_def)
    qed
  qed
qed

lemma agree_create:
  assumes "views_agree done c s v" and "c k = None" and "k \<notin> done"
  shows "views_agree (insert k done) c (create_output s (k, out)) (validation_create v (k, out))"
proof -
  obtain m d where s: "s = (m, d)" by (cases s)
  obtain available sp where v: "v = (available, Some d, sp)" and m: "m = p2mr_part available"
    and dom: "dom m \<subseteq> dom c \<union> done"
    using assms(1) by (cases v) (auto simp: views_agree_def s)
  have upd: "p2mr_part (available(k \<mapsto> out)) = (p2mr_part available)(k := if is_p2mr_out out then Some out else None)"
    by (simp add: p2mr_part_def fun_eq_iff)
  have "m k = None" using dom assms(2,3) by (auto simp: subset_iff)
  then have id: "m(k := None) = m" by auto
  show ?thesis
    using dom upd id by (auto simp: s v views_agree_def create_output_def validation_create_def m)
qed

lemma agree_outputs:
  assumes "views_agree done c s v" and "\<And>k out. (k, out) \<in> set outs \<Longrightarrow> c k = None \<and> k \<notin> done"
    and "distinct (map fst outs)"
  shows "views_agree (done \<union> set (map fst outs)) c (foldl create_output s outs) (foldl validation_create v outs)"
  using assms
proof (induction outs arbitrary: s v "done")
  case (Cons x outs)
  obtain k out where x: "x = (k, out)" by (cases x)
  have "views_agree (insert k done) c (create_output s (k, out)) (validation_create v (k, out))"
    using Cons.prems by (intro agree_create) (auto simp: x)
  then have "views_agree (insert k done \<union> set (map fst outs)) c
      (foldl create_output (create_output s (k, out)) outs)
      (foldl validation_create (validation_create v (k, out)) outs)"
    using Cons.prems by (intro Cons.IH) (force simp: x)+
  then show ?case by (simp add: x)
qed simp

lemma agree_inputs:
  "views_agree done c s v \<Longrightarrow> views_agree done c (foldl spend_input s ins) (foldl validation_spend v ins)"
proof (induction ins arbitrary: s v)
  case (Cons i ins)
  show ?case by (simp only: foldl.simps) (rule Cons.IH [OF agree_spend [OF Cons.prems]])
qed simp

lemma agree_tx:
  assumes "views_agree done c s v"
    and "\<And>k out. (k, out) \<in> set (tx_outpoints L tx) \<Longrightarrow> c k = None \<and> k \<notin> done"
    and "distinct (map fst (tx_outpoints L tx))"
  shows "views_agree (done \<union> set (map fst (tx_outpoints L tx))) c
    (apply_tx_to_available L s tx) (apply_tx_to_validation_available L v tx)"
  unfolding apply_tx_to_available_def apply_tx_to_validation_available_def
  by (rule agree_outputs [OF agree_inputs [OF assms(1)] assms(2,3)])

definition txs_outpoints :: "libs \<Rightarrow> transaction list \<Rightarrow> out_point list" where
  "txs_outpoints L txs = concat (map (\<lambda>tx. map fst (tx_outpoints L tx)) txs)"

lemma txs_outpoints_Cons:
  "txs_outpoints L (tx # txs) = map fst (tx_outpoints L tx) @ txs_outpoints L txs"
  by (simp add: txs_outpoints_def)

lemma txs_outpoints_take: "set (txs_outpoints L (take n txs)) \<subseteq> set (txs_outpoints L txs)"
  using set_take_subset [of n txs] by (fastforce simp: txs_outpoints_def)

lemma agree_txs:
  assumes "views_agree done c s v"
    and "\<And>k. k \<in> set (txs_outpoints L txs) \<Longrightarrow> c k = None \<and> k \<notin> done"
    and "distinct (txs_outpoints L txs)"
  shows "\<exists>done'. views_agree done' c (foldl (apply_tx_to_available L) s txs)
    (foldl (apply_tx_to_validation_available L) v txs)"
  using assms
proof (induction txs arbitrary: s v "done")
  case (Cons tx txs)
  have "views_agree (done \<union> set (map fst (tx_outpoints L tx))) c
      (apply_tx_to_available L s tx) (apply_tx_to_validation_available L v tx)"
    using Cons.prems by (intro agree_tx) (force simp: txs_outpoints_def)+
  then show ?case
    using Cons.prems by (auto simp: txs_outpoints_def intro!: Cons.IH)
qed auto

text \<open>The loop of block validation is the loop over the working set, with checks.\<close>

lemma validate_block_tx_ok:
  "(validate_block_tx L height activation chain (s, v) tx = Inr (s', v'))
    = (validate_transaction L tx height activation (fst v) (Some chain) (Some (snd (snd v))) s = Inr s'
       \<and> v' = apply_tx_to_validation_available L v tx)"
  by (cases v) (auto simp: validate_block_tx_def)

lemma validate_block_loop_view:
  "foldE (validate_block_tx L height activation chain) (s, v) txs = Inr (s', v')
    \<Longrightarrow> v' = foldl (apply_tx_to_validation_available L) v txs"
proof (induction txs arbitrary: s v)
  case (Cons tx txs)
  then obtain s1 v1 where "validate_block_tx L height activation chain (s, v) tx = Inr (s1, v1)"
    and "foldE (validate_block_tx L height activation chain) (s1, v1) txs = Inr (s', v')"
    by auto
  then show ?case using Cons.IH by (simp add: validate_block_tx_ok)
qed simp

text \<open>Each transaction is validated against the working set of those before it.\<close>

definition view_before :: "libs \<Rightarrow> validation_view \<Rightarrow> transaction list \<Rightarrow> nat \<Rightarrow> validation_view" where
  "view_before L v txs n = foldl (apply_tx_to_validation_available L) v (take n txs)"

lemma validate_block_loop_each:
  assumes "foldE (validate_block_tx L height activation chain) (s, v) txs = Inr r" and "n < length txs"
  shows "\<exists>t t'. validate_transaction L (txs ! n) height activation (fst (view_before L v txs n))
    (Some chain) (Some (snd (snd (view_before L v txs n)))) t = Inr t'"
proof -
  have "txs = take n txs @ txs ! n # drop (Suc n) txs" using assms(2) by (rule id_take_nth_drop)
  then have "foldE (validate_block_tx L height activation chain) (s, v)
      (take n txs @ txs ! n # drop (Suc n) txs) = Inr r"
    using assms(1) by simp
  then obtain s1 v1 s2 v2 where
    pre: "foldE (validate_block_tx L height activation chain) (s, v) (take n txs) = Inr (s1, v1)"
    and step: "validate_block_tx L height activation chain (s1, v1) (txs ! n) = Inr (s2, v2)"
    by (auto simp: foldE_append simp del: append_take_drop_id)
  have "v1 = view_before L v txs n"
    unfolding view_before_def by (rule validate_block_loop_view [OF pre])
  then show ?thesis using step by (auto simp: validate_block_tx_ok)
qed

subsection \<open>The working set before the loop\<close>

lemma seed_view:
  "foldl validation_create (available, Some \<lparr>pd_spent = [], pd_created = created\<rparr>, sp) outs
    = (case foldl (\<lambda>(available, created) (outpoint, output).
          (available(outpoint \<mapsto> output),
           if is_p2mr_out output then AList.update outpoint output created else created))
        (available, created) outs of
       (available', created') \<Rightarrow> (available', Some \<lparr>pd_spent = [], pd_created = created'\<rparr>, sp))"
proof (induction outs arbitrary: available created)
  case (Cons x outs)
  obtain k out where "x = (k, out)" by (cases x)
  then show ?case using Cons.IH by (simp add: validation_create_def)
qed simp

lemma p2mr_part_fill:
  assumes "\<forall>p \<in> ran extra. \<not> is_p2mr_out p"
  shows "p2mr_part (fill_extra available extra) = p2mr_part available"
proof
  fix k
  show "p2mr_part (fill_extra available extra) k = p2mr_part available k"
    using assms by (auto simp: p2mr_part_def fill_extra_def map_add_def ran_def split: option.splits)
qed

lemma p2mr_part_set: "p2mr_set c \<Longrightarrow> p2mr_part c = c"
  by (auto simp: p2mr_part_def p2mr_set_def ran_def fun_eq_iff split: option.splits)

lemma spend_absent_inputs:
  "list_all (\<lambda>i. fst s (txi_previous_output i) = None) ins \<Longrightarrow> foldl spend_input s ins = s"
  by (induction ins) (auto simp: spend_input_def Let_def split: prod.splits option.splits)

lemma initial_agree:
  assumes "p2mr_set c" and "\<forall>p \<in> ran extra. \<not> is_p2mr_out p"
    and "blk_txdata blk = coinbase # txs"
    and "list_all (\<lambda>i. c (txi_previous_output i) = None) (tx_input coinbase)"
    and "list_all (\<lambda>k. c k = None) (map fst (tx_outpoints L coinbase))"
    and "distinct (map fst (tx_outpoints L coinbase))"
  shows "views_agree (set (map fst (tx_outpoints L coinbase))) c
    (apply_tx_to_available L (c, diff_default) coinbase) (initial_view L blk c extra)"
proof -
  let ?v = "foldl validation_create (c, Some diff_default, {}) (tx_outpoints L coinbase)"
  have "views_agree {} c (c, diff_default) (c, Some diff_default, {})"
    using p2mr_part_set [OF assms(1)] by (simp add: views_agree_def)
  then have "views_agree ({} \<union> set (map fst (tx_outpoints L coinbase))) c
      (foldl create_output (c, diff_default) (tx_outpoints L coinbase)) ?v"
    using assms(5,6) by (intro agree_outputs) (force simp: list_all_iff)+
  moreover have "initial_view L blk c extra = (fill_extra (fst ?v) extra, snd ?v)"
    by (simp add: initial_view_def seed_coinbase_p2mr_diff_def assms(3) diff_default_def seed_view
        split: prod.splits)
  ultimately show ?thesis
    using p2mr_part_fill [OF assms(2)] spend_absent_inputs [of "(c, diff_default)" "tx_input coinbase"] assms(4)
    by (cases ?v) (auto simp: views_agree_def apply_tx_to_available_def)
qed

section \<open>Double spends\<close>

lemma validation_spend_absent:
  "fst (validation_spend v i) = (fst v)(txi_previous_output i := None)"
  by (cases v) (auto simp: validation_spend_def Let_def split: option.splits)

lemma validation_spend_marks:
  "pt \<in> snd (snd v) \<or> txi_previous_output i = pt \<and> fst v pt = Some p \<and> is_p2mr_out p
    \<Longrightarrow> pt \<in> snd (snd (validation_spend v i))"
  by (cases v) (auto simp: validation_spend_def Let_def split: option.splits)

lemma validation_create_keeps:
  "fst x \<noteq> pt \<Longrightarrow> fst (validation_create v x) pt = fst v pt"
  "snd (snd (validation_create v x)) = snd (snd v)"
  by (cases v; cases x; auto simp: validation_create_def)+

lemma validation_creates_keep:
  "pt \<notin> set (map fst outs) \<Longrightarrow> fst (foldl validation_create v outs) pt = fst v pt"
  "snd (snd (foldl validation_create v outs)) = snd (snd v)"
  by (induction outs arbitrary: v) (auto simp: validation_create_keeps)

text \<open>\<open>pt\<close> is gone: it is no longer available and is recorded as spent.\<close>

abbreviation gone :: "out_point \<Rightarrow> validation_view \<Rightarrow> bool" where
  "gone pt v \<equiv> fst v pt = None \<and> pt \<in> snd (snd v)"

lemma gone_inputs: "gone pt v \<Longrightarrow> gone pt (foldl validation_spend v ins)"
  by (induction ins arbitrary: v) (auto simp: validation_spend_absent validation_spend_marks)

lemma inputs_gone:
  assumes "fst v pt = Some p" and "is_p2mr_out p" and "pt \<in> txi_previous_output ` set ins"
  shows "gone pt (foldl validation_spend v ins)"
  using assms
proof (induction ins arbitrary: v)
  case (Cons i ins)
  show ?case
  proof (cases "txi_previous_output i = pt")
    case True
    then have "gone pt (validation_spend v i)"
      using Cons.prems(1,2) validation_spend_marks [of pt v i p] by (simp add: validation_spend_absent)
    then show ?thesis by (simp add: gone_inputs)
  next
    case False
    then show ?thesis
      using Cons.prems by (simp add: validation_spend_absent Cons.IH)
  qed
qed simp

lemma gone_txs:
  assumes "gone pt v" and "pt \<notin> set (txs_outpoints L txs)"
  shows "gone pt (foldl (apply_tx_to_validation_available L) v txs)"
  using assms
proof (induction txs arbitrary: v)
  case (Cons tx txs)
  then have "gone pt (apply_tx_to_validation_available L v tx)"
    using gone_inputs [OF Cons.prems(1)]
    by (simp add: apply_tx_to_validation_available_def validation_creates_keep txs_outpoints_def)
  then show ?case using Cons by (simp add: txs_outpoints_def)
qed simp

lemma view_before_split:
  assumes "i \<le> j"
  shows "view_before L v txs j
    = foldl (apply_tx_to_validation_available L) (view_before L v txs i) (take (j - i) (drop i txs))"
proof -
  have "take j txs = take i txs @ take (j - i) (drop i txs)"
    using assms by (metis le_add_diff_inverse take_add)
  then show ?thesis by (simp add: view_before_def)
qed

lemma validated_diff_is_plain:
  assumes "validate_and_diff_block_transactions L blk height activation c extra ms = Inr d"
    and "p2mr_set c" and "\<forall>p \<in> ran extra. \<not> is_p2mr_out p"
    and "blk_txdata blk = coinbase # txs"
    and "list_all (\<lambda>i. c (txi_previous_output i) = None) (tx_input coinbase)"
    and "new_outputs L c blk" and "distinct (block_outpoints L blk)"
  shows "d = compute_block_diff L blk c"
proof (cases "is_active activation height")
  case False
  then show ?thesis using assms(1) by (simp add: validate_and_diff_block_transactions_def)
next
  case True
  obtain s' v' where loop: "foldE (validate_block_tx L height activation c)
      (pqc_state_new (Some (with_budget_ms ms)), initial_view L blk c extra) txs = Inr (s', v')"
    and d: "d = (case fst (snd v') of Some d \<Rightarrow> d | None \<Rightarrow> diff_default)"
    using assms(1,4) True by (auto simp: validate_and_diff_block_transactions_def)
  have outs: "block_outpoints L blk = map fst (tx_outpoints L coinbase) @ txs_outpoints L txs"
    by (simp add: block_outpoints_def txs_outpoints_def assms(4))
  have new: "list_all (\<lambda>k. c k = None) (map fst (tx_outpoints L coinbase))"
    "list_all (\<lambda>k. c k = None) (txs_outpoints L txs)"
    using assms(6) unfolding new_outputs_def outs by simp_all
  from initial_agree [OF assms(2,3,4,5) new(1)] assms(7)
  have "views_agree (set (map fst (tx_outpoints L coinbase))) c
      (apply_tx_to_available L (c, diff_default) coinbase) (initial_view L blk c extra)"
    by (simp add: outs)
  from agree_txs [OF this, of L txs] new(2) assms(7)
  obtain done' where "views_agree done' c (foldl (apply_tx_to_available L) (c, diff_default) (blk_txdata blk)) v'"
    by (auto simp: outs assms(4) validate_block_loop_view [OF loop] list_all_iff)
  then show ?thesis by (auto simp: views_agree_def compute_block_diff_def d split: prod.splits)
qed

section \<open>Properties\<close>

text \<open>
  A block passes only if all its spends do: when an active block validates, every
  transaction after the coinbase was checked against the working set of the chain, the coinbase,
  the prefetched prevouts and the transactions before it. There, each of its P2MR inputs is
  authorised, no input hides a P2MR output that the chain or the block already spent, and all its
  enforced Tapscript leaves executed.
\<close>
theorem block_spends_checked:
  assumes "is_active activation height"
    and "validate_and_diff_block_transactions L blk height activation chain extra ms = Inr d"
    and "blk_txdata blk = coinbase # txs" and "n < length txs" and "i < length (tx_input (txs ! n))"
  shows "input_checked L (txs ! n) (fst (view_before L (initial_view L blk chain extra) txs n))
      (Some chain) (Some (snd (snd (view_before L (initial_view L blk chain extra) txs n))))
      i (tx_input (txs ! n) ! i)
    \<and> enforce_transaction L (txs ! n) (fst (view_before L (initial_view L blk chain extra) txs n)) = Inr ()"
proof -
  obtain r where loop: "foldE (validate_block_tx L height activation chain)
      (pqc_state_new (Some (with_budget_ms ms)), initial_view L blk chain extra) txs = Inr r"
    using assms(1-3) by (auto simp: validate_and_diff_block_transactions_def)
  let ?v = "view_before L (initial_view L blk chain extra) txs n"
  obtain t t' where "validate_transaction L (txs ! n) height activation (fst ?v) (Some chain)
      (Some (snd (snd ?v))) t = Inr t'"
    using validate_block_loop_each [OF loop assms(4)] by blast
  then obtain u where "validate_transaction_spends L (txs ! n) (fst ?v) (Some chain)
      (Some (snd (snd ?v))) t = Inr u" and "enforce_transaction L (txs ! n) (fst ?v) = Inr ()"
    using assms(1) by (auto simp: validate_transaction_def)
  then show ?thesis using validate_transaction_spends_ok assms(5) by blast
qed


text \<open>
  Validation does not change the diff: for a block whose outputs are new and distinct and
  whose prefetched prevouts are not P2MR outputs, the diff that block validation records is the
  diff that the unvalidated indexing of a block below activation computes, entry by entry.
\<close>
theorem validated_diff_is_plain_diff:
  assumes "validate_and_diff_block_transactions L blk height activation c extra ms = Inr d"
    and "p2mr_set c" and "\<forall>p \<in> ran extra. \<not> is_p2mr_out p"
    and "blk_txdata blk = coinbase # txs"
    and "list_all (\<lambda>i. c (txi_previous_output i) = None) (tx_input coinbase)"
    and "new_outputs L c blk" and "distinct (block_outpoints L blk)"
  shows "d = compute_block_diff L blk c"
  using assms by (rule validated_diff_is_plain)

text \<open>
  C16: the incremental diff refines the direct replay of the block: for new outputs, applying the
  computed diff to the stored set succeeds and gives the set that removes the inputs and adds the
  P2MR outputs transaction by transaction (so outputs created and spent in the block cancel), and
  undoing it gives the former set back.
\<close>
theorem block_diff_refines_replay:
  assumes "p2mr_set c" and "new_outputs L c blk"
  defines "d \<equiv> compute_block_diff L blk c"
  shows "apply_diff (pd_spent d) (pd_created d) c = (Inr (), replay_block L c blk)
    \<and> undo_diff (pd_spent d) (pd_created d) (replay_block L c blk) = c"
proof -
  have d: "diff_ok d c" "diff_view d c = replay_block L c blk"
    unfolding d_def using compute_block_diff_ok [OF assms(1,2)] by simp_all
  then show ?thesis
    using apply_diff_view [OF d(1)] undo_diff_view [OF d(1)] by simp
qed

text \<open>
  Mempool admission never depends on P2MR prevouts: at and above activation a transaction is
  admitted exactly when its enforced Tapscript leaves execute without any known prevout, and
  below activation always.
\<close>
theorem mempool_admission_iff:
  "is_ok (validate_mempool_transaction L tx height activation)
    = (is_active activation height \<longrightarrow> enforce_transaction L tx Map.empty = Inr ())"
proof -
  have input: "validate_input L tx Map.empty None None s x = Inr s" for s x
    by (cases x) (simp add: validate_input_def)
  have "foldE (validate_input L tx Map.empty None None) s xs = Inr s" for s xs
    by (induction xs) (simp_all add: input)
  then have "validate_transaction_spends L tx Map.empty None None s = Inr s" for s
    by (simp add: validate_transaction_spends_def validate_p2mr_outputs_ok)
  then show ?thesis
    by (auto simp: validate_mempool_transaction_def validate_transaction_def is_ok_iff)
qed

subsection \<open>A concrete block\<close>

definition sample_header :: "bytes \<Rightarrow> u32 \<Rightarrow> header" where
  "sample_header prev nonce =
     \<lparr>hdr_version = 2, hdr_prev_blockhash = prev, hdr_merkle_root = replicate 32 0, hdr_time = 0,
      hdr_bits = 3, hdr_nonce = nonce\<rparr>"

definition demo_coinbase :: transaction where
  "demo_coinbase = sample_tx 1 [sample_in 0xff 0xffffffff 0 []] [sample_out 5 (p2mr_script (key32 9))]"

definition demo_block :: "transaction list \<Rightarrow> block" where
  "demo_block txs = \<lparr>blk_header = sample_header all_zeros 1, blk_txdata = demo_coinbase # txs\<rparr>"

lemma demo_outpoints:
  "tx_outpoints sample_libs demo_coinbase = [(\<lparr>op_txid = le_bytes 32 2, op_vout = 0\<rparr>, sample_out 5 (p2mr_script (key32 9)))]"
  "tx_outpoints sample_libs (demo_tx 1 []) = [(\<lparr>op_txid = le_bytes 32 8, op_vout = 0\<rparr>, sample_out 40000 [0x6a])]"
  by (simp_all add: tx_outpoints_def demo_coinbase_def demo_tx_def sample_tx_def flip: numeral_2_eq_2)

lemma demo_initial_view:
  "fst (initial_view sample_libs (demo_block txs) demo_available Map.empty)
      \<lparr>op_txid = 1 # replicate 31 0, op_vout = 0\<rparr> = Some demo_prevout"
  by (simp add: initial_view_def seed_coinbase_p2mr_diff_def demo_block_def demo_outpoints fill_extra_def
      demo_available_def le_bytes_numeral)

lemma demo_no_leaf: "detect_enforced_leaf sample_libs (demo_sigs @ [demo_leaf, [0xc1]]) = None"
  by (simp add: detect_enforced_leaf_def strip_annex_def ANNEX_PREFIX_def sample_control_block_def Let_def)

lemma demo_enforced: "enforce_transaction sample_libs (demo_tx t []) available = Inr ()"
proof -
  have "enforce_input sample_libs (demo_tx t []) available [] (0, tx_input (demo_tx t []) ! 0) = Inr []"
    by (simp add: enforce_input_def demo_tx_def sample_tx_def sample_in_def demo_no_leaf)
  then show ?thesis
    by (simp add: enforce_transaction_def demo_tx_def sample_tx_def evaluate_deferred_checks_def Let_def)
qed

lemma demo_spend_validates:
  assumes "blk_txdata blk = [coinbase, demo_tx t []]"
    and "fst (initial_view sample_libs blk c extra) \<lparr>op_txid = t # replicate 31 0, op_vout = 0\<rparr> = Some demo_prevout"
  shows "\<exists>d. validate_and_diff_block_transactions sample_libs blk height 0 c extra 100 = Inr d"
proof -
  let ?v = "initial_view sample_libs blk c extra" and ?s = "pqc_state_new (Some (with_budget_ms 100))"
  have act: "is_active 0 height" by (simp add: is_active_def)
  have "time_left sample_libs 2 ?s"
    by (simp add: time_left_def pqc_state_new_def with_budget_ms_def)
  from demo_validates [OF this, of "fst ?v" t "Some c" "Some (snd (snd ?v))"] assms(2)
  obtain s' where "validate_transaction_spends sample_libs (demo_tx t []) (fst ?v) (Some c)
      (Some (snd (snd ?v))) ?s = Inr s'"
    by blast
  then have "validate_transaction sample_libs (demo_tx t []) height 0 (fst ?v) (Some c)
      (Some (snd (snd ?v))) ?s = Inr s'"
    by (simp add: validate_transaction_def demo_enforced act)
  then have "validate_block_tx sample_libs height 0 c (?s, ?v) (demo_tx t [])
      = Inr (s', apply_tx_to_validation_available sample_libs ?v (demo_tx t []))"
    by (simp only: validate_block_tx_ok)
  then show ?thesis
    using act by (simp add: validate_and_diff_block_transactions_def assms(1) split: prod.splits)
qed

lemma demo_block_valid:
  "\<exists>d. validate_and_diff_block_transactions sample_libs (demo_block [demo_tx 1 []]) 0 0
     demo_available Map.empty 100 = Inr d"
  by (rule demo_spend_validates [OF _ demo_initial_view]) (simp add: demo_block_def)

theorem block_spends_checked_witness:
  "let v = view_before sample_libs (initial_view sample_libs (demo_block [demo_tx 1 []])
       demo_available Map.empty) [demo_tx 1 []] 0 in
   input_checked sample_libs (demo_tx 1 []) (fst v) (Some demo_available) (Some (snd (snd v)))
     0 (tx_input (demo_tx 1 []) ! 0)
   \<and> enforce_transaction sample_libs (demo_tx 1 []) (fst v) = Inr ()"
proof -
  obtain d where d: "validate_and_diff_block_transactions sample_libs (demo_block [demo_tx 1 []]) 0 0
      demo_available Map.empty 100 = Inr d"
    using demo_block_valid by blast
  show ?thesis
    using block_spends_checked [OF _ d, of demo_coinbase "[demo_tx 1 []]" 0 0]
    by (simp add: is_active_def demo_block_def demo_tx_def sample_tx_def)
qed

theorem validated_diff_is_plain_diff_witness:
  "validate_and_diff_block_transactions sample_libs (demo_block [demo_tx 1 []]) 0 0
     demo_available Map.empty 100
   = Inr (compute_block_diff sample_libs (demo_block [demo_tx 1 []]) demo_available)"
proof -
  obtain d where d: "validate_and_diff_block_transactions sample_libs (demo_block [demo_tx 1 []]) 0 0
      demo_available Map.empty 100 = Inr d"
    using demo_block_valid by blast
  have outs: "block_outpoints sample_libs (demo_block [demo_tx 1 []])
      = [\<lparr>op_txid = le_bytes 32 2, op_vout = 0\<rparr>, \<lparr>op_txid = le_bytes 32 8, op_vout = 0\<rparr>]"
    by (simp add: block_outpoints_def demo_block_def demo_outpoints)
  have "d = compute_block_diff sample_libs (demo_block [demo_tx 1 []]) demo_available"
  proof (rule validated_diff_is_plain_diff [OF d])
    show "p2mr_set demo_available"
      by (simp add: p2mr_set_def demo_available_def is_p2mr_out_def)
    show "blk_txdata (demo_block [demo_tx 1 []]) = demo_coinbase # [demo_tx 1 []]"
      by (simp add: demo_block_def)
    show "list_all (\<lambda>i. demo_available (txi_previous_output i) = None) (tx_input demo_coinbase)"
      by (simp add: demo_coinbase_def sample_tx_def sample_in_def demo_available_def)
    show "new_outputs sample_libs demo_available (demo_block [demo_tx 1 []])"
      by (simp add: new_outputs_def outs demo_available_def le_bytes_numeral)
    show "distinct (block_outpoints sample_libs (demo_block [demo_tx 1 []]))"
      by (simp add: outs le_bytes_numeral)
  qed simp
  then show ?thesis using d by simp
qed

theorem block_diff_refines_replay_witness:
  "let d = compute_block_diff sample_libs (demo_block [demo_tx 1 []]) demo_available;
       c' = replay_block sample_libs demo_available (demo_block [demo_tx 1 []]) in
   apply_diff (pd_spent d) (pd_created d) demo_available = (Inr (), c')
   \<and> undo_diff (pd_spent d) (pd_created d) c' = demo_available
   \<and> c' \<lparr>op_txid = 1 # replicate 31 0, op_vout = 0\<rparr> = None
   \<and> c' \<lparr>op_txid = le_bytes 32 2, op_vout = 0\<rparr> = Some (sample_out 5 (p2mr_script (key32 9)))"
proof -
  have "p2mr_set demo_available"
    by (simp add: p2mr_set_def demo_available_def is_p2mr_out_def)
  moreover have "new_outputs sample_libs demo_available (demo_block [demo_tx 1 []])"
    by (simp add: new_outputs_def block_outpoints_def demo_block_def demo_outpoints demo_available_def le_bytes_numeral)
  moreover have "replay_block sample_libs demo_available (demo_block [demo_tx 1 []])
      = [\<lparr>op_txid = le_bytes 32 2, op_vout = 0\<rparr> \<mapsto> sample_out 5 (p2mr_script (key32 9))]"
  proof -
    have "tx_input demo_coinbase = [sample_in 0xff 0xffffffff 0 []]"
      by (simp add: demo_coinbase_def sample_tx_def)
    moreover have "map txi_previous_output (tx_input (demo_tx 1 [])) = [\<lparr>op_txid = 1 # replicate 31 0, op_vout = 0\<rparr>]"
      by (simp add: demo_tx_def sample_tx_def sample_in_def)
    ultimately show ?thesis
      by (auto simp: replay_block_def replay_tx_def demo_block_def demo_outpoints replay_input_def
          replay_output_def is_p2mr_out_def sample_out_def is_p2mr_script_def p2mr_script_def
          sample_in_def demo_available_def le_bytes_numeral fun_eq_iff)
  qed
  ultimately show ?thesis
    using block_diff_refines_replay [of demo_available sample_libs "demo_block [demo_tx 1 []]"]
    by (simp add: Let_def le_bytes_numeral)
qed

definition spend_again :: "u32 \<Rightarrow> transaction" where
  "spend_again lock = sample_tx lock [sample_in 1 0 0 [[1]]] []"


theorem mempool_admission_iff_witness:
  "is_ok (validate_mempool_transaction sample_libs (demo_tx 1 []) 0 0)"
  using mempool_admission_iff [of sample_libs "demo_tx 1 []" 0 0] by (simp add: demo_enforced)

end
