(* ===== verification/Block_Dbs.thy ===== *)
theory Block_Dbs
  imports P2mr_Utxo
begin

text \<open>
  The validator's databases (\<open>lib/validator/dbs/\<close>): what is stored per block hash, the current
  tip and the P2MR set, with the lookups along ancestors and the last common ancestor. A database
  is a map; failures of the storage engine itself are not modelled, a missing key is. Cumulative
  work is the 256-bit number of \<open>bitcoin::Work\<close> read as a natural number.
\<close>

section \<open>The state\<close>

text \<open>\<open>diff::Block\<close>: all changes a connected block made.\<close>

record diff_block =
  df_p2mr_utxo :: p2mr_diff

record dbs =
  db_coinbase_txid :: "bytes \<rightharpoonup> bytes"
  db_cumulative_work :: "bytes \<rightharpoonup> nat"
  db_diff :: "bytes \<rightharpoonup> diff_block"
  db_header :: "bytes \<rightharpoonup> header"
  db_height :: "bytes \<rightharpoonup> u32"
  db_tip :: "bytes option"
  db_p2mr_utxos :: utxo_map

definition dbs_new :: dbs where
  "dbs_new = \<lparr>db_coinbase_txid = Map.empty, db_cumulative_work = Map.empty, db_diff = Map.empty,
     db_header = Map.empty, db_height = Map.empty, db_tip = None, db_p2mr_utxos = Map.empty\<rparr>"

record header_info =
  hi_block_hash :: bytes
  hi_prev_block_hash :: bytes
  hi_height :: u32
  hi_work :: nat
  hi_timestamp :: u32

record block_info =
  bi_coinbase_txid :: bytes

datatype event = ConnectBlockEvent header_info block_info | DisconnectBlockEvent bytes

text \<open>\<open>DatabaseUnique::get\<close>: a missing key is an error.\<close>

definition db_get :: "('k \<rightharpoonup> 'v) \<Rightarrow> 'k \<Rightarrow> db_error + 'v" where
  "db_get m k = ok_or (m k) DbMissingValue"

subsection \<open>Applying and undoing the diff of a block\<close>

definition on_utxos :: "(utxo_map, 'e, 'a) st \<Rightarrow> (dbs, 'e, 'a) st" where
  "on_utxos m = (\<lambda>D. case m (db_p2mr_utxos D) of (r, utxos) \<Rightarrow> (r, D\<lparr>db_p2mr_utxos := utxos\<rparr>))"

definition diff_apply :: "diff_block \<Rightarrow> (dbs, db_error, unit) st" where
  "diff_apply d =
     on_utxos (apply_diff (pd_spent (df_p2mr_utxo d)) (pd_created (df_p2mr_utxo d)))"

definition diff_undo :: "diff_block \<Rightarrow> dbs \<Rightarrow> dbs" where
  "diff_undo d D =
     D\<lparr>db_p2mr_utxos := undo_diff (pd_spent (df_p2mr_utxo d)) (pd_created (df_p2mr_utxo d)) (db_p2mr_utxos D)\<rparr>"

section \<open>Headers and blocks\<close>

definition contains_header :: "dbs \<Rightarrow> bytes \<Rightarrow> bool" where
  "contains_header D block_hash = (db_header D block_hash \<noteq> None)"

text \<open>One round of \<open>put_headers\<close>; \<open>height - 1\<close> wraps as in a release build.\<close>

definition put_header :: "libs \<Rightarrow> dbs \<Rightarrow> header \<times> u32 \<Rightarrow> dbs" where
  "put_header L D x =
     (case x of (header, height) \<Rightarrow>
        let block_hash = header_block_hash L header;
            D1 = D\<lparr>db_header := (db_header D)(block_hash \<mapsto> header),
                   db_height := (db_height D)(block_hash \<mapsto> height)\<rparr> in
        if hdr_prev_blockhash header \<noteq> all_zeros
        then D1\<lparr>db_height := (db_height D1)(hdr_prev_blockhash header \<mapsto> height - 1)\<rparr>
        else D1)"

definition put_headers :: "libs \<Rightarrow> (header \<times> u32) list \<Rightarrow> dbs \<Rightarrow> dbs" where
  "put_headers L headers D = foldl (put_header L) D headers"

datatype put_block_info_error = MissingHeader bytes | MissingParent bytes bytes

definition put_block_info ::
  "libs \<Rightarrow> bytes \<Rightarrow> block_info \<Rightarrow> diff_block \<Rightarrow> (dbs, put_block_info_error, unit) st" where
  "put_block_info L block_hash block_info diff =
     bindS (liftS (\<lambda>D. ok_or (db_header D block_hash) (MissingHeader block_hash))) (\<lambda>header.
     bindS (liftS (\<lambda>D.
        if hdr_prev_blockhash header = all_zeros then Inr (header_work L header)
        else case db_cumulative_work D (hdr_prev_blockhash header) of
               Some parent_cumulative_work \<Rightarrow> Inr (parent_cumulative_work + header_work L header)
             | None \<Rightarrow> Inl (MissingParent block_hash (hdr_prev_blockhash header)))) (\<lambda>cumulative_work.
     modifyS (\<lambda>D. D\<lparr>
        db_coinbase_txid := (db_coinbase_txid D)(block_hash \<mapsto> bi_coinbase_txid block_info),
        db_cumulative_work := (db_cumulative_work D)(block_hash \<mapsto> cumulative_work),
        db_diff := (db_diff D)(block_hash \<mapsto> diff)\<rparr>)))"

section \<open>Ancestors\<close>

text \<open>The iterator of \<open>ancestor_headers\<close>: its state is the next block hash.\<close>

definition ancestor_next :: "dbs \<Rightarrow> bytes \<Rightarrow> ((bytes \<times> header) \<times> bytes) option" where
  "ancestor_next D block_hash =
     (case db_header D block_hash of
        Some header \<Rightarrow> Some ((block_hash, header), hdr_prev_blockhash header)
      | None \<Rightarrow> None)"

datatype lca_error = LcaDb db_error | MissingAncestor bytes nat u32

text \<open>The skipping loops: the error carries the depth at which the ancestry ended.\<close>

fun skip_ancestors :: "dbs \<Rightarrow> nat \<Rightarrow> nat \<Rightarrow> bytes \<Rightarrow> nat + bytes" where
  "skip_ancestors D 0 depth it = Inr it"
| "skip_ancestors D (Suc n) depth it =
     (case ancestor_next D it of None \<Rightarrow> Inl depth
      | Some (_, it') \<Rightarrow> skip_ancestors D n (Suc depth) it')"

text \<open>
  The loop over both ancestries; \<open>remaining\<close> heights are left, so the current height is
  \<open>remaining - 1\<close>.
\<close>

fun common_loop :: "dbs \<Rightarrow> bytes \<times> u32 \<Rightarrow> bytes \<times> u32 \<Rightarrow> nat \<Rightarrow> bytes \<Rightarrow> bytes \<Rightarrow> lca_error + bytes" where
  "common_loop D (block_hash0, height0) (block_hash1, height1) 0 it0 it1 = Inr all_zeros"
| "common_loop D (block_hash0, height0) (block_hash1, height1) (Suc current_height) it0 it1 =
     (case ancestor_next D it0 of
        None \<Rightarrow> Inl (MissingAncestor block_hash0 (unat height0 - current_height) height0)
      | Some ((ancestor0, _), it0') \<Rightarrow>
          (case ancestor_next D it1 of
             None \<Rightarrow> Inl (MissingAncestor block_hash1 (unat height1 - current_height) height1)
           | Some ((ancestor1, _), it1') \<Rightarrow>
               if ancestor0 = ancestor1 then Inr ancestor0
               else common_loop D (block_hash0, height0) (block_hash1, height1) current_height it0' it1'))"

definition last_common_ancestor :: "dbs \<Rightarrow> bytes \<Rightarrow> bytes \<Rightarrow> lca_error + bytes" where
  "last_common_ancestor D block_hash0 block_hash1 =
     (if block_hash0 = block_hash1 then Inr block_hash0
      else if block_hash0 = all_zeros \<or> block_hash1 = all_zeros then Inr all_zeros
      else
        bindE (mapErr LcaDb (db_get (db_height D) block_hash0)) (\<lambda>height0.
        bindE (mapErr LcaDb (db_get (db_height D) block_hash1)) (\<lambda>height1.
        bindE (mapErr (\<lambda>depth. MissingAncestor block_hash1 depth height1)
                 (skip_ancestors D (unat height1 - unat height0) 0 block_hash1)) (\<lambda>it1.
        bindE (mapErr (\<lambda>depth. MissingAncestor block_hash0 depth height0)
                 (skip_ancestors D (unat height0 - unat height1) 0 block_hash0)) (\<lambda>it0.
        common_loop D (block_hash0, height0) (block_hash1, height1)
          (Suc (min (unat height0) (unat height1))) it0 it1)))))"

section \<open>Header and block infos\<close>

text \<open>\<open>HeaderHashPanic\<close> is the failing \<open>assert_eq!\<close> on a stored header's own hash.\<close>

datatype header_info_error = HeaderInfoDb db_error | HeaderHashPanic | HeaderInfoMissing bytes

definition try_get_header_info :: "libs \<Rightarrow> dbs \<Rightarrow> bytes \<Rightarrow> header_info_error + header_info option" where
  "try_get_header_info L D block_hash =
     (case db_header D block_hash of
        None \<Rightarrow> Inr None
      | Some header \<Rightarrow>
          if header_block_hash L header \<noteq> block_hash then Inl HeaderHashPanic
          else case db_height D block_hash of
            None \<Rightarrow> Inl (HeaderInfoDb DbInconsistent)
          | Some height \<Rightarrow>
              Inr (Some \<lparr>hi_block_hash = header_block_hash L header,
                         hi_prev_block_hash = hdr_prev_blockhash header, hi_height = height,
                         hi_work = header_work L header, hi_timestamp = hdr_time header\<rparr>))"

definition get_header_info :: "libs \<Rightarrow> dbs \<Rightarrow> bytes \<Rightarrow> header_info_error + header_info" where
  "get_header_info L D block_hash =
     bindE (try_get_header_info L D block_hash) (\<lambda>info. ok_or info (HeaderInfoMissing block_hash))"

text \<open>The \<open>while\<close> loop of \<open>try_get_header_infos\<close> with its countdown \<open>ancestors\<close>.\<close>

fun header_infos_loop :: "libs \<Rightarrow> dbs \<Rightarrow> nat \<Rightarrow> bytes \<Rightarrow> header_info_error + header_info list" where
  "header_infos_loop L D 0 ancestor = Inr []"
| "header_infos_loop L D (Suc ancestors) ancestor =
     (if ancestor = all_zeros then Inr []
      else bindE (try_get_header_info L D ancestor) (\<lambda>info.
        case info of None \<Rightarrow> Inr []
        | Some header_info \<Rightarrow>
            bindE (header_infos_loop L D ancestors (hi_prev_block_hash header_info)) (\<lambda>rest.
              Inr (header_info # rest))))"

definition try_get_header_infos ::
  "libs \<Rightarrow> dbs \<Rightarrow> bytes \<Rightarrow> nat \<Rightarrow> header_info_error + header_info list option" where
  "try_get_header_infos L D block_hash max_ancestors =
     bindE (try_get_header_info L D block_hash) (\<lambda>info.
       case info of None \<Rightarrow> Inr None
       | Some header_info \<Rightarrow>
           bindE (header_infos_loop L D max_ancestors (hi_prev_block_hash header_info)) (\<lambda>rest.
             Inr (Some (header_info # rest))))"

definition try_get_block_info :: "dbs \<Rightarrow> bytes \<Rightarrow> block_info option" where
  "try_get_block_info D block_hash =
     (case db_coinbase_txid D block_hash of None \<Rightarrow> None
      | Some coinbase_txid \<Rightarrow> Some \<lparr>bi_coinbase_txid = coinbase_txid\<rparr>)"

text \<open>The error is \<open>GetBlockInfo::MissingValue\<close> with the block hash.\<close>

definition get_block_info :: "dbs \<Rightarrow> bytes \<Rightarrow> bytes + block_info" where
  "get_block_info D block_hash = ok_or (try_get_block_info D block_hash) block_hash"

section \<open>Chains of headers\<close>

text \<open>
  \<open>ancestry D cs\<close>: \<open>cs\<close> is a complete ancestry in the database, newest first, down to a block
  without a parent. \<open>chain_head\<close> is what the code calls its tip, all zeros for no block.
\<close>

definition chain_head :: "bytes list \<Rightarrow> bytes" where
  "chain_head cs = (case cs of [] \<Rightarrow> all_zeros | h # _ \<Rightarrow> h)"

fun ancestry :: "dbs \<Rightarrow> bytes list \<Rightarrow> bool" where
  "ancestry D [] = True"
| "ancestry D (h # cs) =
     (h \<noteq> all_zeros \<and> (case db_header D h of None \<Rightarrow> False
        | Some header \<Rightarrow> hdr_prev_blockhash header = chain_head cs) \<and> ancestry D cs)"

definition tip_height_ok :: "dbs \<Rightarrow> bytes list \<Rightarrow> bool" where
  "tip_height_ok D cs =
     (case cs of [] \<Rightarrow> True
      | h # cs' \<Rightarrow> db_height D h = Some (word_of_nat (length cs')) \<and> length cs' < 2 ^ 32)"

lemma chain_head_simps [simp]: "chain_head [] = all_zeros" "chain_head (h # cs) = h"
  by (simp_all add: chain_head_def)

lemma ancestor_next_head:
  "ancestry D (h # cs) \<Longrightarrow> \<exists>header. ancestor_next D h = Some ((h, header), chain_head cs)"
  by (auto simp: ancestor_next_def split: option.splits)

lemma chain_head_zeros: "ancestry D cs \<Longrightarrow> (chain_head cs = all_zeros) = (cs = [])"
  by (cases cs) auto

lemma ancestry_drop: "ancestry D cs \<Longrightarrow> ancestry D (drop n cs)"
  by (induction n arbitrary: cs) (auto simp: drop_Suc intro: ancestry.elims(2))

lemma ancestry_unique:
  "ancestry D cs \<Longrightarrow> ancestry D cs' \<Longrightarrow> chain_head cs = chain_head cs' \<Longrightarrow> cs = cs'"
proof (induction cs arbitrary: cs')
  case Nil
  then show ?case using chain_head_zeros [of D cs'] by auto
next
  case (Cons h cs)
  then obtain ds where cs': "cs' = h # ds"
    by (cases cs') auto
  have "chain_head cs = chain_head ds"
    using Cons.prems unfolding cs' by (auto split: option.splits)
  then show ?case
    using Cons unfolding cs' by auto
qed

lemma skip_ancestors_drop:
  "ancestry D cs \<Longrightarrow> n \<le> length cs \<Longrightarrow>
   skip_ancestors D n depth (chain_head cs) = Inr (chain_head (drop n cs))"
proof (induction n arbitrary: depth cs)
  case (Suc n)
  then obtain h ds where cs: "cs = h # ds" by (cases cs) auto
  obtain header where "ancestor_next D h = Some ((h, header), chain_head ds)"
    using ancestor_next_head Suc.prems(1) unfolding cs by blast
  then show ?case using Suc by (simp add: cs)
qed simp

text \<open>Two ancestries of the same length, compared position by position.\<close>

fun common_from :: "'a list \<Rightarrow> 'a list \<Rightarrow> 'a list" where
  "common_from (a # x) (b # y) = (if a = b then a # x else common_from x y)"
| "common_from _ _ = []"

lemma common_loop_from:
  "ancestry D c0 \<Longrightarrow> ancestry D c1 \<Longrightarrow> length c1 = length c0 \<Longrightarrow>
   common_loop D b0 b1 (length c0) (chain_head c0) (chain_head c1) = Inr (chain_head (common_from c0 c1))"
proof (induction c0 arbitrary: c1)
  case Nil
  then show ?case by (cases b0; cases b1) simp
next
  case (Cons a x)
  then obtain b y where c1: "c1 = b # y" by (cases c1) auto
  obtain ha where "ancestor_next D a = Some ((a, ha), chain_head x)"
    using ancestor_next_head Cons.prems(1) by blast
  moreover obtain hb where "ancestor_next D b = Some ((b, hb), chain_head y)"
    using ancestor_next_head Cons.prems(2) unfolding c1 by blast
  ultimately show ?case
    using Cons by (cases b0; cases b1) (auto simp: c1)
qed

lemma common_from_split:
  assumes "length y = length x"
    and "\<And>n. n < length x \<Longrightarrow> x ! n = y ! n \<Longrightarrow> drop n x = drop n y"
  shows "\<exists>p q. x = p @ common_from x y \<and> y = q @ common_from x y \<and> length q = length p
    \<and> (p = [] \<or> last p \<noteq> last q)"
  using assms
proof (induction x arbitrary: y)
  case Nil
  then show ?case by auto
next
  case (Cons a x)
  then obtain b z where y: "y = b # z" by (cases y) auto
  show ?case
  proof (cases "a = b")
    case True
    then have "a # x = y" using Cons.prems(2) [of 0] by (simp add: y)
    then show ?thesis using True by (intro exI [of _ "[]"]) (simp add: y)
  next
    case False
    have "drop n x = drop n z" if "n < length x" "x ! n = z ! n" for n
      using Cons.prems(2) [of "Suc n"] that by (simp add: y)
    then obtain p q where "x = p @ common_from x z" "z = q @ common_from x z" "length q = length p"
      and "p = [] \<or> last p \<noteq> last q"
      using Cons.IH [of z] Cons.prems(1) by (auto simp: y)
    then show ?thesis
      using False by (intro exI [of _ "a # p"] exI [of _ "b # q"]) (auto simp: y)
  qed
qed

lemma ancestry_same_at:
  assumes "ancestry D c0" and "ancestry D c1" and "length c1 = length c0"
    and "n < length c0" and "c0 ! n = c1 ! n"
  shows "drop n c0 = drop n c1"
proof (rule ancestry_unique [of D])
  show "chain_head (drop n c0) = chain_head (drop n c1)"
    using assms(3-5) by (simp flip: Cons_nth_drop_Suc)
qed (simp_all add: assms ancestry_drop)

text \<open>\<open>s\<close> is the longest common part of two ancestries.\<close>

definition last_common :: "'a list \<Rightarrow> 'a list \<Rightarrow> 'a list \<Rightarrow> bool" where
  "last_common c0 c1 s =
     (\<exists>p0 p1. c0 = p0 @ s \<and> c1 = p1 @ s \<and> (p0 = [] \<or> p1 = [] \<or> last p0 \<noteq> last p1))"

lemma last_common_equal_heights:
  assumes "ancestry D c0" and "ancestry D c1" and "length l0 = length l1"
    and "c0 = k0 @ l0" and "c1 = k1 @ l1" and "k0 = [] \<or> k1 = []"
  shows "last_common c0 c1 (common_from l0 l1)"
proof -
  have l: "ancestry D l0" "ancestry D l1"
    using ancestry_drop [OF assms(1), of "length k0"] ancestry_drop [OF assms(2), of "length k1"]
    by (simp_all add: assms(4,5))
  obtain p q where pq: "l0 = p @ common_from l0 l1" "l1 = q @ common_from l0 l1" "length q = length p"
    "p = [] \<or> last p \<noteq> last q"
    using common_from_split [of l1 l0] ancestry_same_at [OF l] assms(3) by auto
  then have "c0 = (k0 @ p) @ common_from l0 l1" "c1 = (k1 @ q) @ common_from l0 l1"
    by (simp_all add: assms(4,5))
  moreover have "k0 @ p = [] \<or> k1 @ q = [] \<or> last (k0 @ p) \<noteq> last (k1 @ q)"
    using pq(3,4) assms(6) by (cases "p = []"; cases "q = []") auto
  ultimately show ?thesis unfolding last_common_def by blast
qed

lemma tip_height_unat:
  assumes "tip_height_ok D cs" and "cs \<noteq> []"
  shows "\<exists>h. db_height D (chain_head cs) = Some h \<and> length cs = Suc (unat h)"
proof -
  obtain h cs' where cs: "cs = h # cs'" using assms(2) by (cases cs) auto
  then show ?thesis
    using assms(1) by (simp add: tip_height_ok_def unat_of_nat take_bit_nat_eq_self)
qed

lemma last_common_ancestor_ok:
  assumes "ancestry D c0" and "ancestry D c1" and "tip_height_ok D c0" and "tip_height_ok D c1"
  shows "\<exists>s. last_common c0 c1 s
    \<and> last_common_ancestor D (chain_head c0) (chain_head c1) = Inr (chain_head s)"
proof (cases "chain_head c0 = chain_head c1")
  case True
  then have "c0 = c1" by (rule ancestry_unique [OF assms(1,2)])
  then show ?thesis
    by (intro exI [of _ c0]) (auto simp: last_common_def last_common_ancestor_def)
next
  case differ: False
  show ?thesis
  proof (cases "c0 = [] \<or> c1 = []")
    case True
    then show ?thesis
      using differ by (intro exI [of _ "[]"]) (auto simp: last_common_def last_common_ancestor_def)
  next
    case False
    then have ne: "chain_head c0 \<noteq> all_zeros" "chain_head c1 \<noteq> all_zeros"
      using assms(1,2) by (simp_all add: chain_head_zeros)
    obtain h0 h1 where h: "db_height D (chain_head c0) = Some h0" "db_height D (chain_head c1) = Some h1"
      and len: "length c0 = Suc (unat h0)" "length c1 = Suc (unat h1)"
      using False tip_height_unat [OF assms(3)] tip_height_unat [OF assms(4)] by blast
    define l0 where "l0 = drop (unat h0 - unat h1) c0"
    define l1 where "l1 = drop (unat h1 - unat h0) c1"
    have l: "length l1 = length l0" "length l0 = Suc (min (unat h0) (unat h1))"
      by (simp_all add: l0_def l1_def len)
    have la: "ancestry D l0" "ancestry D l1"
      using ancestry_drop [OF assms(1)] ancestry_drop [OF assms(2)] by (simp_all add: l0_def l1_def)
    have "last_common c0 c1 (common_from l0 l1)"
      by (rule last_common_equal_heights [OF assms(1,2), of l0 l1
            "take (unat h0 - unat h1) c0" "take (unat h1 - unat h0) c1"])
        (auto simp: l0_def l1_def len)
    moreover have "skip_ancestors D (unat h1 - unat h0) 0 (chain_head c1) = Inr (chain_head l1)"
      "skip_ancestors D (unat h0 - unat h1) 0 (chain_head c0) = Inr (chain_head l0)"
      using skip_ancestors_drop [OF assms(2)] skip_ancestors_drop [OF assms(1)] len
      by (simp_all add: l0_def l1_def)
    moreover have "common_loop D (chain_head c0, h0) (chain_head c1, h1)
        (Suc (min (unat h0) (unat h1))) (chain_head l0) (chain_head l1) = Inr (chain_head (common_from l0 l1))"
      by (rule common_loop_from [OF la l(1), unfolded l(2)])
    ultimately show ?thesis
      using differ ne h by (intro exI [of _ "common_from l0 l1"])
        (simp add: last_common_ancestor_def db_get_def)
  qed
qed

end
