(* ===== verification/Block_Handler.thy ===== *)
theory Block_Handler
  imports Pqc Block_Dbs
begin

text \<open>
  Connecting and disconnecting blocks (\<open>lib/validator/task/mod.rs\<close>, errors in
  \<open>lib/validator/task/error.rs\<close>). The handler works in a database transaction, so each operation
  is a computation with state \<open>dbs\<close>.
\<close>

section \<open>The handler\<close>

record block_handler =
  bh_activation_height :: u32
  bh_pqc_verify_budget_ms :: nat
  bh_extra_prevouts :: utxo_map

datatype connect_block_error =
  BlockParent bytes bytes u32
| ConnectDb db_error
| NoCoinbase
| PutBlockInfoFailed put_block_info_error
| Bip360 bytes pqc_validation_error
| RulesReject bytes string

text \<open>The \<open>fatal\<close> attributes.\<close>

definition connect_is_fatal :: "connect_block_error \<Rightarrow> bool" where
  "connect_is_fatal e =
     (case e of BlockParent _ _ _ \<Rightarrow> False | ConnectDb _ \<Rightarrow> True | NoCoinbase \<Rightarrow> False
      | PutBlockInfoFailed _ \<Rightarrow> True | Bip360 _ _ \<Rightarrow> False | RulesReject _ _ \<Rightarrow> False)"

datatype disconnect_block_error =
  DisconnectDb db_error
| DisconnectHeaderInfo header_info_error
| TipHash bytes bytes

datatype validate_tx_error = NoChainTip | ValidateTxDb db_error

definition validate_tx ::
  "libs \<Rightarrow> block_handler \<Rightarrow> transaction \<Rightarrow> dbs \<Rightarrow> validate_tx_error + bool" where
  "validate_tx L H tx D =
     bindE (ok_or (db_tip D) NoChainTip) (\<lambda>tip_hash.
     bindE (mapErr ValidateTxDb (db_get (db_height D) tip_hash)) (\<lambda>tip_height.
     Inr (is_ok (validate_mempool_transaction L tx tip_height (bh_activation_height H)))))"

section \<open>Connecting\<close>

text \<open>\<open>Some(cumulative_work) > current_tip_cumulative_work\<close>: \<open>None\<close> is the least option.\<close>

definition more_work :: "nat \<Rightarrow> nat option \<Rightarrow> bool" where
  "more_work work tip_work = (case tip_work of None \<Rightarrow> True | Some w \<Rightarrow> work > w)"

definition update_tip :: "bytes \<Rightarrow> (dbs, connect_block_error, unit) st" where
  "update_tip block_hash =
     bindS (liftS (\<lambda>D. case db_tip D of None \<Rightarrow> Inr None
        | Some current_tip \<Rightarrow>
            bindE (mapErr ConnectDb (db_get (db_cumulative_work D) current_tip)) (\<lambda>w. Inr (Some w))))
       (\<lambda>current_tip_cumulative_work.
     bindS (liftS (\<lambda>D. mapErr ConnectDb (db_get (db_cumulative_work D) block_hash))) (\<lambda>cumulative_work.
     modifyS (\<lambda>D. if more_work cumulative_work current_tip_cumulative_work
                    then D\<lparr>db_tip := Some block_hash\<rparr> else D)))"

definition connect_block_pass_through ::
  "libs \<Rightarrow> block_handler \<Rightarrow> block \<Rightarrow> u32 \<Rightarrow> transaction \<Rightarrow> bytes \<Rightarrow> bytes
    \<Rightarrow> (dbs, connect_block_error, event) st" where
  "connect_block_pass_through L H blk height coinbase block_hash prev_mainchain_block_hash =
     bindS (liftS (\<lambda>D. mapErr (Bip360 block_hash)
        (validate_and_diff_block_transactions L blk height (bh_activation_height H)
          (db_p2mr_utxos D) (bh_extra_prevouts H) (bh_pqc_verify_budget_ms H)))) (\<lambda>p2mr_utxo.
     let block_info = \<lparr>bi_coinbase_txid = compute_txid L coinbase\<rparr>;
         block_diff = \<lparr>df_p2mr_utxo = p2mr_utxo\<rparr> in
     bindS (mapErrS ConnectDb (diff_apply block_diff)) (\<lambda>_.
     bindS (mapErrS PutBlockInfoFailed (put_block_info L block_hash block_info block_diff)) (\<lambda>_.
     bindS (update_tip block_hash) (\<lambda>_.
     returnS (ConnectBlockEvent
        \<lparr>hi_block_hash = block_hash, hi_prev_block_hash = prev_mainchain_block_hash,
         hi_height = height, hi_work = header_work L (blk_header blk), hi_timestamp = hdr_time (blk_header blk)\<rparr>
        block_info)))))"

text \<open>The tip must be the parent; \<open>unwrap_or_default\<close> reads a missing height as 0.\<close>

definition check_parent :: "block \<Rightarrow> dbs \<Rightarrow> connect_block_error + unit" where
  "check_parent blk D =
     (let parent = hdr_prev_blockhash (blk_header blk) in
      case db_tip D of
        Some tip \<Rightarrow>
          guardE (parent = tip)
            (BlockParent parent tip (case db_height D tip of Some h \<Rightarrow> h | None \<Rightarrow> 0))
      | None \<Rightarrow> guardE (parent = all_zeros) (BlockParent parent all_zeros 0))"

definition connect_block ::
  "libs \<Rightarrow> block_handler \<Rightarrow> block \<Rightarrow> (dbs, connect_block_error, event) st" where
  "connect_block L H blk =
     bindS (liftS (check_parent blk)) (\<lambda>_.
     bindS (liftS (\<lambda>D. mapErr ConnectDb (db_get (db_height D) (header_block_hash L (blk_header blk))))) (\<lambda>height.
     bindS (liftS (\<lambda>_. case blk_txdata blk of [] \<Rightarrow> Inl NoCoinbase | coinbase # _ \<Rightarrow> Inr coinbase)) (\<lambda>coinbase.
     connect_block_pass_through L H blk height coinbase (header_block_hash L (blk_header blk))
       (hdr_prev_blockhash (blk_header blk)))))"

section \<open>Disconnecting\<close>

text \<open>The event that is broadcast, if any.\<close>

definition disconnect_block ::
  "libs \<Rightarrow> bytes \<Rightarrow> (dbs, disconnect_block_error, event option) st" where
  "disconnect_block L block_hash =
     bindS (liftS (\<lambda>D. Inr (db_diff D block_hash))) (\<lambda>stored.
       case stored of
         None \<Rightarrow> returnS None
       | Some diff \<Rightarrow>
           bindS (liftS (\<lambda>D. case db_tip D of
              Some tip_hash \<Rightarrow> guardE (tip_hash = block_hash) (TipHash block_hash tip_hash)
            | None \<Rightarrow> Inr ())) (\<lambda>_.
           bindS (liftS (\<lambda>D. mapErr DisconnectHeaderInfo (get_header_info L D block_hash))) (\<lambda>header_info.
           bindS (modifyS (diff_undo diff)) (\<lambda>_.
           bindS (modifyS (\<lambda>D.
              if hi_prev_block_hash header_info \<noteq> all_zeros
              then D\<lparr>db_tip := Some (hi_prev_block_hash header_info)\<rparr>
              else D\<lparr>db_tip := None\<rparr>)) (\<lambda>_.
           returnS (Some (DisconnectBlockEvent block_hash)))))))"

section \<open>One operation at a time\<close>

lemmas st_iffs = bindS_eq_Inr bindS_eq_Inl liftS_eq modifyS_eq returnS_eq throwS_eq

lemma on_utxos_eq:
  "(on_utxos m D = (r, D')) = (\<exists>u. m (db_p2mr_utxos D) = (r, u) \<and> D' = D\<lparr>db_p2mr_utxos := u\<rparr>)"
  by (auto simp: on_utxos_def split: prod.splits)

text \<open>What an error of each stage leaves behind.\<close>

lemma connect_is_fatal_simps [simp]:
  "\<not> connect_is_fatal (BlockParent p t h)" "connect_is_fatal (ConnectDb e)"
  "\<not> connect_is_fatal NoCoinbase" "connect_is_fatal (PutBlockInfoFailed pe)"
  "\<not> connect_is_fatal (Bip360 b ve)" "\<not> connect_is_fatal (RulesReject b r)"
  by (simp_all add: connect_is_fatal_def)

lemma update_tip_fatal: "update_tip h D = (Inl e, D') \<Longrightarrow> connect_is_fatal e"
  by (auto simp: update_tip_def st_iffs res_Inl_iffs split: option.splits)

lemma pass_through_nonfatal:
  assumes "connect_block_pass_through L H blk height coinbase h prev D = (Inl e, D')"
    and "\<not> connect_is_fatal e"
  shows "D' = D \<and> (\<exists>ve. e = Bip360 h ve)"
  using assms update_tip_fatal unfolding connect_block_pass_through_def Let_def
  by (auto simp: st_iffs mapErr_eq_Inl mapErrS_eq_Inl)

lemma connect_block_nonfatal:
  assumes "connect_block L H blk D = (Inl e, D')" and "\<not> connect_is_fatal e"
  shows "D' = D"
  using assms pass_through_nonfatal unfolding connect_block_def
  by (auto simp: st_iffs mapErr_eq_Inl)

text \<open>What a successful connect has checked and done.\<close>

definition work_through :: "libs \<Rightarrow> dbs \<Rightarrow> header \<Rightarrow> nat option" where
  "work_through L D hdr =
     (if hdr_prev_blockhash hdr = all_zeros then Some (header_work L hdr)
      else map_option (\<lambda>w. w + header_work L hdr) (db_cumulative_work D (hdr_prev_blockhash hdr)))"

lemma put_block_info_ok:
  "(put_block_info L h bi diff D = (Inr u, D')) =
     (\<exists>hdr w. db_header D h = Some hdr \<and> work_through L D hdr = Some w
       \<and> D' = D\<lparr>db_coinbase_txid := (db_coinbase_txid D)(h \<mapsto> bi_coinbase_txid bi),
                db_cumulative_work := (db_cumulative_work D)(h \<mapsto> w),
                db_diff := (db_diff D)(h \<mapsto> diff)\<rparr>)"
  by (cases "db_header D h"; cases "db_cumulative_work D (hdr_prev_blockhash (the (db_header D h)))")
    (auto simp: put_block_info_def st_iffs work_through_def)

lemma update_tip_ok:
  "(update_tip h D = (Inr u, D')) =
     (\<exists>w. db_cumulative_work D h = Some w
       \<and> (case db_tip D of None \<Rightarrow> D' = D\<lparr>db_tip := Some h\<rparr>
          | Some t \<Rightarrow> \<exists>v. db_cumulative_work D t = Some v
              \<and> D' = (if w > v then D\<lparr>db_tip := Some h\<rparr> else D)))"
  by (auto simp: update_tip_def st_iffs db_get_def more_work_def split: option.splits)

definition stored_block :: "bytes \<Rightarrow> bytes \<Rightarrow> p2mr_diff \<Rightarrow> utxo_map \<Rightarrow> nat \<Rightarrow> dbs \<Rightarrow> dbs" where
  "stored_block h txid d u w D =
     D\<lparr>db_coinbase_txid := (db_coinbase_txid D)(h \<mapsto> txid),
       db_cumulative_work := (db_cumulative_work D)(h \<mapsto> w),
       db_diff := (db_diff D)(h \<mapsto> \<lparr>df_p2mr_utxo = d\<rparr>),
       db_p2mr_utxos := u\<rparr>"

lemma pass_through_ok:
  assumes "connect_block_pass_through L H blk height coinbase h prev D = (Inr ev, D')"
  shows "\<exists>d u hdr w.
      validate_and_diff_block_transactions L blk height (bh_activation_height H)
        (db_p2mr_utxos D) (bh_extra_prevouts H) (bh_pqc_verify_budget_ms H) = Inr d
    \<and> apply_diff (pd_spent d) (pd_created d) (db_p2mr_utxos D) = (Inr (), u)
    \<and> db_header D h = Some hdr \<and> work_through L D hdr = Some w
    \<and> update_tip h (stored_block h (compute_txid L coinbase) d u w D) = (Inr (), D')"
proof -
  obtain d D1 D2 where d: "validate_and_diff_block_transactions L blk height (bh_activation_height H)
        (db_p2mr_utxos D) (bh_extra_prevouts H) (bh_pqc_verify_budget_ms H) = Inr d"
    and D1: "diff_apply \<lparr>df_p2mr_utxo = d\<rparr> D = (Inr (), D1)"
    and D2: "put_block_info L h \<lparr>bi_coinbase_txid = compute_txid L coinbase\<rparr> \<lparr>df_p2mr_utxo = d\<rparr> D1 = (Inr (), D2)"
    and tip: "update_tip h D2 = (Inr (), D')"
    using assms unfolding connect_block_pass_through_def Let_def by (auto simp: st_iffs)
  obtain u where u: "apply_diff (pd_spent d) (pd_created d) (db_p2mr_utxos D) = (Inr (), u)"
    and D1': "D1 = D\<lparr>db_p2mr_utxos := u\<rparr>"
    using D1 by (auto simp: diff_apply_def on_utxos_eq)
  obtain hdr w where hdr: "db_header D1 h = Some hdr" and w: "work_through L D1 hdr = Some w"
    and D2': "D2 = D1\<lparr>db_coinbase_txid := (db_coinbase_txid D1)(h \<mapsto> compute_txid L coinbase),
                db_cumulative_work := (db_cumulative_work D1)(h \<mapsto> w),
                db_diff := (db_diff D1)(h \<mapsto> \<lparr>df_p2mr_utxo = d\<rparr>)\<rparr>"
    using D2 unfolding put_block_info_ok by auto
  have "D2 = stored_block h (compute_txid L coinbase) d u w D"
    by (simp add: D2' D1' stored_block_def)
  then show ?thesis
    using d u hdr w tip by (auto simp: D1' work_through_def)
qed

lemma connect_block_ok:
  assumes "connect_block L H blk D = (Inr ev, D')"
  defines "h \<equiv> header_block_hash L (blk_header blk)"
  shows "\<exists>height coinbase txs d u hdr w.
      check_parent blk D = Inr () \<and> db_height D h = Some height \<and> blk_txdata blk = coinbase # txs
    \<and> validate_and_diff_block_transactions L blk height (bh_activation_height H)
        (db_p2mr_utxos D) (bh_extra_prevouts H) (bh_pqc_verify_budget_ms H) = Inr d
    \<and> apply_diff (pd_spent d) (pd_created d) (db_p2mr_utxos D) = (Inr (), u)
    \<and> db_header D h = Some hdr \<and> work_through L D hdr = Some w
    \<and> update_tip h (stored_block h (compute_txid L coinbase) d u w D) = (Inr (), D')"
proof -
  obtain height coinbase txs where "check_parent blk D = Inr ()" "db_height D h = Some height"
      "blk_txdata blk = coinbase # txs"
    and pass: "connect_block_pass_through L H blk height coinbase h (hdr_prev_blockhash (blk_header blk)) D
       = (Inr ev, D')"
    using assms unfolding connect_block_def
    by (cases "blk_txdata blk") (auto simp: st_iffs db_get_def)
  then show ?thesis using pass_through_ok [OF pass] by blast
qed

end
