(* ===== verification/Node_State.thy ===== *)
theory Node_State
  imports Block_Handler
begin

text \<open>
  The validator as a state machine: headers arrive, blocks connect, are rejected, or disconnect.
  The abstract state is the list of connected blocks, newest first; the databases are shown to
  hold exactly what that list says, and the invariants that the fields of \<open>BlockHashDbs\<close>
  document are shown for every reachable state.
\<close>

section \<open>The abstract chain\<close>

abbreviation block_hash_of :: "libs \<Rightarrow> block \<Rightarrow> bytes" where
  "block_hash_of L blk \<equiv> header_block_hash L (blk_header blk)"

fun replay_chain :: "libs \<Rightarrow> block list \<Rightarrow> utxo_map" where
  "replay_chain L [] = Map.empty"
| "replay_chain L (b # bs) = replay_block L (replay_chain L bs) b"

definition parent_hash :: "libs \<Rightarrow> block list \<Rightarrow> bytes" where
  "parent_hash L bs = (case bs of [] \<Rightarrow> all_zeros | b # _ \<Rightarrow> block_hash_of L b)"

text \<open>What the databases hold for the blocks of the chain.\<close>

fun stored_chain :: "libs \<Rightarrow> dbs \<Rightarrow> block list \<Rightarrow> bool" where
  "stored_chain L D [] = True"
| "stored_chain L D (b # bs) =
     (let h = block_hash_of L b; d = compute_block_diff L b (replay_chain L bs) in
        h \<noteq> all_zeros \<and> h \<notin> block_hash_of L ` set bs
      \<and> db_header D h = Some (blk_header b) \<and> db_height D h \<noteq> None \<and> db_cumulative_work D h \<noteq> None
      \<and> hdr_prev_blockhash (blk_header b) = parent_hash L bs
      \<and> db_diff D h = Some \<lparr>df_p2mr_utxo = d\<rparr> \<and> diff_ok d (replay_chain L bs)
      \<and> diff_view d (replay_chain L bs) = replay_chain L (b # bs)
      \<and> stored_chain L D bs)"

definition tracks :: "libs \<Rightarrow> dbs \<Rightarrow> block list \<Rightarrow> bool" where
  "tracks L D bs =
     (db_tip D = (case bs of [] \<Rightarrow> None | b # _ \<Rightarrow> Some (block_hash_of L b))
      \<and> db_p2mr_utxos D = replay_chain L bs \<and> stored_chain L D bs)"

text \<open>
  What the chain source guarantees of a block that the handler is asked to connect: its header
  was stored under its hash, its work is positive, it is not connected already, its transactions
  are new, and prevouts fetched from outside the tracked set are not P2MR outputs.
\<close>

definition admissible :: "libs \<Rightarrow> block_handler \<Rightarrow> dbs \<Rightarrow> block list \<Rightarrow> block \<Rightarrow> bool" where
  "admissible L H D bs b =
     (db_header D (block_hash_of L b) = Some (blk_header b)
      \<and> block_hash_of L b \<noteq> all_zeros \<and> block_hash_of L b \<notin> block_hash_of L ` set bs
      \<and> header_work L (blk_header b) > 0
      \<and> (\<forall>p \<in> ran (bh_extra_prevouts H). \<not> is_p2mr_out p)
      \<and> list_all (\<lambda>i. db_p2mr_utxos D (txi_previous_output i) = None)
          (case blk_txdata b of [] \<Rightarrow> [] | coinbase # _ \<Rightarrow> tx_input coinbase)
      \<and> new_outputs L (db_p2mr_utxos D) b \<and> distinct (block_outpoints L b))"

section \<open>Reachable states\<close>

definition no_collision :: "libs \<Rightarrow> dbs \<Rightarrow> (header \<times> u32) list \<Rightarrow> bool" where
  "no_collision L D hs = inj_on (header_block_hash L) (ran (db_header D) \<union> fst ` set hs)"

inductive node_run :: "libs \<Rightarrow> dbs \<Rightarrow> block list \<Rightarrow> bool" for L where
  start: "node_run L dbs_new []"
| headers: "node_run L D bs \<Longrightarrow> no_collision L D hs \<Longrightarrow> node_run L (put_headers L hs D) bs"
| connect: "node_run L D bs \<Longrightarrow> admissible L H D bs b \<Longrightarrow>
    connect_block L H b D = (Inr ev, D') \<Longrightarrow> node_run L D' (b # bs)"
| reject: "node_run L D bs \<Longrightarrow> connect_block L H b D = (Inl e, D') \<Longrightarrow>
    \<not> connect_is_fatal e \<Longrightarrow> node_run L D' bs"
| disconnect: "node_run L D bs \<Longrightarrow> db_tip D \<noteq> None \<Longrightarrow>
    disconnect_block L h D = (Inr ev, D') \<Longrightarrow> node_run L D' (if ev = None then bs else tl bs)"

inductive_cases node_run_tipE: "node_run L D (b # bs)"

section \<open>The databases follow the chain\<close>

lemma p2mr_set_chain: "p2mr_set (replay_chain L bs)"
proof (induction bs)
  case (Cons b bs)
  then show ?case by (simp add: p2mr_set_replay_block)
qed (simp add: p2mr_set_def)

lemma stored_chain_cong:
  assumes "stored_chain L D bs"
    and "\<And>h. h \<in> block_hash_of L ` set bs \<Longrightarrow> db_header D' h = db_header D h
       \<and> (db_height D' h = None \<longrightarrow> db_height D h = None)
       \<and> db_cumulative_work D' h = db_cumulative_work D h \<and> db_diff D' h = db_diff D h"
  shows "stored_chain L D' bs"
  using assms by (induction bs) (auto simp: Let_def)

lemma tracks_connect:
  assumes "tracks L D bs" and "admissible L H D bs b" and "connect_block L H b D = (Inr ev, D')"
  shows "tracks L D' (b # bs)"
proof -
  let ?h = "block_hash_of L b" and ?c = "replay_chain L bs"
  let ?d = "compute_block_diff L b ?c"
  have tip: "db_tip D = (case bs of [] \<Rightarrow> None | t # _ \<Rightarrow> Some (block_hash_of L t))"
    and utxos: "db_p2mr_utxos D = ?c" and stored: "stored_chain L D bs"
    using assms(1) by (simp_all add: tracks_def)
  have adm: "db_header D ?h = Some (blk_header b)" "?h \<noteq> all_zeros" "?h \<notin> block_hash_of L ` set bs"
    "header_work L (blk_header b) > 0" "\<forall>p \<in> ran (bh_extra_prevouts H). \<not> is_p2mr_out p"
    "new_outputs L ?c b" "distinct (block_outpoints L b)"
    using assms(2) by (simp_all add: admissible_def utxos)
  obtain height coinbase txs d u hdr w where par: "check_parent b D = Inr ()"
    and height: "db_height D ?h = Some height" and txs: "blk_txdata b = coinbase # txs"
    and val: "validate_and_diff_block_transactions L b height (bh_activation_height H)
        ?c (bh_extra_prevouts H) (bh_pqc_verify_budget_ms H) = Inr d"
    and app: "apply_diff (pd_spent d) (pd_created d) ?c = (Inr (), u)"
    and w: "db_header D ?h = Some hdr" "work_through L D hdr = Some w"
    and upd: "update_tip ?h (stored_block ?h (compute_txid L coinbase) d u w D) = (Inr (), D')"
    using connect_block_ok [OF assms(3)] unfolding utxos by blast
  have d: "d = ?d"
    using validated_diff_is_plain [OF val p2mr_set_chain adm(5) txs _ adm(6,7)] assms(2)
    by (simp add: admissible_def txs utxos)
  have ok: "diff_ok ?d ?c" "diff_view ?d ?c = replay_chain L (b # bs)"
    using compute_block_diff_ok [OF p2mr_set_chain adm(6)] by simp_all
  have u: "u = replay_chain L (b # bs)"
    using app apply_diff_view [OF ok(1)] unfolding d ok(2) by simp
  have parent: "hdr_prev_blockhash (blk_header b) = parent_hash L bs"
    using par by (auto simp: check_parent_def Let_def tip parent_hash_def split: list.splits)
  have D': "D' = (stored_block ?h (compute_txid L coinbase) d u w D)\<lparr>db_tip := Some ?h\<rparr>"
  proof (cases bs)
    case Nil
    then show ?thesis
      using upd by (auto simp: update_tip_ok stored_block_def tip)
  next
    case (Cons t ts)
    have t: "block_hash_of L t \<noteq> all_zeros" "?h \<noteq> block_hash_of L t"
      using stored adm(3) by (auto simp: Cons Let_def)
    then obtain v where "db_cumulative_work D (block_hash_of L t) = Some v" "w = v + header_work L hdr"
      using w parent adm(1) by (auto simp: work_through_def parent_hash_def Cons)
    moreover have "header_work L hdr > 0" using adm(1,4) w(1) by simp
    ultimately show ?thesis
      using upd t by (auto simp: update_tip_ok stored_block_def tip Cons split: if_splits)
  qed
  have ne: "h' \<noteq> ?h" if "h' \<in> block_hash_of L ` set bs" for h'
    using adm(3) that by blast
  have "stored_chain L D' bs"
    by (rule stored_chain_cong [OF stored], drule ne) (simp add: D' stored_block_def)
  then show ?thesis
    using adm(1,2,3) height parent ok
    by (simp add: tracks_def D' stored_block_def u d Let_def)
qed

lemma tracks_disconnect:
  assumes "tracks L D bs" and "db_tip D \<noteq> None" and "disconnect_block L h D = (Inr ev, D')"
  shows "tracks L D' (if ev = None then bs else tl bs)"
proof (cases "db_diff D h")
  case None
  then show ?thesis using assms(1,3) by (auto simp: disconnect_block_def st_iffs)
next
  case (Some diff)
  obtain b bs' where bs: "bs = b # bs'"
    using assms(1,2) by (cases bs) (auto simp: tracks_def)
  let ?h = "block_hash_of L b"
  have tip: "db_tip D = Some ?h" and utxos: "db_p2mr_utxos D = replay_chain L bs"
    and stored: "stored_chain L D bs"
    using assms(1) by (simp_all add: tracks_def bs)
  then have h: "h = ?h" and ev: "ev \<noteq> None"
    using assms(3) by (auto simp: disconnect_block_def st_iffs Some)
  obtain info where "get_header_info L D h = Inr info"
    and D': "D' = (diff_undo diff D)\<lparr>db_tip := if hi_prev_block_hash info \<noteq> all_zeros
        then Some (hi_prev_block_hash info) else None\<rparr>"
    using assms(3) tip by (auto simp: disconnect_block_def st_iffs Some [unfolded h] h)
  then have prev: "hi_prev_block_hash info = parent_hash L bs'"
    using stored
    by (auto simp: get_header_info_def try_get_header_info_def h bs Let_def split: option.splits if_splits)
  have undo: "db_p2mr_utxos (diff_undo diff D) = replay_chain L bs'"
    using stored Some undo_diff_view [of "compute_block_diff L b (replay_chain L bs')" "replay_chain L bs'"]
    by (auto simp: diff_undo_def utxos bs h Let_def)
  have "stored_chain L D' bs'"
    by (rule stored_chain_cong [of L D]) (use stored in \<open>auto simp: D' diff_undo_def bs Let_def\<close>)
  moreover have "parent_hash L bs' = all_zeros \<longleftrightarrow> bs' = []"
    using stored by (cases bs') (auto simp: parent_hash_def bs Let_def)
  ultimately show ?thesis
    using ev undo by (cases bs') (auto simp: tracks_def D' prev bs parent_hash_def)
qed

section \<open>The documented invariants\<close>

text \<open>
  The comments on the fields of \<open>BlockHashDbs\<close>: the per-block databases have the same keys, each
  with a header and with all ancestors; each header has a height; each height belongs to a header
  or to the parent of one.
\<close>

definition headers_ok :: "libs \<Rightarrow> (bytes \<rightharpoonup> header) \<Rightarrow> bool" where
  "headers_ok L hm = (\<forall>h hdr. hm h = Some hdr \<longrightarrow> header_block_hash L hdr = h)"

definition parents_ok :: "(bytes \<rightharpoonup> header) \<Rightarrow> bytes set \<Rightarrow> bool" where
  "parents_ok hm keys = (\<forall>h \<in> keys. \<forall>hdr. hm h = Some hdr \<longrightarrow>
     hdr_prev_blockhash hdr = all_zeros \<or> hdr_prev_blockhash hdr \<in> keys)"

definition heights_ok :: "dbs \<Rightarrow> bool" where
  "heights_ok D =
     (dom (db_header D) \<subseteq> dom (db_height D)
      \<and> dom (db_height D) \<subseteq> dom (db_header D) \<union> hdr_prev_blockhash ` ran (db_header D))"

definition dbs_inv :: "libs \<Rightarrow> dbs \<Rightarrow> bool" where
  "dbs_inv L D =
     (dom (db_coinbase_txid D) = dom (db_diff D) \<and> dom (db_cumulative_work D) = dom (db_diff D)
      \<and> dom (db_diff D) \<subseteq> dom (db_header D) \<and> heights_ok D
      \<and> headers_ok L (db_header D) \<and> parents_ok (db_header D) (dom (db_diff D)))"

text \<open>Only the tip and the P2MR set differ.\<close>

definition same_blocks :: "dbs \<Rightarrow> dbs \<Rightarrow> bool" where
  "same_blocks D D' =
     (db_coinbase_txid D' = db_coinbase_txid D \<and> db_cumulative_work D' = db_cumulative_work D
      \<and> db_diff D' = db_diff D \<and> db_header D' = db_header D \<and> db_height D' = db_height D)"

lemma dbs_inv_same: "same_blocks D D' \<Longrightarrow> dbs_inv L D' = dbs_inv L D"
  by (simp add: same_blocks_def dbs_inv_def heights_ok_def)

lemma update_tip_same: "update_tip h D = (Inr u, D') \<Longrightarrow> same_blocks D D'"
  by (auto simp: update_tip_ok same_blocks_def split: option.splits if_splits)

lemma disconnect_same: "disconnect_block L h D = (Inr ev, D') \<Longrightarrow> same_blocks D D'"
  by (cases "db_diff D h") (auto simp: disconnect_block_def st_iffs diff_undo_def same_blocks_def)

text \<open>What storing headers changes: old headers stay, old heights stay known.\<close>

definition headers_grow :: "libs \<Rightarrow> header set \<Rightarrow> dbs \<Rightarrow> dbs \<Rightarrow> bool" where
  "headers_grow L S D0 D =
     (ran (db_header D) \<subseteq> S \<and> db_header D0 \<subseteq>\<^sub>m db_header D \<and> dom (db_height D0) \<subseteq> dom (db_height D)
      \<and> headers_ok L (db_header D) \<and> heights_ok D
      \<and> db_coinbase_txid D = db_coinbase_txid D0 \<and> db_cumulative_work D = db_cumulative_work D0
      \<and> db_diff D = db_diff D0 \<and> db_tip D = db_tip D0 \<and> db_p2mr_utxos D = db_p2mr_utxos D0)"

lemma put_header_grow:
  assumes "headers_grow L S D0 D" and "fst x \<in> S" and "inj_on (header_block_hash L) S"
  shows "headers_grow L S D0 (put_header L D x)"
proof -
  obtain hdr height where x: "x = (hdr, height)" by (cases x)
  let ?h = "header_block_hash L hdr" and ?hm = "(db_header D)(header_block_hash L hdr \<mapsto> hdr)"
  have D: "headers_ok L (db_header D)" "ran (db_header D) \<subseteq> S" "heights_ok D"
    "db_header D0 \<subseteq>\<^sub>m db_header D" "dom (db_height D0) \<subseteq> dom (db_height D)"
    using assms(1) by (simp_all add: headers_grow_def)
  have same: "hdr' = hdr" if "db_header D ?h = Some hdr'" for hdr'
  proof -
    have "header_block_hash L hdr' = ?h" "hdr' \<in> S"
      using D(1,2) that by (auto simp: headers_ok_def intro: ranI)
    then show ?thesis using assms(2,3) by (auto simp: x inj_on_def)
  qed
  have le: "db_header D \<subseteq>\<^sub>m ?hm" using same by (auto simp: map_le_def)
  have ran: "ran ?hm = insert hdr (ran (db_header D))"
  proof (cases "db_header D ?h")
    case (Some hdr')
    then have "?hm = db_header D" "hdr \<in> ran (db_header D)"
      using same [OF Some] by (auto intro: ranI)
    then show ?thesis by auto
  qed simp
  have "heights_ok (put_header L D x)"
    using D(3) by (auto simp: heights_ok_def x put_header_def Let_def ran)
  moreover have "headers_ok L ?hm" using D(1) by (simp add: headers_ok_def)
  moreover have "dom (db_height D0) \<subseteq> dom (db_height (put_header L D x))"
    using D(5) by (auto simp: x put_header_def Let_def)
  moreover have "db_header (put_header L D x) = ?hm"
    by (simp add: x put_header_def Let_def)
  moreover have "ran ?hm \<subseteq> S" using D(2) assms(2) by (simp add: ran x)
  moreover have "db_header D0 \<subseteq>\<^sub>m ?hm" by (rule map_le_trans [OF D(4) le])
  ultimately show ?thesis
    using assms(1) by (simp add: headers_grow_def) (simp add: x put_header_def Let_def)
qed

lemma put_headers_grow:
  assumes "dbs_inv L D" and "no_collision L D hs"
  shows "headers_grow L (ran (db_header D) \<union> fst ` set hs) D (put_headers L hs D)"
  unfolding put_headers_def
proof (rule foldl_invariant [where P = "headers_grow L (ran (db_header D) \<union> fst ` set hs) D"])
  show "headers_grow L (ran (db_header D) \<union> fst ` set hs) D D"
    using assms(1) by (simp add: headers_grow_def dbs_inv_def)
qed (use assms(2) in \<open>auto intro!: put_header_grow simp: no_collision_def\<close>)

lemma map_le_domD: "m \<subseteq>\<^sub>m m' \<Longrightarrow> k \<in> dom m \<Longrightarrow> m' k = m k"
  by (simp add: map_le_def)

lemma dbs_inv_put_headers:
  assumes "dbs_inv L D" and "no_collision L D hs"
  shows "dbs_inv L (put_headers L hs D)"
proof -
  note g = put_headers_grow [OF assms, unfolded headers_grow_def]
  have D: "dom (db_diff D) \<subseteq> dom (db_header D)" "parents_ok (db_header D) (dom (db_diff D))"
    using assms(1) by (simp_all add: dbs_inv_def)
  have le: "db_header D \<subseteq>\<^sub>m db_header (put_headers L hs D)" using g by blast
  have "parents_ok (db_header (put_headers L hs D)) (dom (db_diff D))"
    unfolding parents_ok_def
  proof (intro ballI allI impI)
    fix h hdr assume h: "h \<in> dom (db_diff D)" and hdr: "db_header (put_headers L hs D) h = Some hdr"
    then have "db_header D h = Some hdr" using map_le_domD [OF le] D(1) by fastforce
    then show "hdr_prev_blockhash hdr = all_zeros \<or> hdr_prev_blockhash hdr \<in> dom (db_diff D)"
      using D(2) h unfolding parents_ok_def by blast
  qed
  moreover have "dom (db_diff D) \<subseteq> dom (db_header (put_headers L hs D))"
    using D(1) map_le_implies_dom_le [OF le] by blast
  ultimately show ?thesis
    using g assms(1) by (simp add: dbs_inv_def)
qed

lemma dbs_inv_connect:
  assumes "dbs_inv L D" and "connect_block L H b D = (Inr ev, D')"
  shows "dbs_inv L D'"
proof -
  let ?h = "block_hash_of L b"
  obtain coinbase d u hdr w where hdr: "db_header D ?h = Some hdr" "work_through L D hdr = Some w"
    and upd: "update_tip ?h (stored_block ?h (compute_txid L coinbase) d u w D) = (Inr (), D')"
    using connect_block_ok [OF assms(2)] by blast
  have D: "dom (db_cumulative_work D) = dom (db_diff D)" "parents_ok (db_header D) (dom (db_diff D))"
    using assms(1) by (simp_all add: dbs_inv_def)
  have "hdr_prev_blockhash hdr = all_zeros \<or> hdr_prev_blockhash hdr \<in> dom (db_cumulative_work D)"
    using hdr(2) by (auto simp: work_through_def split: if_splits)
  then have "parents_ok (db_header D) (insert ?h (dom (db_diff D)))"
    using D hdr(1) by (auto simp: parents_ok_def)
  then have "dbs_inv L (stored_block ?h (compute_txid L coinbase) d u w D)"
    using assms(1) hdr(1) by (auto simp: dbs_inv_def stored_block_def heights_ok_def)
  then show ?thesis using dbs_inv_same [OF update_tip_same [OF upd]] by simp
qed

lemma dbs_inv_disconnect:
  "dbs_inv L D \<Longrightarrow> disconnect_block L h D = (Inr ev, D') \<Longrightarrow> dbs_inv L D'"
  by (simp add: dbs_inv_same [OF disconnect_same])

lemma stored_chain_headers:
  "stored_chain L D cs \<Longrightarrow> h \<in> block_hash_of L ` set cs \<Longrightarrow> h \<in> dom (db_header D) \<and> h \<in> dom (db_height D)"
  by (induction cs) (auto simp: Let_def)

lemma tracks_put_headers:
  assumes "tracks L D bs" and "dbs_inv L D" and "no_collision L D hs"
  shows "tracks L (put_headers L hs D) bs"
proof -
  note g = put_headers_grow [OF assms(2,3), unfolded headers_grow_def]
  have stored: "stored_chain L D bs" using assms(1) by (simp add: tracks_def)
  have "stored_chain L (put_headers L hs D) bs"
  proof (rule stored_chain_cong [OF stored], drule stored_chain_headers [OF stored], elim conjE)
    fix h assume h: "h \<in> dom (db_header D)" "h \<in> dom (db_height D)"
    have "db_header (put_headers L hs D) h = db_header D h" using map_le_domD [OF _ h(1)] g by blast
    moreover have "db_height (put_headers L hs D) h \<noteq> None" using g h(2) by blast
    moreover have "db_cumulative_work (put_headers L hs D) = db_cumulative_work D"
      "db_diff (put_headers L hs D) = db_diff D"
      using g by simp_all
    ultimately show "db_header (put_headers L hs D) h = db_header D h
       \<and> (db_height (put_headers L hs D) h = None \<longrightarrow> db_height D h = None)
       \<and> db_cumulative_work (put_headers L hs D) h = db_cumulative_work D h
       \<and> db_diff (put_headers L hs D) h = db_diff D h"
      by auto
  qed
  then show ?thesis using assms(1) g by (simp add: tracks_def)
qed

lemma node_run_inv: "node_run L D bs \<Longrightarrow> dbs_inv L D \<and> tracks L D bs"
proof (induction rule: node_run.induct)
  case start
  then show ?case
    by (simp add: dbs_inv_def tracks_def dbs_new_def headers_ok_def parents_ok_def heights_ok_def)
next
  case (headers D bs hs)
  then show ?case by (simp add: dbs_inv_put_headers tracks_put_headers)
next
  case (connect D bs H b ev D')
  then show ?case using dbs_inv_connect tracks_connect by blast
next
  case (reject D bs H b e D')
  then show ?case using connect_block_nonfatal by blast
next
  case (disconnect D bs h ev D')
  then show ?case using dbs_inv_disconnect tracks_disconnect by blast
qed

lemma connect_block_complete:
  assumes "check_parent b D = Inr ()" and "db_height D (block_hash_of L b) = Some height"
    and "blk_txdata b = coinbase # txs"
    and "validate_and_diff_block_transactions L b height (bh_activation_height H)
        (db_p2mr_utxos D) (bh_extra_prevouts H) (bh_pqc_verify_budget_ms H) = Inr d"
    and "apply_diff (pd_spent d) (pd_created d) (db_p2mr_utxos D) = (Inr (), u)"
    and "db_header D (block_hash_of L b) = Some hdr" and "work_through L D hdr = Some w"
    and "case db_tip D of None \<Rightarrow> True | Some t \<Rightarrow> db_cumulative_work D t \<noteq> None"
  shows "\<exists>ev D'. connect_block L H b D = (Inr ev, D')"
proof -
  let ?h = "block_hash_of L b" and ?diff = "\<lparr>df_p2mr_utxo = d\<rparr>"
  let ?info = "\<lparr>bi_coinbase_txid = compute_txid L coinbase\<rparr>"
  have a: "diff_apply ?diff D = (Inr (), D\<lparr>db_p2mr_utxos := u\<rparr>)"
    using assms(5) by (simp add: diff_apply_def on_utxos_eq)
  obtain D2 where p: "put_block_info L ?h ?info ?diff (D\<lparr>db_p2mr_utxos := u\<rparr>) = (Inr (), D2)"
    and D2: "db_cumulative_work D2 = (db_cumulative_work D)(?h \<mapsto> w)" "db_tip D2 = db_tip D"
    using assms(6,7) by (force simp: put_block_info_ok work_through_def)
  have "\<exists>D3. update_tip ?h D2 = (Inr (), D3)"
    using assms(8) by (cases "db_tip D") (auto simp: update_tip_ok D2)
  then obtain D3 where t: "update_tip ?h D2 = (Inr (), D3)" by blast
  show ?thesis
    unfolding connect_block_def connect_block_pass_through_def Let_def st_iffs
    using assms(1-4) a p t by (simp add: db_get_def)
qed

lemma connect_keeps_headers:
  "connect_block L H b D = (Inr ev, D') \<Longrightarrow> db_header D' = db_header D \<and> db_height D' = db_height D"
  by (drule connect_block_ok) (auto simp: stored_block_def dest!: update_tip_same simp: same_blocks_def)

lemma connect_accepts_iff:
  assumes "node_run L D bs" and "admissible L H D bs b"
    and "db_height D (block_hash_of L b) = Some height" and "blk_txdata b = coinbase # txs"
  shows "(\<exists>ev D'. connect_block L H b D = (Inr ev, D'))
    = (hdr_prev_blockhash (blk_header b) = parent_hash L bs
       \<and> is_ok (validate_and_diff_block_transactions L b height (bh_activation_height H)
            (db_p2mr_utxos D) (bh_extra_prevouts H) (bh_pqc_verify_budget_ms H)))" (is "?c = (?p \<and> ?v)")
proof -
  have tracks: "tracks L D bs" using node_run_inv [OF assms(1)] by blast
  then have tip: "db_tip D = (case bs of [] \<Rightarrow> None | t # _ \<Rightarrow> Some (block_hash_of L t))"
    and utxos: "db_p2mr_utxos D = replay_chain L bs" and stored: "stored_chain L D bs"
    by (simp_all add: tracks_def)
  have parent: "(check_parent b D = Inr ()) = ?p"
    by (auto simp: check_parent_def Let_def tip parent_hash_def split: list.splits)
  show ?thesis
  proof
    assume ?c
    then show "?p \<and> ?v" using connect_block_ok [of L H b D] parent assms(3) by (fastforce simp: is_ok_iff)
  next
    assume pv: "?p \<and> ?v"
    then obtain d where val: "validate_and_diff_block_transactions L b height (bh_activation_height H)
        (replay_chain L bs) (bh_extra_prevouts H) (bh_pqc_verify_budget_ms H) = Inr d"
      by (auto simp: is_ok_iff utxos)
    have new: "new_outputs L (replay_chain L bs) b"
      using assms(2) by (simp add: admissible_def utxos)
    have "d = compute_block_diff L b (replay_chain L bs)"
      using validated_diff_is_plain [OF val p2mr_set_chain _ assms(4) _ new] assms(2)
      by (simp add: admissible_def assms(4) utxos)
    then have app: "apply_diff (pd_spent d) (pd_created d) (db_p2mr_utxos D) = (Inr (), replay_block L (replay_chain L bs) b)"
      using compute_block_diff_ok [OF p2mr_set_chain new] apply_diff_view by (fastforce simp: utxos)
    have hdr: "db_header D (block_hash_of L b) = Some (blk_header b)"
      using assms(2) by (simp add: admissible_def)
    have "\<exists>w. work_through L D (blk_header b) = Some w"
      using pv stored by (cases bs) (auto simp: work_through_def parent_hash_def Let_def)
    then obtain w where w: "work_through L D (blk_header b) = Some w" by blast
    have "case db_tip D of None \<Rightarrow> True | Some t \<Rightarrow> db_cumulative_work D t \<noteq> None"
      using stored by (cases bs) (auto simp: tip Let_def)
    then show ?c
      using connect_block_complete [OF _ assms(3,4) val [folded utxos] app hdr w] pv parent by blast
  qed
qed

section \<open>Properties\<close>

text \<open>
  C9: whatever sequence of header batches, accepted blocks, rejected blocks and disconnects led
  to a state, its tip is the last connected block that was not disconnected and its P2MR set is
  the replay of exactly the blocks of that chain from genesis.
\<close>
theorem node_follows_chain:
  assumes "node_run L D bs"
  shows "db_tip D = (case bs of [] \<Rightarrow> None | b # _ \<Rightarrow> Some (block_hash_of L b))
    \<and> db_p2mr_utxos D = replay_chain L bs"
  using node_run_inv [OF assms] by (simp add: tracks_def)


text \<open>
  A rejected block leaves no trace: when connecting fails with an error that is not fatal,
  the database transaction is as it was before, so the caller may commit it.
\<close>
theorem rejection_leaves_no_trace:
  assumes "connect_block L H b D = (Inl e, D')" and "\<not> connect_is_fatal e"
  shows "D' = D"
  using assms by (rule connect_block_nonfatal)

text \<open>
  A block that extends the tip connects exactly when it validates: in a reachable state,
  for an admissible block with a known height and a coinbase, connecting succeeds if and only if
  its parent is the tip and BIP 360 validation against the stored P2MR set accepts it; no
  database error can get in the way.
\<close>
theorem connect_iff_valid:
  assumes "node_run L D bs" and "admissible L H D bs b"
    and "db_height D (block_hash_of L b) = Some height" and "blk_txdata b = coinbase # txs"
  shows "(\<exists>ev D'. connect_block L H b D = (Inr ev, D'))
    = (hdr_prev_blockhash (blk_header b) = parent_hash L bs
       \<and> is_ok (validate_and_diff_block_transactions L b height (bh_activation_height H)
            (db_p2mr_utxos D) (bh_extra_prevouts H) (bh_pqc_verify_budget_ms H)))"
  using assms by (rule connect_accepts_iff)

text \<open>
  A one-block reorganisation is exact: after connecting an admissible block to a reachable
  state, disconnecting it succeeds, and the tip and the P2MR set are what they were before.
\<close>
theorem connect_disconnect_roundtrip:
  assumes "node_run L D bs" and "admissible L H D bs b" and "connect_block L H b D = (Inr ev, D')"
  shows "\<exists>D''. disconnect_block L (block_hash_of L b) D'
       = (Inr (Some (DisconnectBlockEvent (block_hash_of L b))), D'')
    \<and> db_tip D'' = db_tip D \<and> db_p2mr_utxos D'' = db_p2mr_utxos D"
proof -
  let ?h = "block_hash_of L b"
  have D: "tracks L D bs" using node_run_inv [OF assms(1)] by blast
  have D': "tracks L D' (b # bs)" by (rule tracks_connect [OF D assms(2,3)])
  then obtain diff where diff: "db_diff D' ?h = Some diff" "db_tip D' = Some ?h"
    "db_header D' ?h = Some (blk_header b)" "db_height D' ?h \<noteq> None"
    by (auto simp: tracks_def Let_def)
  then obtain info where info: "get_header_info L D' ?h = Inr info"
    by (auto simp: get_header_info_def try_get_header_info_def)
  obtain ev' D'' where dis: "disconnect_block L ?h D' = (Inr ev', D'')"
    and ev': "ev' = Some (DisconnectBlockEvent ?h)"
    using diff info by (auto simp: disconnect_block_def st_iffs)
  have "tracks L D'' bs"
    using tracks_disconnect [OF D' _ dis] diff(2) by (simp add: ev')
  then show ?thesis using D dis by (auto simp: tracks_def ev')
qed

subsection \<open>A concrete run\<close>

text \<open>A genesis block that pays to the hybrid leaf, and a second block that spends it.\<close>

definition genesis_coinbase :: transaction where
  "genesis_coinbase = sample_tx 1 [sample_in 0xff 0xffffffff 0 []] [demo_prevout]"

definition genesis :: block where
  "genesis = \<lparr>blk_header = sample_header all_zeros 1, blk_txdata = [genesis_coinbase]\<rparr>"

definition second_block :: block where
  "second_block = \<lparr>blk_header = sample_header (2 # replicate 31 0) 2,
     blk_txdata = [sample_tx 50 [sample_in 0xff 0xffffffff 0 []] [], demo_tx 2 []]\<rparr>"

definition demo_handler :: block_handler where
  "demo_handler = \<lparr>bh_activation_height = 0, bh_pqc_verify_budget_ms = 100, bh_extra_prevouts = Map.empty\<rparr>"

definition demo_dbs :: dbs where
  "demo_dbs = put_headers sample_libs [(blk_header genesis, 0), (blk_header second_block, 1)] dbs_new"

lemma demo_hash: "n < 256 \<Longrightarrow> le_bytes 32 n = word_of_nat n # replicate 31 0"
  using le_bytes_small [of n 31] by (simp flip: numeral_eq_Suc)

lemma demo_hashes:
  "block_hash_of sample_libs genesis = 2 # replicate 31 0"
  "block_hash_of sample_libs second_block = 3 # replicate 31 0"
  using demo_hash [of 2] demo_hash [of 3]
  by (simp_all add: genesis_def second_block_def sample_header_def flip: numeral_2_eq_2 del: replicate.simps)

lemma demo_not_zeros: "n \<noteq> 0 \<Longrightarrow> n # replicate 31 0 \<noteq> all_zeros"
  by (auto simp: all_zeros_def numeral_eq_Suc)

lemma demo_no_collision:
  "no_collision sample_libs dbs_new [(blk_header genesis, 0), (blk_header second_block, 1)]"
  using demo_hashes by (auto simp: no_collision_def dbs_new_def inj_on_def simp del: sample_libs_sel)

lemma demo_dbs_headers:
  "db_header demo_dbs (2 # replicate 31 0) = Some (blk_header genesis)"
  "db_header demo_dbs (3 # replicate 31 0) = Some (blk_header second_block)"
  "db_height demo_dbs (2 # replicate 31 0) = Some 0" "db_height demo_dbs (3 # replicate 31 0) = Some 1"
  "db_p2mr_utxos demo_dbs = Map.empty"
proof -
  have "hdr_prev_blockhash (blk_header genesis) = all_zeros"
    "hdr_prev_blockhash (blk_header second_block) = 2 # replicate 31 0"
    by (simp_all add: genesis_def second_block_def sample_header_def)
  then show
    "db_header demo_dbs (2 # replicate 31 0) = Some (blk_header genesis)"
    "db_header demo_dbs (3 # replicate 31 0) = Some (blk_header second_block)"
    "db_height demo_dbs (2 # replicate 31 0) = Some 0" "db_height demo_dbs (3 # replicate 31 0) = Some 1"
    "db_p2mr_utxos demo_dbs = Map.empty"
    using demo_hashes demo_not_zeros [of 2]
    by (simp_all add: demo_dbs_def put_headers_def put_header_def Let_def dbs_new_def del: sample_libs_sel)
qed

lemma demo_node_outpoints:
  "tx_outpoints sample_libs genesis_coinbase = [(\<lparr>op_txid = 2 # replicate 31 0, op_vout = 0\<rparr>, demo_prevout)]"
  "tx_outpoints sample_libs (sample_tx 50 [sample_in 0xff 0xffffffff 0 []] []) = []"
  "tx_outpoints sample_libs (demo_tx 2 []) = [(\<lparr>op_txid = 8 # replicate 31 0, op_vout = 0\<rparr>, sample_out 40000 [0x6a])]"
  using demo_hash [of 2] demo_hash [of 8]
  by (simp_all add: tx_outpoints_def genesis_coinbase_def demo_tx_def sample_tx_def
      flip: numeral_2_eq_2 del: replicate.simps)

lemma demo_node_inputs:
  "tx_input genesis_coinbase = [sample_in 0xff 0xffffffff 0 []]"
  "tx_input (sample_tx 50 [sample_in 0xff 0xffffffff 0 []] []) = [sample_in 0xff 0xffffffff 0 []]"
  "tx_input (demo_tx 2 []) = [sample_in 2 0 0 (demo_sigs @ [demo_leaf, [0xc1]])]"
  by (simp_all add: genesis_coinbase_def sample_tx_def demo_tx_def)

lemma replay_sample_in:
  "replay_input m (sample_in t vout sequence wit) = m(\<lparr>op_txid = t # replicate 31 0, op_vout = vout\<rparr> := None)"
  by (simp add: replay_input_def sample_in_def)

lemma genesis_chain:
  "replay_chain sample_libs [genesis] = [\<lparr>op_txid = 2 # replicate 31 0, op_vout = 0\<rparr> \<mapsto> demo_prevout]"
  by (simp add: replay_block_def replay_tx_def genesis_def demo_node_outpoints replay_output_def
      is_p2mr_out_def demo_node_inputs replay_sample_in del: replicate.simps)

lemma genesis_admissible: "admissible sample_libs demo_handler demo_dbs [] genesis"
  using demo_hashes(1) demo_not_zeros [of 2] demo_dbs_headers
  by (simp add: admissible_def demo_handler_def new_outputs_def block_outpoints_def genesis_def
      demo_node_outpoints demo_node_inputs sample_header_def del: replicate.simps)

lemma demo_run0: "node_run sample_libs demo_dbs []"
  unfolding demo_dbs_def by (rule node_run.headers [OF node_run.start demo_no_collision])

lemma demo_run1:
  "\<exists>ev D. connect_block sample_libs demo_handler genesis demo_dbs = (Inr ev, D)"
proof -
  have "is_ok (validate_and_diff_block_transactions sample_libs genesis 0 0 Map.empty Map.empty 100)"
    by (simp add: validate_and_diff_block_transactions_def is_active_def genesis_def split: prod.splits)
  moreover have "hdr_prev_blockhash (blk_header genesis) = parent_hash sample_libs []"
    by (simp add: genesis_def sample_header_def parent_hash_def)
  ultimately show ?thesis
    using connect_accepts_iff [OF demo_run0 genesis_admissible, of 0 genesis_coinbase "[]"]
      demo_hashes(1) demo_dbs_headers(3,5)
    by (simp add: demo_handler_def genesis_def)
qed

definition demo_state1 :: dbs where
  "demo_state1 = snd (connect_block sample_libs demo_handler genesis demo_dbs)"

lemma demo_state1:
  "\<exists>ev. connect_block sample_libs demo_handler genesis demo_dbs = (Inr ev, demo_state1)"
  "node_run sample_libs demo_state1 [genesis]"
  "db_header demo_state1 = db_header demo_dbs" "db_height demo_state1 = db_height demo_dbs"
  "db_p2mr_utxos demo_state1 = replay_chain sample_libs [genesis]"
proof -
  obtain ev D where c: "connect_block sample_libs demo_handler genesis demo_dbs = (Inr ev, D)"
    using demo_run1 by blast
  then have D: "demo_state1 = D" by (simp add: demo_state1_def)
  show "\<exists>ev. connect_block sample_libs demo_handler genesis demo_dbs = (Inr ev, demo_state1)"
    using c D by blast
  show run: "node_run sample_libs demo_state1 [genesis]"
    unfolding D by (rule node_run.connect [OF demo_run0 genesis_admissible c])
  show "db_header demo_state1 = db_header demo_dbs" "db_height demo_state1 = db_height demo_dbs"
    using connect_keeps_headers [OF c] D by simp_all
  show "db_p2mr_utxos demo_state1 = replay_chain sample_libs [genesis]"
    using node_run_inv [OF run] by (simp add: tracks_def)
qed

lemma second_admissible: "admissible sample_libs demo_handler demo_state1 [genesis] second_block"
proof -
  have "hdr_bits (blk_header second_block) = 3"
    by (simp add: second_block_def sample_header_def)
  moreover have "block_outpoints sample_libs second_block = [\<lparr>op_txid = 8 # replicate 31 0, op_vout = 0\<rparr>]"
    by (simp add: block_outpoints_def second_block_def demo_node_outpoints del: replicate.simps)
  moreover have "replay_chain sample_libs [genesis] \<lparr>op_txid = 8 # replicate 31 0, op_vout = 0\<rparr> = None"
    "replay_chain sample_libs [genesis] (txi_previous_output (sample_in 0xff 0xffffffff 0 [])) = None"
    unfolding genesis_chain by (simp_all add: sample_in_def)
  moreover have "(case blk_txdata second_block of [] \<Rightarrow> [] | coinbase # _ \<Rightarrow> tx_input coinbase)
      = [sample_in 0xff 0xffffffff 0 []]"
    by (simp add: second_block_def sample_tx_def)
  moreover have "(3 :: u8) # replicate 31 0 \<noteq> 2 # replicate 31 0" by simp
  ultimately show ?thesis
    using demo_hashes demo_not_zeros [of 3] demo_dbs_headers(2)
    by (simp add: admissible_def demo_state1(3,5) new_outputs_def demo_handler_def
        del: replay_chain.simps replicate.simps)
qed

lemma demo_run2:
  "\<exists>ev D. connect_block sample_libs demo_handler second_block demo_state1 = (Inr ev, D)"
proof -
  let ?c = "replay_chain sample_libs [genesis]"
  have "fst (initial_view sample_libs second_block ?c Map.empty) \<lparr>op_txid = 2 # replicate 31 0, op_vout = 0\<rparr>
      = Some demo_prevout"
    unfolding genesis_chain
    by (simp add: initial_view_def seed_coinbase_p2mr_diff_def second_block_def demo_node_outpoints
        fill_extra_def del: replicate.simps)
  from demo_spend_validates [OF _ this, of "sample_tx 50 [sample_in 0xff 0xffffffff 0 []] []" 1]
  have "is_ok (validate_and_diff_block_transactions sample_libs second_block 1 0 ?c Map.empty 100)"
    by (auto simp: second_block_def is_ok_iff)
  moreover have "hdr_prev_blockhash (blk_header second_block) = parent_hash sample_libs [genesis]"
    using demo_hashes(1) by (simp add: second_block_def sample_header_def parent_hash_def)
  moreover have "db_height demo_state1 (block_hash_of sample_libs second_block) = Some 1"
    using demo_hashes(2) demo_dbs_headers(4) by (simp only: demo_state1(4))
  moreover have "\<exists>cb txs. blk_txdata second_block = cb # txs" by (simp add: second_block_def)
  ultimately show ?thesis
    using connect_accepts_iff [OF demo_state1(2) second_admissible, of 1]
    by (auto simp: demo_handler_def demo_state1(5) simp del: replay_chain.simps)
qed

text \<open>The two blocks connect; the output of the first is spent by the second.\<close>

theorem node_follows_chain_witness:
  "\<exists>D :: dbs. db_tip D = Some (block_hash_of sample_libs second_block)
    \<and> db_p2mr_utxos D = replay_chain sample_libs [second_block, genesis]
    \<and> db_p2mr_utxos D \<lparr>op_txid = 2 # replicate 31 0, op_vout = 0\<rparr> = None"
proof -
  obtain ev D where c: "connect_block sample_libs demo_handler second_block demo_state1 = (Inr ev, D)"
    using demo_run2 by blast
  have run: "node_run sample_libs D [second_block, genesis]"
    by (rule node_run.connect [OF demo_state1(2) second_admissible c])
  have "replay_chain sample_libs [second_block, genesis] \<lparr>op_txid = 2 # replicate 31 0, op_vout = 0\<rparr> = None"
    unfolding replay_chain.simps(2) [of sample_libs second_block] replay_block_def [of _ _ second_block]
    by (simp add: replay_tx_def second_block_def demo_node_inputs demo_node_outpoints replay_sample_in
        replay_output_def is_p2mr_out_def is_p2mr_script_def sample_out_def
        del: replicate.simps replay_chain.simps)
  then show ?thesis
    using node_follows_chain [OF run] by (intro exI [of _ D]) (simp only: list.case simp_thms)
qed


theorem rejection_leaves_no_trace_witness:
  "snd (connect_block sample_libs demo_handler second_block demo_dbs) = demo_dbs"
proof -
  have "check_parent second_block demo_dbs
      = Inl (BlockParent (2 # replicate 31 0) all_zeros 0)"
    using demo_not_zeros [of 2]
    by (simp add: check_parent_def demo_dbs_def put_headers_def put_header_def Let_def dbs_new_def
        second_block_def sample_header_def del: replicate.simps)
  then have "\<exists>D. connect_block sample_libs demo_handler second_block demo_dbs
      = (Inl (BlockParent (2 # replicate 31 0) all_zeros 0), D)"
    by (simp add: connect_block_def st_iffs del: replicate.simps)
  then show ?thesis using rejection_leaves_no_trace by fastforce
qed

theorem connect_iff_valid_witness:
  "is_ok (validate_and_diff_block_transactions sample_libs second_block 1 0
     (replay_chain sample_libs [genesis]) Map.empty 100)"
proof -
  have "db_height demo_state1 (block_hash_of sample_libs second_block) = Some 1"
    using demo_hashes(2) demo_dbs_headers(4) by (simp only: demo_state1(4))
  moreover obtain cb txs where "blk_txdata second_block = cb # txs" by (simp add: second_block_def)
  ultimately show ?thesis
    using connect_iff_valid [OF demo_state1(2) second_admissible] demo_run2
    by (simp add: demo_handler_def demo_state1(5) del: replay_chain.simps)
qed

theorem connect_disconnect_roundtrip_witness:
  "\<exists>D. disconnect_block sample_libs (block_hash_of sample_libs genesis) demo_state1
       = (Inr (Some (DisconnectBlockEvent (block_hash_of sample_libs genesis))), D)
    \<and> db_tip D = None \<and> db_p2mr_utxos D = Map.empty"
proof -
  obtain ev where "connect_block sample_libs demo_handler genesis demo_dbs = (Inr ev, demo_state1)"
    using demo_state1(1) by blast
  from connect_disconnect_roundtrip [OF demo_run0 genesis_admissible this]
  show ?thesis
    using node_run_inv [OF demo_run0] by (simp add: tracks_def)
qed

end
