(* ===== verification/Disk_Index.thy ===== *)
theory Disk_Index
  imports Tx_Model
begin

text \<open>
  Bitcoin Core's block index entries (second half of \<open>lib/validator/parse_block_files.rs\<close>): the
  base-128 integers, the status flags, \<open>CDiskBlockIndex\<close> and its lookup. A reader over a byte
  slice is a computation whose state is the unread rest. The specification of the integers is the
  encoder of Core, which is not part of the repository and is written here as \<open>varint_bytes\<close>.
\<close>

section \<open>Readers over a slice\<close>

datatype io_error = IoUnexpectedEof | IoInvalidData string | IoOther string

type_synonym 'a slice_reader = "(bytes, io_error, 'a) st"

text \<open>A failing \<open>read_exact\<close> leaves an empty slice.\<close>

definition slice_read_exact :: "nat \<Rightarrow> bytes slice_reader" where
  "slice_read_exact n bs =
     (if length bs < n then (Inl IoUnexpectedEof, []) else (Inr (take n bs), drop n bs))"

definition read_uint256 :: "bytes slice_reader" where
  "read_uint256 = slice_read_exact 32"

definition read_uint32 :: "u32 slice_reader" where
  "read_uint32 = bindS (slice_read_exact 4) (\<lambda>buf. returnS (word_of_nat (le_value buf)))"

section \<open>Variable-length integers\<close>

text \<open>The loop with its accumulator; the three early returns are the errors.\<close>

fun read_varint_loop :: "u64 \<Rightarrow> u64 slice_reader" where
  "read_varint_loop n [] = (Inl IoUnexpectedEof, [])"
| "read_varint_loop n (ch_data # rest) =
     (if n > drop_bit 7 (- 1) then (Inl (IoInvalidData ''VarInt size too large''), rest)
      else
        let n' = push_bit 7 n OR ucast (ch_data AND 0x7F) in
        if ch_data AND 0x80 \<noteq> 0
        then if n' = - 1 then (Inl (IoInvalidData ''VarInt size too large''), rest)
             else read_varint_loop (n' + 1) rest
        else (Inr n', rest))"

definition read_varint :: "u64 slice_reader" where
  "read_varint = read_varint_loop 0"

text \<open>
  Core's \<open>WriteVarInt\<close>: seven bits per byte, most significant group first, the continuation bit
  on all but the last byte, and one subtracted from every group but the last so that each number
  has one encoding. \<open>varint_prefix m\<close> are the bytes after which the accumulator is \<open>m\<close>.
\<close>

fun varint_prefix :: "nat \<Rightarrow> bytes" where
  "varint_prefix 0 = []"
| "varint_prefix (Suc m) = varint_prefix (m div 128) @ [word_of_nat (128 + m mod 128)]"

definition varint_bytes :: "nat \<Rightarrow> bytes" where
  "varint_bytes n = varint_prefix (n div 128) @ [word_of_nat (n mod 128)]"

lemma unat_u64: "n < 2 ^ 64 \<Longrightarrow> unat (word_of_nat n :: u64) = n"
  by (simp add: unat_of_nat take_bit_nat_eq_self)

lemma low_bits: "unat (ucast (ch AND 0x7F :: u8) :: u64) = unat ch mod 128"
proof -
  have "(0x7F :: u8) = mask 7" by (simp add: mask_eq_exp_minus_1)
  then have "ch AND 0x7F = take_bit 7 ch" by (simp add: take_bit_eq_mask)
  then have "unat (ch AND 0x7F) = unat ch mod 128"
    by (simp add: unsigned_take_bit_eq) (simp add: take_bit_eq_mod)
  then show ?thesis by (simp add: unsigned_ucast_eq take_bit_nat_eq_self)
qed

lemma continuation_bit: "(ch AND 0x80 \<noteq> 0) = (128 \<le> unat (ch :: u8))"
proof -
  have "ch AND 0x80 = 0 \<longleftrightarrow> \<not> bit ch 7"
    using and_exp_eq_0_iff_not_bit [of ch 7] by simp
  moreover have "bit ch 7 = odd (unat ch div 128)"
  proof -
    have "bit ch 7 = bit (unat ch) 7" by (simp add: bit_unsigned_iff)
    then show ?thesis by (simp add: bit_iff_odd)
  qed
  moreover have "unat ch div 128 = (if 128 \<le> unat ch then 1 else 0)"
    using unat_byte_less [of ch] by (simp add: div_nat_eqI)
  ultimately show ?thesis by simp
qed

lemma shift_or_payload:
  assumes "unat n < 2 ^ 57"
  shows "unat (push_bit 7 n OR ucast (ch AND 0x7F :: u8) :: u64) = unat n * 128 + unat ch mod 128"
proof -
  let ?p = "ucast (ch AND 0x7F) :: u64"
  have shift: "unat (push_bit 7 n) = unat n * 128"
    using assms by (simp add: push_bit_eq_mult unat_word_ariths)
  have high: "\<not> bit ?p i" if "7 \<le> i" for i
  proof -
    have "unat ?p < 2 ^ 7" using low_bits [of ch] by simp
    then have "\<not> bit (unat ?p) i" using that by (metis bit_take_bit_iff not_le take_bit_nat_eq_self)
    then show ?thesis by (simp add: bit_unsigned_iff)
  qed
  have "push_bit 7 n AND ?p = 0"
  proof (rule bit_eqI)
    fix i show "bit (push_bit 7 n AND ?p) i = bit 0 i"
      using high [of i] by (simp only: bit_and_iff bit_push_bit_iff bit_0_eq bot_apply bot_bool_def) blast
  qed
  then have "push_bit 7 n OR ?p = push_bit 7 n + ?p"
    by (rule disjunctive_add_eq_or [symmetric])
  then have "unat (push_bit 7 n OR ?p) = (unat (push_bit 7 n) + unat ?p) mod 2 ^ LENGTH(64)"
    by (simp only: unat_word_ariths)
  moreover have "unat n * 128 + unat ch mod 128 < 2 ^ LENGTH(64)"
  proof -
    have "unat n * 128 \<le> (2 ^ 57 - 1) * 128" using assms by simp
    moreover have "unat ch mod 128 < 128" by simp
    ultimately show ?thesis by simp
  qed
  ultimately show ?thesis unfolding shift low_bits by (simp only: mod_less)
qed

lemma unat_max_u64: "unat (- 1 :: u64) = 2 ^ 64 - 1"
  by (simp add: unsigned_minus_1_eq_mask mask_eq_exp_minus_1)

lemma max_shift: "(n > drop_bit 7 (- 1 :: u64)) = (2 ^ 57 \<le> unat n)"
proof -
  have "unat (drop_bit 7 (- 1 :: u64)) = 2 ^ 57 - 1"
    by (simp add: unat_drop_bit_eq unat_max_u64 drop_bit_eq_div)
  then have "(n > drop_bit 7 (- 1 :: u64)) = (2 ^ 57 - 1 < unat n)"
    by (simp only: word_less_nat_alt)
  then show ?thesis by auto
qed

text \<open>One step of the loop on numbers.\<close>

lemma read_varint_step:
  "read_varint_loop n (ch # rest) =
     (if 2 ^ 57 \<le> unat n then (Inl (IoInvalidData ''VarInt size too large''), rest)
      else
        let m = unat n * 128 + unat ch mod 128 in
        if 128 \<le> unat ch
        then if m = 2 ^ 64 - 1 then (Inl (IoInvalidData ''VarInt size too large''), rest)
             else read_varint_loop (word_of_nat (Suc m)) rest
        else (Inr (word_of_nat m), rest))"
proof (cases "2 ^ 57 \<le> unat n")
  case False
  let ?w = "push_bit 7 n OR ucast (ch AND 0x7F) :: u64"
  have m: "unat ?w = unat n * 128 + unat ch mod 128"
    by (rule shift_or_payload) (use False in simp)
  have "(?w = - 1) = (unat ?w = 2 ^ 64 - 1)"
    by (simp only: word_unat_eq_iff unat_max_u64)
  moreover have "?w + 1 = word_of_nat (Suc (unat ?w))" "word_of_nat (unat ?w) = ?w" by simp_all
  ultimately show ?thesis
    using False
    by (simp only: read_varint_loop.simps max_shift continuation_bit Let_def m if_False)
qed (simp only: read_varint_loop.simps max_shift if_True)

lemma read_varint_prefix:
  "m < 2 ^ 57 + 1 \<Longrightarrow> read_varint_loop 0 (varint_prefix m @ bs) = read_varint_loop (word_of_nat m) bs"
proof (induction m arbitrary: bs rule: varint_prefix.induct)
  case (2 m)
  let ?q = "m div 128" and ?ch = "word_of_nat (128 + m mod 128) :: u8"
  have q: "?q < 2 ^ 57" using "2.prems" by auto
  have ch: "unat ?ch = 128 + m mod 128" by (rule unat_word_of_nat_byte) simp
  have u: "unat (word_of_nat ?q :: u64) = ?q"
    using q by (simp add: unat_of_nat take_bit_nat_eq_self)
  have m: "?q * 128 + m mod 128 = m" by simp
  have "read_varint_loop 0 (varint_prefix (Suc m) @ bs) = read_varint_loop (word_of_nat ?q) (?ch # bs)"
    using "2.IH" [of "?ch # bs"] q by simp
  also have "\<dots> = read_varint_loop (word_of_nat (Suc m)) bs"
    unfolding read_varint_step u ch using q "2.prems" m by (simp add: Let_def)
  finally show ?case .
qed simp

lemma read_varint_complete: "read_varint (varint_bytes (unat v) @ rest) = (Inr v, rest)"
proof -
  let ?q = "unat v div 128" and ?ch = "word_of_nat (unat v mod 128) :: u8"
  have "unat v < 2 ^ LENGTH(64)" by (rule unsigned_less)
  then have q: "?q < 2 ^ 57" by simp
  have u: "unat (word_of_nat ?q :: u64) = ?q"
    using q by (simp add: unat_of_nat take_bit_nat_eq_self)
  have ch: "unat ?ch = unat v mod 128" by simp
  have v: "?q * 128 + unat v mod 128 = unat v" by simp
  have "read_varint (varint_bytes (unat v) @ rest) = read_varint_loop (word_of_nat ?q) (?ch # rest)"
    using read_varint_prefix [of ?q "?ch # rest"] q by (simp add: read_varint_def varint_bytes_def)
  also have "\<dots> = (Inr v, rest)"
    unfolding read_varint_step u ch using q v mod_less_divisor [of 128 "unat v"]
    by (simp add: Let_def del: mod_less_divisor)
  finally show ?thesis .
qed

text \<open>Conversely, the loop has read exactly an encoding.\<close>

lemma group_bound: "n < 2 ^ 57 \<Longrightarrow> n * 128 + k mod 128 < (2 ^ 64 :: nat)"
proof -
  assume "n < 2 ^ 57"
  then have "n * 128 \<le> (2 ^ 57 - 1) * 128" by simp
  moreover have "k mod 128 < 128" by simp
  ultimately show ?thesis by simp
qed

lemma read_varint_loop_sound:
  "read_varint_loop n bs = (Inr v, rest) \<Longrightarrow> varint_prefix (unat n) @ bs = varint_bytes (unat v) @ rest"
proof (induction bs arbitrary: n)
  case (Cons ch bs)
  let ?m = "unat n * 128 + unat ch mod 128"
  have n: "unat n < 2 ^ 57"
    using Cons.prems unfolding read_varint_step by (simp split: if_splits)
  have div: "?m div 128 = unat n" "?m mod 128 = unat ch mod 128" by simp_all
  show ?case
  proof (cases "128 \<le> unat ch")
    case True
    then have "?m \<noteq> 2 ^ 64 - 1" and run: "read_varint_loop (word_of_nat (Suc ?m)) bs = (Inr v, rest)"
      using Cons.prems n unfolding read_varint_step by (auto simp: Let_def split: if_splits)
    have "?m < 2 ^ 64" by (rule group_bound [OF n])
    then have "Suc ?m < 2 ^ 64" using \<open>?m \<noteq> _\<close> by linarith
    then have u: "unat (word_of_nat (Suc ?m) :: u64) = Suc ?m"
      by (simp add: unat_of_nat take_bit_nat_eq_self del: of_nat_Suc)
    have "word_of_nat (128 + unat ch mod 128) = ch"
    proof -
      have "unat ch mod 128 = unat ch - 128"
        using True unat_byte_less [of ch] by (subst mod_if) simp
      then have "128 + unat ch mod 128 = unat ch" using True by simp
      moreover have "word_of_nat (unat ch) = ch" by simp
      ultimately show ?thesis by (simp only:)
    qed
    then have "varint_prefix (Suc ?m) = varint_prefix (unat n) @ [ch]" by (simp only: varint_prefix.simps div)
    then show ?thesis using Cons.IH [OF run] unfolding u by simp
  next
    case False
    then have v: "v = word_of_nat ?m" and "rest = bs"
      using Cons.prems n unfolding read_varint_step by (auto simp: Let_def)
    have "?m < 2 ^ 64" by (rule group_bound [OF n])
    then have u: "unat v = ?m" unfolding v by (simp only: unat_u64)
    have "word_of_nat (unat ch mod 128) = ch" using False by simp
    then show ?thesis using \<open>rest = bs\<close> by (simp only: u varint_bytes_def div) simp
  qed
qed simp

section \<open>Status flags\<close>

datatype block_status = BlockStatus u32

fun status_bits :: "block_status \<Rightarrow> u32" where
  "status_bits (BlockStatus v) = v"

definition VALID_TREE :: u32 where "VALID_TREE = 2"
definition VALID_MASK :: u32 where "VALID_MASK = 7"
definition HAVE_DATA :: u32 where "HAVE_DATA = 8"
definition HAVE_UNDO :: u32 where "HAVE_UNDO = 16"
definition FAILED_VALID :: u32 where "FAILED_VALID = 32"
definition FAILED_CHILD :: u32 where "FAILED_CHILD = 64"
definition OPT_WITNESS :: u32 where "OPT_WITNESS = 128"

definition validation_level :: "block_status \<Rightarrow> u32" where
  "validation_level s = status_bits s AND VALID_MASK"

definition has_data :: "block_status \<Rightarrow> bool" where
  "has_data s = (status_bits s AND HAVE_DATA \<noteq> 0)"

definition has_undo :: "block_status \<Rightarrow> bool" where
  "has_undo s = (status_bits s AND HAVE_UNDO \<noteq> 0)"

definition status_is_valid :: "block_status \<Rightarrow> bool" where
  "status_is_valid s = (validation_level s \<ge> VALID_TREE)"

definition has_witness :: "block_status \<Rightarrow> bool" where
  "has_witness s = (status_bits s AND OPT_WITNESS \<noteq> 0)"

definition is_failed :: "block_status \<Rightarrow> bool" where
  "is_failed s = (status_bits s AND (FAILED_VALID OR FAILED_CHILD) \<noteq> 0)"

section \<open>Index entries\<close>

record disk_block_index =
  dbi_version :: u64
  dbi_height :: u64
  dbi_status :: block_status
  dbi_tx_count :: u64
  dbi_file_number :: "u32 option"
  dbi_data_pos :: "u64 option"
  dbi_undo_pos :: "u64 option"
  dbi_block_version :: u32
  dbi_prev_block_hash :: bytes
  dbi_merkle_root :: bytes
  dbi_timestamp :: u32
  dbi_difficulty_target :: u32
  dbi_nonce :: u32

definition adjusted_data_pos :: "disk_block_index \<Rightarrow> u64 option" where
  "adjusted_data_pos i = Option.bind (dbi_data_pos i) (\<lambda>pos. checked_sub_u64 pos 8)"

definition read_file_number :: "u32 slice_reader" where
  "read_file_number = bindS read_varint (\<lambda>n. returnS (ucast n))"

text \<open>\<open>if cond { Some(read?) } else { None }\<close>.\<close>

definition read_if :: "bool \<Rightarrow> 'a slice_reader \<Rightarrow> 'a option slice_reader" where
  "read_if cond m = (if cond then bindS m (\<lambda>x. returnS (Some x)) else returnS None)"

definition index_deserialize :: "disk_block_index slice_reader" where
  "index_deserialize =
     bindS read_varint (\<lambda>version.
     bindS read_varint (\<lambda>height.
     bindS read_varint (\<lambda>status_raw.
     let status = BlockStatus (ucast status_raw) in
     bindS read_varint (\<lambda>tx_count.
     bindS (read_if (has_data status \<or> has_undo status) read_file_number) (\<lambda>file_number.
     bindS (read_if (has_data status) read_varint) (\<lambda>data_pos.
     bindS (read_if (has_undo status) read_varint) (\<lambda>undo_pos.
     bindS read_uint32 (\<lambda>block_version.
     bindS read_uint256 (\<lambda>prev_block_hash.
     bindS read_uint256 (\<lambda>merkle_root.
     bindS read_uint32 (\<lambda>timestamp.
     bindS read_uint32 (\<lambda>difficulty_target.
     bindS read_uint32 (\<lambda>nonce.
     returnS \<lparr>dbi_version = version, dbi_height = height, dbi_status = status, dbi_tx_count = tx_count,
       dbi_file_number = file_number, dbi_data_pos = data_pos, dbi_undo_pos = undo_pos,
       dbi_block_version = block_version, dbi_prev_block_hash = prev_block_hash,
       dbi_merkle_root = merkle_root, dbi_timestamp = timestamp,
       dbi_difficulty_target = difficulty_target, dbi_nonce = nonce\<rparr>)))))))))))))"

section \<open>Lookup\<close>

datatype fetch_block_index_error =
  IndexNotFound bytes
| IndexDeserialize bytes io_error
| IndexOpen string
| IndexCopy string
| IndexClose string
| IndexCleanup string
| MissingFileNumber
| MissingDataPos

text \<open>The key is the letter \<open>b\<close> and the hash in its internal byte order.\<close>

definition fetch_block_index_inner ::
  "(bytes \<Rightarrow> bytes option) \<Rightarrow> bytes \<Rightarrow> fetch_block_index_error + disk_block_index" where
  "fetch_block_index_inner get hash =
     (case get (0x62 # hash) of
        None \<Rightarrow> Inl (IndexNotFound hash)
      | Some v \<Rightarrow> mapErr (IndexDeserialize hash) (fst (index_deserialize v)))"

text \<open>
  The store is a LevelDB directory that is copied, opened, read, closed and removed; each step but
  the read may fail with an error of the file system or of the library.
\<close>

record index_store =
  ixs_copy :: "string + unit"
  ixs_open :: "string + (bytes \<Rightarrow> bytes option)"
  ixs_close :: "string + unit"
  ixs_cleanup :: "string + unit"

definition fetch_block_index ::
  "index_store \<Rightarrow> bytes \<Rightarrow> fetch_block_index_error + disk_block_index" where
  "fetch_block_index S hash =
     bindE (mapErr IndexCopy (ixs_copy S)) (\<lambda>_.
     bindE (mapErr IndexOpen (ixs_open S)) (\<lambda>db.
     let res = fetch_block_index_inner db hash in
     bindE (mapErr IndexClose (ixs_close S)) (\<lambda>_.
     bindE (mapErr IndexCleanup (ixs_cleanup S)) (\<lambda>_.
     res))))"

section \<open>Core's serialization, and the round trip\<close>

definition opt_bytes :: "('a \<Rightarrow> bytes) \<Rightarrow> 'a option \<Rightarrow> bytes" where
  "opt_bytes f x = (case x of None \<Rightarrow> [] | Some y \<Rightarrow> f y)"

abbreviation word_varint :: "'a::len word \<Rightarrow> bytes" where
  "word_varint w \<equiv> varint_bytes (unat w)"

abbreviation le32 :: "u32 \<Rightarrow> bytes" where
  "le32 w \<equiv> le_bytes 4 (unat w)"

definition index_serialize :: "disk_block_index \<Rightarrow> bytes" where
  "index_serialize i =
     word_varint (dbi_version i) @ word_varint (dbi_height i) @ word_varint (status_bits (dbi_status i))
     @ word_varint (dbi_tx_count i) @ opt_bytes word_varint (dbi_file_number i)
     @ opt_bytes word_varint (dbi_data_pos i) @ opt_bytes word_varint (dbi_undo_pos i)
     @ le32 (dbi_block_version i) @ dbi_prev_block_hash i @ dbi_merkle_root i
     @ le32 (dbi_timestamp i) @ le32 (dbi_difficulty_target i) @ le32 (dbi_nonce i)"

text \<open>The positions that are present are those that the status announces.\<close>

definition index_wf :: "disk_block_index \<Rightarrow> bool" where
  "index_wf i =
     ((dbi_file_number i \<noteq> None) = (has_data (dbi_status i) \<or> has_undo (dbi_status i))
      \<and> (dbi_data_pos i \<noteq> None) = has_data (dbi_status i)
      \<and> (dbi_undo_pos i \<noteq> None) = has_undo (dbi_status i)
      \<and> length (dbi_prev_block_hash i) = 32 \<and> length (dbi_merkle_root i) = 32)"

lemma slice_read_append: "length xs = n \<Longrightarrow> slice_read_exact n (xs @ ys) = (Inr xs, ys)"
  by (simp add: slice_read_exact_def)

lemma read_uint32_append: "read_uint32 (le32 w @ ys) = (Inr w, ys)"
proof -
  have "unat w < 2 ^ LENGTH(32)" by (rule unsigned_less)
  then have "le_value (le32 w) = unat w" by (intro le_value_le_bytes) simp
  then show ?thesis by (simp add: read_uint32_def bindS_def slice_read_append returnS_def)
qed

lemma unat_u32_to_u64: "unat (ucast (w :: u32) :: u64) = unat w"
proof -
  have "unat w < 2 ^ LENGTH(32)" by (rule unsigned_less)
  then have "take_bit LENGTH(64) (unat w) = unat w" by (intro take_bit_nat_eq_self) simp
  then show ?thesis by (simp only: unsigned_ucast_eq)
qed

lemma u32_through_u64: "ucast (ucast (w :: u32) :: u64) = w"
proof -
  have "take_bit LENGTH(32) (unat w) = unat w"
    by (intro take_bit_nat_eq_self unsigned_less)
  moreover have "unat (ucast (ucast w :: u64) :: u32) = take_bit LENGTH(32) (unat (ucast w :: u64))"
    by (rule unsigned_ucast_eq)
  ultimately show ?thesis by (simp only: word_unat_eq_iff unat_u32_to_u64)
qed

lemma read_varint_u32: "read_varint (word_varint (w :: u32) @ ys) = (Inr (ucast w), ys)"
  using read_varint_complete [of "ucast w" ys] by (simp only: unat_u32_to_u64)

lemma read_file_number_append: "read_file_number (word_varint w @ ys) = (Inr w, ys)"
  by (simp only: read_file_number_def bindS_def read_varint_u32 prod.case sum.case u32_through_u64 returnS_def)

lemmas index_reads = slice_read_append read_uint32_append read_varint_complete read_varint_u32

lemma read_if_append:
  assumes "c = (x \<noteq> None)" and "\<And>y. x = Some y \<Longrightarrow> m (f y @ ys) = (Inr y, ys)"
  shows "read_if c m (opt_bytes f x @ ys) = (Inr x, ys)"
  using assms by (cases x) (simp_all add: read_if_def opt_bytes_def bindS_def returnS_def)

lemma index_roundtrip:
  assumes "index_wf i"
  shows "index_deserialize (index_serialize i @ rest) = (Inr i, rest)"
proof -
  have status: "BlockStatus (ucast (ucast (status_bits (dbi_status i)) :: u64)) = dbi_status i"
    by (cases "dbi_status i") (simp only: status_bits.simps u32_through_u64)
  have fnum: "read_if (has_data (dbi_status i) \<or> has_undo (dbi_status i))
       read_file_number (opt_bytes word_varint (dbi_file_number i) @ ys)
     = (Inr (dbi_file_number i), ys)" for ys
    by (rule read_if_append)
      (use assms in \<open>auto simp: index_wf_def read_file_number_append\<close>)
  have data: "read_if (has_data (dbi_status i)) read_varint (opt_bytes word_varint (dbi_data_pos i) @ ys)
     = (Inr (dbi_data_pos i), ys)" for ys
    by (rule read_if_append) (use assms in \<open>auto simp: index_wf_def read_varint_complete\<close>)
  have undo: "read_if (has_undo (dbi_status i)) read_varint (opt_bytes word_varint (dbi_undo_pos i) @ ys)
     = (Inr (dbi_undo_pos i), ys)" for ys
    by (rule read_if_append) (use assms in \<open>auto simp: index_wf_def read_varint_complete\<close>)
  have hashes: "read_uint256 (dbi_prev_block_hash i @ ys) = (Inr (dbi_prev_block_hash i), ys)"
    "read_uint256 (dbi_merkle_root i @ ys) = (Inr (dbi_merkle_root i), ys)" for ys
    using assms by (simp_all add: read_uint256_def slice_read_append index_wf_def)
  show ?thesis
    unfolding index_deserialize_def index_serialize_def
    by (simp add: bindS_def index_reads status fnum data undo hashes returnS_def Let_def)
qed

section \<open>Properties\<close>

text \<open>
  C19: the integers of the block index have exactly one encoding each: \<open>read_varint\<close> returns a
  value and a rest if and only if the input is Core's encoding of the value followed by the rest;
  truncated, overflowing and non-canonical inputs are errors.
\<close>
theorem varint_exact:
  "(read_varint bs = (Inr v, rest)) = (bs = varint_bytes (unat v) @ rest)"
  using read_varint_complete read_varint_loop_sound [of 0 bs v rest]
  by (auto simp: read_varint_def)

text \<open>
  An index entry survives the disk: when the copied store holds Core's serialization of a
  well-formed entry under the key of a block hash, and the file system works,
  \<open>fetch_block_index\<close> returns exactly that entry, whatever bytes follow it.
\<close>
theorem fetch_block_index_roundtrip:
  assumes "index_wf i" and "get (0x62 # hash) = Some (index_serialize i @ rest)"
  shows "fetch_block_index \<lparr>ixs_copy = Inr (), ixs_open = Inr get, ixs_close = Inr (), ixs_cleanup = Inr ()\<rparr> hash
    = Inr i"
  using assms by (simp add: fetch_block_index_def fetch_block_index_inner_def index_roundtrip Let_def)

definition sample_index :: disk_block_index where
  "sample_index =
     \<lparr>dbi_version = 259900, dbi_height = 840000, dbi_status = BlockStatus 157, dbi_tx_count = 3050,
      dbi_file_number = Some 4321, dbi_data_pos = Some 123456789, dbi_undo_pos = Some 1000,
      dbi_block_version = 0x20000000, dbi_prev_block_hash = replicate 32 1,
      dbi_merkle_root = replicate 32 2, dbi_timestamp = 1713571767, dbi_difficulty_target = 0x17034219,
      dbi_nonce = 7\<rparr>"

theorem fetch_block_index_roundtrip_witness:
  "fetch_block_index \<lparr>ixs_copy = Inr (), ixs_open = Inr (\<lambda>k. if k = 0x62 # replicate 32 9
       then Some (index_serialize sample_index @ [0]) else None), ixs_close = Inr (), ixs_cleanup = Inr ()\<rparr>
     (replicate 32 9) = Inr sample_index"
  by (rule fetch_block_index_roundtrip [where rest = "[0]"])
    (simp_all add: index_wf_def sample_index_def has_data_def has_undo_def HAVE_DATA_def HAVE_UNDO_def)

end
