(* ===== verification/Parse_Block_Files.thy ===== *)
theory Parse_Block_Files
  imports Disk_Index
begin

text \<open>
  The parser of Bitcoin Core's block files (first half of \<open>lib/validator/parse_block_files.rs\<close>):
  the obfuscating reader, one block, a whole file, and the files of a directory in sequence. The
  decoders of the bitcoin crate and its tables of network magics and genesis hashes are parameters; a file is its
  list of bytes, and offsets are numbers, as no file has \<open>2 ^ 64\<close> bytes.
\<close>

section \<open>Networks, limits and errors\<close>

datatype network = Bitcoin | Testnet | Testnet4 | Signet | Regtest

definition MAINNET_MAGIC :: bytes where "MAINNET_MAGIC = [0xF9, 0xBE, 0xB4, 0xD9]"
definition TESTNET_MAGIC :: bytes where "TESTNET_MAGIC = [0x0B, 0x11, 0x09, 0x07]"
definition SIGNET_MAGIC :: bytes where "SIGNET_MAGIC = [0x0A, 0x03, 0xCF, 0x40]"
definition REGTEST_MAGIC :: bytes where "REGTEST_MAGIC = [0xFA, 0xBF, 0xB5, 0xDA]"

definition MAX_BLOCK_SERIALIZED_SIZE :: nat where "MAX_BLOCK_SERIALIZED_SIZE = 4000000"

definition magic_for_network :: "network \<Rightarrow> bytes" where
  "magic_for_network n =
     (case n of Bitcoin \<Rightarrow> MAINNET_MAGIC | Testnet \<Rightarrow> TESTNET_MAGIC | Testnet4 \<Rightarrow> TESTNET_MAGIC
      | Signet \<Rightarrow> SIGNET_MAGIC | Regtest \<Rightarrow> REGTEST_MAGIC)"

record block_file_libs =
  bfl_network_magic :: "network \<Rightarrow> bytes"
  bfl_chain_hash :: "network \<Rightarrow> bytes"
  bfl_decode_header :: "bytes \<Rightarrow> header"
  bfl_decode_txs :: "bytes \<Rightarrow> string + transaction list"

datatype parse_block_file_error =
  ParseIo io_error
| InvalidMagic bytes bytes nat
| InvalidNetwork network network
| BlockSizeTooLarge nat
| BlockSizeTooSmall nat
| TxDataDecode string
| HeaderDecode
| UintDecode
| UnexpectedEof
| BlockSizeMismatch nat nat

datatype parse_all_blocks_error = ParseAllBlocksError u32 nat parse_block_file_error

record parsed_block =
  pb_header :: header
  pb_raw_tx_data :: bytes
  pb_offset :: nat

definition parse_tx_data :: "block_file_libs \<Rightarrow> parsed_block \<Rightarrow> parse_block_file_error + transaction list" where
  "parse_tx_data B b = mapErr TxDataDecode (bfl_decode_txs B (pb_raw_tx_data b))"

section \<open>The reader\<close>

record xor_reader =
  xr_data :: bytes
  xr_key :: "bytes option"
  xr_offset :: nat

text \<open>Byte \<open>i\<close> after offset \<open>off\<close> is combined with key byte \<open>(off + i) mod len\<close>.\<close>

primrec xor_from :: "bytes \<Rightarrow> nat \<Rightarrow> bytes \<Rightarrow> bytes" where
  "xor_from key off [] = []"
| "xor_from key off (b # bs) = (b XOR key ! (off mod length key)) # xor_from key (Suc off) bs"

definition xor_bytes :: "bytes option \<Rightarrow> nat \<Rightarrow> bytes \<Rightarrow> bytes" where
  "xor_bytes key off bs = (case key of None \<Rightarrow> bs | Some k \<Rightarrow> xor_from k off bs)"

text \<open>One \<open>read\<close> that delivers \<open>n\<close> bytes, and \<open>read_exact\<close>, which repeats it.\<close>

definition xor_read :: "nat \<Rightarrow> (xor_reader, io_error, bytes) st" where
  "xor_read n R =
     (Inr (xor_bytes (xr_key R) (xr_offset R) (take n (drop (xr_offset R) (xr_data R)))),
      R\<lparr>xr_offset := xr_offset R + n\<rparr>)"

definition xor_read_exact :: "nat \<Rightarrow> (xor_reader, io_error, bytes) st" where
  "xor_read_exact n R =
     (if xr_offset R + n \<le> length (xr_data R) then xor_read n R
      else (Inl IoUnexpectedEof, snd (xor_read (length (xr_data R) - xr_offset R) R)))"

definition xor_seek :: "nat \<Rightarrow> xor_reader \<Rightarrow> xor_reader" where
  "xor_seek pos R = R\<lparr>xr_offset := pos\<rparr>"

section \<open>One file\<close>

record block_file_parser =
  bfp_file :: u32
  bfp_reader :: xor_reader
  bfp_network :: network

definition block_file_new :: "bytes option \<Rightarrow> u32 \<Rightarrow> bytes \<Rightarrow> network \<Rightarrow> block_file_parser" where
  "block_file_new key file_number contents net =
     \<lparr>bfp_file = file_number, bfp_reader = \<lparr>xr_data = contents, xr_key = key, xr_offset = 0\<rparr>, bfp_network = net\<rparr>"

definition block_file_set_offset :: "nat \<Rightarrow> block_file_parser \<Rightarrow> block_file_parser" where
  "block_file_set_offset pos P = P\<lparr>bfp_reader := xor_seek pos (bfp_reader P)\<rparr>"

definition on_reader :: "(xor_reader, 'e, 'a) st \<Rightarrow> (block_file_parser, 'e, 'a) st" where
  "on_reader m P = (case m (bfp_reader P) of (r, R) \<Rightarrow> (r, P\<lparr>bfp_reader := R\<rparr>))"

text \<open>
  The magic has been decoded when it is tested for the padding at the end of a file, so applying
  the key again gives the bytes as they are on disk: padding is four zero bytes on disk.
\<close>

definition is_end_of_file :: "xor_reader \<Rightarrow> bytes \<Rightarrow> bool" where
  "is_end_of_file R magic =
     (case xr_key R of
        Some key \<Rightarrow> list_all (\<lambda>b. b = 0) (xor_from key (xr_offset R - 4) magic)
      | None \<Rightarrow> list_all (\<lambda>b. b = 0) magic)"

definition KNOWN_NETWORKS :: "network list" where
  "KNOWN_NETWORKS = [Bitcoin, Regtest, Testnet, Signet]"

definition check_magic ::
  "block_file_libs \<Rightarrow> network \<Rightarrow> nat \<Rightarrow> bytes \<Rightarrow> parse_block_file_error + unit" where
  "check_magic B net offset magic =
     (let expected_magic = magic_for_network net in
      if magic \<noteq> expected_magic then
        (case find (\<lambda>n. bfl_network_magic B n = magic) KNOWN_NETWORKS of
           Some n \<Rightarrow> Inl (InvalidNetwork n net)
         | None \<Rightarrow> Inl (InvalidMagic magic expected_magic offset))
      else Inr ())"

text \<open>What follows the magic: the size, the header and the transactions.\<close>

definition next_block_body ::
  "block_file_libs \<Rightarrow> nat \<Rightarrow> (xor_reader, parse_block_file_error, parsed_block option) st" where
  "next_block_body B offset =
     bindS (mapErrS (\<lambda>_. UintDecode) (xor_read_exact 4)) (\<lambda>size_bytes.
     let size = le_value size_bytes in
     if size > MAX_BLOCK_SERIALIZED_SIZE then throwS (BlockSizeTooLarge size)
     else
       bindS (mapErrS (\<lambda>_. HeaderDecode) (xor_read_exact 80)) (\<lambda>header_bytes.
       if size < 80 then throwS (BlockSizeTooSmall size)
       else
         bindS (mapErrS ParseIo (xor_read_exact (size - 80))) (\<lambda>txdata.
         returnS (Some \<lparr>pb_header = bfl_decode_header B header_bytes, pb_raw_tx_data = txdata,
                        pb_offset = offset\<rparr>))))"

definition reader_next_block ::
  "block_file_libs \<Rightarrow> network \<Rightarrow> (xor_reader, parse_block_file_error, parsed_block option) st" where
  "reader_next_block B net R =
     (case xor_read_exact 4 R of
        (Inl IoUnexpectedEof, R') \<Rightarrow> (Inr None, R')
      | (Inl e, R') \<Rightarrow> (Inl (ParseIo e), R')
      | (Inr magic, R') \<Rightarrow>
          if is_end_of_file R' magic then (Inr None, R')
          else bindS (liftS (\<lambda>_. check_magic B net (xr_offset R) magic))
                 (\<lambda>_. next_block_body B (xr_offset R)) R')"

definition next_block ::
  "block_file_libs \<Rightarrow> (block_file_parser, parse_block_file_error, parsed_block option) st" where
  "next_block B P = on_reader (reader_next_block B (bfp_network P)) P"

text \<open>The iterator adapter.\<close>

definition block_iterator_next ::
  "block_file_libs \<Rightarrow> block_file_parser \<Rightarrow> (parse_block_file_error + parsed_block) option \<times> block_file_parser" where
  "block_iterator_next B P =
     (case next_block B P of
        (Inr (Some block), P') \<Rightarrow> (Some (Inr block), P')
      | (Inr None, P') \<Rightarrow> (None, P')
      | (Inl e, P') \<Rightarrow> (Some (Inl e), P'))"

section \<open>Reading decodes, and every block moves forward\<close>

lemma xor_from_append: "xor_from key off (xs @ ys) = xor_from key off xs @ xor_from key (off + length xs) ys"
  by (induction xs arbitrary: off) simp_all

lemma length_xor_from [simp]: "length (xor_from key off bs) = length bs"
  by (induction bs arbitrary: off) simp_all

lemma xor_from_twice [simp]: "xor_from key off (xor_from key off bs) = bs"
  by (induction bs arbitrary: off) (simp_all add: xor.assoc)

lemma xor_bytes_append: "xor_bytes key off (xs @ ys) = xor_bytes key off xs @ xor_bytes key (off + length xs) ys"
  by (simp add: xor_bytes_def xor_from_append split: option.split)

lemma length_xor_bytes [simp]: "length (xor_bytes key off bs) = length bs"
  by (simp add: xor_bytes_def split: option.split)

lemma xor_bytes_twice [simp]: "xor_bytes key off (xor_bytes key off bs) = bs"
  by (simp add: xor_bytes_def split: option.split)

text \<open>
  How the reader splits its reads makes no difference: \<open>j\<close> bytes and then \<open>k\<close> bytes are the same
  as \<open>j + k\<close> bytes.
\<close>

lemma xor_read_split:
  assumes "xr_offset R + j + k \<le> length (xr_data R)"
  shows "bindS (xor_read j) (\<lambda>a. bindS (xor_read k) (\<lambda>b. returnS (a @ b))) R = xor_read (j + k) R"
proof -
  have "take (j + k) (drop (xr_offset R) (xr_data R))
      = take j (drop (xr_offset R) (xr_data R)) @ take k (drop (xr_offset R + j) (xr_data R))"
    by (simp add: take_add add.commute)
  then show ?thesis
    using assms by (simp add: bindS_def xor_read_def returnS_def xor_bytes_append min_absorb2)
qed

definition remaining :: "xor_reader \<Rightarrow> nat" where
  "remaining R = length (xr_data R) - xr_offset R"

lemma xor_read_exact_ok:
  "xor_read_exact n R = (Inr bs, R') \<Longrightarrow>
   xr_offset R + n \<le> length (xr_data R) \<and> R' = R\<lparr>xr_offset := xr_offset R + n\<rparr> \<and> length bs = n"
  by (auto simp: xor_read_exact_def xor_read_def split: if_splits)

lemma next_block_body_ok:
  assumes "next_block_body B offset R = (Inr r, R')"
  shows "\<exists>b. r = Some b \<and> pb_offset b = offset \<and> length (pb_raw_tx_data b) + 80 \<le> MAX_BLOCK_SERIALIZED_SIZE
    \<and> R' = R\<lparr>xr_offset := xr_offset R + 84 + length (pb_raw_tx_data b)\<rparr> \<and> xr_offset R' \<le> length (xr_data R)"
proof -
  obtain sz R1 where sz: "xor_read_exact 4 R = (Inr sz, R1)"
    using assms by (auto simp: next_block_body_def bindS_eq_Inr)
  have small: "\<not> le_value sz > MAX_BLOCK_SERIALIZED_SIZE"
    using assms by (auto simp: next_block_body_def bindS_eq_Inr sz Let_def split: if_splits)
  then obtain hb R2 where hb: "xor_read_exact 80 R1 = (Inr hb, R2)"
    using assms by (auto simp: next_block_body_def bindS_eq_Inr sz Let_def)
  have big: "\<not> le_value sz < 80"
    using assms small hb by (auto simp: next_block_body_def bindS_eq_Inr sz Let_def split: if_splits)
  then obtain tx R3 where tx: "xor_read_exact (le_value sz - 80) R2 = (Inr tx, R3)"
    and r: "r = Some \<lparr>pb_header = bfl_decode_header B hb, pb_raw_tx_data = tx, pb_offset = offset\<rparr>" "R' = R3"
    using assms small hb by (auto simp: next_block_body_def bindS_eq_Inr sz Let_def)
  show ?thesis
    using xor_read_exact_ok [OF sz] xor_read_exact_ok [OF hb] xor_read_exact_ok [OF tx] small big r by auto
qed

lemma reader_next_block_ok:
  assumes "reader_next_block B net R = (Inr (Some b), R')"
  shows "pb_offset b = xr_offset R \<and> length (pb_raw_tx_data b) + 80 \<le> MAX_BLOCK_SERIALIZED_SIZE
    \<and> R' = R\<lparr>xr_offset := xr_offset R + 88 + length (pb_raw_tx_data b)\<rparr> \<and> xr_offset R' \<le> length (xr_data R)"
proof -
  obtain magic R1 where m: "xor_read_exact 4 R = (Inr magic, R1)"
    and body: "next_block_body B (xr_offset R) R1 = (Inr (Some b), R')"
    using assms
    by (auto simp: reader_next_block_def bindS_eq_Inr split: prod.splits sum.splits io_error.splits if_splits)
  show ?thesis
    using xor_read_exact_ok [OF m] next_block_body_ok [OF body] by auto
qed

lemma next_block_remaining:
  "next_block B P = (Inr (Some b), P') \<Longrightarrow> remaining (bfp_reader P') < remaining (bfp_reader P)"
  using reader_next_block_ok [of B "bfp_network P" "bfp_reader P" b]
  by (auto simp: next_block_def on_reader_def remaining_def split: prod.splits)

section \<open>All blocks of a file\<close>

function all_blocks_loop ::
  "block_file_libs \<Rightarrow> parsed_block list \<Rightarrow> (block_file_parser, parse_all_blocks_error, parsed_block list) st" where
  "all_blocks_loop B blocks P =
     (case next_block B P of
        (Inl e, P') \<Rightarrow> (Inl (ParseAllBlocksError (bfp_file P) (length blocks) e), P')
      | (Inr None, P') \<Rightarrow> (Inr blocks, P')
      | (Inr (Some block), P') \<Rightarrow> all_blocks_loop B (blocks @ [block]) P')"
  by pat_completeness auto

termination all_blocks_loop
  by (relation "measure (\<lambda>(B, blocks, P). remaining (bfp_reader P))")
    (auto dest: next_block_remaining [OF sym])

declare all_blocks_loop.simps [simp del]

definition all_blocks ::
  "block_file_libs \<Rightarrow> (block_file_parser, parse_all_blocks_error, parsed_block list) st" where
  "all_blocks B = all_blocks_loop B []"

section \<open>What Core writes\<close>

text \<open>
  An entry is the magic, the size, the header and the transactions; a file is a sequence of
  entries, obfuscated with the key from its first byte on.
\<close>

definition entry_bytes :: "network \<Rightarrow> bytes \<times> bytes \<Rightarrow> bytes" where
  "entry_bytes net e =
     magic_for_network net @ le_bytes 4 (length (fst e) + length (snd e)) @ fst e @ snd e"

fun entries_bytes :: "network \<Rightarrow> (bytes \<times> bytes) list \<Rightarrow> bytes" where
  "entries_bytes net [] = []"
| "entries_bytes net (e # es) = entry_bytes net e @ entries_bytes net es"

fun parsed_entries :: "block_file_libs \<Rightarrow> nat \<Rightarrow> (bytes \<times> bytes) list \<Rightarrow> parsed_block list" where
  "parsed_entries B off [] = []"
| "parsed_entries B off (e # es) =
     \<lparr>pb_header = bfl_decode_header B (fst e), pb_raw_tx_data = snd e, pb_offset = off\<rparr>
     # parsed_entries B (off + 88 + length (snd e)) es"

text \<open>Entries within the limit whose magic is not obfuscated to four zero bytes.\<close>

fun entries_ok :: "bytes option \<Rightarrow> network \<Rightarrow> nat \<Rightarrow> (bytes \<times> bytes) list \<Rightarrow> bool" where
  "entries_ok key net off [] = True"
| "entries_ok key net off (e # es) =
     (length (fst e) = 80 \<and> length (snd e) + 80 \<le> MAX_BLOCK_SERIALIZED_SIZE
      \<and> xor_bytes key off (magic_for_network net) \<noteq> [0, 0, 0, 0]
      \<and> entries_ok key net (off + 88 + length (snd e)) es)"

definition padding :: "bytes \<Rightarrow> bool" where
  "padding tail = (length tail < 4 \<or> take 4 tail = [0, 0, 0, 0])"

lemma length_magic [simp]: "length (magic_for_network net) = 4"
  by (cases net) (simp_all add: magic_for_network_def MAINNET_MAGIC_def TESTNET_MAGIC_def
      SIGNET_MAGIC_def REGTEST_MAGIC_def)

lemma length_4: "(length xs = 4) = (\<exists>a b c d. xs = [a, b, c, d])"
  by (auto simp: length_Suc_conv numeral_eq_Suc)

lemma all_zero_4: "length xs = 4 \<Longrightarrow> list_all (\<lambda>b. b = 0) xs = (xs = [0, 0, 0, 0 :: u8])"
  by (auto simp: length_4)

lemma is_end_of_file_raw:
  assumes "length raw = 4" and "xr_offset R = off + 4"
  shows "is_end_of_file R (xor_bytes (xr_key R) off raw) = (raw = [0, 0, 0, 0])"
  using assms
  by (simp add: is_end_of_file_def xor_bytes_def all_zero_4 split: option.split)

lemma xor_read_here:
  assumes "xr_data R = pre @ xor_bytes (xr_key R) (length pre) xs @ post" and "xr_offset R = length pre"
    and "length xs = n"
  shows "xor_read_exact n R = (Inr xs, R\<lparr>xr_offset := length pre + n\<rparr>)"
  using assms by (simp add: xor_read_exact_def xor_read_def)

text \<open>One entry: three reads, one after the other.\<close>

lemma xor_read_seq:
  assumes "xr_data R = pre @ xor_bytes (xr_key R) (length pre) (xs @ ys) @ post"
    and "xr_offset R = length pre" and "length xs = n"
  shows "xor_read_exact n R = (Inr xs, R\<lparr>xr_offset := length pre + n\<rparr>)"
    and "xr_data (R\<lparr>xr_offset := length pre + n\<rparr>)
      = (pre @ xor_bytes (xr_key R) (length pre) xs) @ xor_bytes (xr_key R) (length (pre @ xs)) ys @ post"
proof -
  have split: "xor_bytes (xr_key R) (length pre) (xs @ ys)
      = xor_bytes (xr_key R) (length pre) xs @ xor_bytes (xr_key R) (length (pre @ xs)) ys"
    by (simp add: xor_bytes_append)
  show "xor_read_exact n R = (Inr xs, R\<lparr>xr_offset := length pre + n\<rparr>)"
    by (rule xor_read_here [of R pre xs "xor_bytes (xr_key R) (length (pre @ xs)) ys @ post"])
      (use assms split in auto)
  show "xr_data (R\<lparr>xr_offset := length pre + n\<rparr>)
      = (pre @ xor_bytes (xr_key R) (length pre) xs) @ xor_bytes (xr_key R) (length (pre @ xs)) ys @ post"
    using assms(1) split by simp
qed

lemma next_block_body_entry:
  assumes "xr_data R = pre @ xor_bytes (xr_key R) (length pre)
      (le_bytes 4 (length h + length t) @ h @ t @ ys) @ post"
    and "xr_offset R = length pre" and "length h = 80" and "length t + 80 \<le> MAX_BLOCK_SERIALIZED_SIZE"
  shows "next_block_body B off R
    = (Inr (Some \<lparr>pb_header = bfl_decode_header B h, pb_raw_tx_data = t, pb_offset = off\<rparr>),
       R\<lparr>xr_offset := length pre + 84 + length t\<rparr>)"
proof -
  let ?size = "length h + length t"
  define R1 where "R1 = R\<lparr>xr_offset := length pre + 4\<rparr>"
  define R2 where "R2 = R1\<lparr>xr_offset := length pre + 4 + 80\<rparr>"
  let ?pre1 = "pre @ xor_bytes (xr_key R) (length pre) (le_bytes 4 ?size)"
  let ?pre2 = "?pre1 @ xor_bytes (xr_key R) (length ?pre1) h"
  note s1 = xor_read_seq [OF assms(1,2), of 4, folded R1_def]
  have s2: "xor_read_exact 80 R1 = (Inr h, R2)" "xr_data R2 = ?pre2 @ xor_bytes (xr_key R) (length ?pre2) (t @ ys) @ post"
    using xor_read_seq [of R1 ?pre1 h "t @ ys" post 80] s1(2) assms(3)
    by (simp_all add: R1_def R2_def)
  have s3: "xor_read_exact (length t) R2 = (Inr t, R2\<lparr>xr_offset := length pre + 84 + length t\<rparr>)"
    using xor_read_seq(1) [of R2 ?pre2 t ys post "length t"] s2(2) assms(3)
    by (simp add: R1_def R2_def)
  have "length t + 80 < 256 ^ 4" using assms(4) by (simp add: MAX_BLOCK_SERIALIZED_SIZE_def)
  then have sz: "le_value (le_bytes 4 (length t + 80)) = length t + 80" by (rule le_value_le_bytes)
  show ?thesis
    using s1(1) s2(1) s3 assms(3,4)
    by (simp add: next_block_body_def bindS_def mapErrS_def sz Let_def returnS_def R1_def R2_def add.commute)
qed

lemma reader_next_block_entry:
  assumes "xr_data R = pre @ xor_bytes (xr_key R) (length pre) (entry_bytes net (h, t) @ ys) @ post"
    and "xr_offset R = length pre" and "length h = 80" and "length t + 80 \<le> MAX_BLOCK_SERIALIZED_SIZE"
    and "xor_bytes (xr_key R) (length pre) (magic_for_network net) \<noteq> [0, 0, 0, 0]"
  shows "reader_next_block B net R
    = (Inr (Some \<lparr>pb_header = bfl_decode_header B h, pb_raw_tx_data = t, pb_offset = length pre\<rparr>),
       R\<lparr>xr_offset := length pre + 88 + length t\<rparr>)"
proof -
  let ?m = "magic_for_network net"
  let ?rest = "le_bytes 4 (length h + length t) @ h @ t @ ys"
  define R1 where "R1 = R\<lparr>xr_offset := length pre + 4\<rparr>"
  have data: "xr_data R = pre @ xor_bytes (xr_key R) (length pre) (?m @ ?rest) @ post"
    using assms(1) by (simp add: entry_bytes_def)
  note s1 = xor_read_seq [OF data assms(2), of 4, folded R1_def]
  let ?pre1 = "pre @ xor_bytes (xr_key R) (length pre) ?m"
  have body: "next_block_body B (length pre) R1
    = (Inr (Some \<lparr>pb_header = bfl_decode_header B h, pb_raw_tx_data = t, pb_offset = length pre\<rparr>),
       R1\<lparr>xr_offset := length ?pre1 + 84 + length t\<rparr>)"
    by (rule next_block_body_entry [OF _ _ assms(3,4), of R1 ?pre1 ys post])
      (use s1(2) in \<open>simp_all add: R1_def\<close>)
  have "is_end_of_file R1 ?m = is_end_of_file R1 (xor_bytes (xr_key R1) (length pre) (xor_bytes (xr_key R) (length pre) ?m))"
    by (simp add: R1_def)
  also have "\<dots> = (xor_bytes (xr_key R) (length pre) ?m = [0, 0, 0, 0])"
    by (rule is_end_of_file_raw) (simp_all add: R1_def)
  finally have eof: "\<not> is_end_of_file R1 ?m" using assms(5) by simp
  show ?thesis
    using s1(1) body eof assms(2)
    by (simp add: reader_next_block_def bindS_def liftS_def check_magic_def R1_def)
qed

lemma reader_next_block_end:
  assumes "xr_data R = pre @ tail" and "xr_offset R = length pre" and "padding tail"
  shows "\<exists>R'. reader_next_block B net R = (Inr None, R')"
proof (cases "length tail < 4")
  case True
  then show ?thesis
    using assms(1,2) by (simp add: reader_next_block_def xor_read_exact_def xor_read_def)
next
  case False
  let ?raw = "take 4 tail"
  have "xor_read_exact 4 R = (Inr (xor_bytes (xr_key R) (length pre) ?raw), R\<lparr>xr_offset := length pre + 4\<rparr>)"
    using False assms(1,2) by (simp add: xor_read_exact_def xor_read_def)
  moreover have "is_end_of_file (R\<lparr>xr_offset := length pre + 4\<rparr>) (xor_bytes (xr_key R) (length pre) ?raw)"
    using is_end_of_file_raw [of ?raw "R\<lparr>xr_offset := length pre + 4\<rparr>" "length pre"] False assms(3)
    by (simp add: padding_def)
  ultimately show ?thesis by (simp add: reader_next_block_def)
qed

lemma all_blocks_loop_entries:
  assumes "xr_data (bfp_reader P) = pre @ xor_bytes (xr_key (bfp_reader P)) (length pre)
      (entries_bytes (bfp_network P) es) @ tail"
    and "xr_offset (bfp_reader P) = length pre"
    and "entries_ok (xr_key (bfp_reader P)) (bfp_network P) (length pre) es" and "padding tail"
  shows "\<exists>P'. all_blocks_loop B blocks P = (Inr (blocks @ parsed_entries B (length pre) es), P')"
  using assms(1-3)
proof (induction es arbitrary: blocks P pre)
  case Nil
  then obtain R' where "reader_next_block B (bfp_network P) (bfp_reader P) = (Inr None, R')"
    using reader_next_block_end [of "bfp_reader P" pre tail B] assms(4) by (auto simp: xor_bytes_def split: option.splits)
  then show ?case
    by (subst all_blocks_loop.simps) (simp add: next_block_def on_reader_def)
next
  case (Cons e es)
  let ?R = "bfp_reader P" and ?net = "bfp_network P"
  obtain h t where e: "e = (h, t)" by (cases e)
  let ?b = "\<lparr>pb_header = bfl_decode_header B h, pb_raw_tx_data = t, pb_offset = length pre\<rparr>"
  let ?pre = "pre @ xor_bytes (xr_key ?R) (length pre) (entry_bytes ?net (h, t))"
  have ok: "length h = 80" "length t + 80 \<le> MAX_BLOCK_SERIALIZED_SIZE"
    "xor_bytes (xr_key ?R) (length pre) (magic_for_network ?net) \<noteq> [0, 0, 0, 0]"
    using Cons.prems(3) by (simp_all add: e)
  have len: "length ?pre = length pre + 88 + length t" by (simp add: entry_bytes_def ok(1))
  define P1 where "P1 = P\<lparr>bfp_reader := ?R\<lparr>xr_offset := length ?pre\<rparr>\<rparr>"
  have "reader_next_block B ?net ?R = (Inr (Some ?b), ?R\<lparr>xr_offset := length ?pre\<rparr>)"
    unfolding len
    by (rule reader_next_block_entry [OF _ Cons.prems(2) ok]) (use Cons.prems(1) in \<open>simp add: e\<close>)
  then have "all_blocks_loop B blocks P = all_blocks_loop B (blocks @ [?b]) P1"
    by (subst all_blocks_loop.simps) (simp add: next_block_def on_reader_def P1_def)
  moreover have "\<exists>P'. all_blocks_loop B (blocks @ [?b]) P1
      = (Inr ((blocks @ [?b]) @ parsed_entries B (length ?pre) es), P')"
    using Cons.prems len by (intro Cons.IH) (simp_all add: P1_def e xor_bytes_append add.assoc)
  ultimately show ?case by (simp only: e parsed_entries.simps len fst_conv snd_conv append_assoc append_Cons append_Nil)
qed

section \<open>The files of a directory\<close>

datatype block_directory_error = ReadXorKey string

record block_directory_parser =
  bdp_files :: "u32 \<Rightarrow> (string + bytes) option"
  bdp_xor_key :: "bytes option"
  bdp_network :: network
  bdp_file_index :: u32
  bdp_current_parser :: "block_file_parser option"

text \<open>\<open>None\<close> is the panic on a key file that does not have eight bytes.\<close>

definition block_directory_new ::
  "string + bytes \<Rightarrow> (u32 \<Rightarrow> (string + bytes) option) \<Rightarrow> network
    \<Rightarrow> (block_directory_error + block_directory_parser) option" where
  "block_directory_new xor_dat files net =
     (case xor_dat of
        Inl e \<Rightarrow> Some (Inl (ReadXorKey e))
      | Inr key \<Rightarrow>
          if length key \<noteq> 8 then None
          else Some (Inr \<lparr>bdp_files = files,
            bdp_xor_key = (if list_all (\<lambda>b. b = 0) key then None else Some key),
            bdp_network = net, bdp_file_index = 0, bdp_current_parser = None\<rparr>))"

definition set_file_number :: "u32 \<Rightarrow> block_directory_parser \<Rightarrow> block_directory_parser" where
  "set_file_number n P = P\<lparr>bdp_file_index := n\<rparr>"

text \<open>Opening the file of the current index; a missing file is an error of the file system here.\<close>

definition get_or_init_parser :: "(block_directory_parser, io_error, block_file_parser) st" where
  "get_or_init_parser P =
     (case bdp_current_parser P of
        Some parser \<Rightarrow> (Inr parser, P)
      | None \<Rightarrow>
          (case bdp_files P (bdp_file_index P) of
             None \<Rightarrow> (Inl (IoOther ''not found''), P)
           | Some (Inl e) \<Rightarrow> (Inl (IoOther e), P)
           | Some (Inr contents) \<Rightarrow>
               let parser = block_file_new (bdp_xor_key P) (bdp_file_index P) contents (bdp_network P) in
               (Inr parser, P\<lparr>bdp_current_parser := Some parser\<rparr>)))"

definition directory_set_offset :: "nat \<Rightarrow> (block_directory_parser, io_error, unit) st" where
  "directory_set_offset offset =
     bindS get_or_init_parser (\<lambda>parser.
     modifyS (\<lambda>P. P\<lparr>bdp_current_parser := Some (block_file_set_offset offset parser)\<rparr>))"

text \<open>The loop over the files; \<open>None\<close> is a directory with a file for every index.\<close>

partial_function (option) directory_next_block ::
  "block_file_libs \<Rightarrow> block_directory_parser
    \<Rightarrow> ((parse_block_file_error + parsed_block option) \<times> block_directory_parser) option" where
  "directory_next_block B P =
     (case bdp_current_parser P of
        Some parser \<Rightarrow>
          (case next_block B parser of
             (Inl e, parser') \<Rightarrow> Some (Inl e, P\<lparr>bdp_current_parser := Some parser'\<rparr>)
           | (Inr (Some block), parser') \<Rightarrow> Some (Inr (Some block), P\<lparr>bdp_current_parser := Some parser'\<rparr>)
           | (Inr None, _) \<Rightarrow>
               directory_next_block B (P\<lparr>bdp_current_parser := None, bdp_file_index := bdp_file_index P + 1\<rparr>))
      | None \<Rightarrow>
          (case bdp_files P (bdp_file_index P) of
             None \<Rightarrow> Some (Inr None, P)
           | Some (Inl e) \<Rightarrow> Some (Inl (ParseIo (IoOther e)), P)
           | Some (Inr contents) \<Rightarrow>
               directory_next_block B (P\<lparr>bdp_current_parser :=
                 Some (block_file_new (bdp_xor_key P) (bdp_file_index P) contents (bdp_network P))\<rparr>)))"

definition directory_next ::
  "block_file_libs \<Rightarrow> block_directory_parser
    \<Rightarrow> ((parse_block_file_error + parsed_block) option \<times> block_directory_parser) option" where
  "directory_next B P =
     (case directory_next_block B P of
        None \<Rightarrow> None
      | Some (Inr (Some block), P') \<Rightarrow> Some (Some (Inr block), P')
      | Some (Inr None, P') \<Rightarrow> Some (None, P')
      | Some (Inl e, P') \<Rightarrow> Some (Some (Inl e), P'))"

text \<open>
  The loop ends when some file is missing: \<open>files_end P k\<close> says that \<open>k\<close> files are left to open.
  Progress is measured by the files left and then by the bytes left of the open one.
\<close>

definition files_end :: "block_directory_parser \<Rightarrow> nat \<Rightarrow> bool" where
  "files_end P k =
     (bdp_files P (bdp_file_index P + (if bdp_current_parser P = None then 0 else 1) + word_of_nat k) = None)"

definition progress :: "block_directory_parser \<Rightarrow> nat \<Rightarrow> nat \<times> nat" where
  "progress P k =
     (case bdp_current_parser P of
        None \<Rightarrow> (2 * k, 0) | Some parser \<Rightarrow> (2 * k + 1, remaining (bfp_reader parser)))"

abbreviation progress_less :: "((nat \<times> nat) \<times> (nat \<times> nat)) set" where
  "progress_less \<equiv> less_than <*lex*> less_than"

lemma progress_trans: "(a, b) \<in> progress_less \<Longrightarrow> fst b < fst c \<Longrightarrow> (a, c) \<in> progress_less"
  by (cases a; cases b; cases c) auto

lemma directory_next_block_progress:
  "files_end P k \<Longrightarrow>
   \<exists>r P'. directory_next_block B P = Some (r, P')
     \<and> (\<forall>b. r = Inr (Some b) \<longrightarrow> (\<exists>k'. files_end P' k' \<and> (progress P' k', progress P k) \<in> progress_less))"
proof (induction "fst (progress P k)" arbitrary: P k rule: less_induct)
  case less
  show ?case
  proof (cases "bdp_current_parser P")
    case None
    show ?thesis
    proof (cases "bdp_files P (bdp_file_index P)")
      case no_file: None
      then show ?thesis by (subst directory_next_block.simps) (simp add: None)
    next
      case (Some c)
      show ?thesis
      proof (cases c)
        case (Inl e)
        then show ?thesis by (subst directory_next_block.simps) (simp add: None Some)
      next
        case (Inr contents)
        obtain j where k: "k = Suc j" using less.prems Some None by (cases k) (auto simp: files_end_def)
        let ?P = "P\<lparr>bdp_current_parser :=
           Some (block_file_new (bdp_xor_key P) (bdp_file_index P) contents (bdp_network P))\<rparr>"
        have e: "files_end ?P j" using less.prems None by (simp add: files_end_def k add.assoc)
        have lt: "fst (progress ?P j) < fst (progress P k)" by (simp add: progress_def None k)
        have "directory_next_block B P = directory_next_block B ?P"
          by (subst directory_next_block.simps) (simp add: None Some Inr)
        then show ?thesis using less.hyps [OF lt e] progress_trans [OF _ lt] by metis
      qed
    qed
  next
    case (Some parser)
    obtain r parser' where n: "next_block B parser = (r, parser')" by fastforce
    show ?thesis
    proof (cases r)
      case (Inl e)
      then show ?thesis by (subst directory_next_block.simps) (simp add: Some n)
    next
      case (Inr ob)
      show ?thesis
      proof (cases ob)
        case (Some b)
        let ?P = "P\<lparr>bdp_current_parser := Some parser'\<rparr>"
        have "remaining (bfp_reader parser') < remaining (bfp_reader parser)"
          by (rule next_block_remaining [of B _ b]) (simp add: n Inr Some)
        moreover have "files_end ?P k" using less.prems \<open>bdp_current_parser P = Some parser\<close>
          by (simp add: files_end_def)
        ultimately show ?thesis
          using \<open>bdp_current_parser P = Some parser\<close>
          by (subst directory_next_block.simps) (auto simp: n Inr Some progress_def)
      next
        case None
        let ?P = "P\<lparr>bdp_current_parser := None, bdp_file_index := bdp_file_index P + 1\<rparr>"
        have e: "files_end ?P k" using less.prems Some by (simp add: files_end_def)
        have lt: "fst (progress ?P k) < fst (progress P k)" by (simp add: progress_def Some)
        have "directory_next_block B P = directory_next_block B ?P"
          by (subst directory_next_block.simps) (simp add: n Inr None Some)
        then show ?thesis using less.hyps [OF lt e] progress_trans [OF _ lt] by metis
      qed
    qed
  qed
qed

section \<open>Properties\<close>


text \<open>
  The size prefix of an entry cannot make the parser allocate or read out of bounds: a block
  that \<open>next_block\<close> returns has at most 4,000,000 bytes with its header, lies within the file, is
  reported at the offset where the parser stood, and leaves the parser directly behind it.
\<close>
theorem next_block_bounds:
  assumes "next_block B P = (Inr (Some b), P')"
  shows "length (pb_raw_tx_data b) + 80 \<le> 4000000
    \<and> pb_offset b = xr_offset (bfp_reader P)
    \<and> xr_offset (bfp_reader P') = xr_offset (bfp_reader P) + 88 + length (pb_raw_tx_data b)
    \<and> xr_offset (bfp_reader P') \<le> length (xr_data (bfp_reader P))"
proof -
  obtain R' where "reader_next_block B (bfp_network P) (bfp_reader P) = (Inr (Some b), R')"
    and "bfp_reader P' = R'"
    using assms by (auto simp: next_block_def on_reader_def split: prod.splits)
  then show ?thesis
    using reader_next_block_ok [of B "bfp_network P" "bfp_reader P" b R']
    by (auto simp: MAX_BLOCK_SERIALIZED_SIZE_def)
qed

text \<open>
  Iterating over a directory ends: when some block file after the current one is missing,
  \<open>next_block\<close> returns, and if it returns a block the parser has moved forward in a well-founded
  order of files and bytes.
\<close>
theorem directory_iteration_ends:
  assumes "files_end P k"
  shows "\<exists>r P'. directory_next_block B P = Some (r, P')
    \<and> (\<forall>b. r = Inr (Some b) \<longrightarrow> (\<exists>k'. files_end P' k' \<and> (progress P' k', progress P k) \<in> progress_less))"
  using assms by (rule directory_next_block_progress)

subsection \<open>A sample file\<close>

definition sample_file_libs :: block_file_libs where
  "sample_file_libs =
     \<lparr>bfl_network_magic = magic_for_network, bfl_chain_hash = (\<lambda>_. replicate 32 0),
      bfl_decode_header = (\<lambda>bs. \<lparr>hdr_version = 0, hdr_prev_blockhash = take 32 (drop 4 bs),
         hdr_merkle_root = take 32 (drop 36 bs), hdr_time = word_of_nat (le_value (take 4 (drop 68 bs))),
         hdr_bits = 0, hdr_nonce = 0\<rparr>),
      bfl_decode_txs = (\<lambda>_. Inr [])\<rparr>"

definition sample_key :: bytes where "sample_key = [1, 2, 3, 4, 5, 6, 7, 8]"

definition sample_entries :: "(bytes \<times> bytes) list" where
  "sample_entries = [(replicate 80 7, [1, 2, 3]), (replicate 80 9, [4])]"

lemma sample_entries_ok: "entries_ok (Some sample_key) Signet 0 sample_entries"
  by (simp add: sample_entries_def MAX_BLOCK_SERIALIZED_SIZE_def xor_bytes_def sample_key_def
      magic_for_network_def SIGNET_MAGIC_def)


lemma sample_next_block:
  "\<exists>P'. next_block sample_file_libs (block_file_new None 0 (entry_bytes Signet (replicate 80 7, [1, 2, 3])) Signet)
     = (Inr (Some \<lparr>pb_header = bfl_decode_header sample_file_libs (replicate 80 7),
          pb_raw_tx_data = [1, 2, 3], pb_offset = 0\<rparr>), P')"
proof -
  have "reader_next_block sample_file_libs Signet
      \<lparr>xr_data = entry_bytes Signet (replicate 80 7, [1, 2, 3]), xr_key = None, xr_offset = 0\<rparr>
    = (Inr (Some \<lparr>pb_header = bfl_decode_header sample_file_libs (replicate 80 7),
          pb_raw_tx_data = [1, 2, 3], pb_offset = length ([] :: bytes)\<rparr>),
       \<lparr>xr_data = entry_bytes Signet (replicate 80 7, [1, 2, 3]), xr_key = None, xr_offset = 0\<rparr>
         \<lparr>xr_offset := length ([] :: bytes) + 88 + length [1, 2, 3 :: u8]\<rparr>)"
    by (rule reader_next_block_entry [where pre = "[]" and ys = "[]" and post = "[]"])
      (simp_all add: xor_bytes_def MAX_BLOCK_SERIALIZED_SIZE_def magic_for_network_def SIGNET_MAGIC_def)
  then show ?thesis by (simp add: next_block_def on_reader_def block_file_new_def)
qed

theorem next_block_bounds_witness:
  "length [1, 2, 3 :: u8] + 80 \<le> 4000000"
proof -
  obtain P' where "next_block sample_file_libs
      (block_file_new None 0 (entry_bytes Signet (replicate 80 7, [1, 2, 3])) Signet)
     = (Inr (Some \<lparr>pb_header = bfl_decode_header sample_file_libs (replicate 80 7),
          pb_raw_tx_data = [1, 2, 3], pb_offset = 0\<rparr>), P')"
    using sample_next_block by blast
  from next_block_bounds [OF this] show ?thesis by simp
qed

theorem directory_iteration_ends_witness:
  "\<exists>r P'. directory_next_block sample_file_libs
     \<lparr>bdp_files = (\<lambda>n. if n < 2 then Some (Inr []) else None), bdp_xor_key = None, bdp_network = Signet,
      bdp_file_index = 0, bdp_current_parser = None\<rparr> = Some (r, P')"
  using directory_iteration_ends [of "\<lparr>bdp_files = (\<lambda>n. if n < 2 then Some (Inr []) else None),
      bdp_xor_key = None, bdp_network = Signet, bdp_file_index = 0, bdp_current_parser = None\<rparr>" 2 sample_file_libs]
  by (auto simp: files_end_def)

end
