(* ===== verification/Sync.thy ===== *)
theory Sync
  imports Node_State Parse_Block_Files
begin

text \<open>
  Synchronisation with the main chain (\<open>lib/validator/task/mod.rs\<close>): the search for the best
  known ancestor, header download, batches of blocks, and the rewind to the last common ancestor.
  The node's JSON-RPC and REST services, hex and block decoding and the cancellation flag, as it
  is polled in each of the three loops, are fields of the record \<open>mainchain\<close>. Loops that only end if the services behave are partial
  functions: \<open>None\<close> is a loop that does not end.
\<close>

section \<open>Services and errors\<close>

record mainchain =
  mc_getblockheader_height :: "bytes \<Rightarrow> string + u32"
  mc_getblockhash :: "nat \<Rightarrow> string + bytes"
  mc_get_block_headers :: "bytes \<Rightarrow> nat \<Rightarrow> string + (header \<times> bytes \<times> u32) list"
  mc_getblock_batch :: "bytes list \<Rightarrow> string + (string list + string list)"
  mc_hex_decode :: "string \<Rightarrow> bytes option"
  mc_deserialize_block :: "bytes \<Rightarrow> block option"
  mc_is_cancelled :: "nat \<Rightarrow> bool"
  mc_files_cancelled :: "nat \<Rightarrow> bool"
  mc_blocks_cancelled :: "nat \<Rightarrow> bool"

text \<open>The errors, without those of the database engine and of serializing a request.\<close>

datatype sync_error =
  BatchJsonRpc "string list"
| BlockDirectoryParserError block_directory_error
| BlockFileParserSetOffset io_error
| BlockNotInActiveChain bytes
| SyncConnectBlock connect_block_error
| SyncDb db_error
| SyncDecode
| SyncDisconnectBlock disconnect_block_error
| FetchBlockIndex fetch_block_index_error
| SyncHeaderInfo header_info_error
| HeaderSyncInProgress
| SyncHex
| JsonRpc string
| SyncLastCommonAncestor lca_error
| ParseBlockFiles parse_block_file_error
| Rest string
| Shutdown

definition sync_is_fatal :: "sync_error \<Rightarrow> bool" where
  "sync_is_fatal e =
     (case e of SyncConnectBlock c \<Rightarrow> connect_is_fatal c | SyncDecode \<Rightarrow> False
      | HeaderSyncInProgress \<Rightarrow> False | SyncHex \<Rightarrow> False | _ \<Rightarrow> True)"

section \<open>The best known ancestor\<close>

text \<open>\<open>u32::midpoint\<close> rounds down and does not overflow.\<close>

definition midpoint_u32 :: "u32 \<Rightarrow> u32 \<Rightarrow> u32" where
  "midpoint_u32 a b = word_of_nat ((unat a + unat b) div 2)"

lemma unat_midpoint: "unat (midpoint_u32 a b) = (unat a + unat b) div 2"
proof -
  have "unat x < 2 ^ LENGTH(32)" for x :: u32 by (rule unsigned_less)
  from this [of a] this [of b] have "(unat a + unat b) div 2 < 2 ^ 32" by simp
  then show ?thesis by (simp add: midpoint_u32_def unat_of_nat take_bit_nat_eq_self)
qed

definition search_distance :: "(bytes \<times> u32) option \<Rightarrow> u32 \<Rightarrow> nat" where
  "search_distance best oldest =
     (case best of None \<Rightarrow> Suc (unat oldest)
      | Some (_, h) \<Rightarrow> (unat oldest - unat h) + (unat h - unat oldest))"

text \<open>The binary search loop; the heights never meet without ending it, so it always ends.\<close>

function best_ancestor_loop ::
  "mainchain \<Rightarrow> dbs \<Rightarrow> (bytes \<times> u32) option \<Rightarrow> u32 \<Rightarrow> sync_error + (bytes \<times> u32) option" where
  "best_ancestor_loop M D best_known_ancestor oldest_missing =
     (let best_height = map_option snd best_known_ancestor;
          midpoint_height = midpoint_u32 oldest_missing (case best_height of None \<Rightarrow> 0 | Some h \<Rightarrow> h) in
      if Some midpoint_height = best_height \<or> midpoint_height = oldest_missing
      then Inr best_known_ancestor
      else case mc_getblockhash M (unat midpoint_height) of
        Inl _ \<Rightarrow> Inl (JsonRpc ''getblockhash'')
      | Inr midpoint \<Rightarrow>
          if contains_header D midpoint
          then best_ancestor_loop M D (Some (midpoint, midpoint_height)) oldest_missing
          else best_ancestor_loop M D best_known_ancestor midpoint_height)"
  by pat_completeness auto

lemma midpoint_between:
  assumes "midpoint_u32 a b \<noteq> a" and "midpoint_u32 a b \<noteq> b"
  shows "unat b < unat a \<and> unat b < unat (midpoint_u32 a b) \<and> unat (midpoint_u32 a b) < unat a
    \<or> unat a < unat b \<and> unat a < unat (midpoint_u32 a b) \<and> unat (midpoint_u32 a b) < unat b"
proof -
  have "unat (midpoint_u32 a b) \<noteq> unat a" "unat (midpoint_u32 a b) \<noteq> unat b"
    using assms by (simp_all add: word_unat_eq_iff)
  then show ?thesis unfolding unat_midpoint by presburger
qed

lemma search_distance_known:
  assumes "Some mid \<noteq> map_option snd best" and "mid \<noteq> oldest"
    and "mid = midpoint_u32 oldest (case map_option snd best of None \<Rightarrow> 0 | Some h \<Rightarrow> h)"
  shows "search_distance (Some (m, mid)) oldest < search_distance best oldest"
    "search_distance best mid < search_distance best oldest"
proof -
  show "search_distance (Some (m, mid)) oldest < search_distance best oldest"
  proof (cases best)
    case None
    then have "unat mid = unat oldest div 2" using assms(3) by (simp add: unat_midpoint)
    then show ?thesis by (simp add: search_distance_def None)
  next
    case (Some p)
    then have "mid \<noteq> snd p" "mid = midpoint_u32 oldest (snd p)" using assms by auto
    then show ?thesis
      using midpoint_between [of oldest "snd p"] assms(2)
      by (auto simp: search_distance_def Some split: prod.splits)
  qed
  show "search_distance best mid < search_distance best oldest"
  proof (cases best)
    case None
    then have m: "mid = midpoint_u32 oldest 0" using assms(3) by simp
    then have "unat mid = unat oldest div 2" by (simp add: unat_midpoint)
    moreover have "unat mid \<noteq> unat oldest" using assms(2) by (simp add: word_unat_eq_iff)
    ultimately show ?thesis by (simp add: search_distance_def None)
  next
    case (Some p)
    then have "mid \<noteq> snd p" "mid = midpoint_u32 oldest (snd p)" using assms by auto
    then show ?thesis
      using midpoint_between [of oldest "snd p"] assms(2)
      by (auto simp: search_distance_def Some split: prod.splits)
  qed
qed

termination best_ancestor_loop
  by (relation "measure (\<lambda>(M, D, best, oldest). search_distance best oldest)")
    (auto intro: search_distance_known)

declare best_ancestor_loop.simps [simp del]

definition fetch_best_ancestor ::
  "mainchain \<Rightarrow> dbs \<Rightarrow> bytes \<Rightarrow> u32 \<Rightarrow> sync_error + (bytes \<times> u32) option" where
  "fetch_best_ancestor M D node_tip node_tip_height =
     (if node_tip = all_zeros then Inr None
      else if contains_header D node_tip then Inr (Some (node_tip, node_tip_height))
      else best_ancestor_loop M D None node_tip_height)"

text \<open>The greatest known height below a missing one.\<close>

definition best_below :: "(nat \<Rightarrow> bool) \<Rightarrow> nat \<Rightarrow> nat \<Rightarrow> bool" where
  "best_below known n m = (m < n \<and> known m \<and> (\<forall>k. m < k \<and> k < n \<longrightarrow> \<not> known k))"

text \<open>
  The search when the known blocks of the active chain are those up to some height: it finds the
  last of them.
\<close>

lemma best_ancestor_loop_correct:
  assumes "\<And>k. k \<le> unat height \<Longrightarrow> mc_getblockhash M k = Inr (bh k)"
    and "\<And>j k. j \<le> k \<Longrightarrow> k \<le> unat height \<Longrightarrow> contains_header D (bh k) \<Longrightarrow> contains_header D (bh j)"
    and "\<And>k. unat oldest \<le> k \<Longrightarrow> k \<le> unat height \<Longrightarrow> \<not> contains_header D (bh k)"
    and "oldest \<le> height"
    and "case best of None \<Rightarrow> True
         | Some (m, h) \<Rightarrow> h < oldest \<and> m = bh (unat h) \<and> contains_header D (bh (unat h))"
  shows "\<exists>r. best_ancestor_loop M D best oldest = Inr r
    \<and> (case r of None \<Rightarrow> \<forall>k < unat height. \<not> contains_header D (bh k)
       | Some (m, h) \<Rightarrow> m = bh (unat h) \<and> best_below (\<lambda>k. contains_header D (bh k)) (Suc (unat height)) (unat h))"
  using assms(3-5)
proof (induction "search_distance best oldest" arbitrary: best oldest rule: less_induct)
  case less
  let ?b = "case map_option snd best of None \<Rightarrow> 0 | Some h \<Rightarrow> h"
  let ?mid = "midpoint_u32 oldest ?b"
  have b: "unat ?b \<le> unat oldest"
    using less.prems(3) by (auto simp: word_less_nat_alt split: option.splits)
  then have mid: "unat ?mid \<le> unat oldest" "unat ?b \<le> unat ?mid" by (simp_all add: unat_midpoint)
  have below: "unat oldest \<le> unat height" using less.prems(2) by (simp add: word_le_nat_alt)
  show ?case
  proof (cases "Some ?mid = map_option snd best \<or> ?mid = oldest")
    case True
    have r: "best_ancestor_loop M D best oldest = Inr best"
      using True by (subst best_ancestor_loop.simps) (simp add: Let_def)
    show ?thesis
    proof (cases best)
      case None
      then have "unat oldest div 2 = unat oldest"
        using True unat_midpoint [of oldest 0] by auto
      then have "unat oldest = 0" by simp
      then show ?thesis using r less.prems(1) by (auto simp: None)
    next
      case (Some p)
      obtain m h where p: "p = (m, h)" by (cases p)
      have h: "unat h < unat oldest" "m = bh (unat h)" "contains_header D (bh (unat h))"
        using less.prems(3) by (simp_all add: Some p word_less_nat_alt)
      have "unat ?mid = unat h \<or> unat ?mid = unat oldest" using True by (auto simp: Some p)
      then have "unat oldest = Suc (unat h)"
        using h(1) unat_midpoint [of oldest h] by (auto simp: Some p)
      then show ?thesis
        using r h below less.prems(1) by (auto simp: Some p best_below_def)
    qed
  next
    case False
    note dec = search_distance_known [OF _ _ refl, of oldest best]
    have hash: "mc_getblockhash M (unat ?mid) = Inr (bh (unat ?mid))"
      using assms(1) mid below by simp
    have ne: "unat ?mid \<noteq> unat oldest" using False by (auto simp: word_unat_eq_iff)
    show ?thesis
    proof (cases "contains_header D (bh (unat ?mid))")
      case True
      have step: "best_ancestor_loop M D best oldest = best_ancestor_loop M D (Some (bh (unat ?mid), ?mid)) oldest"
        using False hash True by (subst best_ancestor_loop.simps) (simp add: Let_def)
      show ?thesis
        unfolding step
        by (rule less.hyps) (use dec(1) False less.prems(1,2) True mid ne in \<open>auto simp: word_less_nat_alt\<close>)
    next
      case unknown: False
      have step: "best_ancestor_loop M D best oldest = best_ancestor_loop M D best ?mid"
        using False hash unknown by (subst best_ancestor_loop.simps) (simp add: Let_def)
      have "h < ?mid" if "best = Some (m, h)" for m h
        using that False mid(2) by (auto simp: word_less_nat_alt word_unat_eq_iff le_less)
      moreover have "\<not> contains_header D (bh k)" if "unat ?mid \<le> k" "k \<le> unat height" for k
        using assms(2) [OF that] unknown by blast
      moreover have "?mid \<le> height" using mid(1) below by (simp add: word_le_nat_alt)
      ultimately show ?thesis
        unfolding step
        by (intro less.hyps) (use dec(2) False less.prems(3) in \<open>auto split: option.splits\<close>)
    qed
  qed
qed

section \<open>Header download\<close>

definition HEADER_FETCH_BATCH_SIZE :: nat where "HEADER_FETCH_BATCH_SIZE = 2000"

text \<open>
  The download loop, with the number \<open>n\<close> of earlier polls of the cancellation flag. The result
  carries the databases as committed so far; \<open>None\<close> is a service that never reaches the tip.
\<close>

partial_function (option) header_loop ::
  "libs \<Rightarrow> mainchain \<Rightarrow> bytes \<Rightarrow> u32 \<Rightarrow> nat \<Rightarrow> bytes \<Rightarrow> u32 \<Rightarrow> dbs \<Rightarrow> ((sync_error + unit) \<times> dbs) option" where
  "header_loop L M main_tip main_tip_height n current_hash current_height D =
     (if mc_is_cancelled M n then Some (Inl Shutdown, D)
      else
        let headers_needed = (main_tip_height - current_height) + 1;
            batch_size = min HEADER_FETCH_BATCH_SIZE (unat headers_needed) in
        case mc_get_block_headers M current_hash batch_size of
          Inl e \<Rightarrow> Some (Inl (Rest e), D)
        | Inr headers \<Rightarrow>
            if headers = [] then Some (Inl (BlockNotInActiveChain current_hash), D)
            else
              let (_, last_hash, last_height) = last headers;
                  D' = put_headers L (map (\<lambda>(header, _, height). (header, height)) headers) D in
              if last_hash = main_tip then Some (Inr (), D')
              else if last_height = main_tip_height then Some (Inl (BlockNotInActiveChain main_tip), D')
              else header_loop L M main_tip main_tip_height (Suc n) last_hash last_height D')"

definition sync_headers ::
  "libs \<Rightarrow> mainchain \<Rightarrow> bytes \<Rightarrow> dbs \<Rightarrow> ((sync_error + unit) \<times> dbs) option" where
  "sync_headers L M main_tip D =
     (if main_tip = all_zeros then Some (Inr (), D)
      else case mc_getblockheader_height M main_tip of
        Inl _ \<Rightarrow> Some (Inl (JsonRpc ''getblockheader''), D)
      | Inr main_tip_height \<Rightarrow>
          (case fetch_best_ancestor M D main_tip main_tip_height of
             Inl e \<Rightarrow> Some (Inl e, D)
           | Inr (Some (ancestor, height)) \<Rightarrow>
               if ancestor = main_tip then Some (Inr (), D)
               else header_loop L M main_tip main_tip_height 0 ancestor height D
           | Inr None \<Rightarrow>
               (case mc_getblockhash M 0 of
                  Inl _ \<Rightarrow> Some (Inl (JsonRpc ''getblockhash''), D)
                | Inr genesis_hash \<Rightarrow> header_loop L M main_tip main_tip_height 0 genesis_hash 0 D)))"

text \<open>
  A node that serves the active chain \<open>hc\<close>: consecutive headers with their hashes and heights,
  linked, with distinct hashes, and no cancellation.
\<close>

definition served_header :: "libs \<Rightarrow> header list \<Rightarrow> nat \<Rightarrow> header \<times> bytes \<times> u32" where
  "served_header L hc k = (hc ! k, header_block_hash L (hc ! k), word_of_nat k)"

definition serves_chain :: "libs \<Rightarrow> mainchain \<Rightarrow> header list \<Rightarrow> bool" where
  "serves_chain L M hc =
     ((\<forall>n. \<not> mc_is_cancelled M n)
      \<and> mc_getblockheader_height M (header_block_hash L (last hc)) = Inr (word_of_nat (length hc - 1))
      \<and> (\<forall>i < length hc. mc_getblockhash M i = Inr (header_block_hash L (hc ! i)))
      \<and> (\<forall>i < length hc. \<forall>count > 0.
           mc_get_block_headers M (header_block_hash L (hc ! i)) count
             = Inr (map (served_header L hc) [i..<min (i + count) (length hc)])))"

definition header_chain :: "libs \<Rightarrow> header list \<Rightarrow> bool" where
  "header_chain L hc =
     (hc \<noteq> [] \<and> length hc < 2 ^ 32 \<and> distinct (map (header_block_hash L) hc)
      \<and> all_zeros \<notin> header_block_hash L ` set hc
      \<and> (\<forall>i < length hc. hdr_prev_blockhash (hc ! i)
           = (if i = 0 then all_zeros else header_block_hash L (hc ! (i - 1)))))"

text \<open>The headers with the heights in \<open>S\<close> are stored.\<close>

definition headers_stored :: "libs \<Rightarrow> header list \<Rightarrow> nat set \<Rightarrow> dbs \<Rightarrow> bool" where
  "headers_stored L hc S D =
     (\<forall>k \<in> S. db_header D (header_block_hash L (hc ! k)) = Some (hc ! k)
        \<and> db_height D (header_block_hash L (hc ! k)) = Some (word_of_nat k))"

lemma unat_u32: "k < 2 ^ 32 \<Longrightarrow> unat (word_of_nat k :: u32) = k"
  by (simp add: unat_of_nat take_bit_nat_eq_self)

lemma header_hash_inj:
  "header_chain L hc \<Longrightarrow> i < length hc \<Longrightarrow> j < length hc \<Longrightarrow>
   (header_block_hash L (hc ! i) = header_block_hash L (hc ! j)) = (i = j)"
  unfolding header_chain_def by (metis distinct_conv_nth length_map nth_map)

lemma put_header_stored:
  assumes "header_chain L hc" and "headers_stored L hc S D" and "S \<subseteq> {..<length hc}" and "j < length hc"
  shows "headers_stored L hc (insert j S) (put_header L D (hc ! j, word_of_nat j))"
  unfolding headers_stored_def
proof
  fix k assume "k \<in> insert j S"
  then have k: "k < length hc" and stored: "k = j \<or> db_header D (header_block_hash L (hc ! k)) = Some (hc ! k)
        \<and> db_height D (header_block_hash L (hc ! k)) = Some (word_of_nat k)"
    using assms(2-4) by (auto simp: headers_stored_def)
  have prev: "hdr_prev_blockhash (hc ! j) = (if j = 0 then all_zeros else header_block_hash L (hc ! (j - 1)))"
    using assms(1,4) by (simp add: header_chain_def)
  have zeros: "j > 0 \<Longrightarrow> header_block_hash L (hc ! (j - 1)) \<noteq> all_zeros"
    using assms(1,4) by (auto simp: header_chain_def image_iff) (metis less_imp_diff_less nth_mem)
  have pred: "j > 0 \<Longrightarrow> (word_of_nat j :: u32) - 1 = word_of_nat (j - 1)"
    by (simp add: of_nat_diff)
  show "db_header (put_header L D (hc ! j, word_of_nat j)) (header_block_hash L (hc ! k)) = Some (hc ! k)
      \<and> db_height (put_header L D (hc ! j, word_of_nat j)) (header_block_hash L (hc ! k)) = Some (word_of_nat k)"
    using stored pred zeros header_hash_inj [OF assms(1) k assms(4)]
      header_hash_inj [OF assms(1) k, of "j - 1"] header_hash_inj [OF assms(1) assms(4), of "j - 1"] assms(4)
    by (auto simp: put_header_def Let_def prev)
qed

lemma put_headers_stored:
  assumes "header_chain L hc" and "headers_stored L hc S D" and "S \<subseteq> {..<length hc}"
    and "set ks \<subseteq> {..<length hc}"
  shows "headers_stored L hc (S \<union> set ks)
    (put_headers L (map (\<lambda>(header, _, height). (header, height)) (map (served_header L hc) ks)) D)"
  using assms(2-4) unfolding put_headers_def
proof (induction ks arbitrary: S D)
  case (Cons k ks)
  have "headers_stored L hc (insert k S) (put_header L D (hc ! k, word_of_nat k))"
    using Cons.prems by (intro put_header_stored [OF assms(1)]) auto
  from Cons.IH [OF this] Cons.prems show ?case by (simp add: served_header_def)
qed simp

text \<open>The loop reaches the tip and stores every header from its start on.\<close>

lemma header_loop_complete:
  assumes "serves_chain L M hc" and "header_chain L hc"
    and "i < length hc" and "i = 0 \<or> Suc i < length hc"
    and "headers_stored L hc S D" and "S \<subseteq> {..<length hc}"
  shows "\<exists>D'. header_loop L M (header_block_hash L (last hc)) (word_of_nat (length hc - 1)) n
      (header_block_hash L (hc ! i)) (word_of_nat i) D = Some (Inr (), D')
    \<and> headers_stored L hc (S \<union> {i..<length hc}) D'"
  using assms(3-6)
proof (induction "length hc - i" arbitrary: i n S D rule: less_induct)
  case less
  have len: "length hc < 2 ^ 32" and last: "last hc = hc ! (length hc - 1)"
    using assms(2) by (auto simp: header_chain_def last_conv_nth)
  define batch where "batch = min HEADER_FETCH_BATCH_SIZE (length hc - i)"
  define j where "j = i + batch - 1"
  have batch: "0 < batch" "batch \<le> length hc - i"
    using less.prems(1) by (auto simp: batch_def HEADER_FETCH_BATCH_SIZE_def)
  have j: "i \<le> j" "j < length hc" using batch less.prems(1) by (auto simp: j_def)
  have needed: "unat ((word_of_nat (length hc - 1) :: u32) - word_of_nat i + 1) = length hc - i"
  proof -
    have "(word_of_nat (length hc - 1) :: u32) - word_of_nat i + 1 = word_of_nat (length hc - i)"
      using less.prems(1) by (simp add: of_nat_diff)
    then show ?thesis using len by (simp add: unat_of_nat take_bit_nat_eq_self)
  qed
  let ?ks = "[i..<i + batch]"
  have serve: "mc_get_block_headers M (header_block_hash L (hc ! i)) batch = Inr (map (served_header L hc) ?ks)"
    using assms(1) less.prems(1) batch unfolding serves_chain_def by (auto simp: min_absorb1)
  have ks: "?ks \<noteq> []" "last ?ks = j" using batch by (auto simp: j_def)
  have last_served: "last (map (served_header L hc) ?ks) = (hc ! j, header_block_hash L (hc ! j), word_of_nat j)"
    using ks by (simp add: last_map served_header_def)
  define D' where "D' = put_headers L (map (\<lambda>(header, _, height). (header, height)) (map (served_header L hc) ?ks)) D"
  have stored: "headers_stored L hc (S \<union> {i..<i + batch}) D'"
  proof -
    have "set ?ks \<subseteq> {..<length hc}" using batch less.prems(1) by auto
    from put_headers_stored [OF assms(2) less.prems(3,4) this] show ?thesis
      unfolding D'_def by (simp only: set_upt)
  qed
  have step: "header_loop L M (header_block_hash L (last hc)) (word_of_nat (length hc - 1)) n
      (header_block_hash L (hc ! i)) (word_of_nat i) D
    = (if header_block_hash L (hc ! j) = header_block_hash L (last hc) then Some (Inr (), D')
       else if (word_of_nat j :: u32) = word_of_nat (length hc - 1)
         then Some (Inl (BlockNotInActiveChain (header_block_hash L (last hc))), D')
       else header_loop L M (header_block_hash L (last hc)) (word_of_nat (length hc - 1)) (Suc n)
         (header_block_hash L (hc ! j)) (word_of_nat j) D')"
  proof -
    have nc: "mc_is_cancelled M n = False" using assms(1) by (simp add: serves_chain_def)
    show ?thesis
      by (subst header_loop.simps)
        (simp only: nc if_False Let_def needed serve sum.case ks(1) map_is_Nil_conv last_served
          prod.case D'_def flip: batch_def)
  qed
  have tip: "(header_block_hash L (hc ! j) = header_block_hash L (last hc)) = (j = length hc - 1)"
    unfolding last using header_hash_inj [OF assms(2) j(2)] j(2) by simp
  show ?case
  proof (cases "j = length hc - 1")
    case True
    then have "i + batch = length hc" using batch j by (simp add: j_def)
    then show ?thesis using stored True tip unfolding step by simp
  next
    case False
    have "unat (word_of_nat j :: u32) = j" "unat (word_of_nat (length hc - 1) :: u32) = length hc - 1"
      using j(2) len by (intro unat_u32; simp)+
    then have "(word_of_nat j :: u32) \<noteq> word_of_nat (length hc - 1)"
      using False by metis
    then have rest: "header_loop L M (header_block_hash L (last hc)) (word_of_nat (length hc - 1)) n
        (header_block_hash L (hc ! i)) (word_of_nat i) D
      = header_loop L M (header_block_hash L (last hc)) (word_of_nat (length hc - 1)) (Suc n)
         (header_block_hash L (hc ! j)) (word_of_nat j) D'"
      using tip False unfolding step by simp
    have b: "batch = HEADER_FETCH_BATCH_SIZE"
      using False j batch by (auto simp: batch_def j_def)
    then have ij: "i < j" by (simp add: j_def HEADER_FETCH_BATCH_SIZE_def)
    have "\<exists>D''. header_loop L M (header_block_hash L (last hc)) (word_of_nat (length hc - 1)) (Suc n)
         (header_block_hash L (hc ! j)) (word_of_nat j) D' = Some (Inr (), D'')
      \<and> headers_stored L hc ((S \<union> {i..<i + batch}) \<union> {j..<length hc}) D''"
      by (rule less.hyps) (use ij j False less.prems(1,4) batch stored in auto)
    moreover have "(S \<union> {i..<i + batch}) \<union> {j..<length hc} = S \<union> {i..<length hc}"
      using batch less.prems(1) by (auto simp: j_def)
    ultimately show ?thesis unfolding rest by simp
  qed
qed

section \<open>Batches of blocks\<close>

text \<open>
  The state of a batch: the database transaction and the events broadcast so far. A rejection is
  an ordinary result; its reason is kept as the error value.
\<close>

type_synonym sync_state = "dbs \<times> event list"

fun handle_block_batch ::
  "libs \<Rightarrow> block_handler \<Rightarrow> block list \<Rightarrow> (sync_state, sync_error, (bytes \<times> connect_block_error) option) st" where
  "handle_block_batch L H [] (D, events) = (Inr None, D, events)"
| "handle_block_batch L H (blk # blks) (D, events) =
     (case connect_block L H blk D of
        (Inr event, D') \<Rightarrow> handle_block_batch L H blks (D', events @ [event])
      | (Inl err, D') \<Rightarrow>
          if connect_is_fatal err then (Inl (SyncConnectBlock err), D', events)
          else (Inr (Some (header_block_hash L (blk_header blk), err)), D', events))"

text \<open>\<open>hex::decode\<close> and \<open>deserialize\<close> of every element, stopping at the first failure.\<close>

fun decode_blocks :: "mainchain \<Rightarrow> string list \<Rightarrow> sync_error + block list" where
  "decode_blocks M [] = Inr []"
| "decode_blocks M (hex # hexes) =
     bindE (ok_or (mc_hex_decode M hex) SyncHex) (\<lambda>bytes.
     bindE (ok_or (mc_deserialize_block M bytes) SyncDecode) (\<lambda>blk.
     bindE (decode_blocks M hexes) (\<lambda>blks. Inr (blk # blks))))"

definition fetch_blocks_batch :: "mainchain \<Rightarrow> bytes list \<Rightarrow> sync_error + block list" where
  "fetch_blocks_batch M block_hashes =
     (case mc_getblock_batch M block_hashes of
        Inl _ \<Rightarrow> Inl (JsonRpc ''getblock (batched)'')
      | Inr (Inl errors) \<Rightarrow> Inl (BatchJsonRpc errors)
      | Inr (Inr hexes) \<Rightarrow> decode_blocks M hexes)"

section \<open>Rewinding to the last common ancestor\<close>

text \<open>The \<open>while\<close> loop that disconnects tips; \<open>None\<close> is a tip that never moves.\<close>

partial_function (option) rewind ::
  "libs \<Rightarrow> bytes \<Rightarrow> bytes \<Rightarrow> dbs \<Rightarrow> event list \<Rightarrow> ((sync_error + bytes) \<times> dbs \<times> event list) option" where
  "rewind L lca current D events =
     (if current = lca then Some (Inr current, D, events)
      else case disconnect_block L current D of
        (Inl e, D') \<Rightarrow> Some (Inl (SyncDisconnectBlock e), D', events)
      | (Inr event, D') \<Rightarrow>
          rewind L lca (case db_tip D' of None \<Rightarrow> all_zeros | Some tip \<Rightarrow> tip) D'
            (events @ (case event of None \<Rightarrow> [] | Some ev \<Rightarrow> [ev])))"

text \<open>\<open>ancestor_headers(main_tip).take_while(\<noteq> stop)\<close>, newest first.\<close>

partial_function (option) missing_from :: "dbs \<Rightarrow> bytes \<Rightarrow> bytes \<Rightarrow> bytes list option" where
  "missing_from D stop it =
     (case ancestor_next D it of
        None \<Rightarrow> Some []
      | Some ((block_hash, _), it') \<Rightarrow>
          if block_hash = stop then Some []
          else Option.bind (missing_from D stop it') (\<lambda>rest. Some (block_hash # rest)))"

text \<open>From a state that tracks a chain, the loop pops blocks down to any common part of it.\<close>

lemma tracks_disconnect_head:
  assumes "tracks L D (b # bs)" and "dbs_inv L D"
  shows "\<exists>D'. disconnect_block L (block_hash_of L b) D
       = (Inr (Some (DisconnectBlockEvent (block_hash_of L b))), D')
    \<and> tracks L D' bs \<and> same_blocks D D'"
proof -
  let ?h = "block_hash_of L b"
  obtain diff where diff: "db_diff D ?h = Some diff" "db_tip D = Some ?h"
    "db_header D ?h = Some (blk_header b)" "db_height D ?h \<noteq> None"
    using assms(1) by (auto simp: tracks_def Let_def)
  then obtain info where info: "get_header_info L D ?h = Inr info"
    by (auto simp: get_header_info_def try_get_header_info_def)
  obtain ev' D' where dis: "disconnect_block L ?h D = (Inr ev', D')"
    and ev': "ev' = Some (DisconnectBlockEvent ?h)"
    using diff info by (auto simp: disconnect_block_def st_iffs)
  have "tracks L D' bs"
    using tracks_disconnect [OF assms(1) _ dis] diff(2) by (simp add: ev')
  then show ?thesis using dis disconnect_same by (auto simp: ev')
qed

definition tip_hash :: "libs \<Rightarrow> block list \<Rightarrow> bytes" where
  "tip_hash L bs = chain_head (map (block_hash_of L) bs)"

lemma tracks_tip: "tracks L D bs \<Longrightarrow> (case db_tip D of None \<Rightarrow> all_zeros | Some tip \<Rightarrow> tip) = tip_hash L bs"
  by (cases bs) (auto simp: tracks_def tip_hash_def)

lemma tip_hash_distinct:
  assumes "stored_chain L D (p @ s)" and "p \<noteq> []"
  shows "tip_hash L (p @ s) \<noteq> tip_hash L s"
proof -
  obtain b p' where p: "p = b # p'" using assms(2) by (cases p) auto
  have "block_hash_of L b \<noteq> all_zeros" "block_hash_of L b \<notin> block_hash_of L ` set (p' @ s)"
    using assms(1) by (simp_all add: p Let_def)
  then show ?thesis by (cases s) (auto simp: tip_hash_def p)
qed

lemma rewind_tracks:
  assumes "tracks L D (p @ s)" and "dbs_inv L D"
  shows "\<exists>D' events'. rewind L (tip_hash L s) (tip_hash L (p @ s)) D events = Some (Inr (tip_hash L s), D', events')
    \<and> tracks L D' s \<and> same_blocks D D'
    \<and> events' = events @ map (\<lambda>b. DisconnectBlockEvent (block_hash_of L b)) p"
  using assms
proof (induction p arbitrary: D events)
  case Nil
  then show ?case by (subst rewind.simps) (simp add: same_blocks_def)
next
  case (Cons b p)
  have ne: "tip_hash L (b # p @ s) \<noteq> tip_hash L s"
    using tip_hash_distinct [of L D "b # p" s] Cons.prems(1) by (simp add: tracks_def)
  obtain D1 where d: "disconnect_block L (block_hash_of L b) D
       = (Inr (Some (DisconnectBlockEvent (block_hash_of L b))), D1)"
    and D1: "tracks L D1 (p @ s)" "same_blocks D D1"
    using tracks_disconnect_head [of L D b "p @ s"] Cons.prems by auto
  have inv: "dbs_inv L D1" using dbs_inv_same [OF D1(2)] Cons.prems(2) by simp
  have tip: "tip_hash L (b # p @ s) = block_hash_of L b" by (simp add: tip_hash_def)
  obtain D' events' where "rewind L (tip_hash L s) (tip_hash L (p @ s)) D1
        (events @ [DisconnectBlockEvent (block_hash_of L b)]) = Some (Inr (tip_hash L s), D', events')"
    and "tracks L D' s" "same_blocks D1 D'"
    and "events' = (events @ [DisconnectBlockEvent (block_hash_of L b)])
           @ map (\<lambda>b. DisconnectBlockEvent (block_hash_of L b)) p"
    using Cons.IH [OF D1(1) inv] by blast
  then show ?case
    using ne d tracks_tip [OF D1(1)] D1(2)
    by (subst rewind.simps) (auto simp: tip [symmetric] same_blocks_def)
qed

section \<open>Properties\<close>

lemma header_hash_at_tip:
  assumes "header_chain L hc"
  shows "header_block_hash L (last hc) = header_block_hash L (hc ! (length hc - 1))"
    and "unat (word_of_nat (length hc - 1) :: u32) = length hc - 1"
    and "header_block_hash L (last hc) \<noteq> all_zeros"
proof -
  have ne: "hc \<noteq> []" "length hc < 2 ^ 32" "all_zeros \<notin> header_block_hash L ` set hc"
    using assms by (simp_all add: header_chain_def)
  show "header_block_hash L (last hc) = header_block_hash L (hc ! (length hc - 1))"
    using ne(1) by (simp add: last_conv_nth)
  show "unat (word_of_nat (length hc - 1) :: u32) = length hc - 1"
    using ne(2) by (intro unat_u32) simp
  show "header_block_hash L (last hc) \<noteq> all_zeros"
    using ne(1,3) last_in_set [of hc] by (metis imageI)
qed

text \<open>
  The last common ancestor of two complete header chains is the block below which they agree:
  given the ancestries of two stored blocks and the heights of the two blocks,
  \<open>last_common_ancestor\<close> succeeds, and the two chains are two prefixes followed by the chain of
  the block it returns, where the prefixes end in different blocks unless one is empty.
\<close>
theorem last_common_ancestor_correct:
  assumes "ancestry D c0" and "ancestry D c1" and "tip_height_ok D c0" and "tip_height_ok D c1"
  shows "\<exists>s. last_common c0 c1 s
    \<and> last_common_ancestor D (chain_head c0) (chain_head c1) = Inr (chain_head s)"
  using assms by (rule last_common_ancestor_ok)

text \<open>
  C18: the search for the best known ancestor ends and finds the greatest known height: when the
  node answers every height of its chain and the known blocks of the chain are closed downwards,
  the answer is the highest block whose header is stored, and there is none only if every block
  but possibly none of them is unknown.
\<close>
theorem best_ancestor_search_exact:
  assumes "node_tip = bh (unat height)" and "node_tip \<noteq> all_zeros"
    and "\<And>k. k \<le> unat height \<Longrightarrow> mc_getblockhash M k = Inr (bh k)"
    and "\<And>j k. j \<le> k \<Longrightarrow> k \<le> unat height \<Longrightarrow> contains_header D (bh k) \<Longrightarrow> contains_header D (bh j)"
  shows "\<exists>r. fetch_best_ancestor M D node_tip height = Inr r
    \<and> (case r of None \<Rightarrow> \<forall>k < Suc (unat height). \<not> contains_header D (bh k)
       | Some (m, h) \<Rightarrow> m = bh (unat h) \<and> best_below (\<lambda>k. contains_header D (bh k)) (Suc (unat height)) (unat h))"
proof (cases "contains_header D node_tip")
  case True
  then show ?thesis using assms(1,2) by (auto simp: fetch_best_ancestor_def best_below_def)
next
  case False
  then have "\<not> contains_header D (bh k)" if "unat height \<le> k" "k \<le> unat height" for k
    using assms(1) that by simp
  then obtain r where "best_ancestor_loop M D None height = Inr r"
    and "case r of None \<Rightarrow> \<forall>k < unat height. \<not> contains_header D (bh k)
       | Some (m, h) \<Rightarrow> m = bh (unat h) \<and> best_below (\<lambda>k. contains_header D (bh k)) (Suc (unat height)) (unat h)"
    using best_ancestor_loop_correct [of height M bh D height None] assms(3,4) by auto
  then show ?thesis
    using False assms(1,2)
    by (intro exI [of _ r]) (auto simp: fetch_best_ancestor_def less_Suc_eq split: option.splits)
qed

lemma sync_headers_complete:
  assumes "serves_chain L M hc" and "header_chain L hc" and "n \<le> length hc"
    and "headers_stored L hc {..<n} D"
    and "\<And>k. n \<le> k \<Longrightarrow> k < length hc \<Longrightarrow> \<not> contains_header D (header_block_hash L (hc ! k))"
  shows "\<exists>D'. sync_headers L M (header_block_hash L (last hc)) D = Some (Inr (), D')
    \<and> headers_stored L hc {..<length hc} D'"
proof -
  let ?tip = "header_block_hash L (last hc)" and ?bh = "\<lambda>k. header_block_hash L (hc ! k)"
  define height :: u32 where "height = word_of_nat (length hc - 1)"
  note tip = header_hash_at_tip [OF assms(2), folded height_def]
  have len: "0 < length hc" using assms(2) by (simp add: header_chain_def)
  have known: "contains_header D (?bh k) = (k < n)" if "k < length hc" for k
    using assms(4) assms(5) [of k] that
    by (cases "k < n") (auto simp: headers_stored_def contains_header_def)
  have serve: "mc_getblockheader_height M ?tip = Inr height"
    "\<And>k. k < length hc \<Longrightarrow> mc_getblockhash M k = Inr (?bh k)"
    using assms(1) by (simp_all only: serves_chain_def height_def)
  show ?thesis
  proof (cases "n = length hc")
    case True
    then have "fetch_best_ancestor M D ?tip height = Inr (Some (?tip, height))"
      using tip known [of "length hc - 1"] len by (simp add: fetch_best_ancestor_def)
    then show ?thesis using serve(1) tip(3) assms(4) True by (simp add: sync_headers_def)
  next
    case False
    then have n: "n < length hc" using assms(3) by simp
    have unknown: "\<not> contains_header D ?tip" using known [of "length hc - 1"] n tip(1) by auto
    obtain r where r: "best_ancestor_loop M D None height = Inr r"
      and best: "case r of None \<Rightarrow> \<forall>k < unat height. \<not> contains_header D (?bh k)
        | Some (m, h) \<Rightarrow> m = ?bh (unat h) \<and> best_below (\<lambda>k. contains_header D (?bh k)) (Suc (unat height)) (unat h)"
    proof -
      have "\<And>k. k \<le> unat height \<Longrightarrow> k < length hc" using tip(2) len by linarith
      then have "\<exists>r. best_ancestor_loop M D None height = Inr r
        \<and> (case r of None \<Rightarrow> \<forall>k < unat height. \<not> contains_header D (?bh k)
           | Some (m, h) \<Rightarrow> m = ?bh (unat h) \<and> best_below (\<lambda>k. contains_header D (?bh k)) (Suc (unat height)) (unat h))"
        by (intro best_ancestor_loop_correct) (use serve(2) known n tip(2) in auto)
      then show ?thesis using that by blast
    qed
    have fetch: "fetch_best_ancestor M D ?tip height = Inr r"
      using r unknown tip(3) by (simp add: fetch_best_ancestor_def)
    show ?thesis
    proof (cases r)
      case None
      then have "n = 0" using best known [of 0] tip(2) n len by (cases n) auto
      then have "\<exists>D'. header_loop L M ?tip height 0 (?bh 0) (word_of_nat 0) D = Some (Inr (), D')
          \<and> headers_stored L hc ({} \<union> {0..<length hc}) D'"
        by (intro header_loop_complete [OF assms(1,2) len, folded height_def]) (simp_all add: headers_stored_def)
      then show ?thesis
        using fetch serve(1) serve(2) [OF len] tip(3)
        by (simp add: None sync_headers_def atLeast0LessThan)
    next
      case (Some p)
      obtain m h where p: "p = (m, h)" by (cases p)
      have h: "m = ?bh (unat h)" "unat h < length hc" "contains_header D (?bh (unat h))"
        "\<And>k. unat h < k \<Longrightarrow> k < length hc \<Longrightarrow> \<not> contains_header D (?bh k)"
        using best tip(2) len by (auto simp: Some p best_below_def)
      then have hn: "Suc (unat h) = n"
        using known [of "unat h"] known [of "Suc (unat h)"] n by (cases "Suc (unat h) < n") auto
      have loop: "\<exists>D'. header_loop L M ?tip height 0 (?bh (unat h)) (word_of_nat (unat h)) D = Some (Inr (), D')
          \<and> headers_stored L hc ({..<n} \<union> {unat h..<length hc}) D'"
        using n hn by (intro header_loop_complete [OF assms(1,2) h(2) _ assms(4), folded height_def]) auto
      have "{..<n} \<union> {unat h..<length hc} = {..<length hc}" using n hn by auto
      moreover have "m \<noteq> ?tip" using h(1,3) unknown by auto
      ultimately show ?thesis
        using loop fetch serve(1) tip(3) h(1) by (simp add: Some p sync_headers_def)
    qed
  qed
qed

text \<open>
  Header download reaches the tip: against a node that serves a chain of linked headers, with
  exactly the first \<open>n\<close> of them stored, \<open>sync_headers\<close> returns, without an error, and leaves every
  header of the chain stored with its height.
\<close>
theorem sync_headers_reaches_tip:
  assumes "serves_chain L M hc" and "header_chain L hc" and "n \<le> length hc"
    and "headers_stored L hc {..<n} D"
    and "\<And>k. n \<le> k \<Longrightarrow> k < length hc \<Longrightarrow> \<not> contains_header D (header_block_hash L (hc ! k))"
  shows "\<exists>D'. sync_headers L M (header_block_hash L (last hc)) D = Some (Inr (), D')
    \<and> headers_stored L hc {..<length hc} D'"
  using assms by (rule sync_headers_complete)

subsection \<open>A node that serves a chain\<close>

text \<open>
  The node answers from a list of blocks; block data travels as the hash of the block, one
  character per byte, and is decoded by looking the block up.
\<close>

definition block_index :: "libs \<Rightarrow> header list \<Rightarrow> bytes \<Rightarrow> nat" where
  "block_index L hc h = length (takeWhile (\<lambda>x. header_block_hash L x \<noteq> h) hc)"

definition honest_node :: "libs \<Rightarrow> block list \<Rightarrow> mainchain" where
  "honest_node L blks =
     (let hc = map blk_header blks; index = block_index L hc in
      \<lparr>mc_getblockheader_height = (\<lambda>h. if index h < length hc then Inr (word_of_nat (index h)) else Inl ''no block''),
       mc_getblockhash = (\<lambda>k. if k < length hc then Inr (header_block_hash L (hc ! k)) else Inl ''no height''),
       mc_get_block_headers = (\<lambda>h count.
          Inr (map (served_header L hc) [index h..<min (index h + count) (length hc)])),
       mc_getblock_batch = (\<lambda>hs. Inr (Inr (map (map (\<lambda>b. char_of (unat b))) hs))),
       mc_hex_decode = (\<lambda>s. Some (map (\<lambda>c. word_of_nat (of_char c)) s)),
       mc_deserialize_block = (\<lambda>h. if index h < length blks then Some (blks ! index h) else None),
       mc_is_cancelled = (\<lambda>_. False), mc_files_cancelled = (\<lambda>_. False), mc_blocks_cancelled = (\<lambda>_. False)\<rparr>)"

lemma block_index_nth:
  assumes "header_chain L hc" and "i < length hc"
  shows "block_index L hc (header_block_hash L (hc ! i)) = i"
proof -
  have "takeWhile (\<lambda>x. header_block_hash L x \<noteq> header_block_hash L (hc ! i)) hc = take i hc"
    by (rule takeWhile_eq_take_P_nth) (use assms header_hash_inj [OF assms(1)] in auto)
  then show ?thesis using assms(2) by (simp add: block_index_def)
qed

lemma honest_serves:
  assumes "header_chain L (map blk_header blks)"
  shows "serves_chain L (honest_node L blks) (map blk_header blks)"
proof -
  let ?hc = "map blk_header blks"
  have "?hc \<noteq> []" using assms by (simp add: header_chain_def)
  then have "last ?hc = ?hc ! (length ?hc - 1)" "length ?hc - 1 < length ?hc"
    by (simp_all add: last_conv_nth)
  then have tip: "block_index L ?hc (header_block_hash L (last ?hc)) = length ?hc - 1"
    using block_index_nth [OF assms, of "length ?hc - 1"] by simp
  show ?thesis
    using block_index_nth [OF assms] \<open>length ?hc - 1 < length ?hc\<close>
    unfolding serves_chain_def honest_node_def Let_def
    by (simp add: tip del: length_map nth_map of_nat_diff)
qed

lemma demo_header_chain: "header_chain sample_libs (map blk_header [genesis, second_block])"
proof -
  have "hdr_prev_blockhash (blk_header genesis) = all_zeros"
    "hdr_prev_blockhash (blk_header second_block) = 2 # replicate 31 0"
    by (simp_all add: genesis_def second_block_def sample_header_def)
  then show ?thesis
    using demo_hashes demo_not_zeros [of 2] demo_not_zeros [of 3]
    by (auto simp: header_chain_def less_Suc_eq simp del: sample_libs_sel replicate.simps)
qed

lemma demo_tip: "last (map blk_header [genesis, second_block]) = blk_header second_block"
  by simp

theorem sync_headers_reaches_tip_witness:
  "\<exists>D. sync_headers sample_libs (honest_node sample_libs [genesis, second_block])
        (block_hash_of sample_libs second_block) dbs_new = Some (Inr (), D)
     \<and> headers_stored sample_libs (map blk_header [genesis, second_block]) {..<2} D"
proof -
  let ?hc = "map blk_header [genesis, second_block]"
  have "\<exists>D. sync_headers sample_libs (honest_node sample_libs [genesis, second_block])
        (header_block_hash sample_libs (last ?hc)) dbs_new = Some (Inr (), D)
     \<and> headers_stored sample_libs ?hc {..<length ?hc} D"
    by (rule sync_headers_reaches_tip [OF honest_serves [OF demo_header_chain] demo_header_chain, of 0])
      (simp_all add: headers_stored_def contains_header_def dbs_new_def)
  moreover have "length ?hc = 2" by simp
  ultimately show ?thesis by (simp only: demo_tip)
qed

theorem best_ancestor_search_exact_witness:
  "\<exists>r. fetch_best_ancestor (honest_node sample_libs [genesis, second_block])
        (put_headers sample_libs [(blk_header genesis, 0)] dbs_new) (3 # replicate 31 0) 1 = Inr r"
proof -
  let ?bh = "\<lambda>k. header_block_hash sample_libs (map blk_header [genesis, second_block] ! k)"
  let ?D = "put_headers sample_libs [(blk_header genesis, 0)] dbs_new"
  have known: "contains_header ?D h = (h = 2 # replicate 31 0)" for h
    using demo_hashes(1)
    by (simp add: contains_header_def put_headers_def put_header_def dbs_new_def Let_def
        del: sample_libs_sel replicate.simps)
  have bh: "?bh 0 = 2 # replicate 31 0" "?bh 1 = 3 # replicate 31 0"
    using demo_hashes by simp_all
  have "\<exists>r. fetch_best_ancestor (honest_node sample_libs [genesis, second_block]) ?D (3 # replicate 31 0) 1 = Inr r
    \<and> (case r of None \<Rightarrow> \<forall>k < Suc (unat (1 :: u32)). \<not> contains_header ?D (?bh k)
       | Some (m, h) \<Rightarrow> m = ?bh (unat h) \<and> best_below (\<lambda>k. contains_header ?D (?bh k)) (Suc (unat (1 :: u32))) (unat h))"
  proof (rule best_ancestor_search_exact)
    fix k assume "k \<le> unat (1 :: u32)"
    then show "mc_getblockhash (honest_node sample_libs [genesis, second_block]) k = Inr (?bh k)"
      by (simp add: honest_node_def Let_def)
  next
    fix j k :: nat assume "j \<le> k" "k \<le> unat (1 :: u32)" "contains_header ?D (?bh k)"
    then show "contains_header ?D (?bh j)"
      using bh by (cases k) (auto simp: known simp del: replicate.simps)
  qed (use bh demo_not_zeros [of 3] in simp_all)
  then show ?thesis by blast
qed

theorem last_common_ancestor_correct_witness:
  "last_common_ancestor demo_dbs (3 # replicate 31 0) (2 # replicate 31 0) = Inr (2 # replicate 31 0)"
proof -
  let ?h1 = "2 # replicate 31 0 :: bytes" and ?h2 = "3 # replicate 31 0 :: bytes"
  have prev: "hdr_prev_blockhash (blk_header genesis) = all_zeros"
    "hdr_prev_blockhash (blk_header second_block) = ?h1"
    by (simp_all add: genesis_def second_block_def sample_header_def)
  have anc: "ancestry demo_dbs [?h2, ?h1]" "ancestry demo_dbs [?h1]"
    using demo_dbs_headers prev demo_not_zeros [of 2] demo_not_zeros [of 3]
    by (simp_all del: replicate.simps)
  moreover have "tip_height_ok demo_dbs [?h2, ?h1]" "tip_height_ok demo_dbs [?h1]"
    using demo_dbs_headers by (simp_all add: tip_height_ok_def del: replicate.simps)
  ultimately obtain s where s: "last_common [?h2, ?h1] [?h1] s"
    and lca: "last_common_ancestor demo_dbs (chain_head [?h2, ?h1]) (chain_head [?h1]) = Inr (chain_head s)"
    using last_common_ancestor_correct by blast
  have "s = [?h1]"
    using s by (auto simp: last_common_def Cons_eq_append_conv simp del: replicate.simps)
  then show ?thesis using lca by simp
qed

end
