(* ===== verification/Block_Files.thy ===== *)
theory Block_Files
  imports Sync
begin

text \<open>
  Synchronisation from the block files of the node (\<open>lib/validator/task/block_files.rs\<close>): the
  bounded cache for blocks that come too early, batches of pending blocks, and the loop over the
  parsed blocks. The stack of missing blocks has the next expected block last, as in the code.
\<close>

section \<open>The block cache\<close>

text \<open>The hash map is an association list with distinct keys.\<close>

record block_cache =
  bc_blocks :: "(bytes \<times> block) list"
  bc_insertion_order :: "bytes list"
  bc_max_size :: nat

definition block_cache_new :: "nat \<Rightarrow> block_cache" where
  "block_cache_new max_size = \<lparr>bc_blocks = [], bc_insertion_order = [], bc_max_size = max_size\<rparr>"

definition block_cache_len :: "block_cache \<Rightarrow> nat" where
  "block_cache_len C = length (bc_blocks C)"

text \<open>The eviction loop; \<open>None\<close> is a cache that stays full with nothing left to evict.\<close>

partial_function (option) evict :: "block_cache \<Rightarrow> block_cache option" where
  "evict C =
     (if bc_max_size C \<le> length (bc_blocks C)
      then case bc_insertion_order C of
          oldest_hash # rest \<Rightarrow>
            evict (C\<lparr>bc_insertion_order := rest, bc_blocks := AList.delete oldest_hash (bc_blocks C)\<rparr>)
        | [] \<Rightarrow> evict C
      else Some C)"

definition block_cache_insert :: "bytes \<Rightarrow> block \<Rightarrow> block_cache \<Rightarrow> block_cache option" where
  "block_cache_insert block_hash blk C =
     (if map_of (bc_blocks C) block_hash \<noteq> None then Some C
      else Option.bind (evict C) (\<lambda>C'.
        Some (C'\<lparr>bc_blocks := AList.update block_hash blk (bc_blocks C'),
                 bc_insertion_order := bc_insertion_order C' @ [block_hash]\<rparr>)))"

definition block_cache_remove :: "bytes \<Rightarrow> block_cache \<Rightarrow> block option \<times> block_cache" where
  "block_cache_remove block_hash C =
     (case map_of (bc_blocks C) block_hash of
        None \<Rightarrow> (None, C)
      | Some blk \<Rightarrow>
          (Some blk, C\<lparr>bc_blocks := AList.delete block_hash (bc_blocks C),
                       bc_insertion_order := remove1 block_hash (bc_insertion_order C)\<rparr>))"

text \<open>
  What a client of a cache relies on: inserting returns, stays within the bound, and adds nothing
  but the given entry; removing returns the entry if there is one.
\<close>

locale bounded_cache =
  fixes insert_into :: "'k \<Rightarrow> 'v \<Rightarrow> 'c \<Rightarrow> 'c option"
    and remove_from :: "'k \<Rightarrow> 'c \<Rightarrow> 'v option \<times> 'c"
    and look :: "'c \<Rightarrow> 'k \<Rightarrow> 'v option"
    and wf :: "'c \<Rightarrow> bool"
    and within :: "'c \<Rightarrow> bool"
  assumes insert_total: "wf c \<Longrightarrow> \<exists>c'. insert_into k v c = Some c' \<and> wf c'"
    and insert_adds: "wf c \<Longrightarrow> insert_into k v c = Some c' \<Longrightarrow> look c' \<subseteq>\<^sub>m (look c)(k \<mapsto> v) \<or> c' = c"
    and insert_has: "wf c \<Longrightarrow> insert_into k v c = Some c' \<Longrightarrow> look c' k \<noteq> None"
    and remove_look: "wf c \<Longrightarrow> remove_from k c = (r, c') \<Longrightarrow> r = look c k \<and> look c' \<subseteq>\<^sub>m look c \<and> wf c'"
    and wf_within: "wf c \<Longrightarrow> within c"
begin

text \<open>The client's invariant: every cached value sits under its own key.\<close>

definition keyed :: "('v \<Rightarrow> 'k) \<Rightarrow> 'c \<Rightarrow> bool" where
  "keyed key c = (\<forall>k v. look c k = Some v \<longrightarrow> key v = k)"

lemma keyed_insert:
  assumes "wf c" and "keyed key c"
  shows "\<exists>c'. insert_into (key v) v c = Some c' \<and> wf c' \<and> keyed key c' \<and> within c'"
proof -
  obtain c' where c': "insert_into (key v) v c = Some c'" "wf c'"
    using insert_total [OF assms(1)] by blast
  have "keyed key c'"
    unfolding keyed_def
  proof (intro allI impI)
    fix k w assume "look c' k = Some w"
    then have "((look c)(key v \<mapsto> v)) k = Some w \<or> look c k = Some w"
      using insert_adds [OF assms(1) c'(1)] unfolding map_le_def by (metis domI)
    then have "k = key v \<and> w = v \<or> look c k = Some w" by (auto split: if_splits)
    then show "key w = k" using assms(2) by (auto simp: keyed_def)
  qed
  then show ?thesis using c' wf_within by blast
qed

lemma keyed_remove:
  assumes "wf c" and "keyed key c" and "remove_from k c = (r, c')"
  shows "wf c' \<and> keyed key c' \<and> (\<forall>v. r = Some v \<longrightarrow> key v = k)"
  using remove_look [OF assms(1,3)] assms(2)
  by (auto simp: keyed_def map_le_def dom_def)

end

definition cache_wf :: "block_cache \<Rightarrow> bool" where
  "cache_wf C =
     (distinct (map fst (bc_blocks C)) \<and> distinct (bc_insertion_order C)
      \<and> set (bc_insertion_order C) = fst ` set (bc_blocks C)
      \<and> length (bc_blocks C) \<le> bc_max_size C \<and> 0 < bc_max_size C)"

lemma length_delete:
  "distinct (map fst xs) \<Longrightarrow> k \<in> fst ` set xs \<Longrightarrow> length xs = Suc (length (AList.delete k xs))"
  by (induction xs) auto

lemma keys_delete: "fst ` set (AList.delete k xs) = fst ` set xs - {k}"
  by (metis delete_keys list.set_map set_removeAll)

lemma cache_wf_delete:
  assumes "cache_wf C" and "h \<in> fst ` set (bc_blocks C)"
    and "distinct r" and "set r = set (bc_insertion_order C) - {h}"
  shows "cache_wf (C\<lparr>bc_insertion_order := r, bc_blocks := AList.delete h (bc_blocks C)\<rparr>)"
  using assms length_delete [of "bc_blocks C" h]
  by (simp add: cache_wf_def keys_delete distinct_delete)

lemma evict_wf:
  assumes "cache_wf C"
  shows "\<exists>C'. evict C = Some C' \<and> cache_wf C' \<and> length (bc_blocks C') < bc_max_size C'
    \<and> bc_max_size C' = bc_max_size C \<and> map_of (bc_blocks C') \<subseteq>\<^sub>m map_of (bc_blocks C)
    \<and> set (bc_insertion_order C') \<subseteq> set (bc_insertion_order C)"
proof (cases "bc_max_size C \<le> length (bc_blocks C)")
  case False
  then show ?thesis using assms by (subst evict.simps) simp
next
  case True
  then have "bc_blocks C \<noteq> []" using assms by (auto simp: cache_wf_def)
  then obtain h r where o: "bc_insertion_order C = h # r"
    using assms by (cases "bc_insertion_order C") (auto simp: cache_wf_def)
  let ?C = "C\<lparr>bc_insertion_order := r, bc_blocks := AList.delete h (bc_blocks C)\<rparr>"
  have h: "h \<in> fst ` set (bc_blocks C)" using assms o by (auto simp: cache_wf_def)
  have len: "length (bc_blocks C) = Suc (length (AList.delete h (bc_blocks C)))"
    by (rule length_delete) (use assms h in \<open>auto simp: cache_wf_def\<close>)
  have "evict C = evict ?C" using True by (subst evict.simps) (simp add: o)
  moreover have "evict ?C = Some ?C"
    using assms len by (subst evict.simps) (simp add: cache_wf_def)
  moreover have "cache_wf ?C"
    by (rule cache_wf_delete [OF assms h]) (use assms o in \<open>auto simp: cache_wf_def\<close>)
  ultimately show ?thesis
    using assms len o by (auto simp: cache_wf_def map_le_def delete_conv')
qed

lemma update_fresh: "k \<notin> fst ` set xs \<Longrightarrow> AList.update k v xs = xs @ [(k, v)]"
  by (induction xs) auto

lemma block_cache_insert_wf:
  assumes "cache_wf C"
  shows "\<exists>C'. block_cache_insert h b C = Some C' \<and> cache_wf C'
    \<and> (map_of (bc_blocks C') \<subseteq>\<^sub>m (map_of (bc_blocks C))(h \<mapsto> b) \<or> C' = C) \<and> map_of (bc_blocks C') h \<noteq> None"
proof (cases "map_of (bc_blocks C) h")
  case (Some b')
  then show ?thesis using assms by (simp add: block_cache_insert_def)
next
  case None
  obtain C1 where C1: "evict C = Some C1" "cache_wf C1" "length (bc_blocks C1) < bc_max_size C1"
    and le: "map_of (bc_blocks C1) \<subseteq>\<^sub>m map_of (bc_blocks C)"
    using evict_wf [OF assms] by blast
  have "dom (map_of (bc_blocks C1)) \<subseteq> dom (map_of (bc_blocks C))" by (rule map_le_implies_dom_le [OF le])
  then have "map_of (bc_blocks C1) h = None" using None by (auto simp: domIff)
  then have h: "h \<notin> fst ` set (bc_blocks C1)" by (simp add: map_of_eq_None_iff)
  let ?C = "C1\<lparr>bc_blocks := bc_blocks C1 @ [(h, b)], bc_insertion_order := bc_insertion_order C1 @ [h]\<rparr>"
  have "block_cache_insert h b C = Some ?C"
    by (simp add: block_cache_insert_def None C1(1) update_fresh [OF h])
  moreover have "cache_wf ?C" using C1(2,3) h by (auto simp: cache_wf_def)
  moreover have m: "map_of (bc_blocks C1 @ [(h, b)]) = (map_of (bc_blocks C1))(h \<mapsto> b)"
    using update_conv' [of h b "bc_blocks C1"] by (simp only: update_fresh [OF h])
  ultimately show ?thesis
    using le by (simp add: map_le_upd)
qed

lemma block_cache_remove_wf:
  assumes "cache_wf C" and "block_cache_remove h C = (r, C')"
  shows "r = map_of (bc_blocks C) h \<and> map_of (bc_blocks C') \<subseteq>\<^sub>m map_of (bc_blocks C) \<and> cache_wf C'"
proof (cases "map_of (bc_blocks C) h")
  case None
  then show ?thesis using assms by (simp add: block_cache_remove_def)
next
  case (Some b)
  then have h: "h \<in> fst ` set (bc_blocks C)" by (metis domI dom_map_of_conv_image_fst)
  have C': "r = Some b" "C' = C\<lparr>bc_insertion_order := remove1 h (bc_insertion_order C),
      bc_blocks := AList.delete h (bc_blocks C)\<rparr>"
    using assms(2) Some by (auto simp: block_cache_remove_def)
  have "cache_wf C'"
    unfolding C'(2) by (rule cache_wf_delete [OF assms(1) h]) (use assms(1) in \<open>simp_all add: cache_wf_def\<close>)
  moreover have "map_of (bc_blocks C') \<subseteq>\<^sub>m map_of (bc_blocks C)"
    by (simp add: C' map_le_def delete_conv')
  ultimately show ?thesis using C'(1) Some by simp
qed

interpretation block_cache: bounded_cache block_cache_insert block_cache_remove
  "\<lambda>C. map_of (bc_blocks C)" cache_wf "\<lambda>C. length (bc_blocks C) \<le> bc_max_size C"
proof
  fix C k v C'
  assume "cache_wf C"
  then obtain C1 where "block_cache_insert k v C = Some C1" "cache_wf C1"
    "map_of (bc_blocks C1) \<subseteq>\<^sub>m (map_of (bc_blocks C))(k \<mapsto> v) \<or> C1 = C" "map_of (bc_blocks C1) k \<noteq> None"
    using block_cache_insert_wf by blast
  then show "\<exists>C'. block_cache_insert k v C = Some C' \<and> cache_wf C'"
    and "block_cache_insert k v C = Some C' \<Longrightarrow> map_of (bc_blocks C') \<subseteq>\<^sub>m (map_of (bc_blocks C))(k \<mapsto> v) \<or> C' = C"
    and "block_cache_insert k v C = Some C' \<Longrightarrow> map_of (bc_blocks C') k \<noteq> None"
    by auto
next
  fix C k r C'
  assume "cache_wf C" and "block_cache_remove k C = (r, C')"
  then show "r = map_of (bc_blocks C) k \<and> map_of (bc_blocks C') \<subseteq>\<^sub>m map_of (bc_blocks C) \<and> cache_wf C'"
    by (rule block_cache_remove_wf)
qed (simp add: cache_wf_def)

section \<open>Pending blocks\<close>

definition MAX_BLOCK_CACHE_SIZE :: nat where "MAX_BLOCK_CACHE_SIZE = 5000"
definition MAX_ITERATIONS_WITHOUT_MATCH :: nat where "MAX_ITERATIONS_WITHOUT_MATCH = 5000"
definition BLOCKS_DIR_CONNECT_BATCH_SIZE :: nat where "BLOCKS_DIR_CONNECT_BATCH_SIZE = 2000"

text \<open>
  The variables of the loop: the committed databases and the broadcast events, the stack of
  missing blocks, the pending batch, the counters, the cache and the parser.
\<close>

record file_sync =
  fs_dbs :: dbs
  fs_events :: "event list"
  fs_missing_blocks :: "bytes list"
  fs_pending_blocks :: "block list"
  fs_total_handled_blocks :: nat
  fs_block_cache :: block_cache
  fs_has_found_start :: bool
  fs_iterations_without_match :: nat
  fs_parser :: block_directory_parser

text \<open>
  A fatal error drops the database transaction; the events are out already. After a rejection the
  unconnected tail of the batch goes back on the stack.
\<close>

definition connect_pending_blocks ::
  "libs \<Rightarrow> block_handler \<Rightarrow> (file_sync, sync_error, bool) st" where
  "connect_pending_blocks L H S =
     (case handle_block_batch L H (fs_pending_blocks S) (fs_dbs S, fs_events S) of
        (Inl e, _, events) \<Rightarrow> (Inl e, S\<lparr>fs_events := events\<rparr>)
      | (Inr None, D, events) \<Rightarrow>
          (Inr True, S\<lparr>fs_dbs := D, fs_events := events,
             fs_total_handled_blocks := fs_total_handled_blocks S + length (fs_pending_blocks S),
             fs_pending_blocks := []\<rparr>)
      | (Inr (Some (rejected_block, _)), D, events) \<Rightarrow>
          let rejected_idx =
            length (takeWhile (\<lambda>b. header_block_hash L (blk_header b) \<noteq> rejected_block) (fs_pending_blocks S)) in
          (Inr False, S\<lparr>fs_dbs := D, fs_events := events,
             fs_missing_blocks := fs_missing_blocks S
               @ rev (map (\<lambda>b. header_block_hash L (blk_header b)) (drop rejected_idx (fs_pending_blocks S))),
             fs_total_handled_blocks := fs_total_handled_blocks S + rejected_idx,
             fs_pending_blocks := []\<rparr>))"

definition batch_is_due :: "file_sync \<Rightarrow> bool" where
  "batch_is_due S =
     (BLOCKS_DIR_CONNECT_BATCH_SIZE \<le> length (fs_pending_blocks S) \<or> fs_missing_blocks S = [])"

lemma connect_pending_True:
  "connect_pending_blocks L H S = (Inr True, S') \<Longrightarrow>
   fs_missing_blocks S' = fs_missing_blocks S \<and> fs_block_cache S' = fs_block_cache S"
  by (auto simp: connect_pending_blocks_def Let_def split: prod.splits sum.splits option.splits)

text \<open>The expected block is moved from the cache to the batch until one is not cached.\<close>

definition take_expected :: "block \<Rightarrow> file_sync \<Rightarrow> file_sync" where
  "take_expected blk S =
     S\<lparr>fs_pending_blocks := fs_pending_blocks S @ [blk],
       fs_missing_blocks := butlast (fs_missing_blocks S)\<rparr>"

function process_cached_blocks :: "libs \<Rightarrow> block_handler \<Rightarrow> (file_sync, sync_error, bool) st" where
  "process_cached_blocks L H S =
     (if fs_missing_blocks S = [] then (Inr True, S)
      else case block_cache_remove (last (fs_missing_blocks S)) (fs_block_cache S) of
        (None, _) \<Rightarrow> (Inr True, S)
      | (Some cached_block, C) \<Rightarrow>
          let S1 = take_expected cached_block (S\<lparr>fs_block_cache := C\<rparr>) in
          if batch_is_due S1 then
            (case connect_pending_blocks L H S1 of
               (Inl e, S2) \<Rightarrow> (Inl e, S2)
             | (Inr False, S2) \<Rightarrow> (Inr False, S2)
             | (Inr True, S2) \<Rightarrow> process_cached_blocks L H S2)
          else process_cached_blocks L H S1)"
  by pat_completeness auto

termination process_cached_blocks
  by (relation "measure (\<lambda>(L, H, S). length (fs_missing_blocks S))")
    (auto simp: take_expected_def dest!: connect_pending_True [OF sym])

declare process_cached_blocks.simps [simp del]

section \<open>The loop over the files\<close>

definition full_block :: "block_file_libs \<Rightarrow> parsed_block \<Rightarrow> sync_error + block" where
  "full_block B pb =
     bindE (mapErr ParseBlockFiles (parse_tx_data B pb)) (\<lambda>txdata.
     Inr \<lparr>blk_header = pb_header pb, blk_txdata = txdata\<rparr>)"

text \<open>
  Steps of the loop body return whether the loop goes on; the outer \<open>option\<close> is that of the cache.
\<close>

type_synonym file_step_result = "((sync_error + bool) \<times> file_sync) option"

definition cache_block :: "libs \<Rightarrow> block_file_libs \<Rightarrow> parsed_block \<Rightarrow> file_sync \<Rightarrow> file_step_result" where
  "cache_block L B pb S =
     (case full_block B pb of
        Inl e \<Rightarrow> Some (Inl e, S)
      | Inr blk \<Rightarrow>
          Option.bind (block_cache_insert (header_block_hash L (pb_header pb)) blk (fs_block_cache S)) (\<lambda>C.
          Some (Inr True, S\<lparr>fs_block_cache := C\<rparr>)))"

definition flush_pending :: "libs \<Rightarrow> block_handler \<Rightarrow> (file_sync, sync_error, unit) st" where
  "flush_pending L H S =
     (if fs_pending_blocks S = [] then (Inr (), S)
      else case connect_pending_blocks L H S of (Inl e, S') \<Rightarrow> (Inl e, S') | (Inr _, S') \<Rightarrow> (Inr (), S'))"

definition expected_block ::
  "libs \<Rightarrow> block_handler \<Rightarrow> block_file_libs \<Rightarrow> parsed_block \<Rightarrow> (file_sync, sync_error, bool) st" where
  "expected_block L H B pb S =
     (let S0 = S\<lparr>fs_iterations_without_match := 0\<rparr> in
      case full_block B pb of
        Inl e \<Rightarrow> (Inl e, S0)
      | Inr blk \<Rightarrow>
          let S1 = take_expected blk S0 in
          if batch_is_due S1 then
            (case connect_pending_blocks L H S1 of
               (Inl e, S2) \<Rightarrow> (Inl e, S2)
             | (Inr False, S2) \<Rightarrow> (Inr False, S2)
             | (Inr True, S2) \<Rightarrow> process_cached_blocks L H S2)
          else process_cached_blocks L H S1)"

definition unexpected_block ::
  "libs \<Rightarrow> block_handler \<Rightarrow> block_file_libs \<Rightarrow> parsed_block \<Rightarrow> file_sync \<Rightarrow> file_step_result" where
  "unexpected_block L H B pb S =
     Option.bind (cache_block L B pb S) (\<lambda>(r, S').
       case r of
         Inl e \<Rightarrow> Some (Inl e, S')
       | Inr _ \<Rightarrow>
           let S1 = S'\<lparr>fs_iterations_without_match := fs_iterations_without_match S' + 1\<rparr> in
           if MAX_ITERATIONS_WITHOUT_MATCH \<le> fs_iterations_without_match S1 then
             (case flush_pending L H S1 of
                (Inl e, S2) \<Rightarrow> Some (Inl e, S2) | (Inr _, S2) \<Rightarrow> Some (Inr False, S2))
           else Some (Inr True, S1))"

definition file_step ::
  "libs \<Rightarrow> block_handler \<Rightarrow> block_file_libs \<Rightarrow> bytes \<Rightarrow> parsed_block \<Rightarrow> file_sync \<Rightarrow> file_step_result" where
  "file_step L H B first_missing_block pb S =
     (let block_hash = header_block_hash L (pb_header pb) in
      if \<not> fs_has_found_start S \<and> block_hash \<noteq> first_missing_block then cache_block L B pb S
      else
        let S1 = S\<lparr>fs_has_found_start := True\<rparr> in
        if fs_missing_blocks S1 = [] then Some (Inr False, S1)
        else if block_hash = last (fs_missing_blocks S1) then Some (expected_block L H B pb S1)
        else unexpected_block L H B pb S1)"

text \<open>The cancellation flag is polled every hundred iterations.\<close>

partial_function (option) file_loop ::
  "libs \<Rightarrow> block_handler \<Rightarrow> block_file_libs \<Rightarrow> (nat \<Rightarrow> bool) \<Rightarrow> bytes \<Rightarrow> nat \<Rightarrow> file_sync
    \<Rightarrow> ((sync_error + unit) \<times> file_sync) option" where
  "file_loop L H B cancelled first_missing_block iteration_count S =
     (if iteration_count mod 100 = 0 \<and> cancelled iteration_count then
        (case flush_pending L H S of
           (Inl e, S') \<Rightarrow> Some (Inl e, S') | (Inr _, S') \<Rightarrow> Some (Inl Shutdown, S'))
      else
        Option.bind (directory_next B (fs_parser S)) (\<lambda>(r, parser).
          let S1 = S\<lparr>fs_parser := parser\<rparr> in
          case r of
            None \<Rightarrow> Some (Inr (), S1)
          | Some (Inl e) \<Rightarrow> Some (Inl (ParseBlockFiles e), S1)
          | Some (Inr pb) \<Rightarrow>
              Option.bind (file_step L H B first_missing_block pb S1) (\<lambda>(r', S2).
                case r' of
                  Inl e \<Rightarrow> Some (Inl e, S2)
                | Inr continues \<Rightarrow>
                    if continues then file_loop L H B cancelled first_missing_block (iteration_count + 1) S2
                    else Some (Inr (), S2))))"

section \<open>Synchronisation from the directory\<close>

record blocks_dir =
  bd_xor_dat :: "string + bytes"
  bd_files :: "u32 \<Rightarrow> (string + bytes) option"
  bd_index :: index_store

text \<open>The parser starts at the first missing block; the genesis block is at the start of file 0.\<close>

definition start_parser ::
  "block_file_libs \<Rightarrow> blocks_dir \<Rightarrow> network \<Rightarrow> bytes \<Rightarrow> (sync_error + block_directory_parser) option" where
  "start_parser B dir net first_missing_block =
     Option.bind (block_directory_new (bd_xor_dat dir) (bd_files dir) net) (\<lambda>r. Some (
       bindE (mapErr BlockDirectoryParserError r) (\<lambda>parser.
       if first_missing_block = bfl_chain_hash B net then Inr parser
       else
         bindE (mapErr FetchBlockIndex (fetch_block_index (bd_index dir) first_missing_block)) (\<lambda>block_index.
         bindE (ok_or (dbi_file_number block_index) (FetchBlockIndex MissingFileNumber)) (\<lambda>file_number.
         bindE (ok_or (adjusted_data_pos block_index) (FetchBlockIndex MissingDataPos)) (\<lambda>data_pos.
         mapErr BlockFileParserSetOffset
           (case directory_set_offset (unat data_pos) (set_file_number file_number parser) of
              (Inl e, _) \<Rightarrow> Inl e | (Inr _, parser') \<Rightarrow> Inr parser')))))))"

text \<open>
  The result carries the committed databases, the events and the stack, which the caller goes on
  with whatever the result. \<open>None\<close> is a loop that does not end or the panic on the key file.
\<close>

definition sync_from_directory ::
  "libs \<Rightarrow> block_handler \<Rightarrow> block_file_libs \<Rightarrow> (nat \<Rightarrow> bool) \<Rightarrow> blocks_dir \<Rightarrow> network
    \<Rightarrow> bytes list \<Rightarrow> sync_state \<Rightarrow> ((sync_error + nat) \<times> sync_state \<times> bytes list) option" where
  "sync_from_directory L H B cancelled dir net missing_blocks DE =
     (let first_missing_block = last missing_blocks in
      Option.bind (start_parser B dir net first_missing_block) (\<lambda>started.
      case bindE started (\<lambda>parser.
             bindE (mapErr SyncDb (db_get (db_height (fst DE)) (hd missing_blocks))) (\<lambda>_. Inr parser)) of
        Inl e \<Rightarrow> Some (Inl e, DE, missing_blocks)
      | Inr parser \<Rightarrow>
          Option.bind (file_loop L H B cancelled first_missing_block 0
            \<lparr>fs_dbs = fst DE, fs_events = snd DE, fs_missing_blocks = missing_blocks, fs_pending_blocks = [],
             fs_total_handled_blocks = 0, fs_block_cache = block_cache_new MAX_BLOCK_CACHE_SIZE,
             fs_has_found_start = False, fs_iterations_without_match = 0, fs_parser = parser\<rparr>) (\<lambda>(r, S).
          case r of
            Inl e \<Rightarrow> Some (Inl e, (fs_dbs S, fs_events S), fs_missing_blocks S)
          | Inr _ \<Rightarrow>
              (case flush_pending L H S of
                 (Inl e, S') \<Rightarrow> Some (Inl e, (fs_dbs S', fs_events S'), fs_missing_blocks S')
               | (Inr _, S') \<Rightarrow>
                   Some (Inr (fs_total_handled_blocks S'), (fs_dbs S', fs_events S'), fs_missing_blocks S')))))"

section \<open>Blocks are connected in order, whatever the order of the file\<close>

fun connect_all :: "libs \<Rightarrow> block_handler \<Rightarrow> block list \<Rightarrow> dbs \<Rightarrow> (dbs \<times> event list) option" where
  "connect_all L H [] D = Some (D, [])"
| "connect_all L H (b # bs) D =
     (case connect_block L H b D of
        (Inr ev, D1) \<Rightarrow> map_option (\<lambda>(D2, evs). (D2, ev # evs)) (connect_all L H bs D1)
      | (Inl _, _) \<Rightarrow> None)"

lemma connect_all_append:
  "connect_all L H (xs @ ys) D =
     (case connect_all L H xs D of None \<Rightarrow> None
      | Some (D1, evs) \<Rightarrow> map_option (\<lambda>(D2, evs'). (D2, evs @ evs')) (connect_all L H ys D1))"
proof (induction xs arbitrary: D)
  case Nil
  show ?case by (cases "connect_all L H ys D") auto
next
  case (Cons b xs)
  obtain r D1 where c: "connect_block L H b D = (r, D1)" by fastforce
  show ?case
  proof (cases r)
    case (Inr ev)
    then show ?thesis
      using Cons.IH [of D1] by (cases "connect_all L H xs D1") (auto simp: c option.map_comp comp_def case_prod_unfold)
  qed (simp add: c)
qed

lemma handle_batch_all:
  "handle_block_batch L H bs (D, es) = (Inr None, D', es') \<Longrightarrow>
   \<exists>evs. connect_all L H bs D = Some (D', evs) \<and> es' = es @ evs"
proof (induction bs arbitrary: D es)
  case (Cons b bs)
  obtain ev D1 where c: "connect_block L H b D = (Inr ev, D1)"
    and rest: "handle_block_batch L H bs (D1, es @ [ev]) = (Inr None, D', es')"
    using Cons.prems by (auto split: prod.splits sum.splits if_splits)
  from Cons.IH [OF rest] show ?case by (auto simp: c)
qed simp

lemma handle_batch_rejected:
  "handle_block_batch L H bs (D, es) = (Inr (Some (h, e)), D', es') \<Longrightarrow>
   \<exists>pre b post evs. bs = pre @ b # post \<and> h = block_hash_of L b
     \<and> connect_all L H pre D = Some (D', evs) \<and> es' = es @ evs
     \<and> connect_block L H b D' = (Inl e, D') \<and> \<not> connect_is_fatal e"
proof (induction bs arbitrary: D es)
  case (Cons b bs)
  obtain r D1 where c: "connect_block L H b D = (r, D1)" by fastforce
  show ?case
  proof (cases r)
    case (Inl err)
    then have "\<not> connect_is_fatal err" "err = e" "D1 = D'" "es' = es" "h = block_hash_of L b"
      using Cons.prems by (auto simp: c split: if_splits)
    moreover have "D1 = D" using connect_block_nonfatal [of L H b D err D1] c Inl calculation(1) by simp
    ultimately show ?thesis
      using c Inl by (intro exI [of _ "[]"] exI [of _ b] exI [of _ bs] exI [of _ "[]"]) simp
  next
    case (Inr ev)
    then obtain pre b' post evs where "bs = pre @ b' # post" "h = block_hash_of L b'"
      "connect_all L H pre D1 = Some (D', evs)" "es' = (es @ [ev]) @ evs"
      "connect_block L H b' D' = (Inl e, D')" "\<not> connect_is_fatal e"
      using Cons.IH [of D1 "es @ [ev]"] Cons.prems by (auto simp: c)
    then show ?thesis
      using c Inr
      by (intro exI [of _ "b # pre"] exI [of _ b'] exI [of _ post] exI [of _ "ev # evs"]) simp
  qed
qed simp

text \<open>
  The invariant: the blocks done were connected in order from the initial databases, and the done,
  the pending and the missing blocks together are always the list that the loop started with.
\<close>

definition file_sync_inv :: "libs \<Rightarrow> block_handler \<Rightarrow> dbs \<Rightarrow> bytes list \<Rightarrow> file_sync \<Rightarrow> bool" where
  "file_sync_inv L H D0 todo S =
     (\<exists>blks evs. connect_all L H blks D0 = Some (fs_dbs S, evs)
        \<and> length blks = fs_total_handled_blocks S
        \<and> todo = map (block_hash_of L) blks @ map (block_hash_of L) (fs_pending_blocks S) @ rev (fs_missing_blocks S))"

definition cache_inv :: "libs \<Rightarrow> block_cache \<Rightarrow> bool" where
  "cache_inv L C = (cache_wf C \<and> block_cache.keyed (block_hash_of L) C)"

lemma takeWhile_until:
  "distinct (map f (pre @ b # post)) \<Longrightarrow> takeWhile (\<lambda>x. f x \<noteq> f b) (pre @ b # post) = pre"
  by (induction pre) auto

lemma connect_pending_inv:
  assumes "distinct todo" and "file_sync_inv L H D0 todo S" and "connect_pending_blocks L H S = (Inr r, S')"
  shows "file_sync_inv L H D0 todo S'" and "fs_pending_blocks S' = []" and "fs_block_cache S' = fs_block_cache S"
proof -
  obtain blks evs where inv: "connect_all L H blks D0 = Some (fs_dbs S, evs)"
    "length blks = fs_total_handled_blocks S"
    and todo: "todo = map (block_hash_of L) blks @ map (block_hash_of L) (fs_pending_blocks S) @ rev (fs_missing_blocks S)"
    using assms(2) by (auto simp: file_sync_inv_def)
  obtain res D' es' where h: "handle_block_batch L H (fs_pending_blocks S) (fs_dbs S, fs_events S) = (Inr res, D', es')"
    using assms(3) by (auto simp: connect_pending_blocks_def split: prod.splits sum.splits)
  have "file_sync_inv L H D0 todo S' \<and> fs_pending_blocks S' = [] \<and> fs_block_cache S' = fs_block_cache S"
  proof (cases res)
    case None
    obtain evs' where "connect_all L H (fs_pending_blocks S) (fs_dbs S) = Some (D', evs')"
      using handle_batch_all h None by blast
    then have "connect_all L H (blks @ fs_pending_blocks S) D0 = Some (D', evs @ evs')"
      using inv by (simp add: connect_all_append)
    then show ?thesis
      using assms(3) inv todo unfolding file_sync_inv_def
      by (intro conjI exI [of _ "blks @ fs_pending_blocks S"])
        (auto simp: connect_pending_blocks_def h None)
  next
    case (Some he)
    obtain pre b post evs' where p: "fs_pending_blocks S = pre @ b # post" "fst he = block_hash_of L b"
      and c: "connect_all L H pre (fs_dbs S) = Some (D', evs')"
      using handle_batch_rejected [of L H "fs_pending_blocks S" "fs_dbs S" "fs_events S" "fst he" "snd he" D' es'] h Some
      by auto
    have "distinct (map (block_hash_of L) (pre @ b # post))"
      using assms(1) by (auto simp: todo p(1))
    then have t: "takeWhile (\<lambda>x. block_hash_of L x \<noteq> block_hash_of L b) (fs_pending_blocks S) = pre"
      unfolding p(1) by (rule takeWhile_until)
    have "connect_all L H (blks @ pre) D0 = Some (D', evs @ evs')"
      using inv c by (simp add: connect_all_append)
    moreover have drop: "drop (length pre) (fs_pending_blocks S) = b # post" by (simp add: p(1))
    have "S' = S\<lparr>fs_dbs := D', fs_events := es',
        fs_missing_blocks := fs_missing_blocks S @ rev (map (block_hash_of L) (b # post)),
        fs_total_handled_blocks := fs_total_handled_blocks S + length pre, fs_pending_blocks := []\<rparr>"
      using assms(3) p(2) t drop by (cases he) (auto simp: connect_pending_blocks_def h Some Let_def)
    ultimately show ?thesis
      using inv todo p(1) unfolding file_sync_inv_def
      by (intro conjI exI [of _ "blks @ pre"]) auto
  qed
  then show "file_sync_inv L H D0 todo S'" "fs_pending_blocks S' = []" "fs_block_cache S' = fs_block_cache S"
    by simp_all
qed

lemma rev_last: "xs \<noteq> [] \<Longrightarrow> rev xs = last xs # rev (butlast xs)"
  by (metis append_butlast_last_id rev.simps(2) rev_rev_ident rev_append rev_singleton_conv append_Cons append_Nil)

lemma take_expected_inv:
  assumes "file_sync_inv L H D0 todo S" and "fs_missing_blocks S \<noteq> []"
    and "block_hash_of L blk = last (fs_missing_blocks S)"
  shows "file_sync_inv L H D0 todo (take_expected blk S)"
  using assms by (auto simp: file_sync_inv_def take_expected_def rev_last)

lemma file_sync_inv_frame:
  assumes "fs_dbs S' = fs_dbs S" and "fs_total_handled_blocks S' = fs_total_handled_blocks S"
    and "fs_pending_blocks S' = fs_pending_blocks S" and "fs_missing_blocks S' = fs_missing_blocks S"
  shows "file_sync_inv L H D0 todo S' = file_sync_inv L H D0 todo S"
  by (simp add: file_sync_inv_def assms)

text \<open>After a batch that is due, the cache is searched; the two share this step.\<close>

definition full_inv :: "libs \<Rightarrow> block_handler \<Rightarrow> dbs \<Rightarrow> bytes list \<Rightarrow> file_sync \<Rightarrow> bool" where
  "full_inv L H D0 todo S = (file_sync_inv L H D0 todo S \<and> cache_inv L (fs_block_cache S))"

lemma full_inv_connect:
  "distinct todo \<Longrightarrow> full_inv L H D0 todo S \<Longrightarrow> connect_pending_blocks L H S = (Inr r, S') \<Longrightarrow>
   full_inv L H D0 todo S'"
  using connect_pending_inv [of todo L H D0 S r S'] by (simp add: full_inv_def)

lemma process_cached_inv:
  "distinct todo \<Longrightarrow> full_inv L H D0 todo S \<Longrightarrow> process_cached_blocks L H S = (Inr r, S') \<Longrightarrow>
   full_inv L H D0 todo S'"
proof (induction "length (fs_missing_blocks S)" arbitrary: S rule: less_induct)
  case less
  show ?case
  proof (cases "fs_missing_blocks S = []")
    case True
    then show ?thesis using less.prems by (simp add: process_cached_blocks.simps)
  next
    case False
    obtain c C where rem: "block_cache_remove (last (fs_missing_blocks S)) (fs_block_cache S) = (c, C)"
      by fastforce
    show ?thesis
    proof (cases c)
      case None
      then show ?thesis
        using less.prems False rem by (simp add: process_cached_blocks.simps [of L H S])
    next
      case (Some b)
      have C: "cache_inv L C" and b: "block_hash_of L b = last (fs_missing_blocks S)"
        using block_cache.keyed_remove [OF _ _ rem] less.prems(2) Some
        by (auto simp: full_inv_def cache_inv_def)
      define S1 where "S1 = take_expected b (S\<lparr>fs_block_cache := C\<rparr>)"
      have "file_sync_inv L H D0 todo (S\<lparr>fs_block_cache := C\<rparr>)"
        using less.prems(2) file_sync_inv_frame [of "S\<lparr>fs_block_cache := C\<rparr>" S] by (simp add: full_inv_def)
      then have "file_sync_inv L H D0 todo S1"
        unfolding S1_def by (rule take_expected_inv) (use False b in simp_all)
      then have S1: "full_inv L H D0 todo S1" using C by (simp add: full_inv_def S1_def take_expected_def)
      have len: "length (fs_missing_blocks S1) < length (fs_missing_blocks S)"
        using False by (simp add: S1_def take_expected_def)
      have step: "process_cached_blocks L H S =
         (if batch_is_due S1 then
            (case connect_pending_blocks L H S1 of
               (Inl e, S2) \<Rightarrow> (Inl e, S2) | (Inr False, S2) \<Rightarrow> (Inr False, S2)
             | (Inr True, S2) \<Rightarrow> process_cached_blocks L H S2)
          else process_cached_blocks L H S1)"
        using False rem Some by (subst process_cached_blocks.simps) (simp add: S1_def Let_def)
      show ?thesis
      proof (cases "batch_is_due S1")
        case False
        then show ?thesis using less.hyps [OF len less.prems(1) S1] less.prems(3) by (simp add: step)
      next
        case True
        obtain q S2 where q: "connect_pending_blocks L H S1 = (Inr q, S2)"
          using less.prems(3) True by (auto simp: step split: prod.splits sum.splits)
        note S2 = full_inv_connect [OF less.prems(1) S1 q]
        show ?thesis
        proof (cases q)
          case False
          then show ?thesis using S2 less.prems(3) q True by (simp add: step)
        next
          case q': True
          then have "length (fs_missing_blocks S2) < length (fs_missing_blocks S)"
            using connect_pending_True q len by metis
          from less.hyps [OF this less.prems(1) S2] show ?thesis
            using less.prems(3) q q' True by (simp add: step)
        qed
      qed
    qed
  qed
qed

lemma full_block_header: "full_block B pb = Inr blk \<Longrightarrow> blk_header blk = pb_header pb"
  by (auto simp: full_block_def)

lemma expected_block_inv:
  assumes "distinct todo" and "full_inv L H D0 todo S" and "fs_missing_blocks S \<noteq> []"
    and "header_block_hash L (pb_header pb) = last (fs_missing_blocks S)"
    and "expected_block L H B pb S = (Inr r, S')"
  shows "full_inv L H D0 todo S'"
proof -
  let ?S0 = "S\<lparr>fs_iterations_without_match := 0\<rparr>"
  obtain blk where blk: "full_block B pb = Inr blk"
    using assms(5) by (auto simp: expected_block_def Let_def split: sum.splits)
  define S1 where "S1 = take_expected blk ?S0"
  have "file_sync_inv L H D0 todo ?S0"
    using assms(2) file_sync_inv_frame [of ?S0 S] by (simp add: full_inv_def)
  then have "file_sync_inv L H D0 todo S1"
    unfolding S1_def by (rule take_expected_inv) (use assms(3,4) full_block_header [OF blk] in simp_all)
  then have S1: "full_inv L H D0 todo S1"
    using assms(2) by (simp add: full_inv_def S1_def take_expected_def)
  have step: "expected_block L H B pb S =
     (if batch_is_due S1 then
        (case connect_pending_blocks L H S1 of
           (Inl e, S2) \<Rightarrow> (Inl e, S2) | (Inr False, S2) \<Rightarrow> (Inr False, S2)
         | (Inr True, S2) \<Rightarrow> process_cached_blocks L H S2)
      else process_cached_blocks L H S1)"
    by (simp add: expected_block_def blk S1_def Let_def)
  show ?thesis
  proof (cases "batch_is_due S1")
    case False
    then show ?thesis using process_cached_inv [OF assms(1) S1] assms(5) by (simp add: step)
  next
    case True
    obtain q S2 where q: "connect_pending_blocks L H S1 = (Inr q, S2)"
      using assms(5) True by (auto simp: step split: prod.splits sum.splits)
    note S2 = full_inv_connect [OF assms(1) S1 q]
    show ?thesis
      using process_cached_inv [OF assms(1) S2] S2 assms(5) q True by (cases q) (simp_all add: step)
  qed
qed

lemma cache_block_inv:
  assumes "full_inv L H D0 todo S" and "cache_block L B pb S = Some (Inr r, S')"
  shows "full_inv L H D0 todo S' \<and> r \<and> fs_missing_blocks S' = fs_missing_blocks S"
proof -
  obtain blk C where blk: "full_block B pb = Inr blk"
    and ins: "block_cache_insert (header_block_hash L (pb_header pb)) blk (fs_block_cache S) = Some C"
    and S': "S' = S\<lparr>fs_block_cache := C\<rparr>" "r = True"
    using assms(2) by (auto simp: cache_block_def bind_eq_Some_conv split: sum.splits)
  have "cache_inv L C"
    using block_cache.keyed_insert [of "fs_block_cache S" "block_hash_of L" blk] assms(1) ins full_block_header [OF blk]
    by (auto simp: full_inv_def cache_inv_def)
  then show ?thesis
    using assms(1) file_sync_inv_frame [of S' S] by (simp add: full_inv_def S')
qed

lemma flush_pending_inv:
  assumes "distinct todo" and "full_inv L H D0 todo S" and "flush_pending L H S = (Inr u, S')"
  shows "full_inv L H D0 todo S' \<and> fs_pending_blocks S' = []"
proof (cases "fs_pending_blocks S = []")
  case False
  then obtain r where c: "connect_pending_blocks L H S = (Inr r, S')"
    using assms(3) by (auto simp: flush_pending_def split: prod.splits sum.splits)
  show ?thesis
    using full_inv_connect [OF assms(1,2) c] connect_pending_inv(2) [OF assms(1) _ c] assms(2)
    unfolding full_inv_def by blast
qed (use assms in \<open>simp add: flush_pending_def\<close>)

lemma file_step_inv:
  assumes "distinct todo" and "full_inv L H D0 todo S" and "file_step L H B first pb S = Some (Inr r, S')"
  shows "full_inv L H D0 todo S'"
proof -
  let ?h = "header_block_hash L (pb_header pb)"
  define S1 where "S1 = S\<lparr>fs_has_found_start := True\<rparr>"
  have S1: "full_inv L H D0 todo S1"
    using assms(2) file_sync_inv_frame [of S1 S] by (simp add: full_inv_def S1_def)
  have step: "file_step L H B first pb S =
     (if \<not> fs_has_found_start S \<and> ?h \<noteq> first then cache_block L B pb S
      else if fs_missing_blocks S1 = [] then Some (Inr False, S1)
      else if ?h = last (fs_missing_blocks S1) then Some (expected_block L H B pb S1)
      else unexpected_block L H B pb S1)"
    by (simp add: file_step_def S1_def Let_def)
  show ?thesis
  proof (cases "\<not> fs_has_found_start S \<and> ?h \<noteq> first")
    case True
    then show ?thesis using cache_block_inv [OF assms(2)] assms(3) by (simp add: step)
  next
    case started: False
    show ?thesis
    proof (cases "fs_missing_blocks S1 = []")
      case True
      then show ?thesis using S1 assms(3) started by (auto simp: step)
    next
      case missing: False
      show ?thesis
      proof (cases "?h = last (fs_missing_blocks S1)")
        case True
        then have "expected_block L H B pb S1 = (Inr r, S')"
          using assms(3) started missing by (auto simp: step)
        then show ?thesis by (rule expected_block_inv [OF assms(1) S1 missing True])
      next
        case False
        then have unexpected: "unexpected_block L H B pb S1 = Some (Inr r, S')"
          using assms(3) started missing by (auto simp: step)
        then obtain x S2 where x: "cache_block L B pb S1 = Some (x, S2)"
          by (auto simp: unexpected_block_def bind_eq_Some_conv)
        then obtain c where c: "cache_block L B pb S1 = Some (Inr c, S2)"
          using unexpected by (cases x) (auto simp: unexpected_block_def)
        define S3 where "S3 = S2\<lparr>fs_iterations_without_match := fs_iterations_without_match S2 + 1\<rparr>"
        have S3: "full_inv L H D0 todo S3"
          using cache_block_inv [OF S1 c] file_sync_inv_frame [of S3 S2] by (simp add: full_inv_def S3_def)
        have "unexpected_block L H B pb S1 =
           (if MAX_ITERATIONS_WITHOUT_MATCH \<le> fs_iterations_without_match S3 then
              (case flush_pending L H S3 of
                 (Inl e, S2) \<Rightarrow> Some (Inl e, S2) | (Inr _, S2) \<Rightarrow> Some (Inr False, S2))
            else Some (Inr True, S3))"
          by (simp add: unexpected_block_def c S3_def Let_def)
        then show ?thesis
          using unexpected S3 flush_pending_inv [OF assms(1) S3]
          by (auto split: if_splits prod.splits sum.splits)
      qed
    qed
  qed
qed

lemmas file_loop_induct = file_loop.raw_induct [rotated, consumes 1, case_names step]

lemma file_loop_inv:
  assumes "file_loop L H B cancelled first n S = Some (Inr u, S')"
    and "distinct todo" and "full_inv L H D0 todo S"
  shows "full_inv L H D0 todo S'"
proof -
  have "fst y = Inr u \<longrightarrow> full_inv L H D0 todo S \<longrightarrow> full_inv L H D0 todo (snd y)"
    if "file_loop L H B cancelled first n S = Some y" for y
    using that
  proof (induction rule: file_loop_induct)
    case (step floop L H B cancelled first n S y)
    note body = step(2)
    show ?case
    proof (intro impI)
      assume y: "fst y = Inr u" and inv: "full_inv L H D0 todo S"
      obtain fr FS where f: "flush_pending L H S = (fr, FS)" by fastforce
      have nc: "\<not> (n mod 100 = 0 \<and> cancelled n)"
      proof
        assume "n mod 100 = 0 \<and> cancelled n"
        from body [unfolded if_P [OF this] f, symmetric] show False
          using y by (cases fr) simp_all
      qed
      obtain r parser where nxt: "directory_next B (fs_parser S) = Some (r, parser)"
        using body unfolding if_not_P [OF nc] by (auto simp: bind_eq_Some_conv)
      define S1 where "S1 = S\<lparr>fs_parser := parser\<rparr>"
      have S1: "full_inv L H D0 todo S1"
        using inv file_sync_inv_frame [of S1 S] by (simp add: full_inv_def S1_def)
      note body1 = body [unfolded if_not_P [OF nc] nxt, simplified, folded S1_def]
      show "full_inv L H D0 todo (snd y)"
      proof (cases r)
        case None
        then show ?thesis using body1 S1 by (auto simp: S1_def)
      next
        case (Some res)
        then obtain pb where res: "res = Inr pb"
          using body1 y by (cases res) auto
        then obtain r' S2 where st: "file_step L H B first pb S1 = Some (r', S2)"
          using body1 Some by (auto simp: bind_eq_Some_conv S1_def)
        then obtain c where c: "r' = Inr c"
          using body1 y Some res by (cases r') (auto simp: S1_def)
        have S2: "full_inv L H D0 todo S2" using file_step_inv [OF assms(2) S1] st c by blast
        show ?thesis
        proof (cases c)
          case True
          then have "floop L H B cancelled first (n + 1) S2 = Some y"
            using body1 Some res st c by (auto simp: S1_def)
          from step(1) [OF this] show ?thesis using y S2 by blast
        next
          case False
          then show ?thesis using body1 Some res st c S2 by (auto simp: S1_def)
        qed
      qed
    qed
  qed
  from this [OF assms(1)] show ?thesis using assms(3) by simp
qed

section \<open>The loop ends\<close>

text \<open>No step touches the parser, and every step keeps the cache well-formed.\<close>

definition same_parser :: "libs \<Rightarrow> file_sync \<Rightarrow> file_sync \<Rightarrow> bool" where
  "same_parser L S S' =
     (fs_parser S' = fs_parser S \<and> (cache_inv L (fs_block_cache S) \<longrightarrow> cache_inv L (fs_block_cache S')))"

lemma same_parser_trans: "same_parser L S S1 \<Longrightarrow> same_parser L S1 S2 \<Longrightarrow> same_parser L S S2"
  by (simp add: same_parser_def)

lemma same_parser_frame:
  "fs_parser S' = fs_parser S \<Longrightarrow> fs_block_cache S' = fs_block_cache S \<Longrightarrow> same_parser L S S'"
  by (simp add: same_parser_def)

lemma connect_pending_same_parser: "connect_pending_blocks L H S = (r, S') \<Longrightarrow> same_parser L S S'"
  by (rule same_parser_frame)
    (auto simp: connect_pending_blocks_def Let_def split: prod.splits sum.splits option.splits)

lemma flush_same_parser: "flush_pending L H S = (r, S') \<Longrightarrow> same_parser L S S'"
  using connect_pending_same_parser [of L H S]
  by (auto simp: flush_pending_def same_parser_def split: if_splits prod.splits sum.splits)

lemma process_cached_same_parser: "process_cached_blocks L H S = (r, S') \<Longrightarrow> same_parser L S S'"
proof (induction L H S arbitrary: r S' rule: process_cached_blocks.induct)
  case (1 L H S)
  show ?case
  proof (cases "fs_missing_blocks S = []")
    case True
    then show ?thesis using "1.prems" by (simp add: process_cached_blocks.simps same_parser_def)
  next
    case False
    obtain c C where rem: "block_cache_remove (last (fs_missing_blocks S)) (fs_block_cache S) = (c, C)"
      by fastforce
    show ?thesis
    proof (cases c)
      case None
      then show ?thesis
        using "1.prems" False rem by (simp add: process_cached_blocks.simps [of L H S] same_parser_def)
    next
      case (Some b)
      define S1 where "S1 = take_expected b (S\<lparr>fs_block_cache := C\<rparr>)"
      have S1: "same_parser L S S1"
        using block_cache.keyed_remove [OF _ _ rem]
        by (auto simp: same_parser_def S1_def take_expected_def cache_inv_def)
      have step: "process_cached_blocks L H S =
         (if batch_is_due S1 then
            (case connect_pending_blocks L H S1 of
               (Inl e, S2) \<Rightarrow> (Inl e, S2) | (Inr False, S2) \<Rightarrow> (Inr False, S2)
             | (Inr True, S2) \<Rightarrow> process_cached_blocks L H S2)
          else process_cached_blocks L H S1)"
        using False rem Some by (subst process_cached_blocks.simps) (simp add: S1_def Let_def)
      show ?thesis
      proof (cases "batch_is_due S1")
        case nb: False
        have "same_parser L S1 S'"
          by (rule "1.IH"(2) [OF False rem [symmetric] Some S1_def])
            (use nb "1.prems" in \<open>simp_all add: step\<close>)
        then show ?thesis by (rule same_parser_trans [OF S1])
      next
        case True
        obtain q S2 where q: "connect_pending_blocks L H S1 = (q, S2)" by fastforce
        note S2 = same_parser_trans [OF S1 connect_pending_same_parser [OF q]]
        show ?thesis
        proof (cases "q = Inr True")
          case qt: True
          have "same_parser L S2 S'"
            by (rule "1.IH"(1) [OF False rem [symmetric] Some S1_def True q [symmetric] qt])
              (use "1.prems" True q qt in \<open>simp_all add: step\<close>)
          then show ?thesis by (rule same_parser_trans [OF S2])
        next
          case False
          then show ?thesis using S2 "1.prems" True q by (auto simp: step split: sum.splits bool.splits)
        qed
      qed
    qed
  qed
qed

lemma expected_block_same_parser: "expected_block L H B pb S = (r, S') \<Longrightarrow> same_parser L S S'"
proof -
  assume e: "expected_block L H B pb S = (r, S')"
  let ?S0 = "S\<lparr>fs_iterations_without_match := 0\<rparr>"
  have S0: "same_parser L S ?S0" by (simp add: same_parser_def)
  show ?thesis
  proof (cases "full_block B pb")
    case (Inl x)
    then show ?thesis using e S0 by (simp add: expected_block_def same_parser_def)
  next
    case (Inr blk)
    define S1 where "S1 = take_expected blk ?S0"
    have S1: "same_parser L S S1" by (simp add: S1_def take_expected_def same_parser_def)
    obtain q S2 where q: "connect_pending_blocks L H S1 = (q, S2)" by fastforce
    note S2 = same_parser_trans [OF S1 connect_pending_same_parser [OF q]]
    show ?thesis
      using e process_cached_same_parser [of L H S1 r S'] process_cached_same_parser [of L H S2 r S']
        same_parser_trans [OF S1] same_parser_trans [OF S2] S2
      by (auto simp: expected_block_def Inr q Let_def simp flip: S1_def split: if_splits sum.splits bool.splits)
  qed
qed

lemma cache_block_total:
  assumes "cache_inv L (fs_block_cache S)"
  shows "\<exists>r S'. cache_block L B pb S = Some (r, S') \<and> same_parser L S S'"
proof (cases "full_block B pb")
  case (Inl e)
  then show ?thesis by (simp add: cache_block_def same_parser_def)
next
  case (Inr blk)
  then show ?thesis
    using block_cache.keyed_insert [of "fs_block_cache S" "block_hash_of L" blk] assms full_block_header [OF Inr]
    by (auto simp: cache_block_def same_parser_def cache_inv_def)
qed

lemma file_step_total:
  assumes "cache_inv L (fs_block_cache S)"
  shows "\<exists>r S'. file_step L H B first pb S = Some (r, S') \<and> same_parser L S S'"
proof -
  let ?h = "header_block_hash L (pb_header pb)"
  define S1 where "S1 = S\<lparr>fs_has_found_start := True\<rparr>"
  have S1: "same_parser L S S1" "cache_inv L (fs_block_cache S1)"
    using assms by (simp_all add: same_parser_def S1_def)
  have step: "file_step L H B first pb S =
     (if \<not> fs_has_found_start S \<and> ?h \<noteq> first then cache_block L B pb S
      else if fs_missing_blocks S1 = [] then Some (Inr False, S1)
      else if ?h = last (fs_missing_blocks S1) then Some (expected_block L H B pb S1)
      else unexpected_block L H B pb S1)"
    by (simp add: file_step_def S1_def Let_def)
  have "\<exists>r S'. unexpected_block L H B pb S1 = Some (r, S') \<and> same_parser L S S'"
  proof -
    obtain x S2 where c: "cache_block L B pb S1 = Some (x, S2)" and S2: "same_parser L S1 S2"
      using cache_block_total [OF S1(2)] by blast
    define S3 where "S3 = S2\<lparr>fs_iterations_without_match := fs_iterations_without_match S2 + 1\<rparr>"
    have S3: "same_parser L S S3" "same_parser L S S2"
      using S1(1) S2 by (simp_all add: same_parser_def S3_def)
    obtain q S4 where f: "flush_pending L H S3 = (q, S4)" by fastforce
    note S4 = same_parser_trans [OF S3(1) flush_same_parser [OF f]]
    have "unexpected_block L H B pb S1 =
       (case x of Inl e \<Rightarrow> Some (Inl e, S2)
        | Inr _ \<Rightarrow>
          if MAX_ITERATIONS_WITHOUT_MATCH \<le> fs_iterations_without_match S3 then
            (case flush_pending L H S3 of
               (Inl e, S2) \<Rightarrow> Some (Inl e, S2) | (Inr _, S2) \<Rightarrow> Some (Inr False, S2))
          else Some (Inr True, S3))"
      by (cases x) (simp_all add: unexpected_block_def c S3_def Let_def)
    then show ?thesis using S3 S4 f by (cases x; cases q) auto
  qed
  moreover obtain r S' where "expected_block L H B pb S1 = (r, S')" by fastforce
  ultimately show ?thesis
    using cache_block_total [OF assms] S1(1) same_parser_trans [OF S1(1) expected_block_same_parser]
    unfolding step by (auto split: if_splits)
qed

lemma wf_progress: "wf progress_less"
  by (intro wf_lex_prod wf_less_than)

lemma file_loop_total:
  "files_end (fs_parser S) k \<Longrightarrow> cache_inv L (fs_block_cache S) \<Longrightarrow>
   \<exists>y. file_loop L H B cancelled first n S = Some y"
proof (induction "progress (fs_parser S) k" arbitrary: S k n rule: wf_induct_rule [OF wf_progress])
  case (1 S k n)
  show ?case
  proof (cases "n mod 100 = 0 \<and> cancelled n")
    case True
    obtain q S' where "flush_pending L H S = (q, S')" by fastforce
    then show ?thesis using True by (subst file_loop.simps) (cases q; simp)
  next
    case False
    obtain r parser where dir: "directory_next_block B (fs_parser S) = Some (r, parser)"
      and dec: "\<And>b. r = Inr (Some b) \<Longrightarrow> \<exists>k'. files_end parser k' \<and> (progress parser k', progress (fs_parser S) k) \<in> progress_less"
      using directory_next_block_progress [OF "1.prems"(1)] by blast
    define S1 where "S1 = S\<lparr>fs_parser := parser\<rparr>"
    consider (stop) res where "directory_next B (fs_parser S) = Some (res, parser)" "\<And>b. res \<noteq> Some (Inr b)"
      | (blk) b where "r = Inr (Some b)" "directory_next B (fs_parser S) = Some (Some (Inr b), parser)"
      by (cases r; cases "projr r") (auto simp: directory_next_def dir)
    then show ?thesis
    proof cases
      case stop
      then show ?thesis using False by (subst file_loop.simps) (cases res; cases "the res"; force)
    next
      case blk
      obtain k' where k': "files_end parser k'" "(progress parser k', progress (fs_parser S) k) \<in> progress_less"
        using dec [OF blk(1)] by blast
      obtain r' S2 where st: "file_step L H B first b S1 = Some (r', S2)" and S2: "same_parser L S1 S2"
        using file_step_total [of L S1 H B first b] "1.prems"(2) by (auto simp: S1_def)
      have S2': "fs_parser S2 = parser" "cache_inv L (fs_block_cache S2)"
        using S2 "1.prems"(2) by (simp_all add: same_parser_def S1_def)
      have "\<exists>y. file_loop L H B cancelled first (n + 1) S2 = Some y"
        by (rule "1.hyps") (use k' S2' in simp_all)
      then show ?thesis
        using False blk(2) st
        by (subst file_loop.simps) (auto simp: S1_def [symmetric] Let_def split: sum.splits)
    qed
  qed
qed

lemma cache_inv_new: "cache_inv L (block_cache_new MAX_BLOCK_CACHE_SIZE)"
  by (simp add: cache_inv_def cache_wf_def block_cache.keyed_def block_cache_new_def MAX_BLOCK_CACHE_SIZE_def)

text \<open>Some file is missing, so some file after any given one is missing.\<close>

lemma start_parser_ok:
  assumes "length key = 8" and "bd_xor_dat dir = Inr key" and "bd_files dir n = None"
  shows "\<exists>r. start_parser B dir net first = Some r
    \<and> (\<forall>parser. r = Inr parser \<longrightarrow> (\<exists>k. files_end parser k))"
proof -
  define P where "P = \<lparr>bdp_files = bd_files dir,
      bdp_xor_key = (if list_all (\<lambda>b. b = 0) key then None else Some key),
      bdp_network = net, bdp_file_index = 0, bdp_current_parser = None\<rparr>"
  have new: "block_directory_new (bd_xor_dat dir) (bd_files dir) net = Some (Inr P)"
    using assms(1,2) by (simp add: block_directory_new_def P_def)
  have ends: "\<exists>k. files_end Q k" if "bdp_files Q = bd_files dir" for Q
  proof -
    let ?i = "bdp_file_index Q + (if bdp_current_parser Q = None then 0 else 1)"
    have "?i + word_of_nat (unat (n - ?i)) = n" by simp
    then have "files_end Q (unat (n - ?i))" using assms(3) that unfolding files_end_def by metis
    then show ?thesis by blast
  qed
  have set_offset: "bdp_files Q = bd_files dir"
    if "directory_set_offset pos (set_file_number f P) = (Inr u, Q)" for pos f u Q
    using that
    by (auto simp: directory_set_offset_def st_iffs get_or_init_parser_def set_file_number_def P_def Let_def
        split: option.splits sum.splits)
  have "bdp_files parser = bd_files dir" if parsed: "start_parser B dir net first = Some (Inr parser)" for parser
  proof (cases "first = bfl_chain_hash B net")
    case True
    then show ?thesis using parsed by (auto simp: start_parser_def new P_def)
  next
    case False
    then obtain f and pos :: u64 where
      p: "(case directory_set_offset (unat pos) (set_file_number f P) of
            (Inl e, _) \<Rightarrow> Inl e | (Inr _, parser') \<Rightarrow> Inr parser') = Inr parser"
      using parsed by (auto simp: start_parser_def new)
    obtain res Q where "directory_set_offset (unat pos) (set_file_number f P) = (res, Q)" by fastforce
    then show ?thesis using p set_offset by (cases res) auto
  qed
  then show ?thesis using ends by (auto simp: start_parser_def new)
qed

section \<open>Properties\<close>

text \<open>
  The cache for blocks that come too early is bounded and exact: starting from a well-formed
  cache, inserting a block under its hash returns (the eviction loop ends), the cache still has at
  most its maximal size, and every cached block sits under its own hash.
\<close>
theorem block_cache_bounded:
  assumes "cache_inv L C"
  shows "\<exists>C'. block_cache_insert (block_hash_of L b) b C = Some C' \<and> cache_inv L C'
    \<and> length (bc_blocks C') \<le> bc_max_size C'"
  using block_cache.keyed_insert [of C "block_hash_of L" b] assms by (auto simp: cache_inv_def)

text \<open>
  C21: blocks are connected in chain order, whatever the order of the files: for a stack of
  distinct missing blocks and a directory with an eight-byte key in which some file is missing,
  \<open>sync_from_directory\<close> returns, and if it succeeds, the blocks it handled are exactly the first
  ones of the stack, each connected on top of the one before, their number is the returned total,
  and all others are still on the stack. No block is lost, repeated or reordered, also when a
  block is rejected, cached, evicted or left for later.
\<close>
theorem sync_from_directory_ordered:
  assumes "distinct missing" and "length key = 8" and "bd_xor_dat dir = Inr key" and "bd_files dir n = None"
  shows "\<exists>r D' es' missing'. sync_from_directory L H B cancelled dir net missing (D, es) = Some (r, (D', es'), missing')
    \<and> (\<forall>total. r = Inr total \<longrightarrow>
        (\<exists>blks evs. connect_all L H blks D = Some (D', evs) \<and> length blks = total
           \<and> rev missing = map (block_hash_of L) blks @ rev missing'))"
proof -
  let ?first = "last missing"
  obtain started where st: "start_parser B dir net ?first = Some started"
    and fe: "\<forall>parser. started = Inr parser \<longrightarrow> (\<exists>k. files_end parser k)"
    using start_parser_ok [OF assms(2,3,4)] by blast
  define started' where "started' = bindE started (\<lambda>parser.
             bindE (mapErr SyncDb (db_get (db_height D) (hd missing))) (\<lambda>_. Inr parser))"
  show ?thesis
  proof (cases started')
    case (Inl e)
    then show ?thesis
      unfolding sync_from_directory_def by (simp add: st Let_def flip: started'_def)
  next
    case (Inr parser)
    then have "started = Inr parser" by (auto simp: started'_def)
    then obtain k where k: "files_end parser k" using fe by blast
    define S0 where "S0 = \<lparr>fs_dbs = D, fs_events = es, fs_missing_blocks = missing, fs_pending_blocks = [],
             fs_total_handled_blocks = 0, fs_block_cache = block_cache_new MAX_BLOCK_CACHE_SIZE,
             fs_has_found_start = False, fs_iterations_without_match = 0, fs_parser = parser\<rparr>"
    have inv0: "full_inv L H D (rev missing) S0"
      by (simp add: full_inv_def file_sync_inv_def S0_def cache_inv_new)
    obtain r S where loop: "file_loop L H B cancelled ?first 0 S0 = Some (r, S)"
      using file_loop_total [of S0 k L H B cancelled ?first 0] k by (auto simp: S0_def cache_inv_new)
    obtain q S' where f: "flush_pending L H S = (q, S')" by fastforce
    have run: "sync_from_directory L H B cancelled dir net missing (D, es) =
        (case r of
            Inl e \<Rightarrow> Some (Inl e, (fs_dbs S, fs_events S), fs_missing_blocks S)
          | Inr _ \<Rightarrow>
              (case q of
                 Inl e \<Rightarrow> Some (Inl e, (fs_dbs S', fs_events S'), fs_missing_blocks S')
               | Inr _ \<Rightarrow>
                   Some (Inr (fs_total_handled_blocks S'), (fs_dbs S', fs_events S'), fs_missing_blocks S')))"
      using loop Inr unfolding sync_from_directory_def S0_def
      by (simp add: st f Let_def flip: started'_def split: sum.split)
    show ?thesis
    proof (cases r)
      case (Inr u)
      show ?thesis
      proof (cases q)
        case q: (Inr v)
        have d: "distinct (rev missing)" using assms(1) by simp
        have "full_inv L H D (rev missing) S"
          by (rule file_loop_inv [OF _ d inv0]) (use loop Inr in simp)
        from flush_pending_inv [OF d this] f q
        have "full_inv L H D (rev missing) S'" "fs_pending_blocks S' = []" by simp_all
        then show ?thesis
          using run Inr q by (auto simp: full_inv_def file_sync_inv_def)
      qed (use run Inr in simp)
    qed (use run in simp)
  qed
qed

theorem block_cache_bounded_witness:
  "\<exists>C'. block_cache_insert (block_hash_of sample_libs genesis) genesis (block_cache_new MAX_BLOCK_CACHE_SIZE) = Some C'
    \<and> length (bc_blocks C') \<le> bc_max_size C'"
  using block_cache_bounded [OF cache_inv_new] by blast

text \<open>A directory with one obfuscated file that holds the genesis block.\<close>

definition demo_file_libs :: block_file_libs where
  "demo_file_libs =
     \<lparr>bfl_network_magic = magic_for_network, bfl_chain_hash = (\<lambda>_. 2 # replicate 31 0),
      bfl_decode_header = (\<lambda>_. blk_header genesis), bfl_decode_txs = (\<lambda>_. Inr (blk_txdata genesis))\<rparr>"

definition demo_blocks_dir :: blocks_dir where
  "demo_blocks_dir =
     \<lparr>bd_xor_dat = Inr sample_key,
      bd_files = (\<lambda>n. if n = 0 then Some (Inr (xor_bytes (Some sample_key) 0 (entry_bytes Regtest (replicate 80 7, [1, 2, 3]))))
                       else None),
      bd_index = \<lparr>ixs_copy = Inr (), ixs_open = Inr (\<lambda>_. None), ixs_close = Inr (), ixs_cleanup = Inr ()\<rparr>\<rparr>"

theorem sync_from_directory_ordered_witness:
  "\<exists>r D es missing. sync_from_directory sample_libs demo_handler demo_file_libs (\<lambda>_. False) demo_blocks_dir Regtest
     [3 # replicate 31 0, 2 # replicate 31 0] (demo_dbs, []) = Some (r, (D, es), missing)"
  using sync_from_directory_ordered [of "[3 # replicate 31 0, 2 # replicate 31 0]" sample_key demo_blocks_dir 1
      sample_libs demo_handler demo_file_libs "\<lambda>_. False" Regtest demo_dbs "[]"]
  by (auto simp: demo_blocks_dir_def sample_key_def simp del: replicate.simps)

end
