(* ===== verification/Sync_Blocks.thy ===== *)
theory Sync_Blocks
  imports Block_Files
begin

text \<open>
  Block synchronisation as a whole (\<open>sync_blocks\<close> and \<open>sync_to_tip\<close> in
  \<open>lib/validator/task/mod.rs\<close>): rewind to the last common ancestor, list the missing blocks, read
  what the block files have, fetch the rest in batches. The results carry the committed databases
  and the broadcast events; \<open>None\<close> is a loop that does not end.
\<close>

section \<open>The synchronisation\<close>

definition BLOCK_FETCH_BATCH_SIZE :: nat where "BLOCK_FETCH_BATCH_SIZE = 50"

text \<open>\<open>slice::chunks\<close>.\<close>

fun chunks :: "nat \<Rightarrow> 'a list \<Rightarrow> 'a list list" where
  "chunks n [] = []"
| "chunks n (x # xs) = take n (x # xs) # chunks n (drop (n - 1) xs)"

type_synonym sync_result = "(sync_error + (bytes \<times> connect_block_error) option) \<times> sync_state"

text \<open>An error drops the database transaction of its batch, not the events.\<close>

fun fetch_chunks ::
  "libs \<Rightarrow> block_handler \<Rightarrow> mainchain \<Rightarrow> nat \<Rightarrow> bytes list list \<Rightarrow> sync_state \<Rightarrow> sync_result" where
  "fetch_chunks L H M n [] (D, events) = (Inr None, D, events)"
| "fetch_chunks L H M n (chunk # rest) (D, events) =
     (if mc_blocks_cancelled M n then (Inl Shutdown, D, events)
      else case fetch_blocks_batch M chunk of
        Inl e \<Rightarrow> (Inl e, D, events)
      | Inr blks \<Rightarrow>
          (case handle_block_batch L H blks (D, events) of
             (Inl e, _, events') \<Rightarrow> (Inl e, D, events')
           | (Inr (Some rejected), D', events') \<Rightarrow> (Inr (Some rejected), D', events')
           | (Inr None, D', events') \<Rightarrow> fetch_chunks L H M (Suc n) rest (D', events')))"

definition current_tip :: "dbs \<Rightarrow> bytes" where
  "current_tip D = (case db_tip D of None \<Rightarrow> all_zeros | Some tip \<Rightarrow> tip)"

text \<open>The first transaction: rewind, or leave everything as it is on an error.\<close>

definition rewind_to_common ::
  "libs \<Rightarrow> bytes \<Rightarrow> sync_state \<Rightarrow> ((sync_error + bytes) \<times> sync_state) option" where
  "rewind_to_common L main_tip DE =
     (let current_enforcer_tip = current_tip (fst DE) in
      case last_common_ancestor (fst DE) current_enforcer_tip main_tip of
        Inl e \<Rightarrow> Some (Inl (SyncLastCommonAncestor e), DE)
      | Inr ancestor \<Rightarrow>
          if current_enforcer_tip = ancestor then Some (Inr current_enforcer_tip, DE)
          else Option.bind (rewind L ancestor current_enforcer_tip (fst DE) (snd DE)) (\<lambda>(r, D', events').
            case r of Inl e \<Rightarrow> Some (Inl e, fst DE, events') | Inr tip \<Rightarrow> Some (Inr tip, D', events')))"

text \<open>An error of the directory is logged; the stack and the databases are taken as they are.\<close>

definition sync_from_files ::
  "libs \<Rightarrow> block_handler \<Rightarrow> block_file_libs \<Rightarrow> mainchain \<Rightarrow> network \<Rightarrow> blocks_dir option
    \<Rightarrow> bytes list \<Rightarrow> sync_state \<Rightarrow> (sync_state \<times> bytes list) option" where
  "sync_from_files L H B M net main_blocks_dir missing_blocks DE =
     (case main_blocks_dir of
        None \<Rightarrow> Some (DE, missing_blocks)
      | Some dir \<Rightarrow>
          Option.bind (sync_from_directory L H B (mc_files_cancelled M) dir net missing_blocks DE)
            (\<lambda>(_, DE', missing'). Some (DE', missing')))"

definition sync_blocks ::
  "libs \<Rightarrow> block_handler \<Rightarrow> block_file_libs \<Rightarrow> mainchain \<Rightarrow> network \<Rightarrow> blocks_dir option
    \<Rightarrow> bytes \<Rightarrow> sync_state \<Rightarrow> sync_result option" where
  "sync_blocks L H B M net main_blocks_dir main_tip DE =
     Option.bind (rewind_to_common L main_tip DE) (\<lambda>(r, DE1).
       case r of
         Inl e \<Rightarrow> Some (Inl e, DE1)
       | Inr current_enforcer_tip \<Rightarrow>
           Option.bind (missing_from (fst DE1) current_enforcer_tip main_tip) (\<lambda>missing_blocks.
             if missing_blocks = [] then Some (Inr None, DE1)
             else
               Option.bind (sync_from_files L H B M net main_blocks_dir missing_blocks DE1) (\<lambda>(DE2, missing').
                 Some (fetch_chunks L H M 0 (chunks BLOCK_FETCH_BATCH_SIZE (rev missing')) DE2))))"

definition sync_to_tip ::
  "libs \<Rightarrow> block_handler \<Rightarrow> block_file_libs \<Rightarrow> mainchain \<Rightarrow> network \<Rightarrow> blocks_dir option
    \<Rightarrow> bytes \<Rightarrow> sync_state \<Rightarrow> sync_result option" where
  "sync_to_tip L H B M net main_blocks_dir main_tip DE =
     Option.bind (sync_headers L M main_tip (fst DE)) (\<lambda>(r, D').
       case r of
         Inl e \<Rightarrow> Some (Inl e, D', snd DE)
       | Inr _ \<Rightarrow> sync_blocks L H B M net main_blocks_dir main_tip (D', snd DE))"

section \<open>The missing blocks\<close>

lemma last_common_unique:
  assumes "last_common c0 c1 s" and "last_common c0 c1 s'"
  shows "s = s'"
proof -
  have "length t \<le> length u" if tu: "last_common c0 c1 t" "last_common c0 c1 u" for t u
  proof (rule ccontr)
    assume "\<not> length t \<le> length u"
    obtain p0 p1 where p: "c0 = p0 @ t" "c1 = p1 @ t" using tu(1) by (auto simp: last_common_def)
    obtain q0 q1 where q: "c0 = q0 @ u" "c1 = q1 @ u" "q0 = [] \<or> q1 = [] \<or> last q0 \<noteq> last q1"
      using tu(2) by (auto simp: last_common_def)
    have "p0 @ t = q0 @ u" using p(1) q(1) by simp
    then obtain x where "p0 = q0 @ x \<and> x @ t = u \<or> p0 @ x = q0 \<and> t = x @ u"
      unfolding append_eq_append_conv2 by blast
    then have x: "t = x @ u" "x \<noteq> []" using \<open>\<not> length t \<le> length u\<close> by auto
    then have "q0 = p0 @ x" "q1 = p1 @ x" using p q(1,2) by auto
    then show False using q(3) x(2) by auto
  qed
  from this [OF assms] this [OF assms(2,1)] have "length s = length s'" by simp
  then show ?thesis using assms by (auto simp: last_common_def)
qed

lemma ancestry_distinct:
  assumes "ancestry D (h # cs)"
  shows "h \<notin> set cs"
proof
  assume "h \<in> set cs"
  then obtain xs ys where cs: "cs = xs @ h # ys" by (auto dest: split_list)
  have "ancestry D (h # ys)"
    using ancestry_drop [OF assms, of "Suc (length xs)"] by (simp add: cs)
  from ancestry_unique [OF assms this] have "h # cs = h # ys" by simp
  then show False by (simp add: cs)
qed

lemma missing_from_ancestry:
  "ancestry D (q @ s) \<Longrightarrow> missing_from D (chain_head s) (chain_head (q @ s)) = Some q"
proof (induction q)
  case Nil
  show ?case
  proof (cases s)
    case Nil
    then show ?thesis
      by (subst missing_from.simps) (auto simp: ancestor_next_def split: option.splits)
  next
    case (Cons h t)
    then obtain header where "ancestor_next D h = Some ((h, header), chain_head t)"
      using ancestor_next_head Nil by fastforce
    then show ?thesis by (subst missing_from.simps) (simp add: Cons)
  qed
next
  case (Cons h q)
  then obtain header where n: "ancestor_next D h = Some ((h, header), chain_head (q @ s))"
    using ancestor_next_head by fastforce
  have "h \<noteq> chain_head s"
    using Cons.prems ancestry_distinct [of D h "q @ s"] by (cases s) auto
  moreover have "ancestry D (q @ s)" using Cons.prems by simp
  ultimately show ?case using n Cons.IH by (subst missing_from.simps) simp
qed

lemma stored_chain_ancestry:
  "stored_chain L D bs \<Longrightarrow> ancestry D (map (block_hash_of L) bs)"
proof (induction bs)
  case (Cons b bs)
  then show ?case
    by (cases bs) (simp_all add: Let_def parent_hash_def)
qed simp

lemma current_tip_tracks: "tracks L D bs \<Longrightarrow> current_tip D = chain_head (map (block_hash_of L) bs)"
  by (cases bs) (auto simp: tracks_def current_tip_def)

lemma ancestry_same: "same_blocks D D' \<Longrightarrow> ancestry D' cs = ancestry D cs"
  by (induction cs) (simp_all add: same_blocks_def)

section \<open>Connecting batches\<close>

text \<open>The blocks that extend a state, oldest first, each admissible and accepted.\<close>

fun extends :: "libs \<Rightarrow> block_handler \<Rightarrow> dbs \<Rightarrow> block list \<Rightarrow> block list \<Rightarrow> bool" where
  "extends L H D bs [] = True"
| "extends L H D bs (b # rest) =
     (admissible L H D bs b
      \<and> (case connect_block L H b D of (Inr _, D') \<Rightarrow> extends L H D' (b # bs) rest | (Inl _, _) \<Rightarrow> False))"

lemma extends_batch:
  "extends L H D bs (xs @ ys) \<Longrightarrow> tracks L D bs \<Longrightarrow>
   \<exists>D' es'. handle_block_batch L H xs (D, es) = (Inr None, D', es')
     \<and> tracks L D' (rev xs @ bs) \<and> extends L H D' (rev xs @ bs) ys"
proof (induction xs arbitrary: D bs es)
  case (Cons b xs)
  obtain ev D1 where c: "connect_block L H b D = (Inr ev, D1)" and ext: "extends L H D1 (b # bs) (xs @ ys)"
    and adm: "admissible L H D bs b"
    using Cons.prems(1) by (auto split: prod.splits sum.splits)
  have "tracks L D1 (b # bs)" by (rule tracks_connect [OF Cons.prems(2) adm c])
  from Cons.IH [OF ext this, of "es @ [ev]"] show ?case by (simp add: c)
qed simp

lemma chunks_map: "chunks n (map f xs) = map (map f) (chunks n xs)"
proof (induction n xs rule: chunks.induct)
  case (2 n x xs)
  then show ?case using take_map [of n f "x # xs"] by (simp add: drop_map)
qed simp

lemma concat_chunks: "0 < n \<Longrightarrow> concat (chunks n xs) = xs"
proof (induction n xs rule: chunks.induct)
  case (2 n x xs)
  then have "concat (chunks n (drop (n - 1) xs)) = drop (n - 1) xs" by simp
  then show ?case using "2.prems" by (cases n) simp_all
qed simp

lemma fetch_chunks_extends:
  assumes "\<And>n. \<not> mc_blocks_cancelled M n"
    and "\<And>bs. set bs \<subseteq> A \<Longrightarrow> fetch_blocks_batch M (map (block_hash_of L) bs) = Inr bs"
    and "set (concat css) \<subseteq> A" and "extends L H D bs (concat css)" and "tracks L D bs"
  shows "\<exists>D' es'. fetch_chunks L H M n (map (map (block_hash_of L)) css) (D, es) = (Inr None, D', es')
    \<and> tracks L D' (rev (concat css) @ bs)"
  using assms(3-5)
proof (induction css arbitrary: n D bs es)
  case (Cons c css)
  obtain D1 es1 where h: "handle_block_batch L H c (D, es) = (Inr None, D1, es1)"
    and t: "tracks L D1 (rev c @ bs)" "extends L H D1 (rev c @ bs) (concat css)"
    using extends_batch [of L H D bs c "concat css" es] Cons.prems(2,3) by auto
  have "set (concat css) \<subseteq> A" "fetch_blocks_batch M (map (block_hash_of L) c) = Inr c"
    using Cons.prems(1) assms(2) by auto
  with Cons.IH [OF _ t(2,1), of "Suc n" es1] show ?case using h assms(1) by auto
qed simp

section \<open>Reaching the tip\<close>

lemma rewind_to_common_tracks:
  assumes "tracks L D (p @ s)" and "p = [] \<or> dbs_inv L D"
    and "tip_height_ok D (map (block_hash_of L) (p @ s))"
    and "ancestry D (hq @ map (block_hash_of L) s)" and "tip_height_ok D (hq @ map (block_hash_of L) s)"
    and "p = [] \<or> hq = [] \<or> block_hash_of L (last p) \<noteq> last hq"
  shows "\<exists>D' es'. rewind_to_common L (chain_head (hq @ map (block_hash_of L) s)) (D, es)
       = Some (Inr (chain_head (map (block_hash_of L) s)), D', es')
    \<and> tracks L D' s \<and> same_blocks D D'"
proof -
  let ?h = "map (block_hash_of L)"
  have stored: "stored_chain L D (p @ s)" using assms(1) by (simp add: tracks_def)
  have anc: "ancestry D (?h (p @ s))" by (rule stored_chain_ancestry [OF stored])
  obtain c where c: "last_common (?h (p @ s)) (hq @ ?h s) c"
    and lca: "last_common_ancestor D (chain_head (?h (p @ s))) (chain_head (hq @ ?h s)) = Inr (chain_head c)"
    using last_common_ancestor_ok [OF anc assms(4,3,5)] by blast
  have "last_common (?h (p @ s)) (hq @ ?h s) (?h s)"
    unfolding last_common_def
    by (intro exI [of _ "?h p"] exI [of _ hq]) (use assms(6) in \<open>auto simp: last_map\<close>)
  then have cs: "c = ?h s" using last_common_unique [OF c] by blast
  have tip: "current_tip D = chain_head (?h (p @ s))" by (rule current_tip_tracks [OF assms(1)])
  show ?thesis
  proof (cases "chain_head (?h (p @ s)) = chain_head (?h s)")
    case True
    have "p = []"
    proof (rule ccontr)
      assume "p \<noteq> []"
      then show False using tip_hash_distinct [OF stored] True by (simp add: tip_hash_def)
    qed
    then show ?thesis
      using assms(1) lca tip by (simp add: rewind_to_common_def cs Let_def same_blocks_def)
  next
    case False
    then have "dbs_inv L D" using assms(2) by auto
    then obtain D' es' where "rewind L (tip_hash L s) (tip_hash L (p @ s)) D es = Some (Inr (tip_hash L s), D', es')"
      "tracks L D' s" "same_blocks D D'"
      using rewind_tracks [OF assms(1)] by blast
    then show ?thesis
      using lca tip False by (simp add: rewind_to_common_def cs Let_def tip_hash_def)
  qed
qed

lemma sync_blocks_converges:
  assumes "tracks L D (p @ s)" and "p = [] \<or> dbs_inv L D"
    and "tip_height_ok D (map (block_hash_of L) (p @ s))"
    and "ancestry D (map (block_hash_of L) (q @ s))" and "tip_height_ok D (map (block_hash_of L) (q @ s))"
    and "p = [] \<or> q = [] \<or> block_hash_of L (last p) \<noteq> block_hash_of L (last q)"
    and "\<And>n. \<not> mc_blocks_cancelled M n"
    and "\<And>bs. set bs \<subseteq> set q \<Longrightarrow> fetch_blocks_batch M (map (block_hash_of L) bs) = Inr bs"
    and "\<And>D'. tracks L D' s \<Longrightarrow> same_blocks D D' \<Longrightarrow> extends L H D' s (rev q)"
  shows "\<exists>D' es'. sync_blocks L H B M net None (chain_head (map (block_hash_of L) (q @ s))) (D, es)
      = Some (Inr None, D', es')
    \<and> tracks L D' (q @ s)"
proof -
  let ?h = "map (block_hash_of L)"
  have cond: "p = [] \<or> ?h q = [] \<or> block_hash_of L (last p) \<noteq> last (?h q)"
    using assms(6) by (cases "q = []") (auto simp: last_map)
  obtain D1 es1 where rw: "rewind_to_common L (chain_head (?h (q @ s))) (D, es)
       = Some (Inr (chain_head (?h s)), D1, es1)"
    and D1: "tracks L D1 s" "same_blocks D D1"
    using rewind_to_common_tracks [OF assms(1-3) assms(4,5) [unfolded map_append] cond, of es]
    unfolding map_append by blast
  have miss: "missing_from D1 (chain_head (?h s)) (chain_head (?h (q @ s))) = Some (?h q)"
    using missing_from_ancestry [of D1 "?h q" "?h s"] assms(4) ancestry_same [OF D1(2)] by simp
  show ?thesis
  proof (cases "q = []")
    case True
    then show ?thesis using rw miss D1(1) by (simp add: sync_blocks_def)
  next
    case False
    let ?css = "chunks BLOCK_FETCH_BATCH_SIZE (rev q)"
    have concat: "concat ?css = rev q" by (rule concat_chunks) (simp add: BLOCK_FETCH_BATCH_SIZE_def)
    obtain D' es' where "fetch_chunks L H M 0 (map ?h ?css) (D1, es1) = (Inr None, D', es')"
      and "tracks L D' (rev (concat ?css) @ s)"
      using fetch_chunks_extends [of M "set q" L ?css H D1 s 0 es1] assms(7,8) assms(9) [OF D1] D1(1)
      unfolding concat by auto
    moreover have "chunks BLOCK_FETCH_BATCH_SIZE (rev (?h q)) = map ?h ?css"
      by (simp only: rev_map chunks_map)
    ultimately show ?thesis
      using rw miss False by (simp add: sync_blocks_def sync_from_files_def concat)
  qed
qed

text \<open>Header download touches only headers and heights.\<close>

definition same_tip :: "dbs \<Rightarrow> dbs \<Rightarrow> bool" where
  "same_tip D D' =
     (db_tip D' = db_tip D \<and> db_p2mr_utxos D' = db_p2mr_utxos D \<and> db_diff D' = db_diff D
      \<and> db_cumulative_work D' = db_cumulative_work D \<and> db_coinbase_txid D' = db_coinbase_txid D)"

lemma put_headers_same_tip: "same_tip D (put_headers L hs D)"
  unfolding put_headers_def
  by (rule foldl_invariant [where P = "same_tip D"])
    (auto simp: same_tip_def put_header_def Let_def split: prod.splits)

lemmas header_loop_induct = header_loop.raw_induct [rotated, consumes 1, case_names step]

lemma header_loop_same_tip:
  "header_loop L M tip height n h k D = Some y \<Longrightarrow> same_tip D (snd y)"
proof (induction rule: header_loop_induct)
  case (step hloop L M tip height n h k D y)
  note body = step(2) [unfolded Let_def]
  show ?case
  proof (cases "mc_is_cancelled M n")
    case True
    then show ?thesis using body by (auto simp: same_tip_def)
  next
    case nc: False
    show ?thesis
    proof (cases "mc_get_block_headers M h (min HEADER_FETCH_BATCH_SIZE (unat (height - k + 1)))")
      case (Inl e)
      then show ?thesis using body nc by (auto simp: same_tip_def)
    next
      case (Inr hs)
      show ?thesis
      proof (cases "hs = []")
        case True
        then show ?thesis using body nc Inr by (auto simp: same_tip_def)
      next
        case False
        obtain x lh lk where l: "last hs = (x, lh, lk)" by (cases "last hs")
        define D' where "D' = put_headers L (map (\<lambda>(header, _, height). (header, height)) hs) D"
        have D': "same_tip D D'" unfolding D'_def by (rule put_headers_same_tip)
        have "same_tip D' (snd y)" if "hloop L M tip height (Suc n) lh lk D' = Some y"
          by (rule step(1) [OF that])
        then show ?thesis
          using body nc Inr False l D'
          by (auto simp: same_tip_def simp flip: D'_def split: if_splits)
      qed
    qed
  qed
qed

lemma sync_headers_same_tip: "sync_headers L M tip D = Some (r, D') \<Longrightarrow> same_tip D D'"
  using header_loop_same_tip
  by (fastforce simp: sync_headers_def same_tip_def split: if_splits sum.splits option.splits)

text \<open>The stored headers of a chain form an ancestry.\<close>

lemma headers_ancestry:
  assumes "header_chain L hc" and "headers_stored L hc {..<length hc} D" and "n \<le> length hc"
  shows "ancestry D (map (header_block_hash L) (rev (take n hc)))"
  using assms(3)
proof (induction n)
  case (Suc n)
  then have n: "n < length hc" by simp
  then have t: "rev (take (Suc n) hc) = hc ! n # rev (take n hc)" by (simp add: take_Suc_conv_app_nth)
  have "header_block_hash L (hc ! n) \<noteq> all_zeros"
    using assms(1) n unfolding header_chain_def by (metis image_eqI nth_mem)
  moreover have "db_header D (header_block_hash L (hc ! n)) = Some (hc ! n)"
    using assms(2) n by (simp add: headers_stored_def)
  moreover have "hdr_prev_blockhash (hc ! n) = chain_head (map (header_block_hash L) (rev (take n hc)))"
    using assms(1) n by (cases n) (auto simp: header_chain_def take_Suc_conv_app_nth)
  ultimately show ?case using Suc t by simp
qed simp

section \<open>Properties\<close>


lemma sync_to_tip_fresh:
  assumes "serves_chain L M (map blk_header blks)" and "header_chain L (map blk_header blks)"
    and "\<And>n. \<not> mc_blocks_cancelled M n"
    and "\<And>bs. set bs \<subseteq> set blks \<Longrightarrow> fetch_blocks_batch M (map (block_hash_of L) bs) = Inr bs"
    and "\<And>D. sync_headers L M (block_hash_of L (last blks)) dbs_new = Some (Inr (), D) \<Longrightarrow> extends L H D [] blks"
  shows "\<exists>D es. sync_to_tip L H B M net None (block_hash_of L (last blks)) (dbs_new, []) = Some (Inr None, D, es)
    \<and> tracks L D (rev blks) \<and> db_tip D = Some (block_hash_of L (last blks))"
proof -
  let ?hc = "map blk_header blks" and ?h = "map (block_hash_of L)"
  have ne: "blks \<noteq> []" and small: "length blks < 2 ^ 32"
    using assms(2) by (auto simp: header_chain_def)
  then have last: "last ?hc = blk_header (last blks)" by (simp add: last_map)
  obtain D1 where hs: "sync_headers L M (block_hash_of L (last blks)) dbs_new = Some (Inr (), D1)"
    and D1: "headers_stored L ?hc {..<length ?hc} D1"
  proof -
    have "\<exists>D'. sync_headers L M (header_block_hash L (last ?hc)) dbs_new = Some (Inr (), D')
      \<and> headers_stored L ?hc {..<length ?hc} D'"
      by (rule sync_headers_complete [OF assms(1,2), of 0])
        (simp_all add: headers_stored_def contains_header_def dbs_new_def)
    then show ?thesis using that unfolding last by blast
  qed
  have same: "same_tip dbs_new D1" by (rule sync_headers_same_tip [OF hs])
  then have t: "tracks L D1 ([] @ [])"
    by (simp add: tracks_def same_tip_def dbs_new_def)
  have anc: "ancestry D1 (?h (rev blks @ []))"
    using headers_ancestry [OF assms(2) D1, of "length ?hc"] by (simp add: rev_map comp_def)
  have "?hc ! (length blks - 1) = blk_header (last blks)"
    using ne by (simp add: last_conv_nth)
  then have "db_height D1 (block_hash_of L (last blks)) = Some (word_of_nat (length blks - 1))"
    using D1 ne unfolding headers_stored_def by (metis diff_less length_greater_0_conv length_map lessThan_iff zero_less_one)
  moreover obtain b r where b: "rev blks = b # r" using ne by (cases "rev blks") auto
  moreover have "last blks = b" "length r = length blks - 1"
    using b by (simp add: last_rev [of "rev blks", simplified] hd_rev [symmetric]) (metis b length_Cons length_rev diff_Suc_1)
  ultimately have tip: "tip_height_ok D1 (?h (rev blks @ []))"
    using small by (simp add: tip_height_ok_def)
  have head: "chain_head (?h (rev blks @ [])) = block_hash_of L (last blks)"
    using b \<open>last blks = b\<close> by simp
  have only: "D' = D1" if "tracks L D' []" "same_blocks D1 D'" for D'
    using t that by (intro dbs.equality) (simp_all add: tracks_def same_blocks_def)
  have "\<exists>D' es'. sync_blocks L H B M net None (chain_head (?h (rev blks @ []))) (D1, [])
      = Some (Inr None, D', es')
    \<and> tracks L D' (rev blks @ [])"
  proof (rule sync_blocks_converges [OF t _ _ anc tip])
    show "extends L H D' [] (rev (rev blks))" if "tracks L D' []" "same_blocks D1 D'" for D'
      using assms(5) [OF hs] only [OF that] by simp
  qed (use assms(3,4) in \<open>simp_all add: tip_height_ok_def\<close>)
  then obtain D' es' where sb: "sync_blocks L H B M net None (block_hash_of L (last blks)) (D1, []) = Some (Inr None, D', es')"
    and tr: "tracks L D' (rev blks)"
    unfolding head by auto
  have "sync_to_tip L H B M net None (block_hash_of L (last blks)) (dbs_new, []) = Some (Inr None, D', es')"
    by (simp add: sync_to_tip_def hs sb)
  then show ?thesis
    using tr b \<open>last blks = b\<close> by (auto simp: tracks_def simp del: replay_chain.simps)
qed


subsection \<open>The sample chain\<close>

lemma hex_roundtrip:
  "map ((\<lambda>c. word_of_nat (of_char c)) \<circ> (\<lambda>b. char_of (unat b))) bs = (bs :: bytes)"
proof -
  have "word_of_nat (of_char (char_of (unat b))) = b" for b :: u8
    using unat_byte_less [of b] by (simp add: of_char_of)
  then show ?thesis by (simp add: map_idI)
qed

lemma honest_fetch:
  assumes "header_chain L (map blk_header blks)" and "set bs \<subseteq> set blks"
  shows "fetch_blocks_batch (honest_node L blks) (map (block_hash_of L) bs) = Inr bs"
proof -
  have "decode_blocks (honest_node L blks) (map ((\<lambda>h. map (\<lambda>b. char_of (unat b)) h) \<circ> block_hash_of L) bs) = Inr bs"
    using assms(2)
  proof (induction bs)
    case (Cons b bs)
    then obtain i where i: "i < length blks" "blks ! i = b" by (auto simp: in_set_conv_nth)
    then have "block_index L (map blk_header blks) (block_hash_of L b) = i"
      using block_index_nth [OF assms(1), of i] by simp
    then show ?case
      using Cons i by (simp add: honest_node_def Let_def hex_roundtrip)
  qed (simp)
  then show ?thesis by (simp add: fetch_blocks_batch_def honest_node_def Let_def)
qed

lemma demo_extends: "extends sample_libs demo_handler demo_dbs [] [genesis, second_block]"
proof -
  obtain ev where c1: "connect_block sample_libs demo_handler genesis demo_dbs = (Inr ev, demo_state1)"
    using demo_state1(1) by blast
  obtain ev' D where c2: "connect_block sample_libs demo_handler second_block demo_state1 = (Inr ev', D)"
    using demo_run2 by blast
  show ?thesis using c1 c2 genesis_admissible second_admissible by simp
qed


text \<open>The header download of the sample chain, step by step.\<close>

lemma demo_best_ancestor:
  "fetch_best_ancestor (honest_node sample_libs [genesis, second_block]) dbs_new (3 # replicate 31 0) 1 = Inr None"
proof -
  let ?M = "honest_node sample_libs [genesis, second_block]"
  have known: "\<not> contains_header dbs_new h" for h by (simp add: contains_header_def dbs_new_def)
  have mid: "midpoint_u32 1 0 = 0" "midpoint_u32 0 0 = 0" by (simp_all add: midpoint_u32_def)
  have g: "mc_getblockhash ?M 0 = Inr (block_hash_of sample_libs genesis)"
    by (simp add: honest_node_def Let_def)
  have "best_ancestor_loop ?M dbs_new None 0 = Inr None"
    by (subst best_ancestor_loop.simps) (simp add: mid)
  then have "best_ancestor_loop ?M dbs_new None 1 = Inr None"
    by (subst best_ancestor_loop.simps) (simp add: mid g known)
  then show ?thesis using demo_not_zeros [of 3] by (simp add: fetch_best_ancestor_def known)
qed

lemma demo_sync_headers:
  "sync_headers sample_libs (honest_node sample_libs [genesis, second_block]) (3 # replicate 31 0) dbs_new
    = Some (Inr (), demo_dbs)"
proof -
  let ?M = "honest_node sample_libs [genesis, second_block]"
  let ?hc = "map blk_header [genesis, second_block]"
  let ?h1 = "2 # replicate 31 0 :: bytes" and ?h2 = "3 # replicate 31 0 :: bytes"
  have hh: "header_block_hash sample_libs (?hc ! 0) = ?h1" "header_block_hash sample_libs (?hc ! 1) = ?h2"
    using demo_hashes by simp_all
  have idx: "block_index sample_libs ?hc ?h1 = 0" "block_index sample_libs ?hc ?h2 = 1"
    using block_index_nth [OF demo_header_chain, of 0] block_index_nth [OF demo_header_chain, of 1] hh
    by (simp_all del: sample_libs_sel replicate.simps)
  have height: "mc_getblockheader_height ?M ?h2 = Inr 1"
    using idx by (simp add: honest_node_def Let_def del: replicate.simps)
  have g: "mc_getblockhash ?M 0 = Inr ?h1"
    using demo_hashes by (simp add: honest_node_def Let_def del: sample_libs_sel replicate.simps)
  have served: "mc_get_block_headers ?M ?h1 2
      = Inr [(blk_header genesis, ?h1, 0), (blk_header second_block, ?h2, 1)]"
    using idx(1) demo_hashes
    by (simp add: honest_node_def Let_def served_header_def upt_conv_Cons numeral_2_eq_2
        del: sample_libs_sel replicate.simps)
  have "header_loop sample_libs ?M ?h2 1 0 ?h1 0 dbs_new = Some (Inr (), demo_dbs)"
  proof -
    have c: "\<not> mc_is_cancelled ?M 0" by (simp add: honest_node_def Let_def)
    have size: "min HEADER_FETCH_BATCH_SIZE 2 = 2"
      by (simp add: HEADER_FETCH_BATCH_SIZE_def)
    show ?thesis
      using c served by (subst header_loop.simps) (simp add: size Let_def demo_dbs_def del: replicate.simps)
  qed
  then show ?thesis
    using demo_best_ancestor height g demo_not_zeros [of 3]
    by (simp add: sync_headers_def del: replicate.simps)
qed


end
