(* ===== verification/Enforcer.thy ===== *)
theory Enforcer
  imports Sync_Blocks
begin

text \<open>
  The enforcer interface that the mempool driver calls (\<open>lib/validator/enforcer.rs\<close>): connecting
  a block in a nested database transaction whose header write survives a rejection, fetching the
  prevouts that the databases do not hold, disconnecting, synchronising, mempool admission and
  the dry run of block proposals. The validator's own state is the record \<open>validator\<close>; the
  node's \<open>getblock\<close>, amount and hex conversions are the record \<open>prevout_service\<close>.
\<close>

section \<open>The validator\<close>

record validator =
  vd_dbs :: dbs
  vd_events_tx :: "event list"
  vd_header_sync_progress :: "u32 option option"
  vd_activation_height :: u32
  vd_pqc_verify_budget_ms :: nat

definition handler_of :: "validator \<Rightarrow> utxo_map \<Rightarrow> block_handler" where
  "handler_of V extra_prevouts =
     \<lparr>bh_activation_height = vd_activation_height V,
      bh_pqc_verify_budget_ms = vd_pqc_verify_budget_ms V, bh_extra_prevouts = extra_prevouts\<rparr>"

section \<open>Connecting a block\<close>

datatype reject_reason =
  RejectConnectBlock connect_block_error
| MissingParentHeight bytes bytes

text \<open>
  \<open>ConnectBlockRwTxnAction\<close>: an accepted block comes with the child transaction's databases
  over the parent's, a rejected one with the parent's, which hold the header write only.
\<close>

datatype rwtxn_action =
  TxnAccept event "bytes set" dbs
| TxnReject dbs reject_reason

datatype connect_block_action = AcceptBlock "bytes set" | RejectBlock

text \<open>The header write; \<open>parent_height + 1\<close> wraps as in a release build.\<close>

definition store_header :: "libs \<Rightarrow> block \<Rightarrow> dbs \<Rightarrow> reject_reason + dbs" where
  "store_header L blk D =
     (let block_hash = block_hash_of L blk; parent = hdr_prev_blockhash (blk_header blk) in
      if contains_header D block_hash then Inr D
      else
        bindE (if parent = all_zeros then Inr 0
               else case db_height D parent of
                 Some parent_height \<Rightarrow> Inr (parent_height + 1)
               | None \<Rightarrow> Inl (MissingParentHeight block_hash parent)) (\<lambda>height.
        Inr (put_headers L [(blk_header blk, height)] D)))"

definition connect_block_no_commit ::
  "libs \<Rightarrow> validator \<Rightarrow> block \<Rightarrow> utxo_map \<Rightarrow> connect_block_error + rwtxn_action" where
  "connect_block_no_commit L V blk extra_prevouts =
     (case store_header L blk (vd_dbs V) of
        Inl reason \<Rightarrow> Inr (TxnReject (vd_dbs V) reason)
      | Inr parent_rwtxn \<Rightarrow>
          (case connect_block L (handler_of V extra_prevouts) blk parent_rwtxn of
             (Inr event, child_rwtxn) \<Rightarrow> Inr (TxnAccept event {} child_rwtxn)
           | (Inl err, _) \<Rightarrow>
               if connect_is_fatal err then Inl err
               else Inr (TxnReject parent_rwtxn (RejectConnectBlock err))))"

text \<open>\<open>ConnectBlockCommit\<close>; a fatal error drops both transactions.\<close>

definition connect_block_commit ::
  "libs \<Rightarrow> block \<Rightarrow> utxo_map \<Rightarrow> (validator, connect_block_error, connect_block_action) st" where
  "connect_block_commit L blk extra_prevouts = (\<lambda>V.
     case connect_block_no_commit L V blk extra_prevouts of
       Inl err \<Rightarrow> (Inl err, V)
     | Inr (TxnAccept event remove_mempool_txs child_rwtxn) \<Rightarrow>
         (Inr (AcceptBlock remove_mempool_txs),
          V\<lparr>vd_dbs := child_rwtxn, vd_events_tx := vd_events_tx V @ [event]\<rparr>)
     | Inr (TxnReject header_rwtxn reason) \<Rightarrow> (Inr RejectBlock, V\<lparr>vd_dbs := header_rwtxn\<rparr>))"

section \<open>Prevouts from the node\<close>

text \<open>
  \<open>getblock hash 3\<close> as the inputs of its transactions; \<open>gp_value\<close> is the JSON number, which only
  \<open>Amount::from_btc\<close> reads.
\<close>

record gb_prevout =
  gp_value :: u64
  gp_hex :: string

record gb_vin =
  gv_txid :: "bytes option"
  gv_vout :: "u32 option"
  gv_prevout :: "gb_prevout option"

record prevout_service =
  ps_getblock_v3 :: "bytes \<Rightarrow> gb_vin list list option"
  ps_amount_from_btc :: "u64 \<Rightarrow> u64 option"
  ps_hex_decode :: "string \<Rightarrow> bytes option"

definition resolve_vin ::
  "prevout_service \<Rightarrow> out_point set \<Rightarrow> utxo_map \<Rightarrow> gb_vin \<Rightarrow> utxo_map" where
  "resolve_vin S wanted resolved vin =
     (case (gv_txid vin, gv_vout vin, gv_prevout vin) of
        (Some txid, Some vout, Some prevout) \<Rightarrow>
          let outpoint = \<lparr>op_txid = txid, op_vout = vout\<rparr> in
          if outpoint \<notin> wanted then resolved
          else (case (ps_amount_from_btc S (gp_value prevout), ps_hex_decode S (gp_hex prevout)) of
                  (Some val, Some spk_bytes) \<Rightarrow>
                    resolved(outpoint \<mapsto> \<lparr>txo_value = val, txo_script_pubkey = spk_bytes\<rparr>)
                | _ \<Rightarrow> resolved)
      | _ \<Rightarrow> resolved)"

definition fetch_prevouts_getblock_v3 ::
  "prevout_service \<Rightarrow> bytes \<Rightarrow> out_point set \<Rightarrow> utxo_map" where
  "fetch_prevouts_getblock_v3 S block_hash wanted =
     (case ps_getblock_v3 S block_hash of
        None \<Rightarrow> Map.empty
      | Some txs \<Rightarrow> foldl (foldl (resolve_vin S wanted)) Map.empty txs)"

definition same_block_outpoints :: "libs \<Rightarrow> block \<Rightarrow> out_point set" where
  "same_block_outpoints L blk = set (concat (map (\<lambda>tx. map fst (tx_outpoints L tx)) (blk_txdata blk)))"

text \<open>The loop body over \<open>block.txdata.iter().skip(1)\<close>.\<close>

definition want_tx ::
  "libs \<Rightarrow> utxo_map \<Rightarrow> out_point set \<Rightarrow> out_point set \<Rightarrow> transaction \<Rightarrow> out_point set" where
  "want_tx L chain_p2mr same_block wanted tx =
     (let has_vault_input = list_ex (\<lambda>input. input_reveals_vault_leaf L (txi_witness input)) (tx_input tx);
          multi_input_p2mr = (length (tx_input tx) \<ge> 2
            \<and> list_ex (\<lambda>input. chain_p2mr (txi_previous_output input) \<noteq> None) (tx_input tx)) in
      if \<not> has_vault_input \<and> \<not> multi_input_p2mr then wanted
      else foldl (\<lambda>w input. let outpoint = txi_previous_output input in
               if chain_p2mr outpoint \<noteq> None \<or> outpoint \<in> same_block then w else insert outpoint w)
             wanted (tx_input tx))"

definition wanted_prevouts :: "libs \<Rightarrow> utxo_map \<Rightarrow> block \<Rightarrow> out_point set" where
  "wanted_prevouts L chain_p2mr blk =
     foldl (want_tx L chain_p2mr (same_block_outpoints L blk)) {} (drop 1 (blk_txdata blk))"

definition prefetch_external_prevouts ::
  "libs \<Rightarrow> prevout_service \<Rightarrow> validator \<Rightarrow> block \<Rightarrow> utxo_map" where
  "prefetch_external_prevouts L S V blk =
     (let wanted = wanted_prevouts L (db_p2mr_utxos (vd_dbs V)) blk in
      if wanted = {} then Map.empty
      else fetch_prevouts_getblock_v3 S (block_hash_of L blk) wanted)"

section \<open>The calls of the driver\<close>

definition enforcer_connect_block ::
  "libs \<Rightarrow> prevout_service \<Rightarrow> block \<Rightarrow> (validator, connect_block_error, connect_block_action) st" where
  "enforcer_connect_block L S blk = (\<lambda>V.
     connect_block_commit L blk (prefetch_external_prevouts L S V blk) V)"

text \<open>An error drops the transaction; the handler broadcasts its event only on success.\<close>

definition enforcer_disconnect_block ::
  "libs \<Rightarrow> bytes \<Rightarrow> (validator, disconnect_block_error, unit) st" where
  "enforcer_disconnect_block L block_hash = (\<lambda>V.
     case disconnect_block L block_hash (vd_dbs V) of
       (Inl err, _) \<Rightarrow> (Inl err, V)
     | (Inr event, D) \<Rightarrow>
         (Inr (), V\<lparr>vd_dbs := D, vd_events_tx := vd_events_tx V @ (case event of None \<Rightarrow> [] | Some ev \<Rightarrow> [ev])\<rparr>))"

datatype tx_accept_action = AcceptTx "bytes set" int | RejectTx

text \<open>The transaction is dropped in every case.\<close>

definition accept_tx ::
  "libs \<Rightarrow> transaction \<Rightarrow> (validator, validate_tx_error, tx_accept_action) st" where
  "accept_tx L tx = (\<lambda>V.
     (bindE (validate_tx L (handler_of V Map.empty) tx (vd_dbs V)) (\<lambda>valid.
        Inr (if valid then AcceptTx {} 0 else RejectTx)), V))"

definition try_get_block_height :: "dbs \<Rightarrow> db_error + u32 option" where
  "try_get_block_height D =
     (case db_tip D of None \<Rightarrow> Inr None
      | Some tip \<Rightarrow> bindE (db_get (db_height D) tip) (\<lambda>height. Inr (Some height)))"

text \<open>\<open>validate_block\<close>: the reason of a rejection is kept as the error value.\<close>

definition validate_block ::
  "libs \<Rightarrow> validator \<Rightarrow> block \<Rightarrow> db_error + pqc_validation_error option" where
  "validate_block L V blk =
     bindE (try_get_block_height (vd_dbs V)) (\<lambda>tip.
       case tip of
         None \<Rightarrow> Inr None
       | Some tip_height \<Rightarrow>
           (case validate_block_transactions L blk (tip_height + 1) (vd_activation_height V)
              (db_p2mr_utxos (vd_dbs V)) (vd_pqc_verify_budget_ms V) of
              Inr _ \<Rightarrow> Inr None
            | Inl err \<Rightarrow> Inr (Some err)))"

datatype sync_to_tip_error = InvalidBlock bytes connect_block_error | SyncOther sync_error

text \<open>
  \<open>sync_to_tip\<close> of the enforcer. The synchronisation runs until it ends or until the shutdown
  signal arrives; \<open>shutdown = Some DE\<close> is the latter, with what the interrupted run had committed
  and broadcast. While it runs the progress is set; it is cleared on every way out.
\<close>

definition enforcer_sync_to_tip ::
  "libs \<Rightarrow> block_file_libs \<Rightarrow> mainchain \<Rightarrow> network \<Rightarrow> blocks_dir option \<Rightarrow> sync_state option \<Rightarrow> bytes
    \<Rightarrow> validator \<Rightarrow> ((sync_to_tip_error + unit) \<times> validator) option" where
  "enforcer_sync_to_tip L B M net mainchain_blocks_dir shutdown tip V =
     (case vd_header_sync_progress V of
        Some _ \<Rightarrow> Some (Inl (SyncOther HeaderSyncInProgress), V)
      | None \<Rightarrow>
          (case shutdown of
             Some (D, events) \<Rightarrow>
               Some (Inl (SyncOther Shutdown),
                 V\<lparr>vd_dbs := D, vd_events_tx := events, vd_header_sync_progress := None\<rparr>)
           | None \<Rightarrow>
               Option.bind (sync_to_tip L (handler_of V Map.empty) B M net mainchain_blocks_dir tip
                   (vd_dbs V, vd_events_tx V)) (\<lambda>(result, D, events).
                 Some (case result of
                         Inr None \<Rightarrow> Inr ()
                       | Inr (Some (block_hash, reason)) \<Rightarrow> Inl (InvalidBlock block_hash reason)
                       | Inl err \<Rightarrow> Inl (SyncOther err),
                   V\<lparr>vd_dbs := D, vd_events_tx := events, vd_header_sync_progress := None\<rparr>))))"

section \<open>What is fetched\<close>

text \<open>
  The outpoints that the enforcer asks the node for: those of the inputs of a transaction that
  reveals a vault leaf, or that has several inputs and spends a stored P2MR output, when they are
  neither stored nor created in the block.
\<close>

definition needs_prevouts :: "libs \<Rightarrow> utxo_map \<Rightarrow> transaction \<Rightarrow> bool" where
  "needs_prevouts L chain tx =
     ((\<exists>i \<in> set (tx_input tx). input_reveals_vault_leaf L (txi_witness i))
      \<or> length (tx_input tx) \<ge> 2 \<and> (\<exists>i \<in> set (tx_input tx). txi_previous_output i \<in> dom chain))"

definition external_prevouts :: "libs \<Rightarrow> utxo_map \<Rightarrow> block \<Rightarrow> out_point set" where
  "external_prevouts L chain blk =
     (\<Union>tx \<in> {tx \<in> set (drop 1 (blk_txdata blk)). needs_prevouts L chain tx}.
        txi_previous_output ` set (tx_input tx)) - dom chain - same_block_outpoints L blk"

lemma want_tx_eq:
  "want_tx L chain same w tx =
     (if needs_prevouts L chain tx then w \<union> (txi_previous_output ` set (tx_input tx) - dom chain - same) else w)"
proof -
  have loop: "foldl (\<lambda>w input. let outpoint = txi_previous_output input in
        if chain outpoint \<noteq> None \<or> outpoint \<in> same then w else insert outpoint w) w inputs
      = w \<union> (txi_previous_output ` set inputs - dom chain - same)" for inputs
    by (induction inputs arbitrary: w) (auto simp: Let_def)
  show ?thesis
    unfolding want_tx_def Let_def loop [unfolded Let_def]
    by (auto simp: needs_prevouts_def list_ex_iff)
qed

lemma want_txs_eq:
  "foldl (want_tx L chain same) w txs =
     w \<union> ((\<Union>tx \<in> {tx \<in> set txs. needs_prevouts L chain tx}. txi_previous_output ` set (tx_input tx))
           - dom chain - same)"
  by (induction txs arbitrary: w) (auto simp: want_tx_eq)

lemma wanted_prevouts_eq: "wanted_prevouts L chain blk = external_prevouts L chain blk"
  by (simp add: wanted_prevouts_def want_txs_eq external_prevouts_def)

text \<open>What one input of the node's answer resolves to.\<close>

definition vin_prevout :: "prevout_service \<Rightarrow> gb_vin \<Rightarrow> (out_point \<times> tx_out) option" where
  "vin_prevout S vin =
     Option.bind (gv_txid vin) (\<lambda>txid. Option.bind (gv_vout vin) (\<lambda>vout.
     Option.bind (gv_prevout vin) (\<lambda>prevout.
     Option.bind (ps_amount_from_btc S (gp_value prevout)) (\<lambda>val.
     Option.bind (ps_hex_decode S (gp_hex prevout)) (\<lambda>spk.
       Some (\<lparr>op_txid = txid, op_vout = vout\<rparr>, \<lparr>txo_value = val, txo_script_pubkey = spk\<rparr>))))))"

lemma resolve_vin_eq:
  "resolve_vin S wanted m vin =
     (case vin_prevout S vin of Some (k, p) \<Rightarrow> if k \<in> wanted then m(k \<mapsto> p) else m | None \<Rightarrow> m)"
  by (auto simp: resolve_vin_def vin_prevout_def Let_def split: option.splits)

lemma foldl_concat: "foldl (foldl f) s xss = foldl f s (concat xss)"
  by (induction xss arbitrary: s) simp_all

text \<open>
  A node that serves the prevouts of the block: its answer has every input of the block's
  transactions but the coinbase's, and what it says of an outpoint is the output there.
\<close>

definition serves_prevouts :: "libs \<Rightarrow> prevout_service \<Rightarrow> utxo_map \<Rightarrow> block \<Rightarrow> bool" where
  "serves_prevouts L S outputs blk =
     (\<exists>txs. ps_getblock_v3 S (block_hash_of L blk) = Some txs
       \<and> (\<forall>vin \<in> set (concat txs). \<forall>k p. vin_prevout S vin = Some (k, p) \<longrightarrow> outputs k = Some p)
       \<and> (\<forall>tx \<in> set (drop 1 (blk_txdata blk)). \<forall>i \<in> set (tx_input tx).
            \<exists>vin \<in> set (concat txs). \<exists>p. vin_prevout S vin = Some (txi_previous_output i, p)))"

lemma resolve_vins:
  assumes "\<forall>vin \<in> set vins. \<forall>k p. vin_prevout S vin = Some (k, p) \<longrightarrow> outputs k = Some p"
  shows "foldl (resolve_vin S wanted) m vins k =
    (if k \<in> wanted \<and> (\<exists>vin \<in> set vins. \<exists>p. vin_prevout S vin = Some (k, p)) then outputs k else m k)"
  using assms
proof (induction vins arbitrary: m)
  case (Cons vin vins)
  then show ?case by (auto simp: resolve_vin_eq split: option.splits)
qed simp

lemma fetch_serves:
  assumes "serves_prevouts L S outputs blk"
    and "wanted \<subseteq> (\<Union>tx \<in> set (drop 1 (blk_txdata blk)). txi_previous_output ` set (tx_input tx))"
  shows "fetch_prevouts_getblock_v3 S (block_hash_of L blk) wanted = outputs |` wanted"
proof
  fix k
  obtain txs where txs: "ps_getblock_v3 S (block_hash_of L blk) = Some txs"
    and sound: "\<forall>vin \<in> set (concat txs). \<forall>k p. vin_prevout S vin = Some (k, p) \<longrightarrow> outputs k = Some p"
    and complete: "\<forall>tx \<in> set (drop 1 (blk_txdata blk)). \<forall>i \<in> set (tx_input tx).
            \<exists>vin \<in> set (concat txs). \<exists>p. vin_prevout S vin = Some (txi_previous_output i, p)"
    using assms(1) unfolding serves_prevouts_def by blast
  have "\<exists>vin \<in> set (concat txs). \<exists>p. vin_prevout S vin = Some (k, p)" if "k \<in> wanted"
    using assms(2) complete that by fastforce
  then show "fetch_prevouts_getblock_v3 S (block_hash_of L blk) wanted k = (outputs |` wanted) k"
    by (simp only: fetch_prevouts_getblock_v3_def txs option.case foldl_concat resolve_vins [OF sound])
      (auto simp: restrict_map_def)
qed

lemma prefetch_serves:
  assumes "serves_prevouts L S outputs blk"
  shows "prefetch_external_prevouts L S V blk
    = outputs |` external_prevouts L (db_p2mr_utxos (vd_dbs V)) blk"
proof -
  have "external_prevouts L chain blk
      \<subseteq> (\<Union>tx \<in> set (drop 1 (blk_txdata blk)). txi_previous_output ` set (tx_input tx))" for chain
    by (auto simp: external_prevouts_def)
  then show ?thesis
    using fetch_serves [OF assms]
    by (simp add: prefetch_external_prevouts_def wanted_prevouts_eq Let_def restrict_map_def)
qed

section \<open>Runs of the enforcer\<close>

text \<open>
  What a subscriber of the event stream does: a connected block must extend the chain it holds,
  a disconnected block must be the newest of it.
\<close>

fun follow_event :: "bytes list \<Rightarrow> event \<Rightarrow> bytes list option" where
  "follow_event c (ConnectBlockEvent info _) =
     (if hi_prev_block_hash info = chain_head c then Some (hi_block_hash info # c) else None)"
| "follow_event [] (DisconnectBlockEvent _) = None"
| "follow_event (h # c) (DisconnectBlockEvent h') = (if h' = h then Some c else None)"

definition follow_events :: "event list \<Rightarrow> bytes list option" where
  "follow_events events = foldl (\<lambda>c event. Option.bind c (\<lambda>c. follow_event c event)) (Some []) events"

lemma follow_events_Nil [simp]: "follow_events [] = Some []"
  and follow_events_snoc [simp]:
    "follow_events (events @ [event]) = Option.bind (follow_events events) (\<lambda>c. follow_event c event)"
  by (simp_all add: follow_events_def)

text \<open>
  What the chain source guarantees of a block that the driver asks to connect, whose header need
  not be known yet.
\<close>

definition driver_block :: "libs \<Rightarrow> validator \<Rightarrow> utxo_map \<Rightarrow> block list \<Rightarrow> block \<Rightarrow> bool" where
  "driver_block L V extra bs b =
     (no_collision L (vd_dbs V) [(blk_header b, 0)]
      \<and> admissible L (handler_of V extra)
          ((vd_dbs V)\<lparr>db_header := (db_header (vd_dbs V))(block_hash_of L b \<mapsto> blk_header b)\<rparr>) bs b)"

inductive enforcer_run :: "libs \<Rightarrow> validator \<Rightarrow> block list \<Rightarrow> bool" for L where
  start: "vd_dbs V = dbs_new \<Longrightarrow> vd_events_tx V = [] \<Longrightarrow> enforcer_run L V []"
| connect: "enforcer_run L V bs \<Longrightarrow> driver_block L V (prefetch_external_prevouts L S V b) bs b \<Longrightarrow>
    enforcer_connect_block L S b V = (r, V') \<Longrightarrow>
    enforcer_run L V' (case r of Inr (AcceptBlock _) \<Rightarrow> b # bs | _ \<Rightarrow> bs)"
| disconnect: "enforcer_run L V bs \<Longrightarrow> bs \<noteq> [] \<Longrightarrow> enforcer_disconnect_block L h V = (r, V') \<Longrightarrow>
    enforcer_run L V' (if is_ok r \<and> db_diff (vd_dbs V) h \<noteq> None then tl bs else bs)"
| mempool: "enforcer_run L V bs \<Longrightarrow> accept_tx L tx V = (r, V') \<Longrightarrow> enforcer_run L V' bs"

subsection \<open>One call\<close>

lemma store_header_ok:
  assumes "store_header L b D = Inr D'"
  shows "D' = D \<and> contains_header D (block_hash_of L b)
    \<or> (\<exists>height. D' = put_headers L [(blk_header b, height)] D)"
  using assms by (auto simp: store_header_def Let_def split: if_splits option.splits)

lemma no_collision_height: "no_collision L D [(hdr, m)] = no_collision L D [(hdr, n)]"
  by (simp add: no_collision_def)

lemma no_collision_stored:
  assumes "dbs_inv L D" and "no_collision L D [(hdr, n)]" and "db_header D (header_block_hash L hdr) = Some hdr'"
  shows "hdr' = hdr"
proof -
  have "hdr' \<in> ran (db_header D)" "header_block_hash L hdr' = header_block_hash L hdr"
    using assms(1,3) by (auto simp: dbs_inv_def headers_ok_def intro: ranI)
  then show ?thesis using assms(2) by (auto simp: no_collision_def inj_on_def)
qed

text \<open>The header write reaches a state of the node, at which the block is admissible.\<close>

lemma store_header_run:
  assumes "node_run L (vd_dbs V) bs" and "no_collision L (vd_dbs V) [(blk_header b, 0)]"
    and "store_header L b (vd_dbs V) = Inr D"
  shows "node_run L D bs \<and> db_header D (block_hash_of L b) = Some (blk_header b)
    \<and> same_tip (vd_dbs V) D"
proof -
  have inv: "dbs_inv L (vd_dbs V)" using node_run_inv [OF assms(1)] by blast
  from store_header_ok [OF assms(3)] show ?thesis
  proof (elim disjE exE conjE)
    assume "D = vd_dbs V" and "contains_header (vd_dbs V) (block_hash_of L b)"
    then show ?thesis
      using assms(1) no_collision_stored [OF inv assms(2)] by (auto simp: contains_header_def same_tip_def)
  next
    fix height assume D: "D = put_headers L [(blk_header b, height)] (vd_dbs V)"
    have "no_collision L (vd_dbs V) [(blk_header b, height)]"
      using assms(2) by (simp add: no_collision_def)
    then have "node_run L D bs" unfolding D by (rule node_run.headers [OF assms(1)])
    moreover have "db_header D (block_hash_of L b) = Some (blk_header b)"
      by (simp add: D put_headers_def put_header_def Let_def)
    ultimately show ?thesis
      using put_headers_same_tip by (simp add: D)
  qed
qed

lemma driver_admissible:
  assumes "driver_block L V extra bs b" and "same_tip (vd_dbs V) D"
    and "db_header D (block_hash_of L b) = Some (blk_header b)"
  shows "admissible L (handler_of V extra) D bs b"
  using assms by (simp add: driver_block_def admissible_def same_tip_def)

lemma connect_commit_cases:
  assumes "connect_block_commit L b extra V = (r, V')"
  obtains (fatal) e where "r = Inl e" "V' = V"
  | (accept) D event D' where "store_header L b (vd_dbs V) = Inr D"
      "connect_block L (handler_of V extra) b D = (Inr event, D')" "r = Inr (AcceptBlock {})"
      "V' = V\<lparr>vd_dbs := D', vd_events_tx := vd_events_tx V @ [event]\<rparr>"
  | (reject) D e D' where "store_header L b (vd_dbs V) = Inr D"
      "connect_block L (handler_of V extra) b D = (Inl e, D')" "\<not> connect_is_fatal e"
      "r = Inr RejectBlock" "V' = V\<lparr>vd_dbs := D\<rparr>"
  | (orphan) "store_header L b (vd_dbs V) = Inl (MissingParentHeight (block_hash_of L b) (hdr_prev_blockhash (blk_header b)))"
      "r = Inr RejectBlock" "V' = V"
proof (cases "store_header L b (vd_dbs V)")
  case (Inl reason)
  then have "reason = MissingParentHeight (block_hash_of L b) (hdr_prev_blockhash (blk_header b))"
    by (auto simp: store_header_def Let_def bindE_eq_Inl split: if_splits option.splits)
  moreover have "r = Inr RejectBlock" "V' = V"
    using assms Inl by (simp_all add: connect_block_commit_def connect_block_no_commit_def)
  ultimately show ?thesis using Inl orphan by simp
next
  case (Inr D)
  obtain res D' where c: "connect_block L (handler_of V extra) b D = (res, D')" by fastforce
  note call = assms [unfolded connect_block_commit_def connect_block_no_commit_def Inr sum.case c prod.case]
  show ?thesis
  proof (cases res)
    case ok: (Inr event)
    show ?thesis
      by (rule accept [OF Inr c [unfolded ok]]) (use call ok in auto)
  next
    case err: (Inl e)
    show ?thesis
    proof (cases "connect_is_fatal e")
      case True
      show ?thesis by (rule fatal) (use call err True in auto)
    next
      case False
      show ?thesis by (rule reject [OF Inr c [unfolded err] False]) (use call err False in auto)
    qed
  qed
qed

lemma connect_event:
  assumes "connect_block L H b D = (Inr event, D')"
  shows "\<exists>info binfo. event = ConnectBlockEvent info binfo \<and> hi_block_hash info = block_hash_of L b
    \<and> hi_prev_block_hash info = hdr_prev_blockhash (blk_header b) \<and> check_parent b D = Inr ()"
  using assms unfolding connect_block_def connect_block_pass_through_def
  by (auto simp: st_iffs Let_def)

lemma disconnect_event:
  assumes "disconnect_block L h D = (Inr event, D')"
  shows "event = (if db_diff D h = None then None else Some (DisconnectBlockEvent h))
    \<and> (db_diff D h \<noteq> None \<longrightarrow> db_tip D \<noteq> None \<longrightarrow> db_tip D = Some h)"
  using assms unfolding disconnect_block_def
  by (auto simp: st_iffs split: option.splits)

lemma check_parent_tracks:
  "tracks L D bs \<Longrightarrow> check_parent b D = Inr () \<longleftrightarrow> hdr_prev_blockhash (blk_header b) = parent_hash L bs"
  by (auto simp: check_parent_def Let_def tracks_def parent_hash_def split: list.splits)

lemma parent_hash_head: "parent_hash L bs = chain_head (map (block_hash_of L) bs)"
  by (cases bs) (simp_all add: parent_hash_def chain_head_def)

text \<open>Every reachable state of the enforcer is a reachable state of the node.\<close>

lemma enforcer_run_node:
  assumes "enforcer_run L V bs"
  shows "node_run L (vd_dbs V) bs \<and> follow_events (vd_events_tx V) = Some (map (block_hash_of L) bs)"
  using assms
proof (induction rule: enforcer_run.induct)
  case (start V)
  then show ?case by (simp add: node_run.start)
next
  case (connect V bs S b r V')
  let ?extra = "prefetch_external_prevouts L S V b"
  have call: "connect_block_commit L b ?extra V = (r, V')"
    using connect.hyps(3) by (simp add: enforcer_connect_block_def)
  have nc: "no_collision L (vd_dbs V) [(blk_header b, 0)]"
    using connect.hyps(2) by (simp add: driver_block_def)
  note run = store_header_run [OF conjunct1 [OF connect.IH] nc]
  show ?case
    using call
  proof (cases rule: connect_commit_cases)
    case (accept D event D')
    have adm: "admissible L (handler_of V ?extra) D bs b"
      using driver_admissible [OF connect.hyps(2)] run [OF accept(1)] by blast
    have "node_run L D' (b # bs)"
      using node_run.connect [OF _ adm accept(2)] run [OF accept(1)] by blast
    moreover have "follow_events (vd_events_tx V @ [event]) = Some (map (block_hash_of L) (b # bs))"
      using connect_event [OF accept(2)] check_parent_tracks [of L D bs b] connect.IH
        node_run_inv [of L D bs] run [OF accept(1)]
      by (auto simp: parent_hash_head)
    ultimately show ?thesis by (simp add: accept)
  qed (use connect.IH run in auto)
next
  case (disconnect V bs h r V')
  obtain res D' where d: "disconnect_block L h (vd_dbs V) = (res, D')" by fastforce
  obtain b bs' where bs: "bs = b # bs'" using disconnect.hyps(2) by (cases bs) auto
  have tip: "db_tip (vd_dbs V) = Some (block_hash_of L b)"
    using node_run_inv [OF conjunct1 [OF disconnect.IH]] by (simp add: tracks_def bs)
  show ?case
  proof (cases res)
    case (Inl e)
    then show ?thesis
      using disconnect.hyps(3) disconnect.IH d by (auto simp: enforcer_disconnect_block_def)
  next
    case (Inr event)
    note d' = d [unfolded Inr]
    have V': "r = Inr ()" "vd_dbs V' = D'"
      "vd_events_tx V' = vd_events_tx V @ (case event of None \<Rightarrow> [] | Some ev \<Rightarrow> [ev])"
      using disconnect.hyps(3) d' by (auto simp: enforcer_disconnect_block_def)
    have "node_run L D' (if event = None then bs else tl bs)"
      using node_run.disconnect [OF conjunct1 [OF disconnect.IH] _ d'] tip by simp
    then show ?thesis
      using disconnect_event [OF d'] disconnect.IH tip by (auto simp: V' bs)
  qed
next
  case (mempool V bs tx r V')
  then show ?case by (simp add: accept_tx_def)
qed

section \<open>Rejections and dry runs\<close>

text \<open>The height that a block on top of the tip gets.\<close>

definition next_height :: "dbs \<Rightarrow> u32" where
  "next_height D = (case db_tip D of None \<Rightarrow> 0 | Some tip \<Rightarrow> (case db_height D tip of None \<Rightarrow> 0 | Some n \<Rightarrow> n + 1))"

lemma tracks_tip_height:
  assumes "tracks L D bs" and "bs \<noteq> []"
  shows "\<exists>n. db_tip D = Some (parent_hash L bs) \<and> db_height D (parent_hash L bs) = Some n
    \<and> parent_hash L bs \<noteq> all_zeros \<and> parent_hash L bs \<in> block_hash_of L ` set bs"
  using assms by (cases bs) (auto simp: tracks_def parent_hash_def Let_def)

lemma store_header_new:
  assumes "tracks L D bs" and "hdr_prev_blockhash (blk_header b) = parent_hash L bs"
    and "\<not> contains_header D (block_hash_of L b)" and "block_hash_of L b \<notin> block_hash_of L ` set bs"
  shows "\<exists>D'. store_header L b D = Inr D' \<and> db_height D' (block_hash_of L b) = Some (next_height D)"
proof (cases bs)
  case Nil
  then have "hdr_prev_blockhash (blk_header b) = all_zeros" "db_tip D = None"
    using assms(1,2) by (simp_all add: parent_hash_def tracks_def)
  then show ?thesis
    using assms(3) by (simp add: store_header_def Let_def put_headers_def put_header_def next_height_def)
next
  case (Cons t ts)
  then obtain n where n: "db_tip D = Some (parent_hash L bs)" "db_height D (parent_hash L bs) = Some n"
    "parent_hash L bs \<noteq> all_zeros" "parent_hash L bs \<in> block_hash_of L ` set bs"
    using tracks_tip_height [OF assms(1)] by auto
  then have "block_hash_of L b \<noteq> parent_hash L bs" using assms(4) by metis
  then show ?thesis
    using assms(2,3) n by (simp add: store_header_def Let_def put_headers_def put_header_def next_height_def)
qed

lemma connect_commit_iff:
  assumes "node_run L (vd_dbs V) bs" and "driver_block L V extra bs b"
    and "hdr_prev_blockhash (blk_header b) = parent_hash L bs"
    and "\<not> contains_header (vd_dbs V) (block_hash_of L b)" and "blk_txdata b = coinbase # txs"
  shows "(\<exists>V'. connect_block_commit L b extra V = (Inr (AcceptBlock {}), V'))
    = is_ok (validate_and_diff_block_transactions L b (next_height (vd_dbs V)) (vd_activation_height V)
        (db_p2mr_utxos (vd_dbs V)) extra (vd_pqc_verify_budget_ms V))" (is "?l = ?r")
proof -
  have nc: "no_collision L (vd_dbs V) [(blk_header b, 0)]" and ni: "block_hash_of L b \<notin> block_hash_of L ` set bs"
    using assms(2) by (simp_all add: driver_block_def admissible_def)
  obtain D where D: "store_header L b (vd_dbs V) = Inr D" "db_height D (block_hash_of L b) = Some (next_height (vd_dbs V))"
    using store_header_new [OF _ assms(3,4) ni] node_run_inv [OF assms(1)] by blast
  note run = store_header_run [OF assms(1) nc D(1)]
  have adm: "admissible L (handler_of V extra) D bs b"
    using driver_admissible [OF assms(2)] run by blast
  have "?l = (\<exists>event D'. connect_block L (handler_of V extra) b D = (Inr event, D'))"
    by (auto simp: connect_block_commit_def connect_block_no_commit_def D(1) split: prod.splits sum.splits)
  also have "\<dots> = ?r"
    using connect_accepts_iff [OF conjunct1 [OF run] adm D(2) assms(5)] assms(3) run
    by (simp add: handler_of_def same_tip_def)
  finally show ?thesis .
qed

text \<open>The dry run keeps no diff; the working set and the spent outputs are the same.\<close>

definition same_view :: "validation_view \<Rightarrow> validation_view \<Rightarrow> bool" where
  "same_view v w = (fst v = fst w \<and> snd (snd v) = snd (snd w))"

lemma same_view_spend: "same_view v w \<Longrightarrow> same_view (validation_spend v i) (validation_spend w i)"
  by (cases v; cases w) (auto simp: same_view_def validation_spend_def Let_def split: option.splits)

lemma same_view_create: "same_view v w \<Longrightarrow> same_view (validation_create v x) (validation_create w x)"
  by (cases v; cases w; cases x) (auto simp: same_view_def validation_create_def)

lemma same_view_foldl:
  assumes "\<And>v w x. same_view v w \<Longrightarrow> same_view (f v x) (f w x)"
  shows "same_view v w \<Longrightarrow> same_view (foldl f v xs) (foldl f w xs)"
proof (induction xs arbitrary: v w)
  case (Cons x xs)
  show ?case by (simp only: foldl.simps) (rule Cons.IH [OF assms [OF Cons.prems]])
qed simp

lemma same_view_tx:
  "same_view v w \<Longrightarrow> same_view (apply_tx_to_validation_available L v tx) (apply_tx_to_validation_available L w tx)"
  unfolding apply_tx_to_validation_available_def
  by (intro same_view_foldl [OF same_view_create] same_view_foldl [OF same_view_spend])

lemma same_view_loop:
  "same_view v w \<Longrightarrow> is_ok (foldE (validate_block_tx L height act chain) (s, v) txs)
     = is_ok (foldE (validate_block_tx L height act chain) (s, w) txs)"
proof (induction txs arbitrary: s v w)
  case (Cons tx txs)
  obtain a d sp where v: "v = (a, d, sp)" by (cases v)
  then obtain d' where w: "w = (a, d', sp)" using Cons.prems by (cases w) (simp add: same_view_def)
  have "same_view (apply_tx_to_validation_available L v tx) (apply_tx_to_validation_available L w tx)"
    by (rule same_view_tx [OF Cons.prems])
  note IH = Cons.IH [OF this, unfolded v w]
  have step: "validate_block_tx L height act chain (s, a, e, sp) tx =
      bindE (validate_transaction L tx height act a (Some chain) (Some sp) s)
        (\<lambda>s'. Inr (s', apply_tx_to_validation_available L (a, e, sp) tx))" for e
    by (simp add: validate_block_tx_def)
  show ?case
    by (cases "validate_transaction L tx height act a (Some chain) (Some sp) s")
      (simp_all add: v w step IH)
qed simp

lemma seed_coinbase_same:
  "fst (seed_coinbase_p2mr_diff L blk (m, created)) = seed_coinbase_outputs L blk m"
proof -
  have "fst (foldl (\<lambda>(available, created) (outpoint, output).
      (available(outpoint \<mapsto> output),
       if is_p2mr_out output then AList.update outpoint output created else created)) (m, created) xs)
    = foldl (\<lambda>m (outpoint, output). m(outpoint \<mapsto> output)) m xs" for xs
    by (induction xs arbitrary: m created) auto
  then show ?thesis
    by (simp add: seed_coinbase_p2mr_diff_def seed_coinbase_outputs_def split: list.split)
qed

lemma validate_block_agrees:
  "is_ok (validate_block_transactions L blk height act chain budget)
    = is_ok (validate_and_diff_block_transactions L blk height act chain Map.empty budget)"
proof (cases "is_active act height")
  case True
  have view: "same_view (seed_coinbase_outputs L blk chain, None, {}) (initial_view L blk chain Map.empty)"
    using seed_coinbase_same [of L blk chain "[]"]
    by (auto simp: same_view_def initial_view_def fill_extra_def split: prod.splits)
  have bind: "is_ok (bindE m (\<lambda>_. Inr ())) = is_ok m" "is_ok (bindE m (\<lambda>(_, _, d, _). Inr (f d))) = is_ok m"
    for m :: "pqc_validation_error + pqc_state \<times> validation_view" and f :: "p2mr_diff option \<Rightarrow> p2mr_diff"
    by (cases m; auto)+
  show ?thesis
    using same_view_loop [OF view] True
    by (simp add: validate_block_transactions_def validate_and_diff_block_transactions_def bind)
qed (simp add: validate_block_transactions_def validate_and_diff_block_transactions_def)

lemma resolve_vins_wanted:
  "dom m \<subseteq> wanted \<Longrightarrow> dom (foldl (resolve_vin S wanted) m vins) \<subseteq> wanted"
proof (induction vins arbitrary: m)
  case (Cons vin vins)
  have "dom (resolve_vin S wanted m vin) \<subseteq> wanted"
    using Cons.prems by (auto simp: resolve_vin_eq split: option.splits)
  then show ?case by (simp add: Cons.IH)
qed simp

lemma prefetch_wanted:
  "dom (prefetch_external_prevouts L S V blk) \<subseteq> external_prevouts L (db_p2mr_utxos (vd_dbs V)) blk"
  using resolve_vins_wanted [of Map.empty]
  by (auto simp: prefetch_external_prevouts_def wanted_prevouts_eq Let_def fetch_prevouts_getblock_v3_def
      foldl_concat split: if_splits option.splits)

lemma put_header_frame:
  "\<exists>hm tm. put_headers L [(hdr, n)] D = D\<lparr>db_header := hm, db_height := tm\<rparr>
     \<and> (\<forall>h. h \<noteq> header_block_hash L hdr \<longrightarrow> hm h = db_header D h)"
proof -
  obtain tm where "put_headers L [(hdr, n)] D
      = D\<lparr>db_header := (db_header D)(header_block_hash L hdr \<mapsto> hdr), db_height := tm\<rparr>"
    by (cases "hdr_prev_blockhash hdr = all_zeros") (auto simp: put_headers_def put_header_def Let_def)
  then show ?thesis
    by (intro exI [of _ "(db_header D)(header_block_hash L hdr \<mapsto> hdr)"] exI [of _ tm]) simp
qed

lemma store_header_frame:
  assumes "store_header L b D = Inr D'"
  shows "\<exists>hm tm. D' = D\<lparr>db_header := hm, db_height := tm\<rparr> \<and> (\<forall>h. h \<noteq> block_hash_of L b \<longrightarrow> hm h = db_header D h)"
  using store_header_ok [OF assms]
proof (elim disjE exE conjE)
  assume "D' = D"
  then show ?thesis by (intro exI [of _ "db_header D"] exI [of _ "db_height D"]) simp
next
  fix height assume "D' = put_headers L [(blk_header b, height)] D"
  then show ?thesis using put_header_frame [of L "blk_header b" height D] by simp
qed

text \<open>Where the outputs of a replayed chain come from.\<close>

definition created_outputs :: "libs \<Rightarrow> block list \<Rightarrow> (out_point \<times> tx_out) set" where
  "created_outputs L bs = (\<Union>b \<in> set bs. \<Union>tx \<in> set (blk_txdata b). set (tx_outpoints L tx))"

lemma replay_input_from: "Map.graph m \<subseteq> S \<Longrightarrow> Map.graph (replay_input m i) \<subseteq> S"
  by (auto simp: replay_input_def Map.graph_def split: if_splits)

lemma replay_output_from: "Map.graph m \<subseteq> S \<Longrightarrow> x \<in> S \<Longrightarrow> Map.graph (replay_output m x) \<subseteq> S"
  by (auto simp: replay_output_def Map.graph_def split: prod.splits if_splits)

lemma replay_tx_from:
  "Map.graph m \<subseteq> S \<Longrightarrow> set (tx_outpoints L tx) \<subseteq> S \<Longrightarrow> Map.graph (replay_tx L m tx) \<subseteq> S"
  unfolding replay_tx_def
  by (intro foldl_invariant [where P = "\<lambda>m. Map.graph m \<subseteq> S"] replay_input_from replay_output_from) auto

lemma replay_chain_from: "Map.graph (replay_chain L bs) \<subseteq> created_outputs L bs"
proof (induction bs)
  case (Cons b bs)
  have "Map.graph (replay_block L (replay_chain L bs) b) \<subseteq> created_outputs L (b # bs)"
    unfolding replay_block_def
  proof (rule foldl_invariant [where P = "\<lambda>m. Map.graph m \<subseteq> created_outputs L (b # bs)"])
    show "Map.graph (replay_chain L bs) \<subseteq> created_outputs L (b # bs)"
      using Cons.IH by (auto simp: created_outputs_def)
  next
    fix m tx assume "Map.graph m \<subseteq> created_outputs L (b # bs)" "tx \<in> set (blk_txdata b)"
    then show "Map.graph (replay_tx L m tx) \<subseteq> created_outputs L (b # bs)"
      by (intro replay_tx_from) (auto simp: created_outputs_def)
  qed
  then show ?case by simp
qed simp

section \<open>Properties\<close>


text \<open>
  C11: everything stored is a P2MR output of the chain: in every state of the enforcer each entry of
  the P2MR set was created, under exactly this outpoint, by a transaction of a block of the accepted
  chain, and its script is \<open>OP_2\<close> and a push of a 32-byte Merkle root, which the output check
  returns, so a later spend never fails on the form of the stored script.
\<close>
theorem stored_outputs_well_formed:
  assumes "enforcer_run L V bs" and "db_p2mr_utxos (vd_dbs V) outpoint = Some out"
  shows "(\<exists>b \<in> set bs. \<exists>tx \<in> set (blk_txdata b). (outpoint, out) \<in> set (tx_outpoints L tx))
    \<and> (\<exists>root. length root = 32 \<and> txo_script_pubkey out = [0x52, 0x20] @ root
         \<and> validate_p2mr_output (txo_script_pubkey out) = Inr root)"
proof -
  have stored: "replay_chain L bs outpoint = Some out"
    using enforcer_run_node [OF assms(1)] node_run_inv [of L "vd_dbs V" bs] assms(2) by (simp add: tracks_def)
  then have "(outpoint, out) \<in> created_outputs L bs"
    using replay_chain_from [of L bs] by (auto simp: Map.graph_def)
  moreover have "is_p2mr_script (txo_script_pubkey out)"
    using p2mr_set_chain [of L bs] stored by (auto simp: p2mr_set_def is_p2mr_out_def ran_def)
  then obtain root where "length root = 32" "txo_script_pubkey out = p2mr_script root"
    by (auto simp: is_p2mr_script_iff)
  ultimately show ?thesis
    using validate_p2mr_output_iff [of "txo_script_pubkey out" root]
    by (auto simp: created_outputs_def p2mr_script_def)
qed

text \<open>
  C14: a block that the enforcer does not accept changes nothing but header storage: when
  connecting ends in a rejection or in a fatal error, no event is broadcast, and the databases
  differ at most in heights and in the header stored under the block's own hash; after a fatal
  error they do not differ at all.
\<close>
theorem enforcer_rejection_keeps_state:
  assumes "enforcer_connect_block L S b V = (r, V')" and "\<nexists>txids. r = Inr (AcceptBlock txids)"
  shows "(\<exists>hm tm. V' = V\<lparr>vd_dbs := (vd_dbs V)\<lparr>db_header := hm, db_height := tm\<rparr>\<rparr>
       \<and> (\<forall>h. h \<noteq> block_hash_of L b \<longrightarrow> hm h = db_header (vd_dbs V) h))
    \<and> (is_ok r \<or> V' = V)"
proof -
  have same: "\<exists>hm tm. V = V\<lparr>vd_dbs := (vd_dbs V)\<lparr>db_header := hm, db_height := tm\<rparr>\<rparr>
       \<and> (\<forall>h. h \<noteq> block_hash_of L b \<longrightarrow> hm h = db_header (vd_dbs V) h)"
    by (intro exI [of _ "db_header (vd_dbs V)"] exI [of _ "db_height (vd_dbs V)"]) simp
  have "connect_block_commit L b (prefetch_external_prevouts L S V b) V = (r, V')"
    using assms(1) by (simp add: enforcer_connect_block_def)
  then show ?thesis
  proof (cases rule: connect_commit_cases)
    case (reject D e D')
    then show ?thesis using store_header_frame [OF reject(1)] by auto
  qed (use assms(2) same in auto)
qed



subsection \<open>A concrete run of the enforcer\<close>

definition demo_validator :: validator where
  "demo_validator = \<lparr>vd_dbs = dbs_new, vd_events_tx = [], vd_header_sync_progress = None,
     vd_activation_height = 0, vd_pqc_verify_budget_ms = 100\<rparr>"

text \<open>A node that answers every call with the inputs of one transaction.\<close>

definition demo_vin :: "out_point \<times> tx_out \<Rightarrow> gb_vin" where
  "demo_vin x =
     \<lparr>gv_txid = Some (op_txid (fst x)), gv_vout = Some (op_vout (fst x)),
      gv_prevout = Some \<lparr>gp_value = txo_value (snd x),
        gp_hex = map (\<lambda>b. char_of (unat b)) (txo_script_pubkey (snd x))\<rparr>\<rparr>"

definition demo_service :: "(out_point \<times> tx_out) list \<Rightarrow> prevout_service" where
  "demo_service prevouts =
     \<lparr>ps_getblock_v3 = (\<lambda>_. Some [[], map demo_vin prevouts]),
      ps_amount_from_btc = (\<lambda>v. Some v),
      ps_hex_decode = (\<lambda>s. Some (map (\<lambda>c. word_of_nat (of_char c)) s))\<rparr>"

lemma demo_vin_prevout [simp]: "vin_prevout (demo_service ps) (demo_vin x) = Some x"
proof -
  have "map (\<lambda>c. word_of_nat (of_char c)) (map (\<lambda>b. char_of (unat b)) bs) = (bs :: bytes)" for bs
    using hex_roundtrip [of bs] by simp
  then show ?thesis by (cases x) (simp add: vin_prevout_def demo_service_def demo_vin_def)
qed

lemma demo_no_vault: "\<not> input_reveals_vault_leaf sample_libs (demo_sigs @ [demo_leaf, [0xc1]])"
  by (simp add: input_reveals_vault_leaf_def detect_enforced_leaf_def strip_annex_def
      sample_control_block_def ANNEX_PREFIX_def)

lemma genesis_driver: "driver_block sample_libs demo_validator extra [] genesis" if "extra = Map.empty" for extra
proof -
  have "no_collision sample_libs dbs_new [(blk_header genesis, 0)]"
    by (simp add: no_collision_def dbs_new_def)
  then show ?thesis
    using that genesis_admissible demo_hashes(1)
    by (simp add: driver_block_def demo_validator_def handler_of_def demo_handler_def admissible_def
        demo_dbs_headers(5) dbs_new_def del: sample_libs_sel replicate.simps)
qed

lemma genesis_prefetch: "prefetch_external_prevouts L S V genesis = Map.empty"
  by (simp add: prefetch_external_prevouts_def wanted_prevouts_def genesis_def)

lemma genesis_valid:
  "is_ok (validate_and_diff_block_transactions sample_libs genesis 0 0 Map.empty Map.empty 100)"
  by (simp add: validate_and_diff_block_transactions_def is_active_def genesis_def split: prod.splits)

definition demo_validator1 :: validator where
  "demo_validator1 = snd (enforcer_connect_block sample_libs (demo_service []) genesis demo_validator)"

lemma demo_validator_sel:
  "vd_dbs demo_validator = dbs_new" "vd_events_tx demo_validator = []"
  "vd_activation_height demo_validator = 0" "vd_pqc_verify_budget_ms demo_validator = 100"
  by (simp_all add: demo_validator_def)

lemma genesis_txs: "blk_txdata genesis = [genesis_coinbase]"
  and genesis_parent: "hdr_prev_blockhash (blk_header genesis) = parent_hash L []"
  by (simp_all add: genesis_def sample_header_def parent_hash_def)

lemma demo_accept1:
  "enforcer_connect_block sample_libs (demo_service []) genesis demo_validator = (Inr (AcceptBlock {}), demo_validator1)"
proof -
  have "node_run sample_libs (vd_dbs demo_validator) []"
    by (simp add: demo_validator_sel node_run.start)
  from connect_commit_iff [OF this genesis_driver [OF refl] genesis_parent _ genesis_txs]
  have "\<exists>V'. connect_block_commit sample_libs genesis Map.empty demo_validator = (Inr (AcceptBlock {}), V')"
    using genesis_valid by (simp add: demo_validator_sel contains_header_def dbs_new_def next_height_def)
  then show ?thesis
    by (auto simp: demo_validator1_def enforcer_connect_block_def genesis_prefetch)
qed

text \<open>The state after the first block: its header is known, the second block's is not.\<close>

lemma demo_validator1:
  "enforcer_run sample_libs demo_validator1 [genesis]"
  "db_header (vd_dbs demo_validator1) = [2 # replicate 31 0 \<mapsto> blk_header genesis]"
  "vd_activation_height demo_validator1 = 0" "vd_pqc_verify_budget_ms demo_validator1 = 100"
proof -
  have V0: "enforcer_run sample_libs demo_validator []"
    by (rule enforcer_run.start) (simp_all add: demo_validator_sel)
  from enforcer_run.connect [OF V0 _ demo_accept1]
  show "enforcer_run sample_libs demo_validator1 [genesis]"
    by (simp add: genesis_prefetch genesis_driver)
  have call: "connect_block_commit sample_libs genesis Map.empty demo_validator = (Inr (AcceptBlock {}), demo_validator1)"
    using demo_accept1 by (simp add: enforcer_connect_block_def genesis_prefetch)
  have "db_header (vd_dbs demo_validator1) = [2 # replicate 31 0 \<mapsto> blk_header genesis]
    \<and> vd_activation_height demo_validator1 = 0 \<and> vd_pqc_verify_budget_ms demo_validator1 = 100"
    using call
  proof (cases rule: connect_commit_cases)
    case (accept D event D')
    have "db_header D = [block_hash_of sample_libs genesis \<mapsto> blk_header genesis]"
      using store_header_ok [OF accept(1)]
      by (auto simp: demo_validator_sel contains_header_def dbs_new_def put_headers_def put_header_def Let_def
          simp del: sample_libs_sel)
    then show ?thesis
      using connect_keeps_headers [OF accept(2)] demo_hashes(1) unfolding accept(4)
      by (simp add: demo_validator_sel del: sample_libs_sel replicate.simps)
  qed simp_all
  then show "db_header (vd_dbs demo_validator1) = [2 # replicate 31 0 \<mapsto> blk_header genesis]"
    "vd_activation_height demo_validator1 = 0" "vd_pqc_verify_budget_ms demo_validator1 = 100"
    by simp_all
qed

lemma demo_utxos1: "db_p2mr_utxos (vd_dbs demo_validator1) = replay_chain sample_libs [genesis]"
  using enforcer_run_node [OF demo_validator1(1)] node_run_inv by (fastforce simp: tracks_def)

lemma second_driver: "driver_block sample_libs demo_validator1 Map.empty [genesis] second_block"
proof -
  have "no_collision sample_libs (vd_dbs demo_validator1) [(blk_header second_block, 0)]"
    using demo_hashes demo_validator1(2)
    by (auto simp: no_collision_def simp del: sample_libs_sel replicate.simps)
  then show ?thesis
    using second_admissible demo_hashes(2) demo_utxos1 demo_validator1(3,4)
    by (simp add: driver_block_def handler_of_def demo_handler_def admissible_def demo_state1(5)
        del: sample_libs_sel replicate.simps replay_chain.simps)
qed

lemma second_external: "external_prevouts sample_libs chain second_block = {}"
proof -
  have "\<not> needs_prevouts sample_libs chain (demo_tx 2 [])"
    using demo_no_vault demo_node_inputs(3) by (simp add: needs_prevouts_def sample_in_def)
  then show ?thesis by (auto simp: external_prevouts_def second_block_def)
qed

lemma second_facts:
  "hdr_prev_blockhash (blk_header second_block) = parent_hash sample_libs [genesis]"
  "\<not> contains_header (vd_dbs demo_validator1) (block_hash_of sample_libs second_block)"
  "\<exists>cb txs. blk_txdata second_block = cb # txs"
proof -
  have "parent_hash sample_libs [genesis] = 2 # replicate 31 0"
    using demo_hashes(1) by (simp add: parent_hash_def del: sample_libs_sel replicate.simps)
  then show "hdr_prev_blockhash (blk_header second_block) = parent_hash sample_libs [genesis]"
    by (simp add: second_block_def sample_header_def)
  show "\<not> contains_header (vd_dbs demo_validator1) (block_hash_of sample_libs second_block)"
    using demo_hashes(2) demo_validator1(2)
    by (simp add: contains_header_def del: sample_libs_sel replicate.simps)
  show "\<exists>cb txs. blk_txdata second_block = cb # txs" by (simp add: second_block_def)
qed



theorem stored_outputs_well_formed_witness:
  "\<exists>root. length root = 32 \<and> txo_script_pubkey demo_prevout = [0x52, 0x20] @ root"
proof -
  have "db_p2mr_utxos (vd_dbs demo_validator1) \<lparr>op_txid = 2 # replicate 31 0, op_vout = 0\<rparr> = Some demo_prevout"
    by (simp add: demo_utxos1 genesis_chain del: replay_chain.simps replicate.simps)
  from stored_outputs_well_formed [OF demo_validator1(1) this] show ?thesis by blast
qed

text \<open>The second block before the first: its parent is unknown.\<close>

theorem enforcer_rejection_keeps_state_witness:
  "\<exists>V. enforcer_connect_block sample_libs (demo_service []) second_block demo_validator = (Inr RejectBlock, V)
    \<and> db_p2mr_utxos (vd_dbs V) = Map.empty \<and> vd_events_tx V = []"
proof -
  have prev: "hdr_prev_blockhash (blk_header second_block) \<noteq> all_zeros"
    using demo_not_zeros [of 2] by (simp add: second_block_def sample_header_def)
  have call: "enforcer_connect_block sample_libs (demo_service []) second_block demo_validator
      = (Inr RejectBlock, demo_validator)"
    using prev
    by (simp add: enforcer_connect_block_def connect_block_commit_def connect_block_no_commit_def
        store_header_def demo_validator_sel contains_header_def dbs_new_def Let_def)
  from enforcer_rejection_keeps_state [OF this]
  have "\<exists>hm tm. demo_validator = demo_validator\<lparr>vd_dbs := (vd_dbs demo_validator)\<lparr>db_header := hm, db_height := tm\<rparr>\<rparr>"
    by blast
  then show ?thesis using call by (auto simp: demo_validator_sel dbs_new_def)
qed

text \<open>A spend of a stored P2MR output with a co-input of another kind.\<close>

definition coinput_block :: block where
  "coinput_block = \<lparr>blk_header = sample_header (2 # replicate 31 0) 9,
     blk_txdata = [sample_tx 60 [sample_in 0xff 0xffffffff 0 []] [], demo_tx 2 [sample_in 5 1 0 []]]\<rparr>"

definition coinput_outputs :: "(out_point \<times> tx_out) list" where
  "coinput_outputs =
     [(\<lparr>op_txid = 2 # replicate 31 0, op_vout = 0\<rparr>, demo_prevout),
      (\<lparr>op_txid = 5 # replicate 31 0, op_vout = 1\<rparr>, sample_out 1000 [0x51])]"


end
