(* ===== verification/Queries.thy ===== *)
theory Queries
  imports Enforcer "HOL-Library.Multiset" "HOL-Library.List_Lexorder" "HOL-Library.Product_Lexorder"
begin

text \<open>
  The read side of the validator (\<open>lib/validator/mod.rs\<close>, \<open>sync_state_summary.rs\<close>), the schema
  marker of the database directory (\<open>dbs/mod.rs\<close>) and the mapping of the node's REST headers
  (\<open>main_rest_client.rs\<close>). A database iteration or a hash map iteration has an order that the
  code does not choose; it is the argument \<open>entries\<close>.
\<close>

section \<open>Tip, headers, blocks\<close>

definition try_get_mainchain_tip :: "dbs \<Rightarrow> bytes option" where
  "try_get_mainchain_tip D = db_tip D"

definition get_mainchain_tip :: "dbs \<Rightarrow> db_error + bytes" where
  "get_mainchain_tip D = ok_or (db_tip D) DbMissingValue"

text \<open>The loop over the tail of the header infos; it stops at the first block that is not stored.\<close>

fun block_infos_loop :: "dbs \<Rightarrow> header_info list \<Rightarrow> (header_info \<times> block_info) list" where
  "block_infos_loop D [] = []"
| "block_infos_loop D (header_info # rest) =
     (case try_get_block_info D (hi_block_hash header_info) of
        Some info \<Rightarrow> (header_info, info) # block_infos_loop D rest
      | None \<Rightarrow> [])"

definition try_get_block_infos ::
  "libs \<Rightarrow> dbs \<Rightarrow> bytes \<Rightarrow> nat \<Rightarrow> header_info_error + (header_info \<times> block_info) list option" where
  "try_get_block_infos L D block_hash max_ancestors =
     bindE (try_get_header_infos L D block_hash max_ancestors) (\<lambda>infos.
       case infos of
         None \<Rightarrow> Inr None
       | Some header_infos \<Rightarrow>
           (case try_get_block_info D block_hash of
              None \<Rightarrow> Inr None
            | Some info \<Rightarrow>
                Inr (Some ((hd header_infos, info) # block_infos_loop D (tl header_infos)))))"

text \<open>\<open>MissingHeaderBlock\<close> is the last error.\<close>

definition get_block_infos ::
  "libs \<Rightarrow> dbs \<Rightarrow> bytes \<Rightarrow> nat \<Rightarrow> header_info_error + (header_info \<times> block_info) list" where
  "get_block_infos L D block_hash max_ancestors =
     bindE (try_get_block_infos L D block_hash max_ancestors) (\<lambda>res.
       ok_or res (HeaderInfoMissing block_hash))"

text \<open>\<open>entries\<close> is the iteration of the height database; the sort is stable.\<close>

definition list_headers :: "(bytes \<times> u32) list \<Rightarrow> u32 \<Rightarrow> (u32 \<times> bytes) list" where
  "list_headers entries start_height =
     sort_key fst (map (\<lambda>(block_hash, height). (height, block_hash))
       (filter (\<lambda>(_, height). height \<ge> start_height) entries))"

section \<open>The P2MR set\<close>

definition p2mr_utxos :: "dbs \<Rightarrow> utxo_map" where
  "p2mr_utxos D = db_p2mr_utxos D"

definition get_p2mr_utxo :: "dbs \<Rightarrow> out_point \<Rightarrow> tx_out option" where
  "get_p2mr_utxo D outpoint = p2mr_utxos D outpoint"

section \<open>The state summary\<close>

text \<open>\<open>hex::encode\<close>.\<close>

definition hex_digit :: "nat \<Rightarrow> char" where
  "hex_digit n = (if n < 10 then char_of (48 + n) else char_of (87 + n))"

definition hex_encode :: "bytes \<Rightarrow> string" where
  "hex_encode bs = concat (map (\<lambda>b. [hex_digit (unat b div 16), hex_digit (unat b mod 16)]) bs)"

record p2mr_utxo_summary =
  us_outpoint :: out_point
  us_value_sats :: u64
  us_script_pubkey_hex :: string

record sync_state_summary =
  ss_tip_hash :: bytes
  ss_tip_height :: u32
  ss_p2mr_utxos :: "p2mr_utxo_summary list"

datatype summary_error = SummaryDb db_error | NotSynced

definition utxo_summary :: "out_point \<times> tx_out \<Rightarrow> p2mr_utxo_summary" where
  "utxo_summary x =
     (case x of (outpoint, txout) \<Rightarrow>
        \<lparr>us_outpoint = outpoint, us_value_sats = txo_value txout,
         us_script_pubkey_hex = hex_encode (txo_script_pubkey txout)\<rparr>)"

definition summary_key :: "p2mr_utxo_summary \<Rightarrow> bytes \<times> u32" where
  "summary_key u = (op_txid (us_outpoint u), op_vout (us_outpoint u))"

definition sync_state_summary_of ::
  "(out_point \<times> tx_out) list \<Rightarrow> dbs \<Rightarrow> summary_error + sync_state_summary" where
  "sync_state_summary_of entries D =
     bindE (mapErr SummaryDb (get_mainchain_tip D)) (\<lambda>tip_hash.
     bindE (mapErr SummaryDb (try_get_block_height D)) (\<lambda>height.
     bindE (ok_or height NotSynced) (\<lambda>tip_height.
     Inr \<lparr>ss_tip_hash = tip_hash, ss_tip_height = tip_height,
          ss_p2mr_utxos = sort_key summary_key (map utxo_summary entries)\<rparr>)))"

text \<open>\<open>digest\<close>, with \<open>serde_json::to_string_pretty\<close> as \<open>json\<close>.\<close>

definition summary_digest :: "libs \<Rightarrow> (sync_state_summary \<Rightarrow> bytes) \<Rightarrow> sync_state_summary \<Rightarrow> string" where
  "summary_digest L json s = hex_encode (sha256_hash L (json s))"

section \<open>The schema marker\<close>

text \<open>What reading the file \<open>db_version\<close> gives, and whether \<open>data.mdb\<close> exists.\<close>

datatype version_file = VersionNotFound | VersionUnreadable | VersionContents string

record db_dir =
  dd_has_data :: bool
  dd_version :: version_file
  dd_writable :: bool

datatype create_dbs_error = IncompatibleSchema u32 | ReadVersion | WriteVersion

definition DB_VERSION :: u32 where "DB_VERSION = 2"

text \<open>\<open>str::trim\<close> on ASCII contents.\<close>

definition is_space :: "char \<Rightarrow> bool" where
  "is_space c = (c = CHR 0x20 \<or> 9 \<le> (of_char c :: nat) \<and> of_char c \<le> (13 :: nat))"

definition trim :: "string \<Rightarrow> string" where
  "trim s = rev (dropWhile is_space (rev (dropWhile is_space s)))"

text \<open>\<open>u32::from_str\<close>: an optional plus sign, at least one digit, no overflow.\<close>

definition is_digit :: "char \<Rightarrow> bool" where
  "is_digit c = (48 \<le> (of_char c :: nat) \<and> of_char c \<le> (57 :: nat))"

definition digits_value :: "string \<Rightarrow> nat" where
  "digits_value s = foldl (\<lambda>n c. 10 * n + (of_char c - 48)) 0 s"

definition parse_u32 :: "string \<Rightarrow> u32 option" where
  "parse_u32 s =
     (let digits = (case s of CHR ''+'' # rest \<Rightarrow> rest | _ \<Rightarrow> s) in
      if digits \<noteq> [] \<and> list_all is_digit digits \<and> digits_value digits < 2 ^ 32
      then Some (word_of_nat (digits_value digits)) else None)"

definition check_or_stamp_db_version :: "db_dir \<Rightarrow> (create_dbs_error + unit) \<times> db_dir" where
  "check_or_stamp_db_version dir =
     (let found = (case dd_version dir of
            VersionContents contents \<Rightarrow> Inr (parse_u32 (trim contents))
          | VersionNotFound \<Rightarrow> Inr None
          | VersionUnreadable \<Rightarrow> Inl ReadVersion) in
      case found of
        Inl e \<Rightarrow> (Inl e, dir)
      | Inr (Some version) \<Rightarrow>
          (if version = DB_VERSION then (Inr (), dir) else (Inl (IncompatibleSchema version), dir))
      | Inr None \<Rightarrow>
          if dd_has_data dir then (Inl (IncompatibleSchema 1), dir)
          else if dd_writable dir then (Inr (), dir\<lparr>dd_version := VersionContents ''2\<newline>''\<rparr>)
          else (Inl WriteVersion, dir))"

section \<open>Headers from the REST service\<close>

record rest_header =
  rh_hash :: bytes
  rh_height :: u32
  rh_version :: u32
  rh_previousblockhash :: "bytes option"
  rh_merkleroot :: bytes
  rh_time :: u32
  rh_bits :: string
  rh_nonce :: u32

text \<open>
  The conversion of one header; the panic of \<open>from_unprefixed_hex(..).unwrap()\<close> is \<open>None\<close>.
\<close>

definition header_of_rest :: "(string \<Rightarrow> u32 option) \<Rightarrow> rest_header \<Rightarrow> (header \<times> bytes \<times> u32) option" where
  "header_of_rest from_unprefixed_hex rh =
     Option.bind (from_unprefixed_hex (rh_bits rh)) (\<lambda>bits.
       Some (\<lparr>hdr_version = rh_version rh,
              hdr_prev_blockhash = (case rh_previousblockhash rh of Some h \<Rightarrow> h | None \<Rightarrow> all_zeros),
              hdr_merkle_root = rh_merkleroot rh, hdr_time = rh_time rh, hdr_bits = bits,
              hdr_nonce = rh_nonce rh\<rparr>, rh_hash rh, rh_height rh))"

datatype rest_error = RestServerNotReachable | RestServerNotEnabled | RestHttp

text \<open>The answer to one request: a failure to connect or to send, or a status and a body.\<close>

datatype 'a rest_response = ConnectFailed | SendFailed | Response nat "'a option"

definition do_request :: "'a rest_response \<Rightarrow> rest_error + 'a" where
  "do_request r =
     (case r of
        ConnectFailed \<Rightarrow> Inl RestServerNotReachable
      | SendFailed \<Rightarrow> Inl RestHttp
      | Response status body \<Rightarrow>
          if status = 404 then Inl RestServerNotEnabled
          else if \<not> (200 \<le> status \<and> status < 300) then Inl RestHttp
          else ok_or body RestHttp)"

fun headers_of_rest :: "(string \<Rightarrow> u32 option) \<Rightarrow> rest_header list \<Rightarrow> (header \<times> bytes \<times> u32) list option" where
  "headers_of_rest f [] = Some []"
| "headers_of_rest f (rh # rest) =
     Option.bind (header_of_rest f rh) (\<lambda>h. Option.bind (headers_of_rest f rest) (\<lambda>hs. Some (h # hs)))"

text \<open>\<open>get_block_headers\<close>; \<open>None\<close> is the panic.\<close>

definition rest_block_headers ::
  "(string \<Rightarrow> u32 option) \<Rightarrow> rest_header list rest_response
    \<Rightarrow> (rest_error + (header \<times> bytes \<times> u32) list) option" where
  "rest_block_headers f response =
     (case do_request response of
        Inl e \<Rightarrow> Some (Inl e)
      | Inr headers \<Rightarrow> Option.bind (headers_of_rest f headers) (\<lambda>hs. Some (Inr hs)))"

section \<open>What the queries return\<close>

text \<open>The coinbase of every connected block is recorded.\<close>

definition coinbases_ok :: "libs \<Rightarrow> dbs \<Rightarrow> block list \<Rightarrow> bool" where
  "coinbases_ok L D bs =
     (\<forall>b \<in> set bs. blk_txdata b \<noteq> []
        \<and> db_coinbase_txid D (block_hash_of L b) = Some (compute_txid L (hd (blk_txdata b))))"

lemma put_headers_frame:
  "\<exists>hm tm. put_headers L hs D = D\<lparr>db_header := hm, db_height := tm\<rparr>"
proof (induction hs arbitrary: D)
  case Nil
  show ?case by (intro exI [of _ "db_header D"] exI [of _ "db_height D"]) (simp add: put_headers_def)
next
  case (Cons x hs)
  obtain hdr n where x: "x = (hdr, n)" by (cases x)
  have cons: "put_headers L (x # hs) D = put_headers L hs (put_headers L [(hdr, n)] D)"
    by (simp add: put_headers_def x)
  obtain hm tm where h1: "put_headers L [(hdr, n)] D = D\<lparr>db_header := hm, db_height := tm\<rparr>"
    using put_header_frame by blast
  show ?case
    using Cons.IH [of "D\<lparr>db_header := hm, db_height := tm\<rparr>"] unfolding cons h1 by simp
qed

lemma coinbases_ok_run: "node_run L D bs \<Longrightarrow> coinbases_ok L D bs"
proof (induction rule: node_run.induct)
  case start
  then show ?case by (simp add: coinbases_ok_def)
next
  case (headers D bs hs)
  obtain hm tm where "put_headers L hs D = D\<lparr>db_header := hm, db_height := tm\<rparr>"
    using put_headers_frame by blast
  then show ?case using headers.IH by (simp add: coinbases_ok_def)
next
  case (connect D bs H b ev D')
  obtain coinbase txs d u w where txs: "blk_txdata b = coinbase # txs"
    and upd: "update_tip (block_hash_of L b) (stored_block (block_hash_of L b) (compute_txid L coinbase) d u w D)
        = (Inr (), D')"
    using connect_block_ok [OF connect.hyps(3)] by blast
  have "db_coinbase_txid D' = (db_coinbase_txid D)(block_hash_of L b \<mapsto> compute_txid L coinbase)"
    using update_tip_same [OF upd] by (simp add: same_blocks_def stored_block_def)
  moreover have "\<forall>c \<in> set bs. block_hash_of L c \<noteq> block_hash_of L b"
    using connect.hyps(2) unfolding admissible_def image_iff by metis
  ultimately show ?case
    using connect.IH txs by (simp add: coinbases_ok_def)
next
  case (reject D bs H b e D')
  then show ?case using connect_block_nonfatal by blast
next
  case (disconnect D bs h ev D')
  have "set (if ev = None then bs else tl bs) \<subseteq> set bs"
    by (cases bs) auto
  then show ?case
    using disconnect.IH disconnect_same [OF disconnect.hyps(3)]
    by (auto simp: coinbases_ok_def same_blocks_def)
qed

text \<open>What is reported of a connected block.\<close>

definition block_header_info :: "libs \<Rightarrow> dbs \<Rightarrow> block \<Rightarrow> header_info" where
  "block_header_info L D b =
     \<lparr>hi_block_hash = block_hash_of L b, hi_prev_block_hash = hdr_prev_blockhash (blk_header b),
      hi_height = the (db_height D (block_hash_of L b)), hi_work = header_work L (blk_header b),
      hi_timestamp = hdr_time (blk_header b)\<rparr>"

definition block_coinbase_info :: "libs \<Rightarrow> block \<Rightarrow> block_info" where
  "block_coinbase_info L b = \<lparr>bi_coinbase_txid = compute_txid L (hd (blk_txdata b))\<rparr>"

lemma header_info_stored:
  assumes "stored_chain L D (b # bs)"
  shows "try_get_header_info L D (block_hash_of L b) = Inr (Some (block_header_info L D b))"
    and "hi_prev_block_hash (block_header_info L D b) = parent_hash L bs"
  using assms by (auto simp: try_get_header_info_def block_header_info_def Let_def)

lemma header_infos_loop_stored:
  "stored_chain L D bs \<Longrightarrow> header_infos_loop L D n (parent_hash L bs) = Inr (map (block_header_info L D) (take n bs))"
proof (induction bs arbitrary: n)
  case Nil
  show ?case by (cases n) (simp_all add: parent_hash_def)
next
  case (Cons b bs)
  have "block_hash_of L b \<noteq> all_zeros" "stored_chain L D bs"
    using Cons.prems by (simp_all add: Let_def)
  then show ?case
    using header_info_stored [OF Cons.prems] Cons.IH
    by (cases n) (simp_all add: parent_hash_def [of L "b # bs"])
qed

lemma block_infos_loop_stored:
  "coinbases_ok L D bs \<Longrightarrow>
   block_infos_loop D (map (block_header_info L D) bs) = map (\<lambda>b. (block_header_info L D b, block_coinbase_info L b)) bs"
  by (induction bs)
    (simp_all add: coinbases_ok_def try_get_block_info_def block_header_info_def block_coinbase_info_def)

lemma stored_chain_drop: "stored_chain L D bs \<Longrightarrow> stored_chain L D (drop n bs)"
proof (induction n arbitrary: bs)
  case (Suc n)
  then show ?case by (cases bs) (auto simp: Let_def)
qed simp

lemma block_infos_stored:
  assumes "stored_chain L D bs" and "coinbases_ok L D bs" and "i < length bs"
  shows "try_get_block_infos L D (block_hash_of L (bs ! i)) n =
    Inr (Some (map (\<lambda>b. (block_header_info L D b, block_coinbase_info L b)) (take (Suc n) (drop i bs))))"
proof -
  obtain rest where d: "drop i bs = bs ! i # rest" using assms(3) by (metis Cons_nth_drop_Suc)
  have stored: "stored_chain L D (bs ! i # rest)"
    using stored_chain_drop [OF assms(1), of i] by (simp only: d)
  then have "stored_chain L D rest" by (simp add: Let_def)
  note loop = header_infos_loop_stored [OF this, of n]
  have sub: "set (take n rest) \<subseteq> set bs"
    using d set_drop_subset [of i bs] set_take_subset [of n rest] by auto
  then have "coinbases_ok L D (take n rest)" using assms(2) by (auto simp: coinbases_ok_def)
  note tail = block_infos_loop_stored [OF this]
  have "try_get_block_info D (block_hash_of L (bs ! i)) = Some (block_coinbase_info L (bs ! i))"
    using assms(2,3) by (simp add: coinbases_ok_def try_get_block_info_def block_coinbase_info_def)
  then show ?thesis
    using header_info_stored [OF stored] loop tail
    by (simp add: try_get_block_infos_def try_get_header_infos_def d)
qed

text \<open>Hex digits are distinct, so encoding loses nothing.\<close>

lemma hex_digit_inj:
  assumes "m < 16" and "n < 16" and "hex_digit m = hex_digit n"
  shows "m = n"
proof -
  have v: "of_char (hex_digit k) = (if k < 10 then 48 + k else 87 + k)" if "k < 16" for k :: nat
    using that by (simp add: hex_digit_def of_char_of)
  have "(if m < 10 then 48 + m else 87 + m) = (if n < 10 then 48 + n else 87 + n)"
    unfolding v [OF assms(1), symmetric] v [OF assms(2), symmetric] assms(3) by (rule refl)
  then show ?thesis by (cases "m < 10"; cases "n < 10") simp_all
qed

lemma hex_encode_inj: "hex_encode xs = hex_encode ys \<longleftrightarrow> xs = ys"
proof
  show "hex_encode xs = hex_encode ys \<Longrightarrow> xs = ys"
  proof (induction xs arbitrary: ys)
    case Nil
    then show ?case by (cases ys) (simp_all add: hex_encode_def)
  next
    case (Cons x xs)
    then obtain y ys' where ys: "ys = y # ys'" by (cases ys) (simp_all add: hex_encode_def)
    have eq: "hex_digit (unat x div 16) = hex_digit (unat y div 16)"
      "hex_digit (unat x mod 16) = hex_digit (unat y mod 16)" "hex_encode xs = hex_encode ys'"
      using Cons.prems by (simp_all add: ys hex_encode_def)
    have "unat x div 16 < 16" "unat y div 16 < 16"
      using unat_byte_less [of x] unat_byte_less [of y] by (simp_all add: less_mult_imp_div_less)
    then have "unat x div 16 = unat y div 16" "unat x mod 16 = unat y mod 16"
      using eq hex_digit_inj by simp_all
    then have "unat x = unat y" by (metis div_mult_mod_eq)
    then have "x = y" by (simp add: word_unat_eq_iff)
    then show ?case using Cons.IH [OF eq(3)] by (simp add: ys)
  qed
qed simp

text \<open>The summary, as a canonical form of the state.\<close>

definition enumerates :: "(out_point \<times> tx_out) list \<Rightarrow> dbs \<Rightarrow> bool" where
  "enumerates entries D = (distinct (map fst entries) \<and> map_of entries = db_p2mr_utxos D)"

lemma summary_key_inj: "distinct (map fst entries) \<Longrightarrow> inj_on summary_key (utxo_summary ` set entries)"
proof (rule inj_onI)
  fix u v assume d: "distinct (map fst entries)" and uv: "u \<in> utxo_summary ` set entries" "v \<in> utxo_summary ` set entries"
    and key: "summary_key u = summary_key v"
  obtain k p l q where u: "u = utxo_summary (k, p)" "(k, p) \<in> set entries"
    and v: "v = utxo_summary (l, q)" "(l, q) \<in> set entries"
    using uv by auto
  have "k = l" using key by (simp add: u v utxo_summary_def summary_key_def)
  then have "p = q" using d u(2) v(2) by (metis eq_key_imp_eq_value)
  then show "u = v" using \<open>k = l\<close> by (simp add: u v)
qed

lemma utxo_summary_inj: "inj utxo_summary"
  by (rule injI) (auto simp: utxo_summary_def hex_encode_inj intro: tx_out.equality)

lemma sort_key_canonical:
  assumes "distinct (map fst xs)" and "distinct (map fst ys)"
  shows "sort_key summary_key (map utxo_summary xs) = sort_key summary_key (map utxo_summary ys)
    \<longleftrightarrow> map_of xs = map_of ys"
proof
  assume "sort_key summary_key (map utxo_summary xs) = sort_key summary_key (map utxo_summary ys)"
  then have "set (sort_key summary_key (map utxo_summary xs)) = set (sort_key summary_key (map utxo_summary ys))"
    by simp
  then have "utxo_summary ` set xs = utxo_summary ` set ys" by simp
  then have "set xs = set ys" using utxo_summary_inj by (simp add: inj_image_eq_iff)
  then show "map_of xs = map_of ys" using assms by (simp add: map_of_inject_set)
next
  assume "map_of xs = map_of ys"
  then have "set xs = set ys" using assms by (simp add: map_of_inject_set)
  moreover have "distinct xs" "distinct ys" using assms by (simp_all add: distinct_map)
  ultimately have "mset xs = mset ys" by (simp add: set_eq_iff_mset_eq_distinct)
  then have "mset (map utxo_summary xs) = mset (map utxo_summary ys)" by simp
  then show "sort_key summary_key (map utxo_summary xs) = sort_key summary_key (map utxo_summary ys)"
    using summary_key_inj [OF assms(1)]
    by (intro sort_key_inj_key_eq) (simp_all flip: \<open>set xs = set ys\<close>)
qed

lemma summary_ok:
  "(sync_state_summary_of entries D = Inr s) =
     (\<exists>tip height. db_tip D = Some tip \<and> db_height D tip = Some height
       \<and> s = \<lparr>ss_tip_hash = tip, ss_tip_height = height,
              ss_p2mr_utxos = sort_key summary_key (map utxo_summary entries)\<rparr>)"
  by (auto simp: sync_state_summary_of_def get_mainchain_tip_def try_get_block_height_def db_get_def
      split: option.splits)

text \<open>The answer of a node to a request for a served header, and its conversion back.\<close>

definition rest_of_header :: "(u32 \<Rightarrow> string) \<Rightarrow> header \<times> bytes \<times> u32 \<Rightarrow> rest_header" where
  "rest_of_header hex x =
     (case x of (hdr, h, height) \<Rightarrow>
        \<lparr>rh_hash = h, rh_height = height, rh_version = hdr_version hdr,
         rh_previousblockhash =
           (if hdr_prev_blockhash hdr = all_zeros then None else Some (hdr_prev_blockhash hdr)),
         rh_merkleroot = hdr_merkle_root hdr, rh_time = hdr_time hdr, rh_bits = hex (hdr_bits hdr),
         rh_nonce = hdr_nonce hdr\<rparr>)"

lemma rest_headers_roundtrip:
  assumes "\<And>bits. from_hex (hex bits) = Some bits"
  shows "rest_block_headers from_hex (Response 200 (Some (map (rest_of_header hex) hs))) = Some (Inr hs)"
proof -
  have "headers_of_rest from_hex (map (rest_of_header hex) hs) = Some hs"
    by (induction hs) (auto simp: header_of_rest_def rest_of_header_def assms)
  then show ?thesis by (simp add: rest_block_headers_def do_request_def)
qed

section \<open>Properties\<close>

text \<open>
  A chain query returns the connected chain: in every reachable state, asking for a connected
  block and up to \<open>n\<close> ancestors returns exactly the block and its next \<open>n\<close> predecessors (fewer at
  genesis), newest first, each with its header data and the txid of its own coinbase.
\<close>
theorem block_infos_follow_chain:
  assumes "node_run L D bs" and "i < length bs"
  shows "try_get_block_infos L D (block_hash_of L (bs ! i)) n =
    Inr (Some (map (\<lambda>b. (block_header_info L D b, block_coinbase_info L b)) (take (Suc n) (drop i bs))))"
  using block_infos_stored [OF _ coinbases_ok_run [OF assms(1)] assms(2)] node_run_inv [OF assms(1)]
  by (simp add: tracks_def)

text \<open>
  The state summary identifies the state: whatever order the two hash maps are iterated in, two
  validators report the same summary if and only if they have the same tip at the same height and
  the same set of P2MR outputs.
\<close>
theorem summary_identifies_state:
  assumes "enumerates entries1 D1" and "enumerates entries2 D2"
    and "sync_state_summary_of entries1 D1 = Inr s1" and "sync_state_summary_of entries2 D2 = Inr s2"
  shows "s1 = s2 \<longleftrightarrow> db_tip D1 = db_tip D2
    \<and> try_get_block_height D1 = try_get_block_height D2 \<and> db_p2mr_utxos D1 = db_p2mr_utxos D2"
proof -
  obtain t1 n1 where s1: "db_tip D1 = Some t1" "db_height D1 t1 = Some n1"
    "s1 = \<lparr>ss_tip_hash = t1, ss_tip_height = n1, ss_p2mr_utxos = sort_key summary_key (map utxo_summary entries1)\<rparr>"
    using assms(3) unfolding summary_ok by blast
  obtain t2 n2 where s2: "db_tip D2 = Some t2" "db_height D2 t2 = Some n2"
    "s2 = \<lparr>ss_tip_hash = t2, ss_tip_height = n2, ss_p2mr_utxos = sort_key summary_key (map utxo_summary entries2)\<rparr>"
    using assms(4) unfolding summary_ok by blast
  have "s1 = s2 \<longleftrightarrow> t1 = t2 \<and> n1 = n2
      \<and> sort_key summary_key (map utxo_summary entries1) = sort_key summary_key (map utxo_summary entries2)"
    by (simp add: s1(3) s2(3))
  also have "\<dots> \<longleftrightarrow> t1 = t2 \<and> n1 = n2 \<and> db_p2mr_utxos D1 = db_p2mr_utxos D2"
    using assms(1,2) sort_key_canonical [of entries1 entries2] by (simp add: enumerates_def)
  finally show ?thesis
    by (auto simp: s1 s2 try_get_block_height_def db_get_def)
qed

text \<open>
  The header list is sorted by height and lists exactly the known headers from the start height on.
\<close>
lemma list_headers_sorted:
  "sorted (map fst (list_headers entries start))
   \<and> set (list_headers entries start) = {(n, h). (h, n) \<in> set entries \<and> start \<le> n}"
  by (auto simp: list_headers_def)

text \<open>
  A database directory is opened once it is stamped: opening succeeds only on a directory with
  the current marker or on a fresh one, which it stamps; after a success, opening succeeds again
  and changes nothing; a directory with data but no readable marker is refused unchanged.
\<close>
theorem db_version_gate:
  assumes "check_or_stamp_db_version dir = (r, dir')"
  shows "(is_ok r \<longrightarrow> check_or_stamp_db_version dir' = (Inr (), dir'))
    \<and> (is_ok r \<longrightarrow> dir' = dir \<or> \<not> dd_has_data dir \<and> dd_version dir' = VersionContents ''2\<newline>'')
    \<and> (\<not> is_ok r \<longrightarrow> dir' = dir)
    \<and> (dd_has_data dir \<and> dd_version dir = VersionNotFound \<longrightarrow> r = Inl (IncompatibleSchema 1))"
proof -
  have stamp: "parse_u32 (trim ''2\<newline>'') = Some DB_VERSION"
    by (simp add: parse_u32_def trim_def is_space_def is_digit_def digits_value_def DB_VERSION_def)
  show ?thesis
    using assms stamp
    by (auto simp: check_or_stamp_db_version_def Let_def split: version_file.splits option.splits if_splits)
qed

subsection \<open>Concrete queries\<close>

theorem block_infos_follow_chain_witness:
  "\<exists>info. try_get_block_infos sample_libs demo_state1 (2 # replicate 31 0) 5
      = Inr (Some [(info, \<lparr>bi_coinbase_txid = 2 # replicate 31 0\<rparr>)])
    \<and> hi_block_hash info = 2 # replicate 31 0"
proof -
  have "compute_txid sample_libs (hd (blk_txdata genesis)) = 2 # replicate 31 0"
    using demo_hash [of 2]
    by (simp add: genesis_def genesis_coinbase_def sample_tx_def flip: numeral_2_eq_2 del: replicate.simps)
  then show ?thesis
    using block_infos_follow_chain [OF demo_state1(2), of 0 5] demo_hashes(1)
    by (simp add: block_header_info_def block_coinbase_info_def del: sample_libs_sel replicate.simps)
qed

text \<open>Two outputs, iterated in either order.\<close>

definition two_outputs :: "(out_point \<times> tx_out) list" where
  "two_outputs =
     [(\<lparr>op_txid = 2 # replicate 31 0, op_vout = 1\<rparr>, demo_prevout),
      (\<lparr>op_txid = 2 # replicate 31 0, op_vout = 0\<rparr>, sample_out 7 [0x52])]"

definition two_outputs_dbs :: dbs where
  "two_outputs_dbs = dbs_new\<lparr>db_tip := Some all_zeros, db_height := [all_zeros \<mapsto> 3],
     db_p2mr_utxos := map_of two_outputs\<rparr>"

theorem summary_identifies_state_witness:
  "sync_state_summary_of (rev two_outputs) two_outputs_dbs = sync_state_summary_of two_outputs two_outputs_dbs"
proof -
  have d: "distinct (map fst two_outputs)" by (simp add: two_outputs_def)
  have e: "enumerates two_outputs two_outputs_dbs" "enumerates (rev two_outputs) two_outputs_dbs"
    using d map_of_inject_set [of "rev two_outputs" two_outputs]
    by (simp_all add: enumerates_def two_outputs_dbs_def rev_map [symmetric])
  have "\<exists>s. sync_state_summary_of entries two_outputs_dbs = Inr s" for entries
    by (simp add: summary_ok two_outputs_dbs_def)
  then obtain s1 s2 where s: "sync_state_summary_of (rev two_outputs) two_outputs_dbs = Inr s1"
    "sync_state_summary_of two_outputs two_outputs_dbs = Inr s2"
    by metis
  then show ?thesis using summary_identifies_state [OF e(2,1) s] by simp
qed

theorem db_version_gate_witness:
  "check_or_stamp_db_version
     (snd (check_or_stamp_db_version \<lparr>dd_has_data = False, dd_version = VersionNotFound, dd_writable = True\<rparr>))
   = (Inr (), \<lparr>dd_has_data = False, dd_version = VersionContents ''2\<newline>'', dd_writable = True\<rparr>)"
proof -
  have "check_or_stamp_db_version \<lparr>dd_has_data = False, dd_version = VersionNotFound, dd_writable = True\<rparr>
      = (Inr (), \<lparr>dd_has_data = False, dd_version = VersionContents ''2\<newline>'', dd_writable = True\<rparr>)"
    by (simp add: check_or_stamp_db_version_def)
  from db_version_gate [OF this] show ?thesis
    by (simp add: \<open>check_or_stamp_db_version _ = _\<close>)
qed

end
