(* ===== verification/Signer.thy ===== *)
theory Signer
  imports Spend
begin

text \<open>
  The wallet's signing side of P2MR (\<open>lib/validator/pqc/signer.rs\<close>): leaf and output construction
  for the four schemes and the building of signed spends. Key generation and signing are the
  record \<open>signing\<close>; the sighash, hashing and versions are those of \<open>libs\<close>. The lemmas show that
  what is signed here is what \<open>spend.rs\<close> accepts.
\<close>

section \<open>Libraries and errors\<close>

text \<open>
  \<open>bitcoinpqc::generate_keypair\<close> and \<open>sign\<close>, and secp256k1's key pairs: a key pair is a public
  and a secret part, as the byte strings that the code handles.
\<close>

record signing =
  sg_generate_keypair :: "pqc_algorithm \<Rightarrow> bytes \<Rightarrow> (bytes \<times> bytes) option"
  sg_sign :: "bytes \<Rightarrow> bytes \<Rightarrow> bytes option"
  sg_ec_keypair :: "bytes \<Rightarrow> (bytes \<times> bytes) option"
  sg_sign_schnorr :: "bytes \<Rightarrow> bytes \<Rightarrow> bytes"

datatype sign_algorithm = SignSchnorr | SignMldsa | SignSlh

text \<open>The error strings; \<open>LeafVersionPanic\<close> is the failing \<open>expect\<close> on the leaf version.\<close>

datatype sign_error =
  EntropyNot32
| EntropyTooShort
| OutputExceedsPrevout u64 u64
| PubkeyNot32 nat
| KeyGenerationFailed
| SighashComputationFailed string
| SigningFailed
| EcEntropyNot32
| SlhEntropyTooShort
| InvalidEcEntropy
| LeafVersionPanic

definition to_bitcoinpqc :: "sign_algorithm \<Rightarrow> pqc_algorithm" where
  "to_bitcoinpqc algorithm =
     (case algorithm of SignSchnorr \<Rightarrow> SECP256K1_SCHNORR | SignMldsa \<Rightarrow> ML_DSA_44
      | SignSlh \<Rightarrow> SLH_DSA_SHA2_128S)"

definition sighash_label :: "tap_sighash_type \<Rightarrow> string" where
  "sighash_label t =
     (case t of SighashDefault \<Rightarrow> ''all'' | SighashAll \<Rightarrow> ''all'' | SighashNone \<Rightarrow> ''none''
      | SighashSingle \<Rightarrow> ''single'' | AllPlusAnyoneCanPay \<Rightarrow> ''all,anyonecanpay''
      | NonePlusAnyoneCanPay \<Rightarrow> ''none,anyonecanpay''
      | SinglePlusAnyoneCanPay \<Rightarrow> ''single,anyonecanpay'')"

definition validate_entropy :: "bytes \<Rightarrow> sign_algorithm \<Rightarrow> sign_error + unit" where
  "validate_entropy entropy algorithm =
     (case algorithm of
        SignSchnorr \<Rightarrow> guardE (length entropy = 32) EntropyNot32
      | _ \<Rightarrow> guardE (\<not> length entropy < 128) EntropyTooShort)"

definition validate_output_value :: "u64 \<Rightarrow> u64 \<Rightarrow> sign_error + unit" where
  "validate_output_value output_value prevout_value =
     guardE (\<not> output_value > prevout_value) (OutputExceedsPrevout output_value prevout_value)"

section \<open>Leaves and outputs\<close>

definition build_checksig_leaf :: "bytes \<Rightarrow> sign_error + bytes" where
  "build_checksig_leaf pubkey =
     (if length pubkey = ML_DSA_44_PUBLIC_KEY_SIZE
      then Inr ([0x4d] @ le_bytes 2 (length pubkey) @ pubkey @ [OP_CHECKSIG])
      else if length pubkey = 32 then Inr ([0x20] @ pubkey @ [OP_CHECKSIG])
      else Inl (PubkeyNot32 (length pubkey)))"

definition single_leaf_merkle_root :: "libs \<Rightarrow> bytes \<Rightarrow> sign_error + bytes" where
  "single_leaf_merkle_root L leaf_script =
     bindE (ok_or (leaf_version_from_consensus L (p2mr_leaf_version L)) LeafVersionPanic) (\<lambda>leaf_version.
       Inr (tap_node_from_script L leaf_script leaf_version))"

definition single_leaf_control_block :: bytes where
  "single_leaf_control_block = [0xc1]"

definition p2mr_script_pubkey :: "bytes \<Rightarrow> bytes" where
  "p2mr_script_pubkey merkle_root = [0x52, 0x20] @ merkle_root"

definition append_sighash :: "libs \<Rightarrow> bytes \<Rightarrow> tap_sighash_type \<Rightarrow> bytes" where
  "append_sighash L sig sighash_type =
     (if sighash_type \<noteq> SighashDefault then sig @ [sighash_to_u8 L sighash_type] else sig)"

definition generate_p2mr_keypair ::
  "signing \<Rightarrow> sign_algorithm \<Rightarrow> bytes \<Rightarrow> sign_error + bytes \<times> bytes" where
  "generate_p2mr_keypair G algorithm entropy =
     bindE (validate_entropy entropy algorithm) (\<lambda>_.
       ok_or (sg_generate_keypair G (to_bitcoinpqc algorithm) entropy) KeyGenerationFailed)"

section \<open>Signed spends\<close>

text \<open>The one-input transaction, and the transaction with the witness set.\<close>

definition unsigned_spend :: "out_point \<Rightarrow> tx_out list \<Rightarrow> transaction" where
  "unsigned_spend spend_previous_output outputs =
     \<lparr>tx_version = 2, tx_lock_time = 0,
      tx_input = [\<lparr>txi_previous_output = spend_previous_output, txi_script_sig = [],
                  txi_sequence = 0xffffffff, txi_witness = []\<rparr>],
      tx_output = outputs\<rparr>"

definition with_witness :: "transaction \<Rightarrow> bytes list \<Rightarrow> transaction" where
  "with_witness tx witness =
     tx\<lparr>tx_input := (case tx_input tx of [] \<Rightarrow> [] | i # rest \<Rightarrow> i\<lparr>txi_witness := witness\<rparr> # rest)\<rparr>"

text \<open>\<open>outputs.iter().map(|o| o.value.to_sat()).sum()\<close> wraps as in a release build.\<close>

definition total_output :: "tx_out list \<Rightarrow> u64" where
  "total_output outputs = sum_list (map txo_value outputs)"

text \<open>\<open>P2mrSpendSigningResult\<close>.\<close>

record p2mr_spend_signing_result =
  sr_public_key :: bytes
  sr_leaf_script :: bytes
  sr_merkle_root :: bytes
  sr_script_pubkey :: bytes
  sr_control_block :: bytes
  sr_sighash :: bytes
  sr_witness_sig :: bytes
  sr_witness :: "bytes list"
  sr_unsigned_spend_tx :: transaction
  sr_signed_spend_tx :: transaction

definition spend_sighash ::
  "libs \<Rightarrow> transaction \<Rightarrow> tx_out \<Rightarrow> bytes \<Rightarrow> tap_sighash_type \<Rightarrow> sign_error + bytes" where
  "spend_sighash L unsigned_spend_tx prevout leaf_script sighash_type =
     bindE (ok_or (leaf_version_from_consensus L (p2mr_leaf_version L)) LeafVersionPanic) (\<lambda>leaf_version.
       mapErr SighashComputationFailed
         (script_spend_sighash L unsigned_spend_tx 0 (PrevoutsAll [prevout])
            (tap_leaf_hash L leaf_script leaf_version) sighash_type))"

definition sign_p2mr_spend_core ::
  "libs \<Rightarrow> signing \<Rightarrow> bytes \<times> bytes \<Rightarrow> tap_sighash_type \<Rightarrow> tx_out \<Rightarrow> out_point \<Rightarrow> tx_out list
    \<Rightarrow> sign_error + p2mr_spend_signing_result" where
  "sign_p2mr_spend_core L G keypair sighash_type prevout spend_previous_output outputs =
     bindE (validate_output_value (total_output outputs) (txo_value prevout)) (\<lambda>_.
     bindE (build_checksig_leaf (fst keypair)) (\<lambda>leaf_script.
     bindE (single_leaf_merkle_root L leaf_script) (\<lambda>merkle_root.
     let unsigned_spend_tx = unsigned_spend spend_previous_output outputs in
     bindE (spend_sighash L unsigned_spend_tx prevout leaf_script sighash_type) (\<lambda>sighash.
     bindE (ok_or (sg_sign G (snd keypair) sighash) SigningFailed) (\<lambda>signature.
     let witness_sig = append_sighash L signature sighash_type;
         witness = [witness_sig, leaf_script, single_leaf_control_block] in
     Inr \<lparr>sr_public_key = fst keypair, sr_leaf_script = leaf_script, sr_merkle_root = merkle_root,
          sr_script_pubkey = p2mr_script_pubkey merkle_root,
          sr_control_block = single_leaf_control_block, sr_sighash = sighash,
          sr_witness_sig = witness_sig, sr_witness = witness,
          sr_unsigned_spend_tx = unsigned_spend_tx,
          sr_signed_spend_tx = with_witness unsigned_spend_tx witness\<rparr>)))))"

text \<open>\<open>SignedP2mrSpend\<close>: the signing result with its algorithm, type and funding transaction.\<close>

record signed_p2mr_spend = p2mr_spend_signing_result +
  ss_algorithm :: sign_algorithm
  ss_sighash_type :: tap_sighash_type
  ss_funding_tx :: transaction

definition sign_p2mr_script_path_spend ::
  "libs \<Rightarrow> signing \<Rightarrow> sign_algorithm \<Rightarrow> bytes \<Rightarrow> tap_sighash_type \<Rightarrow> u64 \<Rightarrow> u64
    \<Rightarrow> sign_error + signed_p2mr_spend" where
  "sign_p2mr_script_path_spend L G algorithm entropy sighash_type prevout_value output_value =
     bindE (validate_output_value output_value prevout_value) (\<lambda>_.
     bindE (generate_p2mr_keypair G algorithm entropy) (\<lambda>keypair.
     bindE (build_checksig_leaf (fst keypair)) (\<lambda>leaf_script.
     bindE (single_leaf_merkle_root L leaf_script) (\<lambda>merkle_root.
     let prevout = \<lparr>txo_value = prevout_value, txo_script_pubkey = p2mr_script_pubkey merkle_root\<rparr>;
         funding_tx = \<lparr>tx_version = 2, tx_lock_time = 0, tx_input = [], tx_output = [prevout]\<rparr> in
     bindE (sign_p2mr_spend_core L G keypair sighash_type prevout
              \<lparr>op_txid = compute_txid L funding_tx, op_vout = 0\<rparr>
              [\<lparr>txo_value = output_value, txo_script_pubkey = []\<rparr>]) (\<lambda>signed.
     Inr (p2mr_spend_signing_result.extend signed
            (signed_p2mr_spend.fields algorithm sighash_type funding_tx)))))))"

section \<open>Hybrid spends\<close>

definition validate_hybrid_entropy :: "bytes \<Rightarrow> bytes \<Rightarrow> sign_error + unit" where
  "validate_hybrid_entropy ec_entropy slh_entropy =
     bindE (guardE (length ec_entropy = 32) EcEntropyNot32) (\<lambda>_.
       guardE (\<not> length slh_entropy < 128) SlhEntropyTooShort)"

definition ec_keypair_from_entropy :: "signing \<Rightarrow> bytes \<Rightarrow> sign_error + bytes \<times> bytes" where
  "ec_keypair_from_entropy G ec_entropy = ok_or (sg_ec_keypair G ec_entropy) InvalidEcEntropy"

definition slh_pk32 :: "bytes \<times> bytes \<Rightarrow> sign_error + bytes" where
  "slh_pk32 keypair =
     (if length (fst keypair) = 32 then Inr (fst keypair) else Inl (PubkeyNot32 (length (fst keypair))))"

text \<open>The key pairs and the leaf that both hybrid functions derive from the entropy.\<close>

definition hybrid_keys ::
  "signing \<Rightarrow> bytes \<Rightarrow> bytes \<Rightarrow> sign_error + (bytes \<times> bytes) \<times> (bytes \<times> bytes) \<times> bytes" where
  "hybrid_keys G ec_entropy slh_entropy =
     bindE (ec_keypair_from_entropy G ec_entropy) (\<lambda>ec_keypair.
     bindE (ok_or (sg_generate_keypair G SLH_DSA_SHA2_128S slh_entropy) KeyGenerationFailed) (\<lambda>slh_keypair.
     bindE (slh_pk32 slh_keypair) (\<lambda>slh_pk.
     Inr (ec_keypair, slh_keypair, build_hybrid_ec_slh_leaf (fst ec_keypair) slh_pk))))"

definition p2mr_output_for_algorithm ::
  "libs \<Rightarrow> signing \<Rightarrow> sign_algorithm \<Rightarrow> bytes \<Rightarrow> sign_error + bytes \<times> bytes" where
  "p2mr_output_for_algorithm L G algorithm entropy =
     bindE (generate_p2mr_keypair G algorithm entropy) (\<lambda>keypair.
     bindE (build_checksig_leaf (fst keypair)) (\<lambda>leaf_script.
     bindE (single_leaf_merkle_root L leaf_script) (\<lambda>merkle_root.
     Inr (p2mr_script_pubkey merkle_root, leaf_script))))"

definition p2mr_output_for_hybrid_ec_slh ::
  "libs \<Rightarrow> signing \<Rightarrow> bytes \<Rightarrow> bytes \<Rightarrow> sign_error + bytes \<times> bytes" where
  "p2mr_output_for_hybrid_ec_slh L G ec_entropy slh_entropy =
     bindE (validate_hybrid_entropy ec_entropy slh_entropy) (\<lambda>_.
     bindE (hybrid_keys G ec_entropy slh_entropy) (\<lambda>(_, _, leaf_script).
     bindE (single_leaf_merkle_root L leaf_script) (\<lambda>merkle_root.
     Inr (p2mr_script_pubkey merkle_root, leaf_script))))"

definition build_p2mr_spend_from_prevout ::
  "libs \<Rightarrow> signing \<Rightarrow> sign_algorithm \<Rightarrow> bytes \<Rightarrow> tap_sighash_type \<Rightarrow> out_point \<Rightarrow> tx_out \<Rightarrow> tx_out list
    \<Rightarrow> sign_error + transaction" where
  "build_p2mr_spend_from_prevout L G algorithm entropy sighash_type spend_previous_output prevout outputs =
     bindE (generate_p2mr_keypair G algorithm entropy) (\<lambda>keypair.
     bindE (sign_p2mr_spend_core L G keypair sighash_type prevout spend_previous_output outputs) (\<lambda>signed.
     Inr (sr_signed_spend_tx signed)))"

definition build_hybrid_ec_slh_spend_from_prevout ::
  "libs \<Rightarrow> signing \<Rightarrow> bytes \<Rightarrow> bytes \<Rightarrow> tap_sighash_type \<Rightarrow> out_point \<Rightarrow> tx_out \<Rightarrow> tx_out list
    \<Rightarrow> sign_error + transaction" where
  "build_hybrid_ec_slh_spend_from_prevout L G ec_entropy slh_entropy sighash_type spend_previous_output
      prevout outputs =
     bindE (validate_hybrid_entropy ec_entropy slh_entropy) (\<lambda>_.
     bindE (validate_output_value (total_output outputs) (txo_value prevout)) (\<lambda>_.
     bindE (hybrid_keys G ec_entropy slh_entropy) (\<lambda>(ec_keypair, slh_keypair, leaf_script).
     let unsigned_spend_tx = unsigned_spend spend_previous_output outputs in
     bindE (spend_sighash L unsigned_spend_tx prevout leaf_script sighash_type) (\<lambda>sighash.
     let ec_sig = sg_sign_schnorr G sighash (snd ec_keypair) in
     bindE (ok_or (sg_sign G (snd slh_keypair) sighash) SigningFailed) (\<lambda>slh_sig.
     Inr (with_witness unsigned_spend_tx
            [append_sighash L ec_sig sighash_type, append_sighash L slh_sig sighash_type,
             leaf_script, single_leaf_control_block]))))))"

section \<open>What the libraries promise\<close>

text \<open>
  A signature of an algorithm for a key and a message: it has the canonical size, the key has the
  algorithm's size, and it verifies.
\<close>

definition scheme_sig_ok :: "libs \<Rightarrow> pqc_algorithm \<Rightarrow> bytes \<Rightarrow> bytes \<Rightarrow> bytes \<Rightarrow> bool" where
  "scheme_sig_ok L alg pk m sig =
     (case alg of
        SECP256K1_SCHNORR \<Rightarrow> length sig = 64 \<and> length pk = 32
          \<and> (\<exists>x k. schnorr_from_slice L sig = Some x \<and> xonly_from_slice L pk = Some k \<and> schnorr_verify L x m k)
      | ML_DSA_44 \<Rightarrow> length sig = 2420 \<and> length pk = 1312
          \<and> (\<exists>x k. pqc_sig_from_slice L ML_DSA_44 sig = Some x \<and> pqc_pk_from_slice L ML_DSA_44 pk = Some k
               \<and> pqc_verify L k m x)
      | SLH_DSA_SHA2_128S \<Rightarrow> length sig = 7856 \<and> length pk = 32
          \<and> (\<exists>x k. pqc_sig_from_slice L SLH_DSA_SHA2_128S sig = Some x
               \<and> pqc_pk_from_slice L SLH_DSA_SHA2_128S pk = Some k \<and> pqc_verify L k m x))"

definition signing_laws :: "libs \<Rightarrow> signing \<Rightarrow> bool" where
  "signing_laws L G =
     ((\<forall>alg entropy pk sk m sig. length m = 32 \<longrightarrow> sg_generate_keypair G alg entropy = Some (pk, sk)
         \<longrightarrow> sg_sign G sk m = Some sig \<longrightarrow> scheme_sig_ok L alg pk m sig)
      \<and> (\<forall>entropy pk sk m. length m = 32 \<longrightarrow> sg_ec_keypair G entropy = Some (pk, sk)
         \<longrightarrow> scheme_sig_ok L SECP256K1_SCHNORR pk m (sg_sign_schnorr G m sk)))"

text \<open>
  The script builder and iterator agree on the leaves, the sighash has 32 bytes, does not cover
  witnesses and its type byte decodes, tagged hashes have 32 bytes, and the control byte is
  BIP 360's.
\<close>

definition script_laws :: "libs \<Rightarrow> bool" where
  "script_laws L =
     ((\<forall>k. length k = 32 \<longrightarrow> script_instructions L ([0x20] @ k @ [OP_CHECKSIG])
         = [Some (PushBytes k), Some (Op OP_CHECKSIG)])
      \<and> (\<forall>k. length k = 1312 \<longrightarrow> script_instructions L ([0x4d] @ le_bytes 2 1312 @ k @ [OP_CHECKSIG])
         = [Some (PushBytes k), Some (Op OP_CHECKSIG)])
      \<and> (\<forall>k l. length k = 32 \<longrightarrow> length l = 32 \<longrightarrow> script_instructions L (build_hybrid_ec_slh_leaf k l)
         = [Some (PushBytes k), Some (Op OP_CHECKSIG), Some (PushBytes l), Some (Op OP_CHECKSIG),
            Some (Op OP_BOOLAND), Some (Op OP_VERIFY)])
      \<and> (\<forall>tx w i ps h t. script_spend_sighash L (with_witness tx w) i ps h t = script_spend_sighash L tx i ps h t)
      \<and> (\<forall>tx i ps h t m. script_spend_sighash L tx i ps h t = Inr m \<longrightarrow> length m = 32)
      \<and> (\<forall>t. sighash_from_u8 L (sighash_to_u8 L t) = Some t)
      \<and> (\<forall>s v. length (tap_node_from_script L s v) = 32)
      \<and> p2mr_control_byte L = 0xc1)"

section \<open>Signed inputs are authorised\<close>

lemma sighash_length: "script_laws L \<Longrightarrow> script_spend_sighash L tx i ps h t = Inr m \<Longrightarrow> length m = 32"
  unfolding script_laws_def by blast

lemma p2mr_script_pubkey_eq: "p2mr_script_pubkey root = p2mr_script root"
  by (simp add: p2mr_script_pubkey_def p2mr_script_def)

lemma scheme_sig_canonical: "scheme_sig_ok L alg pk m sig \<Longrightarrow> canonical_size (length sig)"
  by (cases alg) (simp_all add: scheme_sig_ok_def canonical_size_def limit_defs)

lemma append_sighash_parses:
  assumes "script_laws L" and "canonical_size (length sig)"
  shows "strip_sighash_byte L (append_sighash L sig t) = sig \<and> parse_sighash_type L (append_sighash L sig t) = t"
  using strip_bare [OF assms(2)] strip_appended_sighash [OF assms(2)] assms(1)
  by (cases "t = SighashDefault") (auto simp: append_sighash_def script_laws_def)

lemma appended_signature_valid:
  assumes "script_laws L" and "scheme_sig_ok L alg pk m sig"
    and "script_spend_sighash L (vc_tx ctx) (vc_input_index ctx) (vc_prevouts ctx) (vc_leaf_hash ctx) t = Inr m"
  shows "signature_valid L ctx pk (append_sighash L sig t)"
proof -
  have st: "strip_sighash_byte L (append_sighash L sig t) = sig" "parse_sighash_type L (append_sighash L sig t) = t"
    using append_sighash_parses [OF assms(1) scheme_sig_canonical [OF assms(2)]] by simp_all
  show ?thesis
    using assms(2,3) by (cases alg) (auto simp: signature_valid_def st scheme_sig_ok_def)
qed

lemma checksig_leaf_parsed:
  assumes "script_laws L" and "build_checksig_leaf pk = Inr leaf"
  shows "parse_leaf_script L leaf = Inr \<lparr>pls_sig_sites = [\<lparr>scs_pubkey = pk, scs_opcode = OP_CHECKSIG\<rparr>]\<rparr>"
proof -
  have cs: "is_sig_check_opcode OP_CHECKSIG" "\<not> multisig_opcode OP_CHECKSIG"
    by (simp_all add: is_sig_check_opcode_iff multisig_opcode_def opcode_defs)
  have pk: "length pk = 32 \<or> length pk = 1312" and len: "leaf \<noteq> []" "length leaf \<le> MAX_P2MR_LEAF_SCRIPT_SIZE"
    using assms(2) by (auto simp: build_checksig_leaf_def limit_defs split: if_splits)
  have "script_instructions L leaf = concat (map clause_items [SingleSig pk OP_CHECKSIG])"
    using assms by (auto simp: build_checksig_leaf_def script_laws_def limit_defs split: if_splits)
  moreover have "clause_ok (SingleSig pk OP_CHECKSIG)" using cs pk by (auto simp: pubkey_size_ok_def)
  ultimately show ?thesis
    using leaf_clauses_run [of "[SingleSig pk OP_CHECKSIG]" leaf_parser_new] len
    by (auto simp: parse_leaf_script_def at_boundary_def leaf_parser_new_def)
qed

lemma single_leaf_path:
  assumes "script_laws L" and "single_leaf_merkle_root L leaf = Inr root"
  shows "verify_merkle_path L leaf root single_leaf_control_block = Inr () \<and> length root = 32"
proof -
  have "merkle_branch_bytes L [0xc1] = Inr (concat [])"
    using branch_core [of "[]" L] assms(1) by (simp add: nodes_ok_def core_control_def script_laws_def)
  from recompute_from_branch [OF this] show ?thesis
    using assms
    by (auto simp: verify_merkle_path_def tap_root_def nodes_ok_def single_leaf_merkle_root_def
        single_leaf_control_block_def script_laws_def)
qed

text \<open>One signature per site, each valid: the input is authorised.\<close>

lemma signed_spend_authorized:
  assumes "script_laws L" and "single_leaf_merkle_root L leaf = Inr root"
    and "txo_script_pubkey prevout = p2mr_script_pubkey root"
    and "parse_leaf_script L leaf = Inr \<lparr>pls_sig_sites = sites\<rparr>"
    and "leaf_version_from_consensus L (p2mr_leaf_version L) = Some v"
    and "sigs \<noteq> []" and "length sigs \<le> 98" and "sum_list (map length sigs) \<le> MAX_PQC_SIG_WU_PER_INPUT"
    and "tx = with_witness (unsigned_spend op outs) (sigs @ [leaf, single_leaf_control_block])"
    and "list_all2 (\<lambda>site sig. signature_valid L \<lparr>vc_tx = tx, vc_input_index = 0,
          vc_prevouts = PrevoutsAll [prevout], vc_leaf_hash = tap_leaf_hash L leaf v\<rparr> (scs_pubkey site) sig)
        sites sigs"
  shows "spend_authorized L tx 0 prevout (PrevoutsAll [prevout])"
proof -
  have w: "txi_witness (tx_input tx ! 0) = sigs @ [leaf, single_leaf_control_block]"
    by (simp add: assms(9) with_witness_def unsigned_spend_def)
  show ?thesis
    unfolding spend_authorized_def w
    using single_leaf_path [OF assms(1,2)] assms(3-8,10) p2mr_script_pubkey_eq [of root]
    by (intro exI [of _ sigs] exI [of _ leaf] exI [of _ single_leaf_control_block] exI [of _ root]
        exI [of _ "\<lparr>pls_sig_sites = sites\<rparr>"] exI [of _ v]) simp
qed

lemma checksig_spend_authorized:
  assumes laws: "script_laws L" "signing_laws L G"
    and out: "p2mr_output_for_algorithm L G algorithm entropy = Inr (txo_script_pubkey prevout, leaf)"
    and build: "build_p2mr_spend_from_prevout L G algorithm entropy t op prevout outs = Inr tx"
  shows "spend_authorized L tx 0 prevout (PrevoutsAll [prevout])
    \<and> (\<exists>sig. tx = with_witness (unsigned_spend op outs) [append_sighash L sig t, leaf, single_leaf_control_block]
         \<and> canonical_size (length sig))"
proof -
  obtain pk sk where kp: "generate_p2mr_keypair G algorithm entropy = Inr (pk, sk)"
    using build by (auto simp: build_p2mr_spend_from_prevout_def)
  then have gen: "sg_generate_keypair G (to_bitcoinpqc algorithm) entropy = Some (pk, sk)"
    by (simp add: generate_p2mr_keypair_def)
  obtain root where leaf: "build_checksig_leaf pk = Inr leaf" and root: "single_leaf_merkle_root L leaf = Inr root"
    and spk: "txo_script_pubkey prevout = p2mr_script_pubkey root"
    using out kp by (auto simp: p2mr_output_for_algorithm_def)
  obtain v m sig where v: "leaf_version_from_consensus L (p2mr_leaf_version L) = Some v"
    and m: "script_spend_sighash L (unsigned_spend op outs) 0 (PrevoutsAll [prevout]) (tap_leaf_hash L leaf v) t = Inr m"
    and sig: "sg_sign G sk m = Some sig"
    and tx: "tx = with_witness (unsigned_spend op outs) [append_sighash L sig t, leaf, single_leaf_control_block]"
    using build kp leaf root
    by (auto simp: build_p2mr_spend_from_prevout_def sign_p2mr_spend_core_def spend_sighash_def Let_def)
  have ok: "scheme_sig_ok L (to_bitcoinpqc algorithm) pk m sig"
    using laws(2) gen sig sighash_length [OF laws(1) m] unfolding signing_laws_def by blast
  have valid: "signature_valid L \<lparr>vc_tx = tx, vc_input_index = 0, vc_prevouts = PrevoutsAll [prevout],
      vc_leaf_hash = tap_leaf_hash L leaf v\<rparr> pk (append_sighash L sig t)"
    using m laws(1) by (intro appended_signature_valid [OF laws(1) ok]) (simp add: tx script_laws_def)
  have "length sig \<le> 7856"
    using ok by (cases "to_bitcoinpqc algorithm") (simp_all add: scheme_sig_ok_def)
  then have "spend_authorized L tx 0 prevout (PrevoutsAll [prevout])"
    using valid
    by (intro signed_spend_authorized [OF laws(1) root spk checksig_leaf_parsed [OF laws(1) leaf] v,
          of "[append_sighash L sig t]" _ op outs])
      (simp_all add: tx append_sighash_def limit_defs)
  then show ?thesis using tx scheme_sig_canonical [OF ok] by blast
qed

lemma hybrid_spend_authorized:
  assumes laws: "script_laws L" "signing_laws L G"
    and out: "p2mr_output_for_hybrid_ec_slh L G ec slh = Inr (txo_script_pubkey prevout, leaf)"
    and build: "build_hybrid_ec_slh_spend_from_prevout L G ec slh t op prevout outs = Inr tx"
  shows "spend_authorized L tx 0 prevout (PrevoutsAll [prevout])
    \<and> (\<exists>sig sig2. tx = with_witness (unsigned_spend op outs)
          [append_sighash L sig t, append_sighash L sig2 t, leaf, single_leaf_control_block]
         \<and> canonical_size (length sig))"
proof -
  obtain ek sk where keys: "hybrid_keys G ec slh = Inr (ek, sk, leaf)"
    using out by (auto simp: p2mr_output_for_hybrid_ec_slh_def)
  then have ek: "sg_ec_keypair G ec = Some ek" and sk: "sg_generate_keypair G SLH_DSA_SHA2_128S slh = Some sk"
    and leaf: "leaf = build_hybrid_ec_slh_leaf (fst ek) (fst sk)"
    by (auto simp: hybrid_keys_def ec_keypair_from_entropy_def slh_pk32_def split: if_splits)
  obtain root where root: "single_leaf_merkle_root L leaf = Inr root"
    and spk: "txo_script_pubkey prevout = p2mr_script_pubkey root"
    using out keys by (auto simp: p2mr_output_for_hybrid_ec_slh_def)
  obtain v m sig2 where v: "leaf_version_from_consensus L (p2mr_leaf_version L) = Some v"
    and m: "script_spend_sighash L (unsigned_spend op outs) 0 (PrevoutsAll [prevout]) (tap_leaf_hash L leaf v) t = Inr m"
    and sig2: "sg_sign G (snd sk) m = Some sig2"
    and tx: "tx = with_witness (unsigned_spend op outs)
       [append_sighash L (sg_sign_schnorr G m (snd ek)) t, append_sighash L sig2 t, leaf, single_leaf_control_block]"
    using build keys root
    by (auto simp: build_hybrid_ec_slh_spend_from_prevout_def spend_sighash_def Let_def)
  let ?sig = "sg_sign_schnorr G m (snd ek)"
  have ok: "scheme_sig_ok L SECP256K1_SCHNORR (fst ek) m ?sig" "scheme_sig_ok L SLH_DSA_SHA2_128S (fst sk) m sig2"
    using laws(2) ek sk sig2 sighash_length [OF laws(1) m] unfolding signing_laws_def
    by (metis prod.collapse)+
  have len: "length (fst ek) = 32" "length (fst sk) = 32" "length ?sig = 64" "length sig2 = 7856"
    using ok by (simp_all add: scheme_sig_ok_def)
  have valid: "signature_valid L \<lparr>vc_tx = tx, vc_input_index = 0, vc_prevouts = PrevoutsAll [prevout],
      vc_leaf_hash = tap_leaf_hash L leaf v\<rparr> pk (append_sighash L sig t)"
    if "scheme_sig_ok L alg pk m sig" for alg pk sig
    using m laws(1) by (intro appended_signature_valid [OF laws(1) that]) (simp add: tx script_laws_def)
  have parsed: "parse_leaf_script L leaf = Inr \<lparr>pls_sig_sites =
      [\<lparr>scs_pubkey = fst ek, scs_opcode = OP_CHECKSIG\<rparr>, \<lparr>scs_pubkey = fst sk, scs_opcode = OP_CHECKSIG\<rparr>]\<rparr>"
    unfolding leaf using laws(1) len by (intro hybrid_leaf_sites) (simp_all add: script_laws_def)
  have "spend_authorized L tx 0 prevout (PrevoutsAll [prevout])"
    using valid [OF ok(1)] valid [OF ok(2)] len
    by (intro signed_spend_authorized [OF laws(1) root spk parsed v,
          of "[append_sighash L ?sig t, append_sighash L sig2 t]" _ op outs])
      (simp_all add: tx append_sighash_def limit_defs)
  then show ?thesis using tx scheme_sig_canonical [OF ok(1)] by blast
qed

section \<open>The sample libraries keep the promises\<close>

text \<open>A secret key is its algorithm's tag before the public key; a signature repeats the message.\<close>

definition sample_public_key :: "pqc_algorithm \<Rightarrow> bytes \<Rightarrow> bytes" where
  "sample_public_key alg entropy =
     (case alg of ML_DSA_44 \<Rightarrow> take 32 (entropy @ replicate 32 0) @ replicate 1280 0
      | _ \<Rightarrow> take 32 (entropy @ replicate 32 0))"

definition sample_tag :: "pqc_algorithm \<Rightarrow> u8" where
  "sample_tag alg = (case alg of SECP256K1_SCHNORR \<Rightarrow> 0 | ML_DSA_44 \<Rightarrow> 1 | SLH_DSA_SHA2_128S \<Rightarrow> 2)"

definition sample_signing :: signing where
  "sample_signing =
     \<lparr>sg_generate_keypair = (\<lambda>alg entropy.
        Some (sample_public_key alg entropy, sample_tag alg # sample_public_key alg entropy)),
      sg_sign = (\<lambda>sk m. Some (m @ take 32 (tl sk)
        @ (if hd sk = 1 then replicate 2356 0 else if hd sk = 2 then replicate 7792 0 else []))),
      sg_ec_keypair = (\<lambda>entropy. if length entropy = 32 then Some (entropy, entropy) else None),
      sg_sign_schnorr = (\<lambda>m sk. m @ sk)\<rparr>"

lemma sample_signing_laws: "signing_laws sample_libs sample_signing"
  unfolding signing_laws_def
proof (intro conjI allI impI)
  fix alg :: pqc_algorithm and entropy pk sk m sig
  assume "length m = 32" and "sg_generate_keypair sample_signing alg entropy = Some (pk, sk)"
    and "sg_sign sample_signing sk m = Some sig"
  then show "scheme_sig_ok sample_libs alg pk m sig"
    by (cases alg) (auto simp: sample_signing_def sample_public_key_def sample_tag_def scheme_sig_ok_def)
next
  fix entropy pk sk m :: bytes
  assume "length m = 32" and "sg_ec_keypair sample_signing entropy = Some (pk, sk)"
  then show "scheme_sig_ok sample_libs SECP256K1_SCHNORR pk m (sg_sign_schnorr sample_signing m sk)"
    by (auto simp: sample_signing_def scheme_sig_ok_def split: if_splits)
qed

lemma sample_pushdata2:
  assumes "length k = 1312"
  shows "script_instructions sample_libs ([0x4d] @ le_bytes 2 1312 @ k @ [OP_CHECKSIG])
    = [Some (PushBytes k), Some (Op OP_CHECKSIG)]"
proof -
  have le: "le_bytes 2 1312 = [0x20, 0x05]" by (simp add: numeral_2_eq_2)
  have push: "sample_instrs (Suc n) (0x4d # 0x20 # 0x05 # k @ [OP_CHECKSIG])
      = Some (PushBytes k) # sample_instrs n [OP_CHECKSIG]" for n
    using assms by (simp add: opcode_defs)
  have op: "sample_instrs (Suc n) [OP_CHECKSIG] = [Some (Op OP_CHECKSIG)]" for n
    by (simp add: opcode_defs)
  have "length ([0x4d] @ [0x20, 0x05] @ k @ [OP_CHECKSIG]) = Suc (Suc 1314)" using assms by simp
  then show ?thesis using push [of "Suc 1314"] op [of 1314]
    by (simp add: sample_instructions_def le del: sample_instrs.simps)
qed

lemma sample_script_laws: "script_laws sample_libs"
proof -
  have "sample_sighash_from_u8 (sample_sighash_to_u8 t) = Some t" for t
    by (cases t) (simp_all add: sample_sighash_from_u8_def sample_sighash_to_u8_def)
  moreover have "sample_prevouts_fit (with_witness tx w) i ps t = sample_prevouts_fit tx i ps t"
    "sample_digest (with_witness tx w) i t = sample_digest tx i t" for tx w i ps t
    by (cases "tx_input tx"; cases ps; simp add: with_witness_def sample_prevouts_fit_def sample_digest_def)+
  moreover have "length (sample_digest tx i t) = 32" for tx i t
    by (simp add: sample_digest_def)
  moreover have "sample_instructions (0x20 # k @ [OP_CHECKSIG]) = [Some (PushBytes k), Some (Op OP_CHECKSIG)]"
    if "length k = 32" for k
    using that by (simp add: sample_instructions_op opcode_defs)
  ultimately show ?thesis
    using sample_pushdata2 hybrid_leaf_instructions
    by (simp add: script_laws_def sample_hash32_def)
qed

end
