(* ===== verification/P2mr_Store.thy ===== *)
theory P2mr_Store
  imports Signer Pqc
begin

text \<open>
  The wallet's store of P2MR keys (\<open>lib/wallet/p2mr_store.rs\<close>): schemes, address records, the JSON
  file and the spends built from a record. The file system and the random source are arguments;
  the serialization of the file is part of the file system.
\<close>

section \<open>Schemes and records\<close>

datatype p2mr_scheme = SchemeSchnorr | SchemeMldsa | SchemeSlh | HybridEcSlh

definition scheme_label :: "p2mr_scheme \<Rightarrow> string" where
  "scheme_label s =
     (case s of SchemeSchnorr \<Rightarrow> ''schnorr'' | SchemeMldsa \<Rightarrow> ''mldsa'' | SchemeSlh \<Rightarrow> ''slh''
      | HybridEcSlh \<Rightarrow> ''hybrid_ec_slh'')"

definition from_label :: "string \<Rightarrow> p2mr_scheme option" where
  "from_label s =
     (if s = ''schnorr'' then Some SchemeSchnorr
      else if s \<in> {''mldsa'', ''ml-dsa'', ''ml_dsa''} then Some SchemeMldsa
      else if s \<in> {''slh'', ''slh-dsa'', ''slh_dsa''} then Some SchemeSlh
      else if s \<in> {''hybrid_ec_slh'', ''hybrid''} then Some HybridEcSlh
      else None)"

record p2mr_address_record =
  ar_scheme :: p2mr_scheme
  ar_entropy :: bytes
  ar_leaf_script :: bytes
  ar_merkle_root :: bytes
  ar_script_pubkey :: bytes

definition EC_ENTROPY_LEN :: nat where "EC_ENTROPY_LEN = 32"
definition PQC_ENTROPY_LEN :: nat where "PQC_ENTROPY_LEN = 128"

text \<open>The store's errors; the first carries the message of the signer.\<close>

datatype p2mr_store_error =
  BuildOutput sign_error
| HybridEntropyTooShort nat
| EntropySource
| StoreRead
| StoreDeserialize
| StoreWrite
| StoreAddress

definition split_ec_pqc :: "bytes \<Rightarrow> p2mr_store_error + bytes \<times> bytes" where
  "split_ec_pqc entropy =
     (if length entropy < EC_ENTROPY_LEN + PQC_ENTROPY_LEN then Inl (HybridEntropyTooShort (length entropy))
      else Inr (take EC_ENTROPY_LEN entropy, drop EC_ENTROPY_LEN entropy))"

definition build_spend ::
  "libs \<Rightarrow> signing \<Rightarrow> p2mr_address_record \<Rightarrow> out_point \<Rightarrow> tx_out \<Rightarrow> tx_out list \<Rightarrow> tap_sighash_type
    \<Rightarrow> p2mr_store_error + transaction" where
  "build_spend L G r outpoint prevout outputs sighash_type =
     (let e = ar_entropy r;
          single = (\<lambda>algorithm. mapErr BuildOutput
            (build_p2mr_spend_from_prevout L G algorithm e sighash_type outpoint prevout outputs)) in
      case ar_scheme r of
        SchemeSchnorr \<Rightarrow> single SignSchnorr
      | SchemeMldsa \<Rightarrow> single SignMldsa
      | SchemeSlh \<Rightarrow> single SignSlh
      | HybridEcSlh \<Rightarrow>
          bindE (split_ec_pqc e) (\<lambda>(ec, slh).
            mapErr BuildOutput
              (build_hybrid_ec_slh_spend_from_prevout L G ec slh sighash_type outpoint prevout outputs)))"

section \<open>The file\<close>

text \<open>What reading \<open>p2mr.json\<close> gives; the contents are the file's addresses.\<close>

datatype p2mr_json = JsonNotFound | JsonUnreadable | JsonInvalid | JsonFile u32 "p2mr_address_record list"

record p2mr_disk =
  pf_json :: p2mr_json
  pf_writable :: bool

definition CURRENT_VERSION :: u32 where "CURRENT_VERSION = 1"

definition read_file :: "p2mr_disk \<Rightarrow> p2mr_store_error + u32 \<times> p2mr_address_record list" where
  "read_file d =
     (case pf_json d of
        JsonFile version addresses \<Rightarrow> Inr (version, addresses)
      | JsonNotFound \<Rightarrow> Inr (CURRENT_VERSION, [])
      | JsonInvalid \<Rightarrow> Inl StoreDeserialize
      | JsonUnreadable \<Rightarrow> Inl StoreRead)"

text \<open>The temporary file is renamed over the old one, so a failure leaves the old contents.\<close>

definition write_file :: "u32 \<times> p2mr_address_record list \<Rightarrow> (p2mr_disk, p2mr_store_error, unit) st" where
  "write_file file = (\<lambda>d.
     if pf_writable d then (Inr (), d\<lparr>pf_json := JsonFile (fst file) (snd file)\<rparr>)
     else (Inl StoreWrite, d))"

text \<open>\<open>random_entropy\<close>: \<open>rng\<close> fills a buffer of the given length, or fails.\<close>

definition random_entropy :: "(nat \<Rightarrow> bytes option) \<Rightarrow> p2mr_scheme \<Rightarrow> p2mr_store_error + bytes" where
  "random_entropy rng scheme =
     ok_or (rng (case scheme of
        SchemeSchnorr \<Rightarrow> EC_ENTROPY_LEN
      | SchemeMldsa \<Rightarrow> PQC_ENTROPY_LEN | SchemeSlh \<Rightarrow> PQC_ENTROPY_LEN
      | HybridEcSlh \<Rightarrow> EC_ENTROPY_LEN + PQC_ENTROPY_LEN)) EntropySource"

definition mk_output :: "libs \<Rightarrow> signing \<Rightarrow> p2mr_scheme \<Rightarrow> bytes \<Rightarrow> p2mr_store_error + bytes \<times> bytes \<times> bytes" where
  "mk_output L G scheme entropy =
     bindE (case scheme of
        SchemeSchnorr \<Rightarrow> mapErr BuildOutput (p2mr_output_for_algorithm L G SignSchnorr entropy)
      | SchemeMldsa \<Rightarrow> mapErr BuildOutput (p2mr_output_for_algorithm L G SignMldsa entropy)
      | SchemeSlh \<Rightarrow> mapErr BuildOutput (p2mr_output_for_algorithm L G SignSlh entropy)
      | HybridEcSlh \<Rightarrow> bindE (split_ec_pqc entropy) (\<lambda>(ec, slh).
            mapErr BuildOutput (p2mr_output_for_hybrid_ec_slh L G ec slh))) (\<lambda>(spk, leaf).
     Inr (spk, leaf, drop 2 spk))"

definition build_record ::
  "libs \<Rightarrow> signing \<Rightarrow> (nat \<Rightarrow> bytes option) \<Rightarrow> p2mr_scheme \<Rightarrow> p2mr_store_error + p2mr_address_record" where
  "build_record L G rng scheme =
     bindE (random_entropy rng scheme) (\<lambda>entropy.
     bindE (mk_output L G scheme entropy) (\<lambda>(spk, leaf, root).
     Inr \<lparr>ar_scheme = scheme, ar_entropy = entropy, ar_leaf_script = leaf, ar_merkle_root = root,
          ar_script_pubkey = spk\<rparr>))"

definition create ::
  "libs \<Rightarrow> signing \<Rightarrow> (nat \<Rightarrow> bytes option) \<Rightarrow> p2mr_scheme
    \<Rightarrow> (p2mr_disk, p2mr_store_error, p2mr_address_record) st" where
  "create L G rng scheme =
     bindS (liftS (\<lambda>_. build_record L G rng scheme)) (\<lambda>r.
     bindS (liftS read_file) (\<lambda>(_, addresses).
     bindS (write_file (CURRENT_VERSION, addresses @ [r])) (\<lambda>_.
     returnS r)))"

definition list_addresses :: "p2mr_disk \<Rightarrow> p2mr_store_error + p2mr_address_record list" where
  "list_addresses d = bindE (read_file d) (\<lambda>(_, addresses). Inr addresses)"

definition get_by_spk :: "p2mr_disk \<Rightarrow> bytes \<Rightarrow> p2mr_store_error + p2mr_address_record option" where
  "get_by_spk d spk =
     bindE (read_file d) (\<lambda>(_, addresses). Inr (find (\<lambda>r. ar_script_pubkey r = spk) addresses))"

section \<open>Records that the store made\<close>

text \<open>A record whose leaf, root and script are those that its entropy derives.\<close>

definition record_ok :: "libs \<Rightarrow> signing \<Rightarrow> p2mr_address_record \<Rightarrow> bool" where
  "record_ok L G r =
     (mk_output L G (ar_scheme r) (ar_entropy r) = Inr (ar_script_pubkey r, ar_leaf_script r, ar_merkle_root r))"

definition store_ok :: "libs \<Rightarrow> signing \<Rightarrow> p2mr_disk \<Rightarrow> bool" where
  "store_ok L G d = (case list_addresses d of Inr rs \<Rightarrow> list_all (record_ok L G) rs | Inl _ \<Rightarrow> True)"

lemma build_record_ok: "build_record L G rng scheme = Inr r \<Longrightarrow> record_ok L G r \<and> ar_scheme r = scheme"
  by (auto simp: build_record_def record_ok_def)

lemma create_ok:
  "(create L G rng scheme d = (Inr r, d')) =
     (\<exists>addresses. build_record L G rng scheme = Inr r \<and> list_addresses d = Inr addresses \<and> pf_writable d
        \<and> d' = d\<lparr>pf_json := JsonFile CURRENT_VERSION (addresses @ [r])\<rparr>)"
  by (auto simp: create_def bindS_eq_Inr list_addresses_def write_file_def split: if_splits)

lemma create_error: "create L G rng scheme d = (Inl e, d') \<Longrightarrow> d' = d"
  by (auto simp: create_def bindS_eq_Inl write_file_def split: if_splits)

lemma create_keeps_store:
  assumes "store_ok L G d" and "create L G rng scheme d = (r, d')"
  shows "store_ok L G d'"
proof (cases r)
  case (Inl e)
  then show ?thesis using assms create_error by fastforce
next
  case (Inr rec)
  then show ?thesis
    using assms build_record_ok by (auto simp: create_ok store_ok_def list_addresses_def read_file_def)
qed

lemma get_by_spk_ok:
  assumes "store_ok L G d" and "get_by_spk d spk = Inr (Some r)"
  shows "record_ok L G r \<and> ar_script_pubkey r = spk"
proof -
  obtain addresses where "list_addresses d = Inr addresses"
    and r: "find (\<lambda>r. ar_script_pubkey r = spk) addresses = Some r"
    using assms(2) by (auto simp: get_by_spk_def list_addresses_def)
  then have "list_all (record_ok L G) addresses" using assms(1) by (simp add: store_ok_def)
  then show ?thesis using r by (auto simp: find_Some_iff list_all_length)
qed

text \<open>Two records with the same output script are found in the order they were made.\<close>

lemma created_is_found:
  assumes "create L G rng scheme d = (Inr r, d')"
  shows "\<exists>r'. get_by_spk d' (ar_script_pubkey r) = Inr (Some r') \<and> ar_script_pubkey r' = ar_script_pubkey r"
proof -
  obtain addresses where d': "d' = d\<lparr>pf_json := JsonFile CURRENT_VERSION (addresses @ [r])\<rparr>"
    using assms by (auto simp: create_ok)
  have "find (\<lambda>q. ar_script_pubkey q = ar_script_pubkey r) (addresses @ [r]) \<noteq> None"
    by (auto simp: find_None_iff)
  then obtain r' where r': "find (\<lambda>q. ar_script_pubkey q = ar_script_pubkey r) (addresses @ [r]) = Some r'"
    by blast
  then have "ar_script_pubkey r' = ar_script_pubkey r" by (auto simp: find_Some_iff)
  then show ?thesis using r' by (simp add: d' get_by_spk_def read_file_def)
qed

section \<open>The enforcer accepts what the wallet signs\<close>

lemma build_spend_authorized:
  assumes laws: "script_laws L" "signing_laws L G"
    and rec: "record_ok L G r" "txo_script_pubkey prevout = ar_script_pubkey r"
    and build: "build_spend L G r op prevout outs t = Inr tx"
  shows "spend_authorized L tx 0 prevout (PrevoutsAll [prevout])
    \<and> (\<exists>sig sigs leaf. tx = with_witness (unsigned_spend op outs)
          (append_sighash L sig t # sigs @ [leaf, single_leaf_control_block])
         \<and> canonical_size (length sig) \<and> length sigs \<le> 1)"
proof -
  have single: ?thesis
    if "p2mr_output_for_algorithm L G a (ar_entropy r) = Inr (ar_script_pubkey r, ar_leaf_script r)"
      "build_p2mr_spend_from_prevout L G a (ar_entropy r) t op prevout outs = Inr tx" for a
  proof -
    from checksig_spend_authorized [OF laws that(1) [folded rec(2)] that(2)]
    obtain sig where "spend_authorized L tx 0 prevout (PrevoutsAll [prevout])"
      "tx = with_witness (unsigned_spend op outs)
         (append_sighash L sig t # [] @ [ar_leaf_script r, single_leaf_control_block])"
      "canonical_size (length sig)"
      by auto
    then show ?thesis by (metis list.size(3) zero_le)
  qed
  show ?thesis
  proof (cases "ar_scheme r")
    case HybridEcSlh
    obtain ec slh where split: "split_ec_pqc (ar_entropy r) = Inr (ec, slh)"
      and out: "p2mr_output_for_hybrid_ec_slh L G ec slh = Inr (ar_script_pubkey r, ar_leaf_script r)"
      using rec(1) HybridEcSlh by (auto simp: record_ok_def mk_output_def)
    then have "build_hybrid_ec_slh_spend_from_prevout L G ec slh t op prevout outs = Inr tx"
      using build HybridEcSlh by (simp add: build_spend_def Let_def)
    from hybrid_spend_authorized [OF laws out [folded rec(2)] this]
    obtain sig sig2 where "spend_authorized L tx 0 prevout (PrevoutsAll [prevout])"
      "tx = with_witness (unsigned_spend op outs)
         (append_sighash L sig t # [append_sighash L sig2 t] @ [ar_leaf_script r, single_leaf_control_block])"
      "canonical_size (length sig)"
      by auto
    moreover have "length [append_sighash L sig2 t] \<le> 1" by simp
    ultimately show ?thesis by blast
  qed (use rec(1) build single in \<open>auto simp: record_ok_def mk_output_def build_spend_def Let_def\<close>)
qed

lemma authorized_is_p2mr: "spend_authorized L tx i prevout ps \<Longrightarrow> is_p2mr_out prevout"
  by (auto simp: spend_authorized_def is_p2mr_out_def is_p2mr_script_iff)

text \<open>The control byte alone is not a Taproot control block, so no leaf of the spend is enforced.\<close>

lemma p2mr_spend_not_enforced:
  assumes "control_block_decode L [0xc1] = None"
    and "tx = with_witness (unsigned_spend op outs) (sigs @ [leaf, single_leaf_control_block])"
  shows "enforce_transaction L tx prevouts = Inr ()"
proof -
  have "detect_enforced_leaf L (sigs @ [leaf, single_leaf_control_block]) = None"
    using assms(1) by (simp add: detect_enforced_leaf_def strip_annex_def single_leaf_control_block_def ANNEX_PREFIX_def)
  then show ?thesis
    by (simp add: assms(2) enforce_transaction_def enforce_input_def with_witness_def unsigned_spend_def
        evaluate_deferred_checks_def)
qed

lemma built_spend_validates:
  assumes laws: "script_laws L" "signing_laws L G" "control_block_decode L [0xc1] = None"
    and rec: "record_ok L G r" "txo_script_pubkey prevout = ar_script_pubkey r"
    and build: "build_spend L G r op prevout outs t = Inr tx" and t: "\<not> sighash_anyonecanpay t"
    and available: "available op = Some prevout" and time: "time_left L 2 s"
  shows "is_ok (validate_transaction L tx height act available chain spent s)"
proof -
  obtain sig sigs leaf where auth: "spend_authorized L tx 0 prevout (PrevoutsAll [prevout])"
    and tx: "tx = with_witness (unsigned_spend op outs)
      (append_sighash L sig t # sigs @ [leaf, single_leaf_control_block])"
    and sig: "canonical_size (length sig)" "length sigs \<le> 1"
    using build_spend_authorized [OF laws(1,2) rec build] by blast
  obtain input where ins: "tx_input tx = [input]" and prev: "txi_previous_output input = op"
    and wit: "txi_witness input = append_sighash L sig t # sigs @ [leaf, single_leaf_control_block]"
    by (simp add: tx with_witness_def unsigned_spend_def)
  have parse: "parse_sighash_type L (append_sighash L sig t) = t"
    using append_sighash_parses [OF laws(1) sig(1)] by simp
  have "time_left L (Suc (length sigs)) s"
    using time time_left_Suc [of L 1 s] sig(2) by (cases sigs) (simp_all add: numeral_2_eq_2)
  then have "time_left L (length (txi_witness (tx_input tx ! 0)) - 2) s" by (simp add: ins wit)
  then have "is_ok (validate_p2mr_input_spend L tx 0 prevout (PrevoutsAll [prevout]) s)"
    using auth ins by (intro validate_p2mr_input_spend_complete) simp_all
  then have "is_ok (validate_input L tx available chain spent s (0, input))"
    using t parse available authorized_is_p2mr [OF auth]
    by (simp add: validate_input_def prev wit prevouts_for_p2mr_input_def ins is_p2mr_out_def)
  then have spends: "is_ok (validate_transaction_spends L tx available chain spent s)"
    by (auto simp: validate_transaction_spends_def validate_p2mr_outputs_ok ins is_ok_iff)
  have "enforce_transaction L tx available = Inr ()"
    using p2mr_spend_not_enforced [OF laws(3), of tx op outs "append_sighash L sig t # sigs"] tx by simp
  then show ?thesis using spends by (auto simp: validate_transaction_def is_ok_iff)
qed

section \<open>Properties\<close>

text \<open>
  C26: the enforcer accepts what the wallet signs. For a record that the store made, of any of the four
  schemes, and an output paying to it, every spend that \<open>build_spend\<close> produces with a sighash type
  that commits to all prevouts passes transaction validation, if two post-quantum verifications
  still fit the time budget; the libraries' signing, script and sighash functions are assumed to
  fit each other.
\<close>
theorem signed_spend_validates:
  assumes "script_laws L" and "signing_laws L G" and "control_block_decode L [0xc1] = None"
    and "record_ok L G r" and "txo_script_pubkey prevout = ar_script_pubkey r"
    and "build_spend L G r op prevout outs t = Inr tx" and "\<not> sighash_anyonecanpay t"
    and "available op = Some prevout" and "time_left L 2 s"
  shows "is_ok (validate_transaction L tx height act available chain spent s)"
  using assms by (rule built_spend_validates)

text \<open>
  The store never loses or corrupts a key: creating an address either fails and leaves the file as
  it was, or appends one record whose script, leaf and root are those that its own entropy
  derives, keeps every earlier record in place, and makes the new script found by its lookup;
  a store of well-made records stays one.
\<close>
theorem create_appends_key:
  assumes "create L G rng scheme d = (r, d')"
  shows "(case r of
       Inl _ \<Rightarrow> d' = d
     | Inr rec \<Rightarrow> record_ok L G rec \<and> ar_scheme rec = scheme
         \<and> (\<exists>old. list_addresses d = Inr old \<and> list_addresses d' = Inr (old @ [rec]))
         \<and> (\<exists>found. get_by_spk d' (ar_script_pubkey rec) = Inr (Some found)
              \<and> ar_script_pubkey found = ar_script_pubkey rec))
    \<and> (store_ok L G d \<longrightarrow> store_ok L G d')"
proof (cases r)
  case (Inl e)
  then show ?thesis using create_error assms by fastforce
next
  case (Inr rec)
  note c = assms [unfolded Inr]
  then obtain old where "build_record L G rng scheme = Inr rec" "list_addresses d = Inr old"
    and "d' = d\<lparr>pf_json := JsonFile CURRENT_VERSION (old @ [rec])\<rparr>"
    by (auto simp: create_ok)
  then show ?thesis
    using build_record_ok created_is_found [OF c] create_keeps_store [OF _ c] Inr
    by (auto simp: list_addresses_def read_file_def)
qed

subsection \<open>A concrete hybrid address and its spend\<close>

definition demo_disk :: p2mr_disk where
  "demo_disk = \<lparr>pf_json = JsonNotFound, pf_writable = True\<rparr>"

definition demo_rng :: "nat \<Rightarrow> bytes option" where
  "demo_rng n = Some (replicate n 3)"

definition demo_record :: p2mr_address_record where
  "demo_record = (let leaf = build_hybrid_ec_slh_leaf (replicate 32 3) (replicate 32 3);
       root = sample_hash32 (0xc0 # take 24 leaf) in
     \<lparr>ar_scheme = HybridEcSlh, ar_entropy = replicate 160 3, ar_leaf_script = leaf,
      ar_merkle_root = root, ar_script_pubkey = [0x52, 0x20] @ root\<rparr>)"

lemma demo_hybrid_keys:
  "hybrid_keys sample_signing (replicate 32 3) (replicate 128 3) =
     Inr ((replicate 32 3, replicate 32 3), (replicate 32 3, 2 # replicate 32 3),
          build_hybrid_ec_slh_leaf (replicate 32 3) (replicate 32 3))"
proof -
  have "sample_public_key SLH_DSA_SHA2_128S (replicate 128 3) = replicate 32 3"
    by (simp add: sample_public_key_def take_replicate)
  then show ?thesis
    by (simp add: hybrid_keys_def sample_signing_def ec_keypair_from_entropy_def slh_pk32_def sample_tag_def)
qed

lemma demo_split: "split_ec_pqc (replicate 160 3) = Inr (replicate 32 3, replicate 128 3)"
  by (simp add: split_ec_pqc_def EC_ENTROPY_LEN_def PQC_ENTROPY_LEN_def take_replicate drop_replicate)

lemma demo_build: "build_record sample_libs sample_signing demo_rng HybridEcSlh = Inr demo_record"
  by (simp add: build_record_def random_entropy_def demo_rng_def mk_output_def demo_split demo_hybrid_keys
      p2mr_output_for_hybrid_ec_slh_def validate_hybrid_entropy_def single_leaf_merkle_root_def
      p2mr_script_pubkey_def demo_record_def Let_def EC_ENTROPY_LEN_def PQC_ENTROPY_LEN_def)

theorem create_appends_key_witness:
  "list_addresses (snd (create sample_libs sample_signing demo_rng HybridEcSlh demo_disk)) = Inr [demo_record]
    \<and> store_ok sample_libs sample_signing (snd (create sample_libs sample_signing demo_rng HybridEcSlh demo_disk))"
proof -
  let ?d = "demo_disk\<lparr>pf_json := JsonFile CURRENT_VERSION [demo_record]\<rparr>"
  have c: "create sample_libs sample_signing demo_rng HybridEcSlh demo_disk = (Inr demo_record, ?d)"
    by (simp add: create_ok demo_build demo_disk_def list_addresses_def read_file_def)
  have "store_ok sample_libs sample_signing demo_disk"
    by (simp add: store_ok_def list_addresses_def read_file_def demo_disk_def)
  then show ?thesis
    using create_appends_key [OF c] by (simp add: c list_addresses_def read_file_def)
qed

lemma demo_build_spend:
  assumes "total_output outs \<le> txo_value prevout"
  shows "\<exists>tx. build_spend sample_libs sample_signing demo_record op prevout outs SighashDefault = Inr tx"
proof -
  have rec: "ar_entropy demo_record = replicate 160 3" "ar_scheme demo_record = HybridEcSlh"
    by (simp_all add: demo_record_def Let_def)
  have "sample_prevouts_fit (unsigned_spend op outs) 0 (PrevoutsAll [prevout]) SighashDefault"
    by (simp add: sample_prevouts_fit_def unsigned_spend_def)
  moreover obtain f where "sg_sign sample_signing = (\<lambda>sk m. Some (f sk m))"
    by (simp add: sample_signing_def)
  ultimately show ?thesis
    using assms
    by (simp add: build_spend_def rec demo_split build_hybrid_ec_slh_spend_from_prevout_def demo_hybrid_keys
        validate_hybrid_entropy_def validate_output_value_def spend_sighash_def Let_def not_less)
qed

lemma sample_control_byte_only: "control_block_decode sample_libs [0xc1] = None"
  by (simp add: sample_control_block_def)

lemma demo_time_left: "time_left sample_libs 2 (pqc_state_new (Some new_default_budget))"
  by (simp add: time_left_def pqc_state_new_def new_default_budget_def with_budget_ms_def
      DEFAULT_PQC_VERIFY_BUDGET_MS_def)

theorem signed_spend_validates_witness:
  "\<exists>tx. build_spend sample_libs sample_signing demo_record \<lparr>op_txid = replicate 32 9, op_vout = 0\<rparr>
        \<lparr>txo_value = 50000, txo_script_pubkey = ar_script_pubkey demo_record\<rparr> [sample_out 40000 [0x51]]
        SighashDefault = Inr tx
    \<and> is_ok (validate_transaction sample_libs tx 7 0
        [\<lparr>op_txid = replicate 32 9, op_vout = 0\<rparr> \<mapsto> \<lparr>txo_value = 50000, txo_script_pubkey = ar_script_pubkey demo_record\<rparr>]
        None None (pqc_state_new (Some new_default_budget)))"
proof -
  let ?op = "\<lparr>op_txid = replicate 32 9, op_vout = 0\<rparr> :: out_point"
  let ?prevout = "\<lparr>txo_value = 50000, txo_script_pubkey = ar_script_pubkey demo_record\<rparr>"
  obtain tx where tx: "build_spend sample_libs sample_signing demo_record ?op ?prevout
      [sample_out 40000 [0x51]] SighashDefault = Inr tx"
    using demo_build_spend [of "[sample_out 40000 [0x51]]" ?prevout ?op]
    by (auto simp: total_output_def sample_out_def)
  have "record_ok sample_libs sample_signing demo_record"
    using build_record_ok [OF demo_build] by blast
  then have "is_ok (validate_transaction sample_libs tx 7 0 [?op \<mapsto> ?prevout]
      None None (pqc_state_new (Some new_default_budget)))"
    using signed_spend_validates [OF sample_script_laws sample_signing_laws sample_control_byte_only _ _ tx]
      demo_time_left
    by (simp add: sighash_anyonecanpay_def)
  then show ?thesis using tx by blast
qed

end
