(* ===== verification/Block_Producer.thy ===== *)
theory Block_Producer
  imports Queries P2mr_Store
begin

text \<open>
  The block producer (\<open>lib/block_producer/mod.rs\<close>): the queue of signed P2MR spends that wait for a
  block, their injection into block templates and their removal once mined; and the wallet calls
  that fill the queue (\<open>list_p2mr_outputs\<close>, \<open>spend_p2mr\<close> in \<open>lib/wallet/mod.rs\<close>).
\<close>

section \<open>The queue\<close>

text \<open>\<open>OrderMap<Txid, (Transaction, Amount)>\<close>: insertion order, one entry per key.\<close>

type_synonym pending_p2mr_spends = "(bytes \<times> transaction \<times> u64) list"

record producer =
  bp_validator :: validator
  bp_last_gbt_error :: "string option"
  bp_pending :: pending_p2mr_spends

definition enqueue_p2mr_spend ::
  "libs \<Rightarrow> transaction \<Rightarrow> u64 \<Rightarrow> pending_p2mr_spends \<Rightarrow> bytes \<times> pending_p2mr_spends" where
  "enqueue_p2mr_spend L tx fee pending =
     (let txid = compute_txid L tx in (txid, AList.update txid (tx, fee) pending))"

text \<open>\<open>swap_remove\<close>: the last entry takes the place of the removed one.\<close>

definition swap_remove :: "bytes \<Rightarrow> pending_p2mr_spends \<Rightarrow> pending_p2mr_spends" where
  "swap_remove txid pending =
     (let i = length (takeWhile (\<lambda>x. fst x \<noteq> txid) pending) in
      if i = length pending then pending else (butlast pending)[i := last pending])"

definition reap_confirmed_p2mr_spends :: "libs \<Rightarrow> block \<Rightarrow> pending_p2mr_spends \<Rightarrow> pending_p2mr_spends" where
  "reap_confirmed_p2mr_spends L blk pending =
     (if pending = [] then pending
      else foldl (\<lambda>q tx. swap_remove (compute_txid L tx) q) pending (blk_txdata blk))"

definition record_gbt_result :: "string + unit \<Rightarrow> producer \<Rightarrow> producer" where
  "record_gbt_result res p =
     p\<lparr>bp_last_gbt_error := (case res of Inl e \<Rightarrow> Some e | Inr _ \<Rightarrow> None)\<rparr>"

text \<open>The driver's calls: the validator's, and on an accepted block the queue is reaped.\<close>

definition producer_connect_block ::
  "libs \<Rightarrow> prevout_service \<Rightarrow> block \<Rightarrow> (producer, connect_block_error, connect_block_action) st" where
  "producer_connect_block L S blk = (\<lambda>p.
     case enforcer_connect_block L S blk (bp_validator p) of
       (Inl e, V) \<Rightarrow> (Inl e, p\<lparr>bp_validator := V\<rparr>)
     | (Inr res, V) \<Rightarrow>
         (Inr res,
          p\<lparr>bp_validator := V,
            bp_pending := (case res of AcceptBlock _ \<Rightarrow> reap_confirmed_p2mr_spends L blk (bp_pending p)
                           | RejectBlock \<Rightarrow> bp_pending p)\<rparr>))"

definition on_validator :: "(validator, 'e, 'a) st \<Rightarrow> (producer, 'e, 'a) st" where
  "on_validator m = (\<lambda>p. case m (bp_validator p) of (r, V) \<Rightarrow> (r, p\<lparr>bp_validator := V\<rparr>))"

definition producer_disconnect_block :: "libs \<Rightarrow> bytes \<Rightarrow> (producer, disconnect_block_error, unit) st" where
  "producer_disconnect_block L block_hash = on_validator (enforcer_disconnect_block L block_hash)"

definition producer_accept_tx :: "libs \<Rightarrow> transaction \<Rightarrow> (producer, validate_tx_error, tx_accept_action) st" where
  "producer_accept_tx L tx = on_validator (accept_tx L tx)"

definition producer_validate_block :: "libs \<Rightarrow> producer \<Rightarrow> block \<Rightarrow> db_error + pqc_validation_error option" where
  "producer_validate_block L p blk = validate_block L (bp_validator p) blk"

section \<open>Block templates\<close>

text \<open>
  The suffix of a template: weights are reserved first, and filled with the transactions and
  fees later. \<open>weight\<close> is \<open>Transaction::weight\<close>.
\<close>

definition initial_block_template ::
  "(transaction \<Rightarrow> nat) \<Rightarrow> producer \<Rightarrow> nat list \<Rightarrow> nat list \<times> producer" where
  "initial_block_template weight p suffix_txs =
     (suffix_txs @ map (\<lambda>(_, tx, _). weight tx) (bp_pending p), record_gbt_result (Inr ()) p)"

definition finalize_block_template ::
  "producer \<Rightarrow> (transaction \<times> u64) list \<Rightarrow> (transaction \<times> u64) list \<times> producer" where
  "finalize_block_template p suffix_txs =
     (suffix_txs @ map snd (bp_pending p), record_gbt_result (Inr ()) p)"

section \<open>The wallet's calls\<close>

record p2mr_wallet =
  wl_producer :: producer
  wl_store :: p2mr_disk

record p2mr_output =
  po_outpoint :: out_point
  po_txout :: tx_out
  po_is_mine :: bool

text \<open>\<open>entries\<close> is the iteration of the validator's P2MR map.\<close>

fun flag_outputs :: "p2mr_disk \<Rightarrow> (out_point \<times> tx_out) list \<Rightarrow> p2mr_store_error + p2mr_output list" where
  "flag_outputs d [] = Inr []"
| "flag_outputs d ((outpoint, txout) # rest) =
     bindE (get_by_spk d (txo_script_pubkey txout)) (\<lambda>r.
     bindE (flag_outputs d rest) (\<lambda>out.
     Inr (\<lparr>po_outpoint = outpoint, po_txout = txout, po_is_mine = (r \<noteq> None)\<rparr> # out)))"

definition list_p2mr_outputs :: "p2mr_disk \<Rightarrow> (out_point \<times> tx_out) list \<Rightarrow> p2mr_store_error + p2mr_output list" where
  "list_p2mr_outputs d entries =
     bindE (flag_outputs d entries) (\<lambda>out.
       Inr (sort_key (\<lambda>u. (op_txid (po_outpoint u), op_vout (po_outpoint u))) out))"

definition DEFAULT_P2MR_FEE_SATS :: u64 where "DEFAULT_P2MR_FEE_SATS = 1000"

datatype spend_p2mr_error =
  SpendUnknownUtxo out_point
| NotOurs out_point bytes
| AmountBelowDust u64 bytes
| FeeExceedsRemainder u64 u64 u64
| SpendStore p2mr_store_error

record p2mr_spend_outcome =
  so_txid :: bytes
  so_change_address :: "string option"
  so_change_sats :: u64

text \<open>Addresses and the dust rule: \<open>Address::from_script\<close> with its rendering, \<open>Amount::is_dust\<close>.\<close>

record address_libs =
  al_address :: "bytes \<Rightarrow> string option"
  al_is_dust :: "u64 \<Rightarrow> bytes \<Rightarrow> bool"

definition on_store :: "(p2mr_disk, p2mr_store_error, 'a) st \<Rightarrow> (p2mr_wallet, spend_p2mr_error, 'a) st" where
  "on_store m = (\<lambda>w. case m (wl_store w) of (r, d) \<Rightarrow> (mapErr SpendStore r, w\<lparr>wl_store := d\<rparr>))"

text \<open>The change output, if any: its outputs, its address, its value and the fee that is left.\<close>

definition spend_change ::
  "libs \<Rightarrow> signing \<Rightarrow> (nat \<Rightarrow> bytes option) \<Rightarrow> address_libs \<Rightarrow> p2mr_scheme \<Rightarrow> tx_out \<Rightarrow> u64 \<Rightarrow> u64 \<Rightarrow> u64
    \<Rightarrow> (p2mr_wallet, spend_p2mr_error, tx_out list \<times> string option \<times> u64 \<times> u64) st" where
  "spend_change L G rng A scheme prevout amount fee change =
     (if \<not> change > 0 then returnS ([], None, 0, fee)
      else if al_is_dust A change (txo_script_pubkey prevout)
      then returnS ([], None, 0, txo_value prevout - amount)
      else
        bindS (on_store (create L G rng scheme)) (\<lambda>change_record.
        bindS (liftS (\<lambda>_. ok_or (al_address A (ar_script_pubkey change_record)) (SpendStore StoreAddress))) (\<lambda>addr.
        returnS ([\<lparr>txo_value = change, txo_script_pubkey = ar_script_pubkey change_record\<rparr>],
                 Some addr, change, fee))))"

definition spend_p2mr ::
  "libs \<Rightarrow> signing \<Rightarrow> (nat \<Rightarrow> bytes option) \<Rightarrow> address_libs \<Rightarrow> out_point \<Rightarrow> bytes \<Rightarrow> u64 \<Rightarrow> u64 option
    \<Rightarrow> (p2mr_wallet, spend_p2mr_error, p2mr_spend_outcome) st" where
  "spend_p2mr L G rng A outpoint dest_spk amount fee_sats =
     bindS (liftS (\<lambda>w. ok_or (get_p2mr_utxo (vd_dbs (bp_validator (wl_producer w))) outpoint)
        (SpendUnknownUtxo outpoint))) (\<lambda>prevout.
     bindS (liftS (\<lambda>w. bindE (mapErr SpendStore (get_by_spk (wl_store w) (txo_script_pubkey prevout))) (\<lambda>r.
        ok_or r (NotOurs outpoint (txo_script_pubkey prevout))))) (\<lambda>rec.
     bindS (liftS (\<lambda>_. guardE (\<not> al_is_dust A amount dest_spk) (AmountBelowDust amount dest_spk))) (\<lambda>_.
     let fee = (case fee_sats of Some f \<Rightarrow> f | None \<Rightarrow> DEFAULT_P2MR_FEE_SATS) in
     bindS (liftS (\<lambda>_. ok_or (case checked_add_u64 amount fee of
           Some tot \<Rightarrow> if tot \<le> txo_value prevout then Some tot else None | None \<Rightarrow> None)
        (FeeExceedsRemainder amount fee (txo_value prevout)))) (\<lambda>tot.
     bindS (spend_change L G rng A (ar_scheme rec) prevout amount fee (txo_value prevout - tot))
       (\<lambda>(change_outputs, change_address, change_sats, actual_fee).
     bindS (liftS (\<lambda>_. mapErr SpendStore (build_spend L G rec outpoint prevout
        (\<lparr>txo_value = amount, txo_script_pubkey = dest_spk\<rparr> # change_outputs) SighashDefault))) (\<lambda>tx.
     bindS (modifyS (\<lambda>w. w\<lparr>wl_producer := (wl_producer w)\<lparr>bp_pending :=
        snd (enqueue_p2mr_spend L tx actual_fee (bp_pending (wl_producer w)))\<rparr>\<rparr>)) (\<lambda>_.
     returnS \<lparr>so_txid = compute_txid L tx, so_change_address = change_address, so_change_sats = change_sats\<rparr>)))))))"

section \<open>The queue holds each transaction once\<close>

definition queue_ok :: "libs \<Rightarrow> pending_p2mr_spends \<Rightarrow> bool" where
  "queue_ok L q = (distinct (map fst q) \<and> (\<forall>x \<in> set q. fst x = compute_txid L (fst (snd x))))"

lemma set_update: "distinct (map fst q) \<Longrightarrow> set (AList.update k v q) = {x \<in> set q. fst x \<noteq> k} \<union> {(k, v)}"
  by (induction q) (auto simp: rev_image_eqI)

lemma enqueue_ok:
  assumes "queue_ok L q"
  shows "queue_ok L (snd (enqueue_p2mr_spend L tx fee q))"
  using assms by (auto simp: queue_ok_def enqueue_p2mr_spend_def Let_def set_update distinct_update)

lemma swap_remove_set:
  assumes "distinct (map fst q)"
  shows "set (swap_remove k q) = {x \<in> set q. fst x \<noteq> k} \<and> distinct (map fst (swap_remove k q))"
proof (cases "k \<in> fst ` set q")
  case False
  then have all: "takeWhile (\<lambda>x. fst x \<noteq> k) q = q" by (auto simp: takeWhile_eq_all_conv)
  have "swap_remove k q = q" unfolding swap_remove_def all Let_def by simp
  then show ?thesis using assms False by force
next
  case True
  then obtain e where e: "e \<in> set q" "fst e = k" by auto
  then obtain xs ys where q: "q = xs @ e # ys" by (auto dest: split_list)
  have "k \<notin> fst ` set xs" "k \<notin> fst ` set ys" using assms e(2) by (auto simp: q)
  then have k: "\<forall>x \<in> set xs. fst x \<noteq> k" "\<forall>x \<in> set ys. fst x \<noteq> k" by (metis image_eqI)+
  then have "takeWhile (\<lambda>x. fst x \<noteq> k) q = xs"
    unfolding q using e(2) by (subst takeWhile_append2) auto
  then have sr: "swap_remove k q = (butlast q)[length xs := last q]"
    by (simp add: swap_remove_def q)
  show ?thesis
  proof (cases ys rule: rev_cases)
    case Nil
    then have "swap_remove k q = xs" unfolding sr by (simp add: q list_update_beyond)
    then show ?thesis using assms e(2) k Nil by (auto simp: q)
  next
    case (snoc zs l)
    then have "swap_remove k q = xs @ l # zs" unfolding sr by (simp add: q butlast_append)
    then show ?thesis using assms e(2) k by (auto simp: q snoc)
  qed
qed

lemma swap_remove_ok: "queue_ok L q \<Longrightarrow> queue_ok L (swap_remove k q)"
  using swap_remove_set [of q k] by (auto simp: queue_ok_def)

lemma reap_foldl:
  "queue_ok L q \<Longrightarrow>
   queue_ok L (foldl (\<lambda>q tx. swap_remove (compute_txid L tx) q) q txs)
   \<and> set (foldl (\<lambda>q tx. swap_remove (compute_txid L tx) q) q txs)
       = {x \<in> set q. fst x \<notin> compute_txid L ` set txs}"
proof (induction txs arbitrary: q)
  case (Cons tx txs)
  have "set (swap_remove (compute_txid L tx) q) = {x \<in> set q. fst x \<noteq> compute_txid L tx}"
    using swap_remove_set Cons.prems by (simp add: queue_ok_def)
  then show ?case using Cons.IH [OF swap_remove_ok [OF Cons.prems]] by auto
qed simp

lemma reap_set:
  assumes "queue_ok L q"
  shows "queue_ok L (reap_confirmed_p2mr_spends L blk q)
    \<and> set (reap_confirmed_p2mr_spends L blk q) = {x \<in> set q. fst x \<notin> compute_txid L ` set (blk_txdata blk)}"
  using reap_foldl [OF assms] assms by (cases "q = []") (simp_all add: reap_confirmed_p2mr_spends_def)

section \<open>Spending keeps the books\<close>

lemma on_store_eq:
  "(on_store m w = (Inr x, w')) = (\<exists>d. m (wl_store w) = (Inr x, d) \<and> w' = w\<lparr>wl_store := d\<rparr>)"
  "(on_store m w = (Inl e, w')) = (\<exists>e' d. m (wl_store w) = (Inl e', d) \<and> e = SpendStore e' \<and> w' = w\<lparr>wl_store := d\<rparr>)"
  by (auto simp: on_store_def mapErr_eq_Inl split: prod.splits)

text \<open>The change goes back to a new record of the same scheme, or into the fee.\<close>

lemma spend_change_ok:
  assumes "spend_change L G rng A scheme prevout amount fee change w = (Inr (outs, addr, sats, actual), w')"
    and "unat amount + unat fee + unat change = unat (txo_value prevout)"
  shows "wl_producer w' = wl_producer w \<and> unat amount + unat sats + unat actual = unat (txo_value prevout)
    \<and> unat fee \<le> unat actual
    \<and> (outs = [] \<and> sats = 0
       \<or> (\<exists>c. create L G rng scheme (wl_store w) = (Inr c, wl_store w')
            \<and> outs = [\<lparr>txo_value = sats, txo_script_pubkey = ar_script_pubkey c\<rparr>]))"
proof -
  have le: "amount \<le> txo_value prevout" using assms(2) by (simp add: word_le_nat_alt)
  then have sub: "unat (txo_value prevout - amount) = unat (txo_value prevout) - unat amount"
    by (rule unat_sub)
  moreover have "unat change = 0" if "\<not> 0 < change" using that by (simp add: word_less_nat_alt)
  ultimately show ?thesis
    using assms by (auto simp: spend_change_def bindS_eq_Inr on_store_eq split: if_splits)
qed

lemma spend_change_producer:
  "spend_change L G rng A scheme prevout amount fee change w = (r, w') \<Longrightarrow> wl_producer w' = wl_producer w"
  by (cases r) (auto simp: spend_change_def st_iffs on_store_eq split: if_splits)

lemma built_outputs: "build_spend L G r op prevout outs t = Inr tx \<Longrightarrow> tx_output tx = outs"
  and built_inputs: "build_spend L G r op prevout outs t = Inr tx \<Longrightarrow> map txi_previous_output (tx_input tx) = [op]"
  by (auto simp: build_spend_def Let_def build_p2mr_spend_from_prevout_def sign_p2mr_spend_core_def
      build_hybrid_ec_slh_spend_from_prevout_def unsigned_spend_def with_witness_def
      split: p2mr_scheme.splits)

lemma spend_p2mr_ok:
  assumes "spend_p2mr L G rng A op dest_spk amount fee_sats w = (Inr out, w')"
  defines "q \<equiv> bp_pending (wl_producer w)"
  shows "\<exists>prevout rec outs actual tx.
      get_p2mr_utxo (vd_dbs (bp_validator (wl_producer w))) op = Some prevout
    \<and> get_by_spk (wl_store w) (txo_script_pubkey prevout) = Inr (Some rec)
    \<and> \<not> al_is_dust A amount dest_spk
    \<and> unat amount + unat (so_change_sats out) + unat actual = unat (txo_value prevout)
    \<and> (case fee_sats of Some f \<Rightarrow> unat f | None \<Rightarrow> 1000) \<le> unat actual
    \<and> (outs = [] \<and> so_change_sats out = 0
       \<or> (\<exists>c. create L G rng (ar_scheme rec) (wl_store w) = (Inr c, wl_store w')
            \<and> outs = [\<lparr>txo_value = so_change_sats out, txo_script_pubkey = ar_script_pubkey c\<rparr>]))
    \<and> build_spend L G rec op prevout (\<lparr>txo_value = amount, txo_script_pubkey = dest_spk\<rparr> # outs) SighashDefault = Inr tx
    \<and> so_txid out = compute_txid L tx
    \<and> wl_producer w' = (wl_producer w)\<lparr>bp_pending := AList.update (compute_txid L tx) (tx, actual) q\<rparr>"
proof -
  define fee where "fee = (case fee_sats of Some f \<Rightarrow> f | None \<Rightarrow> DEFAULT_P2MR_FEE_SATS)"
  obtain prevout rec tot outs addr sats actual w1 tx where
    prevout: "get_p2mr_utxo (vd_dbs (bp_validator (wl_producer w))) op = Some prevout"
    and rec: "get_by_spk (wl_store w) (txo_script_pubkey prevout) = Inr (Some rec)"
    and dust: "\<not> al_is_dust A amount dest_spk"
    and tot: "checked_add_u64 amount fee = Some tot" "tot \<le> txo_value prevout"
    and change: "spend_change L G rng A (ar_scheme rec) prevout amount fee (txo_value prevout - tot) w
        = (Inr (outs, addr, sats, actual), w1)"
    and build: "build_spend L G rec op prevout (\<lparr>txo_value = amount, txo_script_pubkey = dest_spk\<rparr> # outs) SighashDefault = Inr tx"
    and w': "w' = w1\<lparr>wl_producer := (wl_producer w1)\<lparr>bp_pending :=
        snd (enqueue_p2mr_spend L tx actual (bp_pending (wl_producer w1)))\<rparr>\<rparr>"
    and out: "out = \<lparr>so_txid = compute_txid L tx, so_change_address = addr, so_change_sats = sats\<rparr>"
    using assms(1) unfolding spend_p2mr_def fee_def [symmetric]
    by (auto simp: bindS_eq_Inr Let_def split: option.splits if_splits)
  have "unat (txo_value prevout - tot) = unat (txo_value prevout) - unat tot"
    using tot(2) by (rule unat_sub)
  then have "unat amount + unat fee + unat (txo_value prevout - tot) = unat (txo_value prevout)"
    using tot by (simp add: checked_add_u64_Some word_le_nat_alt)
  note ch = spend_change_ok [OF change this]
  have "(case fee_sats of Some f \<Rightarrow> unat f | None \<Rightarrow> 1000) = unat fee"
    by (simp add: fee_def DEFAULT_P2MR_FEE_SATS_def split: option.split)
  then show ?thesis
    using prevout rec dust ch build
    by (intro exI [of _ prevout] exI [of _ rec] exI [of _ outs] exI [of _ actual] exI [of _ tx])
      (simp add: w' out q_def enqueue_p2mr_spend_def Let_def)
qed

lemma spend_p2mr_error:
  "spend_p2mr L G rng A op dest_spk amount fee_sats w = (Inl e, w') \<Longrightarrow> wl_producer w' = wl_producer w"
  unfolding spend_p2mr_def by (auto simp: st_iffs Let_def dest!: spend_change_producer)

section \<open>Properties\<close>

text \<open>
  C27: a mined spend leaves the queue and is not injected again: after an accepted block the queue
  holds exactly the entries whose txid the block does not have, still one per txid; the next
  template reserves the weight of exactly the transactions that are later appended, and none of
  them is in the block.
\<close>
theorem mined_spends_leave_queue:
  assumes "queue_ok L (bp_pending p)"
    and "producer_connect_block L S blk p = (Inr (AcceptBlock txids), p')"
  shows "queue_ok L (bp_pending p')
    \<and> set (bp_pending p') = {x \<in> set (bp_pending p). fst x \<notin> compute_txid L ` set (blk_txdata blk)}
    \<and> (\<exists>txs. fst (finalize_block_template p' suffix) = suffix @ txs
         \<and> fst (initial_block_template weight p' reserved) = reserved @ map (weight \<circ> fst) txs
         \<and> fst ` set txs \<inter> set (blk_txdata blk) = {})"
proof -
  obtain res V where c: "enforcer_connect_block L S blk (bp_validator p) = (res, V)" by fastforce
  have p': "bp_pending p' = reap_confirmed_p2mr_spends L blk (bp_pending p)"
    using assms(2) by (cases res) (auto simp: producer_connect_block_def c)
  note q = reap_set [OF assms(1), of blk, folded p']
  have "tx \<notin> set (blk_txdata blk)" if "(k, tx, fee) \<in> set (bp_pending p')" for k tx fee
  proof -
    have "k = compute_txid L tx" using q that unfolding queue_ok_def by fastforce
    moreover have "k \<notin> compute_txid L ` set (blk_txdata blk)" using q that by auto
    ultimately show ?thesis by blast
  qed
  then have "fst ` set (map snd (bp_pending p')) \<inter> set (blk_txdata blk) = {}" by auto
  moreover have "fst (finalize_block_template p' suffix) = suffix @ map snd (bp_pending p')"
    by (simp add: finalize_block_template_def)
  moreover have "fst (initial_block_template weight p' reserved)
      = reserved @ map (weight \<circ> fst) (map snd (bp_pending p'))"
    by (simp add: initial_block_template_def case_prod_unfold comp_def)
  ultimately show ?thesis using q by blast
qed

text \<open>
  C25: a wallet spend keeps the books. If it succeeds, the wallet held a key for a stored P2MR output;
  one transaction is queued, which spends this output alone and pays the amount, above dust, to
  the destination and the change, if any, to a new address of the same scheme that the store now
  holds; amount, change and the recorded fee add up to the output's value without wrap-around,
  and the fee is at least the one asked for. If it fails, nothing is queued.
\<close>
theorem spend_p2mr_keeps_books:
  assumes "spend_p2mr L G rng A op dest_spk amount fee_sats w = (r, w')"
  shows "case r of Inl _ \<Rightarrow> wl_producer w' = wl_producer w
    | Inr out \<Rightarrow> \<exists>prevout rec outs fee tx.
        db_p2mr_utxos (vd_dbs (bp_validator (wl_producer w))) op = Some prevout
      \<and> get_by_spk (wl_store w) (txo_script_pubkey prevout) = Inr (Some rec)
      \<and> map txi_previous_output (tx_input tx) = [op]
      \<and> tx_output tx = \<lparr>txo_value = amount, txo_script_pubkey = dest_spk\<rparr> # outs
      \<and> \<not> al_is_dust A amount dest_spk
      \<and> (outs = [] \<and> so_change_sats out = 0
         \<or> (\<exists>c. create L G rng (ar_scheme rec) (wl_store w) = (Inr c, wl_store w')
              \<and> outs = [\<lparr>txo_value = so_change_sats out, txo_script_pubkey = ar_script_pubkey c\<rparr>]))
      \<and> unat amount + unat (so_change_sats out) + unat fee = unat (txo_value prevout)
      \<and> (case fee_sats of Some f \<Rightarrow> unat f | None \<Rightarrow> 1000) \<le> unat fee
      \<and> so_txid out = compute_txid L tx
      \<and> wl_producer w' = (wl_producer w)\<lparr>bp_pending :=
          AList.update (compute_txid L tx) (tx, fee) (bp_pending (wl_producer w))\<rparr>"
proof (cases r)
  case (Inl e)
  then show ?thesis using spend_p2mr_error assms by simp
next
  case (Inr out)
  obtain prevout rec outs fee tx where
    "get_p2mr_utxo (vd_dbs (bp_validator (wl_producer w))) op = Some prevout"
    and build: "build_spend L G rec op prevout (\<lparr>txo_value = amount, txo_script_pubkey = dest_spk\<rparr> # outs) SighashDefault = Inr tx"
    and facts: "get_by_spk (wl_store w) (txo_script_pubkey prevout) = Inr (Some rec)"
      "\<not> al_is_dust A amount dest_spk"
      "outs = [] \<and> so_change_sats out = 0
       \<or> (\<exists>c. create L G rng (ar_scheme rec) (wl_store w) = (Inr c, wl_store w')
            \<and> outs = [\<lparr>txo_value = so_change_sats out, txo_script_pubkey = ar_script_pubkey c\<rparr>])"
      "unat amount + unat (so_change_sats out) + unat fee = unat (txo_value prevout)"
      "(case fee_sats of Some f \<Rightarrow> unat f | None \<Rightarrow> 1000) \<le> unat fee"
      "so_txid out = compute_txid L tx"
      "wl_producer w' = (wl_producer w)\<lparr>bp_pending :=
          AList.update (compute_txid L tx) (tx, fee) (bp_pending (wl_producer w))\<rparr>"
    using spend_p2mr_ok [OF assms [unfolded Inr]] by blast
  then have utxo: "db_p2mr_utxos (vd_dbs (bp_validator (wl_producer w))) op = Some prevout"
    by (simp add: get_p2mr_utxo_def p2mr_utxos_def)
  show ?thesis
    unfolding Inr sum.case
    by (rule exI [of _ prevout], rule exI [of _ rec], rule exI [of _ outs], rule exI [of _ fee], rule exI [of _ tx])
      (intro conjI utxo facts built_outputs [OF build] built_inputs [OF build])
qed

text \<open>
  C24: a queued wallet spend is one the enforcer accepts: if the store's records are its own, the
  transaction that a successful spend queues passes transaction validation against the stored
  P2MR set at every height.
\<close>
theorem queued_spend_validates:
  assumes "script_laws L" and "signing_laws L G" and "control_block_decode L [0xc1] = None"
    and "store_ok L G (wl_store w)"
    and "spend_p2mr L G rng A op dest_spk amount fee_sats w = (Inr out, w')"
    and "time_left L 2 s"
  shows "\<exists>tx fee. map_of (bp_pending (wl_producer w')) (so_txid out) = Some (tx, fee)
    \<and> is_ok (validate_transaction L tx height act (db_p2mr_utxos (vd_dbs (bp_validator (wl_producer w)))) chain spent s)"
proof -
  let ?D = "vd_dbs (bp_validator (wl_producer w))"
  obtain prevout rec outs fee tx where utxo: "get_p2mr_utxo ?D op = Some prevout"
    and rec: "get_by_spk (wl_store w) (txo_script_pubkey prevout) = Inr (Some rec)"
    and build: "build_spend L G rec op prevout (\<lparr>txo_value = amount, txo_script_pubkey = dest_spk\<rparr> # outs) SighashDefault = Inr tx"
    and txid: "so_txid out = compute_txid L tx"
    and w': "wl_producer w' = (wl_producer w)\<lparr>bp_pending :=
          AList.update (compute_txid L tx) (tx, fee) (bp_pending (wl_producer w))\<rparr>"
    using spend_p2mr_ok [OF assms(5)] by blast
  have rec': "record_ok L G rec" "txo_script_pubkey prevout = ar_script_pubkey rec"
    using get_by_spk_ok [OF assms(4) rec] by simp_all
  have "db_p2mr_utxos ?D op = Some prevout"
    using utxo by (simp add: get_p2mr_utxo_def p2mr_utxos_def)
  then have "is_ok (validate_transaction L tx height act (db_p2mr_utxos ?D) chain spent s)"
    by (intro built_spend_validates [OF assms(1-3) rec' build]) (use assms(6) in \<open>simp_all add: sighash_anyonecanpay_def\<close>)
  then show ?thesis by (simp add: w' txid update_conv')
qed

subsection \<open>A queue and a wallet spend\<close>

definition demo_producer :: producer where
  "demo_producer = \<lparr>bp_validator = demo_validator, bp_last_gbt_error = None,
     bp_pending = [(2 # replicate 31 0, genesis_coinbase, 5), (8 # replicate 31 0, demo_tx 2 [], 9)]\<rparr>"

lemma demo_txids:
  "compute_txid sample_libs genesis_coinbase = 2 # replicate 31 0"
  "compute_txid sample_libs (demo_tx t rest) = 8 # replicate 31 0"
  using demo_hash [of 2] demo_hash [of 8]
  by (simp_all add: genesis_coinbase_def demo_tx_def sample_tx_def flip: numeral_2_eq_2 del: replicate.simps)

theorem mined_spends_leave_queue_witness:
  "\<exists>p' :: producer. set (bp_pending p') = {(8 # replicate 31 0, demo_tx 2 [], 9)}"
proof -
  have "queue_ok sample_libs (bp_pending demo_producer)"
    using demo_txids by (simp add: queue_ok_def demo_producer_def del: sample_libs_sel replicate.simps)
  moreover obtain p' where "producer_connect_block sample_libs (demo_service []) genesis demo_producer
      = (Inr (AcceptBlock {}), p')"
    by (simp add: producer_connect_block_def demo_producer_def demo_accept1)
  ultimately have "set (bp_pending p')
      = {x \<in> set (bp_pending demo_producer). fst x \<notin> compute_txid sample_libs ` set (blk_txdata genesis)}"
    by (rule mined_spends_leave_queue [THEN conjunct2, THEN conjunct1])
  moreover have "{x \<in> set (bp_pending demo_producer). fst x \<notin> compute_txid sample_libs ` set (blk_txdata genesis)}
      = {(8 # replicate 31 0, demo_tx 2 [], 9)}"
    using demo_txids by (auto simp: demo_producer_def genesis_txs simp del: sample_libs_sel replicate.simps)
  ultimately show ?thesis by (intro exI [of _ p']) simp
qed

definition demo_address_libs :: address_libs where
  "demo_address_libs = \<lparr>al_address = (\<lambda>spk. Some ''bcrt1z''), al_is_dust = (\<lambda>v spk. v < 330)\<rparr>"

definition demo_utxo :: out_point where
  "demo_utxo = \<lparr>op_txid = replicate 32 9, op_vout = 0\<rparr>"

definition demo_wallet :: p2mr_wallet where
  "demo_wallet = \<lparr>
     wl_producer = \<lparr>
       bp_validator = demo_validator\<lparr>vd_dbs := dbs_new\<lparr>db_p2mr_utxos :=
         [demo_utxo \<mapsto> \<lparr>txo_value = 50000, txo_script_pubkey = ar_script_pubkey demo_record\<rparr>]\<rparr>\<rparr>,
       bp_last_gbt_error = None, bp_pending = []\<rparr>,
     wl_store = \<lparr>pf_json = JsonFile 1 [demo_record], pf_writable = True\<rparr>\<rparr>"

lemma demo_wallet_sel:
  "vd_dbs (bp_validator (wl_producer demo_wallet)) = dbs_new\<lparr>db_p2mr_utxos :=
     [demo_utxo \<mapsto> \<lparr>txo_value = 50000, txo_script_pubkey = ar_script_pubkey demo_record\<rparr>]\<rparr>"
  "wl_store demo_wallet = \<lparr>pf_json = JsonFile 1 [demo_record], pf_writable = True\<rparr>"
  by (simp_all add: demo_wallet_def)

lemma demo_spend_p2mr:
  "\<exists>out w. spend_p2mr sample_libs sample_signing demo_rng demo_address_libs demo_utxo [0x51] 40000 None demo_wallet
     = (Inr out, w)"
proof -
  let ?prevout = "\<lparr>txo_value = 50000, txo_script_pubkey = ar_script_pubkey demo_record\<rparr>"
  let ?change = "\<lparr>txo_value = 9000, txo_script_pubkey = ar_script_pubkey demo_record\<rparr> :: tx_out"
  have scheme: "ar_scheme demo_record = HybridEcSlh" by (simp add: demo_record_def Let_def)
  have dust: "al_is_dust demo_address_libs = (\<lambda>v spk. v < 330)"
    and addr: "al_address demo_address_libs = (\<lambda>spk. Some ''bcrt1z'')"
    by (simp_all add: demo_address_libs_def)
  have utxo: "get_p2mr_utxo (vd_dbs (bp_validator (wl_producer demo_wallet))) demo_utxo = Some ?prevout"
    by (simp add: get_p2mr_utxo_def p2mr_utxos_def demo_wallet_sel)
  have rec: "get_by_spk (wl_store demo_wallet) (ar_script_pubkey demo_record) = Inr (Some demo_record)"
    by (simp add: get_by_spk_def read_file_def demo_wallet_sel)
  have total: "checked_add_u64 40000 1000 = Some 41000" by (simp add: checked_add_u64_def)
  have create: "create sample_libs sample_signing demo_rng HybridEcSlh (wl_store demo_wallet)
      = (Inr demo_record, (wl_store demo_wallet)\<lparr>pf_json := JsonFile CURRENT_VERSION [demo_record, demo_record]\<rparr>)"
    by (simp add: create_ok demo_build list_addresses_def read_file_def demo_wallet_sel)
  let ?w1 = "demo_wallet\<lparr>wl_store := (wl_store demo_wallet)\<lparr>pf_json := JsonFile CURRENT_VERSION [demo_record, demo_record]\<rparr>\<rparr>"
  have change: "spend_change sample_libs sample_signing demo_rng demo_address_libs HybridEcSlh ?prevout 40000 1000 9000 demo_wallet
      = (Inr ([?change], Some ''bcrt1z'', 9000, 1000), ?w1)"
    by (simp add: spend_change_def dust addr bindS_eq_Inr on_store_eq create)
  obtain tx where tx: "build_spend sample_libs sample_signing demo_record demo_utxo ?prevout
      [\<lparr>txo_value = 40000, txo_script_pubkey = [0x51]\<rparr>, ?change] SighashDefault = Inr tx"
    using demo_build_spend [of "[\<lparr>txo_value = 40000, txo_script_pubkey = [0x51]\<rparr>, ?change]" ?prevout demo_utxo]
    by (auto simp: total_output_def)
  show ?thesis
    using utxo rec total change tx
    by (simp add: spend_p2mr_def bindS_eq_Inr DEFAULT_P2MR_FEE_SATS_def dust scheme)
qed

theorem spend_p2mr_keeps_books_witness:
  "\<exists>out w fee. spend_p2mr sample_libs sample_signing demo_rng demo_address_libs demo_utxo [0x51] 40000 None demo_wallet
      = (Inr out, w)
    \<and> 40000 + unat (so_change_sats out) + unat (fee :: u64) = 50000 \<and> 1000 \<le> unat fee"
proof -
  obtain out w where s: "spend_p2mr sample_libs sample_signing demo_rng demo_address_libs demo_utxo [0x51] 40000 None demo_wallet
      = (Inr out, w)"
    using demo_spend_p2mr by blast
  from spend_p2mr_keeps_books [OF s] obtain fee :: u64 where
    "40000 + unat (so_change_sats out) + unat fee = 50000 \<and> 1000 \<le> unat fee"
    by (auto simp: demo_wallet_sel)
  then show ?thesis using s by blast
qed

theorem queued_spend_validates_witness:
  "\<exists>tx fee txid. \<exists>w :: p2mr_wallet. map_of (bp_pending (wl_producer w)) txid = Some (tx, fee)
    \<and> is_ok (validate_transaction sample_libs tx 7 0
         (db_p2mr_utxos (vd_dbs (bp_validator (wl_producer demo_wallet)))) None None
         (pqc_state_new (Some new_default_budget)))"
proof -
  obtain out w where s: "spend_p2mr sample_libs sample_signing demo_rng demo_address_libs demo_utxo [0x51] 40000 None demo_wallet
      = (Inr out, w)"
    using demo_spend_p2mr by blast
  have "store_ok sample_libs sample_signing (wl_store demo_wallet)"
    using build_record_ok [OF demo_build]
    by (simp add: store_ok_def list_addresses_def read_file_def demo_wallet_sel)
  from queued_spend_validates [OF sample_script_laws sample_signing_laws sample_control_byte_only this s demo_time_left,
      where height = 7 and act = 0 and chain = None and spent = None]
  show ?thesis by blast
qed

end
