(* ===== verification/Mine.thy ===== *)
theory Mine
  imports Block_Producer
begin

text \<open>
  Mining without a wallet (\<open>lib/block_producer/mine.rs\<close>): the block value, the coinbase, the block on
  top of the validator's tip, the search for a nonce and the wait until the validator has connected
  the block. The node's services, the script builder, the Merkle trees, the proof-of-work test, the
  clock and what the validator shows while it is polled are the record \<open>mining_libs\<close>.
\<close>

section \<open>Libraries and errors\<close>

record block_template =
  bt_prev_blockhash :: bytes
  bt_transactions :: "(bytes \<times> bytes) list"
  bt_signet_challenge :: "bytes option"

record mining_libs =
  ml_get_block_template :: "string list \<Rightarrow> block_template option"
  ml_deserialize_tx :: "bytes \<Rightarrow> transaction option"
  ml_push_int :: "u32 \<Rightarrow> bytes"
  ml_witness_commitment :: "block \<Rightarrow> bytes"
  ml_merkle_root :: "bytes list \<Rightarrow> bytes"
  ml_regtest_bits :: u32
  ml_pow_ok :: "header \<Rightarrow> bool"
  ml_now :: "u64 option"
  ml_encode_block :: "block \<Rightarrow> bytes"
  ml_submit_block :: "string \<Rightarrow> string + string option"
  ml_polls :: "dbs list"

datatype select_block_txs_error =
  GetBlockTemplate "string option"
| TemplateTipMismatch bytes bytes
| DecodeTemplateTransaction bytes

datatype finalize_block_error = MineNoTip db_error | MineHeaderInfo header_info_error | MineClock

datatype await_connection_error = AwaitTimeout bytes | AwaitBlockInfos header_info_error

datatype mine_error =
  FinalizeBlock finalize_block_error | SubmitBlockRpc string | BlockRejected string
| AwaitConnection await_connection_error

datatype generate_block_error = ValidatorNotSynced | SelectBlockTxs select_block_txs_error | MineFailed mine_error

section \<open>Values and intervals\<close>

text \<open>The challenge that is compared is the ASCII text of the hex string, byte for byte.\<close>

definition target_block_interval :: "bytes \<Rightarrow> nat" where
  "target_block_interval signet_challenge =
     (if signet_challenge = map (\<lambda>c. word_of_nat (of_char c)) ''00141551188e5153533b4fdd555449e640d9cc129456''
      then 60 else 600)"

text \<open>\<open>fees + subsidy\<close> in satoshis; the callers pass no fees, so the sum does not overflow.\<close>

definition get_block_value :: "u32 \<Rightarrow> u64 \<Rightarrow> network \<Rightarrow> u64" where
  "get_block_value height fees net =
     (let subsidy_sats = 50 * 100000000 :: u64;
          subsidy_halving_interval = (case net of Regtest \<Rightarrow> 150 | _ \<Rightarrow> 210000);
          halvings = unat (height div subsidy_halving_interval) in
      if halvings \<ge> 64 then fees else fees + drop_bit halvings subsidy_sats)"

section \<open>Transactions and coinbase\<close>

fun decode_template_txs :: "mining_libs \<Rightarrow> (bytes \<times> bytes) list \<Rightarrow> select_block_txs_error + transaction list" where
  "decode_template_txs M [] = Inr []"
| "decode_template_txs M ((txid, data) # rest) =
     bindE (ok_or (ml_deserialize_tx M data) (DecodeTemplateTransaction txid)) (\<lambda>tx.
     bindE (decode_template_txs M rest) (\<lambda>txs. Inr (tx # txs)))"

definition select_block_txs :: "mining_libs \<Rightarrow> producer \<Rightarrow> bytes \<Rightarrow> select_block_txs_error + transaction list" where
  "select_block_txs M p mainchain_tip =
     bindE (ok_or (ml_get_block_template M [''segwit'']) (GetBlockTemplate (bp_last_gbt_error p))) (\<lambda>template.
     bindE (guardE (\<not> bt_prev_blockhash template \<noteq> mainchain_tip)
              (TemplateTipMismatch (bt_prev_blockhash template) mainchain_tip)) (\<lambda>_.
     decode_template_txs M (bt_transactions template)))"

definition WITNESS_RESERVED_VALUE :: bytes where "WITNESS_RESERVED_VALUE = replicate 32 0"

definition finalize_coinbase :: "mining_libs \<Rightarrow> u32 \<Rightarrow> bytes \<Rightarrow> tx_out list \<Rightarrow> transaction" where
  "finalize_coinbase M best_block_height coinbase_spk coinbase_outputs =
     (let script_sig = ml_push_int M (best_block_height + 1) @ [0x00];
          val = get_block_value (best_block_height + 1) 0 Regtest;
          output = (if val > 0 then [\<lparr>txo_value = val, txo_script_pubkey = coinbase_spk\<rparr>]
                    else [\<lparr>txo_value = 0, txo_script_pubkey = [0x6a]\<rparr>]) in
      \<lparr>tx_version = 2, tx_lock_time = 0,
       tx_input = [\<lparr>txi_previous_output = \<lparr>op_txid = all_zeros, op_vout = 0xffffffff\<rparr>,
                   txi_script_sig = script_sig, txi_sequence = 0xffffffff,
                   txi_witness = [WITNESS_RESERVED_VALUE]\<rparr>],
       tx_output = output @ coinbase_outputs\<rparr>)"

section \<open>The block\<close>

definition saturating_add_u32 :: "u32 \<Rightarrow> u32 \<Rightarrow> u32" where
  "saturating_add_u32 a b = (if unat a + unat b < 2 ^ 32 then a + b else - 1)"

text \<open>\<open>OP_RETURN\<close> and a direct push of the header and the commitment.\<close>

definition witness_commitment_spk :: "bytes \<Rightarrow> bytes" where
  "witness_commitment_spk commitment = [0x6a, 0x24] @ [0xaa, 0x21, 0xa9, 0xed] @ commitment"

definition push_coinbase_output :: "tx_out \<Rightarrow> block \<Rightarrow> block" where
  "push_coinbase_output out blk =
     blk\<lparr>blk_txdata := (case blk_txdata blk of [] \<Rightarrow> []
        | coinbase # txs \<Rightarrow> coinbase\<lparr>tx_output := tx_output coinbase @ [out]\<rparr> # txs)\<rparr>"

definition finalize_block ::
  "libs \<Rightarrow> mining_libs \<Rightarrow> dbs \<Rightarrow> bytes \<Rightarrow> tx_out list \<Rightarrow> transaction list \<Rightarrow> finalize_block_error + block" where
  "finalize_block L M D coinbase_spk coinbase_outputs transactions =
     bindE (mapErr MineNoTip (get_mainchain_tip D)) (\<lambda>best_block_hash.
     bindE (mapErr MineHeaderInfo (get_header_info L D best_block_hash)) (\<lambda>tip_header.
     let coinbase_tx = finalize_coinbase M (hi_height tip_header) coinbase_spk coinbase_outputs in
     bindE (ok_or (ml_now M) MineClock) (\<lambda>seconds.
     let now = ucast seconds :: u32;
         header = \<lparr>hdr_version = 0x20000000, hdr_prev_blockhash = best_block_hash,
           hdr_merkle_root = all_zeros,
           hdr_time = max now (saturating_add_u32 (hi_timestamp tip_header) 1),
           hdr_bits = ml_regtest_bits M, hdr_nonce = 0\<rparr>;
         blk0 = \<lparr>blk_header = header, blk_txdata = coinbase_tx # transactions\<rparr>;
         blk1 = push_coinbase_output
           \<lparr>txo_value = 0, txo_script_pubkey = witness_commitment_spk (ml_witness_commitment M blk0)\<rparr> blk0 in
     Inr (blk1\<lparr>blk_header := header\<lparr>hdr_merkle_root := ml_merkle_root M (map (compute_txid L) (blk_txdata blk1))\<rparr>\<rparr>))))"

text \<open>The loop over nonces; the increment wraps as in a release build, \<open>None\<close> is a loop without end.\<close>

partial_function (option) mine_loop :: "(header \<Rightarrow> bool) \<Rightarrow> header \<Rightarrow> header option" where
  "mine_loop pow_ok hdr =
     (let hdr' = hdr\<lparr>hdr_nonce := hdr_nonce hdr + 1\<rparr> in
      if pow_ok hdr' then Some hdr' else mine_loop pow_ok hdr')"

text \<open>
  The wait for the connection: \<open>polls\<close> are the databases as they are at the polls of the ten seconds.
\<close>

fun await_block_connection :: "libs \<Rightarrow> bytes \<Rightarrow> dbs list \<Rightarrow> await_connection_error + unit" where
  "await_block_connection L block_hash [] = Inl (AwaitTimeout block_hash)"
| "await_block_connection L block_hash (D # polls) =
     bindE (mapErr AwaitBlockInfos (try_get_block_infos L D block_hash 0)) (\<lambda>infos.
     if infos \<noteq> None then Inr () else await_block_connection L block_hash polls)"

text \<open>Mining, submitting and waiting for the validator.\<close>

definition mine ::
  "libs \<Rightarrow> mining_libs \<Rightarrow> dbs \<Rightarrow> bytes \<Rightarrow> tx_out list \<Rightarrow> transaction list \<Rightarrow> (mine_error + block) option" where
  "mine L M D coinbase_spk coinbase_outputs transactions =
     (case finalize_block L M D coinbase_spk coinbase_outputs transactions of
        Inl e \<Rightarrow> Some (Inl (FinalizeBlock e))
      | Inr blk \<Rightarrow>
          Option.bind (mine_loop (ml_pow_ok M) (blk_header blk)) (\<lambda>hdr.
            let mined = blk\<lparr>blk_header := hdr\<rparr> in
            Some (case ml_submit_block M (hex_encode (ml_encode_block M mined)) of
                    Inl err \<Rightarrow> Inl (SubmitBlockRpc err)
                  | Inr (Some reason) \<Rightarrow> Inl (BlockRejected reason)
                  | Inr None \<Rightarrow>
                      bindE (mapErr AwaitConnection (await_block_connection L (header_block_hash L hdr) (ml_polls M)))
                        (\<lambda>_. Inr mined))))"

text \<open>\<open>generate_block\<close> on networks other than signet.\<close>

definition generate_local_block ::
  "libs \<Rightarrow> mining_libs \<Rightarrow> producer \<Rightarrow> bytes \<Rightarrow> (generate_block_error + block) option" where
  "generate_local_block L M p coinbase_spk =
     (let D = vd_dbs (bp_validator p) in
      case try_get_mainchain_tip D of
        None \<Rightarrow> Some (Inl ValidatorNotSynced)
      | Some mainchain_tip \<Rightarrow>
          (case select_block_txs M p mainchain_tip of
             Inl e \<Rightarrow> Some (Inl (SelectBlockTxs e))
           | Inr transactions \<Rightarrow>
               Option.bind (mine L M D coinbase_spk [] transactions) (\<lambda>r. Some (mapErr MineFailed r))))"

section \<open>Verifying that mining is possible\<close>

datatype verify_can_mine_error =
  VerifyNetwork network
| NoBlockTemplateServerOnSignet
| MultipleBlocksOnSignet
| VerifyGetBlockTemplate "string option"
| NoSignetChallengeFound
| ChallengeNotAnAddress
| VerifyRpc string
| SignetChallengeAddressMissing string
| MissingBinary string bool

text \<open>\<open>sg_which\<close> is what the command \<open>which\<close> finds of a program, nothing when the command cannot be run.\<close>

record signet_setup =
  sg_template_server :: bool
  sg_address_from_script :: "bytes \<Rightarrow> string option"
  sg_is_mine :: "string \<Rightarrow> string + bool"
  sg_which :: "string \<Rightarrow> bool option"
  sg_bitcoin_cli_path :: string
  sg_bitcoin_util_path :: string

definition check_has_binary :: "signet_setup \<Rightarrow> string \<Rightarrow> verify_can_mine_error + unit" where
  "check_has_binary C binary =
     bindE (ok_or (sg_which C binary) (MissingBinary binary True)) (\<lambda>found.
     guardE found (MissingBinary binary False))"

definition verify_can_mine ::
  "mining_libs \<Rightarrow> signet_setup \<Rightarrow> producer \<Rightarrow> network \<Rightarrow> nat \<Rightarrow> verify_can_mine_error + unit" where
  "verify_can_mine M C p net blocks =
     (case net of
        Regtest \<Rightarrow> Inr ()
      | Signet \<Rightarrow>
          bindE (guardE (sg_template_server C) NoBlockTemplateServerOnSignet) (\<lambda>_.
          bindE (guardE (\<not> blocks > 1) MultipleBlocksOnSignet) (\<lambda>_.
          bindE (ok_or (ml_get_block_template M [''signet'', ''segwit''])
                   (VerifyGetBlockTemplate (bp_last_gbt_error p))) (\<lambda>template.
          bindE (ok_or (bt_signet_challenge template) NoSignetChallengeFound) (\<lambda>signet_challenge.
          bindE (ok_or (sg_address_from_script C signet_challenge) ChallengeNotAnAddress) (\<lambda>address.
          bindE (mapErr VerifyRpc (sg_is_mine C address)) (\<lambda>is_mine.
          bindE (guardE is_mine (SignetChallengeAddressMissing address)) (\<lambda>_.
          bindE (check_has_binary C ''python3'') (\<lambda>_.
          bindE (check_has_binary C (sg_bitcoin_cli_path C)) (\<lambda>_.
          check_has_binary C (sg_bitcoin_util_path C))))))))))
      | _ \<Rightarrow> Inl (VerifyNetwork net))"

section \<open>The search for a nonce\<close>

lemma mine_loop_step:
  "mine_loop pow_ok hdr =
     (if pow_ok (hdr\<lparr>hdr_nonce := hdr_nonce hdr + 1\<rparr>) then Some (hdr\<lparr>hdr_nonce := hdr_nonce hdr + 1\<rparr>)
      else mine_loop pow_ok (hdr\<lparr>hdr_nonce := hdr_nonce hdr + 1\<rparr>))"
  by (subst mine_loop.simps) (simp add: Let_def)

lemma mine_loop_Some:
  assumes "mine_loop pow_ok hdr = Some hdr'"
  shows "pow_ok hdr' \<and> hdr' = hdr\<lparr>hdr_nonce := hdr_nonce hdr'\<rparr>"
proof (rule mine_loop.raw_induct [OF _ assms, of "\<lambda>p h h'. p h' \<and> h' = h\<lparr>hdr_nonce := hdr_nonce h'\<rparr>"])
  fix loop p h and h' :: header
  assume IH: "\<And>p h h'. loop p h = Some h' \<Longrightarrow> p h' \<and> h' = h\<lparr>hdr_nonce := hdr_nonce h'\<rparr>"
    and eq: "(let hdr' = h\<lparr>hdr_nonce := hdr_nonce h + 1\<rparr> in if p hdr' then Some hdr' else loop p hdr') = Some h'"
  show "p h' \<and> h' = h\<lparr>hdr_nonce := hdr_nonce h'\<rparr>"
    using eq IH [of p "h\<lparr>hdr_nonce := hdr_nonce h + 1\<rparr>" h'] by (auto simp: Let_def split: if_splits)
qed

lemma mine_loop_ends:
  "pow_ok (hdr\<lparr>hdr_nonce := hdr_nonce hdr + of_nat (Suc k)\<rparr>) \<Longrightarrow> \<exists>hdr'. mine_loop pow_ok hdr = Some hdr'"
proof (induction k arbitrary: hdr)
  case 0
  then show ?case by (subst mine_loop_step) simp
next
  case (Suc k)
  have "pow_ok ((hdr\<lparr>hdr_nonce := hdr_nonce hdr + 1\<rparr>)\<lparr>hdr_nonce := hdr_nonce (hdr\<lparr>hdr_nonce := hdr_nonce hdr + 1\<rparr>) + of_nat (Suc k)\<rparr>)"
    using Suc.prems by (simp add: algebra_simps)
  from Suc.IH [OF this] show ?case by (subst mine_loop_step) auto
qed

lemma word_reachable: "\<exists>k. n = m + of_nat (Suc k)" for n m :: u32
proof -
  have "n = m + of_nat (Suc (unat (n - m - 1)))" by simp
  then show ?thesis by blast
qed

lemma mine_loop_None: "mine_loop pow_ok hdr = None \<longleftrightarrow> (\<forall>n. \<not> pow_ok (hdr\<lparr>hdr_nonce := n\<rparr>))"
proof
  assume none: "mine_loop pow_ok hdr = None"
  show "\<forall>n. \<not> pow_ok (hdr\<lparr>hdr_nonce := n\<rparr>)"
  proof
    fix n
    obtain k where "n = hdr_nonce hdr + of_nat (Suc k)" using word_reachable by blast
    then show "\<not> pow_ok (hdr\<lparr>hdr_nonce := n\<rparr>)" using mine_loop_ends [of pow_ok hdr k] none by auto
  qed
next
  assume none: "\<forall>n. \<not> pow_ok (hdr\<lparr>hdr_nonce := n\<rparr>)"
  show "mine_loop pow_ok hdr = None"
  proof (rule ccontr)
    assume "mine_loop pow_ok hdr \<noteq> None"
    then obtain hdr' where "mine_loop pow_ok hdr = Some hdr'" by auto
    from mine_loop_Some [OF this] none show False by metis
  qed
qed

section \<open>Block values and the mined block\<close>

lemma get_block_value_no_fees:
  "unat (get_block_value height 0 net) = 50 * 100000000 div 2 ^ unat (height div (case net of Regtest \<Rightarrow> 150 | _ \<Rightarrow> 210000))"
proof -
  let ?h = "unat (height div (case net of Regtest \<Rightarrow> 150 | _ \<Rightarrow> 210000))"
  have small: "5000000000 div 2 ^ ?h = (0 :: nat)" if "64 \<le> ?h"
  proof -
    have "(5000000000 :: nat) < 2 ^ 64" by simp
    also have "\<dots> \<le> 2 ^ ?h" using that by (intro power_increasing) simp_all
    finally show ?thesis by (rule div_less)
  qed
  then show ?thesis
    by (simp add: get_block_value_def Let_def unat_drop_bit_eq flip: drop_bit_eq_div del: drop_bit_numeral_minus_bit1)
qed

lemma saturating_add_one: "t < saturating_add_u32 t 1 \<or> t = - 1 \<and> saturating_add_u32 t 1 = - 1"
proof (cases "unat t + 1 < 2 ^ 32")
  case True
  then show ?thesis by (simp add: saturating_add_u32_def word_less_nat_alt unat_word_ariths)
next
  case False
  then have "unat t = 4294967295" using unsigned_less [of t, where 'a = nat] by simp
  have "t = word_of_nat (unat t)" by simp
  also have "\<dots> = - 1" unfolding \<open>unat t = 4294967295\<close> by simp
  finally have "t = - 1" .
  moreover have "saturating_add_u32 t 1 = - 1" using False by (simp add: saturating_add_u32_def)
  ultimately show ?thesis by simp
qed

text \<open>What a finished block is, before the search for its nonce.\<close>

lemma finalize_block_ok:
  assumes "finalize_block L M D spk outs txs = Inr blk"
  obtains tip info time coinbase where "db_tip D = Some tip" "get_header_info L D tip = Inr info"
    "hdr_prev_blockhash (blk_header blk) = tip" "hdr_time (blk_header blk) = max time (saturating_add_u32 (hi_timestamp info) 1)"
    "coinbase = finalize_coinbase M (hi_height info) spk outs"
    "blk_txdata blk = coinbase\<lparr>tx_output := tx_output coinbase @
        [\<lparr>txo_value = 0, txo_script_pubkey = witness_commitment_spk
            (ml_witness_commitment M \<lparr>blk_header = (blk_header blk)\<lparr>hdr_merkle_root := all_zeros\<rparr>, blk_txdata = coinbase # txs\<rparr>)\<rparr>]\<rparr> # txs"
    "hdr_merkle_root (blk_header blk) = ml_merkle_root M (map (compute_txid L) (blk_txdata blk))"
proof -
  obtain tip info seconds where *: "db_tip D = Some tip" "get_header_info L D tip = Inr info" "ml_now M = Some seconds"
    using assms by (auto simp: finalize_block_def get_mainchain_tip_def bindE_eq_Inr split: option.splits)
  show thesis
    by (rule that [of tip info "ucast seconds" "finalize_coinbase M (hi_height info) spk outs"])
      (use assms * in \<open>auto simp: finalize_block_def get_mainchain_tip_def push_coinbase_output_def Let_def\<close>)
qed

lemma await_block_connection_ok:
  "await_block_connection L h polls = Inr () \<Longrightarrow>
     \<exists>D\<in>set polls. \<exists>infos. try_get_block_infos L D h 0 = Inr (Some infos)"
  by (induction polls) (auto simp: bindE_eq_Inr split: if_splits)

lemma mine_ok:
  assumes "mine L M D spk outs txs = Some (Inr blk)"
  obtains blk0 where "finalize_block L M D spk outs txs = Inr blk0"
    "blk = blk0\<lparr>blk_header := (blk_header blk0)\<lparr>hdr_nonce := hdr_nonce (blk_header blk)\<rparr>\<rparr>"
    "ml_pow_ok M (blk_header blk)" "ml_submit_block M (hex_encode (ml_encode_block M blk)) = Inr None"
    "await_block_connection L (header_block_hash L (blk_header blk)) (ml_polls M) = Inr ()"
proof -
  obtain blk0 hdr where *: "finalize_block L M D spk outs txs = Inr blk0"
      "mine_loop (ml_pow_ok M) (blk_header blk0) = Some hdr" "blk = blk0\<lparr>blk_header := hdr\<rparr>"
      "ml_submit_block M (hex_encode (ml_encode_block M blk)) = Inr None"
      "await_block_connection L (header_block_hash L (blk_header blk)) (ml_polls M) = Inr ()"
  proof (cases "finalize_block L M D spk outs txs")
    case (Inr blk0)
    with assms obtain hdr where hdr: "mine_loop (ml_pow_ok M) (blk_header blk0) = Some hdr"
      by (cases "mine_loop (ml_pow_ok M) (blk_header blk0)") (auto simp: mine_def)
    show thesis
      by (rule that [OF Inr hdr]) (use assms Inr hdr in \<open>auto simp: mine_def Let_def split: sum.splits option.splits\<close>)
  qed (use assms in \<open>simp add: mine_def\<close>)
  show thesis
    by (rule that [OF *(1)]) (use mine_loop_Some [OF *(2)] *(3,4,5) in auto)
qed

section \<open>Properties\<close>

text \<open>
  C29: a block that is mined and taken by the node extends the validator's tip. Its parent is the tip,
  so the parent check of the connection passes; its time is past the tip's unless that is the
  greatest 32-bit time; it has the proof of work; its transactions are a
  coinbase, with the null input, and exactly the given ones in their order, under the Merkle
  root of their txids; the coinbase pays the subsidy of the next height, and nothing of the fees,
  to the given script. When mining returns, the validator has stored the block.
\<close>
theorem mined_block_extends_tip:
  assumes "mine L M D spk outs txs = Some (Inr blk)"
  shows "check_parent blk D = Inr ()
    \<and> ml_pow_ok M (blk_header blk) \<and> ml_submit_block M (hex_encode (ml_encode_block M blk)) = Inr None
    \<and> (\<exists>D'\<in>set (ml_polls M). \<exists>infos. try_get_block_infos L D' (header_block_hash L (blk_header blk)) 0 = Inr (Some infos))
    \<and> hdr_merkle_root (blk_header blk) = ml_merkle_root M (map (compute_txid L) (blk_txdata blk))
    \<and> (\<exists>info coinbase commitment out. get_header_info L D (hdr_prev_blockhash (blk_header blk)) = Inr info
        \<and> (hi_timestamp info < hdr_time (blk_header blk) \<or> hi_timestamp info = - 1 \<and> hdr_time (blk_header blk) = - 1)
        \<and> blk_txdata blk = coinbase # txs
        \<and> map txi_previous_output (tx_input coinbase) = [\<lparr>op_txid = all_zeros, op_vout = 0xffffffff\<rparr>]
        \<and> tx_output coinbase = out # outs @ [\<lparr>txo_value = 0, txo_script_pubkey = witness_commitment_spk commitment\<rparr>]
        \<and> unat (txo_value out) = 50 * 100000000 div 2 ^ unat ((hi_height info + 1) div 150)
        \<and> txo_script_pubkey out = (if txo_value out = 0 then [0x6a] else spk))"
proof -
  obtain blk0 where fin: "finalize_block L M D spk outs txs = Inr blk0"
    and blk: "blk = blk0\<lparr>blk_header := (blk_header blk0)\<lparr>hdr_nonce := hdr_nonce (blk_header blk)\<rparr>\<rparr>"
    and pow: "ml_pow_ok M (blk_header blk)" "ml_submit_block M (hex_encode (ml_encode_block M blk)) = Inr None"
    and await: "await_block_connection L (header_block_hash L (blk_header blk)) (ml_polls M) = Inr ()"
    using mine_ok [OF assms] by blast
  have connected: "\<exists>D'\<in>set (ml_polls M). \<exists>infos. try_get_block_infos L D' (header_block_hash L (blk_header blk)) 0 = Inr (Some infos)"
    using await_block_connection_ok [OF await] .
  have same: "blk_txdata blk = blk_txdata blk0" "hdr_time (blk_header blk) = hdr_time (blk_header blk0)"
    "hdr_prev_blockhash (blk_header blk) = hdr_prev_blockhash (blk_header blk0)"
    "hdr_merkle_root (blk_header blk) = hdr_merkle_root (blk_header blk0)"
    by (subst blk, simp)+
  show ?thesis
  proof (rule finalize_block_ok [OF fin])
    fix tip info time coinbase
    assume f: "db_tip D = Some tip" "get_header_info L D tip = Inr info"
      "hdr_prev_blockhash (blk_header blk0) = tip"
      "hdr_time (blk_header blk0) = max time (saturating_add_u32 (hi_timestamp info) 1)"
      "coinbase = finalize_coinbase M (hi_height info) spk outs"
      "hdr_merkle_root (blk_header blk0) = ml_merkle_root M (map (compute_txid L) (blk_txdata blk0))"
      "blk_txdata blk0 = coinbase\<lparr>tx_output := tx_output coinbase @
        [\<lparr>txo_value = 0, txo_script_pubkey = witness_commitment_spk
            (ml_witness_commitment M \<lparr>blk_header = (blk_header blk0)\<lparr>hdr_merkle_root := all_zeros\<rparr>, blk_txdata = coinbase # txs\<rparr>)\<rparr>]\<rparr> # txs"
    have "hi_timestamp info < hdr_time (blk_header blk0) \<or> hi_timestamp info = - 1 \<and> hdr_time (blk_header blk0) = - 1"
      using saturating_add_one [of "hi_timestamp info"] unfolding f(4)
      by (auto simp: max_def not_le)
    moreover have "check_parent blk D = Inr ()"
      using f by (simp add: check_parent_def same)
    moreover have "(50 * 100000000 div 2 ^ unat ((hi_height info + 1) div 150) = (0 :: nat))
        = (get_block_value (hi_height info + 1) 0 Regtest = 0)"
      unfolding unat_eq_0 [of "get_block_value (hi_height info + 1) 0 Regtest", symmetric]
      using get_block_value_no_fees [of "hi_height info + 1" Regtest] by simp
    ultimately show ?thesis
      using f pow connected get_block_value_no_fees [of "hi_height info + 1" Regtest]
      by (auto simp: same finalize_coinbase_def Let_def word_gt_0)
  qed
qed

text \<open>
  The search for a nonce tries every nonce. Mining runs for ever only if a block could be
  built and no nonce at all gives its header the proof of work; in every other case it returns.
\<close>
theorem mining_stops:
  "mine L M D spk outs txs = None \<longleftrightarrow>
     (\<exists>blk. finalize_block L M D spk outs txs = Inr blk \<and> (\<forall>n. \<not> ml_pow_ok M ((blk_header blk)\<lparr>hdr_nonce := n\<rparr>)))"
  by (auto simp: mine_def Let_def mine_loop_None bind_eq_None_conv split: sum.splits option.splits)

subsection \<open>Mining on top of the first block\<close>

definition demo_mining :: mining_libs where
  "demo_mining = \<lparr>ml_get_block_template = (\<lambda>_. None), ml_deserialize_tx = (\<lambda>_. None),
     ml_push_int = (\<lambda>n. [ucast n]), ml_witness_commitment = (\<lambda>_. replicate 32 7), ml_merkle_root = concat,
     ml_regtest_bits = 0x207fffff, ml_pow_ok = (\<lambda>h. hdr_nonce h = 3), ml_now = Some 1700000000,
     ml_encode_block = (\<lambda>_. []), ml_submit_block = (\<lambda>_. Inr None), ml_polls = []\<rparr>"

lemma demo_state1_tip:
  "db_tip demo_state1 = Some (2 # replicate 31 0)"
  "is_ok (get_header_info sample_libs demo_state1 (2 # replicate 31 0))"
proof -
  show "db_tip demo_state1 = Some (2 # replicate 31 0)"
    using node_run_inv [OF demo_state1(2)] demo_hashes(1) demo_not_zeros [of 2]
    by (simp add: tracks_def parent_hash_def del: sample_libs_sel replicate.simps)
  show "is_ok (get_header_info sample_libs demo_state1 (2 # replicate 31 0))"
    using demo_dbs_headers(1,3) demo_hashes(1) unfolding demo_state1(3,4) [symmetric]
    by (simp add: get_header_info_def try_get_header_info_def del: sample_libs_sel replicate.simps)
qed

text \<open>The first poll still shows the old state, the second one a state with the mined header.\<close>

definition demo_polls :: "header \<Rightarrow> dbs list" where
  "demo_polls hdr = [dbs_new, dbs_new\<lparr>db_header := [header_block_hash sample_libs hdr \<mapsto> hdr],
     db_height := [header_block_hash sample_libs hdr \<mapsto> 1], db_coinbase_txid := [header_block_hash sample_libs hdr \<mapsto> []]\<rparr>]"

lemma demo_polls_connect:
  "await_block_connection sample_libs (header_block_hash sample_libs hdr) (demo_polls hdr) = Inr ()"
  by (simp add: demo_polls_def try_get_block_infos_def try_get_header_infos_def try_get_header_info_def
      try_get_block_info_def dbs_new_def del: sample_libs_sel)

theorem mined_block_extends_tip_witness:
  "\<exists>M blk. mine sample_libs M demo_state1 [0x51] [] [] = Some (Inr blk)
    \<and> check_parent blk demo_state1 = Inr () \<and> hdr_nonce (blk_header blk) = 3"
proof -
  obtain info where "get_header_info sample_libs demo_state1 (2 # replicate 31 0) = Inr info"
    using demo_state1_tip(2) by (cases "get_header_info sample_libs demo_state1 (2 # replicate 31 0)") auto
  then have "\<exists>blk0. finalize_block sample_libs demo_mining demo_state1 [0x51] [] [] = Inr blk0"
    by (simp add: finalize_block_def get_mainchain_tip_def demo_state1_tip(1) demo_mining_def Let_def
        del: sample_libs_sel replicate.simps)
  then obtain blk0 where fin0: "finalize_block sample_libs demo_mining demo_state1 [0x51] [] [] = Inr blk0" by blast
  have pow0: "ml_pow_ok demo_mining = (\<lambda>h. hdr_nonce h = 3)" by (simp add: demo_mining_def)
  have "mine_loop (ml_pow_ok demo_mining) (blk_header blk0) \<noteq> None"
    by (auto simp: mine_loop_None pow0)
  then obtain hdr where hdr: "mine_loop (ml_pow_ok demo_mining) (blk_header blk0) = Some hdr" by blast
  define M where "M = demo_mining\<lparr>ml_polls := demo_polls hdr\<rparr>"
  have fin: "finalize_block sample_libs M demo_state1 [0x51] [] [] = Inr blk0"
    using fin0 by (simp add: M_def finalize_block_def finalize_coinbase_def)
  have "mine sample_libs M demo_state1 [0x51] [] [] = Some (Inr (blk0\<lparr>blk_header := hdr\<rparr>))"
    using fin hdr demo_polls_connect by (simp add: mine_def M_def demo_mining_def Let_def)
  then obtain blk where mined: "mine sample_libs M demo_state1 [0x51] [] [] = Some (Inr blk)" by blast
  have pow: "ml_pow_ok M = (\<lambda>h. hdr_nonce h = 3)" by (simp add: M_def pow0)
  show ?thesis using mined_block_extends_tip [OF mined] mined by (auto simp: pow)
qed

end
