(* ===== verification/Text.thy ===== *)
theory Text
  imports Queries
begin

text \<open>
  Operations on strings that several services use: decimal numbers, searching, splitting and
  joining, as the Rust standard library has them on ASCII strings.
\<close>

section \<open>Decimal numbers\<close>

fun show_nat :: "nat \<Rightarrow> string" where
  "show_nat n = (if n < 10 then [char_of (48 + n)] else show_nat (n div 10) @ [char_of (48 + n mod 10)])"

declare show_nat.simps [simp del]

definition parse_u16 :: "string \<Rightarrow> u16 option" where
  "parse_u16 s =
     (let digits = (case s of CHR ''+'' # rest \<Rightarrow> rest | _ \<Rightarrow> s) in
      if digits \<noteq> [] \<and> list_all is_digit digits \<and> digits_value digits < 2 ^ 16
      then Some (word_of_nat (digits_value digits)) else None)"

lemma digits_value_snoc: "digits_value (s @ [c]) = 10 * digits_value s + (of_char c - 48)"
  by (simp add: digits_value_def)

lemma of_char_digit: "n < 10 \<Longrightarrow> (of_char (char_of (48 + n) :: char) :: nat) = 48 + n"
  by (simp add: of_char_of)

lemma show_nat_digits: "show_nat n \<noteq> [] \<and> list_all is_digit (show_nat n) \<and> digits_value (show_nat n) = n"
proof (induction n rule: show_nat.induct)
  case (1 n)
  show ?case
  proof (cases "n < 10")
    case True
    then show ?thesis
      by (simp add: show_nat.simps [of n] is_digit_def digits_value_def of_char_digit)
  next
    case False
    have "is_digit (char_of (48 + n mod 10))" by (simp add: is_digit_def of_char_digit)
    moreover have "show_nat n = show_nat (n div 10) @ [char_of (48 + n mod 10)]"
      using False by (subst show_nat.simps) simp
    ultimately show ?thesis using 1 False by (simp add: digits_value_snoc of_char_digit)
  qed
qed

lemma show_nat_no_plus: "show_nat n \<noteq> CHR ''+'' # rest"
  using show_nat_digits [of n] by (auto simp: is_digit_def)

lemma parse_u16_show: "parse_u16 (show_nat (unat p)) = Some p"
proof -
  have "unat p < 2 ^ 16" using unsigned_less [of p, where 'a = nat] by simp
  moreover have "(case show_nat (unat p) of CHR ''+'' # rest \<Rightarrow> rest | _ \<Rightarrow> show_nat (unat p)) = show_nat (unat p)"
    using show_nat_no_plus [of "unat p"] by (auto split: list.splits char.splits bool.splits)
  ultimately show ?thesis
    using show_nat_digits [of "unat p"] unfolding parse_u16_def by (simp add: Let_def)
qed

section \<open>Searching, splitting and joining\<close>

fun contains_str :: "string \<Rightarrow> string \<Rightarrow> bool" where
  "contains_str [] needle = (needle = [])"
| "contains_str (c # cs) needle = (take (length needle) (c # cs) = needle \<or> contains_str cs needle)"

definition starts_with :: "string \<Rightarrow> string \<Rightarrow> bool" where
  "starts_with s prefix = (take (length prefix) s = prefix)"

definition strip_prefix :: "string \<Rightarrow> string \<Rightarrow> string option" where
  "strip_prefix s prefix = (if starts_with s prefix then Some (drop (length prefix) s) else None)"

text \<open>\<open>str::split\<close> on one character: always at least one part.\<close>

fun split_on :: "char \<Rightarrow> string \<Rightarrow> string list" where
  "split_on c [] = [[]]"
| "split_on c (x # xs) =
     (if x = c then [] # split_on c xs
      else case split_on c xs of p # ps \<Rightarrow> (x # p) # ps | [] \<Rightarrow> [[x]])"

definition rsplit_once :: "char \<Rightarrow> string \<Rightarrow> (string \<times> string) option" where
  "rsplit_once c s =
     (if c \<in> set s then Some (rev (tl (dropWhile (\<lambda>x. x \<noteq> c) (rev s))), rev (takeWhile (\<lambda>x. x \<noteq> c) (rev s)))
      else None)"

fun join :: "string \<Rightarrow> string list \<Rightarrow> string" where
  "join sep [] = []"
| "join sep [x] = x"
| "join sep (x # y # xs) = x @ sep @ join sep (y # xs)"

lemma contains_str_iff: "contains_str s needle \<longleftrightarrow> (\<exists>pre suf. s = pre @ needle @ suf)"
proof (induction s)
  case (Cons c cs)
  show ?case
  proof
    assume "contains_str (c # cs) needle"
    then consider "take (length needle) (c # cs) = needle" | "contains_str cs needle" by auto
    then show "\<exists>pre suf. c # cs = pre @ needle @ suf"
    proof cases
      case 1
      then have "c # cs = [] @ needle @ drop (length needle) (c # cs)"
        using append_take_drop_id [of "length needle" "c # cs"] by simp
      then show ?thesis by blast
    next
      case 2
      then show ?thesis using Cons.IH by (metis append_Cons)
    qed
  next
    assume "\<exists>pre suf. c # cs = pre @ needle @ suf"
    then obtain pre suf where eq: "c # cs = pre @ needle @ suf" by blast
    show "contains_str (c # cs) needle"
    proof (cases pre)
      case Nil
      then have "take (length needle) (c # cs) = needle" using eq by simp
      then show ?thesis by simp
    next
      case (Cons x xs)
      then have "contains_str cs needle" using eq Cons.IH by auto
      then show ?thesis by simp
    qed
  qed
qed auto

lemma split_on_nonempty [simp]: "split_on c s \<noteq> []"
  by (induction s) (auto split: list.splits)

lemma split_on_join: "join [c] (split_on c s) = s"
proof (induction s)
  case (Cons x xs)
  moreover have "join [c] ((x # p) # ps) = x # join [c] (p # ps)" for p ps by (cases ps) simp_all
  moreover obtain p ps where "split_on c xs = p # ps" by (metis list.exhaust split_on_nonempty)
  ultimately show ?case by auto
qed simp

lemma split_on_clean: "p \<in> set (split_on c s) \<Longrightarrow> c \<notin> set p"
  by (induction s arbitrary: p) (auto split: list.splits if_splits)

lemma split_on_single: "c \<notin> set s \<Longrightarrow> split_on c s = [s]"
  by (induction s) auto

lemma split_on_first: "c \<notin> set p \<Longrightarrow> split_on c (p @ c # s) = p # split_on c s"
  by (induction p) auto

lemma rsplit_once_last: "c \<notin> set t \<Longrightarrow> rsplit_once c (s @ c # t) = Some (s, t)"
  by (subst rsplit_once_def) (auto simp: takeWhile_append dropWhile_append)

lemma rsplit_once_Some: "rsplit_once c s = Some (p, t) \<Longrightarrow> s = p @ c # t \<and> c \<notin> set t"
proof -
  assume *: "rsplit_once c s = Some (p, t)"
  then have mem: "c \<in> set (rev s)" by (auto simp: rsplit_once_def split: if_splits)
  then have "rev s = takeWhile (\<lambda>x. x \<noteq> c) (rev s) @ dropWhile (\<lambda>x. x \<noteq> c) (rev s)"
    and "dropWhile (\<lambda>x. x \<noteq> c) (rev s) = c # tl (dropWhile (\<lambda>x. x \<noteq> c) (rev s))"
    by (simp, metis (mono_tags, lifting) dropWhile_eq_Nil_conv hd_dropWhile list.collapse)
  then have "rev s = rev t @ c # rev p"
    using * by (auto simp: rsplit_once_def split: if_splits)
  then have "s = p @ c # t" by (metis rev.simps(2) rev_append rev_rev_ident append.assoc append_Cons append_Nil)
  moreover have "c \<notin> set t" using * by (auto simp: rsplit_once_def dest: set_takeWhileD split: if_splits)
  ultimately show ?thesis by simp
qed

end
