(* ===== verification/Wallet_Seed.thy ===== *)
theory Wallet_Seed
  imports Text
begin

text \<open>
  The wallet's seed (\<open>lib/wallet/seed_store.rs\<close>, \<open>lib/wallet/mnemonic.rs\<close>) and the operations of
  \<open>lib/wallet/mod.rs\<close> that create, open and unlock a wallet. The directory of the seed file keeps
  apart what a process sees and what is on the disk, so that the steps of the atomic write can be
  interrupted by a crash. Argon2, AES-GCM, BIP 39, the JSON codec and the BDK wallet are the
  record \<open>seed_libs\<close>.
\<close>

section \<open>The seed file\<close>

text \<open>Strings are their UTF-8 bytes; mnemonics have the type \<open>'m\<close>.\<close>

record encrypted_mnemonic =
  em_initialization_vector :: bytes
  em_ciphertext_mnemonic :: bytes
  em_key_salt :: bytes

datatype stored_seed = PlaintextSeed bytes | EncryptedSeed encrypted_mnemonic

record seed_file =
  sf_version :: u32
  sf_created_at :: u64
  sf_birthday_height :: "u32 option"
  sf_seed :: stored_seed

definition SEED_CURRENT_VERSION :: u32 where "SEED_CURRENT_VERSION = 1"

text \<open>
  The libraries: the JSON codec, the words of a mnemonic and its parsers, the random sources, the
  key derivation and the cipher, the extended private key as text, the BDK wallet \<open>'w\<close> and its
  database \<open>'d\<close>, the clock and the node's block count.
\<close>

record ('m, 'w, 'd) seed_libs =
  sl_json_encode :: "seed_file \<Rightarrow> bytes"
  sl_json_decode :: "bytes \<Rightarrow> seed_file option"
  sl_words :: "'m \<Rightarrow> bytes"
  sl_parse_english :: "bytes \<Rightarrow> 'm option"
  sl_from_str :: "bytes \<Rightarrow> 'm option"
  sl_generate :: "'m option"
  sl_random_salt :: "bytes option"
  sl_random_nonce :: bytes
  sl_argon2 :: "bytes \<Rightarrow> bytes \<Rightarrow> bytes option"
  sl_aes_encrypt :: "bytes \<Rightarrow> bytes \<Rightarrow> bytes \<Rightarrow> bytes option"
  sl_aes_decrypt :: "bytes \<Rightarrow> bytes \<Rightarrow> bytes \<Rightarrow> bytes option"
  sl_extended_key :: "'m \<Rightarrow> bytes option"
  sl_xprv :: "bytes \<Rightarrow> network \<Rightarrow> string option"
  sl_load_wallet :: "string \<Rightarrow> string \<Rightarrow> network \<Rightarrow> 'd \<Rightarrow> string + 'w option"
  sl_create_wallet :: "string \<Rightarrow> string \<Rightarrow> network \<Rightarrow> 'd \<Rightarrow> ('w \<times> 'd) option"
  sl_now :: u64
  sl_block_count :: "u32 option"

section \<open>The directory of the seed file\<close>

text \<open>
  A file has the bytes that were written to it and whether they were synced. The directory has
  the entry of the seed file and the one of the temporary file, and the seed entry that was on
  disk when the directory was last synced.
\<close>

record inode =
  in_data :: bytes
  in_synced :: bool

record seed_dir =
  sd_seed :: "inode option"
  sd_seed_on_disk :: "inode option"
  sd_tmp :: "inode option"

datatype write_step = OpenTmp | WriteTmp | SyncTmp | RenameTmp | OpenDir | SyncDir

definition write_steps :: "write_step list" where
  "write_steps = [OpenTmp, WriteTmp, SyncTmp, RenameTmp, OpenDir, SyncDir]"

primrec write_effect :: "bytes \<Rightarrow> write_step \<Rightarrow> seed_dir \<Rightarrow> seed_dir" where
  "write_effect contents OpenTmp d = d\<lparr>sd_tmp := Some \<lparr>in_data = [], in_synced = False\<rparr>\<rparr>"
| "write_effect contents WriteTmp d = d\<lparr>sd_tmp := Some \<lparr>in_data = contents, in_synced = False\<rparr>\<rparr>"
| "write_effect contents SyncTmp d = d\<lparr>sd_tmp := map_option (\<lambda>i. i\<lparr>in_synced := True\<rparr>) (sd_tmp d)\<rparr>"
| "write_effect contents RenameTmp d = d\<lparr>sd_seed := sd_tmp d, sd_tmp := None\<rparr>"
| "write_effect contents OpenDir d = d"
| "write_effect contents SyncDir d = d\<lparr>sd_seed_on_disk := sd_seed d\<rparr>"

text \<open>The I/O faults of a run: steps that fail, the bytes a failing write has written, reads.\<close>

record seed_faults =
  fl_fails :: "write_step \<Rightarrow> bool"
  fl_written :: nat
  fl_read_fails :: bool

datatype seed_io_error = SeedIoError

definition write_step_run :: "seed_faults \<Rightarrow> bytes \<Rightarrow> write_step \<Rightarrow> (seed_dir, seed_io_error, unit) st" where
  "write_step_run F contents step = (\<lambda>d.
     if fl_fails F step then
       (Inl SeedIoError, if step = WriteTmp then write_effect (take (fl_written F) contents) WriteTmp d else d)
     else (Inr (), write_effect contents step d))"

definition write_seed_file ::
  "('m, 'w, 'd) seed_libs \<Rightarrow> seed_faults \<Rightarrow> seed_file \<Rightarrow> (seed_dir, seed_io_error, unit) st" where
  "write_seed_file L F file = for_each (write_step_run F (sl_json_encode L file)) write_steps"

datatype read_seed_error = ReadSeedIo | ReadSeedJson | ReadParseMnemonic

definition read_seed_file ::
  "('m, 'w, 'd) seed_libs \<Rightarrow> seed_faults \<Rightarrow> seed_dir \<Rightarrow> read_seed_error + seed_file option" where
  "read_seed_file L F d =
     (case sd_seed d of
        None \<Rightarrow> Inr None
      | Some i \<Rightarrow>
          bindE (guardE (\<not> fl_read_fails F) ReadSeedIo) (\<lambda>_.
          bindE (ok_or (sl_json_decode L (in_data i)) ReadSeedJson) (\<lambda>file. Inr (Some file))))"

section \<open>The seed store\<close>

datatype 'm seed = SeedPlaintext 'm | SeedEncrypted encrypted_mnemonic

datatype insert_seed_error = SeedAlreadyExists | InsertSeedIo

text \<open>\<open>insert_seed\<close>; the lock makes each insertion one step, so inserts do not interleave.\<close>

definition insert_seed ::
  "('m, 'w, 'd) seed_libs \<Rightarrow> seed_faults \<Rightarrow> 'm seed \<Rightarrow> u32 option \<Rightarrow> (seed_dir, insert_seed_error, unit) st" where
  "insert_seed L F seed birthday_height = (\<lambda>d.
     if sd_seed d \<noteq> None then (Inl SeedAlreadyExists, d)
     else
       mapErrS (\<lambda>_. InsertSeedIo) (write_seed_file L F
         \<lparr>sf_version = SEED_CURRENT_VERSION, sf_created_at = sl_now L, sf_birthday_height = birthday_height,
          sf_seed = (case seed of
            SeedPlaintext mnemonic \<Rightarrow> PlaintextSeed (sl_words L mnemonic)
          | SeedEncrypted encrypted \<Rightarrow> EncryptedSeed
              \<lparr>em_initialization_vector = em_initialization_vector encrypted,
               em_ciphertext_mnemonic = em_ciphertext_mnemonic encrypted,
               em_key_salt = em_key_salt encrypted\<rparr>)\<rparr>) d)"

definition read_mnemonic ::
  "('m, 'w, 'd) seed_libs \<Rightarrow> seed_faults \<Rightarrow> seed_dir \<Rightarrow> read_seed_error + ('m + encrypted_mnemonic) option" where
  "read_mnemonic L F d =
     bindE (read_seed_file L F d) (\<lambda>file.
       case file of
         None \<Rightarrow> Inr None
       | Some seed_file \<Rightarrow>
           (case sf_seed seed_file of
              PlaintextSeed mnemonic \<Rightarrow>
                bindE (ok_or (sl_parse_english L mnemonic) ReadParseMnemonic) (\<lambda>m. Inr (Some (Inl m)))
            | EncryptedSeed encrypted \<Rightarrow> Inr (Some (Inr encrypted))))"

definition read_birthday_height ::
  "('m, 'w, 'd) seed_libs \<Rightarrow> seed_faults \<Rightarrow> seed_dir \<Rightarrow> read_seed_error + u32 option" where
  "read_birthday_height L F d =
     bindE (read_seed_file L F d) (\<lambda>file. Inr (Option.bind file sf_birthday_height))"

section \<open>Mnemonics\<close>

text \<open>\<open>String::from_utf8\<close>: the well-formed UTF-8 sequences.\<close>

definition utf8_tail :: "u8 \<Rightarrow> bool" where "utf8_tail b \<longleftrightarrow> 0x80 \<le> b \<and> b \<le> 0xbf"

fun utf8_valid :: "bytes \<Rightarrow> bool" where
  "utf8_valid [] = True"
| "utf8_valid (a # bs) =
     (if a < 0x80 then utf8_valid bs
      else case bs of
        b # bs' \<Rightarrow>
          if 0xc2 \<le> a \<and> a \<le> 0xdf then utf8_tail b \<and> utf8_valid bs'
          else (case bs' of
            c # bs'' \<Rightarrow>
              if 0xe0 \<le> a \<and> a \<le> 0xef then
                (if a = 0xe0 then 0xa0 \<le> b \<and> b \<le> 0xbf else if a = 0xed then 0x80 \<le> b \<and> b \<le> 0x9f else utf8_tail b)
                \<and> utf8_tail c \<and> utf8_valid bs''
              else (case bs'' of
                e # rest \<Rightarrow>
                  0xf0 \<le> a \<and> a \<le> 0xf4
                  \<and> (if a = 0xf0 then 0x90 \<le> b \<and> b \<le> 0xbf else if a = 0xf4 then 0x80 \<le> b \<and> b \<le> 0x8f else utf8_tail b)
                  \<and> utf8_tail c \<and> utf8_tail e \<and> utf8_valid rest
              | [] \<Rightarrow> False)
          | [] \<Rightarrow> False)
      | [] \<Rightarrow> False)"

datatype encrypt_mnemonic_error = SaltRng | EncryptStretch | AesEncrypt
datatype decrypt_mnemonic_error = DecryptStretch | AesDecrypt | DecryptUtf8 | DecryptParse

definition new_mnemonic :: "('m, 'w, 'd) seed_libs \<Rightarrow> 'm option" where
  "new_mnemonic L = Option.bind (sl_generate L) (\<lambda>generated. sl_from_str L (sl_words L generated))"

text \<open>Argon2 fills a buffer of 32 bytes.\<close>

definition stretch_password :: "('m, 'w, 'd) seed_libs \<Rightarrow> bytes \<Rightarrow> bytes \<Rightarrow> bytes option" where
  "stretch_password L password key_salt = sl_argon2 L password key_salt"

definition encrypt_mnemonic ::
  "('m, 'w, 'd) seed_libs \<Rightarrow> 'm \<Rightarrow> bytes \<Rightarrow> encrypt_mnemonic_error + encrypted_mnemonic" where
  "encrypt_mnemonic L mnemonic password =
     bindE (ok_or (sl_random_salt L) SaltRng) (\<lambda>key_salt.
     bindE (ok_or (stretch_password L password key_salt) EncryptStretch) (\<lambda>key_bytes.
     bindE (ok_or (sl_aes_encrypt L key_bytes (sl_random_nonce L) (sl_words L mnemonic)) AesEncrypt) (\<lambda>ciphered_data.
     Inr \<lparr>em_initialization_vector = sl_random_nonce L, em_ciphertext_mnemonic = ciphered_data,
          em_key_salt = key_salt\<rparr>)))"

definition decrypt_mnemonic ::
  "('m, 'w, 'd) seed_libs \<Rightarrow> encrypted_mnemonic \<Rightarrow> bytes \<Rightarrow> decrypt_mnemonic_error + 'm" where
  "decrypt_mnemonic L encrypted password =
     bindE (ok_or (stretch_password L password (em_key_salt encrypted)) DecryptStretch) (\<lambda>key_bytes.
     bindE (ok_or (sl_aes_decrypt L key_bytes (em_initialization_vector encrypted)
       (em_ciphertext_mnemonic encrypted)) AesDecrypt) (\<lambda>plaintext.
     bindE (guardE (utf8_valid plaintext) DecryptUtf8) (\<lambda>_.
     ok_or (sl_from_str L plaintext) DecryptParse)))"

section \<open>Creating, opening and unlocking a wallet\<close>

text \<open>\<open>'w\<close> is the BDK wallet, \<open>None\<close> while locked; \<open>'d\<close> is its database.\<close>

record ('w, 'd) seed_wallet =
  sw_dir :: seed_dir
  sw_bitcoin_wallet :: "'w option"
  sw_bdk_db :: 'd

datatype init_wallet_error = CreateBdkWallet | InitDataMismatch | DeriveXpriv | LoadBdkWallet | MnemonicKey

text \<open>\<open>descriptor xpriv 0\<close> is the external BIP 84 descriptor, \<open>descriptor xpriv 1\<close> the internal one.\<close>

definition descriptor :: "string \<Rightarrow> nat \<Rightarrow> string" where
  "descriptor xpriv chain =
     ''wpkh('' @ xpriv @ ''/84'' @ [CHR 0x27] @ ''/1'' @ [CHR 0x27] @ ''/0'' @ [CHR 0x27] @ ''/''
       @ (if chain = 0 then ''0'' else ''1'') @ ''/*)''"

definition initialize_wallet_from_mnemonic ::
  "('m, 'w, 'd) seed_libs \<Rightarrow> 'm \<Rightarrow> network \<Rightarrow> ('d, init_wallet_error, 'w) st" where
  "initialize_wallet_from_mnemonic L mnemonic net = (\<lambda>db.
     case bindE (ok_or (sl_extended_key L mnemonic) MnemonicKey) (\<lambda>key. ok_or (sl_xprv L key net) DeriveXpriv) of
       Inl e \<Rightarrow> (Inl e, db)
     | Inr xpriv \<Rightarrow>
         (case sl_load_wallet L (descriptor xpriv 0) (descriptor xpriv 1) net db of
            Inl msg \<Rightarrow> (Inl (if contains_str msg ''data mismatch'' then InitDataMismatch else LoadBdkWallet), db)
          | Inr (Some w) \<Rightarrow> (Inr w, db)
          | Inr None \<Rightarrow>
              (case sl_create_wallet L (descriptor xpriv 0) (descriptor xpriv 1) net db of
                 None \<Rightarrow> (Inl CreateBdkWallet, db)
               | Some (w, db') \<Rightarrow> (Inr w, db'))))"

datatype wallet_initialization = AlreadyUnlocked | WalletNotFound | WalletAlreadyExists | InvalidPassword

datatype create_new_wallet_error =
  EncryptMnemonic encrypt_mnemonic_error
| FetchBirthdayHeight
| GenerateMnemonic
| CreateInit init_wallet_error
| CreateInsertSeed
| CreateWalletInitialization wallet_initialization

definition create_error_of_insert :: "insert_seed_error \<Rightarrow> create_new_wallet_error" where
  "create_error_of_insert e =
     (case e of SeedAlreadyExists \<Rightarrow> CreateWalletInitialization WalletAlreadyExists | InsertSeedIo \<Rightarrow> CreateInsertSeed)"

lemma create_error_not_init: "create_error_of_insert e \<noteq> CreateInit i" "CreateInit i \<noteq> create_error_of_insert e"
  by (cases e; simp add: create_error_of_insert_def)+

text \<open>Operations on the directory and on the database as operations on the wallet.\<close>

definition on_dir :: "(seed_dir, 'e, 'a) st \<Rightarrow> (('w, 'd) seed_wallet, 'e, 'a) st" where
  "on_dir m = (\<lambda>s. case m (sw_dir s) of (r, d) \<Rightarrow> (r, s\<lparr>sw_dir := d\<rparr>))"

definition on_bdk_db :: "('d, 'e, 'a) st \<Rightarrow> (('w, 'd) seed_wallet, 'e, 'a) st" where
  "on_bdk_db m = (\<lambda>s. case m (sw_bdk_db s) of (r, db) \<Rightarrow> (r, s\<lparr>sw_bdk_db := db\<rparr>))"

text \<open>The end of creation and of unlocking: the BDK wallet is made and put in its place.\<close>

definition install_wallet ::
  "('m, 'w, 'd) seed_libs \<Rightarrow> network \<Rightarrow> (init_wallet_error \<Rightarrow> 'e) \<Rightarrow> 'm \<Rightarrow> (('w, 'd) seed_wallet, 'e, unit) st" where
  "install_wallet L net err mnemonic =
     bindS (mapErrS err (on_bdk_db (initialize_wallet_from_mnemonic L mnemonic net))) (\<lambda>wallet.
     modifyS (\<lambda>s. s\<lparr>sw_bitcoin_wallet := Some wallet\<rparr>))"

definition create_new_wallet ::
  "('m, 'w, 'd) seed_libs \<Rightarrow> seed_faults \<Rightarrow> network \<Rightarrow> 'm option \<Rightarrow> bytes option
    \<Rightarrow> (('w, 'd) seed_wallet, create_new_wallet_error, unit) st" where
  "create_new_wallet L F net mnemonic password =
     bindS (liftS (\<lambda>_. case mnemonic of
         Some m \<Rightarrow> Inr (m, False)
       | None \<Rightarrow> bindE (ok_or (new_mnemonic L) GenerateMnemonic) (\<lambda>m. Inr (m, True)))) (\<lambda>(m, generated).
     bindS (liftS (\<lambda>_. if generated then bindE (ok_or (sl_block_count L) FetchBirthdayHeight) (\<lambda>n. Inr (Some n))
         else Inr None)) (\<lambda>birthday_height.
     bindS (liftS (\<lambda>_. case password of
         Some pw \<Rightarrow> bindE (mapErr EncryptMnemonic (encrypt_mnemonic L m pw)) (\<lambda>encrypted. Inr (SeedEncrypted encrypted))
       | None \<Rightarrow> Inr (SeedPlaintext m))) (\<lambda>seed.
     bindS (mapErrS create_error_of_insert (on_dir (insert_seed L F seed birthday_height))) (\<lambda>_.
     install_wallet L net CreateInit m))))"

datatype unlock_error =
  UnlockInit init_wallet_error | NotEncrypted | UnlockReadSeed read_seed_error
| UnlockWalletInitialization wallet_initialization

definition unlock_existing_wallet ::
  "('m, 'w, 'd) seed_libs \<Rightarrow> seed_faults \<Rightarrow> network \<Rightarrow> bytes \<Rightarrow> (('w, 'd) seed_wallet, unlock_error, unit) st" where
  "unlock_existing_wallet L F net password =
     bindS (liftS (\<lambda>s. guardE (sw_bitcoin_wallet s = None) (UnlockWalletInitialization AlreadyUnlocked))) (\<lambda>_.
     bindS (liftS (\<lambda>s. mapErr UnlockReadSeed (read_mnemonic L F (sw_dir s)))) (\<lambda>read.
     bindS (liftS (\<lambda>_. case read of
         None \<Rightarrow> Inl (UnlockWalletInitialization WalletNotFound)
       | Some (Inl _) \<Rightarrow> Inl NotEncrypted
       | Some (Inr encrypted) \<Rightarrow>
           mapErr (\<lambda>_. UnlockWalletInitialization InvalidPassword) (decrypt_mnemonic L encrypted password))) (\<lambda>mnemonic.
     install_wallet L net UnlockInit mnemonic)))"

datatype init_error = InitReadSeed read_seed_error | InitFromMnemonic init_wallet_error

text \<open>
  The end of \<open>WalletInner::new\<close>: a plaintext seed opens the wallet at once. The steps before it
  connect the chain source and the database and do not look at the seed.
\<close>

definition open_wallet ::
  "('m, 'w, 'd) seed_libs \<Rightarrow> seed_faults \<Rightarrow> network \<Rightarrow> seed_dir \<Rightarrow> 'd \<Rightarrow> init_error + ('w, 'd) seed_wallet" where
  "open_wallet L F net dir db =
     bindE (mapErr InitReadSeed (read_mnemonic L F dir)) (\<lambda>read.
       case read of
         Some (Inl mnemonic) \<Rightarrow>
           (case initialize_wallet_from_mnemonic L mnemonic net db of
              (Inl e, db') \<Rightarrow> Inl (InitFromMnemonic e)
            | (Inr w, db') \<Rightarrow> Inr \<lparr>sw_dir = dir, sw_bitcoin_wallet = Some w, sw_bdk_db = db'\<rparr>)
       | _ \<Rightarrow> Inr \<lparr>sw_dir = dir, sw_bitcoin_wallet = None, sw_bdk_db = db\<rparr>)"

definition is_initialized :: "('w, 'd) seed_wallet \<Rightarrow> bool" where
  "is_initialized s \<longleftrightarrow> sw_bitcoin_wallet s \<noteq> None"

section \<open>Crashes\<close>

text \<open>
  After a crash a synced file has its bytes and an unsynced one may have any; the seed entry is
  the current one or the one on disk, and anything may be left of the temporary file.
\<close>

inductive settles :: "inode option \<Rightarrow> inode option \<Rightarrow> bool" where
  absent: "settles None None"
| synced: "in_synced i \<Longrightarrow> settles (Some i) (Some i)"
| unsynced: "\<not> in_synced i \<Longrightarrow> settles (Some i) (Some \<lparr>in_data = bs, in_synced = True\<rparr>)"

inductive_simps settles_None [simp]: "settles None e"
inductive_simps settles_Some: "settles (Some i) e"

inductive crash :: "seed_dir \<Rightarrow> seed_dir \<Rightarrow> bool" where
  crash: "e = sd_seed d \<or> e = sd_seed_on_disk d \<Longrightarrow> settles e e'
    \<Longrightarrow> crash d \<lparr>sd_seed = e', sd_seed_on_disk = e', sd_tmp = t\<rparr>"

inductive_cases crash_cases: "crash d d'"

definition durable :: "seed_dir \<Rightarrow> bool" where
  "durable d \<longleftrightarrow> sd_seed_on_disk d = sd_seed d \<and> pred_option in_synced (sd_seed d)"

lemma durable_crash:
  assumes "durable d" and "crash d d'"
  shows "sd_seed d' = sd_seed d \<and> durable d'"
  using assms(2)
proof cases
  case (crash e e' t)
  with assms(1) show ?thesis by (cases "sd_seed d") (auto simp: durable_def settles_Some)
qed

lemma settles_durable: "settles e e' \<Longrightarrow> pred_option in_synced e'"
  by (cases e) (auto simp: settles_Some)

lemma crash_durable: "crash d d' \<Longrightarrow> durable d'"
  by (erule crash_cases) (auto simp: durable_def dest: settles_durable)

text \<open>What the steps of the write have done when they stop, by themselves or by a fault.\<close>

definition write_outcome :: "bytes \<Rightarrow> seed_dir \<Rightarrow> nat \<Rightarrow> (seed_io_error + unit) \<times> seed_dir \<Rightarrow> bool" where
  "write_outcome contents d k out = (case out of (r, d') \<Rightarrow>
     sd_seed_on_disk d' = sd_seed_on_disk d \<and> sd_seed d' = sd_seed d
       \<or> sd_seed d' = Some \<lparr>in_data = contents, in_synced = True\<rparr>
         \<and> (sd_seed_on_disk d' = sd_seed_on_disk d \<or> sd_seed_on_disk d' = sd_seed d'))"

lemma write_steps_run:
  assumes "for_each (write_step_run F contents) (take k write_steps) d = (r, d')"
  shows "write_outcome contents d k (r, d')
    \<and> (6 \<le> k \<and> r = Inr () \<longrightarrow> sd_seed d' = Some \<lparr>in_data = contents, in_synced = True\<rparr> \<and> durable d')"
proof -
  consider "k = 0" | "k = 1" | "k = 2" | "k = 3" | "k = 4" | "k = 5" | "6 \<le> k" by linarith
  then show ?thesis
    by cases
      (use assms in \<open>auto simp: write_steps_def write_step_run_def bindS_def write_outcome_def durable_def
         split: if_splits\<close>)
qed

lemma write_seed_file_ok:
  assumes "write_seed_file L F file d = (Inr u, d')"
  shows "sd_seed d' = Some \<lparr>in_data = sl_json_encode L file, in_synced = True\<rparr> \<and> durable d'"
  using write_steps_run [of F "sl_json_encode L file" 6 d "Inr ()" d'] assms
  by (simp add: write_seed_file_def write_steps_def)

lemma insert_seed_exists: "sd_seed d \<noteq> None \<Longrightarrow> insert_seed L F seed h d = (Inl SeedAlreadyExists, d)"
  by (simp add: insert_seed_def)

section \<open>Seeds are never lost\<close>

text \<open>
  The life of a wallet directory: creations and unlocks with any faults, any libraries' random
  values and any clock, and crashes, at rest or at any step of a write, followed by a restart.
\<close>

inductive wallet_step ::
  "('m, 'w, 'd) seed_libs \<Rightarrow> network \<Rightarrow> ('w, 'd) seed_wallet \<Rightarrow> ('w, 'd) seed_wallet \<Rightarrow> bool"
  for L :: "('m, 'w, 'd) seed_libs" and net :: network where
  create: "create_new_wallet (L\<lparr>sl_generate := g, sl_random_salt := x, sl_random_nonce := n, sl_now := t\<rparr>)
      F net mnemonic password s = (r, s') \<Longrightarrow> wallet_step L net s s'"
| unlock: "unlock_existing_wallet L F net password s = (r, s') \<Longrightarrow> wallet_step L net s s'"
| restart: "crash (sw_dir s) dir \<Longrightarrow> open_wallet L F net dir db = Inr s' \<Longrightarrow> wallet_step L net s s'"
| crash_in_insert: "sd_seed (sw_dir s) = None
    \<Longrightarrow> for_each (write_step_run F (sl_json_encode L file)) (take k write_steps) (sw_dir s) = (r, d)
    \<Longrightarrow> crash d dir \<Longrightarrow> open_wallet L F' net dir db = Inr s' \<Longrightarrow> wallet_step L net s s'"

lemma wallet_step_create:
  assumes "create_new_wallet L F net mnemonic password s = (r, s')"
  shows "wallet_step L net s s'"
proof -
  have "L\<lparr>sl_generate := sl_generate L, sl_random_salt := sl_random_salt L,
      sl_random_nonce := sl_random_nonce L, sl_now := sl_now L\<rparr> = L" by simp
  then show ?thesis using wallet_step.create assms by metis
qed

lemma on_dir_eq: "on_dir m s = (r, s') \<longleftrightarrow> (\<exists>d. m (sw_dir s) = (r, d) \<and> s' = s\<lparr>sw_dir := d\<rparr>)"
  by (auto simp: on_dir_def split: prod.splits)

lemma on_bdk_db_eq: "on_bdk_db m s = (r, s') \<longleftrightarrow> (\<exists>db. m (sw_bdk_db s) = (r, db) \<and> s' = s\<lparr>sw_bdk_db := db\<rparr>)"
  by (auto simp: on_bdk_db_def split: prod.splits)

lemma install_wallet_dir: "install_wallet L net err m s = (r, s') \<Longrightarrow> sw_dir s' = sw_dir s"
  by (auto simp: install_wallet_def bindS_def mapErrS_def on_bdk_db_def modifyS_def split: prod.splits sum.splits)

lemma unlock_dir: "unlock_existing_wallet L F net pw s = (r, s') \<Longrightarrow> sw_dir s' = sw_dir s"
  by (auto simp: unlock_existing_wallet_def bindS_def liftS_def split: prod.splits sum.splits
      dest: install_wallet_dir)

lemma open_wallet_dir: "open_wallet L F net dir db = Inr s \<Longrightarrow> sw_dir s = dir"
  by (cases "read_mnemonic L F dir")
    (auto simp: open_wallet_def split: option.splits sum.splits prod.splits)

lemma create_keeps_seed:
  assumes "create_new_wallet L F net m pw s = (r, s')" and "sd_seed (sw_dir s) \<noteq> None"
  shows "sw_dir s' = sw_dir s \<and> r \<noteq> Inr ()"
  using assms
  by (auto simp: create_new_wallet_def bindS_def liftS_def mapErrS_def on_dir_def insert_seed_def
      split: prod.splits sum.splits dest: install_wallet_dir)

lemma wallet_step_keeps_seed:
  assumes "wallet_step L net s s'" and "durable (sw_dir s)" and "sd_seed (sw_dir s) = Some i"
  shows "durable (sw_dir s') \<and> sd_seed (sw_dir s') = Some i"
  using assms(1)
proof cases
  case (create t n x g F mnemonic password r)
  then show ?thesis using assms(2,3) create_keeps_seed [OF create] by simp
next
  case (unlock F password r)
  then show ?thesis using assms(2,3) unlock_dir [OF unlock] by simp
next
  case (restart dir F db)
  then show ?thesis using durable_crash [OF assms(2)] assms(3) open_wallet_dir [OF restart(2)] by simp
qed (use assms(3) in simp)

lemma wallet_steps_keep_seed:
  assumes "(wallet_step L net)\<^sup>*\<^sup>* s s'" and "durable (sw_dir s)" and "sd_seed (sw_dir s) = Some i"
  shows "durable (sw_dir s') \<and> sd_seed (sw_dir s') = Some i"
  using assms by (induction rule: rtranclp_induct) (use wallet_step_keeps_seed in blast)+

text \<open>A directory whose seed file is absent or complete, now and after a crash.\<close>

definition complete_seed :: "('m, 'w, 'd) seed_libs \<Rightarrow> inode option \<Rightarrow> bool" where
  "complete_seed L = pred_option (\<lambda>i. in_synced i \<and> in_data i \<in> range (sl_json_encode L))"

definition seed_complete :: "('m, 'w, 'd) seed_libs \<Rightarrow> seed_dir \<Rightarrow> bool" where
  "seed_complete L d \<longleftrightarrow> complete_seed L (sd_seed d) \<and> complete_seed L (sd_seed_on_disk d)"

lemma crash_complete: "crash d d' \<Longrightarrow> seed_complete L d \<Longrightarrow> seed_complete L d'"
  by (erule crash_cases, erule settles.cases) (auto simp: seed_complete_def complete_seed_def pred_option_def elim!: option.set_cases)

lemma write_complete:
  assumes "for_each (write_step_run F (sl_json_encode L file)) (take k write_steps) d = (r, d')"
    and "seed_complete L d"
  shows "seed_complete L d'"
  using write_steps_run [OF assms(1)] assms(2)
  by (auto simp: write_outcome_def seed_complete_def complete_seed_def)

lemma insert_complete:
  assumes "insert_seed L F seed h d = (r, d')" and "seed_complete L d"
  shows "seed_complete L d'"
proof (cases "sd_seed d")
  case None
  then obtain sf r' where "write_seed_file L F sf d = (r', d')"
    using assms(1) by (auto simp: insert_seed_def mapErrS_def split: prod.splits)
  then show ?thesis
    using write_complete [of F L sf 6 d r' d'] assms(2) by (simp add: write_seed_file_def write_steps_def)
qed (use assms in \<open>auto simp: insert_seed_def\<close>)

lemma create_dir:
  assumes "create_new_wallet L F net m pw s = (r, s')"
  shows "sw_dir s' = sw_dir s \<or> (\<exists>seed h r'. insert_seed L F seed h (sw_dir s) = (r', sw_dir s'))"
  using assms
  by (auto simp: create_new_wallet_def bindS_def liftS_def mapErrS_def on_dir_def
      split: prod.splits sum.splits dest: install_wallet_dir)

lemma wallet_step_complete:
  assumes "wallet_step L net s s'" and "seed_complete L (sw_dir s)"
  shows "seed_complete L (sw_dir s')"
  using assms(1)
proof cases
  case (create t n x g F mnemonic password r)
  let ?L = "L\<lparr>sl_generate := g, sl_random_salt := x, sl_random_nonce := n, sl_now := t\<rparr>"
  have same: "seed_complete ?L = seed_complete L"
    by (simp add: fun_eq_iff seed_complete_def complete_seed_def)
  show ?thesis using create_dir [OF create] insert_complete [of ?L] assms(2) unfolding same by metis
next
  case (unlock F password r)
  then show ?thesis using assms(2) unlock_dir [OF unlock] by simp
next
  case (restart dir F db)
  then show ?thesis using crash_complete assms(2) open_wallet_dir by metis
next
  case (crash_in_insert F sf k r d dir F' db)
  then show ?thesis using crash_complete write_complete assms(2) open_wallet_dir by metis
qed

lemma wallet_steps_complete:
  assumes "(wallet_step L net)\<^sup>*\<^sup>* s s'" and "seed_complete L (sw_dir s)"
  shows "seed_complete L (sw_dir s')"
  using assms by (induction rule: rtranclp_induct) (use wallet_step_complete in blast)+

section \<open>A created wallet opens again\<close>

text \<open>
  What the seed code relies on: the JSON codec and the mnemonic's text read back, the cipher
  decrypts what it encrypted under the same key and nonce, and a created BDK wallet is loaded
  from its database.
\<close>

definition seed_laws :: "('m, 'w, 'd) seed_libs \<Rightarrow> bool" where
  "seed_laws L \<longleftrightarrow>
     (\<forall>file. sl_json_decode L (sl_json_encode L file) = Some file)
     \<and> (\<forall>m. utf8_valid (sl_words L m) \<and> sl_parse_english L (sl_words L m) = Some m
          \<and> sl_from_str L (sl_words L m) = Some m)
     \<and> (\<forall>key nonce text c. sl_aes_encrypt L key nonce text = Some c \<longrightarrow> sl_aes_decrypt L key nonce c = Some text)
     \<and> (\<forall>ext int net db w db'. sl_create_wallet L ext int net db = Some (w, db') \<longrightarrow>
          sl_load_wallet L ext int net db' = Inr (Some w))"

lemma encrypt_decrypt:
  "seed_laws L \<Longrightarrow> encrypt_mnemonic L m pw = Inr enc \<Longrightarrow> decrypt_mnemonic L enc pw = Inr m"
  by (auto simp: encrypt_mnemonic_def decrypt_mnemonic_def stretch_password_def seed_laws_def)

lemma initialize_again:
  assumes "seed_laws L" and "initialize_wallet_from_mnemonic L m net db = (Inr w, db')"
  shows "initialize_wallet_from_mnemonic L m net db' = (Inr w, db')"
  using assms by (auto simp: initialize_wallet_from_mnemonic_def seed_laws_def split: sum.splits option.splits)

text \<open>What a stored seed reads back as.\<close>

definition stored_as :: "('m, 'w, 'd) seed_libs \<Rightarrow> 'm \<Rightarrow> bytes option \<Rightarrow> 'm + encrypted_mnemonic \<Rightarrow> bool" where
  "stored_as L m password stored \<longleftrightarrow>
     (case password of
        None \<Rightarrow> stored = Inl m
      | Some pw \<Rightarrow> \<exists>encrypted. stored = Inr encrypted \<and> decrypt_mnemonic L encrypted pw = Inr m)"

lemma created_seed:
  assumes laws: "seed_laws L" and run: "create_new_wallet L F net mnemonic password s = (Inr (), s')"
  obtains m w i stored where
    "mnemonic = Some m \<or> mnemonic = None \<and> new_mnemonic L = Some m"
    "initialize_wallet_from_mnemonic L m net (sw_bdk_db s) = (Inr w, sw_bdk_db s')"
    "sw_bitcoin_wallet s' = Some w" "sd_seed (sw_dir s') = Some i" "durable (sw_dir s')"
    "stored_as L m password stored"
    "\<And>F' d. sd_seed d = Some i \<Longrightarrow> \<not> fl_read_fails F' \<Longrightarrow> read_mnemonic L F' d = Inr (Some stored)"
proof -
  from run obtain m gen h sd d s1 where
      m: "mnemonic = Some m \<or> mnemonic = None \<and> new_mnemonic L = Some m"
    and seed: "(case password of
         Some pw \<Rightarrow> bindE (mapErr EncryptMnemonic (encrypt_mnemonic L m pw)) (\<lambda>encrypted. Inr (SeedEncrypted encrypted))
       | None \<Rightarrow> Inr (SeedPlaintext m)) = Inr sd"
    and ins: "insert_seed L F sd h (sw_dir s) = (Inr (), d)" "s1 = s\<lparr>sw_dir := d\<rparr>"
    and inst: "install_wallet L net CreateInit m s1 = (Inr (), s')"
    by (cases mnemonic; cases password) (auto simp: create_new_wallet_def bindS_eq_Inr on_dir_eq)
  from inst ins(2) obtain w db where w: "initialize_wallet_from_mnemonic L m net (sw_bdk_db s) = (Inr w, db)"
    and s': "s' = s1\<lparr>sw_bdk_db := db, sw_bitcoin_wallet := Some w\<rparr>"
    by (auto simp: install_wallet_def bindS_eq_Inr on_bdk_db_eq)
  define st where "st = (case sd of SeedPlaintext x \<Rightarrow> PlaintextSeed (sl_words L x) | SeedEncrypted e \<Rightarrow> EncryptedSeed e)"
  obtain sf where sf: "write_seed_file L F sf (sw_dir s) = (Inr (), d)" "sf_seed sf = st"
    using ins(1) by (auto simp: insert_seed_def st_def split: if_splits seed.splits)
  note written = write_seed_file_ok [OF sf(1)]
  define stored where "stored = (case sd of SeedPlaintext x \<Rightarrow> Inl x | SeedEncrypted e \<Rightarrow> Inr e)"
  have as: "stored_as L m password stored"
    using seed encrypt_decrypt [OF laws] by (auto simp: stored_as_def stored_def split: option.splits)
  have "read_mnemonic L F' d' = Inr (Some stored)"
    if "sd_seed d' = Some \<lparr>in_data = sl_json_encode L sf, in_synced = True\<rparr>" "\<not> fl_read_fails F'" for F' d'
    using that sf(2) laws
    by (auto simp: read_mnemonic_def read_seed_file_def seed_laws_def st_def stored_def split: seed.splits)
  with m w s' written as ins(2) show thesis by (intro that) auto
qed


text \<open>
  C31: a seed is never lost, replaced or left half written. Over any sequence of creations and
  unlocks with any I/O faults, and of crashes at rest or at any step of a write, each followed by a
  restart: a seed that is on disk stays there byte by byte, every creation on top of a seed is
  refused without touching the directory, and a directory whose seed is absent or complete never
  gets a torn one, not even after a crash.
\<close>
theorem seed_is_never_lost:
  assumes "(wallet_step L net)\<^sup>*\<^sup>* s s'"
  shows "(durable (sw_dir s) \<and> sd_seed (sw_dir s) = Some i \<longrightarrow>
      durable (sw_dir s') \<and> sd_seed (sw_dir s') = Some i
      \<and> (\<forall>F mnemonic password r t. create_new_wallet L F net mnemonic password s' = (r, t) \<longrightarrow>
           r \<noteq> Inr () \<and> sw_dir t = sw_dir s'))
    \<and> (seed_complete L (sw_dir s) \<longrightarrow>
        seed_complete L (sw_dir s') \<and> (\<forall>d. crash (sw_dir s') d \<longrightarrow> seed_complete L d))"
proof -
  have "r \<noteq> Inr () \<and> sw_dir t = sw_dir s'"
    if "sd_seed (sw_dir s') = Some i" "create_new_wallet L F net mnemonic password s' = (r, t)"
    for F mnemonic password r t
    using create_keeps_seed [OF that(2)] that(1) by simp
  then show ?thesis
    using wallet_steps_keep_seed [OF assms] wallet_steps_complete [OF assms] crash_complete by blast
qed

text \<open>
  A wallet without a password whose BDK wallet cannot be made after its seed was stored is stuck
  until the process restarts: creating is refused because the seed exists, and unlocking because it is not
  encrypted.
\<close>
theorem failed_creation_is_stuck:
  assumes "seed_laws L" and "create_new_wallet L F net mnemonic None s = (Inl (CreateInit e), s')"
    and "sw_bitcoin_wallet s = None" and "\<not> fl_read_fails F'"
  shows "fst (unlock_existing_wallet L F' net pw s') = Inl NotEncrypted
    \<and> (\<forall>m h F'' seed. insert_seed L F'' seed h (sw_dir s') = (Inl SeedAlreadyExists, sw_dir s'))"
proof -
  from assms(2) obtain m h d s1 where ins: "insert_seed L F (SeedPlaintext m) h (sw_dir s) = (Inr (), d)"
      "s1 = s\<lparr>sw_dir := d\<rparr>" and inst: "install_wallet L net CreateInit m s1 = (Inl (CreateInit e), s')"
    by (cases mnemonic) (auto simp: create_new_wallet_def bindS_eq_Inl bindS_eq_Inr on_dir_eq mapErrS_eq_Inl
        create_error_not_init res_Inl_iffs)
  obtain sf where sf: "write_seed_file L F sf (sw_dir s) = (Inr (), d)" "sf_seed sf = PlaintextSeed (sl_words L m)"
    using ins(1) by (auto simp: insert_seed_def split: if_splits)
  have s': "sw_dir s' = d" "sw_bitcoin_wallet s' = None"
    using inst ins(2) assms(3)
    by (auto simp: install_wallet_def bindS_eq_Inl mapErrS_eq_Inl on_bdk_db_eq)
  show ?thesis
    using write_seed_file_ok [OF sf(1)] sf(2) assms(1,4) s'
    by (simp add: unlock_existing_wallet_def bindS_def liftS_def read_mnemonic_def read_seed_file_def
        seed_laws_def insert_seed_exists)
qed

subsection \<open>A concrete wallet directory\<close>

text \<open>Libraries over a single mnemonic; byte strings are stored with a mark before each byte.\<close>

definition demo_pack :: "bytes \<Rightarrow> bytes" where
  "demo_pack bs = concat (map (\<lambda>b. [1, b]) bs) @ [0]"

fun demo_unpack :: "bytes \<Rightarrow> (bytes \<times> bytes) option" where
  "demo_unpack [] = None"
| "demo_unpack [x] = (if x = 0 then Some ([], []) else None)"
| "demo_unpack (x # b # rest) =
     (if x = 0 then Some ([], b # rest) else map_option (\<lambda>(bs, r). (b # bs, r)) (demo_unpack rest))"

lemma demo_unpack_pack: "demo_unpack (demo_pack bs @ rest) = Some (bs, rest)"
proof (induction bs)
  case Nil
  then show ?case by (cases rest) (simp_all add: demo_pack_def)
qed (simp add: demo_pack_def)

lemma demo_unpack_pack_end: "demo_unpack (demo_pack bs) = Some (bs, [])"
  using demo_unpack_pack [of bs "[]"] by simp

definition demo_json_encode :: "seed_file \<Rightarrow> bytes" where
  "demo_json_encode f =
     demo_pack (le_bytes 4 (unat (sf_version f))) @ demo_pack (le_bytes 8 (unat (sf_created_at f)))
     @ demo_pack (case sf_birthday_height f of None \<Rightarrow> [] | Some h \<Rightarrow> le_bytes 4 (unat h))
     @ (case sf_seed f of
          PlaintextSeed m \<Rightarrow> demo_pack [0] @ demo_pack m
        | EncryptedSeed e \<Rightarrow> demo_pack [1] @ demo_pack (em_initialization_vector e)
            @ demo_pack (em_ciphertext_mnemonic e) @ demo_pack (em_key_salt e))"

definition demo_json_decode :: "bytes \<Rightarrow> seed_file option" where
  "demo_json_decode s0 =
     Option.bind (demo_unpack s0) (\<lambda>(version, s1). Option.bind (demo_unpack s1) (\<lambda>(created, s2).
     Option.bind (demo_unpack s2) (\<lambda>(birthday, s3). Option.bind (demo_unpack s3) (\<lambda>(tag, s4).
     Option.bind (demo_unpack s4) (\<lambda>(x, s5).
     map_option (\<lambda>seed. \<lparr>sf_version = of_nat (le_value version), sf_created_at = of_nat (le_value created),
         sf_birthday_height = (if birthday = [] then None else Some (of_nat (le_value birthday))), sf_seed = seed\<rparr>)
       (if tag = [0] then Some (PlaintextSeed x)
        else Option.bind (demo_unpack s5) (\<lambda>(y, s6). Option.bind (demo_unpack s6) (\<lambda>(z, s7).
          Some (EncryptedSeed \<lparr>em_initialization_vector = x, em_ciphertext_mnemonic = y, em_key_salt = z\<rparr>)))))))))"

lemma le_value_u32: "of_nat (le_value (le_bytes 4 (unat (v :: u32)))) = v"
  using unsigned_less [of v, where 'a = nat] by (simp add: le_value_le_bytes)

lemma le_value_u64: "of_nat (le_value (le_bytes 8 (unat (v :: u64)))) = v"
  using unsigned_less [of v, where 'a = nat] by (simp add: le_value_le_bytes)

lemma demo_json_roundtrip: "demo_json_decode (demo_json_encode f) = Some f"
proof -
  have "le_bytes 4 n \<noteq> []" for n by (simp add: le_bytes_numeral)
  then show ?thesis
    by (cases "sf_seed f"; cases "sf_birthday_height f")
      (simp_all add: demo_json_decode_def demo_json_encode_def demo_unpack_pack demo_unpack_pack_end
        le_value_u32 le_value_u64)
qed

definition demo_seed_libs :: "(unit, string, (string \<times> string \<times> network) option) seed_libs" where
  "demo_seed_libs = \<lparr>
     sl_json_encode = demo_json_encode, sl_json_decode = demo_json_decode,
     sl_words = (\<lambda>_. [97, 98]), sl_parse_english = (\<lambda>_. Some ()), sl_from_str = (\<lambda>_. Some ()),
     sl_generate = Some (), sl_random_salt = Some [1, 2], sl_random_nonce = [3],
     sl_argon2 = (\<lambda>pw salt. Some (pw @ salt)), sl_aes_encrypt = (\<lambda>key _ text. Some (key @ text)),
     sl_aes_decrypt = (\<lambda>key _ c. if take (length key) c = key then Some (drop (length key) c) else None),
     sl_extended_key = (\<lambda>_. Some [7]), sl_xprv = (\<lambda>_ _. Some ''xprv''),
     sl_load_wallet = (\<lambda>ext int net db. case db of None \<Rightarrow> Inr None
       | Some (e, i, n) \<Rightarrow> if (e, i, n) = (ext, int, net) then Inr (Some ext) else Inl ''data mismatch''),
     sl_create_wallet = (\<lambda>ext int net _. Some (ext, Some (ext, int, net))),
     sl_now = 1700000000, sl_block_count = Some 100\<rparr>"

lemma demo_seed_laws: "seed_laws demo_seed_libs"
  by (simp add: seed_laws_def demo_seed_libs_def demo_json_roundtrip)

definition no_faults :: seed_faults where
  "no_faults = \<lparr>fl_fails = (\<lambda>_. False), fl_written = 0, fl_read_fails = False\<rparr>"

definition empty_wallet :: "(string, (string \<times> string \<times> network) option) seed_wallet" where
  "empty_wallet = \<lparr>sw_dir = \<lparr>sd_seed = None, sd_seed_on_disk = None, sd_tmp = None\<rparr>,
     sw_bitcoin_wallet = None, sw_bdk_db = None\<rparr>"

lemma demo_create:
  "fst (create_new_wallet demo_seed_libs no_faults Regtest None (Some [112]) empty_wallet) = Inr ()"
  by (simp add: create_new_wallet_def new_mnemonic_def demo_seed_libs_def encrypt_mnemonic_def stretch_password_def
      bindS_def liftS_def mapErrS_def on_dir_def insert_seed_def write_seed_file_def write_steps_def
      write_step_run_def no_faults_def empty_wallet_def install_wallet_def on_bdk_db_def
      initialize_wallet_from_mnemonic_def modifyS_def returnS_def)


theorem seed_is_never_lost_witness:
  "\<exists>r s'. create_new_wallet demo_seed_libs (no_faults\<lparr>fl_fails := (\<lambda>step. step = RenameTmp)\<rparr>) Regtest None None
       empty_wallet = (r, s')
    \<and> (\<forall>d. crash (sw_dir s') d \<longrightarrow> seed_complete demo_seed_libs d)"
proof -
  obtain r s' where run: "create_new_wallet demo_seed_libs (no_faults\<lparr>fl_fails := (\<lambda>step. step = RenameTmp)\<rparr>)
      Regtest None None empty_wallet = (r, s')"
    by fastforce
  from wallet_step_create [OF this] have "(wallet_step demo_seed_libs Regtest)\<^sup>*\<^sup>* empty_wallet s'" by simp
  from seed_is_never_lost [OF this] have "seed_complete demo_seed_libs (sw_dir empty_wallet) \<longrightarrow>
      (\<forall>d. crash (sw_dir s') d \<longrightarrow> seed_complete demo_seed_libs d)" by blast
  moreover have "seed_complete demo_seed_libs (sw_dir empty_wallet)"
    by (simp add: empty_wallet_def seed_complete_def complete_seed_def)
  ultimately show ?thesis using run by blast
qed

end
