(* ===== verification/Signet_Mining.thy ===== *)
theory Signet_Mining
  imports Mine Wallet_Seed
begin

text \<open>
  Mining on signet: the command lines of \<open>lib/bins.rs\<close>, the download of the miner script, the run of
  the miner as a child process, and \<open>generate_block\<close> on every network
  (\<open>lib/block_producer/mine.rs\<close>). What the child process does is an argument.
\<close>

section \<open>Commands\<close>

text \<open>
  A process is its path and its arguments. Output is a string of bytes. The command line names of
  the networks come from the bitcoin crate and are the argument \<open>core_arg\<close>.
\<close>

type_synonym process = "string \<times> string list"

record command_output =
  co_success :: bool
  co_stdout :: string
  co_stderr :: string

datatype command_error = FromUtf8 | Stderr string | UnknownIo

text \<open>\<open>run\<close> and \<open>run_utf8\<close>; the output is \<open>None\<close> when the process cannot be run.\<close>

definition run_command :: "command_output option \<Rightarrow> command_error + string" where
  "run_command output =
     bindE (ok_or output UnknownIo) (\<lambda>out.
     if co_success out then Inr (co_stdout out) else Inl (Stderr (co_stderr out)))"

definition run_utf8 :: "(string \<Rightarrow> string) \<Rightarrow> command_output option \<Rightarrow> command_error + string" where
  "run_utf8 trim_utf8 output =
     bindE (run_command output) (\<lambda>bytes.
     bindE (guardE (utf8_valid (map (\<lambda>c. word_of_nat (of_char c)) bytes)) FromUtf8) (\<lambda>_.
     Inr (trim_utf8 bytes)))"

record bitcoin_cli =
  bc_path :: string
  bc_network :: network
  bc_rpc_user :: "string option"
  bc_rpc_pass :: "string option"
  bc_rpc_cookie_path :: "string option"
  bc_rpc_port :: u16
  bc_rpc_host :: string
  bc_rpc_wallet :: "string option"

definition opt_arg :: "string \<Rightarrow> string option \<Rightarrow> string list" where
  "opt_arg flag val = (case val of Some v \<Rightarrow> [flag @ v] | None \<Rightarrow> [])"

definition default_args :: "(network \<Rightarrow> string) \<Rightarrow> bitcoin_cli \<Rightarrow> string list" where
  "default_args core_arg cli =
     [''-chain='' @ core_arg (bc_network cli),
      ''-rpcport='' @ show_nat (unat (bc_rpc_port cli)),
      ''-rpcconnect='' @ bc_rpc_host cli]
     @ opt_arg ''-rpccookiefile='' (bc_rpc_cookie_path cli)
     @ opt_arg ''-rpcuser='' (bc_rpc_user cli)
     @ opt_arg ''-rpcpassword='' (bc_rpc_pass cli)
     @ opt_arg ''-rpcwallet='' (bc_rpc_wallet cli)"

definition cli_command ::
  "(network \<Rightarrow> string) \<Rightarrow> bitcoin_cli \<Rightarrow> string list \<Rightarrow> string \<Rightarrow> string list \<Rightarrow> process" where
  "cli_command core_arg cli command_args subcommand subcommand_args =
     (bc_path cli, default_args core_arg cli @ command_args @ [subcommand] @ subcommand_args)"

definition display_without_chain :: "(network \<Rightarrow> string) \<Rightarrow> bitcoin_cli \<Rightarrow> string" where
  "display_without_chain core_arg cli =
     join '' '' (bc_path cli # filter (\<lambda>arg. \<not> starts_with arg ''-chain='') (default_args core_arg cli))"

record bitcoin_util =
  bu_path :: string
  bu_network :: network

definition util_command ::
  "(network \<Rightarrow> string) \<Rightarrow> bitcoin_util \<Rightarrow> string list \<Rightarrow> string \<Rightarrow> string list \<Rightarrow> process" where
  "util_command core_arg util command_args subcommand subcommand_args =
     (bu_path util, [''-chain='' @ core_arg (bu_network util)] @ command_args @ [subcommand] @ subcommand_args)"

text \<open>Block intervals are whole seconds, which their display as a float shows without a fraction.\<close>

record signet_miner =
  sm_path :: string
  sm_bitcoin_cli :: bitcoin_cli
  sm_bitcoin_util :: string
  sm_block_interval :: "nat option"
  sm_nbits :: "bytes option"
  sm_coinbase_recipient :: "string option"
  sm_getblocktemplate_command :: "string option"
  sm_coinbasetxn :: bool
  sm_debug :: bool

definition miner_command :: "(network \<Rightarrow> string) \<Rightarrow> signet_miner \<Rightarrow> string \<Rightarrow> string list \<Rightarrow> process" where
  "miner_command core_arg m subcommand subcommand_args =
     (sm_path m,
      [''--cli='' @ display_without_chain core_arg (sm_bitcoin_cli m)]
      @ [if sm_debug m then ''--debug'' else ''--quiet'']
      @ [subcommand]
      @ [''--grind-cmd='' @ sm_bitcoin_util m @ '' grind'']
      @ (if subcommand = ''generate'' then
           opt_arg ''--block-interval='' (map_option show_nat (sm_block_interval m))
           @ (case sm_nbits m of Some nbits \<Rightarrow> [''--nbits='' @ hex_encode nbits] | None \<Rightarrow> [''--min-nbits''])
           @ opt_arg ''--address='' (sm_coinbase_recipient m)
           @ (case sm_getblocktemplate_command m of
                Some cmd \<Rightarrow> [''--getblocktemplate-command='' @ cmd] @ (if sm_coinbasetxn m then [''--coinbasetxn''] else [])
              | None \<Rightarrow> [])
         else [])
      @ subcommand_args)"

section \<open>The miner script\<close>

text \<open>The directory of the downloaded script: whether it exists, and whether the script is in it.\<close>

record miner_dir =
  md_exists :: bool
  md_has_script :: bool

datatype miner_path_error = CreateSignetMinerDir command_error | DownloadSignetMiner command_error

text \<open>\<open>mkdir\<close> and \<open>download\<close> are what the two commands give.\<close>

definition get_signet_miner_path ::
  "string option \<Rightarrow> string \<Rightarrow> command_error + string \<Rightarrow> command_error + string
    \<Rightarrow> (miner_dir, miner_path_error, string) st" where
  "get_signet_miner_path custom_path dir mkdir download = (\<lambda>d.
     case custom_path of
       Some p \<Rightarrow> (Inr p, d)
     | None \<Rightarrow>
         if md_exists d then (Inr (dir @ ''/signet-miner/contrib/signet/miner''), d)
         else case mkdir of
           Inl e \<Rightarrow> (Inl (CreateSignetMinerDir e), d)
         | Inr _ \<Rightarrow>
             (case download of
                Inl e \<Rightarrow> (Inl (DownloadSignetMiner e), d\<lparr>md_exists := True\<rparr>)
              | Inr _ \<Rightarrow> (Inr (dir @ ''/signet-miner/contrib/signet/miner''),
                          d\<lparr>md_exists := True, md_has_script := True\<rparr>)))"

section \<open>The run of the miner\<close>

text \<open>The lines that a reader task collects.\<close>

definition collect_lines :: "string list \<Rightarrow> string" where
  "collect_lines lines = foldl (\<lambda>collected l. (if collected \<noteq> [] then collected @ [CHR 0x0a] else collected) @ l) [] lines"

datatype child_outcome = SpawnFailed | ChildTimeout | WaitFailed | ChildExit bool "string list"

record signet_config =
  sc_serve_rpc_ip :: string
  sc_serve_rpc_port :: u16
  sc_cli :: bitcoin_cli
  sc_util_path :: string
  sc_script_path :: "string option"
  sc_script_debug :: bool
  sc_temp_dir :: string
  sc_signet_challenge :: "bytes option"

text \<open>
  What happens outside: the commands of the download, the clock in nanoseconds, the child process as
  a function of its command line, the node's best block.
\<close>

record signet_env =
  se_core_arg :: "network \<Rightarrow> string"
  se_mkdir :: "command_error + string"
  se_download :: "command_error + string"
  se_now_nanos :: nat
  se_run_child :: "process \<Rightarrow> child_outcome"
  se_best_block_hash :: "string + bytes"

datatype generate_signet_error =
  SignetAwait await_connection_error
| FetchMostRecentBlockHash string
| SignetHeaderInfo header_info_error
| SignetTip db_error
| SignetMinerPath miner_path_error
| SignetMine command_error
| SignetTimeout

text \<open>\<open>midpoint\<close> on 64-bit integers, and the time that is passed to the miner when the tip is old.\<close>

definition midpoint_u64 :: "u64 \<Rightarrow> u64 \<Rightarrow> u64" where
  "midpoint_u64 a b = word_of_nat ((unat a + unat b) div 2)"

definition next_block_time :: "u32 \<Rightarrow> nat \<Rightarrow> nat option \<Rightarrow> u32 option" where
  "next_block_time tip_time now_nanos target_interval =
     (case target_interval of
        None \<Rightarrow> None
      | Some interval \<Rightarrow>
          let tip_nanos = unat tip_time * 10 ^ 9 in
          if tip_nanos \<le> now_nanos \<and> now_nanos - tip_nanos > interval * 10 ^ 9 then
            Some (tip_time + ucast (midpoint_u64 (word_of_nat ((now_nanos - tip_nanos) div 10 ^ 9)) (word_of_nat interval)))
          else None)"

definition signet_miner_of :: "signet_config \<Rightarrow> string \<Rightarrow> string option \<Rightarrow> signet_miner" where
  "signet_miner_of C path coinbase_recipient =
     \<lparr>sm_path = path, sm_bitcoin_cli = sc_cli C, sm_bitcoin_util = sc_util_path C,
      sm_block_interval = map_option target_block_interval (sc_signet_challenge C), sm_nbits = None,
      sm_coinbase_recipient = coinbase_recipient,
      sm_getblocktemplate_command = Some (''bitcoin-cli -rpcconnect='' @ sc_serve_rpc_ip C @ '' -rpcport=''
        @ show_nat (unat (sc_serve_rpc_port C)) @ '' getblocktemplate''),
      sm_coinbasetxn = True, sm_debug = sc_script_debug C\<rparr>"

definition BAD_DIFFBITS_WARNING :: string where
  "BAD_DIFFBITS_WARNING = ''WARNING submitblock returned bad-diffbits''"

text \<open>The result of the child process.\<close>

definition miner_result :: "string option \<Rightarrow> child_outcome \<Rightarrow> generate_signet_error + unit" where
  "miner_result last_gbt_error outcome =
     (case outcome of
        SpawnFailed \<Rightarrow> Inl (SignetMine UnknownIo)
      | ChildTimeout \<Rightarrow> Inl SignetTimeout
      | WaitFailed \<Rightarrow> Inl (SignetMine UnknownIo)
      | ChildExit success lines \<Rightarrow>
          let stderr = collect_lines lines in
          if contains_str stderr BAD_DIFFBITS_WARNING then Inl (SignetMine (Stderr ''block rejected: bad-diffbits''))
          else if \<not> success then
            Inl (SignetMine (Stderr (stderr @ (case last_gbt_error of
              Some template_err \<Rightarrow> [CHR 0x0a] @ ''block template error: '' @ template_err | None \<Rightarrow> []))))
          else Inr ())"

definition generate_signet_block ::
  "libs \<Rightarrow> mining_libs \<Rightarrow> signet_config \<Rightarrow> signet_env \<Rightarrow> producer \<Rightarrow> string option
    \<Rightarrow> (miner_dir, generate_signet_error, bytes) st" where
  "generate_signet_block L M C E p coinbase_recipient =
     (let D = vd_dbs (bp_validator p) in
      bindS (liftS (\<lambda>_. mapErr SignetTip (get_mainchain_tip D))) (\<lambda>tip.
      bindS (liftS (\<lambda>_. mapErr SignetHeaderInfo (get_header_info L D tip))) (\<lambda>tip_header.
      bindS (mapErrS SignetMinerPath
        (get_signet_miner_path (sc_script_path C) (sc_temp_dir C) (se_mkdir E) (se_download E))) (\<lambda>path.
      let args = (case next_block_time (hi_timestamp tip_header) (se_now_nanos E)
                    (map_option target_block_interval (sc_signet_challenge C)) of
                    Some t \<Rightarrow> [''--set-block-time='' @ show_nat (unat t)] | None \<Rightarrow> []);
          command = miner_command (se_core_arg E) (signet_miner_of C path coinbase_recipient) ''generate'' args in
      bindS (liftS (\<lambda>_. miner_result (bp_last_gbt_error p) (se_run_child E command))) (\<lambda>_.
      bindS (liftS (\<lambda>_. mapErr FetchMostRecentBlockHash (se_best_block_hash E))) (\<lambda>block_hash.
      bindS (liftS (\<lambda>_. mapErr SignetAwait (await_block_connection L block_hash (ml_polls M)))) (\<lambda>_.
      returnS block_hash)))))))"

section \<open>Generating a block\<close>

datatype generate_error = GenerateSignetBlock generate_signet_error | GenerateLocalBlock generate_block_error

text \<open>The coinbase address with its text and its script; the loop over nonces may not end.\<close>

definition generate_block ::
  "libs \<Rightarrow> mining_libs \<Rightarrow> signet_config \<Rightarrow> signet_env \<Rightarrow> network \<Rightarrow> producer \<Rightarrow> string \<times> bytes \<Rightarrow> miner_dir
    \<Rightarrow> ((generate_error + bytes) \<times> miner_dir) option" where
  "generate_block L M C E net p coinbase_addr d =
     (if net = Signet then
        Some (mapErrS GenerateSignetBlock (generate_signet_block L M C E p (Some (fst coinbase_addr))) d)
      else
        Option.bind (generate_local_block L M p (snd coinbase_addr)) (\<lambda>r.
          Some (bindE (mapErr GenerateLocalBlock r) (\<lambda>blk. Inr (header_block_hash L (blk_header blk))), d)))"

section \<open>What the miner is given\<close>

lemma join_contains: "x \<in> set xs \<Longrightarrow> \<exists>pre suf. join sep xs = pre @ x @ suf"
proof (induction sep xs rule: join.induct)
  case (2 sep y)
  then show ?case by (intro exI [of _ "[]"]) simp
next
  case (3 sep y z zs)
  show ?case
  proof (cases "x = y")
    case True
    then show ?thesis by (intro exI [of _ "[]"] exI [of _ "sep @ join sep (z # zs)"]) simp
  next
    case False
    then obtain pre suf where "join sep (z # zs) = pre @ x @ suf" using 3 by auto
    then show ?thesis by (intro exI [of _ "y @ sep @ pre"] exI [of _ suf]) simp
  qed
qed simp

text \<open>
  The command line of the miner holds the RPC password in clear. The code writes this command to its
  log with the arguments, so that the redacted display of the client does not keep it out of there.
\<close>
theorem miner_command_shows_password:
  assumes "bc_rpc_pass (sm_bitcoin_cli m) = Some pw"
  shows "\<exists>arg\<in>set (snd (miner_command core_arg m subcommand args)). contains_str arg (''-rpcpassword='' @ pw)"
proof -
  have "''-rpcpassword='' @ pw \<in> set (filter (\<lambda>arg. \<not> starts_with arg ''-chain='') (default_args core_arg (sm_bitcoin_cli m)))"
    using assms by (simp add: default_args_def opt_arg_def starts_with_def)
  then have "''-rpcpassword='' @ pw \<in> set (bc_path (sm_bitcoin_cli m)
      # filter (\<lambda>arg. \<not> starts_with arg ''-chain='') (default_args core_arg (sm_bitcoin_cli m)))" by simp
  from join_contains [OF this, of "'' ''"] obtain pre suf
    where "display_without_chain core_arg (sm_bitcoin_cli m) = pre @ (''-rpcpassword='' @ pw) @ suf"
    by (auto simp: display_without_chain_def)
  then have "''--cli='' @ display_without_chain core_arg (sm_bitcoin_cli m)
      = (''--cli='' @ pre) @ (''-rpcpassword='' @ pw) @ suf" by simp
  then have "contains_str (''--cli='' @ display_without_chain core_arg (sm_bitcoin_cli m)) (''-rpcpassword='' @ pw)"
    unfolding contains_str_iff by blast
  then show ?thesis by (simp add: miner_command_def)
qed

text \<open>
  A failed download of the script is not tried again: its directory exists from then on, and the path
  of a script that is not there is returned.
\<close>
theorem failed_download_is_final:
  assumes "get_signet_miner_path None dir (Inr out) (Inl e) \<lparr>md_exists = False, md_has_script = False\<rparr> = (r, d)"
  shows "r = Inl (DownloadSignetMiner e)
    \<and> get_signet_miner_path None dir mkdir download d = (Inr (dir @ ''/signet-miner/contrib/signet/miner''), d)
    \<and> \<not> md_has_script d"
  using assms by (auto simp: get_signet_miner_path_def)

text \<open>
  The block time that is passed to the miner lies between the target time after the tip and the
  clock, half way.
\<close>
lemma next_block_time_bounds:
  assumes "next_block_time tip_time now_nanos (Some interval) = Some t" and "now_nanos div 10 ^ 9 < 2 ^ 32"
  shows "unat tip_time + interval \<le> unat t \<and> unat t \<le> now_nanos div 10 ^ 9"
proof -
  define age where "age = (now_nanos - unat tip_time * 10 ^ 9) div 10 ^ 9"
  have le: "unat tip_time * 10 ^ 9 \<le> now_nanos" and gt: "interval * 10 ^ 9 < now_nanos - unat tip_time * 10 ^ 9"
    and t: "t = tip_time + ucast (midpoint_u64 (word_of_nat age) (word_of_nat interval))"
    using assms(1) by (auto simp: next_block_time_def Let_def age_def split: if_splits)
  have "interval \<le> age" unfolding age_def using gt by (metis less_imp_le nonzero_mult_div_cancel_right div_le_mono power_eq_0_iff zero_neq_numeral)
  moreover have now: "unat tip_time + age = now_nanos div 10 ^ 9"
    using le unfolding age_def by (metis add.commute div_mult_self1 le_add_diff_inverse2 power_eq_0_iff zero_neq_numeral)
  ultimately have mid: "interval \<le> (age + interval) div 2" "(age + interval) div 2 \<le> age" by simp_all
  have small: "age < 2 ^ 32" "interval < 2 ^ 32" using now assms(2) \<open>interval \<le> age\<close> by simp_all
  then have "unat (midpoint_u64 (word_of_nat age) (word_of_nat interval)) = (age + interval) div 2"
    by (simp add: midpoint_u64_def unsigned_of_nat take_bit_nat_eq_self)
  then have "unat (ucast (midpoint_u64 (word_of_nat age) (word_of_nat interval)) :: u32) = (age + interval) div 2"
    using small by (simp add: unsigned_ucast_eq take_bit_nat_eq_self)
  then have "unat t = unat tip_time + (age + interval) div 2"
    unfolding t using mid now assms(2) by (simp add: unat_word_ariths)
  then show ?thesis using mid now by simp
qed

section \<open>A generated block is connected\<close>

lemma miner_result_ok:
  "miner_result gbt outcome = Inr () \<longleftrightarrow>
     (\<exists>lines. outcome = ChildExit True lines \<and> \<not> contains_str (collect_lines lines) BAD_DIFFBITS_WARNING)"
  by (auto simp: miner_result_def Let_def split: child_outcome.splits if_splits)

lemma generate_signet_block_ok:
  assumes "generate_signet_block L M C E p recipient d = (Inr h, d')"
  obtains tip info path args lines where
    "db_tip (vd_dbs (bp_validator p)) = Some tip" "get_header_info L (vd_dbs (bp_validator p)) tip = Inr info"
    "get_signet_miner_path (sc_script_path C) (sc_temp_dir C) (se_mkdir E) (se_download E) d = (Inr path, d')"
    "args = (case next_block_time (hi_timestamp info) (se_now_nanos E)
               (map_option target_block_interval (sc_signet_challenge C)) of
               Some t \<Rightarrow> [''--set-block-time='' @ show_nat (unat t)] | None \<Rightarrow> [])"
    "se_run_child E (miner_command (se_core_arg E) (signet_miner_of C path recipient) ''generate'' args) = ChildExit True lines"
    "\<not> contains_str (collect_lines lines) BAD_DIFFBITS_WARNING"
    "se_best_block_hash E = Inr h" "await_block_connection L h (ml_polls M) = Inr ()"
  using assms
  by (auto simp: generate_signet_block_def Let_def bindS_eq_Inr get_mainchain_tip_def miner_result_ok)

lemma mined_block_facts:
  assumes "mine L M D spk outs txs = Some (Inr blk)"
  shows "check_parent blk D = Inr ()" "tl (blk_txdata blk) = txs"
    "ml_submit_block M (hex_encode (ml_encode_block M blk)) = Inr None"
    "await_block_connection L (header_block_hash L (blk_header blk)) (ml_polls M) = Inr ()"
proof -
  obtain blk0 where fin: "finalize_block L M D spk outs txs = Inr blk0"
    and blk: "blk = blk0\<lparr>blk_header := (blk_header blk0)\<lparr>hdr_nonce := hdr_nonce (blk_header blk)\<rparr>\<rparr>"
    and rest: "ml_submit_block M (hex_encode (ml_encode_block M blk)) = Inr None"
      "await_block_connection L (header_block_hash L (blk_header blk)) (ml_polls M) = Inr ()"
    using mine_ok [OF assms] by blast
  have same: "hdr_prev_blockhash (blk_header blk) = hdr_prev_blockhash (blk_header blk0)" "blk_txdata blk = blk_txdata blk0"
    by (subst blk, simp)+
  show "check_parent blk D = Inr ()" "tl (blk_txdata blk) = txs"
    by (rule finalize_block_ok [OF fin], simp add: check_parent_def same)+
  show "ml_submit_block M (hex_encode (ml_encode_block M blk)) = Inr None"
    "await_block_connection L (header_block_hash L (blk_header blk)) (ml_polls M) = Inr ()"
    by (fact rest)+
qed

lemma generate_local_block_ok:
  assumes "generate_local_block L M p spk = Some (Inr blk)"
  obtains tip txs where "db_tip (vd_dbs (bp_validator p)) = Some tip" "select_block_txs M p tip = Inr txs"
    "mine L M (vd_dbs (bp_validator p)) spk [] txs = Some (Inr blk)"
  using assms
  by (auto simp: generate_local_block_def Let_def try_get_mainchain_tip_def bind_eq_Some_conv
      split: option.splits sum.splits)

lemma generate_block_local:
  assumes "generate_block L M C E net p addr d = Some (Inr h, d')" and "net \<noteq> Signet"
  obtains blk tip txs where "h = header_block_hash L (blk_header blk)" "d' = d"
    "db_tip (vd_dbs (bp_validator p)) = Some tip" "select_block_txs M p tip = Inr txs"
    "mine L M (vd_dbs (bp_validator p)) (snd addr) [] txs = Some (Inr blk)"
proof -
  from assms obtain blk where blk: "generate_local_block L M p (snd addr) = Some (Inr blk)"
      "h = header_block_hash L (blk_header blk)" "d' = d"
    by (auto simp: generate_block_def bind_eq_Some_conv)
  then show thesis using generate_local_block_ok [OF blk(1)] that by metis
qed

lemma generate_block_signet:
  "generate_block L M C E Signet p addr d = Some (Inr h, d')
    \<longleftrightarrow> generate_signet_block L M C E p (Some (fst addr)) d = (Inr h, d')"
  by (auto simp: generate_block_def mapErrS_eq_Inr)

lemma generate_block_stored:
  assumes "generate_block L M C E net p addr d = Some (Inr h, d')"
  shows "\<exists>D\<in>set (ml_polls M). \<exists>infos. try_get_block_infos L D h 0 = Inr (Some infos)"
proof (cases "net = Signet")
  case True
  with assms show ?thesis
    using generate_signet_block_ok [of L M C E p "Some (fst addr)" d h d'] await_block_connection_ok
    by (metis generate_block_signet)
next
  case False
  from generate_block_local [OF assms this] mined_block_facts(4) await_block_connection_ok show ?thesis by metis
qed


subsection \<open>A signet node\<close>

definition signet_demo_producer :: producer where
  "signet_demo_producer = demo_producer\<lparr>bp_validator := demo_validator\<lparr>vd_dbs := demo_state1\<rparr>\<rparr>"

definition signet_demo_config :: signet_config where
  "signet_demo_config = \<lparr>sc_serve_rpc_ip = ''127.0.0.1'', sc_serve_rpc_port = 8122,
     sc_cli = \<lparr>bc_path = ''bitcoin-cli'', bc_network = Signet, bc_rpc_user = Some ''user'', bc_rpc_pass = Some ''secret'',
       bc_rpc_cookie_path = None, bc_rpc_port = 38332, bc_rpc_host = ''127.0.0.1'', bc_rpc_wallet = None\<rparr>,
     sc_util_path = ''bitcoin-util'', sc_script_path = Some ''miner'', sc_script_debug = False,
     sc_temp_dir = ''/tmp'', sc_signet_challenge = Some [0x51]\<rparr>"

definition signet_demo_env :: "header \<Rightarrow> signet_env" where
  "signet_demo_env hdr = \<lparr>se_core_arg = (\<lambda>_. ''signet''), se_mkdir = Inr [], se_download = Inr [],
     se_now_nanos = 4000000000 * 10 ^ 9,
     se_run_child = (\<lambda>command. ChildExit True [''done'']),
     se_best_block_hash = Inr (header_block_hash sample_libs hdr)\<rparr>"

lemma signet_demo_run:
  assumes "ml_polls M = demo_polls hdr"
  shows "generate_block sample_libs M signet_demo_config (signet_demo_env hdr) Signet signet_demo_producer addr d
    = Some (Inr (header_block_hash sample_libs hdr), d)"
proof -
  obtain info where info: "get_header_info sample_libs demo_state1 (2 # replicate 31 0) = Inr info"
    using demo_state1_tip(2) by (cases "get_header_info sample_libs demo_state1 (2 # replicate 31 0)") auto
  have quiet: "\<not> contains_str (collect_lines [''done'']) BAD_DIFFBITS_WARNING"
    by (simp add: collect_lines_def BAD_DIFFBITS_WARNING_def)
  show ?thesis
    using info quiet demo_polls_connect [of hdr] assms
    by (simp add: generate_block_def generate_signet_block_def signet_demo_producer_def signet_demo_config_def
        signet_demo_env_def get_mainchain_tip_def demo_state1_tip(1) get_signet_miner_path_def miner_result_def
        bindS_def liftS_def returnS_def mapErrS_def Let_def del: sample_libs_sel replicate.simps)
qed


end
