(* ===== verification/Wallet_Sync.thy ===== *)
theory Wallet_Sync
  imports Block_Producer
begin

text \<open>
  The wallet behind the enforcer's calls (\<open>lib/wallet/block_producer.rs\<close>, \<open>lib/wallet/sync.rs\<close>, and
  \<open>connect_missing_block\<close> of \<open>lib/wallet/mod.rs\<close>). The BDK wallet is a value of type \<open>'w\<close> with the
  record \<open>bdk\<close> of its operations, \<open>'c\<close> its checkpoints and \<open>'u\<close> its updates; the node and the chain
  source are records too. Loops that end only if the BDK wallet behaves are partial functions.
\<close>

section \<open>Runs that may not end\<close>

text \<open>\<open>None\<close> is a run without end; \<open>bind_run\<close> is the \<open>?\<close> operator followed by more code.\<close>

type_synonym ('s, 'e, 'a) run = "(('e + 'a) \<times> 's) option"

definition bind_run :: "('s, 'e, 'a) run \<Rightarrow> ('a \<Rightarrow> 's \<Rightarrow> ('s, 'e, 'b) run) \<Rightarrow> ('s, 'e, 'b) run" where
  "bind_run m f = Option.bind m (\<lambda>x. case fst x of Inl e \<Rightarrow> Some (Inl e, snd x) | Inr a \<Rightarrow> f a (snd x))"

definition map_run_error :: "('e \<Rightarrow> 'f) \<Rightarrow> ('s, 'e, 'a) run \<Rightarrow> ('s, 'f, 'a) run" where
  "map_run_error g m = map_option (\<lambda>(r, s). (mapErr g r, s)) m"

lemma bind_run_Some:
  "bind_run m f = Some (r, s') \<longleftrightarrow>
     (\<exists>e. m = Some (Inl e, s') \<and> r = Inl e) \<or> (\<exists>a s. m = Some (Inr a, s) \<and> f a s = Some (r, s'))"
  by (cases m) (auto simp: bind_run_def split: sum.splits)

lemma bind_run_simps [simp]:
  "bind_run (Some (Inl e, s)) f = Some (Inl e, s)" "bind_run (Some (Inr a, s)) f = f a s"
  by (simp_all add: bind_run_def)

lemma map_run_error_Some:
  "map_run_error g m = Some (r, s) \<longleftrightarrow> (\<exists>r'. m = Some (r', s) \<and> mapErr g r' = r)"
  by (auto simp: map_run_error_def)

lemma map_run_error_simps [simp]: "map_run_error g (Some (r, s)) = Some (mapErr g r, s)"
  by (simp add: map_run_error_def)

lemma bind_run_mono [partial_function_mono]:
  assumes "mono_option (\<lambda>f. m f)" and "\<And>a s. mono_option (\<lambda>f. k a s f)"
  shows "mono_option (\<lambda>f. bind_run (m f) (\<lambda>a s. k a s f))"
  unfolding bind_run_def
proof (rule bind_mono [OF assms(1)])
  fix x
  show "mono_option (\<lambda>f. case fst x of Inl e \<Rightarrow> Some (Inl e, snd x) | Inr a \<Rightarrow> k a (snd x) f)"
    using assms(2) by (cases "fst x") (simp_all add: option.const_mono)
qed

section \<open>The wallet's parts\<close>

record ('w, 'c, 'u) bdk =
  bk_tip :: "'w \<Rightarrow> u32 \<times> bytes"
  bk_apply_block :: "block \<Rightarrow> u32 \<Rightarrow> 'w \<Rightarrow> u32 + 'w"
  bk_extend_tip :: "'w \<Rightarrow> (u32 \<times> bytes) list \<Rightarrow> 'c option"
  bk_chain_update :: "'c \<Rightarrow> 'u"
  bk_apply_update :: "'u \<Rightarrow> 'w \<Rightarrow> 'w option"
  bk_persist :: "'w \<Rightarrow> bool"
  bk_keychains :: "'w \<Rightarrow> nat list"
  bk_reveal_to :: "nat \<Rightarrow> u32 \<Rightarrow> 'w \<Rightarrow> 'w"
  bk_evict :: "bytes set \<Rightarrow> u64 \<Rightarrow> 'w \<Rightarrow> 'w"
  bk_unconfirmed :: "transaction \<Rightarrow> u64 \<Rightarrow> 'w \<Rightarrow> 'w"

text \<open>
  The chain source: whether the address at an index has transactions, a sync on top of a checkpoint,
  and a sync of the revealed scripts, whose update may carry a chain update.
\<close>

record ('w, 'c, 'u) chain_source =
  cs_has_txs :: "'w \<Rightarrow> nat \<Rightarrow> u32 \<Rightarrow> bool option"
  cs_sync :: "'w \<Rightarrow> 'c \<Rightarrow> 'u option"
  cs_sync_revealed :: "'w \<Rightarrow> ('u \<times> bool) option"

text \<open>The node's \<open>getblockhash\<close> and \<open>getblock\<close>, the iteration of the height database, the clock.\<close>

record wallet_node =
  wn_getblockhash :: "u32 \<Rightarrow> bytes option"
  wn_get_block :: "bytes \<Rightarrow> block option"
  wn_height_entries :: "dbs \<Rightarrow> (bytes \<times> u32) list"
  wn_now :: u64

text \<open>A locked wallet is \<open>None\<close>; \<open>wi_bdk_db\<close> is the wallet that was persisted last.\<close>

record ('w, 'c, 'u) wallet_inner =
  wi_producer :: producer
  wi_bitcoin_wallet :: "'w option"
  wi_bdk_db :: "'w option"
  wi_birthday_height :: "u32 option"
  wi_chain_source :: "('w, 'c, 'u) chain_source option"
  wi_last_sync :: "u64 option"

abbreviation wi_dbs :: "('w, 'c, 'u) wallet_inner \<Rightarrow> dbs" where
  "wi_dbs w \<equiv> vd_dbs (bp_validator (wi_producer w))"

datatype full_scan_error =
  InvalidSyncSource | ScanNotUnlocked | CheckAddressTransactions | CreateCheckPointFromHeaders
| ScanChainSource | ScanCannotConnect | PersistWallet

datatype wallet_sync_error =
  NotUnlocked
| WalletPersist
| GetBlockHashRpc u32
| GetBlockRpc bytes
| WalletBlockInfos header_info_error
| InfosLengthPanic
| BdkConnect u32 u32
| WalletHeaderInfo header_info_error
| WalletFullScan full_scan_error

section \<open>Connecting one block\<close>

text \<open>The inner \<open>Inl\<close> is \<open>CannotConnectError\<close> with the height that should be included first.\<close>

definition handle_connect_block ::
  "('w, 'c, 'u) bdk \<Rightarrow> block \<Rightarrow> u32 \<Rightarrow> (('w, 'c, 'u) wallet_inner, wallet_sync_error, u32 + unit) st" where
  "handle_connect_block B blk block_height = (\<lambda>w.
     case wi_bitcoin_wallet w of
       None \<Rightarrow> (Inl NotUnlocked, w)
     | Some bw \<Rightarrow>
         (case bk_apply_block B blk block_height bw of
            Inl try_include_height \<Rightarrow> (Inr (Inl try_include_height), w)
          | Inr bw' \<Rightarrow>
              if bk_persist B bw' then (Inr (Inr ()), w\<lparr>wi_bitcoin_wallet := Some bw', wi_bdk_db := Some bw'\<rparr>)
              else (Inl WalletPersist, w\<lparr>wi_bitcoin_wallet := Some bw'\<rparr>)))"

definition get_tip :: "('w, 'c, 'u) bdk \<Rightarrow> ('w, 'c, 'u) wallet_inner \<Rightarrow> wallet_sync_error + (u32 \<times> bytes)" where
  "get_tip B w = ok_or (map_option (bk_tip B) (wi_bitcoin_wallet w)) NotUnlocked"

section \<open>Connecting missing blocks\<close>

definition fetch_at_height :: "wallet_node \<Rightarrow> u32 \<Rightarrow> wallet_sync_error + block" where
  "fetch_at_height N block_height =
     bindE (ok_or (wn_getblockhash N block_height) (GetBlockHashRpc block_height)) (\<lambda>block_hash.
       ok_or (wn_get_block N block_hash) (GetBlockRpc block_hash))"

text \<open>
  The \<open>while let\<close> over the stack \<open>try_includes\<close>, its top first. The height below the top's is
  pushed when the BDK wallet asks for a lower block.
\<close>

partial_function (option) connect_missing_loop ::
  "libs \<Rightarrow> ('w, 'c, 'u) bdk \<Rightarrow> wallet_node \<Rightarrow> (u32 \<times> block option) list \<Rightarrow> ('w, 'c, 'u) wallet_inner
    \<Rightarrow> (('w, 'c, 'u) wallet_inner, wallet_sync_error, unit) run" where
  "connect_missing_loop L B N try_includes w =
     (case try_includes of
        [] \<Rightarrow> Some (Inr (), w)
      | (block_height, cached) # rest \<Rightarrow>
          (case (case cached of Some blk \<Rightarrow> Inr blk | None \<Rightarrow> fetch_at_height N block_height) of
             Inl e \<Rightarrow> Some (Inl e, w)
           | Inr blk \<Rightarrow>
               (case get_block_infos L (wi_dbs w) (block_hash_of L blk) 0 of
                  Inl e \<Rightarrow> Some (Inl (WalletBlockInfos e), w)
                | Inr infos \<Rightarrow>
                    if length infos \<noteq> 1 then Some (Inl InfosLengthPanic, w)
                    else
                      (case handle_connect_block B blk block_height w of
                         (Inl e, w') \<Rightarrow> Some (Inl e, w')
                       | (Inr (Inr _), w') \<Rightarrow> connect_missing_loop L B N rest w'
                       | (Inr (Inl try_include_height), w') \<Rightarrow>
                           if try_include_height < block_height then
                             connect_missing_loop L B N
                               ((block_height - 1, None) # (block_height, Some blk) # rest) w'
                           else Some (Inl (BdkConnect block_height try_include_height), w')))))"

definition connect_missing_block ::
  "libs \<Rightarrow> ('w, 'c, 'u) bdk \<Rightarrow> wallet_node \<Rightarrow> u32 \<Rightarrow> ('w, 'c, 'u) wallet_inner
    \<Rightarrow> (('w, 'c, 'u) wallet_inner, wallet_sync_error, unit) run" where
  "connect_missing_block L B N try_include_height w =
     connect_missing_loop L B N [(try_include_height, None)] w"

text \<open>The loop \<open>'connect_block\<close>; \<open>try_include_height + 1\<close> wraps as in a release build.\<close>

partial_function (option) connect_block_loop ::
  "libs \<Rightarrow> ('w, 'c, 'u) bdk \<Rightarrow> wallet_node \<Rightarrow> block \<Rightarrow> u32 \<Rightarrow> ('w, 'c, 'u) wallet_inner
    \<Rightarrow> (('w, 'c, 'u) wallet_inner, wallet_sync_error, unit) run" where
  "connect_block_loop L B N blk block_height w =
     (case handle_connect_block B blk block_height w of
        (Inl e, w') \<Rightarrow> Some (Inl e, w')
      | (Inr (Inr _), w') \<Rightarrow> Some (Inr (), w')
      | (Inr (Inl try_include_height), w') \<Rightarrow>
          bind_run (connect_missing_block L B N (try_include_height + 1) w') (\<lambda>_ w''.
            connect_block_loop L B N blk block_height w''))"

section \<open>Checkpoints and the full scan\<close>

definition saturating_sub_u32 :: "u32 \<Rightarrow> u32 \<Rightarrow> u32" where
  "saturating_sub_u32 a b = (if a < b then 0 else a - b)"

definition get_chain_checkpoint ::
  "('w, 'c, 'u) bdk \<Rightarrow> wallet_node \<Rightarrow> dbs \<Rightarrow> 'w \<Rightarrow> u32 option \<Rightarrow> full_scan_error + 'c" where
  "get_chain_checkpoint B N D local_chain up_to_height =
     (let headers = list_headers (wn_height_entries N D) (fst (bk_tip B local_chain));
          headers = (case up_to_height of None \<Rightarrow> headers
            | Some up_to \<Rightarrow> filter (\<lambda>(height, _). height \<le> up_to) headers);
          tip_height = fst (bk_tip B local_chain) in
      ok_or (bk_extend_tip B local_chain (filter (\<lambda>(height, _). height > tip_height) headers))
        CreateCheckPointFromHeaders)"

text \<open>Applying and persisting an update; what follows the error keeps the applied wallet.\<close>

definition apply_and_persist ::
  "('w, 'c, 'u) bdk \<Rightarrow> 'u \<Rightarrow> 'w \<Rightarrow> (('w, 'c, 'u) wallet_inner, full_scan_error, 'w) st" where
  "apply_and_persist B update bw = (\<lambda>w.
     case bk_apply_update B update bw of
       None \<Rightarrow> (Inl ScanCannotConnect, w)
     | Some bw' \<Rightarrow>
         if bk_persist B bw' then (Inr bw', w\<lparr>wi_bitcoin_wallet := Some bw', wi_bdk_db := Some bw'\<rparr>)
         else (Inl PersistWallet, w\<lparr>wi_bitcoin_wallet := Some bw'\<rparr>))"

definition fast_forward_chain ::
  "('w, 'c, 'u) bdk \<Rightarrow> wallet_node \<Rightarrow> u32 option \<Rightarrow> (('w, 'c, 'u) wallet_inner, full_scan_error, unit) st" where
  "fast_forward_chain B N up_to_height = (\<lambda>w.
     case wi_bitcoin_wallet w of
       None \<Rightarrow> (Inl ScanNotUnlocked, w)
     | Some bw \<Rightarrow>
         (case get_chain_checkpoint B N (wi_dbs w) bw up_to_height of
            Inl e \<Rightarrow> (Inl e, w)
          | Inr checkpoint \<Rightarrow>
              bindS (apply_and_persist B (bk_chain_update B checkpoint) bw) (\<lambda>_. returnS ()) w))"

text \<open>The first index, in steps of 1000, whose address has no transactions.\<close>

partial_function (option) upper_bound_loop ::
  "(u32 \<Rightarrow> bool option) \<Rightarrow> u32 \<Rightarrow> (full_scan_error + u32) option" where
  "upper_bound_loop has_txs last_used_index =
     (case has_txs last_used_index of
        None \<Rightarrow> Some (Inl CheckAddressTransactions)
      | Some used \<Rightarrow>
          if \<not> used then Some (Inr last_used_index) else upper_bound_loop has_txs (last_used_index + 1000))"

lemma u32_mid:
  assumes "low < (high :: u32)"
  defines "mid \<equiv> low + (high - low) div 2"
  shows "unat low \<le> unat mid" "unat mid < unat high" "unat (mid + 1) = unat mid + 1"
proof -
  have lt: "unat low < unat high" "unat high < 2 ^ 32"
    using assms(1) unsigned_less [of high, where 'a = nat] by (simp_all add: word_less_nat_alt)
  have d: "unat ((high - low) div 2) = (unat high - unat low) div 2"
    using assms(1) by (simp add: unat_div unat_sub word_less_nat_alt word_le_nat_alt)
  then have s: "unat mid = unat low + (unat high - unat low) div 2"
    unfolding mid_def using lt by (subst unat_add_lem [THEN iffD1]) simp_all
  then show mid: "unat low \<le> unat mid" "unat mid < unat high" using lt by simp_all
  show "unat (mid + 1) = unat mid + 1"
    using mid(2) lt by (subst unat_add_lem [THEN iffD1]) simp_all
qed

lemma u32_halves:
  assumes "low < (high :: u32)"
  shows "unat (low + (high - low) div 2) - unat low < unat high - unat low"
    "unat high - unat (low + (high - low) div 2 + 1) < unat high - unat low"
  using u32_mid [OF assms] by simp_all

function last_used_search :: "(u32 \<Rightarrow> bool option) \<Rightarrow> u32 \<Rightarrow> u32 \<Rightarrow> full_scan_error + u32" where
  "last_used_search has_txs low high =
     (if low < high then
        let mid = low + (high - low) div 2 in
        case has_txs mid of
          None \<Rightarrow> Inl CheckAddressTransactions
        | Some used \<Rightarrow>
            if \<not> used then last_used_search has_txs low mid else last_used_search has_txs (mid + 1) high
      else Inr low)"
  by pat_completeness auto
termination
  by (relation "measure (\<lambda>(has_txs, low, high). unat high - unat low)")
    (auto intro: u32_halves simp: Let_def)

declare last_used_search.simps [simp del]

text \<open>The first loop and the binary search of one keychain; \<open>None\<close> is a scan without end.\<close>

definition scan_keychain :: "(u32 \<Rightarrow> bool option) \<Rightarrow> (full_scan_error + u32) option" where
  "scan_keychain has_txs =
     Option.bind (upper_bound_loop has_txs 0) (\<lambda>bound.
       Some (bindE bound (\<lambda>last_used_index.
         last_used_search has_txs (saturating_sub_u32 last_used_index 1000) last_used_index)))"

fun scan_keychains ::
  "(nat \<Rightarrow> u32 \<Rightarrow> bool option) \<Rightarrow> nat list \<Rightarrow> (full_scan_error + (nat \<times> u32) list) option" where
  "scan_keychains has_txs [] = Some (Inr [])"
| "scan_keychains has_txs (keychain # rest) =
     Option.bind (scan_keychain (has_txs keychain)) (\<lambda>r.
       case r of
         Inl e \<Rightarrow> Some (Inl e)
       | Inr low \<Rightarrow> Option.bind (scan_keychains has_txs rest) (\<lambda>rs.
           Some (bindE rs (\<lambda>reveal_map. Inr ((keychain, low) # reveal_map)))))"

text \<open>The rest of \<open>full_scan\<close>: reveal the addresses, extend the checkpoint, sync and persist.\<close>

definition scan_revealed ::
  "('w, 'c, 'u) bdk \<Rightarrow> wallet_node \<Rightarrow> ('w, 'c, 'u) chain_source \<Rightarrow> 'w \<Rightarrow> (nat \<times> u32) list
    \<Rightarrow> (('w, 'c, 'u) wallet_inner, full_scan_error, bytes) st" where
  "scan_revealed B N C bw reveal_map =
     (let bw1 = foldl (\<lambda>x (keychain, index). bk_reveal_to B keychain index x) bw reveal_map in
      bindS (modifyS (\<lambda>w. w\<lparr>wi_bitcoin_wallet := Some bw1\<rparr>)) (\<lambda>_.
      bindS (liftS (\<lambda>w. get_chain_checkpoint B N (wi_dbs w) bw1 None)) (\<lambda>checkpoint.
      bindS (liftS (\<lambda>_. ok_or (cs_sync C bw1 checkpoint) ScanChainSource)) (\<lambda>update.
      bindS (apply_and_persist B update bw1) (\<lambda>bw2.
      returnS (snd (bk_tip B bw2)))))))"

definition full_scan ::
  "('w, 'c, 'u) bdk \<Rightarrow> wallet_node \<Rightarrow> ('w, 'c, 'u) wallet_inner
    \<Rightarrow> (('w, 'c, 'u) wallet_inner, full_scan_error, bytes) run" where
  "full_scan B N w =
     (case wi_chain_source w of
        None \<Rightarrow> Some (Inl InvalidSyncSource, w)
      | Some C \<Rightarrow>
          (case wi_bitcoin_wallet w of
             None \<Rightarrow> Some (Inl ScanNotUnlocked, w)
           | Some bw \<Rightarrow>
               bind_run (map_option (\<lambda>r. (r, w)) (scan_keychains (cs_has_txs C bw) (bk_keychains B bw)))
                 (\<lambda>reveal_map w'. Some (scan_revealed B N C bw reveal_map w'))))"

text \<open>
  \<open>sync\<close>, which is \<open>sync_lock\<close> and \<open>commit\<close>: a locked wallet, a missing chain source and an update of
  the chain itself are skipped without an error.
\<close>

datatype sync_update_error = SyncChainSource | SyncCannotConnect | SyncPersist

definition wallet_sync ::
  "('w, 'c, 'u) bdk \<Rightarrow> wallet_node \<Rightarrow> (('w, 'c, 'u) wallet_inner, sync_update_error, unit) st" where
  "wallet_sync B N = (\<lambda>w.
     case (wi_bitcoin_wallet w, wi_chain_source w) of
       (Some bw, Some C) \<Rightarrow>
         (case cs_sync_revealed C bw of
            None \<Rightarrow> (Inl SyncChainSource, w)
          | Some (update, has_chain_update) \<Rightarrow>
              if has_chain_update then (Inr (), w)
              else
                (case bk_apply_update B update bw of
                   None \<Rightarrow> (Inl SyncCannotConnect, w)
                 | Some bw' \<Rightarrow>
                     if bk_persist B bw' then
                       (Inr (), w\<lparr>wi_bitcoin_wallet := Some bw', wi_bdk_db := Some bw', wi_last_sync := Some (wn_now N)\<rparr>)
                     else (Inl SyncPersist, w\<lparr>wi_bitcoin_wallet := Some bw'\<rparr>)))
     | _ \<Rightarrow> (Inr (), w))"

section \<open>Following the validator to a tip\<close>

definition BIRTHDAY_REORG_MARGIN :: u32 where "BIRTHDAY_REORG_MARGIN = 100"
definition MAX_BLOCK_BY_BLOCK_REPLAY :: u32 where "MAX_BLOCK_BY_BLOCK_REPLAY = 2000"

definition set_last_synced_now :: "wallet_node \<Rightarrow> ('w, 'c, 'u) wallet_inner \<Rightarrow> ('w, 'c, 'u) wallet_inner" where
  "set_last_synced_now N w = w\<lparr>wi_last_sync := Some (wn_now N)\<rparr>"

text \<open>The tip after the blocks below the wallet's birthday have been skipped.\<close>

definition skip_to_birthday ::
  "('w, 'c, 'u) bdk \<Rightarrow> wallet_node \<Rightarrow> u32 \<Rightarrow> u32 \<times> bytes
    \<Rightarrow> (('w, 'c, 'u) wallet_inner, wallet_sync_error, u32 \<times> bytes) st" where
  "skip_to_birthday B N new_tip_height wallet_tip = (\<lambda>w.
     case wi_birthday_height w of
       None \<Rightarrow> (Inr wallet_tip, w)
     | Some birthday_height \<Rightarrow>
         let skip_below = min (saturating_sub_u32 birthday_height BIRTHDAY_REORG_MARGIN) new_tip_height in
         if fst wallet_tip < skip_below then
           (case fast_forward_chain B N (Some skip_below) w of
              (Inl e, w') \<Rightarrow> (Inl (WalletFullScan e), w')
            | (Inr _, w') \<Rightarrow> (get_tip B w', w'))
         else (Inr wallet_tip, w))"

text \<open>The tip after a full scan, when the wallet is too far behind and has a chain source.\<close>

definition scan_if_far_behind ::
  "('w, 'c, 'u) bdk \<Rightarrow> wallet_node \<Rightarrow> u32 \<Rightarrow> u32 \<times> bytes \<Rightarrow> ('w, 'c, 'u) wallet_inner
    \<Rightarrow> (('w, 'c, 'u) wallet_inner, wallet_sync_error, u32 \<times> bytes) run" where
  "scan_if_far_behind B N new_tip_height wallet_tip w =
     (let blocks_behind = saturating_sub_u32 new_tip_height (fst wallet_tip) in
      if blocks_behind \<le> MAX_BLOCK_BY_BLOCK_REPLAY then Some (Inr wallet_tip, w)
      else if wi_chain_source w \<noteq> None then
        bind_run (map_run_error WalletFullScan (full_scan B N w)) (\<lambda>_ w'. Some (get_tip B w', w'))
      else Some (Inr wallet_tip, w))"

text \<open>The \<open>while\<close> loop over \<open>block_infos\<close>, newest first, with its count of processed blocks.\<close>

fun process_blocks ::
  "libs \<Rightarrow> ('w, 'c, 'u) bdk \<Rightarrow> wallet_node \<Rightarrow> bytes \<Rightarrow> block option \<Rightarrow> nat
    \<Rightarrow> (header_info \<times> block_info) list \<Rightarrow> nat \<Rightarrow> ('w, 'c, 'u) wallet_inner
    \<Rightarrow> (('w, 'c, 'u) wallet_inner, wallet_sync_error, unit) run" where
  "process_blocks L B N new_tip_hash given expected_blocks [] processed_blocks w = Some (Inr (), w)"
| "process_blocks L B N new_tip_hash given expected_blocks ((info, _) # rest) processed_blocks w =
     (case (if hi_block_hash info = new_tip_hash \<and> given \<noteq> None then Inr (the given)
            else ok_or (wn_get_block N (hi_block_hash info)) (GetBlockRpc (hi_block_hash info))) of
        Inl e \<Rightarrow> Some (Inl e, w)
      | Inr blk \<Rightarrow>
          bind_run (connect_block_loop L B N blk (hi_height info) w) (\<lambda>_ w'.
            if Suc processed_blocks = expected_blocks then Some (Inr (), w')
            else process_blocks L B N new_tip_hash given expected_blocks rest (Suc processed_blocks) w'))"

definition sync_wallet_to_tip ::
  "libs \<Rightarrow> ('w, 'c, 'u) bdk \<Rightarrow> wallet_node \<Rightarrow> bytes \<Rightarrow> block option \<Rightarrow> ('w, 'c, 'u) wallet_inner
    \<Rightarrow> (('w, 'c, 'u) wallet_inner, wallet_sync_error, unit) run" where
  "sync_wallet_to_tip L B N new_tip_hash given w =
     bind_run (Some (mapErr WalletHeaderInfo (get_header_info L (wi_dbs w) new_tip_hash), w)) (\<lambda>info w.
     bind_run (Some (get_tip B w, w)) (\<lambda>wallet_tip w.
     if snd wallet_tip = new_tip_hash then Some (Inr (), set_last_synced_now N w)
     else
       bind_run (Some (skip_to_birthday B N (hi_height info) wallet_tip w)) (\<lambda>wallet_tip w.
       bind_run (scan_if_far_behind B N (hi_height info) wallet_tip w) (\<lambda>wallet_tip w.
       let expected_blocks = unat (max 1 (saturating_sub_u32 (hi_height info) (fst wallet_tip))) in
       bind_run (Some (mapErr WalletBlockInfos
           (get_block_infos L (wi_dbs w) new_tip_hash (expected_blocks - 1)), w)) (\<lambda>infos w.
       bind_run (process_blocks L B N new_tip_hash given expected_blocks infos 0 w) (\<lambda>_ w.
       Some (Inr (), set_last_synced_now N w)))))))"

section \<open>The driver's calls on the wallet\<close>

datatype wallet_connect_error = WalletValidator connect_block_error | WalletSync wallet_sync_error

definition wallet_connect_block ::
  "libs \<Rightarrow> prevout_service \<Rightarrow> ('w, 'c, 'u) bdk \<Rightarrow> wallet_node \<Rightarrow> block \<Rightarrow> ('w, 'c, 'u) wallet_inner
    \<Rightarrow> (('w, 'c, 'u) wallet_inner, wallet_connect_error, connect_block_action) run" where
  "wallet_connect_block L S B N blk w =
     (case enforcer_connect_block L S blk (bp_validator (wi_producer w)) of
        (Inl e, V) \<Rightarrow> Some (Inl (WalletValidator e), w\<lparr>wi_producer := (wi_producer w)\<lparr>bp_validator := V\<rparr>\<rparr>)
      | (Inr RejectBlock, V) \<Rightarrow> Some (Inr RejectBlock, w\<lparr>wi_producer := (wi_producer w)\<lparr>bp_validator := V\<rparr>\<rparr>)
      | (Inr (AcceptBlock remove_mempool_txs), V) \<Rightarrow>
          let w1 = w\<lparr>wi_producer := (wi_producer w)\<lparr>bp_validator := V,
                bp_pending := reap_confirmed_p2mr_spends L blk (bp_pending (wi_producer w))\<rparr>\<rparr> in
          bind_run (map_run_error WalletSync (sync_wallet_to_tip L B N (block_hash_of L blk) (Some blk) w1)) (\<lambda>_ w2.
          case wi_bitcoin_wallet w2 of
            None \<Rightarrow> Some (Inl (WalletSync NotUnlocked), w2)
          | Some bw \<Rightarrow>
              Some (Inr (AcceptBlock remove_mempool_txs),
                w2\<lparr>wi_bitcoin_wallet := Some (bk_evict B remove_mempool_txs (wn_now N) bw)\<rparr>)))"

definition wallet_disconnect_block ::
  "libs \<Rightarrow> bytes \<Rightarrow> (('w, 'c, 'u) wallet_inner, disconnect_block_error, unit) st" where
  "wallet_disconnect_block L block_hash = (\<lambda>w.
     case producer_disconnect_block L block_hash (wi_producer w) of (r, p) \<Rightarrow> (r, w\<lparr>wi_producer := p\<rparr>))"

definition wallet_validate_block ::
  "libs \<Rightarrow> ('w, 'c, 'u) wallet_inner \<Rightarrow> block \<Rightarrow> db_error + pqc_validation_error option" where
  "wallet_validate_block L w blk = validate_block L (bp_validator (wi_producer w)) blk"

text \<open>The spawned task is run at once; its errors are only logged.\<close>

definition wallet_accept_tx ::
  "libs \<Rightarrow> ('w, 'c, 'u) bdk \<Rightarrow> wallet_node \<Rightarrow> transaction
    \<Rightarrow> (('w, 'c, 'u) wallet_inner, validate_tx_error, tx_accept_action) st" where
  "wallet_accept_tx L B N tx = (\<lambda>w.
     case accept_tx L tx (bp_validator (wi_producer w)) of
       (Inr (AcceptTx conflicts tweak), _) \<Rightarrow>
         (Inr (AcceptTx conflicts tweak),
          case wi_bitcoin_wallet w of
            None \<Rightarrow> w
          | Some bw \<Rightarrow>
              let bw' = bk_unconfirmed B tx (wn_now N) bw in
              w\<lparr>wi_bitcoin_wallet := Some bw',
                wi_bdk_db := (if bk_persist B bw' then Some bw' else wi_bdk_db w)\<rparr>)
     | (r, _) \<Rightarrow> (r, w))"

datatype wallet_initial_sync_error =
  WalletInvalidBlock bytes connect_block_error
| ValidatorSync sync_error
| SyncedTip db_error
| SyncWallet wallet_sync_error
| WalletShutdown

text \<open>
  The wallet's \<open>sync_to_tip\<close>: the validator first, then the wallet to the tip that the validator
  reached. The shutdown signal may arrive in either part: \<open>shutdown\<close> is what the validator had done
  by then, \<open>shutdown_wallet\<close> what the wallet had.
\<close>

definition wallet_sync_to_tip ::
  "libs \<Rightarrow> block_file_libs \<Rightarrow> mainchain \<Rightarrow> network \<Rightarrow> blocks_dir option \<Rightarrow> sync_state option
    \<Rightarrow> ('w, 'c, 'u) wallet_inner option \<Rightarrow> bytes \<Rightarrow> ('w, 'c, 'u) bdk \<Rightarrow> wallet_node \<Rightarrow> ('w, 'c, 'u) wallet_inner
    \<Rightarrow> (('w, 'c, 'u) wallet_inner, wallet_initial_sync_error, unit) run" where
  "wallet_sync_to_tip L F M net dir shutdown shutdown_wallet main_tip B N w =
     Option.bind (enforcer_sync_to_tip L F M net dir shutdown main_tip (bp_validator (wi_producer w))) (\<lambda>(r, V).
       let w1 = w\<lparr>wi_producer := (wi_producer w)\<lparr>bp_validator := V\<rparr>\<rparr> in
       case r of
         Inl (InvalidBlock block_hash reason) \<Rightarrow> Some (Inl (WalletInvalidBlock block_hash reason), w1)
       | Inl (SyncOther e) \<Rightarrow> Some (Inl (ValidatorSync e), w1)
       | Inr _ \<Rightarrow>
           (case get_mainchain_tip (vd_dbs V) of
              Inl e \<Rightarrow> Some (Inl (SyncedTip e), w1)
            | Inr synced_tip_hash \<Rightarrow>
                (case shutdown_wallet of
                   Some w2 \<Rightarrow> Some (Inl WalletShutdown, w2)
                 | None \<Rightarrow>
                     map_run_error SyncWallet (sync_wallet_to_tip L B N synced_tip_hash None w1))))"

section \<open>The wallet leaves the producer alone\<close>

lemma handle_connect_producer:
  "handle_connect_block B blk h w = (r, w') \<Longrightarrow> wi_producer w' = wi_producer w"
  by (auto simp: handle_connect_block_def split: option.splits sum.splits if_splits)

lemma connect_missing_loop_producer:
  assumes "connect_missing_loop L B N st w = Some (r, w')"
  shows "wi_producer w' = wi_producer w"
proof -
  have "wi_producer (snd x) = wi_producer w" if "connect_missing_loop L B N st w = Some x" for x
  proof (rule connect_missing_loop.raw_induct [OF _ that, of "\<lambda>L B N st w x. wi_producer (snd x) = wi_producer w"])
    fix loop :: "libs \<Rightarrow> ('a, 'b, 'c) bdk \<Rightarrow> _" and L B N st and w :: "('a, 'b, 'c) wallet_inner" and x
    assume IH: "\<And>L B N st w x. loop L B N st w = Some x \<Longrightarrow> wi_producer (snd x) = wi_producer w"
      and eq: "(case st of
        [] \<Rightarrow> Some (Inr (), w)
      | (block_height, cached) # rest \<Rightarrow>
          (case (case cached of Some blk \<Rightarrow> Inr blk | None \<Rightarrow> fetch_at_height N block_height) of
             Inl e \<Rightarrow> Some (Inl e, w)
           | Inr blk \<Rightarrow>
               (case get_block_infos L (wi_dbs w) (block_hash_of L blk) 0 of
                  Inl e \<Rightarrow> Some (Inl (WalletBlockInfos e), w)
                | Inr infos \<Rightarrow>
                    if length infos \<noteq> 1 then Some (Inl InfosLengthPanic, w)
                    else
                      (case handle_connect_block B blk block_height w of
                         (Inl e, w') \<Rightarrow> Some (Inl e, w')
                       | (Inr (Inr _), w') \<Rightarrow> loop L B N rest w'
                       | (Inr (Inl try_include_height), w') \<Rightarrow>
                           if try_include_height < block_height then
                             loop L B N ((block_height - 1, None) # (block_height, Some blk) # rest) w'
                           else Some (Inl (BdkConnect block_height try_include_height), w'))))) = Some x"
    show "wi_producer (snd x) = wi_producer w"
      using eq by (auto dest!: IH handle_connect_producer split: list.splits sum.splits option.splits prod.splits if_splits)
  qed
  from this [OF assms] show ?thesis by simp
qed

lemma connect_block_loop_producer:
  assumes "connect_block_loop L B N blk h w = Some (r, w')"
  shows "wi_producer w' = wi_producer w"
proof -
  have "wi_producer (snd x) = wi_producer w" if "connect_block_loop L B N blk h w = Some x" for x
  proof (rule connect_block_loop.raw_induct [OF _ that, of "\<lambda>L B N blk h w x. wi_producer (snd x) = wi_producer w"])
    fix loop :: "libs \<Rightarrow> ('a, 'b, 'c) bdk \<Rightarrow> _" and L B N blk h and w :: "('a, 'b, 'c) wallet_inner" and x
    assume IH: "\<And>L B N blk h w x. loop L B N blk h w = Some x \<Longrightarrow> wi_producer (snd x) = wi_producer w"
      and eq: "(case handle_connect_block B blk h w of
        (Inl e, w') \<Rightarrow> Some (Inl e, w')
      | (Inr (Inr _), w') \<Rightarrow> Some (Inr (), w')
      | (Inr (Inl try_include_height), w') \<Rightarrow>
          bind_run (connect_missing_block L B N (try_include_height + 1) w') (\<lambda>_ w''. loop L B N blk h w'')) = Some x"
    show "wi_producer (snd x) = wi_producer w"
      using eq by (cases x) (auto simp: connect_missing_block_def bind_run_Some
          dest!: IH handle_connect_producer connect_missing_loop_producer split: sum.splits prod.splits)
  qed
  from this [OF assms] show ?thesis by simp
qed

lemma process_blocks_producer:
  "process_blocks L B N tip given m infos k w = Some (r, w') \<Longrightarrow> wi_producer w' = wi_producer w"
  by (induction infos arbitrary: k w)
    (auto simp: bind_run_Some dest!: connect_block_loop_producer split: sum.splits if_splits)

lemma apply_and_persist_producer:
  "apply_and_persist B u bw w = (r, w') \<Longrightarrow> wi_producer w' = wi_producer w"
  by (auto simp: apply_and_persist_def split: option.splits if_splits)

lemma fast_forward_producer:
  "fast_forward_chain B N h w = (r, w') \<Longrightarrow> wi_producer w' = wi_producer w"
  by (cases r) (auto simp: fast_forward_chain_def st_iffs
      dest!: apply_and_persist_producer split: option.splits sum.splits)

lemma skip_producer:
  "skip_to_birthday B N h t w = (r, w') \<Longrightarrow> wi_producer w' = wi_producer w"
  by (auto simp: skip_to_birthday_def Let_def dest!: fast_forward_producer
      split: option.splits sum.splits prod.splits if_splits)

lemma scan_revealed_producer:
  "scan_revealed B N C bw m w = (r, w') \<Longrightarrow> wi_producer w' = wi_producer w"
  by (cases r) (auto simp: scan_revealed_def st_iffs Let_def dest!: apply_and_persist_producer)

lemma scan_producer:
  "scan_if_far_behind B N h t w = Some (r, w') \<Longrightarrow> wi_producer w' = wi_producer w"
  by (auto simp: scan_if_far_behind_def full_scan_def Let_def bind_run_Some map_run_error_Some
      dest!: scan_revealed_producer split: option.splits if_splits)

lemma sync_wallet_producer:
  "sync_wallet_to_tip L B N tip given w = Some (r, w') \<Longrightarrow> wi_producer w' = wi_producer w"
  by (auto simp: sync_wallet_to_tip_def set_last_synced_now_def Let_def bind_run_Some
      dest!: skip_producer scan_producer process_blocks_producer split: if_splits)

section \<open>Catching up with the chain\<close>

text \<open>
  The node knows the chain \<open>bs\<close> (newest first) by height and by hash, and the validator stores its
  heights.
\<close>

definition node_has_chain :: "libs \<Rightarrow> wallet_node \<Rightarrow> dbs \<Rightarrow> block list \<Rightarrow> bool" where
  "node_has_chain L N D bs =
     (length bs < 2 ^ 32 \<and> (\<forall>i < length bs. let b = rev bs ! i; h = block_hash_of L b in
        wn_getblockhash N (word_of_nat i) = Some h \<and> wn_get_block N h = Some b
      \<and> db_height D h = Some (word_of_nat i)))"

text \<open>
  What BDK documents of \<open>apply_block\<close>: a block is connected if its parent is in the wallet's chain,
  and otherwise a lower block that is not in the chain is named. \<open>held bw\<close> are the heights of
  \<open>bs\<close> that the wallet \<open>bw\<close> has.
\<close>

definition bdk_follows :: "('w, 'c, 'u) bdk \<Rightarrow> block list \<Rightarrow> ('w \<Rightarrow> nat set) \<Rightarrow> bool" where
  "bdk_follows B bs held =
     (\<forall>bw. \<forall>i < length bs.
        case bk_apply_block B (rev bs ! i) (word_of_nat i) bw of
          Inr bw' \<Rightarrow> held bw' = insert i (held bw) \<and> bk_persist B bw'
        | Inl t \<Rightarrow> Suc (unat t) < i \<and> Suc (unat t) \<notin> held bw \<and> i - 1 \<notin> held bw)"

abbreviation with_wallet :: "('w, 'c, 'u) wallet_inner \<Rightarrow> 'w \<Rightarrow> ('w, 'c, 'u) wallet_inner" where
  "with_wallet w bw \<equiv> w\<lparr>wi_bitcoin_wallet := Some bw, wi_bdk_db := Some bw\<rparr>"

lemma unat_height: "i < 2 ^ 32 \<Longrightarrow> unat (word_of_nat i :: u32) = i"
  by (simp add: unat_of_nat take_bit_nat_eq_self)

lemma node_block:
  assumes "node_has_chain L N D bs" and "i < length bs"
  shows "fetch_at_height N (word_of_nat i) = Inr (rev bs ! i)"
    and "wn_get_block N (block_hash_of L (rev bs ! i)) = Some (rev bs ! i)"
    and "db_height D (block_hash_of L (rev bs ! i)) = Some (word_of_nat i)"
    and "i < 2 ^ 32"
  using assms by (auto simp: node_has_chain_def fetch_at_height_def Let_def)

lemma infos_of_one:
  assumes "node_run L D bs" and "i < length bs"
  shows "\<exists>x. get_block_infos L D (block_hash_of L (rev bs ! i)) 0 = Inr [x]"
proof -
  let ?j = "length bs - Suc i"
  have j: "?j < length bs" using assms(2) by simp
  have "drop ?j bs = bs ! ?j # drop (Suc ?j) bs" using j by (simp only: Cons_nth_drop_Suc)
  then show ?thesis
    using block_infos_stored [OF _ coinbases_ok_run [OF assms(1)] j, of 0] node_run_inv [OF assms(1)] assms(2)
    by (simp add: get_block_infos_def rev_nth tracks_def)
qed

lemma connect_top:
  assumes "bdk_follows B bs held" and "i < length bs" and "wi_bitcoin_wallet w = Some bw"
  obtains (ok) bw' where "handle_connect_block B (rev bs ! i) (word_of_nat i) w = (Inr (Inr ()), with_wallet w bw')"
      "held bw' = insert i (held bw)"
  | (lower) t where "handle_connect_block B (rev bs ! i) (word_of_nat i) w = (Inr (Inl t), w)"
      "Suc (unat t) < i" "Suc (unat t) \<notin> held bw" "i - 1 \<notin> held bw"
proof (cases "bk_apply_block B (rev bs ! i) (word_of_nat i) bw")
  case (Inl t)
  with assms have "Suc (unat t) < i \<and> Suc (unat t) \<notin> held bw \<and> i - 1 \<notin> held bw"
    by (auto simp: bdk_follows_def split: sum.splits)
  with Inl show ?thesis using lower assms(3) by (simp add: handle_connect_block_def)
next
  case (Inr bw')
  with assms have "held bw' = insert i (held bw) \<and> bk_persist B bw'"
    by (auto simp: bdk_follows_def split: sum.splits)
  with Inr show ?thesis using ok [of bw'] assms(3) by (simp add: handle_connect_block_def)
qed

lemma connect_missing_step:
  assumes "(case cached of Some blk \<Rightarrow> Inr blk | None \<Rightarrow> fetch_at_height N h) = Inr blk"
    and "get_block_infos L (wi_dbs w) (block_hash_of L blk) 0 = Inr [x]"
  shows "handle_connect_block B blk h w = (Inr (Inr ()), w') \<Longrightarrow>
      connect_missing_loop L B N ((h, cached) # rest) w = connect_missing_loop L B N rest w'"
    and "handle_connect_block B blk h w = (Inr (Inl t), w') \<Longrightarrow> t < h \<Longrightarrow>
      connect_missing_loop L B N ((h, cached) # rest) w
        = connect_missing_loop L B N ((h - 1, None) # (h, Some blk) # rest) w'"
  using assms by (subst connect_missing_loop.simps, simp)+

text \<open>What the stack loop does with its top, whatever is below.\<close>

lemma missing_top:
  assumes "node_run L (wi_dbs w) bs" and "node_has_chain L N (wi_dbs w) bs" and "bdk_follows B bs held"
    and "i < length bs" and "wi_bitcoin_wallet w = Some bw" and "cached = None \<or> cached = Some (rev bs ! i)"
  shows "\<exists>bw'. connect_missing_loop L B N ((word_of_nat i, cached) # rest) w
       = connect_missing_loop L B N rest (with_wallet w bw')
    \<and> insert i (held bw) \<subseteq> held bw'"
  using assms
proof (induction i arbitrary: w bw cached rest)
  case (0 w bw cached rest)
  obtain x where x: "get_block_infos L (wi_dbs w) (block_hash_of L (rev bs ! 0)) 0 = Inr [x]"
    using infos_of_one [OF 0(1,4)] by blast
  have blk: "(case cached of Some blk \<Rightarrow> Inr blk | None \<Rightarrow> fetch_at_height N (word_of_nat 0)) = Inr (rev bs ! 0)"
    using 0(6) node_block(1) [OF 0(2,4)] by auto
  from 0(3-5) obtain bw' where "handle_connect_block B (rev bs ! 0) (word_of_nat 0) w = (Inr (Inr ()), with_wallet w bw')"
      "held bw' = insert 0 (held bw)"
    by (cases rule: connect_top) auto
  then show ?case using connect_missing_step(1) [OF blk x] by blast
next
  case (Suc i w bw cached rest)
  let ?b = "rev bs ! Suc i" and ?h = "word_of_nat (Suc i) :: u32"
  obtain x where x: "get_block_infos L (wi_dbs w) (block_hash_of L ?b) 0 = Inr [x]"
    using infos_of_one [OF Suc.prems(1,4)] by blast
  have blk: "(case cached of Some blk \<Rightarrow> Inr blk | None \<Rightarrow> fetch_at_height N ?h) = Inr ?b"
    using Suc.prems(6) node_block(1) [OF Suc.prems(2,4)] by auto
  from Suc.prems(3-5) show ?case
  proof (cases rule: connect_top)
    case (ok bw')
    then show ?thesis using connect_missing_step(1) [OF blk x] by blast
  next
    case (lower t)
    have "t < ?h"
      using lower(2) unat_height [OF node_block(4) [OF Suc.prems(2,4)]] by (simp only: word_less_nat_alt)
    moreover have "?h - 1 = word_of_nat i" by simp
    ultimately have step: "connect_missing_loop L B N ((?h, cached) # rest) w
        = connect_missing_loop L B N ((word_of_nat i, None) # (?h, Some ?b) # rest) w"
      using connect_missing_step(2) [OF blk x lower(1)] by metis
    obtain bw1 where one: "connect_missing_loop L B N ((word_of_nat i, None) # (?h, Some ?b) # rest) w
          = connect_missing_loop L B N ((?h, Some ?b) # rest) (with_wallet w bw1)"
        and held1: "insert i (held bw) \<subseteq> held bw1"
      using Suc.IH [OF Suc.prems(1-3) _ Suc.prems(5), of None "(?h, Some ?b) # rest"] Suc.prems(4) by auto
    have "wi_bitcoin_wallet (with_wallet w bw1) = Some bw1" by simp
    with Suc.prems(3,4) obtain bw2 where two: "handle_connect_block B ?b ?h (with_wallet w bw1)
          = (Inr (Inr ()), with_wallet (with_wallet w bw1) bw2)"
        and held2: "held bw2 = insert (Suc i) (held bw1)"
      by (cases rule: connect_top) (use held1 in auto)
    have "connect_missing_loop L B N ((?h, Some ?b) # rest) (with_wallet w bw1)
        = connect_missing_loop L B N rest (with_wallet (with_wallet w bw1) bw2)"
      by (rule connect_missing_step(1) [OF _ _ two]) (use x in simp_all)
    then have "connect_missing_loop L B N ((?h, cached) # rest) w
        = connect_missing_loop L B N rest (with_wallet w bw2)"
      unfolding step one by simp
    then show ?thesis using held1 held2 by (intro exI [of _ bw2]) auto
  qed
qed

lemma connect_block_loop_ends:
  assumes "node_run L (wi_dbs w) bs" and "node_has_chain L N (wi_dbs w) bs" and "bdk_follows B bs held"
    and "i < length bs" and "wi_bitcoin_wallet w = Some bw"
  shows "\<exists>bw'. connect_block_loop L B N (rev bs ! i) (word_of_nat i) w = Some (Inr (), with_wallet w bw')
    \<and> insert i (held bw) \<subseteq> held bw'"
  using assms
proof (induction "card ({..<i} - held bw)" arbitrary: w bw rule: less_induct)
  case (less bw w)
  from less.prems(3-5) show ?case
  proof (cases rule: connect_top)
    case (ok bw')
    then show ?thesis by (subst connect_block_loop.simps) auto
  next
    case (lower t)
    let ?j = "Suc (unat t)"
    have j: "?j < length bs" using lower(2) less.prems(4) by simp
    have t: "t + 1 = word_of_nat ?j" by simp
    obtain bw1 where one: "connect_missing_block L B N (t + 1) w = Some (Inr (), with_wallet w bw1)"
        and held1: "insert ?j (held bw) \<subseteq> held bw1"
      using missing_top [OF less.prems(1-3) j less.prems(5), of None "[]"]
      by (auto simp: connect_missing_block_def t connect_missing_loop.simps [where try_includes = "[]"])
    have "{..<i} - held bw1 \<subset> {..<i} - held bw" using held1 lower(2,3) by auto
    then have smaller: "card ({..<i} - held bw1) < card ({..<i} - held bw)" by (simp add: psubset_card_mono)
    obtain bw' where "connect_block_loop L B N (rev bs ! i) (word_of_nat i) (with_wallet w bw1)
          = Some (Inr (), with_wallet (with_wallet w bw1) bw')"
        and "insert i (held bw1) \<subseteq> held bw'"
      using less.hyps [OF smaller, of "with_wallet w bw1"] less.prems by auto
    then show ?thesis
      using lower(1) one held1 by (subst connect_block_loop.simps) auto
  qed
qed

lemma process_blocks_step:
  assumes "(if hi_block_hash info = tip \<and> given \<noteq> None then Inr (the given)
      else ok_or (wn_get_block N (hi_block_hash info)) (GetBlockRpc (hi_block_hash info))) = Inr blk"
    and "connect_block_loop L B N blk (hi_height info) w = Some (Inr (), w')"
  shows "process_blocks L B N tip given m ((info, x) # rest) k w =
    (if Suc k = m then Some (Inr (), w') else process_blocks L B N tip given m rest (Suc k) w')"
  using assms by simp

lemma process_blocks_ends:
  fixes w :: "('w, 'c, 'u) wallet_inner"
  assumes "node_run L D bs" and "node_has_chain L N D bs" and "bdk_follows B bs held"
    and "given = None \<or> given = Some (hd bs)" and "bs \<noteq> []"
  defines "info i \<equiv> (block_header_info L D (rev bs ! i), block_coinbase_info L (rev bs ! i))"
  shows "wi_dbs w = D \<Longrightarrow> wi_bitcoin_wallet w = Some bw \<Longrightarrow> set hs \<subseteq> {..<length bs} \<Longrightarrow> k + length hs \<le> m \<Longrightarrow>
    \<exists>w' bw'. process_blocks L B N (block_hash_of L (hd bs)) given m (map info hs) k w = Some (Inr (), w')
    \<and> wi_producer w' = wi_producer w \<and> wi_bitcoin_wallet w' = Some bw' \<and> set hs \<union> held bw \<subseteq> held bw'
    \<and> (hs \<noteq> [] \<longrightarrow> wi_bdk_db w' = Some bw')"
proof (induction hs arbitrary: k w bw)
  case Nil
  then show ?case by auto
next
  case (Cons i hs k w bw)
  let ?b = "rev bs ! i"
  have i: "i < length bs" using Cons.prems(3) by simp
  have last: "hd bs = rev bs ! (length bs - 1)" "length bs - 1 < length bs"
    using assms(5) by (simp_all add: rev_nth hd_conv_nth)
  have get: "wn_get_block N (block_hash_of L ?b) = Some ?b" "wn_get_block N (block_hash_of L (hd bs)) = Some (hd bs)"
    unfolding last(1) by (rule node_block(2) [OF assms(2) i], rule node_block(2) [OF assms(2) last(2)])
  then have same: "hd bs = ?b" if "block_hash_of L ?b = block_hash_of L (hd bs)" using that by (metis option.inject)
  have hash: "hi_block_hash (fst (info i)) = block_hash_of L ?b" by (simp add: info_def block_header_info_def)
  have given: "(if hi_block_hash (fst (info i)) = block_hash_of L (hd bs) \<and> given \<noteq> None then Inr (the given)
      else ok_or (wn_get_block N (hi_block_hash (fst (info i)))) (GetBlockRpc (hi_block_hash (fst (info i))))) = Inr ?b"
  proof (cases "block_hash_of L ?b = block_hash_of L (hd bs) \<and> given \<noteq> None")
    case True
    then have "the given = ?b" using assms(4) same by fastforce
    then show ?thesis unfolding hash using True by simp
  next
    case False
    then show ?thesis unfolding hash get(1) if_not_P [OF False] by simp
  qed
  have height: "hi_height (fst (info i)) = word_of_nat i"
    using node_block(3) [OF assms(2) i] by (simp add: info_def block_header_info_def)
  obtain bw1 where one: "connect_block_loop L B N ?b (word_of_nat i) w = Some (Inr (), with_wallet w bw1)"
      and held1: "insert i (held bw) \<subseteq> held bw1"
    using connect_block_loop_ends [of L w bs N B held i bw] assms(1-3) i Cons.prems(1,2) by blast
  have step: "process_blocks L B N (block_hash_of L (hd bs)) given m (map info (i # hs)) k w =
      (if Suc k = m then Some (Inr (), with_wallet w bw1)
       else process_blocks L B N (block_hash_of L (hd bs)) given m (map info hs) (Suc k) (with_wallet w bw1))"
    using process_blocks_step [OF given one [folded height], of m "snd (info i)"] by simp
  have more: "\<exists>w' bw'. process_blocks L B N (block_hash_of L (hd bs)) given m (map info hs) (Suc k) (with_wallet w bw1) = Some (Inr (), w')
      \<and> wi_producer w' = wi_producer (with_wallet w bw1) \<and> wi_bitcoin_wallet w' = Some bw' \<and> set hs \<union> held bw1 \<subseteq> held bw'
      \<and> (hs \<noteq> [] \<longrightarrow> wi_bdk_db w' = Some bw')"
    by (rule Cons.IH) (use Cons.prems in simp_all)
  show ?case
  proof (cases "hs = []")
    case True
    then show ?thesis unfolding step using held1
      by (intro exI [of _ "with_wallet w bw1"] exI [of _ bw1]) simp
  next
    case False
    then have "Suc k \<noteq> m" using Cons.prems(4) by (cases hs) auto
    with more False held1 show ?thesis unfolding step by fastforce
  qed
qed

section \<open>The address search\<close>

lemma last_used_search_ok:
  "last_used_search has_txs low high = Inr n \<Longrightarrow> low \<le> high \<Longrightarrow> has_txs high = Some False \<Longrightarrow>
    low = 0 \<or> has_txs (low - 1) = Some True \<or> has_txs low = Some True \<Longrightarrow>
    has_txs n = Some False \<and> (n = 0 \<or> has_txs (n - 1) = Some True)"
proof (induction has_txs low high rule: last_used_search.induct)
  case (1 has_txs low high)
  let ?mid = "low + (high - low) div 2"
  show ?case
  proof (cases "low < high")
    case False
    then have "n = low" using 1(3) by (simp add: last_used_search.simps [of has_txs low high])
    moreover have "low = high" using 1(4) False by simp
    ultimately show ?thesis using 1(5,6) by auto
  next
    case True
    note m = u32_mid [OF True]
    then have mid: "low \<le> ?mid" "?mid + 1 \<le> high" by (simp_all add: word_le_nat_alt)
    show ?thesis
    proof (cases "has_txs ?mid")
      case None
      then show ?thesis using 1(3) True by (simp add: last_used_search.simps [of has_txs low high])
    next
      case (Some used)
      then show ?thesis
        using 1(1) [OF True refl Some] 1(2) [OF True refl Some] 1(3-6) True mid
        by (cases used) (simp_all add: last_used_search.simps [of has_txs low high])
    qed
  qed
qed

lemma upper_bound_ok:
  assumes "upper_bound_loop has_txs start = Some (Inr i)"
  shows "has_txs i = Some False \<and> (i = start \<or> has_txs (i - 1000) = Some True)"
proof -
  have "\<forall>i. x = Inr i \<longrightarrow> has_txs i = Some False \<and> (i = start \<or> has_txs (i - 1000) = Some True)"
    if "upper_bound_loop has_txs start = Some x" for x
  proof (rule upper_bound_loop.raw_induct [OF _ that,
        of "\<lambda>f s x. \<forall>i. x = Inr i \<longrightarrow> f i = Some False \<and> (i = s \<or> f (i - 1000) = Some True)"])
    fix loop :: "(u32 \<Rightarrow> bool option) \<Rightarrow> u32 \<Rightarrow> (full_scan_error + u32) option" and f s x
    assume IH: "\<And>f s x. loop f s = Some x \<Longrightarrow>
        \<forall>i. x = Inr i \<longrightarrow> f i = Some False \<and> (i = s \<or> f (i - 1000) = Some True)"
      and eq: "(case f s of None \<Rightarrow> Some (Inl CheckAddressTransactions)
        | Some used \<Rightarrow> if \<not> used then Some (Inr s) else loop f (s + 1000)) = Some x"
    show "\<forall>i. x = Inr i \<longrightarrow> f i = Some False \<and> (i = s \<or> f (i - 1000) = Some True)"
      using eq IH [of f "s + 1000" x] by (fastforce split: option.splits if_splits)
  qed
  then show ?thesis using assms by blast
qed

text \<open>
  The scan of a keychain returns an index without transactions whose predecessor, if any, has
  some; for addresses that are used without gaps this is the number of used addresses.
\<close>

lemma scan_keychain_ok:
  assumes "scan_keychain has_txs = Some (Inr n)"
  shows "has_txs n = Some False \<and> (n = 0 \<or> has_txs (n - 1) = Some True)"
proof -
  obtain i where i: "upper_bound_loop has_txs 0 = Some (Inr i)"
      and search: "last_used_search has_txs (saturating_sub_u32 i 1000) i = Inr n"
    using assms by (auto simp: scan_keychain_def bind_eq_Some_conv bindE_eq_Inr)
  note ub = upper_bound_ok [OF i]
  show ?thesis
  proof (rule last_used_search_ok [OF search])
    show "saturating_sub_u32 i 1000 \<le> i" by (auto simp: saturating_sub_u32_def word_sub_le not_less)
    show "has_txs i = Some False" using ub by simp
    show "saturating_sub_u32 i 1000 = 0 \<or> has_txs (saturating_sub_u32 i 1000 - 1) = Some True
        \<or> has_txs (saturating_sub_u32 i 1000) = Some True"
      using ub by (auto simp: saturating_sub_u32_def)
  qed
qed

section \<open>Properties\<close>

text \<open>
  The wallet mode runs the same enforcer: connecting a block through the wallet leaves the
  validator, the events and the queue of pending spends exactly as the block producer alone
  would, whatever the wallet behind it does; a rejected block or a fatal error does not touch the
  wallet, and an accepted one is reported as accepted unless the wallet itself fails.
\<close>
theorem wallet_connect_follows_producer:
  assumes "wallet_connect_block L S B N blk w = Some (r, w')"
    and "producer_connect_block L S blk (wi_producer w) = (rp, p')"
  shows "wi_producer w' = p' \<and>
    (case rp of
       Inl e \<Rightarrow> r = Inl (WalletValidator e) \<and> w' = w\<lparr>wi_producer := p'\<rparr>
     | Inr RejectBlock \<Rightarrow> r = Inr RejectBlock \<and> w' = w\<lparr>wi_producer := p'\<rparr>
     | Inr (AcceptBlock txids) \<Rightarrow> r = Inr (AcceptBlock txids) \<or> (\<exists>e. r = Inl (WalletSync e)))"
proof -
  obtain re V where e: "enforcer_connect_block L S blk (bp_validator (wi_producer w)) = (re, V)" by fastforce
  show ?thesis
  proof (cases re)
    case (Inl err)
    then show ?thesis using assms e by (auto simp: wallet_connect_block_def producer_connect_block_def)
  next
    case (Inr act)
    show ?thesis
    proof (cases act)
      case (AcceptBlock txids)
      then show ?thesis using assms e Inr
        by (auto simp: wallet_connect_block_def producer_connect_block_def Let_def bind_run_Some map_run_error_Some
            mapErr_eq_Inl dest!: sync_wallet_producer split: option.splits)
    next
      case RejectBlock
      then show ?thesis using assms e Inr by (auto simp: wallet_connect_block_def producer_connect_block_def)
    qed
  qed
qed


subsection \<open>A wallet that is behind\<close>

text \<open>A wallet that is the set of the heights it has, and asks for the block below the missing parent.\<close>

definition demo_bdk :: "(nat set, unit, unit) bdk" where
  "demo_bdk = \<lparr>bk_tip = (\<lambda>_. (0, all_zeros)),
     bk_apply_block = (\<lambda>blk h bw. if unat h \<le> 1 \<or> unat h - 1 \<in> bw then Inr (insert (unat h) bw) else Inl (h - 2)),
     bk_extend_tip = (\<lambda>_ _. Some ()), bk_chain_update = (\<lambda>_. ()), bk_apply_update = (\<lambda>_ bw. Some bw),
     bk_persist = (\<lambda>_. True), bk_keychains = (\<lambda>_. []), bk_reveal_to = (\<lambda>_ _ bw. bw),
     bk_evict = (\<lambda>_ _ bw. bw), bk_unconfirmed = (\<lambda>_ _ bw. bw)\<rparr>"

lemma demo_bdk_follows: "length bs < 2 ^ 32 \<Longrightarrow> bdk_follows demo_bdk bs id"
proof -
  assume len: "length bs < 2 ^ 32"
  have "Suc (unat (word_of_nat i - 2 :: u32)) = i - 1" if "i < 2 ^ 32" "\<not> i \<le> 1" for i :: nat
  proof -
    have "(2 :: u32) \<le> word_of_nat i" using that unat_height [of i] by (simp add: word_le_nat_alt)
    then show ?thesis using that unat_height [of i] by (simp add: unat_sub)
  qed
  then show ?thesis
    using len by (auto simp: bdk_follows_def demo_bdk_def unat_height)
qed

definition demo_node :: wallet_node where
  "demo_node = \<lparr>wn_getblockhash = (\<lambda>_. Some (2 # replicate 31 0)), wn_get_block = (\<lambda>_. Some genesis),
     wn_height_entries = (\<lambda>_. []), wn_now = 1700000000\<rparr>"

definition demo_inner :: "dbs \<Rightarrow> (nat set, unit, unit) wallet_inner" where
  "demo_inner D = \<lparr>wi_producer = demo_producer\<lparr>bp_validator := demo_validator\<lparr>vd_dbs := D\<rparr>\<rparr>,
     wi_bitcoin_wallet = Some {}, wi_bdk_db = None, wi_birthday_height = None, wi_chain_source = None,
     wi_last_sync = None\<rparr>"


theorem wallet_connect_follows_producer_witness:
  "\<exists>w'. wallet_connect_block sample_libs (demo_service []) demo_bdk demo_node second_block (demo_inner dbs_new)
      = Some (Inr RejectBlock, w')
    \<and> bp_pending (wi_producer w') = bp_pending demo_producer \<and> wi_bitcoin_wallet w' = Some {}"
proof -
  have prev: "hdr_prev_blockhash (blk_header second_block) \<noteq> all_zeros"
    using demo_not_zeros [of 2] by (simp add: second_block_def sample_header_def)
  have V: "bp_validator (wi_producer (demo_inner dbs_new)) = demo_validator"
    by (simp add: demo_inner_def demo_validator_def)
  have call: "enforcer_connect_block sample_libs (demo_service []) second_block demo_validator
      = (Inr RejectBlock, demo_validator)"
    using prev
    by (simp add: enforcer_connect_block_def connect_block_commit_def connect_block_no_commit_def
        store_header_def demo_validator_sel contains_header_def dbs_new_def Let_def)
  obtain w' where w': "wallet_connect_block sample_libs (demo_service []) demo_bdk demo_node second_block (demo_inner dbs_new)
      = Some (Inr RejectBlock, w')"
    by (simp add: wallet_connect_block_def V call)
  obtain p' where p': "producer_connect_block sample_libs (demo_service []) second_block (wi_producer (demo_inner dbs_new))
      = (Inr RejectBlock, p')" "bp_pending p' = bp_pending (wi_producer (demo_inner dbs_new))"
    by (simp add: producer_connect_block_def V call)
  from wallet_connect_follows_producer [OF w' p'(1)] w' p'(2)
  show ?thesis by (auto simp: demo_inner_def)
qed

end
