(* ===== verification/Node_Connection.thy ===== *)
theory Node_Connection
  imports Text
begin

text \<open>
  The connection to Bitcoin Core: the version check (\<open>lib/version.rs\<close>), the JSON-RPC client's
  credentials and the broadcast with tolerated rejections (\<open>lib/rpc_client.rs\<close>), the broadcast over
  the peer-to-peer network (\<open>lib/p2p.rs\<close>), and the loops of \<open>app/main.rs\<close> that wait for the node.
\<close>

section \<open>Supported versions\<close>

definition SUPPORTED_BITCOIN_CORE_MAJORS :: "u32 list" where
  "SUPPORTED_BITCOIN_CORE_MAJORS = [31, 30, 29]"

definition major_from_version_int :: "u64 \<Rightarrow> u32" where
  "major_from_version_int version = ucast (version div 10000)"

record network_info_version =
  ni_version :: u64
  ni_subversion :: string

record detected_version =
  dv_version :: u64
  dv_subversion :: string
  dv_major :: u32

datatype version_check_error = VersionRpc string | UnsupportedVersion u64 string string

definition format_unsupported_help :: "u32 list \<Rightarrow> bool \<Rightarrow> string" where
  "format_unsupported_help allowed_majors explicit_expected =
     (let majors_list = join '', '' (map (\<lambda>m. show_nat (unat m)) allowed_majors) in
      if explicit_expected then
        ''you asserted Bitcoin Core major version '' @ majors_list
        @ '' via `--bitcoin-core-expected-version`, but the connected node reports a different version. ''
        @ ''Either update the flag to match, or remove it to use the built-in supported set. ''
        @ ''To bypass the check entirely, pass `--bitcoin-core-skip-version-check`.''
      else
        ''the enforcer supports Bitcoin Core major versions: '' @ majors_list
        @ ''. To run against a different version anyway, pass ''
        @ ''`--bitcoin-core-expected-version <MAJOR>` to assert a specific major, ''
        @ ''or `--bitcoin-core-skip-version-check` to skip the check entirely.'')"

definition check_bitcoin_core_version ::
  "string + network_info_version \<Rightarrow> u32 option \<Rightarrow> bool \<Rightarrow> version_check_error + detected_version" where
  "check_bitcoin_core_version getnetworkinfo expected_major skip_check =
     bindE (mapErr VersionRpc getnetworkinfo) (\<lambda>info.
       let detected = \<lparr>dv_version = ni_version info, dv_subversion = ni_subversion info,
             dv_major = major_from_version_int (ni_version info)\<rparr> in
       if skip_check then Inr detected
       else
         let allowed_majors = (case expected_major of Some m \<Rightarrow> [m] | None \<Rightarrow> SUPPORTED_BITCOIN_CORE_MAJORS) in
         if dv_major detected \<in> set allowed_majors then Inr detected
         else Inl (UnsupportedVersion (dv_version detected) (dv_subversion detected)
           (format_unsupported_help allowed_majors (expected_major \<noteq> None))))"

section \<open>Credentials\<close>

record node_rpc_config =
  nr_addr :: string
  nr_user :: "string option"
  nr_pass :: "string option"
  nr_cookie_path :: "string option"

datatype rpc_client_error =
  UserAndPasswordMustBeSetTogether | UserOrCookieMustBeSet | ReadCookie string
| GetRpcUser | GetRpcPassword | CreateClient

text \<open>\<open>read\<close> reads the cookie file; \<open>build\<close> is the constructor of the HTTP client.\<close>

definition cookie_credentials :: "string \<Rightarrow> rpc_client_error + string \<times> string" where
  "cookie_credentials auth =
     (case split_on (CHR '':'') auth of
        [] \<Rightarrow> Inl GetRpcUser
      | [user] \<Rightarrow> Inl GetRpcPassword
      | user # pass # _ \<Rightarrow> Inr (user, pass))"

definition create_client ::
  "(string \<Rightarrow> string option) \<Rightarrow> (string \<Rightarrow> string \<Rightarrow> string \<Rightarrow> 'c option) \<Rightarrow> node_rpc_config
    \<Rightarrow> rpc_client_error + 'c" where
  "create_client read build conf =
     bindE (guardE (\<not> (nr_user conf = None) \<noteq> (nr_pass conf = None)) UserAndPasswordMustBeSetTogether) (\<lambda>_.
     bindE (guardE (\<not> (nr_user conf = None) = (nr_cookie_path conf = None)) UserOrCookieMustBeSet) (\<lambda>_.
     bindE (case nr_cookie_path conf of
         Some cookie_path \<Rightarrow> bindE (ok_or (read cookie_path) (ReadCookie cookie_path)) cookie_credentials
       | None \<Rightarrow> Inr (case nr_user conf of Some u \<Rightarrow> u | None \<Rightarrow> [],
                      case nr_pass conf of Some p \<Rightarrow> p | None \<Rightarrow> [])) (\<lambda>(conf_user, conf_pass).
     ok_or (build (nr_addr conf) conf_pass conf_user) CreateClient)))"

section \<open>Broadcasting through the node\<close>

text \<open>A failed call of the RPC client: an error object of the node, or a failure on the way.\<close>

datatype client_error = CallError int string | TransportRejected nat | ClientOther string

definition MAX_BURN_AMOUNT :: nat where "MAX_BURN_AMOUNT = 21000000"

text \<open>\<open>send_raw\<close> is \<open>sendrawtransaction\<close> with its burn limit.\<close>

definition broadcast_transaction_with_tolerance ::
  "(string \<Rightarrow> nat \<Rightarrow> client_error + bytes) \<Rightarrow> string \<Rightarrow> (int \<Rightarrow> string \<Rightarrow> bool) \<Rightarrow> client_error + bytes option" where
  "broadcast_transaction_with_tolerance send_raw encoded_tx tolerate_rejection =
     (case send_raw encoded_tx MAX_BURN_AMOUNT of
        Inr txid \<Rightarrow> Inr (Some txid)
      | Inl (CallError code message) \<Rightarrow>
          if tolerate_rejection code message then Inr None else Inl (CallError code message)
      | Inl err \<Rightarrow> Inl err)"

definition NONSTANDARD_NOPX_ERR_MSG :: string where
  "NONSTANDARD_NOPX_ERR_MSG = ''non-mandatory-script-verify-flag (NOPx reserved for soft-fork upgrades)''"

definition NONSTANDARD_NOPX_ERR_MSG_V30_0 :: string where
  "NONSTANDARD_NOPX_ERR_MSG_V30_0 = ''mempool-script-verify-flag-failed (NOPx reserved for soft-fork upgrades)''"

definition broadcast_transaction ::
  "(string \<Rightarrow> nat \<Rightarrow> client_error + bytes) \<Rightarrow> string \<Rightarrow> client_error + bytes option" where
  "broadcast_transaction send_raw encoded_tx =
     broadcast_transaction_with_tolerance send_raw encoded_tx (\<lambda>_ msg.
       contains_str msg NONSTANDARD_NOPX_ERR_MSG \<or> contains_str msg NONSTANDARD_NOPX_ERR_MSG_V30_0)"

definition BITCOIN_CORE_RPC_TRANSACTION_REJECTED :: int where
  "BITCOIN_CORE_RPC_TRANSACTION_REJECTED = - 26"

definition broadcast_transaction_tolerate_mempool_rejection ::
  "(string \<Rightarrow> nat \<Rightarrow> client_error + bytes) \<Rightarrow> string \<Rightarrow> client_error + bytes option" where
  "broadcast_transaction_tolerate_mempool_rejection send_raw encoded_tx =
     broadcast_transaction_with_tolerance send_raw encoded_tx (\<lambda>code _.
       code = BITCOIN_CORE_RPC_TRANSACTION_REJECTED)"

section \<open>Broadcasting to a peer\<close>

definition SIGNET_MAGIC_BYTES :: bytes where "SIGNET_MAGIC_BYTES = [0xe4, 0x09, 0xe9, 0x68]"

text \<open>An IPv4 socket address: its four bytes and the port.\<close>

definition SIGNET_MINER_P2P_ADDR :: "u8 list \<times> u16" where
  "SIGNET_MINER_P2P_ADDR = ([172, 105, 148, 135], 38333)"

definition default_p2p_broadcast_addr :: "network \<Rightarrow> bytes \<Rightarrow> (u8 list \<times> u16) option" where
  "default_p2p_broadcast_addr net magic_bytes =
     (if net = Signet \<and> magic_bytes = SIGNET_MAGIC_BYTES then Some SIGNET_MINER_P2P_ADDR else None)"

text \<open>\<open>'s\<close> are socket addresses, with their parser and their text as arguments.\<close>

datatype 's broadcast_addr = BroadcastSock 's | BroadcastHost string u16

datatype parse_broadcast_addr_error = MissingPort string | InvalidHost string | InvalidPort string

definition parse_broadcast_addr ::
  "(string \<Rightarrow> 's option) \<Rightarrow> string \<Rightarrow> parse_broadcast_addr_error + 's broadcast_addr" where
  "parse_broadcast_addr parse_sock s =
     (case parse_sock s of
        Some sock \<Rightarrow> Inr (BroadcastSock sock)
      | None \<Rightarrow>
          bindE (ok_or (rsplit_once (CHR '':'') s) (MissingPort s)) (\<lambda>(host, port).
          bindE (guardE (\<not> (host = [] \<or> list_ex (\<lambda>c. c \<in> {CHR '':'', CHR ''['', CHR '']''}) host)) (InvalidHost s)) (\<lambda>_.
          bindE (ok_or (parse_u16 port) (InvalidPort s)) (\<lambda>port.
          Inr (BroadcastHost host port)))))"

definition display_broadcast_addr :: "('s \<Rightarrow> string) \<Rightarrow> 's broadcast_addr \<Rightarrow> string" where
  "display_broadcast_addr show_sock a =
     (case a of
        BroadcastSock sock \<Rightarrow> show_sock sock
      | BroadcastHost host port \<Rightarrow> host @ '':'' @ show_nat (unat port))"

text \<open>\<open>lookup\<close> is the DNS query.\<close>

definition resolve :: "(string \<Rightarrow> u16 \<Rightarrow> 's list option) \<Rightarrow> 's broadcast_addr \<Rightarrow> 's list option" where
  "resolve lookup a =
     (case a of BroadcastSock sock \<Rightarrow> Some [sock] | BroadcastHost host port \<Rightarrow> lookup host port)"

datatype 'e send_p2p_error = SendTimeout | SendRefused 'e

datatype ('s, 'e) broadcast_error =
  ResolveFailed "'s broadcast_addr" | ResolvedEmpty "'s broadcast_addr" | SendError 'e | NoSendPanic

text \<open>The loop over the addresses with its last error; the \<open>expect\<close> on it is the panic.\<close>

fun broadcast_loop :: "('s \<Rightarrow> 'e send_p2p_error + unit) \<Rightarrow> 's list \<Rightarrow> 'e option \<Rightarrow> ('s, 'e) broadcast_error + bool" where
  "broadcast_loop send [] last_err = (case last_err of Some e \<Rightarrow> Inl (SendError e) | None \<Rightarrow> Inl NoSendPanic)"
| "broadcast_loop send (socket_addr # rest) last_err =
     (case send socket_addr of
        Inr _ \<Rightarrow> Inr True
      | Inl SendTimeout \<Rightarrow> Inr False
      | Inl (SendRefused err) \<Rightarrow> broadcast_loop send rest (Some err))"

definition broadcast_nonstandard_tx ::
  "(string \<Rightarrow> u16 \<Rightarrow> 's list option) \<Rightarrow> ('s \<Rightarrow> 'e send_p2p_error + unit) \<Rightarrow> 's broadcast_addr
    \<Rightarrow> ('s, 'e) broadcast_error + bool" where
  "broadcast_nonstandard_tx lookup send p2p_address =
     bindE (ok_or (resolve lookup p2p_address) (ResolveFailed p2p_address)) (\<lambda>socket_addrs.
     bindE (guardE (socket_addrs \<noteq> []) (ResolvedEmpty p2p_address)) (\<lambda>_.
     broadcast_loop send socket_addrs None))"

text \<open>The first four bytes of the hash; \<open>encode_varint\<close> is the library's CompactSize encoder.\<close>

definition compute_signet_magic :: "libs \<Rightarrow> (u64 \<Rightarrow> bytes) \<Rightarrow> bytes \<Rightarrow> bytes" where
  "compute_signet_magic L encode_varint signet_challenge =
     take 4 (sha256d_hash L (encode_varint (of_nat (length signet_challenge)) @ signet_challenge))"

section \<open>Waiting for the node\<close>

definition MAX_RETRIES :: nat where "MAX_RETRIES = 5"

text \<open>
  The loop on the REST service: \<open>answers n\<close> is the \<open>n\<close>-th answer of \<open>get_chain_info\<close>, with the HTTP
  status of a failed one where there is one. A service that warms up says 503.
\<close>

datatype rest_answer = RestOk | RestNotEnabled | RestHttpStatus nat | RestFailed

datatype rest_wait_error = WaitRestNotEnabled | StillUnavailable | RestUnchecked

function wait_for_rest :: "(nat \<Rightarrow> rest_answer) \<Rightarrow> nat \<Rightarrow> rest_wait_error + unit" where
  "wait_for_rest answers retries =
     (case answers retries of
        RestOk \<Rightarrow> Inr ()
      | RestNotEnabled \<Rightarrow> Inl WaitRestNotEnabled
      | RestHttpStatus status \<Rightarrow>
          if status = 503 then
            if retries \<ge> MAX_RETRIES then Inl StillUnavailable else wait_for_rest answers (retries + 1)
          else Inl RestUnchecked
      | RestFailed \<Rightarrow> Inl RestUnchecked)"
  by pat_completeness auto
termination by (relation "measure (\<lambda>(_, retries). MAX_RETRIES - retries)") (auto simp: MAX_RETRIES_def)

declare wait_for_rest.simps [simp del]

text \<open>The loop on the JSON-RPC service; it may wait for ever, which is \<open>None\<close>.\<close>

datatype node_wait_error = Unauthorized | NodeNotReady client_error

definition RPC_IN_WARMUP :: int where "RPC_IN_WARMUP = - 28"

definition is_warmup :: "client_error \<Rightarrow> bool" where
  "is_warmup err = (case err of CallError code _ \<Rightarrow> code = RPC_IN_WARMUP | _ \<Rightarrow> False)"

partial_function (option) wait_for_rpc :: "(nat \<Rightarrow> client_error + 'i) \<Rightarrow> nat \<Rightarrow> (node_wait_error + 'i) option" where
  "wait_for_rpc answers n =
     (case answers n of
        Inr info \<Rightarrow> Some (Inr info)
      | Inl err \<Rightarrow>
          if is_warmup err then wait_for_rpc answers (n + 1)
          else Some (Inl (if err = TransportRejected 401 then Unauthorized else NodeNotReady err)))"

section \<open>What the checks decide\<close>

text \<open>
  A version is accepted when the check is skipped, when its major is the expected one, or, with
  none expected, when its major is supported.
\<close>

lemma check_version_iff:
  "is_ok (check_bitcoin_core_version (Inr info) expected skip) \<longleftrightarrow>
     skip \<or> (case expected of Some m \<Rightarrow> major_from_version_int (ni_version info) = m
             | None \<Rightarrow> major_from_version_int (ni_version info) \<in> {31, 30, 29})"
  by (auto simp: check_bitcoin_core_version_def Let_def SUPPORTED_BITCOIN_CORE_MAJORS_def split: option.splits)

lemma major_of_release:
  assumes "unat minor < 100" and "unat revision < 100" and "unat major < 2 ^ 32"
  shows "unat (major_from_version_int (10000 * major + 100 * minor + revision)) = unat major"
proof -
  let ?v = "10000 * unat major + 100 * unat minor + unat revision"
  have "unat (10000 * major + 100 * minor + revision) = ?v"
    using assms by (simp add: unat_word_ariths)
  then have "unat ((10000 * major + 100 * minor + revision) div 10000) = ?v div 10000"
    by (simp add: unat_div)
  also have "\<dots> = unat major" using assms by simp
  finally show ?thesis using assms(3) by (simp add: major_from_version_int_def unsigned_ucast_eq take_bit_nat_eq_self)
qed

text \<open>A client is built exactly from a user with a password, or from a cookie file of two parts.\<close>

lemma cookie_credentials_ok:
  "cookie_credentials auth = Inr (user, pass) \<longleftrightarrow> (\<exists>rest. split_on (CHR '':'') auth = user # pass # rest)"
  by (auto simp: cookie_credentials_def split: list.splits)

lemma create_client_iff:
  "create_client read build conf = Inr c \<longleftrightarrow>
     (\<exists>user pass. build (nr_addr conf) pass user = Some c
        \<and> (nr_user conf = Some user \<and> nr_pass conf = Some pass \<and> nr_cookie_path conf = None
           \<or> nr_user conf = None \<and> nr_pass conf = None
             \<and> (\<exists>path auth rest. nr_cookie_path conf = Some path \<and> read path = Some auth
                  \<and> split_on (CHR '':'') auth = user # pass # rest)))"
  by (cases "nr_user conf"; cases "nr_pass conf"; cases "nr_cookie_path conf")
    (auto simp: create_client_def cookie_credentials_ok)

lemma rpc_user_is_always_read: "cookie_credentials auth \<noteq> Inl GetRpcUser"
  by (auto simp: cookie_credentials_def split: list.splits)

text \<open>A host that is not a socket address and has no colon or bracket reads back as it was shown.\<close>

theorem broadcast_host_roundtrip:
  assumes "host \<noteq> []" and "list_all (\<lambda>c. c \<notin> {CHR '':'', CHR ''['', CHR '']''}) host"
    and "parse_sock (display_broadcast_addr show_sock (BroadcastHost host port)) = None"
  shows "parse_broadcast_addr parse_sock (display_broadcast_addr show_sock (BroadcastHost host port))
    = Inr (BroadcastHost host port)"
proof -
  have "CHR '':'' \<notin> set (show_nat (unat port))"
    using show_nat_digits [of "unat port"] by (auto simp: list_all_iff is_digit_def)
  then have "rsplit_once (CHR '':'') (host @ '':'' @ show_nat (unat port)) = Some (host, show_nat (unat port))"
    using rsplit_once_last by simp
  then show ?thesis
    using assms by (simp add: parse_broadcast_addr_def display_broadcast_addr_def parse_u16_show list_all_iff list_ex_iff)
qed

theorem parsed_broadcast_host:
  assumes "parse_broadcast_addr parse_sock s = Inr (BroadcastHost host port)"
  shows "host \<noteq> [] \<and> CHR '':'' \<notin> set host \<and> (\<exists>digits. s = host @ '':'' @ digits \<and> parse_u16 digits = Some port)"
  using assms rsplit_once_Some
  by (fastforce simp: parse_broadcast_addr_def list_ex_iff split: option.splits)

text \<open>
  The broadcast is done at the first address that takes the transaction, gives up at the first
  one that times out, and goes on past the others.
\<close>

lemma broadcast_loop_iff:
  "broadcast_loop send addrs e = Inr b \<longleftrightarrow>
     (\<exists>pre a post. addrs = pre @ a # post \<and> (\<forall>p\<in>set pre. \<exists>err. send p = Inl (SendRefused err))
        \<and> send a = (if b then Inr () else Inl SendTimeout))"
proof (induction addrs arbitrary: e)
  case Nil
  then show ?case by (simp split: option.splits)
next
  case (Cons x xs)
  show ?case
  proof (cases "\<exists>err. send x = Inl (SendRefused err)")
    case True
    then obtain err where err: "send x = Inl (SendRefused err)" by blast
    show ?thesis
    proof
      assume "broadcast_loop send (x # xs) e = Inr b"
      then obtain pre a post where "xs = pre @ a # post" "\<forall>p\<in>set pre. \<exists>err. send p = Inl (SendRefused err)"
        "send a = (if b then Inr () else Inl SendTimeout)"
        using Cons.IH err by auto
      then have "x # xs = (x # pre) @ a # post \<and> (\<forall>p\<in>set (x # pre). \<exists>err. send p = Inl (SendRefused err))
        \<and> send a = (if b then Inr () else Inl SendTimeout)" using err by simp
      then show "\<exists>pre a post. x # xs = pre @ a # post \<and> (\<forall>p\<in>set pre. \<exists>err. send p = Inl (SendRefused err))
        \<and> send a = (if b then Inr () else Inl SendTimeout)" by blast
    next
      assume "\<exists>pre a post. x # xs = pre @ a # post \<and> (\<forall>p\<in>set pre. \<exists>err. send p = Inl (SendRefused err))
        \<and> send a = (if b then Inr () else Inl SendTimeout)"
      then obtain pre a post where *: "x # xs = pre @ a # post" "\<forall>p\<in>set pre. \<exists>err. send p = Inl (SendRefused err)"
        "send a = (if b then Inr () else Inl SendTimeout)" by blast
      then obtain pre' where "pre = x # pre'" using err by (cases pre) (auto split: if_splits)
      then have "xs = pre' @ a # post" "\<forall>p\<in>set pre'. \<exists>err. send p = Inl (SendRefused err)" using * by auto
      then have "broadcast_loop send xs (Some err) = Inr b" using *(3) Cons.IH [of "Some err"] by blast
      then show "broadcast_loop send (x # xs) e = Inr b" using err by simp
    qed
  next
    case False
    then have "send x = Inr () \<or> send x = Inl SendTimeout"
      by (metis old.unit.exhaust send_p2p_error.exhaust sum.exhaust)
    moreover have "pre = []" if "x # xs = pre @ a # post" "\<forall>p\<in>set pre. \<exists>err. send p = Inl (SendRefused err)" for pre a post
      using that False by (cases pre) auto
    ultimately show ?thesis by (fastforce split: if_splits)
  qed
qed

lemma broadcast_loop_no_panic: "addrs \<noteq> [] \<or> e \<noteq> None \<Longrightarrow> broadcast_loop send addrs e \<noteq> Inl NoSendPanic"
  by (induction addrs arbitrary: e) (auto split: sum.splits send_p2p_error.splits)

lemma broadcast_no_panic: "broadcast_nonstandard_tx lookup send a \<noteq> Inl NoSendPanic"
proof (cases "resolve lookup a")
  case (Some addrs)
  then show ?thesis
    using broadcast_loop_no_panic [of addrs None send]
    by (auto simp: broadcast_nonstandard_tx_def bindE_eq_Inl guardE_eq_Inl)
qed (simp add: broadcast_nonstandard_tx_def)

section \<open>The waits end\<close>

lemma wait_for_rest_from:
  "retries \<le> MAX_RETRIES \<Longrightarrow> wait_for_rest answers retries = Inr () \<longleftrightarrow>
     (\<exists>k. retries \<le> k \<and> k \<le> MAX_RETRIES \<and> answers k = RestOk \<and> (\<forall>i. retries \<le> i \<and> i < k \<longrightarrow> answers i = RestHttpStatus 503))"
proof (induction answers retries rule: wait_for_rest.induct)
  case (1 answers n)
  show ?case
  proof (cases "answers n = RestHttpStatus 503 \<and> n < MAX_RETRIES")
    case True
    then have "wait_for_rest answers n = wait_for_rest answers (Suc n)" by (subst wait_for_rest.simps) simp
    moreover have "(\<exists>k. n \<le> k \<and> k \<le> MAX_RETRIES \<and> answers k = RestOk \<and> (\<forall>i. n \<le> i \<and> i < k \<longrightarrow> answers i = RestHttpStatus 503))
      \<longleftrightarrow> (\<exists>k. Suc n \<le> k \<and> k \<le> MAX_RETRIES \<and> answers k = RestOk \<and> (\<forall>i. Suc n \<le> i \<and> i < k \<longrightarrow> answers i = RestHttpStatus 503))"
      using True by (metis Suc_leD Suc_le_eq le_less nat_less_le rest_answer.distinct(3))
    ultimately show ?thesis using 1 True by simp
  next
    case False
    then have "wait_for_rest answers n = Inr () \<longleftrightarrow> answers n = RestOk"
      by (subst wait_for_rest.simps) (auto split: rest_answer.splits)
    moreover have "k = n" if "n \<le> k" "k \<le> MAX_RETRIES" "\<forall>i. n \<le> i \<and> i < k \<longrightarrow> answers i = RestHttpStatus 503" for k
      using that False 1 by (metis le_neq_implies_less less_le_trans order_refl)
    ultimately show ?thesis using 1 by (metis less_le_not_le order_refl)
  qed
qed

lemma wait_for_rpc_skips:
  "(\<And>i. n \<le> i \<Longrightarrow> i < n + k \<Longrightarrow> \<exists>err. answers i = Inl err \<and> is_warmup err)
    \<Longrightarrow> wait_for_rpc answers n = wait_for_rpc answers (n + k)"
proof (induction k)
  case (Suc k)
  obtain err where "answers (n + k) = Inl err" "is_warmup err" using Suc.prems [of "n + k"] by auto
  then have "wait_for_rpc answers (n + k) = wait_for_rpc answers (n + Suc k)"
    by (subst wait_for_rpc.simps) simp
  then show ?case using Suc by simp
qed simp

lemma wait_for_rpc_ends:
  assumes "wait_for_rpc answers n = Some r"
  shows "\<exists>k\<ge>n. \<not> (\<exists>err. answers k = Inl err \<and> is_warmup err)"
proof (rule wait_for_rpc.raw_induct [OF _ assms, of "\<lambda>a m _. \<exists>k\<ge>m. \<not> (\<exists>err. a k = Inl err \<and> is_warmup err)"])
  fix loop a and m :: nat and r :: "node_wait_error + 'b"
  assume IH: "\<And>a m r. loop a m = Some r \<Longrightarrow> \<exists>k\<ge>m. \<not> (\<exists>err. a k = Inl err \<and> is_warmup err)"
    and eq: "(case a m of Inr info \<Rightarrow> Some (Inr info)
      | Inl err \<Rightarrow> if is_warmup err then loop a (m + 1)
          else Some (Inl (if err = TransportRejected 401 then Unauthorized else NodeNotReady err))) = Some r"
  show "\<exists>k\<ge>m. \<not> (\<exists>err. a k = Inl err \<and> is_warmup err)"
  proof (cases "\<exists>err. a m = Inl err \<and> is_warmup err")
    case True
    then have "loop a (m + 1) = Some r" using eq by auto
    from IH [OF this] obtain k where "m + 1 \<le> k" "\<not> (\<exists>err. a k = Inl err \<and> is_warmup err)" by blast
    then show ?thesis by (intro exI [of _ k]) simp
  qed blast
qed

text \<open>
  Waiting for the node ends. The wait for the REST service takes at most six requests and succeeds
  exactly when one of them does after answers of 503 only; the wait for the RPC service ends
  exactly when some answer is not a warm-up error, and then with the first such answer.
\<close>
theorem waiting_for_node:
  "(wait_for_rest rest_answers 0 = Inr () \<longleftrightarrow>
      (\<exists>k\<le>5. rest_answers k = RestOk \<and> (\<forall>i<k. rest_answers i = RestHttpStatus 503)))
   \<and> (wait_for_rpc answers 0 = None \<longleftrightarrow> (\<forall>k. \<exists>err. answers k = Inl err \<and> is_warmup err))
   \<and> (\<forall>k. (\<forall>i<k. \<exists>err. answers i = Inl err \<and> is_warmup err) \<and> answers k = Inr info
        \<longrightarrow> wait_for_rpc answers 0 = Some (Inr info))"
proof (intro conjI allI impI)
  show "wait_for_rest rest_answers 0 = Inr () \<longleftrightarrow>
      (\<exists>k\<le>5. rest_answers k = RestOk \<and> (\<forall>i<k. rest_answers i = RestHttpStatus 503))"
    using wait_for_rest_from [of 0 rest_answers] by (auto simp: MAX_RETRIES_def)
  show "wait_for_rpc answers 0 = None \<longleftrightarrow> (\<forall>k. \<exists>err. answers k = Inl err \<and> is_warmup err)"
  proof
    assume none: "wait_for_rpc answers 0 = None"
    show "\<forall>k. \<exists>err. answers k = Inl err \<and> is_warmup err"
    proof (rule ccontr)
      assume "\<not> (\<forall>k. \<exists>err. answers k = Inl err \<and> is_warmup err)"
      then obtain k where k: "\<not> (\<exists>err. answers k = Inl err \<and> is_warmup err)"
        and before: "\<And>i. i < k \<Longrightarrow> \<exists>err. answers i = Inl err \<and> is_warmup err"
        using exists_least_iff [of "\<lambda>k. \<not> (\<exists>err. answers k = Inl err \<and> is_warmup err)"] by blast
      have "wait_for_rpc answers 0 = wait_for_rpc answers k" using wait_for_rpc_skips [of 0 k answers] before by simp
      then show False using none k by (subst (asm) (2) wait_for_rpc.simps) (auto split: sum.splits if_splits)
    qed
  next
    assume all: "\<forall>k. \<exists>err. answers k = Inl err \<and> is_warmup err"
    then show "wait_for_rpc answers 0 = None"
      using wait_for_rpc_ends by (cases "wait_for_rpc answers 0") fastforce+
  qed
next
  fix k
  assume k: "(\<forall>i<k. \<exists>err. answers i = Inl err \<and> is_warmup err) \<and> answers k = Inr info"
  then have "wait_for_rpc answers 0 = wait_for_rpc answers k" using wait_for_rpc_skips [of 0 k answers] by simp
  also have "\<dots> = Some (Inr info)" using k by (subst wait_for_rpc.simps) simp
  finally show "wait_for_rpc answers 0 = Some (Inr info)" .
qed

end
