(* ===== verification/Wallet_Tx.thy ===== *)
theory Wallet_Tx
  imports Wallet_Sync Wallet_Seed Node_Connection
begin

text \<open>
  The rest of \<open>lib/wallet/mod.rs\<close>: the connection to the chain source, the start of the wallet, the list
  of its transactions, sending, its addresses and its summary. The BDK wallet's further operations
  are the record \<open>bdk_tx\<close>.
\<close>

section \<open>The chain source\<close>

datatype wallet_sync_source = Electrum | Esplora | SyncDisabled

record wallet_config =
  wc_sync_source :: wallet_sync_source
  wc_esplora_url :: "string option"
  wc_electrum_host :: "string option"
  wc_electrum_port :: "u16 option"
  wc_mnemonic_path :: "string option"
  wc_auto_create :: bool
  wc_full_scan :: bool
  wc_skip_periodic_sync :: bool

definition default_esplora_url :: "network \<Rightarrow> string option" where
  "default_esplora_url net = (case net of Regtest \<Rightarrow> Some ''http://localhost:3003'' | _ \<Rightarrow> None)"

definition default_electrum_host_port :: "network \<Rightarrow> (string \<times> u16) option" where
  "default_electrum_host_port net = (case net of Regtest \<Rightarrow> Some (''127.0.0.1'', 60401) | _ \<Rightarrow> None)"

datatype init_esplora_error = BuildEsploraClient | EsploraClientHeight | MissingUrl network | ParseUrl
datatype init_electrum_error =
  ChainMismatch bytes bytes | CreateElectrumClient | GetInitialBlockHeader | MissingHostPort network
datatype init_chain_source_error = InitElectrum init_electrum_error | InitEsplora init_esplora_error

definition electrum_is_transient :: "init_electrum_error \<Rightarrow> bool" where
  "electrum_is_transient e = (case e of CreateElectrumClient \<Rightarrow> True | GetInitialBlockHeader \<Rightarrow> True | _ \<Rightarrow> False)"

definition esplora_is_transient :: "init_esplora_error \<Rightarrow> bool" where
  "esplora_is_transient e = (case e of EsploraClientHeight \<Rightarrow> True | _ \<Rightarrow> False)"

definition is_transient :: "init_chain_source_error \<Rightarrow> bool" where
  "is_transient e = (case e of InitElectrum err \<Rightarrow> electrum_is_transient err | InitEsplora err \<Rightarrow> esplora_is_transient err)"

text \<open>
  The clients as they answer at one attempt: URL parsing, the Esplora builder and its height, the
  Electrum connection and the hash of its first block; and the genesis hash of a network.
\<close>

record 'c source_services =
  ss_parse_url :: "string \<Rightarrow> string option"
  ss_build_esplora :: "string \<Rightarrow> 'c option"
  ss_esplora_height :: "'c \<Rightarrow> u32 option"
  ss_connect_electrum :: "string \<Rightarrow> 'c option"
  ss_first_block :: "'c \<Rightarrow> bytes option"
  ss_chain_hash :: "network \<Rightarrow> bytes"

definition trim_end_slashes :: "string \<Rightarrow> string" where
  "trim_end_slashes s = rev (dropWhile (\<lambda>c. c = CHR ''/'') (rev s))"

definition init_esplora_client ::
  "'c source_services \<Rightarrow> wallet_config \<Rightarrow> network \<Rightarrow> init_esplora_error + 'c" where
  "init_esplora_client S config net =
     bindE (case wc_esplora_url config of
         Some url \<Rightarrow> Inr url
       | None \<Rightarrow> bindE (ok_or (default_esplora_url net) (MissingUrl net)) (\<lambda>default_url.
           ok_or (ss_parse_url S default_url) ParseUrl)) (\<lambda>esplora_url.
     bindE (ok_or (ss_build_esplora S (trim_end_slashes esplora_url)) BuildEsploraClient) (\<lambda>client.
     bindE (ok_or (ss_esplora_height S client) EsploraClientHeight) (\<lambda>height.
     Inr client)))"

definition init_electrum_client ::
  "'c source_services \<Rightarrow> wallet_config \<Rightarrow> network \<Rightarrow> init_electrum_error + 'c" where
  "init_electrum_client S config net =
     bindE (case (wc_electrum_host config, wc_electrum_port config) of
         (Some host, Some port) \<Rightarrow> Inr (host, port)
       | (host, port) \<Rightarrow>
           bindE (ok_or (default_electrum_host_port net) (MissingHostPort net)) (\<lambda>(default_host, default_port).
           Inr (case host of Some h \<Rightarrow> h | None \<Rightarrow> default_host,
                case port of Some p \<Rightarrow> p | None \<Rightarrow> default_port))) (\<lambda>(electrum_host, electrum_port).
     let electrum_url = electrum_host @ '':'' @ show_nat (unat electrum_port) in
     bindE (ok_or (ss_connect_electrum S electrum_url) CreateElectrumClient) (\<lambda>client.
     bindE (ok_or (ss_first_block S client) GetInitialBlockHeader) (\<lambda>block_hash.
     bindE (guardE (\<not> block_hash \<noteq> ss_chain_hash S net) (ChainMismatch block_hash (ss_chain_hash S net))) (\<lambda>_.
     Inr client))))"

definition INITIAL_RETRY_DELAY :: nat where "INITIAL_RETRY_DELAY = 500"
definition MAX_RETRY_DELAY :: nat where "MAX_RETRY_DELAY = 10000"

definition init_source_once ::
  "'c source_services \<Rightarrow> wallet_config \<Rightarrow> network \<Rightarrow> init_chain_source_error + 'c" where
  "init_source_once S config net =
     (if wc_sync_source config = Electrum then mapErr InitElectrum (init_electrum_client S config net)
      else mapErr InitEsplora (init_esplora_client S config net))"

text \<open>The retry loop at attempt \<open>n\<close>, with the delays in milliseconds that it sleeps.\<close>

partial_function (option) init_source_loop ::
  "(nat \<Rightarrow> 'c source_services) \<Rightarrow> wallet_config \<Rightarrow> network \<Rightarrow> nat \<Rightarrow> nat
    \<Rightarrow> ((init_chain_source_error + 'c) \<times> nat list) option" where
  "init_source_loop S config net n retry_delay =
     (case init_source_once (S n) config net of
        Inr client \<Rightarrow> Some (Inr client, [])
      | Inl err \<Rightarrow>
          if is_transient err then
            Option.bind (init_source_loop S config net (n + 1) (min (retry_delay * 2) MAX_RETRY_DELAY))
              (\<lambda>p. Some (fst p, retry_delay # snd p))
          else Some (Inl err, []))"

definition init_chain_source_client ::
  "(nat \<Rightarrow> 'c source_services) \<Rightarrow> wallet_config \<Rightarrow> network
    \<Rightarrow> ((init_chain_source_error + 'c option) \<times> nat list) option" where
  "init_chain_source_client S config net =
     (if wc_sync_source config = SyncDisabled then Some (Inr None, [])
      else map_option (\<lambda>p. (bindE (fst p) (\<lambda>client. Inr (Some client)), snd p))
        (init_source_loop S config net 0 INITIAL_RETRY_DELAY))"

section \<open>The start of the wallet\<close>

datatype init_wallet =
  NoSignetChallenge | OpenConnection | InitChainSource init_chain_source_error | InitSeed init_error

text \<open>
  \<open>WalletInner::new\<close>. The network's name always reads back as a network, and building the seed
  store is only joining a path. The birthday is read on demand by the code, with a failing read as no birthday.
\<close>

definition wallet_inner_new ::
  "('m, 'w, 'w option) seed_libs \<Rightarrow> seed_faults \<Rightarrow> (nat \<Rightarrow> ('w, 'c, 'u) chain_source source_services)
    \<Rightarrow> wallet_config \<Rightarrow> network \<Rightarrow> bytes option \<Rightarrow> producer \<Rightarrow> 'w option option \<Rightarrow> seed_dir
    \<Rightarrow> (init_wallet + ('w, 'c, 'u) wallet_inner) option" where
  "wallet_inner_new L F S config net signet_challenge p database dir =
     (if net = Signet \<and> signet_challenge = None then Some (Inl NoSignetChallenge)
      else case database of
        None \<Rightarrow> Some (Inl OpenConnection)
      | Some db \<Rightarrow>
          map_option (\<lambda>source.
            bindE (mapErr InitChainSource (fst source)) (\<lambda>chain_source_client.
            bindE (mapErr InitSeed (open_wallet L F net dir db)) (\<lambda>s.
            Inr \<lparr>wi_producer = p, wi_bitcoin_wallet = sw_bitcoin_wallet s, wi_bdk_db = sw_bdk_db s,
                 wi_birthday_height = (case read_birthday_height L F dir of Inr h \<Rightarrow> h | Inl _ \<Rightarrow> None),
                 wi_chain_source = chain_source_client, wi_last_sync = None\<rparr>)))
          (init_chain_source_client S config net))"

section \<open>The wallet's transactions\<close>

text \<open>A transaction's place: confirmed with height, hash and time, or unconfirmed and last seen.\<close>

datatype chain_position =
  Confirmed u32 bytes u64 "bytes option"
| Unconfirmed "u64 option" "u64 option"

record bdk_wallet_transaction =
  wt_txid :: bytes
  wt_tx :: transaction
  wt_chain_position :: chain_position
  wt_fee :: u64
  wt_received :: u64
  wt_sent :: u64

datatype fee_policy = FeeAbsolute u64 | FeeRate u64

text \<open>The calls that the code makes on the transaction builder.\<close>

record tx_builder =
  tb_recipients :: "(bytes \<times> u64) list"
  tb_drain_to :: "bytes option"
  tb_drain_wallet :: bool
  tb_utxos :: "out_point list"
  tb_manually_selected_only :: bool
  tb_fee :: "fee_policy option"

record ('w, 'p) bdk_tx =
  bw_transactions :: "'w \<Rightarrow> (bytes \<times> chain_position \<times> transaction) list"
  bw_is_mine :: "'w \<Rightarrow> bytes \<Rightarrow> bool"
  bw_unspent :: "'w \<Rightarrow> (out_point \<times> tx_out) list"
  bw_finish :: "tx_builder \<Rightarrow> 'w \<Rightarrow> 'p option \<times> 'w"
  bw_sign :: "'p \<Rightarrow> 'w \<Rightarrow> (bool \<times> 'p) option"
  bw_extract_tx :: "'p \<Rightarrow> transaction option"
  bw_next_unused_address :: "'w \<Rightarrow> string \<times> 'w"
  bw_confirmed_balance :: "'w \<Rightarrow> u64"
  bw_total_balance :: "'w \<Rightarrow> u64"

text \<open>The node's \<open>getrawtransaction\<close>, the consensus decoder and encoder in hex.\<close>

record tx_node =
  tn_get_raw_transaction :: "bytes \<Rightarrow> string option"
  tn_deserialize_hex :: "string \<Rightarrow> transaction option"
  tn_serialize_hex :: "transaction \<Rightarrow> string"
  tn_send_raw :: "string \<Rightarrow> nat \<Rightarrow> client_error + bytes"
  tn_op_return_script :: "bytes \<Rightarrow> bytes option"
  tn_now :: u64

text \<open>The amounts' operators panic on overflow, and an index out of range panics.\<close>

datatype list_transactions_error =
  FetchTransaction bytes | DeserializeHex | ListNotUnlocked | AmountPanic | OutputIndexPanic | SortPanic

definition add_amount :: "u64 \<Rightarrow> u64 \<Rightarrow> list_transactions_error + u64" where
  "add_amount a b = ok_or (checked_add_u64 a b) AmountPanic"

definition sub_amount :: "u64 \<Rightarrow> u64 \<Rightarrow> list_transactions_error + u64" where
  "sub_amount a b = ok_or (checked_sub_u64 a b) AmountPanic"

definition output_step :: "u64 \<times> u64 \<Rightarrow> u64 \<times> bool \<Rightarrow> list_transactions_error + u64 \<times> u64" where
  "output_step acc out =
     bindE (add_amount (fst acc) (fst out)) (\<lambda>output_value.
     if snd out then bindE (add_amount (snd acc) (fst out)) (\<lambda>received. Inr (output_value, received))
     else Inr (output_value, snd acc))"

definition input_step ::
  "('w, 'p) bdk_tx \<Rightarrow> tx_node \<Rightarrow> 'w \<Rightarrow> u64 \<times> u64 \<Rightarrow> tx_in \<Rightarrow> list_transactions_error + u64 \<times> u64" where
  "input_step B N w acc input =
     (let op = txi_previous_output input in
      if op_txid op = all_zeros then Inr acc
      else
        bindE (ok_or (tn_get_raw_transaction N (op_txid op)) (FetchTransaction (op_txid op))) (\<lambda>transaction_hex.
        bindE (ok_or (tn_deserialize_hex N transaction_hex) DeserializeHex) (\<lambda>prev.
        bindE (guardE (unat (op_vout op) < length (tx_output prev)) OutputIndexPanic) (\<lambda>_.
        let out = tx_output prev ! unat (op_vout op) in
        bindE (if bw_is_mine B w (txo_script_pubkey out) then add_amount (snd acc) (txo_value out)
               else Inr (snd acc)) (\<lambda>sent.
        bindE (add_amount (fst acc) (txo_value out)) (\<lambda>input_value. Inr (input_value, sent)))))))"

text \<open>Fee and net amounts from the four sums.\<close>

definition account :: "u64 \<Rightarrow> u64 \<Rightarrow> u64 \<Rightarrow> u64 \<Rightarrow> list_transactions_error + u64 \<times> u64 \<times> u64" where
  "account input_value output_value received sent =
     (let fee = (case checked_sub_u64 input_value output_value of Some f \<Rightarrow> f | None \<Rightarrow> 0) in
      if received \<ge> sent then bindE (sub_amount received sent) (\<lambda>net. Inr (fee, net, 0))
      else bindE (sub_amount sent received) (\<lambda>net. bindE (sub_amount net fee) (\<lambda>net'. Inr (fee, 0, net'))))"

definition wallet_transaction ::
  "('w, 'p) bdk_tx \<Rightarrow> tx_node \<Rightarrow> 'w \<Rightarrow> bytes \<times> chain_position \<times> transaction
    \<Rightarrow> list_transactions_error + bdk_wallet_transaction" where
  "wallet_transaction B N w entry =
     (case entry of (txid, chain_position, tx) \<Rightarrow>
       bindE (foldE output_step (0, 0)
         (map (\<lambda>out. (txo_value out, bw_is_mine B w (txo_script_pubkey out))) (tx_output tx))) (\<lambda>(output_value, received).
       bindE (foldE (input_step B N w) (0, 0) (tx_input tx)) (\<lambda>(input_value, sent).
       bindE (account input_value output_value received sent) (\<lambda>(fee, final_received, final_sent).
       Inr \<lparr>wt_txid = txid, wt_tx = tx, wt_chain_position = chain_position, wt_fee = fee,
            wt_received = final_received, wt_sent = final_sent\<rparr>))))"

fun wallet_transactions ::
  "('w, 'p) bdk_tx \<Rightarrow> tx_node \<Rightarrow> 'w \<Rightarrow> (bytes \<times> chain_position \<times> transaction) list
    \<Rightarrow> list_transactions_error + bdk_wallet_transaction list" where
  "wallet_transactions B N w [] = Inr []"
| "wallet_transactions B N w (entry # rest) =
     bindE (wallet_transaction B N w entry) (\<lambda>t.
     bindE (wallet_transactions B N w rest) (\<lambda>ts. Inr (t # ts)))"

subsection \<open>The order of the list\<close>

datatype ordering = Less | Equal | Greater

definition cmp :: "'a :: linorder \<Rightarrow> 'a \<Rightarrow> ordering" where
  "cmp a b = (if a < b then Less else if a = b then Equal else Greater)"

definition compare_transactions :: "bdk_wallet_transaction \<Rightarrow> bdk_wallet_transaction \<Rightarrow> ordering" where
  "compare_transactions a b =
     (case (wt_chain_position a, wt_chain_position b) of
        (Confirmed _ _ a_time _, Confirmed _ _ b_time _) \<Rightarrow> cmp a_time b_time
      | (Confirmed _ _ a_time _, Unconfirmed (Some last_seen) _) \<Rightarrow> cmp a_time last_seen
      | (Unconfirmed (Some last_seen) _, Confirmed _ _ b_time _) \<Rightarrow> cmp last_seen b_time
      | (Unconfirmed (Some a_last_seen) _, Unconfirmed (Some b_last_seen) _) \<Rightarrow> cmp a_last_seen b_last_seen
      | _ \<Rightarrow> cmp (wt_txid a) (wt_txid b))"

text \<open>
  \<open>slice::sort_by\<close>: a stable sort, as long as the comparison is a total order on the elements; with
  any other comparison the order is unspecified and the call may panic, which is \<open>None\<close>.
\<close>

definition total_order_on_list :: "('a \<Rightarrow> 'a \<Rightarrow> ordering) \<Rightarrow> 'a list \<Rightarrow> bool" where
  "total_order_on_list f xs \<longleftrightarrow>
     list_all (\<lambda>a. f a a = Equal \<and> list_all (\<lambda>b. (f a b = Greater \<longleftrightarrow> f b a = Less) \<and> (f a b = Equal \<longleftrightarrow> f b a = Equal)
       \<and> list_all (\<lambda>c. f a b \<noteq> Greater \<longrightarrow> f b c \<noteq> Greater \<longrightarrow> f a c \<noteq> Greater) xs) xs) xs"

fun insert_by :: "('a \<Rightarrow> 'a \<Rightarrow> ordering) \<Rightarrow> 'a \<Rightarrow> 'a list \<Rightarrow> 'a list" where
  "insert_by f x [] = [x]"
| "insert_by f x (y # ys) = (if f x y = Greater then y # insert_by f x ys else x # y # ys)"

definition sort_by :: "('a \<Rightarrow> 'a \<Rightarrow> ordering) \<Rightarrow> 'a list \<Rightarrow> 'a list option" where
  "sort_by f xs = (if total_order_on_list f xs then Some (foldr (insert_by f) xs []) else None)"

definition list_wallet_transactions ::
  "('w, 'p) bdk_tx \<Rightarrow> tx_node \<Rightarrow> ('w, 'c, 'u) wallet_inner
    \<Rightarrow> list_transactions_error + bdk_wallet_transaction list" where
  "list_wallet_transactions B N inner =
     bindE (ok_or (wi_bitcoin_wallet inner) ListNotUnlocked) (\<lambda>w.
     bindE (wallet_transactions B N w (bw_transactions B w)) (\<lambda>txs.
     ok_or (sort_by compare_transactions txs) SortPanic))"

section \<open>Sending\<close>

datatype create_send_psbt_error = CreateTx | PsbtNotUnlocked | PsbtScript | UnknownUTXO out_point

record create_transaction_params =
  cp_fee_policy :: "fee_policy option"
  cp_op_return_message :: "bytes option"
  cp_required_utxos :: "out_point list"
  cp_drain_wallet_to :: "bytes option"

definition create_op_return_output :: "tx_node \<Rightarrow> bytes \<Rightarrow> tx_out option" where
  "create_op_return_output N msg =
     map_option (\<lambda>script. \<lparr>txo_value = 0, txo_script_pubkey = script\<rparr>) (tn_op_return_script N msg)"

text \<open>The builder's calls, in their order; \<open>destinations\<close> is the iteration of the map of outputs.\<close>

definition build_send ::
  "('w, 'p) bdk_tx \<Rightarrow> tx_node \<Rightarrow> 'w \<Rightarrow> (bytes \<times> u64) list \<Rightarrow> create_transaction_params
    \<Rightarrow> create_send_psbt_error + tx_builder" where
  "build_send B N w destinations params =
     bindE (case cp_op_return_message params of
         None \<Rightarrow> Inr []
       | Some msg \<Rightarrow> bindE (ok_or (create_op_return_output N msg) PsbtScript) (\<lambda>out.
           Inr [(txo_script_pubkey out, txo_value out)])) (\<lambda>op_return.
     bindE (case filter (\<lambda>u. u \<notin> fst ` set (bw_unspent B w)) (cp_required_utxos params) of
         [] \<Rightarrow> Inr ()
       | outpoint # _ \<Rightarrow> Inl (UnknownUTXO outpoint)) (\<lambda>_.
     Inr \<lparr>tb_recipients = op_return @ destinations,
          tb_drain_to = cp_drain_wallet_to params, tb_drain_wallet = (cp_drain_wallet_to params \<noteq> None),
          tb_utxos = cp_required_utxos params, tb_manually_selected_only = (cp_required_utxos params \<noteq> []),
          tb_fee = cp_fee_policy params\<rparr>))"

definition create_send_psbt ::
  "('w, 'p) bdk_tx \<Rightarrow> tx_node \<Rightarrow> (bytes \<times> u64) list \<Rightarrow> create_transaction_params
    \<Rightarrow> (('w, 'c, 'u) wallet_inner, create_send_psbt_error, 'p) st" where
  "create_send_psbt B N destinations params = (\<lambda>inner.
     case wi_bitcoin_wallet inner of
       None \<Rightarrow> (Inl PsbtNotUnlocked, inner)
     | Some w \<Rightarrow>
         (case build_send B N w destinations params of
            Inl e \<Rightarrow> (Inl e, inner)
          | Inr builder \<Rightarrow>
              (case bw_finish B builder w of
                 (psbt, w') \<Rightarrow> (ok_or psbt CreateTx, inner\<lparr>wi_bitcoin_wallet := Some w'\<rparr>))))"

datatype sign_transaction_error = SignNotUnlocked | SignerError | ExtractTx | UnableToSign

definition sign_transaction ::
  "('w, 'p) bdk_tx \<Rightarrow> 'p \<Rightarrow> ('w, 'c, 'u) wallet_inner \<Rightarrow> sign_transaction_error + transaction" where
  "sign_transaction B psbt inner =
     bindE (ok_or (wi_bitcoin_wallet inner) SignNotUnlocked) (\<lambda>w.
     bindE (ok_or (bw_sign B psbt w) SignerError) (\<lambda>(finalized, signed).
     bindE (guardE finalized UnableToSign) (\<lambda>_.
     ok_or (bw_extract_tx B signed) ExtractTx)))"

datatype send_transaction_error =
  BroadcastTx client_error
| SendCreatePsbt create_send_psbt_error
| SendSign sign_transaction_error
| NonstandardTxNotSupported
| SendNotUnlocked
| SendPersistence

text \<open>Applying the sent transaction as unconfirmed and persisting the wallet.\<close>

definition apply_sent ::
  "('w, 'c, 'u) bdk \<Rightarrow> transaction \<Rightarrow> u64 \<Rightarrow> (('w, 'c, 'u) wallet_inner, send_transaction_error, unit) st" where
  "apply_sent K tx last_seen = (\<lambda>inner.
     case wi_bitcoin_wallet inner of
       None \<Rightarrow> (Inl SendNotUnlocked, inner)
     | Some w \<Rightarrow>
         let w' = bk_unconfirmed K tx last_seen w in
         if bk_persist K w' then (Inr (), inner\<lparr>wi_bitcoin_wallet := Some w', wi_bdk_db := Some w'\<rparr>)
         else (Inl SendPersistence, inner\<lparr>wi_bitcoin_wallet := Some w'\<rparr>))"

definition send_wallet_transaction ::
  "libs \<Rightarrow> ('w, 'c, 'u) bdk \<Rightarrow> ('w, 'p) bdk_tx \<Rightarrow> tx_node \<Rightarrow> (bytes \<times> u64) list \<Rightarrow> create_transaction_params
    \<Rightarrow> (('w, 'c, 'u) wallet_inner, send_transaction_error, bytes) st" where
  "send_wallet_transaction L K B N destinations params =
     bindS (mapErrS SendCreatePsbt (create_send_psbt B N destinations params)) (\<lambda>psbt.
     bindS (liftS (\<lambda>inner. mapErr SendSign (sign_transaction B psbt inner))) (\<lambda>tx.
     bindS (liftS (\<lambda>_. bindE (mapErr BroadcastTx (broadcast_transaction (tn_send_raw N) (tn_serialize_hex N tx)))
       (\<lambda>txid. guardE (txid \<noteq> None) NonstandardTxNotSupported))) (\<lambda>_.
     bindS (apply_sent K tx (tn_now N)) (\<lambda>_.
     returnS (compute_txid L tx)))))"

section \<open>Balance, addresses and the summary\<close>

definition get_wallet_balance :: "('w, 'p) bdk_tx \<Rightarrow> ('w, 'c, 'u) wallet_inner \<Rightarrow> unit + (u64 \<times> u64) \<times> bool" where
  "get_wallet_balance B inner =
     bindE (ok_or (wi_bitcoin_wallet inner) ()) (\<lambda>w.
       Inr ((bw_confirmed_balance B w, bw_total_balance B w), wi_last_sync inner \<noteq> None))"

definition get_utxos :: "('w, 'p) bdk_tx \<Rightarrow> ('w, 'c, 'u) wallet_inner \<Rightarrow> unit + (out_point \<times> tx_out) list" where
  "get_utxos B inner = bindE (ok_or (wi_bitcoin_wallet inner) ()) (\<lambda>w. Inr (bw_unspent B w))"

datatype get_new_address_error = AddressNotUnlocked | AddressPersistence

definition get_new_address ::
  "('w, 'c, 'u) bdk \<Rightarrow> ('w, 'p) bdk_tx \<Rightarrow> (('w, 'c, 'u) wallet_inner, get_new_address_error, string) st" where
  "get_new_address K B = (\<lambda>inner.
     case wi_bitcoin_wallet inner of
       None \<Rightarrow> (Inl AddressNotUnlocked, inner)
     | Some w \<Rightarrow>
         (case bw_next_unused_address B w of
            (address, w') \<Rightarrow>
              if bk_persist K w' then (Inr address, inner\<lparr>wi_bitcoin_wallet := Some w', wi_bdk_db := Some w'\<rparr>)
              else (Inl AddressPersistence, inner\<lparr>wi_bitcoin_wallet := Some w'\<rparr>)))"

record wallet_info =
  wo_transaction_count :: nat
  wo_unspent_output_count :: nat
  wo_tip :: "bytes \<times> u32"

text \<open>The tip of \<open>get_wallet_info\<close>: the lower of the BDK wallet's and the validator's.\<close>

definition info_tip :: "dbs \<Rightarrow> u32 \<times> bytes \<Rightarrow> bytes \<times> u32" where
  "info_tip D bdk_tip =
     (case (case try_get_block_height D of Inr h \<Rightarrow> h | Inl _ \<Rightarrow> None) of
        Some validator_height \<Rightarrow>
          if validator_height < fst bdk_tip then
            (case try_get_mainchain_tip D of Some h \<Rightarrow> h | None \<Rightarrow> snd bdk_tip, validator_height)
          else (snd bdk_tip, fst bdk_tip)
      | None \<Rightarrow> (snd bdk_tip, fst bdk_tip))"

definition get_wallet_info ::
  "('w, 'c, 'u) bdk \<Rightarrow> ('w, 'p) bdk_tx \<Rightarrow> ('w, 'c, 'u) wallet_inner \<Rightarrow> unit + wallet_info" where
  "get_wallet_info K B inner =
     bindE (ok_or (wi_bitcoin_wallet inner) ()) (\<lambda>w.
       Inr \<lparr>wo_transaction_count = length (bw_transactions B w), wo_unspent_output_count = length (bw_unspent B w),
            wo_tip = info_tip (wi_dbs inner) (bk_tip K w)\<rparr>)"

section \<open>What the amounts of a transaction are\<close>

text \<open>
  The reference: the previous outputs that the node knows, and the four sums over natural numbers.
\<close>

definition prevout_of :: "tx_node \<Rightarrow> tx_in \<Rightarrow> tx_out option" where
  "prevout_of N input =
     (let op = txi_previous_output input in
      Option.bind (Option.bind (tn_get_raw_transaction N (op_txid op)) (tn_deserialize_hex N)) (\<lambda>prev.
        if unat (op_vout op) < length (tx_output prev) then Some (tx_output prev ! unat (op_vout op)) else None))"

definition spent_outputs :: "tx_node \<Rightarrow> transaction \<Rightarrow> tx_out list" where
  "spent_outputs N tx =
     map (\<lambda>input. the (prevout_of N input))
       (filter (\<lambda>input. op_txid (txi_previous_output input) \<noteq> all_zeros) (tx_input tx))"

definition sum_of :: "tx_out list \<Rightarrow> nat" where
  "sum_of outs = (\<Sum>out\<leftarrow>outs. unat (txo_value out))"

abbreviation own_outs :: "('w, 'p) bdk_tx \<Rightarrow> 'w \<Rightarrow> tx_out list \<Rightarrow> tx_out list" where
  "own_outs B w \<equiv> filter (\<lambda>out. bw_is_mine B w (txo_script_pubkey out))"

lemma sum_of_simps [simp]: "sum_of [] = 0" "sum_of (x # xs) = unat (txo_value x) + sum_of xs"
  by (simp_all add: sum_of_def)

lemma add_amount_Inr [simp]: "add_amount a b = Inr c \<longleftrightarrow> unat a + unat b < 2 ^ 64 \<and> unat c = unat a + unat b"
  by (simp add: add_amount_def checked_add_u64_Some)

lemma sub_amount_Inr [simp]: "sub_amount a b = Inr c \<longleftrightarrow> unat b \<le> unat a \<and> unat c = unat a - unat b"
  by (simp add: sub_amount_def checked_sub_u64_Some)

lemma output_steps:
  assumes "foldE output_step acc (map (\<lambda>out. (txo_value out, bw_is_mine B w (txo_script_pubkey out))) outs) = Inr acc'"
  shows "unat (fst acc') = unat (fst acc) + sum_of outs \<and> unat (snd acc') = unat (snd acc) + sum_of (own_outs B w outs)"
  using assms
proof (induction outs arbitrary: acc)
  case (Cons out outs)
  then obtain mid where mid: "output_step acc (txo_value out, bw_is_mine B w (txo_script_pubkey out)) = Inr mid"
    "foldE output_step mid (map (\<lambda>out. (txo_value out, bw_is_mine B w (txo_script_pubkey out))) outs) = Inr acc'"
    by auto
  have "unat (fst mid) = unat (fst acc) + unat (txo_value out)"
    "unat (snd mid) = unat (snd acc) + (if bw_is_mine B w (txo_script_pubkey out) then unat (txo_value out) else 0)"
    using mid(1) by (auto simp: output_step_def split: if_splits)
  then show ?case using Cons.IH [OF mid(2)] by simp
qed simp

lemma input_step_ok:
  assumes "input_step B N w acc input = Inr acc'" and "op_txid (txi_previous_output input) \<noteq> all_zeros"
  obtains out where "prevout_of N input = Some out" "unat (fst acc') = unat (fst acc) + unat (txo_value out)"
    "unat (snd acc') = unat (snd acc) + (if bw_is_mine B w (txo_script_pubkey out) then unat (txo_value out) else 0)"
  using assms by (auto simp: input_step_def prevout_of_def Let_def split: if_splits)

lemma input_steps:
  assumes "foldE (input_step B N w) acc ins = Inr acc'"
  shows "(\<forall>i\<in>set ins. op_txid (txi_previous_output i) \<noteq> all_zeros \<longrightarrow> prevout_of N i \<noteq> None)
    \<and> unat (fst acc') = unat (fst acc)
        + sum_of (map (\<lambda>i. the (prevout_of N i)) (filter (\<lambda>i. op_txid (txi_previous_output i) \<noteq> all_zeros) ins))
    \<and> unat (snd acc') = unat (snd acc)
        + sum_of (own_outs B w (map (\<lambda>i. the (prevout_of N i)) (filter (\<lambda>i. op_txid (txi_previous_output i) \<noteq> all_zeros) ins)))"
  using assms
proof (induction ins arbitrary: acc)
  case (Cons i ins)
  then obtain mid where mid: "input_step B N w acc i = Inr mid" "foldE (input_step B N w) mid ins = Inr acc'"
    by auto
  note IH = Cons.IH [OF mid(2)]
  show ?case
  proof (cases "op_txid (txi_previous_output i) = all_zeros")
    case True
    then have "mid = acc" using mid(1) by (simp add: input_step_def)
    then show ?thesis using IH True by simp
  next
    case False
    show ?thesis
      by (rule input_step_ok [OF mid(1) False]) (use IH False in auto)
  qed
qed simp

definition net_received :: "('w, 'p) bdk_tx \<Rightarrow> tx_node \<Rightarrow> 'w \<Rightarrow> transaction \<Rightarrow> int" where
  "net_received B N w tx = int (sum_of (own_outs B w (tx_output tx))) - int (sum_of (own_outs B w (spent_outputs N tx)))"

definition paid_fee :: "tx_node \<Rightarrow> transaction \<Rightarrow> nat" where
  "paid_fee N tx = sum_of (spent_outputs N tx) - sum_of (tx_output tx)"

text \<open>The books of one listed transaction.\<close>

definition books_ok :: "('w, 'p) bdk_tx \<Rightarrow> tx_node \<Rightarrow> 'w \<Rightarrow> bdk_wallet_transaction \<Rightarrow> bool" where
  "books_ok B N w t \<longleftrightarrow>
     unat (wt_fee t) = paid_fee N (wt_tx t)
     \<and> (if net_received B N w (wt_tx t) \<ge> 0
        then int (unat (wt_received t)) = net_received B N w (wt_tx t) \<and> wt_sent t = 0
        else wt_received t = 0
          \<and> int (unat (wt_sent t)) + int (paid_fee N (wt_tx t)) = - net_received B N w (wt_tx t))"

lemma account_ok:
  assumes "account input_value output_value received sent = Inr (fee, r, s)"
  shows "unat fee = unat input_value - unat output_value
    \<and> (if unat sent \<le> unat received then unat r = unat received - unat sent \<and> s = 0
       else r = 0 \<and> unat s + unat fee = unat sent - unat received)"
proof -
  have "unat (case checked_sub_u64 input_value output_value of Some f \<Rightarrow> f | None \<Rightarrow> 0) = unat input_value - unat output_value"
    by (auto simp: checked_sub_u64_Some checked_sub_u64_None split: option.splits)
  then show ?thesis
    using assms by (auto simp: account_def Let_def word_le_nat_alt split: if_splits)
qed

lemma wallet_transaction_ok:
  assumes "wallet_transaction B N w (txid, chain_position, tx) = Inr t"
  shows "wt_txid t = txid \<and> wt_chain_position t = chain_position \<and> wt_tx t = tx \<and> books_ok B N w t"
proof -
  from assms obtain ov rc iv st f r s where
      out: "foldE output_step (0, 0)
        (map (\<lambda>out. (txo_value out, bw_is_mine B w (txo_script_pubkey out))) (tx_output tx)) = Inr (ov, rc)"
    and inp: "foldE (input_step B N w) (0, 0) (tx_input tx) = Inr (iv, st)"
    and acc: "account iv ov rc st = Inr (f, r, s)"
    and t: "t = \<lparr>wt_txid = txid, wt_tx = tx, wt_chain_position = chain_position, wt_fee = f, wt_received = r, wt_sent = s\<rparr>"
    by (auto simp: wallet_transaction_def)
  have "unat ov = sum_of (tx_output tx)" "unat rc = sum_of (own_outs B w (tx_output tx))"
    "unat iv = sum_of (spent_outputs N tx)" "unat st = sum_of (own_outs B w (spent_outputs N tx))"
    using output_steps [OF out] input_steps [OF inp] by (simp_all add: spent_outputs_def)
  then show ?thesis
    using account_ok [OF acc]
    by (auto simp: t books_ok_def net_received_def paid_fee_def split: if_splits simp del: of_nat_unat)
qed

lemma wallet_transactions_ok:
  assumes "wallet_transactions B N w entries = Inr ts"
  shows "map (\<lambda>t. (wt_txid t, wt_chain_position t, wt_tx t)) ts = entries \<and> list_all (books_ok B N w) ts"
  using assms
proof (induction entries arbitrary: ts)
  case (Cons entry entries)
  obtain txid pos tx where "entry = (txid, pos, tx)" by (cases entry)
  then show ?case using Cons wallet_transaction_ok by fastforce
qed simp

section \<open>The order of the list\<close>

lemma insert_by_mset: "mset (insert_by f x ys) = add_mset x (mset ys)"
  by (induction ys) auto

lemma sort_by_mset: "sort_by f xs = Some ys \<Longrightarrow> mset ys = mset xs"
proof -
  have "mset (foldr (insert_by f) zs []) = mset zs" for zs by (induction zs) (simp_all add: insert_by_mset)
  then show "sort_by f xs = Some ys \<Longrightarrow> mset ys = mset xs" by (auto simp: sort_by_def split: if_splits)
qed

definition position_time :: "chain_position \<Rightarrow> u64 option" where
  "position_time p = (case p of Confirmed _ _ t _ \<Rightarrow> Some t | Unconfirmed last_seen _ \<Rightarrow> last_seen)"

abbreviation tx_time :: "bdk_wallet_transaction \<Rightarrow> u64 option" where
  "tx_time t \<equiv> position_time (wt_chain_position t)"

lemma compare_transactions_times:
  "compare_transactions a b =
     (case (tx_time a, tx_time b) of (Some s, Some t) \<Rightarrow> cmp s t | _ \<Rightarrow> cmp (wt_txid a) (wt_txid b))"
  by (cases "wt_chain_position a"; cases "wt_chain_position b")
    (auto simp: compare_transactions_def position_time_def split: option.splits)

lemma timed_total_order:
  assumes "\<forall>t\<in>set ts. tx_time t \<noteq> None"
  shows "total_order_on_list compare_transactions ts"
  using assms
  by (auto simp: total_order_on_list_def list_all_iff compare_transactions_times cmp_def split: option.splits if_splits)

lemma insert_by_sorted:
  assumes "\<And>y. y \<in> set ys \<Longrightarrow> f x y = Greater \<longleftrightarrow> k x > (k y :: 'k :: linorder)" and "sorted (map k ys)"
  shows "sorted (map k (insert_by f x ys))"
  using assms
proof (induction ys)
  case (Cons y ys)
  have set: "set (insert_by f x ys) = insert x (set ys)" by (metis insert_by_mset set_mset_add_mset_insert set_mset_mset)
  show ?case
  proof (cases "f x y = Greater")
    case True
    have "k y < k x" using Cons.prems(1) [of y] True by simp
    moreover have "sorted (map k (insert_by f x ys))" using Cons by simp
    ultimately show ?thesis using True Cons.prems(2) set by auto
  next
    case False
    have "k x \<le> k y" using Cons.prems(1) [of y] False by (meson list.set_intros(1) not_le)
    then show ?thesis using False Cons.prems(2) by fastforce
  qed
qed simp

lemma sort_by_times:
  assumes "\<forall>t\<in>set ts. tx_time t \<noteq> None"
  shows "\<exists>us. sort_by compare_transactions ts = Some us \<and> sorted (map (\<lambda>t. the (tx_time t)) us)"
proof -
  have "sorted (map (\<lambda>t. the (tx_time t)) (foldr (insert_by compare_transactions) ts []))"
    using assms
  proof (induction ts)
    case (Cons t ts)
    let ?r = "foldr (insert_by compare_transactions) ts []"
    have "sort_by compare_transactions ts = Some ?r" using timed_total_order Cons.prems by (simp add: sort_by_def)
    then have "set ?r = set ts" using sort_by_mset by (metis set_mset_mset)
    then have "compare_transactions t y = Greater \<longleftrightarrow> the (tx_time t) > the (tx_time y)" if "y \<in> set ?r" for y
      using that Cons.prems by (auto simp: compare_transactions_times cmp_def split: option.splits)
    then show ?case using Cons by (simp add: insert_by_sorted)
  qed simp
  then show ?thesis using timed_total_order [OF assms] by (simp add: sort_by_def)
qed

text \<open>
  C32: the list of wallet transactions is complete and its books balance. When the call succeeds, the list holds
  every transaction of the wallet exactly once; its fee is the value of the spent outputs less
  that of the created ones, over unbounded numbers; a net gain is shown as received, and a net
  loss is what is shown as sent plus the fee, with nothing wrapped around. When the time of every
  transaction is known the list is in chronological order.
\<close>
theorem listed_transactions_balance:
  assumes "list_wallet_transactions B N inner = Inr ts"
  shows "\<exists>w. wi_bitcoin_wallet inner = Some w
    \<and> mset (map (\<lambda>t. (wt_txid t, wt_chain_position t, wt_tx t)) ts) = mset (bw_transactions B w)
    \<and> (\<forall>t\<in>set ts. books_ok B N w t)
    \<and> ((\<forall>t\<in>set ts. tx_time t \<noteq> None) \<longrightarrow> sorted (map (\<lambda>t. the (tx_time t)) ts))"
proof -
  obtain w us where w: "wi_bitcoin_wallet inner = Some w"
    and us: "wallet_transactions B N w (bw_transactions B w) = Inr us" "sort_by compare_transactions us = Some ts"
    using assms by (auto simp: list_wallet_transactions_def)
  note mset = sort_by_mset [OF us(2)]
  have set: "set ts = set us" using mset by (metis set_mset_mset)
  have ok: "map (\<lambda>t. (wt_txid t, wt_chain_position t, wt_tx t)) us = bw_transactions B w" "list_all (books_ok B N w) us"
    using wallet_transactions_ok [OF us(1)] by simp_all
  have "mset (map (\<lambda>t. (wt_txid t, wt_chain_position t, wt_tx t)) ts) = mset (bw_transactions B w)"
    using mset ok(1) by (metis mset_map)
  moreover have "\<forall>t\<in>set ts. books_ok B N w t" using ok(2) by (simp add: set list_all_iff)
  moreover have "sorted (map (\<lambda>t. the (tx_time t)) ts)" if "\<forall>t\<in>set ts. tx_time t \<noteq> None"
    using sort_by_times [of us] that us(2) by (simp add: set)
  ultimately show ?thesis using w by blast
qed

text \<open>
  The panics of the list: a net loss that is smaller than the fee, which happens when other inputs
  of the transaction pay for the fee too.
\<close>

lemma account_panics:
  "account input_value output_value received sent = Inl AmountPanic \<longleftrightarrow>
     unat received < unat sent \<and> unat sent - unat received < unat input_value - unat output_value"
proof -
  have le: "(sent \<le> received) = (unat sent \<le> unat received)" by (rule word_le_nat_alt)
  have sub: "sub_amount a b = Inl AmountPanic \<longleftrightarrow> unat a < unat b" for a b
    by (simp add: sub_amount_def ok_or_eq_Inl checked_sub_u64_None)
  have net: "sub_amount sent received = Inr (sent - received) \<and> unat (sent - received) = unat sent - unat received"
    if "unat received < unat sent"
    using that by (simp add: unat_sub word_le_nat_alt)
  show ?thesis
  proof (cases "unat received < unat sent")
    case True
    note n = net [OF True]
    have "(account input_value output_value received sent = Inl AmountPanic) \<longleftrightarrow>
        (sub_amount (sent - received) (case checked_sub_u64 input_value output_value of Some f \<Rightarrow> f | None \<Rightarrow> 0)
          = Inl AmountPanic)"
      unfolding account_def Let_def le conjunct1 [OF n] using True by (auto simp: bindE_eq_Inl)
    then show ?thesis
      using True conjunct2 [OF n]
      by (auto simp: sub checked_sub_u64_Some checked_sub_u64_None split: option.splits)
  next
    case False
    then show ?thesis by (auto simp: account_def Let_def le bindE_eq_Inl sub)
  qed
qed

section \<open>Sending\<close>

lemma mapErrS_st: "mapErrS f m s = (r, t) \<longleftrightarrow> (\<exists>q. m s = (q, t) \<and> r = mapErr f q)"
  by (auto simp: mapErrS_def split: prod.splits)

lemma create_send_psbt_ok:
  "create_send_psbt B N dests params inner = (Inr psbt, inner') \<longleftrightarrow>
     (\<exists>w builder w'. wi_bitcoin_wallet inner = Some w \<and> build_send B N w dests params = Inr builder
        \<and> bw_finish B builder w = (Some psbt, w') \<and> inner' = inner\<lparr>wi_bitcoin_wallet := Some w'\<rparr>)"
  by (auto simp: create_send_psbt_def split: option.splits sum.splits prod.splits)

lemma create_send_psbt_db: "create_send_psbt B N dests params inner = (r, inner') \<Longrightarrow> wi_bdk_db inner' = wi_bdk_db inner"
  by (auto simp: create_send_psbt_def split: option.splits sum.splits prod.splits)

lemma apply_sent_ok:
  "apply_sent K tx t inner = (Inr u, inner') \<longleftrightarrow>
     (\<exists>w. wi_bitcoin_wallet inner = Some w \<and> bk_persist K (bk_unconfirmed K tx t w)
        \<and> inner' = inner\<lparr>wi_bitcoin_wallet := Some (bk_unconfirmed K tx t w), wi_bdk_db := Some (bk_unconfirmed K tx t w)\<rparr>)"
  by (auto simp: apply_sent_def Let_def split: option.splits)

lemma apply_sent_error: "apply_sent K tx t inner = (Inl e, inner') \<Longrightarrow> e \<noteq> SendPersistence \<Longrightarrow> inner' = inner"
  by (auto simp: apply_sent_def Let_def split: option.splits if_splits)

lemma broadcast_accepted:
  "broadcast_transaction send_raw hex = Inr (Some txid) \<longleftrightarrow> send_raw hex MAX_BURN_AMOUNT = Inr txid"
  by (auto simp: broadcast_transaction_def broadcast_transaction_with_tolerance_def
      split: sum.splits client_error.splits if_splits)

lemma send_ok:
  assumes "send_wallet_transaction L K B N dests params inner = (Inr txid, inner')"
  obtains w builder psbt w' signed tx node_txid where
    "wi_bitcoin_wallet inner = Some w" "build_send B N w dests params = Inr builder"
    "bw_finish B builder w = (Some psbt, w')" "bw_sign B psbt w' = Some (True, signed)"
    "bw_extract_tx B signed = Some tx" "tn_send_raw N (tn_serialize_hex N tx) MAX_BURN_AMOUNT = Inr node_txid"
    "txid = compute_txid L tx" "bk_persist K (bk_unconfirmed K tx (tn_now N) w')"
    "inner' = inner\<lparr>wi_bitcoin_wallet := Some (bk_unconfirmed K tx (tn_now N) w'),
       wi_bdk_db := Some (bk_unconfirmed K tx (tn_now N) w')\<rparr>"
  using assms
  by (auto simp: send_wallet_transaction_def bindS_eq_Inr create_send_psbt_ok sign_transaction_def apply_sent_ok
      broadcast_accepted)

lemma send_error_db:
  assumes "send_wallet_transaction L K B N dests params inner = (Inl e, inner')" and "e \<noteq> SendPersistence"
  shows "wi_bdk_db inner' = wi_bdk_db inner"
  using assms
  by (auto simp: send_wallet_transaction_def bindS_eq_Inl mapErrS_eq_Inl dest!: create_send_psbt_db apply_sent_error)

lemma build_send_ok:
  assumes "build_send B N w dests params = Inr b"
  shows "set (cp_required_utxos params) \<subseteq> fst ` set (bw_unspent B w) \<and> tb_utxos b = cp_required_utxos params
    \<and> (tb_manually_selected_only b \<longleftrightarrow> cp_required_utxos params \<noteq> [])
    \<and> (\<exists>op_return. tb_recipients b = op_return @ dests \<and> list_all (\<lambda>(_, v). v = 0) op_return
         \<and> length op_return = (if cp_op_return_message params = None then 0 else 1))
    \<and> tb_fee b = cp_fee_policy params \<and> tb_drain_to b = cp_drain_wallet_to params
    \<and> tb_drain_wallet b = (cp_drain_wallet_to params \<noteq> None)"
proof -
  from assms obtain op_return where b: "b = \<lparr>tb_recipients = op_return @ dests,
          tb_drain_to = cp_drain_wallet_to params, tb_drain_wallet = (cp_drain_wallet_to params \<noteq> None),
          tb_utxos = cp_required_utxos params, tb_manually_selected_only = (cp_required_utxos params \<noteq> []),
          tb_fee = cp_fee_policy params\<rparr>"
    and op: "(case cp_op_return_message params of
         None \<Rightarrow> Inr []
       | Some msg \<Rightarrow> bindE (ok_or (create_op_return_output N msg) PsbtScript) (\<lambda>out.
           Inr [(txo_script_pubkey out, txo_value out)])) = Inr op_return"
    and req: "filter (\<lambda>u. u \<notin> fst ` set (bw_unspent B w)) (cp_required_utxos params) = []"
    by (auto simp: build_send_def split: list.splits)
  have "list_all (\<lambda>(_, v). v = 0) op_return \<and> length op_return = (if cp_op_return_message params = None then 0 else 1)"
    using op by (auto simp: create_op_return_output_def split: option.splits)
  then show ?thesis using req by (auto simp: b filter_empty_conv)
qed


section \<open>The reported tip and the retries\<close>

text \<open>
  The tip that the wallet reports is one that both views have reached: its height is the lower of
  the BDK wallet's and the validator's, and when the validator lags it is the validator's own tip.
\<close>
theorem reported_tip_is_reached:
  assumes "try_get_block_height D = Inr (Some validator_height)"
  shows "snd (info_tip D bdk_tip) = min (fst bdk_tip) validator_height
    \<and> (validator_height < fst bdk_tip \<and> db_tip D = Some tip \<longrightarrow> fst (info_tip D bdk_tip) = tip)
    \<and> (\<not> validator_height < fst bdk_tip \<longrightarrow> fst (info_tip D bdk_tip) = snd bdk_tip)"
  using assms by (auto simp: info_tip_def try_get_mainchain_tip_def min_def)

definition transient_at :: "(nat \<Rightarrow> 'c source_services) \<Rightarrow> wallet_config \<Rightarrow> network \<Rightarrow> nat \<Rightarrow> bool" where
  "transient_at S config net n \<longleftrightarrow> (\<exists>err. init_source_once (S n) config net = Inl err \<and> is_transient err)"

fun delays :: "nat \<Rightarrow> nat \<Rightarrow> nat list" where
  "delays d 0 = []"
| "delays d (Suc k) = d # delays (min (d * 2) MAX_RETRY_DELAY) k"

lemma delays_bound: "d \<le> MAX_RETRY_DELAY \<Longrightarrow> list_all (\<lambda>x. x \<le> MAX_RETRY_DELAY) (delays d k)"
  by (induction k arbitrary: d) simp_all

lemma init_source_loop_runs:
  "(\<And>i. i < k \<Longrightarrow> transient_at S config net (n + i)) \<Longrightarrow> \<not> transient_at S config net (n + k)
    \<Longrightarrow> init_source_loop S config net n d = Some (init_source_once (S (n + k)) config net, delays d k)"
proof (induction k arbitrary: n d)
  case 0
  then show ?case by (subst init_source_loop.simps) (auto simp: transient_at_def split: sum.splits)
next
  case (Suc k)
  have now: "transient_at S config net n" using Suc.prems(1) [of 0] by simp
  have "init_source_loop S config net (Suc n) (min (d * 2) MAX_RETRY_DELAY) =
      Some (init_source_once (S (Suc n + k)) config net, delays (min (d * 2) MAX_RETRY_DELAY) k)"
    by (rule Suc.IH) (use Suc.prems(1) [of "Suc _"] Suc.prems(2) in simp_all)
  then show ?case using now by (subst init_source_loop.simps) (auto simp: transient_at_def)
qed

lemma init_source_loop_ends:
  assumes "init_source_loop S config net n d = Some p"
  shows "\<exists>k. \<not> transient_at S config net (n + k)"
proof -
  have "\<exists>m\<ge>n. \<not> transient_at S config net m"
  proof (rule init_source_loop.raw_induct [OF _ assms, of "\<lambda>S config net n d p. \<exists>m\<ge>n. \<not> transient_at S config net m"])
    fix loop config net and S :: "nat \<Rightarrow> 'a source_services" and n d :: nat and p :: "(init_chain_source_error + 'a) \<times> nat list"
    assume IH: "\<And>S config net n d p. loop S config net n d = Some p \<Longrightarrow> \<exists>m\<ge>n. \<not> transient_at S config net m"
      and eq: "(case init_source_once (S n) config net of
        Inr client \<Rightarrow> Some (Inr client, [])
      | Inl err \<Rightarrow>
          if is_transient err then
            Option.bind (loop S config net (n + 1) (min (d * 2) MAX_RETRY_DELAY)) (\<lambda>p. Some (fst p, d # snd p))
          else Some (Inl err, [])) = Some p"
    show "\<exists>m\<ge>n. \<not> transient_at S config net m"
    proof (cases "transient_at S config net n")
      case True
      then obtain p' where "loop S config net (n + 1) (min (d * 2) MAX_RETRY_DELAY) = Some p'"
        using eq by (auto simp: transient_at_def bind_eq_Some_conv)
      from IH [OF this] obtain m where "n + 1 \<le> m" "\<not> transient_at S config net m" by blast
      then show ?thesis by (intro exI [of _ m]) simp
    qed blast
  qed
  then show ?thesis by (metis le_Suc_ex)
qed

text \<open>
  The wallet waits for its chain source as documented: it returns exactly when some attempt is not
  a transient failure, with the outcome of the first such attempt, after one delay per failed
  attempt, from half a second doubling up to ten seconds.
\<close>
theorem chain_source_retries:
  assumes "wc_sync_source config \<noteq> SyncDisabled"
  shows "(init_chain_source_client S config net = None \<longleftrightarrow> (\<forall>n. transient_at S config net n))
    \<and> (\<forall>k. (\<forall>i<k. transient_at S config net i) \<and> \<not> transient_at S config net k \<longrightarrow>
         init_chain_source_client S config net =
           Some (bindE (init_source_once (S k) config net) (\<lambda>c. Inr (Some c)), delays INITIAL_RETRY_DELAY k)
         \<and> list_all (\<lambda>x. x \<le> MAX_RETRY_DELAY) (delays INITIAL_RETRY_DELAY k))"
proof (intro conjI allI impI)
  have run: "init_chain_source_client S config net =
           Some (bindE (init_source_once (S k) config net) (\<lambda>c. Inr (Some c)), delays INITIAL_RETRY_DELAY k)"
    if "(\<forall>i<k. transient_at S config net i) \<and> \<not> transient_at S config net k" for k
    using init_source_loop_runs [of k S config net 0] that assms by (simp add: init_chain_source_client_def)
  show "init_chain_source_client S config net =
           Some (bindE (init_source_once (S k) config net) (\<lambda>c. Inr (Some c)), delays INITIAL_RETRY_DELAY k)"
    if "(\<forall>i<k. transient_at S config net i) \<and> \<not> transient_at S config net k" for k
    using run [OF that] .
  show "list_all (\<lambda>x. x \<le> MAX_RETRY_DELAY) (delays INITIAL_RETRY_DELAY k)" for k
    by (rule delays_bound) (simp add: INITIAL_RETRY_DELAY_def MAX_RETRY_DELAY_def)
  show "init_chain_source_client S config net = None \<longleftrightarrow> (\<forall>n. transient_at S config net n)"
  proof
    assume none: "init_chain_source_client S config net = None"
    show "\<forall>n. transient_at S config net n"
    proof (rule ccontr)
      assume "\<not> (\<forall>n. transient_at S config net n)"
      then obtain k where "\<not> transient_at S config net k" "\<forall>i<k. transient_at S config net i"
        using exists_least_iff [of "\<lambda>k. \<not> transient_at S config net k"] by blast
      then show False using run [of k] none by simp
    qed
  next
    assume all: "\<forall>n. transient_at S config net n"
    then have "init_source_loop S config net 0 INITIAL_RETRY_DELAY = None"
      using init_source_loop_ends [of S config net 0 INITIAL_RETRY_DELAY]
      by (cases "init_source_loop S config net 0 INITIAL_RETRY_DELAY") auto
    then show "init_chain_source_client S config net = None" using assms by (simp add: init_chain_source_client_def)
  qed
qed

subsection \<open>A concrete wallet\<close>

text \<open>The wallet owns the script \<open>[0x51]\<close>; a non-empty wallet has a transaction with an input of someone else.\<close>

definition demo_spend :: "bytes \<Rightarrow> tx_in" where
  "demo_spend txid = \<lparr>txi_previous_output = \<lparr>op_txid = txid, op_vout = 0\<rparr>, txi_script_sig = [],
     txi_sequence = 0, txi_witness = []\<rparr>"

definition demo_wallet_tx :: "bool \<Rightarrow> transaction" where
  "demo_wallet_tx shared = \<lparr>tx_version = 2, tx_lock_time = 0,
     tx_input = demo_spend [1] # (if shared then [demo_spend [2]] else []),
     tx_output = [sample_out (if shared then 9000 else 4000) [0x51], sample_out 5000 [0x52]]\<rparr>"

definition demo_bdk_tx :: "(nat set, transaction) bdk_tx" where
  "demo_bdk_tx = \<lparr>bw_transactions = (\<lambda>w. [([9], Confirmed 5 [8] 1000 None, demo_wallet_tx (w \<noteq> {}))]),
     bw_is_mine = (\<lambda>_ spk. spk = [0x51]), bw_unspent = (\<lambda>_. []),
     bw_finish = (\<lambda>_ w. (Some (demo_wallet_tx False), w)), bw_sign = (\<lambda>p _. Some (True, p)),
     bw_extract_tx = Some, bw_next_unused_address = (\<lambda>w. (''address'', w)),
     bw_confirmed_balance = (\<lambda>_. 4000), bw_total_balance = (\<lambda>_. 4000)\<rparr>"

definition demo_tx_node :: tx_node where
  "demo_tx_node = \<lparr>tn_get_raw_transaction = (\<lambda>txid. Some (if txid = [1] then ''a'' else ''b'')),
     tn_deserialize_hex = (\<lambda>s. Some \<lparr>tx_version = 2, tx_lock_time = 0, tx_input = [],
       tx_output = [sample_out 10000 (if s = ''a'' then [0x51] else [0x52])]\<rparr>),
     tn_serialize_hex = (\<lambda>_. ''00''), tn_send_raw = (\<lambda>_ _. Inr [7]), tn_op_return_script = (\<lambda>_. None),
     tn_now = 1700000000\<rparr>"

lemmas demo_list_defs =
  list_wallet_transactions_def demo_inner_def demo_bdk_tx_def demo_tx_node_def demo_wallet_tx_def demo_spend_def
  wallet_transaction_def output_step_def input_step_def account_def add_amount_def sub_amount_def
  checked_add_u64_def checked_sub_u64_def sort_by_def total_order_on_list_def compare_transactions_def cmp_def
  sample_out_def Let_def

lemma not_all_zeros: "[1] \<noteq> all_zeros" "[2] \<noteq> all_zeros"
  by (simp_all add: all_zeros_def numeral_eq_Suc)

lemma demo_list:
  "list_wallet_transactions demo_bdk_tx demo_tx_node (demo_inner D) =
     Inr [\<lparr>wt_txid = [9], wt_tx = demo_wallet_tx False, wt_chain_position = Confirmed 5 [8] 1000 None,
           wt_fee = 1000, wt_received = 0, wt_sent = 5000\<rparr>]"
  by (simp add: demo_list_defs not_all_zeros)

theorem listed_transactions_balance_witness:
  "\<exists>ts. list_wallet_transactions demo_bdk_tx demo_tx_node (demo_inner demo_state1) = Inr ts
     \<and> ts \<noteq> [] \<and> (\<forall>t\<in>set ts. books_ok demo_bdk_tx demo_tx_node {} t)"
  using listed_transactions_balance [OF demo_list [of demo_state1]] demo_list [of demo_state1]
  by (auto simp: demo_inner_def)

text \<open>A transaction whose fee is paid by another input too makes the whole list panic.\<close>

theorem shared_transaction_panics:
  "list_wallet_transactions demo_bdk_tx demo_tx_node ((demo_inner D)\<lparr>wi_bitcoin_wallet := Some {1}\<rparr>) = Inl AmountPanic"
  by (simp add: demo_list_defs not_all_zeros)

text \<open>The comparison of the list is not an order when the time of some transaction is not known.\<close>

theorem comparison_has_a_cycle:
  "\<exists>a b c. compare_transactions a b = Less \<and> compare_transactions b c = Less \<and> compare_transactions c a = Less"
proof -
  let ?t = "\<lambda>p txid. \<lparr>wt_txid = txid, wt_tx = demo_wallet_tx False, wt_chain_position = p, wt_fee = 0,
    wt_received = 0, wt_sent = 0\<rparr>"
  have "compare_transactions (?t (Confirmed 1 [] 1 None) [3]) (?t (Confirmed 2 [] 2 None) [1]) = Less"
    "compare_transactions (?t (Confirmed 2 [] 2 None) [1]) (?t (Unconfirmed None None) [2]) = Less"
    "compare_transactions (?t (Unconfirmed None None) [2]) (?t (Confirmed 1 [] 1 None) [3]) = Less"
    by (simp_all add: compare_transactions_def cmp_def)
  then show ?thesis by blast
qed

definition demo_send_params :: create_transaction_params where
  "demo_send_params = \<lparr>cp_fee_policy = None, cp_op_return_message = None, cp_required_utxos = [], cp_drain_wallet_to = None\<rparr>"


end
