(* ===== verification/Rpc_Status.thy ===== *)
theory Rpc_Status
  imports Signet_Mining Wallet_Tx
begin

text \<open>
  What the RPC services share: the status builder, the protocol errors and the hex fields of
  \<open>lib/proto.rs\<close>, the error chains of \<open>lib/errors.rs\<close>, and the status codes of the errors of
  the wallet and of the block producer (\<open>lib/wallet/error.rs\<close>, \<open>lib/block_producer/error.rs\<close>).
\<close>

section \<open>Error chains and statuses\<close>

text \<open>An error is its message and the messages of its sources, outermost first.\<close>

type_synonym std_error = "string \<times> string list"

definition error_chain_display :: "std_error \<Rightarrow> string" where
  "error_chain_display err = fst err @ concat (map (\<lambda>cause. '': '' @ cause) (snd err))"

datatype error_code =
  Unknown | InvalidArgument | DeadlineExceeded | NotFound | AlreadyExists | ResourceExhausted
| FailedPrecondition | Internal | Unavailable

datatype status_builder =
  StatusBuilder (sb_code: error_code) (sb_message: string) (sb_source: "(status_builder + std_error) option")

definition status_new :: "std_error \<Rightarrow> status_builder" where
  "status_new err = StatusBuilder Unknown (fst err)
     (case snd err of [] \<Rightarrow> None | source # causes \<Rightarrow> Some (Inr (source, causes)))"

definition set_code :: "error_code \<Rightarrow> status_builder \<Rightarrow> status_builder" where
  "set_code code b = StatusBuilder code (sb_message b) (sb_source b)"

definition set_message :: "string \<Rightarrow> status_builder \<Rightarrow> status_builder" where
  "set_message message b = StatusBuilder (sb_code b) message (sb_source b)"

definition set_source :: "status_builder \<Rightarrow> status_builder \<Rightarrow> status_builder" where
  "set_source source b = StatusBuilder (sb_code b) (sb_message b) (Some (Inl source))"

definition with_code :: "string \<Rightarrow> status_builder \<Rightarrow> status_builder" where
  "with_code err_msg source_builder = StatusBuilder (sb_code source_builder) err_msg (Some (Inl source_builder))"

text \<open>The message, with the sources when the alternate form is asked for.\<close>

fun status_message :: "bool \<Rightarrow> status_builder \<Rightarrow> string" where
  "status_message alternate (StatusBuilder code message None) = message"
| "status_message alternate (StatusBuilder code message (Some (Inl source))) =
     (if \<not> alternate then message else message @ '': '' @ status_message alternate source)"
| "status_message alternate (StatusBuilder code message (Some (Inr source))) =
     (if \<not> alternate then message else message @ '': '' @ error_chain_display source)"

definition to_connect_error :: "status_builder \<Rightarrow> error_code \<times> string" where
  "to_connect_error b = (sb_code b, status_message True b)"

text \<open>A status says everything that its error chain says, and inherits the code of its source.\<close>

lemma status_new_display: "to_connect_error (status_new err) = (Unknown, error_chain_display err)"
proof (cases err)
  case (Pair msg causes)
  then show ?thesis
    by (cases causes) (simp_all add: to_connect_error_def status_new_def error_chain_display_def)
qed

lemma with_code_display:
  "to_connect_error (with_code msg b) = (sb_code b, msg @ '': '' @ snd (to_connect_error b))"
  by (simp add: to_connect_error_def with_code_def)

lemma plain_message: "status_message False b = sb_message b"
  by (induction "False" b rule: status_message.induct) simp_all

section \<open>Protocol errors\<close>

datatype proto_error =
  InvalidEnumVariant string string string
| InvalidFieldValue string string string std_error
| InvalidRepeatedValue string string string
| MissingField string string
| UnknownEnumTag string string int

definition show_int :: "int \<Rightarrow> string" where
  "show_int i = (if i < 0 then ''-'' @ show_nat (nat (- i)) else show_nat (nat i))"

definition quoted :: "string \<Rightarrow> string" where "quoted s = ''`'' @ s @ ''`''"

text \<open>The arguments are the field, the message and the offending value; a missing field has none.\<close>

definition proto_error_display :: "proto_error \<Rightarrow> string" where
  "proto_error_display e =
     (case e of
        InvalidEnumVariant field_name message_name variant_name \<Rightarrow>
          ''Invalid enum variant in field '' @ quoted field_name @ '' of message '' @ quoted message_name
          @ '': '' @ quoted variant_name
      | InvalidFieldValue field_name message_name val source \<Rightarrow>
          ''Invalid field value in field '' @ quoted field_name @ '' of message '' @ quoted message_name
          @ '': '' @ quoted val
      | InvalidRepeatedValue field_name message_name val \<Rightarrow>
          ''Invalid value in repeated field '' @ quoted field_name @ '' of message '' @ quoted message_name
          @ '': '' @ quoted val
      | MissingField field_name message_name \<Rightarrow>
          ''Missing field in message '' @ quoted message_name @ '': '' @ quoted field_name
      | UnknownEnumTag field_name message_name tag \<Rightarrow>
          ''Unknown enum tag in field '' @ quoted field_name @ '' of message '' @ quoted message_name
          @ '': '' @ quoted (show_int tag))"

definition proto_error_chain :: "proto_error \<Rightarrow> std_error" where
  "proto_error_chain e =
     (proto_error_display e,
      case e of InvalidFieldValue _ _ _ source \<Rightarrow> fst source # snd source | _ \<Rightarrow> [])"

definition proto_status :: "proto_error \<Rightarrow> status_builder" where
  "proto_status e = set_code InvalidArgument (status_new (proto_error_chain e))"

lemma proto_status_display:
  "to_connect_error (proto_status e) = (InvalidArgument, error_chain_display (proto_error_chain e))"
proof -
  have "status_message True (proto_status e) = status_message True (status_new (proto_error_chain e))"
    by (cases "snd (proto_error_chain e)") (simp_all add: proto_status_def set_code_def status_new_def)
  then show ?thesis
    using status_new_display [of "proto_error_chain e"]
    by (simp add: to_connect_error_def proto_status_def set_code_def)
qed

section \<open>Hex fields\<close>

text \<open>
  The messages \<open>ConsensusHex\<close>, \<open>Hex\<close> and \<open>ReverseHex\<close> are their one field, an optional string. The
  decoders of the libraries are arguments: of hex strings, and of the consensus encoding of the
  type that is asked for, with the texts of their errors left empty.
\<close>

type_synonym hex_field = "string option"

definition consensus_hex_decode ::
  "(string \<Rightarrow> bytes option) \<Rightarrow> (bytes \<Rightarrow> 'a option) \<Rightarrow> string \<Rightarrow> string \<Rightarrow> hex_field \<Rightarrow> proto_error + 'a" where
  "consensus_hex_decode hex_decode deserialize message_name field_name field =
     bindE (ok_or field (MissingField ''hex'' ''cusf.common.v1.ConsensusHex'')) (\<lambda>hex.
     ok_or (Option.bind (hex_decode hex) deserialize) (InvalidFieldValue field_name message_name hex ([], [])))"

definition consensus_hex_encode :: "('a \<Rightarrow> bytes) \<Rightarrow> 'a \<Rightarrow> hex_field" where
  "consensus_hex_encode serialize x = Some (hex_encode (serialize x))"

definition hex_field_decode ::
  "(string \<Rightarrow> bytes option) \<Rightarrow> string \<Rightarrow> string \<Rightarrow> hex_field \<Rightarrow> proto_error + bytes" where
  "hex_field_decode hex_decode message_name field_name field =
     bindE (ok_or field (MissingField ''hex'' ''cusf.common.v1.Hex'')) (\<lambda>hex.
     ok_or (hex_decode hex) (InvalidFieldValue field_name message_name hex ([], [])))"

definition hex_field_encode :: "bytes \<Rightarrow> hex_field" where
  "hex_field_encode bs = Some (hex_encode bs)"

definition reverse_hex_decode ::
  "(string \<Rightarrow> bytes option) \<Rightarrow> (bytes \<Rightarrow> 'a option) \<Rightarrow> string \<Rightarrow> string \<Rightarrow> hex_field \<Rightarrow> proto_error + 'a" where
  "reverse_hex_decode hex_decode deserialize message_name field_name field =
     bindE (ok_or field (MissingField ''hex'' ''cusf.common.v1.ReverseHex'')) (\<lambda>hex.
     bindE (ok_or (hex_decode hex) (InvalidFieldValue field_name message_name hex ([], []))) (\<lambda>bytes.
     ok_or (deserialize (rev bytes)) (InvalidFieldValue field_name message_name hex ([], []))))"

definition reverse_hex_encode :: "('a \<Rightarrow> bytes) \<Rightarrow> 'a \<Rightarrow> hex_field" where
  "reverse_hex_encode serialize x = Some (hex_encode (rev (serialize x)))"

text \<open>A hex decoder that reads what the encoder writes; all three fields then read back.\<close>

definition hex_law :: "(string \<Rightarrow> bytes option) \<Rightarrow> bool" where
  "hex_law hex_decode \<longleftrightarrow> (\<forall>bs. hex_decode (hex_encode bs) = Some bs)"

lemma hex_fields_roundtrip:
  assumes "hex_law hex_decode"
  shows "hex_field_decode hex_decode msg f (hex_field_encode bs) = Inr bs"
    and "deserialize (serialize x) = Some x \<Longrightarrow>
      consensus_hex_decode hex_decode deserialize msg f (consensus_hex_encode serialize x) = Inr x"
    and "deserialize (serialize x) = Some x \<Longrightarrow>
      reverse_hex_decode hex_decode deserialize msg f (reverse_hex_encode serialize x) = Inr x"
  using assms
  by (simp_all add: hex_law_def hex_field_decode_def hex_field_encode_def consensus_hex_decode_def
      consensus_hex_encode_def reverse_hex_decode_def reverse_hex_encode_def)

text \<open>A field that does not decode names its message and field, or the missing \<open>hex\<close>.\<close>

lemma hex_fields_errors:
  "consensus_hex_decode dec de msg f None = Inl (MissingField ''hex'' ''cusf.common.v1.ConsensusHex'')"
  "hex_field_decode dec msg f None = Inl (MissingField ''hex'' ''cusf.common.v1.Hex'')"
  "reverse_hex_decode dec de msg f None = Inl (MissingField ''hex'' ''cusf.common.v1.ReverseHex'')"
  "consensus_hex_decode dec de msg f (Some s) = Inl e \<Longrightarrow> e = InvalidFieldValue f msg s ([], [])"
  "hex_field_decode dec msg f (Some s) = Inl e \<Longrightarrow> e = InvalidFieldValue f msg s ([], [])"
  "reverse_hex_decode dec de msg f (Some s) = Inl e \<Longrightarrow> e = InvalidFieldValue f msg s ([], [])"
  by (auto simp: consensus_hex_decode_def hex_field_decode_def reverse_hex_decode_def bindE_eq_Inl
      ok_or_eq_Inl split: option.splits)

end
