(* ===== verification/Rpc_Node.thy ===== *)
theory Rpc_Node
  imports Rpc_Status
begin

text \<open>
  The services that need no wallet: the validator's (\<open>lib/server/validator/grpc.rs\<close>), mining
  (\<open>lib/server/mining.rs\<close>) and the cryptographic helpers (\<open>lib/server/crypto.rs\<close>), with the
  conversions of their messages (\<open>lib/proto.rs\<close>). Message fields that are other messages are options.
\<close>

section \<open>Errors and codecs\<close>

text \<open>
  A connect error is built from a code and a text, from a protocol error, or from the status of an
  inner error. Texts leave out what a third-party error adds to them. A handler that panics has no
  status of its own.
\<close>

datatype 'e rpc_error = ConnectErr error_code string | ProtoErr proto_error | InnerErr error_code 'e | HandlerPanic

definition rpc_code :: "'e rpc_error \<Rightarrow> error_code option" where
  "rpc_code e =
     (case e of
        ConnectErr c _ \<Rightarrow> Some c | ProtoErr p \<Rightarrow> Some (sb_code (proto_status p)) | InnerErr c _ \<Rightarrow> Some c
      | HandlerPanic \<Rightarrow> None)"

lemma rpc_code_simps [simp]:
  "rpc_code (ConnectErr c s) = Some c" "rpc_code (ProtoErr p) = Some InvalidArgument"
  "rpc_code (InnerErr c e) = Some c" "rpc_code HandlerPanic = None"
  by (simp_all add: rpc_code_def proto_status_def set_code_def)

definition missing_field :: "string \<Rightarrow> string \<Rightarrow> 'e rpc_error" where
  "missing_field message_name field_name = ProtoErr (MissingField field_name message_name)"

definition invalid_field_value :: "string \<Rightarrow> string \<Rightarrow> string \<Rightarrow> std_error \<Rightarrow> 'e rpc_error" where
  "invalid_field_value message_name field_name val source = ProtoErr (InvalidFieldValue field_name message_name val source)"

definition internal_err :: "'e \<Rightarrow> 'e rpc_error" where
  "internal_err err = InnerErr Internal err"

text \<open>
  A field that must be set and is then decoded by \<open>dec\<close>; the consensus encoding of a byte array is
  its bytes, and \<open>de_hash\<close> decodes the hashes of blocks and transactions.
\<close>

definition required_field :: "string \<Rightarrow> string \<Rightarrow> (hex_field \<Rightarrow> proto_error + 'a) \<Rightarrow> hex_field option \<Rightarrow> 'e rpc_error + 'a" where
  "required_field message_name field_name dec field =
     bindE (ok_or field (missing_field message_name field_name)) (\<lambda>f. mapErr ProtoErr (dec f))"

definition array_decode :: "nat \<Rightarrow> bytes \<Rightarrow> bytes option" where
  "array_decode n bs = (if length bs = n then Some bs else None)"

record rpc_codec =
  rc_hex_decode :: "string \<Rightarrow> bytes option"
  rc_de_hash :: "bytes \<Rightarrow> bytes option"

abbreviation encode_hash :: "bytes \<Rightarrow> hex_field" where
  "encode_hash \<equiv> reverse_hex_encode (\<lambda>h. h)"

definition codec_laws :: "rpc_codec \<Rightarrow> bool" where
  "codec_laws C \<longleftrightarrow> hex_law (rc_hex_decode C) \<and> (\<forall>h. length h = 32 \<longrightarrow> rc_de_hash C h = Some h)"

section \<open>Messages\<close>

record proto_header_info =
  ph_block_hash :: hex_field
  ph_prev_block_hash :: hex_field
  ph_height :: u32
  ph_work :: hex_field
  ph_timestamp :: u64

definition header_info_to_proto :: "header_info \<Rightarrow> proto_header_info" where
  "header_info_to_proto info =
     \<lparr>ph_block_hash = encode_hash (hi_block_hash info), ph_prev_block_hash = encode_hash (hi_prev_block_hash info),
      ph_height = hi_height info, ph_work = consensus_hex_encode (le_bytes 32) (hi_work info),
      ph_timestamp = ucast (hi_timestamp info)\<rparr>"

text \<open>The message for a block has no fields of its own.\<close>

definition block_info_as_proto :: "block_info \<Rightarrow> unit" where
  "block_info_as_proto info = ()"

datatype proto_event = ProtoConnectBlock proto_header_info unit | ProtoDisconnectBlock hex_field

definition event_into_proto :: "event \<Rightarrow> proto_event" where
  "event_into_proto e =
     (case e of
        ConnectBlockEvent header_info block_info \<Rightarrow>
          ProtoConnectBlock (header_info_to_proto header_info) (block_info_as_proto block_info)
      | DisconnectBlockEvent block_hash \<Rightarrow> ProtoDisconnectBlock (encode_hash block_hash))"

datatype proto_network =
  NETWORK_UNSPECIFIED | NETWORK_UNKNOWN | NETWORK_MAINNET | NETWORK_REGTEST | NETWORK_SIGNET | NETWORK_TESTNET

definition network_to_proto :: "network \<Rightarrow> proto_network" where
  "network_to_proto net =
     (case net of
        Bitcoin \<Rightarrow> NETWORK_MAINNET | Regtest \<Rightarrow> NETWORK_REGTEST | Signet \<Rightarrow> NETWORK_SIGNET
      | Testnet \<Rightarrow> NETWORK_TESTNET | Testnet4 \<Rightarrow> NETWORK_TESTNET)"

section \<open>The validator service\<close>

record network_params =
  np_activation_height :: u32
  np_datadir_suffix :: "string option"

definition params_for_network :: "network \<Rightarrow> network_params" where
  "params_for_network net = \<lparr>np_activation_height = 0, np_datadir_suffix = None\<rparr>"

text \<open>The server: the validator with its network and parameters, and the token that \<open>Stop\<close> cancels.\<close>

record rpc_server =
  rs_validator :: validator
  rs_network :: network
  rs_network_params :: network_params
  rs_cancelled :: bool

definition get_block_header_info ::
  "rpc_codec \<Rightarrow> libs \<Rightarrow> rpc_server \<Rightarrow> hex_field option \<Rightarrow> u32 option
    \<Rightarrow> header_info_error rpc_error + proto_header_info list" where
  "get_block_header_info C L S block_hash max_ancestors =
     bindE (required_field ''cusf.mainchain.v1.GetBlockHeaderInfoRequest'' ''block_hash''
       (reverse_hex_decode (rc_hex_decode C) (rc_de_hash C)
         ''cusf.mainchain.v1.GetBlockHeaderInfoRequest'' ''block_hash'') block_hash) (\<lambda>h.
     bindE (mapErr internal_err (try_get_header_infos L (vd_dbs (rs_validator S)) h
       (unat (case max_ancestors of Some n \<Rightarrow> n | None \<Rightarrow> 0)))) (\<lambda>infos.
     Inr (case infos of Some is \<Rightarrow> map header_info_to_proto is | None \<Rightarrow> [])))"

definition rpc_get_block_info ::
  "rpc_codec \<Rightarrow> libs \<Rightarrow> rpc_server \<Rightarrow> hex_field option \<Rightarrow> u32 option
    \<Rightarrow> header_info_error rpc_error + (proto_header_info \<times> unit) list" where
  "rpc_get_block_info C L S block_hash max_ancestors =
     bindE (required_field ''cusf.mainchain.v1.GetBlockInfoRequest'' ''block_hash''
       (reverse_hex_decode (rc_hex_decode C) (rc_de_hash C)
         ''cusf.mainchain.v1.GetBlockInfoRequest'' ''block_hash'') block_hash) (\<lambda>h.
     bindE (mapErr internal_err (try_get_block_infos L (vd_dbs (rs_validator S)) h
       (unat (case max_ancestors of Some n \<Rightarrow> n | None \<Rightarrow> 0)))) (\<lambda>infos.
     Inr (case infos of
        None \<Rightarrow> []
      | Some is \<Rightarrow> map (\<lambda>(header_info, block_info).
          (header_info_to_proto header_info, block_info_as_proto block_info)) is)))"

definition get_chain_info :: "rpc_server \<Rightarrow> proto_network \<times> u32" where
  "get_chain_info S = (network_to_proto (rs_network S), np_activation_height (rs_network_params S))"

definition get_chain_tip :: "libs \<Rightarrow> rpc_server \<Rightarrow> header_info_error rpc_error + proto_header_info" where
  "get_chain_tip L S =
     (case try_get_mainchain_tip (vd_dbs (rs_validator S)) of
        None \<Rightarrow> Inl (ConnectErr Unavailable ''Validator is not synced'')
      | Some tip_block \<Rightarrow>
          bindE (mapErr internal_err (get_header_info L (vd_dbs (rs_validator S)) tip_block)) (\<lambda>info.
          Inr (header_info_to_proto info)))"

text \<open>A subscriber gets the events from its subscription on; \<open>seen\<close> is their number before it.\<close>

definition subscribe_events :: "rpc_server \<Rightarrow> nat \<Rightarrow> proto_event list" where
  "subscribe_events S seen = map event_into_proto (drop seen (vd_events_tx (rs_validator S)))"

definition subscribe_header_sync_progress :: "rpc_server \<Rightarrow> unit rpc_error + u32 option" where
  "subscribe_header_sync_progress S =
     ok_or (vd_header_sync_progress (rs_validator S)) (ConnectErr Unavailable ''No header sync in progress'')"

definition stop :: "(rpc_server, unit rpc_error, unit) st" where
  "stop = (\<lambda>S.
     if rs_cancelled S then (Inl (ConnectErr Unavailable ''Validator is already shutting down''), S)
     else (Inr (), S\<lparr>rs_cancelled := True\<rparr>))"

section \<open>The mining service\<close>

text \<open>Addresses of the bitcoin crate: parsing, the network check, the script, the text and the dust limit.\<close>

record 'a address_codec =
  ac_parse :: "string \<Rightarrow> 'a option"
  ac_on_network :: "'a \<Rightarrow> network \<Rightarrow> bool"
  ac_script :: "'a \<Rightarrow> bytes"
  ac_text :: "'a \<Rightarrow> string"
  ac_is_dust :: "u64 \<Rightarrow> bytes \<Rightarrow> bool"

text \<open>What a call of the producer meets: its libraries, the outside world and its state at that time.\<close>

record mining_env =
  me_mining :: mining_libs
  me_signet :: signet_env
  me_producer :: producer

datatype generate_to_address_error = GtaVerify verify_can_mine_error | GtaGenerate generate_error

definition JsonRpcUnavailable :: "bool \<Rightarrow> error_code" where
  "JsonRpcUnavailable transport = (if transport then Unavailable else Internal)"

text \<open>
  The codes of the producer's errors. A failed call of the node keeps no more than a text in the
  model, so the code that depends on the kind of its failure is the argument \<open>rpc\<close>.
\<close>

definition verify_can_mine_code :: "error_code \<Rightarrow> bool \<Rightarrow> verify_can_mine_error \<Rightarrow> error_code" where
  "verify_can_mine_code rpc transport e =
     (case e of
        VerifyRpc _ \<Rightarrow> rpc
      | VerifyGetBlockTemplate _ \<Rightarrow> JsonRpcUnavailable transport
      | MissingBinary _ which_failed \<Rightarrow> if which_failed then Internal else FailedPrecondition
      | MultipleBlocksOnSignet \<Rightarrow> InvalidArgument
      | VerifyNetwork _ \<Rightarrow> FailedPrecondition
      | NoBlockTemplateServerOnSignet \<Rightarrow> FailedPrecondition
      | SignetChallengeAddressMissing _ \<Rightarrow> FailedPrecondition
      | NoSignetChallengeFound \<Rightarrow> Unknown
      | ChallengeNotAnAddress \<Rightarrow> Unknown)"

definition await_connection_code :: "await_connection_error \<Rightarrow> error_code" where
  "await_connection_code e = (case e of AwaitTimeout _ \<Rightarrow> DeadlineExceeded | AwaitBlockInfos _ \<Rightarrow> Unknown)"

definition select_block_txs_code :: "bool \<Rightarrow> select_block_txs_error \<Rightarrow> error_code" where
  "select_block_txs_code transport e =
     (case e of
        GetBlockTemplate _ \<Rightarrow> JsonRpcUnavailable transport
      | DecodeTemplateTransaction _ \<Rightarrow> Internal
      | TemplateTipMismatch _ _ \<Rightarrow> FailedPrecondition)"

definition mine_code :: "error_code \<Rightarrow> mine_error \<Rightarrow> error_code" where
  "mine_code rpc e =
     (case e of
        AwaitConnection err \<Rightarrow> await_connection_code err
      | SubmitBlockRpc _ \<Rightarrow> rpc
      | FinalizeBlock _ \<Rightarrow> Unknown
      | BlockRejected _ \<Rightarrow> Unknown)"

definition generate_block_code :: "error_code \<Rightarrow> bool \<Rightarrow> generate_error \<Rightarrow> error_code" where
  "generate_block_code rpc transport e =
     (case e of
        GenerateSignetBlock (SignetAwait err) \<Rightarrow> await_connection_code err
      | GenerateSignetBlock (FetchMostRecentBlockHash _) \<Rightarrow> rpc
      | GenerateSignetBlock _ \<Rightarrow> Unknown
      | GenerateLocalBlock (MineFailed err) \<Rightarrow> mine_code rpc err
      | GenerateLocalBlock (SelectBlockTxs err) \<Rightarrow> select_block_txs_code transport err
      | GenerateLocalBlock ValidatorNotSynced \<Rightarrow> Unknown)"

text \<open>The loop over the blocks, each in its own environment; the first error ends it.\<close>

primrec generate_blocks ::
  "libs \<Rightarrow> signet_config \<Rightarrow> network \<Rightarrow> (nat \<Rightarrow> mining_env) \<Rightarrow> string \<times> bytes \<Rightarrow> nat \<Rightarrow> nat \<Rightarrow> miner_dir
    \<Rightarrow> ((generate_error + bytes list) \<times> miner_dir) option" where
  "generate_blocks L C net envs addr i 0 d = Some (Inr [], d)"
| "generate_blocks L C net envs addr i (Suc n) d =
     Option.bind (generate_block L (me_mining (envs i)) C (me_signet (envs i)) net (me_producer (envs i)) addr d) (\<lambda>(r, d').
       case r of
         Inl e \<Rightarrow> Some (Inl e, d')
       | Inr h \<Rightarrow> Option.bind (generate_blocks L C net envs addr (i + 1) n d') (\<lambda>(rs, d'').
           Some (bindE rs (\<lambda>hs. Inr (h # hs)), d'')))"

text \<open>\<open>busy\<close> says that another call holds the permit; the codes of failed node calls are arguments.\<close>

definition generate_to_address ::
  "'a address_codec \<Rightarrow> libs \<Rightarrow> signet_setup \<Rightarrow> signet_config \<Rightarrow> network \<Rightarrow> (nat \<Rightarrow> mining_env)
    \<Rightarrow> error_code \<Rightarrow> bool \<Rightarrow> bool \<Rightarrow> u32 option \<Rightarrow> string \<Rightarrow> miner_dir
    \<Rightarrow> ((generate_to_address_error rpc_error + hex_field list) \<times> miner_dir) option" where
  "generate_to_address A L G C net envs rpc transport busy blocks address d =
     (case bindE (guardE ((case blocks of Some n \<Rightarrow> n | None \<Rightarrow> 1) \<noteq> 0)
             (ConnectErr InvalidArgument ''must provide a positive number of blocks'')) (\<lambda>_.
           bindE (guardE (address \<noteq> []) (missing_field ''cusf.mainchain.v1.GenerateToAddressRequest'' ''address'')) (\<lambda>_.
           bindE (ok_or (ac_parse A address)
             (invalid_field_value ''cusf.mainchain.v1.GenerateToAddressRequest'' ''address'' address ([], []))) (\<lambda>a.
           bindE (guardE (ac_on_network A a net)
             (invalid_field_value ''cusf.mainchain.v1.GenerateToAddressRequest'' ''address'' address ([], []))) (\<lambda>_.
           bindE (guardE (\<not> busy) (ConnectErr ResourceExhausted ''block generation is already in progress'')) (\<lambda>_.
           bindE (mapErr (\<lambda>e. InnerErr (verify_can_mine_code rpc transport e) (GtaVerify e))
             (verify_can_mine (me_mining (envs 0)) G (me_producer (envs 0)) net
               (unat (case blocks of Some n \<Rightarrow> n | None \<Rightarrow> 1)))) (\<lambda>_.
           Inr a)))))) of
        Inl e \<Rightarrow> Some (Inl e, d)
      | Inr a \<Rightarrow>
          Option.bind (generate_blocks L C net envs (ac_text A a, ac_script A a) 0
            (unat (case blocks of Some n \<Rightarrow> n | None \<Rightarrow> 1)) d) (\<lambda>(r, d').
          Some (bindE (mapErr (\<lambda>e. InnerErr (generate_block_code rpc transport e) (GtaGenerate e)) r)
            (\<lambda>hs. Inr (map encode_hash hs)), d')))"

section \<open>The crypto service\<close>

text \<open>The hash functions and the curve; \<open>'k\<close>, \<open>'p\<close> and \<open>'s\<close> are secret keys, public keys and signatures.\<close>

record ('k, 'p, 's) crypto_libs =
  cl_ripemd160 :: "bytes \<Rightarrow> bytes"
  cl_hmac_sha512 :: "bytes \<Rightarrow> bytes \<Rightarrow> bytes"
  cl_sha256 :: "bytes \<Rightarrow> bytes"
  cl_secret_key :: "bytes \<Rightarrow> 'k option"
  cl_public_key :: "'k \<Rightarrow> 'p"
  cl_serialize_key :: "'p \<Rightarrow> bytes"
  cl_parse_key :: "bytes \<Rightarrow> 'p option"
  cl_sign :: "bytes \<Rightarrow> 'k \<Rightarrow> 's"
  cl_serialize_compact :: "'s \<Rightarrow> bytes"
  cl_from_compact :: "bytes \<Rightarrow> 's option"
  cl_verify :: "bytes \<Rightarrow> 's \<Rightarrow> 'p \<Rightarrow> bool"

definition SECP256K1_SECRET_KEY_LENGTH :: nat where "SECP256K1_SECRET_KEY_LENGTH = 32"
definition SECP256K1_PUBLIC_KEY_LENGTH :: nat where "SECP256K1_PUBLIC_KEY_LENGTH = 33"
definition SECP256K1_SIGNATURE_LENGTH :: nat where "SECP256K1_SIGNATURE_LENGTH = 64"

text \<open>A required \<open>Hex\<close> field, and a required \<open>ConsensusHex\<close> field that holds an array of bytes.\<close>

definition hex_bytes :: "rpc_codec \<Rightarrow> string \<Rightarrow> string \<Rightarrow> hex_field option \<Rightarrow> unit rpc_error + bytes" where
  "hex_bytes C message_name field_name =
     required_field message_name field_name (hex_field_decode (rc_hex_decode C) message_name field_name)"

definition hex_array :: "rpc_codec \<Rightarrow> nat \<Rightarrow> string \<Rightarrow> string \<Rightarrow> hex_field option \<Rightarrow> unit rpc_error + bytes" where
  "hex_array C n message_name field_name =
     required_field message_name field_name
       (consensus_hex_decode (rc_hex_decode C) (array_decode n) message_name field_name)"

definition ripemd160 :: "rpc_codec \<Rightarrow> ('k, 'p, 's) crypto_libs \<Rightarrow> hex_field option \<Rightarrow> unit rpc_error + hex_field" where
  "ripemd160 C X msg =
     bindE (hex_bytes C ''cusf.crypto.v1.Ripemd160Request'' ''msg'' msg) (\<lambda>m.
     Inr (hex_field_encode (cl_ripemd160 X m)))"

definition hmac_sha512 ::
  "rpc_codec \<Rightarrow> ('k, 'p, 's) crypto_libs \<Rightarrow> hex_field option \<Rightarrow> hex_field option \<Rightarrow> unit rpc_error + hex_field" where
  "hmac_sha512 C X key msg =
     bindE (hex_bytes C ''cusf.crypto.v1.HmacSha512Request'' ''key'' key) (\<lambda>k.
     bindE (hex_bytes C ''cusf.crypto.v1.HmacSha512Request'' ''msg'' msg) (\<lambda>m.
     Inr (hex_field_encode (cl_hmac_sha512 X k m))))"

definition secp256k1_secret_key_to_public_key ::
  "rpc_codec \<Rightarrow> ('k, 'p, 's) crypto_libs \<Rightarrow> hex_field option \<Rightarrow> unit rpc_error + hex_field" where
  "secp256k1_secret_key_to_public_key C X secret_key =
     bindE (hex_array C SECP256K1_SECRET_KEY_LENGTH ''cusf.crypto.v1.Secp256k1SecretKeyToPublicKeyRequest''
       ''secret_key'' secret_key) (\<lambda>sk.
     bindE (ok_or (cl_secret_key X sk) (invalid_field_value
       ''cusf.crypto.v1.Secp256k1SecretKeyToPublicKeyRequest'' ''secret_key'' [] ([], []))) (\<lambda>k.
     Inr (consensus_hex_encode (cl_serialize_key X) (cl_public_key X k))))"

definition secp256k1_sign ::
  "rpc_codec \<Rightarrow> ('k, 'p, 's) crypto_libs \<Rightarrow> hex_field option \<Rightarrow> hex_field option \<Rightarrow> unit rpc_error + hex_field" where
  "secp256k1_sign C X message secret_key =
     bindE (hex_bytes C ''cusf.crypto.v1.Secp256k1SignRequest'' ''message'' message) (\<lambda>m.
     bindE (hex_array C SECP256K1_SECRET_KEY_LENGTH ''cusf.crypto.v1.Secp256k1SignRequest''
       ''secret_key'' secret_key) (\<lambda>sk.
     bindE (ok_or (cl_secret_key X sk) (invalid_field_value
       ''cusf.crypto.v1.Secp256k1SignRequest'' ''secret_key'' [] ([], []))) (\<lambda>k.
     Inr (hex_field_encode (cl_serialize_compact X (cl_sign X (cl_sha256 X m) k))))))"

definition secp256k1_verify ::
  "rpc_codec \<Rightarrow> ('k, 'p, 's) crypto_libs \<Rightarrow> hex_field option \<Rightarrow> hex_field option \<Rightarrow> hex_field option
    \<Rightarrow> unit rpc_error + bool" where
  "secp256k1_verify C X message signature public_key =
     bindE (hex_bytes C ''cusf.crypto.v1.Secp256k1VerifyRequest'' ''message'' message) (\<lambda>m.
     bindE (hex_bytes C ''cusf.crypto.v1.Secp256k1VerifyRequest'' ''signature'' signature) (\<lambda>sig.
     bindE (guardE (length sig = SECP256K1_SIGNATURE_LENGTH) (invalid_field_value
       ''cusf.crypto.v1.Secp256k1VerifyRequest'' ''signature'' (show_nat (length sig))
       (''invalid signature length, must be '' @ show_nat SECP256K1_SIGNATURE_LENGTH, []))) (\<lambda>_.
     bindE (ok_or (cl_from_compact X sig) (invalid_field_value
       ''cusf.crypto.v1.Secp256k1VerifyRequest'' ''signature'' [] ([], []))) (\<lambda>s.
     bindE (hex_array C SECP256K1_PUBLIC_KEY_LENGTH ''cusf.crypto.v1.Secp256k1VerifyRequest''
       ''public_key'' public_key) (\<lambda>pk.
     bindE (ok_or (cl_parse_key X pk) (invalid_field_value
       ''cusf.crypto.v1.Secp256k1VerifyRequest'' ''public_key'' [] ([], []))) (\<lambda>p.
     Inr (cl_verify X (cl_sha256 X m) s p)))))))"

section \<open>What the validator service answers\<close>

lemma required_hash [simp]:
  assumes "codec_laws C" and "length h = 32"
  shows "required_field msg f (reverse_hex_decode (rc_hex_decode C) (rc_de_hash C) msg f) (Some (encode_hash h)) = Inr h"
  using assms hex_fields_roundtrip(3) [of "rc_hex_decode C" "rc_de_hash C" "\<lambda>h. h" h]
  by (simp add: required_field_def codec_laws_def)

lemma decode_hash_of_proto:
  assumes "codec_laws C" and "length (hi_block_hash info) = 32"
  shows "reverse_hex_decode (rc_hex_decode C) (rc_de_hash C) msg f (ph_block_hash (header_info_to_proto info))
    = Inr (hi_block_hash info)"
  using assms hex_fields_roundtrip(3) [of "rc_hex_decode C" "rc_de_hash C" "\<lambda>h. h" "hi_block_hash info"]
  by (simp add: codec_laws_def header_info_to_proto_def)

lemma header_infos_stored:
  assumes "stored_chain L D bs" and "i < length bs"
  shows "try_get_header_infos L D (block_hash_of L (bs ! i)) n =
    Inr (Some (map (block_header_info L D) (take (Suc n) (drop i bs))))"
proof -
  obtain rest where d: "drop i bs = bs ! i # rest" using assms(2) by (metis Cons_nth_drop_Suc)
  have stored: "stored_chain L D (bs ! i # rest)"
    using stored_chain_drop [OF assms(1), of i] by (simp only: d)
  then have "stored_chain L D rest" by (simp add: Let_def)
  from header_infos_loop_stored [OF this, of n] header_info_stored [OF stored] show ?thesis
    by (simp add: try_get_header_infos_def d)
qed

text \<open>
  C36: a client of the validator service reads the connected chain. In every reachable state, asking
  for a connected block and up to \<open>n\<close> ancestors, by either call, gives messages whose hashes decode
  to the block and its next predecessors, newest first, at most \<open>n + 1\<close> of them, and fewer only at
  genesis; the reported tip decodes to the tip of the chain; a request without the block hash is an
  invalid argument. Hashes have 32 bytes, and the hex and hash codecs read back what they wrote.
\<close>
theorem served_blocks_decode:
  assumes "codec_laws C" and "node_run L (vd_dbs (rs_validator S)) bs" and "i < length bs"
    and "\<forall>b\<in>set bs. length (block_hash_of L b) = 32"
  shows "(\<exists>infos headers. rpc_get_block_info C L S (Some (encode_hash (block_hash_of L (bs ! i)))) (Some n) = Inr infos
      \<and> get_block_header_info C L S (Some (encode_hash (block_hash_of L (bs ! i)))) (Some n) = Inr headers
      \<and> headers = map fst infos
      \<and> map (\<lambda>m. reverse_hex_decode (rc_hex_decode C) (rc_de_hash C) msg f (ph_block_hash m)) headers
          = map (\<lambda>b. Inr (block_hash_of L b)) (take (Suc (unat n)) (drop i bs)))
    \<and> (\<exists>t. get_chain_tip L S = Inr t
        \<and> reverse_hex_decode (rc_hex_decode C) (rc_de_hash C) msg f (ph_block_hash t) = Inr (block_hash_of L (hd bs)))
    \<and> (\<exists>e. rpc_get_block_info C L S None (Some n) = Inl e \<and> rpc_code e = Some InvalidArgument)"
proof (intro conjI)
  let ?D = "vd_dbs (rs_validator S)"
  have tracks: "tracks L ?D bs" using node_run_inv [OF assms(2)] by blast
  then have stored: "stored_chain L ?D bs" and tip: "db_tip ?D = Some (block_hash_of L (hd bs))"
    using assms(3) by (auto simp: tracks_def split: list.splits)
  let ?bs = "take (Suc (unat n)) (drop i bs)"
  have len: "length (block_hash_of L (bs ! i)) = 32" using assms(3,4) by simp
  have infos: "try_get_block_infos L ?D (block_hash_of L (bs ! i)) (unat n)
      = Inr (Some (map (\<lambda>b. (block_header_info L ?D b, block_coinbase_info L b)) ?bs))"
    using block_infos_stored [OF stored coinbases_ok_run [OF assms(2)] assms(3)] .
  then have heads: "try_get_header_infos L ?D (block_hash_of L (bs ! i)) (unat n)
      = Inr (Some (map (block_header_info L ?D) ?bs))"
    using header_infos_stored [OF stored assms(3)] by simp
  have "reverse_hex_decode (rc_hex_decode C) (rc_de_hash C) msg f
      (ph_block_hash (header_info_to_proto (block_header_info L ?D b))) = Inr (block_hash_of L b)" if "b \<in> set bs" for b
    using decode_hash_of_proto [OF assms(1), of "block_header_info L ?D b"] assms(4) that
    by (simp add: block_header_info_def)
  moreover have "set ?bs \<subseteq> set bs" by (meson set_drop_subset set_take_subset subset_trans)
  ultimately have decode: "map (\<lambda>b. reverse_hex_decode (rc_hex_decode C) (rc_de_hash C) msg f
      (ph_block_hash (header_info_to_proto (block_header_info L ?D b)))) ?bs = map (\<lambda>b. Inr (block_hash_of L b)) ?bs"
    by (intro map_cong) auto
  show "\<exists>infos headers. rpc_get_block_info C L S (Some (encode_hash (block_hash_of L (bs ! i)))) (Some n) = Inr infos
      \<and> get_block_header_info C L S (Some (encode_hash (block_hash_of L (bs ! i)))) (Some n) = Inr headers
      \<and> headers = map fst infos
      \<and> map (\<lambda>m. reverse_hex_decode (rc_hex_decode C) (rc_de_hash C) msg f (ph_block_hash m)) headers
          = map (\<lambda>b. Inr (block_hash_of L b)) ?bs"
    using decode by (simp add: rpc_get_block_info_def get_block_header_info_def required_hash [OF assms(1) len] infos heads o_def)
  have "try_get_header_info L ?D (block_hash_of L (hd bs)) = Inr (Some (block_header_info L ?D (hd bs)))"
    using header_info_stored(1) [of L ?D "hd bs" "tl bs"] stored assms(3) by (cases bs) simp_all
  then show "\<exists>t. get_chain_tip L S = Inr t
        \<and> reverse_hex_decode (rc_hex_decode C) (rc_de_hash C) msg f (ph_block_hash t) = Inr (block_hash_of L (hd bs))"
    using decode_hash_of_proto [OF assms(1), of "block_header_info L ?D (hd bs)"] assms(3,4) tip
    by (cases bs) (auto simp: get_chain_tip_def try_get_mainchain_tip_def get_header_info_def block_header_info_def)
  show "\<exists>e. rpc_get_block_info C L S None (Some n) = Inl e \<and> rpc_code e = Some InvalidArgument"
    by (simp add: rpc_get_block_info_def required_field_def missing_field_def)
qed

text \<open>
  The activation height that is reported is the one of the network's parameters, which is always 0,
  whatever height the validator was configured with and enforces from.
\<close>
theorem chain_info_ignores_setting:
  assumes "rs_network_params S = params_for_network net"
  shows "snd (get_chain_info S) = 0
    \<and> bh_activation_height (handler_of (rs_validator S) extra) = vd_activation_height (rs_validator S)"
  using assms by (simp add: get_chain_info_def params_for_network_def handler_of_def)

text \<open>A second \<open>Stop\<close> is an error, although the service declares the call idempotent.\<close>

theorem stop_twice:
  assumes "stop S = (Inr (), S')"
  shows "rs_cancelled S' \<and> stop S' = (Inl (ConnectErr Unavailable ''Validator is already shutting down''), S')"
  using assms by (auto simp: stop_def split: if_splits)

section \<open>What the mining service returns\<close>

abbreviation env_dbs :: "mining_env \<Rightarrow> dbs" where
  "env_dbs e \<equiv> vd_dbs (bp_validator (me_producer e))"

lemma generate_blocks_ok:
  "generate_blocks L C net envs addr i n d = Some (Inr hs, d') \<Longrightarrow> length hs = n
    \<and> (\<forall>k<n. \<exists>dk dk'. generate_block L (me_mining (envs (i + k))) C (me_signet (envs (i + k))) net
         (me_producer (envs (i + k))) addr dk = Some (Inr (hs ! k), dk'))"
proof (induction n arbitrary: i d hs d')
  case (Suc n)
  from Suc.prems obtain r d1 where gb: "generate_block L (me_mining (envs i)) C (me_signet (envs i)) net
        (me_producer (envs i)) addr d = Some (r, d1)"
    by (auto simp: bind_eq_Some_conv)
  with Suc.prems obtain h where r: "r = Inr h" by (cases r) auto
  with Suc.prems gb obtain hs1 where rest: "generate_blocks L C net envs addr (i + 1) n d1 = Some (Inr hs1, d')"
      and hs: "hs = h # hs1"
    by (auto simp: bind_eq_Some_conv)
  note first = gb [unfolded r]
  note IH = Suc.IH [OF rest]
  have "\<exists>dk dk'. generate_block L (me_mining (envs (i + k))) C (me_signet (envs (i + k))) net
      (me_producer (envs (i + k))) addr dk = Some (Inr (hs ! k), dk')" if "k < Suc n" for k
  proof (cases k)
    case 0
    then show ?thesis using first hs by auto
  next
    case (Suc j)
    then have "j < n" using that by simp
    then obtain dk dk' where "generate_block L (me_mining (envs (i + 1 + j))) C (me_signet (envs (i + 1 + j))) net
      (me_producer (envs (i + 1 + j))) addr dk = Some (Inr (hs1 ! j), dk')" using IH by blast
    then show ?thesis using Suc hs by auto
  qed
  then show ?case using IH hs by simp
qed simp

text \<open>
  C35: generating to an address gives a chain. When the call succeeds, nobody else held the permit, the
  address is one of the network, and the answer has one hash for each requested block (one if no
  number was given), in the order of mining; every block is stored by the validator before the next
  one is started; on signet it is a single block; on every other network the network is regtest,
  each block extends the tip of its time, and if the validator's tip is then the block before, the
  block has it as its parent.
\<close>
theorem generate_to_address_chain:
  assumes "generate_to_address A L G C net envs rpc transport busy blocks address d = Some (Inr answer, d')"
  shows "\<not> busy \<and> (\<exists>a hs. ac_parse A address = Some a \<and> ac_on_network A a net \<and> answer = map encode_hash hs
    \<and> length hs = unat (case blocks of Some n \<Rightarrow> n | None \<Rightarrow> 1) \<and> hs \<noteq> []
    \<and> (\<forall>k<length hs. \<exists>D\<in>set (ml_polls (me_mining (envs k))). \<exists>infos. try_get_block_infos L D (hs ! k) 0 = Inr (Some infos))
    \<and> (net = Signet \<longrightarrow> length hs = 1)
    \<and> (net \<noteq> Signet \<longrightarrow> net = Regtest \<and> (\<forall>k<length hs. \<exists>blk. hs ! k = header_block_hash L (blk_header blk)
         \<and> check_parent blk (env_dbs (envs k)) = Inr ()
         \<and> (0 < k \<and> db_tip (env_dbs (envs k)) = Some (hs ! (k - 1))
              \<longrightarrow> hdr_prev_blockhash (blk_header blk) = hs ! (k - 1)))))"
proof -
  let ?n = "unat (case blocks of Some n \<Rightarrow> n | None \<Rightarrow> 1)"
  from assms obtain a hs where a: "\<not> busy" "ac_parse A address = Some a" "ac_on_network A a net"
      and n: "(case blocks of Some n \<Rightarrow> n | None \<Rightarrow> 1) \<noteq> 0"
      and can: "verify_can_mine (me_mining (envs 0)) G (me_producer (envs 0)) net ?n = Inr ()"
      and run: "generate_blocks L C net envs (ac_text A a, ac_script A a) 0 ?n d = Some (Inr hs, d')"
      and answer: "answer = map encode_hash hs"
    by (auto simp: generate_to_address_def bind_eq_Some_conv split: sum.splits prod.splits)
  note ok = generate_blocks_ok [OF run]
  have nets: "net = Regtest \<or> net = Signet \<and> ?n \<le> 1"
    using can by (cases net) (auto simp: verify_can_mine_def)
  have pos: "?n \<noteq> 0" using n by (simp add: unat_eq_0)
  have stored: "\<exists>D\<in>set (ml_polls (me_mining (envs k))). \<exists>infos. try_get_block_infos L D (hs ! k) 0 = Inr (Some infos)"
    if k: "k < length hs" for k
  proof -
    obtain dk dk' where "generate_block L (me_mining (envs (0 + k))) C (me_signet (envs (0 + k))) net
      (me_producer (envs (0 + k))) (ac_text A a, ac_script A a) dk = Some (Inr (hs ! k), dk')"
      using ok k by metis
    from generate_block_stored [OF this] show ?thesis by simp
  qed
  have local: "\<exists>blk. hs ! k = header_block_hash L (blk_header blk) \<and> check_parent blk (env_dbs (envs k)) = Inr ()
      \<and> (0 < k \<and> db_tip (env_dbs (envs k)) = Some (hs ! (k - 1)) \<longrightarrow> hdr_prev_blockhash (blk_header blk) = hs ! (k - 1))"
    if k: "k < length hs" and signet: "net \<noteq> Signet" for k
  proof -
    obtain dk dk' where "generate_block L (me_mining (envs (0 + k))) C (me_signet (envs (0 + k))) net
      (me_producer (envs (0 + k))) (ac_text A a, ac_script A a) dk = Some (Inr (hs ! k), dk')"
      using ok k by metis
    from generate_block_local [OF this signet] obtain blk txs
      where blk: "hs ! k = header_block_hash L (blk_header blk)"
        "mine L (me_mining (envs k)) (env_dbs (envs k)) (ac_script A a) [] txs = Some (Inr blk)"
      unfolding add_0 snd_conv by metis
    from mined_block_facts(1) [OF blk(2)] have "check_parent blk (env_dbs (envs k)) = Inr ()" .
    with blk(1) show ?thesis by (intro exI [of _ blk]) (auto simp: check_parent_def Let_def)
  qed
  have len: "length hs = ?n" using ok by blast
  have one: "net = Signet \<longrightarrow> length hs = 1" using nets pos unfolding len by auto
  have local_all: "net \<noteq> Signet \<longrightarrow> net = Regtest \<and> (\<forall>k<length hs. \<exists>blk. hs ! k = header_block_hash L (blk_header blk)
         \<and> check_parent blk (env_dbs (envs k)) = Inr ()
         \<and> (0 < k \<and> db_tip (env_dbs (envs k)) = Some (hs ! (k - 1))
              \<longrightarrow> hdr_prev_blockhash (blk_header blk) = hs ! (k - 1)))"
    using local nets by blast
  have "hs \<noteq> []" using len pos by auto
  with a answer len stored one local_all show ?thesis by blast
qed

section \<open>What the crypto service computes\<close>

text \<open>
  What is signed verifies. For a secret key that the signing call accepts, the key call gives a
  public key, and the verification call answers that the signature of a message is valid for this
  message and this key. The curve is assumed to verify its own signatures and to read back
  what it serialises, in 64 and 33 bytes.
\<close>
theorem signed_message_verifies:
  assumes "hex_law (rc_hex_decode C)"
    and "\<And>m k. cl_verify X m (cl_sign X m k) (cl_public_key X k)"
    and "\<And>s. cl_from_compact X (cl_serialize_compact X s) = Some s \<and> length (cl_serialize_compact X s) = 64"
    and "\<And>p. cl_parse_key X (cl_serialize_key X p) = Some p \<and> length (cl_serialize_key X p) = 33"
    and "secp256k1_sign C X message secret_key = Inr signature"
  shows "\<exists>public_key. secp256k1_secret_key_to_public_key C X secret_key = Inr public_key
    \<and> secp256k1_verify C X message (Some signature) (Some public_key) = Inr True"
proof -
  obtain m sk k where m: "hex_bytes C ''cusf.crypto.v1.Secp256k1SignRequest'' ''message'' message = Inr m"
    and sk: "hex_array C 32 ''cusf.crypto.v1.Secp256k1SignRequest'' ''secret_key'' secret_key = Inr sk"
    and k: "cl_secret_key X sk = Some k"
    and sig: "signature = hex_field_encode (cl_serialize_compact X (cl_sign X (cl_sha256 X m) k))"
    using assms(5) by (auto simp: secp256k1_sign_def SECP256K1_SECRET_KEY_LENGTH_def)
  have other: "hex_array C 32 msg f secret_key = Inr sk" for msg f
    using sk by (auto simp: hex_array_def required_field_def consensus_hex_decode_def)
  have message: "hex_bytes C msg f message = Inr m" for msg f
    using m by (auto simp: hex_bytes_def required_field_def hex_field_decode_def)
  have "hex_bytes C msg f (Some signature) = Inr (cl_serialize_compact X (cl_sign X (cl_sha256 X m) k))" for msg f
    using assms(1) by (simp add: hex_bytes_def required_field_def sig hex_fields_roundtrip(1))
  moreover have "hex_array C 33 msg f (Some (consensus_hex_encode (cl_serialize_key X) p)) = Inr (cl_serialize_key X p)" for msg f p
    using assms(1,4) by (simp add: hex_array_def required_field_def consensus_hex_encode_def consensus_hex_decode_def
        hex_law_def array_decode_def)
  ultimately show ?thesis
    using k other message assms(2,3,4)
    by (simp add: secp256k1_secret_key_to_public_key_def secp256k1_verify_def SECP256K1_SECRET_KEY_LENGTH_def
        SECP256K1_PUBLIC_KEY_LENGTH_def SECP256K1_SIGNATURE_LENGTH_def)
qed

text \<open>
  The text of a rejected secret key of the wrong length holds the key, although the calls leave the
  value of other bad keys empty.
\<close>
theorem bad_secret_key_is_echoed:
  assumes "hex_law (rc_hex_decode C)" and "length sk \<noteq> 32"
  shows "\<exists>e pre suf. secp256k1_secret_key_to_public_key C X (Some (Some (hex_encode sk))) = Inl (ProtoErr e)
    \<and> snd (to_connect_error (proto_status e)) = pre @ hex_encode sk @ suf"
proof -
  let ?e = "InvalidFieldValue ''secret_key'' ''cusf.crypto.v1.Secp256k1SecretKeyToPublicKeyRequest'' (hex_encode sk) ([], [])"
  have "secp256k1_secret_key_to_public_key C X (Some (Some (hex_encode sk))) = Inl (ProtoErr ?e)"
    using assms by (simp add: secp256k1_secret_key_to_public_key_def hex_array_def required_field_def
        consensus_hex_decode_def hex_law_def array_decode_def SECP256K1_SECRET_KEY_LENGTH_def)
  moreover have "snd (to_connect_error (proto_status ?e)) =
      (''Invalid field value in field '' @ quoted ''secret_key'' @ '' of message ''
        @ quoted ''cusf.crypto.v1.Secp256k1SecretKeyToPublicKeyRequest'' @ '': `'') @ hex_encode sk @ ''`: ''"
    by (simp add: proto_status_display error_chain_display_def proto_error_chain_def proto_error_display_def quoted_def)
  ultimately show ?thesis by blast
qed

subsection \<open>A concrete server\<close>

definition hex_val :: "char \<Rightarrow> nat" where
  "hex_val c = (if of_char c \<ge> (97 :: nat) then of_char c - 87 else of_char c - 48)"

fun demo_hex_decode :: "string \<Rightarrow> bytes option" where
  "demo_hex_decode [] = Some []"
| "demo_hex_decode [c] = None"
| "demo_hex_decode (a # b # rest) =
     map_option (\<lambda>bs. word_of_nat (16 * hex_val a + hex_val b) # bs) (demo_hex_decode rest)"

lemma hex_val_digit: "n < 16 \<Longrightarrow> hex_val (hex_digit n) = n"
  by (simp add: hex_val_def hex_digit_def)

lemma demo_hex_law: "hex_law demo_hex_decode"
proof -
  have "demo_hex_decode (hex_encode bs) = Some bs" for bs
  proof (induction bs)
    case (Cons b bs)
    have "unat b div 16 < 16" "unat b mod 16 < 16" using unsigned_less [of b, where 'a = nat] by simp_all
    then have "word_of_nat (16 * hex_val (hex_digit (unat b div 16)) + hex_val (hex_digit (unat b mod 16))) = b"
      by (simp add: hex_val_digit)
    then show ?case using Cons.IH by (simp add: hex_encode_def)
  qed (simp add: hex_encode_def)
  then show ?thesis by (simp add: hex_law_def)
qed

definition demo_codec :: rpc_codec where
  "demo_codec = \<lparr>rc_hex_decode = demo_hex_decode, rc_de_hash = array_decode 32\<rparr>"

lemma demo_codec_laws: "codec_laws demo_codec"
  by (simp add: codec_laws_def demo_codec_def demo_hex_law array_decode_def)

definition demo_server :: rpc_server where
  "demo_server = \<lparr>rs_validator = demo_validator\<lparr>vd_dbs := demo_state1\<rparr>, rs_network = Regtest,
     rs_network_params = params_for_network Regtest, rs_cancelled = False\<rparr>"

theorem served_blocks_decode_witness:
  "\<exists>t. get_chain_tip sample_libs demo_server = Inr t
    \<and> reverse_hex_decode demo_hex_decode (array_decode 32) [] [] (ph_block_hash t) = Inr (2 # replicate 31 0)"
proof -
  have hash: "block_hash_of sample_libs genesis = 2 # replicate 31 0" by (rule demo_hashes(1))
  have run: "node_run sample_libs (vd_dbs (rs_validator demo_server)) [genesis]"
    using demo_state1(2) by (simp add: demo_server_def)
  have len: "\<forall>b\<in>set [genesis]. length (block_hash_of sample_libs b) = 32" by (simp add: hash)
  from served_blocks_decode [OF demo_codec_laws run _ len, of 0] show ?thesis
    unfolding list.sel hash by (simp add: demo_codec_def)
qed

text \<open>A mining call for one block on signet.\<close>

definition demo_mining_env :: mining_env where
  "demo_mining_env = \<lparr>me_mining = demo_mining\<lparr>ml_polls := demo_polls (blk_header genesis),
       ml_get_block_template := (\<lambda>_. Some \<lparr>bt_prev_blockhash = [], bt_transactions = [], bt_signet_challenge = Some [0x51]\<rparr>)\<rparr>,
     me_signet = signet_demo_env (blk_header genesis), me_producer = signet_demo_producer\<rparr>"

definition demo_setup :: signet_setup where
  "demo_setup = \<lparr>sg_template_server = True, sg_address_from_script = (\<lambda>_. Some ''tb1q''), sg_is_mine = (\<lambda>_. Inr True),
     sg_which = (\<lambda>_. Some True), sg_bitcoin_cli_path = ''bitcoin-cli'', sg_bitcoin_util_path = ''bitcoin-util''\<rparr>"

definition demo_addresses :: "string address_codec" where
  "demo_addresses = \<lparr>ac_parse = Some, ac_on_network = (\<lambda>_ _. True), ac_script = (\<lambda>_. [0x51]), ac_text = (\<lambda>a. a),
     ac_is_dust = (\<lambda>v _. v < 330)\<rparr>"

theorem generate_to_address_chain_witness:
  "\<exists>d answer. generate_to_address demo_addresses sample_libs demo_setup signet_demo_config Signet (\<lambda>_. demo_mining_env)
      Unknown False False None ''tb1q'' \<lparr>md_exists = False, md_has_script = False\<rparr> = Some (Inr answer, d)
    \<and> length answer = 1"
proof -
  have polls: "ml_polls (me_mining demo_mining_env) = demo_polls (blk_header genesis)"
    by (simp add: demo_mining_env_def)
  note gen = signet_demo_run [OF polls]
  have can: "verify_can_mine (me_mining demo_mining_env) demo_setup (me_producer demo_mining_env) Signet 1 = Inr ()"
    by (simp add: verify_can_mine_def demo_mining_env_def demo_setup_def check_has_binary_def)
  have env: "me_signet demo_mining_env = signet_demo_env (blk_header genesis)"
    "me_producer demo_mining_env = signet_demo_producer"
    by (simp_all add: demo_mining_env_def)
  obtain d answer where run: "generate_to_address demo_addresses sample_libs demo_setup signet_demo_config Signet
      (\<lambda>_. demo_mining_env) Unknown False False None ''tb1q'' \<lparr>md_exists = False, md_has_script = False\<rparr>
      = Some (Inr answer, d)"
    using can gen env by (simp add: generate_to_address_def demo_addresses_def)
  show ?thesis using generate_to_address_chain [OF run] run by auto
qed

text \<open>A curve whose signatures and keys are one byte.\<close>

definition demo_crypto :: "(u8, u8, u8) crypto_libs" where
  "demo_crypto = \<lparr>cl_ripemd160 = (\<lambda>m. take 20 m), cl_hmac_sha512 = (\<lambda>k m. k @ m), cl_sha256 = (\<lambda>m. m),
     cl_secret_key = (\<lambda>sk. Some (hd sk)), cl_public_key = (\<lambda>k. k), cl_serialize_key = (\<lambda>p. p # replicate 32 0),
     cl_parse_key = (\<lambda>bs. Some (hd bs)), cl_sign = (\<lambda>_ k. k), cl_serialize_compact = (\<lambda>s. s # replicate 63 0),
     cl_from_compact = (\<lambda>bs. Some (hd bs)), cl_verify = (\<lambda>_ s p. s = p)\<rparr>"

theorem signed_message_verifies_witness:
  "\<exists>sig pk. secp256k1_sign demo_codec demo_crypto (Some (hex_field_encode [1, 2]))
      (Some (consensus_hex_encode (\<lambda>bs. bs) (replicate 32 7))) = Inr sig
    \<and> secp256k1_verify demo_codec demo_crypto (Some (hex_field_encode [1, 2])) (Some sig) (Some pk) = Inr True"
proof -
  let ?sk = "Some (consensus_hex_encode (\<lambda>bs. bs) (replicate 32 7))"
  have law: "hex_law (rc_hex_decode demo_codec)" by (simp add: demo_codec_def demo_hex_law)
  obtain sig where sig: "secp256k1_sign demo_codec demo_crypto (Some (hex_field_encode [1, 2])) ?sk = Inr sig"
    using law
    by (simp add: secp256k1_sign_def hex_bytes_def hex_array_def required_field_def hex_fields_roundtrip(1)
        consensus_hex_decode_def consensus_hex_encode_def hex_law_def array_decode_def hex_field_encode_def
        hex_field_decode_def SECP256K1_SECRET_KEY_LENGTH_def demo_crypto_def del: replicate.simps)
  have laws: "\<And>m k. cl_verify demo_crypto m (cl_sign demo_crypto m k) (cl_public_key demo_crypto k)"
    "\<And>s. cl_from_compact demo_crypto (cl_serialize_compact demo_crypto s) = Some s
        \<and> length (cl_serialize_compact demo_crypto s) = 64"
    "\<And>p. cl_parse_key demo_crypto (cl_serialize_key demo_crypto p) = Some p
        \<and> length (cl_serialize_key demo_crypto p) = 33"
    by (simp_all add: demo_crypto_def)
  from signed_message_verifies [OF law laws sig] sig show ?thesis by blast
qed

end
