(* ===== verification/Rpc_Wallet.thy ===== *)
theory Rpc_Wallet
  imports Rpc_Node
begin

text \<open>
  The wallet service (\<open>lib/server/wallet/grpc.rs\<close>): its requests are checked and decoded, passed to the
  wallet's operations, and their results encoded; with the conversions of \<open>lib/proto.rs\<close>.
\<close>

section \<open>Schemes\<close>

datatype proto_p2mr_scheme =
  P2MR_SCHEME_UNSPECIFIED | P2MR_SCHEME_SCHNORR | P2MR_SCHEME_MLDSA | P2MR_SCHEME_SLH | P2MR_SCHEME_HYBRID_EC_SLH

text \<open>An enum value on the wire; \<open>None\<close> is a number that names no variant.\<close>

definition map_scheme :: "string \<Rightarrow> proto_p2mr_scheme option \<Rightarrow> 'e rpc_error + p2mr_scheme" where
  "map_scheme message_name scheme =
     (case scheme of
        Some P2MR_SCHEME_SCHNORR \<Rightarrow> Inr SchemeSchnorr
      | Some P2MR_SCHEME_MLDSA \<Rightarrow> Inr SchemeMldsa
      | Some P2MR_SCHEME_SLH \<Rightarrow> Inr SchemeSlh
      | Some P2MR_SCHEME_HYBRID_EC_SLH \<Rightarrow> Inr HybridEcSlh
      | _ \<Rightarrow> Inl (invalid_field_value message_name ''scheme'' ''unspecified'' (''P2MR scheme must be specified'', [])))"

definition store_scheme_to_proto :: "p2mr_scheme \<Rightarrow> proto_p2mr_scheme" where
  "store_scheme_to_proto scheme =
     (case scheme of
        SchemeSchnorr \<Rightarrow> P2MR_SCHEME_SCHNORR | SchemeMldsa \<Rightarrow> P2MR_SCHEME_MLDSA
      | SchemeSlh \<Rightarrow> P2MR_SCHEME_SLH | HybridEcSlh \<Rightarrow> P2MR_SCHEME_HYBRID_EC_SLH)"

lemma scheme_roundtrip:
  "map_scheme m (Some (store_scheme_to_proto s)) = Inr s"
  "map_scheme m p = Inr s \<longleftrightarrow> p = Some (store_scheme_to_proto s)"
  by (cases s; simp add: map_scheme_def store_scheme_to_proto_def)
    (cases s; auto simp: map_scheme_def store_scheme_to_proto_def split: option.splits proto_p2mr_scheme.splits)

section \<open>Status codes\<close>

text \<open>\<open>NotUnlocked\<close>, and errors that only name a third-party failure, have no code of their own.\<close>

definition wallet_initialization_code :: "wallet_initialization \<Rightarrow> error_code" where
  "wallet_initialization_code e =
     (case e of
        InvalidPassword \<Rightarrow> InvalidArgument
      | WalletNotFound \<Rightarrow> NotFound
      | WalletAlreadyExists \<Rightarrow> AlreadyExists
      | AlreadyUnlocked \<Rightarrow> AlreadyExists)"

definition init_wallet_code :: "init_wallet_error \<Rightarrow> error_code" where
  "init_wallet_code e =
     (case e of
        InitDataMismatch \<Rightarrow> sb_code (with_code ''wallet data mismatch (wipe your data directory and try again)''
          (status_new (''enforcer wallet data mismatch, data directory content does not line up with wallet descriptor'', [])))
      | CreateBdkWallet \<Rightarrow> Unknown | DeriveXpriv \<Rightarrow> Unknown | LoadBdkWallet \<Rightarrow> Unknown | MnemonicKey \<Rightarrow> Unknown)"

definition unlock_code :: "unlock_error \<Rightarrow> error_code" where
  "unlock_code e =
     (case e of
        UnlockInit err \<Rightarrow> init_wallet_code err
      | NotEncrypted \<Rightarrow> Unknown
      | UnlockReadSeed _ \<Rightarrow> Unknown
      | UnlockWalletInitialization err \<Rightarrow> wallet_initialization_code err)"

text \<open>The node's error, whose code is \<open>rpc\<close>, is only met when the birthday is asked for.\<close>

definition create_wallet_code :: "error_code \<Rightarrow> create_new_wallet_error \<Rightarrow> error_code" where
  "create_wallet_code rpc e =
     (case e of
        EncryptMnemonic _ \<Rightarrow> Unknown
      | FetchBirthdayHeight \<Rightarrow> rpc
      | GenerateMnemonic \<Rightarrow> Unknown
      | CreateInit err \<Rightarrow> init_wallet_code err
      | CreateInsertSeed \<Rightarrow> Unknown
      | CreateWalletInitialization err \<Rightarrow> wallet_initialization_code err)"

definition create_send_psbt_code :: "create_send_psbt_error \<Rightarrow> error_code" where
  "create_send_psbt_code e =
     (case e of UnknownUTXO _ \<Rightarrow> InvalidArgument | PsbtNotUnlocked \<Rightarrow> Unknown | CreateTx \<Rightarrow> Unknown | PsbtScript \<Rightarrow> Unknown)"

definition send_transaction_code :: "send_transaction_error \<Rightarrow> error_code" where
  "send_transaction_code e =
     (case e of
        SendCreatePsbt err \<Rightarrow> create_send_psbt_code err
      | SendSign _ \<Rightarrow> Unknown
      | BroadcastTx _ \<Rightarrow> Unknown
      | NonstandardTxNotSupported \<Rightarrow> Unknown
      | SendNotUnlocked \<Rightarrow> Unknown
      | SendPersistence \<Rightarrow> Unknown)"

text \<open>The code of a failed call of the node: no wallet being loaded there is singled out.\<close>

definition bitcoin_core_rpc_code :: "client_error \<Rightarrow> error_code" where
  "bitcoin_core_rpc_code err =
     (case err of
        CallError code message \<Rightarrow>
          if code = - 18 \<and> contains_str message ''No wallet is loaded'' then FailedPrecondition else Unknown
      | _ \<Rightarrow> Unknown)"

section \<open>Messages\<close>

text \<open>The encodings of transactions and of byte strings, and the texts of networks.\<close>

record wallet_codec =
  wc_rpc :: rpc_codec
  wc_ser_tx :: "transaction \<Rightarrow> bytes"
  wc_ser_bytes :: "bytes \<Rightarrow> bytes"
  wc_network_text :: "network \<Rightarrow> string"

text \<open>Timestamps have signed seconds.\<close>

record proto_confirmation =
  pc_height :: u32
  pc_block_hash :: "hex_field option"
  pc_timestamp :: "int option"

definition confirmation_of :: "chain_position \<Rightarrow> proto_confirmation" where
  "confirmation_of p =
     (case p of
        Confirmed height block_hash confirmation_time _ \<Rightarrow>
          \<lparr>pc_height = height, pc_block_hash = Some (encode_hash block_hash), pc_timestamp = Some (sint confirmation_time)\<rparr>
      | Unconfirmed last_seen _ \<Rightarrow>
          \<lparr>pc_height = 0, pc_block_hash = None, pc_timestamp = map_option sint last_seen\<rparr>)"

record proto_wallet_transaction =
  pt_txid :: hex_field
  pt_raw_transaction :: hex_field
  pt_fee_sats :: u64
  pt_received_sats :: u64
  pt_sent_sats :: u64
  pt_confirmation :: proto_confirmation

definition wallet_transaction_to_proto :: "wallet_codec \<Rightarrow> bdk_wallet_transaction \<Rightarrow> proto_wallet_transaction" where
  "wallet_transaction_to_proto C t =
     \<lparr>pt_txid = encode_hash (wt_txid t), pt_raw_transaction = consensus_hex_encode (wc_ser_tx C) (wt_tx t),
      pt_fee_sats = wt_fee t, pt_received_sats = wt_received t, pt_sent_sats = wt_sent t,
      pt_confirmation = confirmation_of (wt_chain_position t)\<rparr>"

text \<open>The fee of a request: one of two numbers. \<open>from_sat_per_vb\<close> is the library's conversion.\<close>

datatype proto_fee = SatPerVbyte u64 | FeeSats u64

definition fee_policy_of_fee :: "(u64 \<Rightarrow> u64 option) \<Rightarrow> proto_fee \<Rightarrow> u64 + fee_policy" where
  "fee_policy_of_fee from_sat_per_vb fee =
     (case fee of
        SatPerVbyte sats_per_vbyte \<Rightarrow>
          bindE (ok_or (from_sat_per_vb sats_per_vbyte) sats_per_vbyte) (\<lambda>rate. Inr (FeeRate rate))
      | FeeSats sats \<Rightarrow> Inr (FeeAbsolute sats))"

definition fee_policy_of :: "(u64 \<Rightarrow> u64 option) \<Rightarrow> proto_fee option \<Rightarrow> proto_error + fee_policy" where
  "fee_policy_of from_sat_per_vb fee =
     bindE (ok_or fee (MissingField ''fee'' ''cusf.mainchain.v1.SendTransactionRequest.FeeRate'')) (\<lambda>f.
     mapErr (\<lambda>n. InvalidFieldValue ''fee'' ''cusf.mainchain.v1.SendTransactionRequest.FeeRate''
       (show_nat (unat n)) (''Invalid sats per vbyte'', [])) (fee_policy_of_fee from_sat_per_vb f))"

section \<open>Reading calls\<close>

record proto_info =
  pi_network :: string
  pi_transaction_count :: u32
  pi_unspent_output_count :: u32
  pi_descriptors :: "(string \<times> string) list"
  pi_tip_height :: u32
  pi_tip_hash :: hex_field

text \<open>\<open>descriptors\<close> are the public descriptors of the keychains, the internal one marked.\<close>

definition rpc_get_info ::
  "wallet_codec \<Rightarrow> ('w, 'c, 'u) bdk \<Rightarrow> ('w, 'p) bdk_tx \<Rightarrow> network \<Rightarrow> (bool \<times> string) list
    \<Rightarrow> ('w, 'c, 'u) wallet_inner \<Rightarrow> unit rpc_error + proto_info" where
  "rpc_get_info C K B net descriptors inner =
     bindE (mapErr (InnerErr Unknown) (get_wallet_info K B inner)) (\<lambda>info.
     Inr \<lparr>pi_network = wc_network_text C net, pi_transaction_count = word_of_nat (wo_transaction_count info),
          pi_unspent_output_count = word_of_nat (wo_unspent_output_count info),
          pi_descriptors = map (\<lambda>(internal, d). (if internal then ''internal'' else ''external'', d)) descriptors,
          pi_tip_height = snd (wo_tip info), pi_tip_hash = encode_hash (fst (wo_tip info))\<rparr>)"

definition create_new_address ::
  "('w, 'c, 'u) bdk \<Rightarrow> ('w, 'p) bdk_tx \<Rightarrow> (('w, 'c, 'u) wallet_inner, get_new_address_error rpc_error, string) st" where
  "create_new_address K B = mapErrS (InnerErr Unknown) (get_new_address K B)"

text \<open>Confirmed and pending satoshis; the subtraction of amounts panics on underflow.\<close>

definition rpc_get_balance ::
  "('w, 'p) bdk_tx \<Rightarrow> ('w, 'c, 'u) wallet_inner \<Rightarrow> unit rpc_error + u64 \<times> u64 \<times> bool" where
  "rpc_get_balance B inner =
     bindE (mapErr (InnerErr Unknown) (get_wallet_balance B inner)) (\<lambda>((confirmed, tot), has_synced).
     bindE (ok_or (checked_sub_u64 tot confirmed) HandlerPanic) (\<lambda>pending.
     Inr (confirmed, pending, has_synced)))"

record proto_unspent =
  pu_txid :: hex_field
  pu_vout :: u32
  pu_value_sats :: u64
  pu_is_internal :: bool
  pu_is_confirmed :: bool
  pu_confirmed_at_block :: u32
  pu_confirmed_at_time :: "int option"
  pu_confirmed_transitively :: "hex_field option"
  pu_unconfirmed_last_seen :: "int option"
  pu_address :: "string option"

text \<open>\<open>position\<close> and \<open>internal\<close> are the chain position and the keychain of an output.\<close>

definition unspent_to_proto ::
  "(bytes \<Rightarrow> string option) \<Rightarrow> (out_point \<Rightarrow> chain_position) \<Rightarrow> (out_point \<Rightarrow> bool) \<Rightarrow> out_point \<times> tx_out \<Rightarrow> proto_unspent" where
  "unspent_to_proto address_of position internal utxo =
     (let op = fst utxo; p = position op;
          confirmed = (case p of Confirmed h _ t transitively \<Rightarrow> Some (h, t, transitively) | Unconfirmed _ _ \<Rightarrow> None) in
      \<lparr>pu_txid = encode_hash (op_txid op), pu_vout = op_vout op, pu_value_sats = txo_value (snd utxo),
       pu_is_internal = internal op, pu_is_confirmed = (confirmed \<noteq> None),
       pu_confirmed_at_block = (case confirmed of Some (h, _, _) \<Rightarrow> h | None \<Rightarrow> 0),
       pu_confirmed_at_time = map_option (\<lambda>(_, t, _). sint t) confirmed,
       pu_confirmed_transitively = Option.bind confirmed (\<lambda>(_, _, transitively). map_option encode_hash transitively),
       pu_unconfirmed_last_seen = (case p of Unconfirmed last_seen _ \<Rightarrow> map_option sint last_seen | Confirmed _ _ _ _ \<Rightarrow> None),
       pu_address = address_of (txo_script_pubkey (snd utxo))\<rparr>)"

definition list_unspent_outputs ::
  "(bytes \<Rightarrow> string option) \<Rightarrow> (out_point \<Rightarrow> chain_position) \<Rightarrow> (out_point \<Rightarrow> bool) \<Rightarrow> ('w, 'p) bdk_tx
    \<Rightarrow> ('w, 'c, 'u) wallet_inner \<Rightarrow> unit rpc_error + proto_unspent list" where
  "list_unspent_outputs address_of position internal B inner =
     bindE (mapErr (InnerErr Unknown) (get_utxos B inner)) (\<lambda>utxos.
     Inr (map (unspent_to_proto address_of position internal) utxos))"

definition list_transactions_err :: "list_transactions_error \<Rightarrow> list_transactions_error rpc_error" where
  "list_transactions_err e =
     (if e \<in> {AmountPanic, OutputIndexPanic, SortPanic} then HandlerPanic else InnerErr Unknown e)"

definition rpc_list_transactions ::
  "wallet_codec \<Rightarrow> ('w, 'p) bdk_tx \<Rightarrow> tx_node \<Rightarrow> ('w, 'c, 'u) wallet_inner
    \<Rightarrow> list_transactions_error rpc_error + proto_wallet_transaction list" where
  "rpc_list_transactions C B N inner =
     bindE (mapErr list_transactions_err (list_wallet_transactions B N inner)) (\<lambda>transactions.
     Inr (map (wallet_transaction_to_proto C) transactions))"

section \<open>Sending\<close>

text \<open>Required outputs are an optional txid and an output number; destinations are an iteration of the map.\<close>

record send_request =
  sr_destinations :: "(string \<times> u64) list"
  sr_fee_rate :: "proto_fee option option"
  sr_op_return_message :: "hex_field option"
  sr_required_utxos :: "(hex_field option \<times> u32) list"
  sr_drain_wallet_to :: "string option"

definition parse_checked_address :: "'a address_codec \<Rightarrow> network \<Rightarrow> string \<Rightarrow> 'e rpc_error + 'a" where
  "parse_checked_address A net address =
     bindE (ok_or (ac_parse A address) (ConnectErr InvalidArgument ''invalid bitcoin address: '')) (\<lambda>a.
     bindE (guardE (ac_on_network A a net) (ConnectErr InvalidArgument ''bitcoin address is not valid for network'')) (\<lambda>_.
     Inr a))"

definition required_utxo ::
  "rpc_codec \<Rightarrow> hex_field option \<times> u32 \<Rightarrow> 'e rpc_error + out_point" where
  "required_utxo C utxo =
     bindE (required_field ''cusf.mainchain.v1.SendTransactionRequest.RequiredUtxo'' ''txid''
       (reverse_hex_decode (rc_hex_decode C) (rc_de_hash C)
         ''cusf.mainchain.v1.SendTransactionRequest.RequiredUtxo'' ''txid'') (fst utxo)) (\<lambda>txid.
     Inr \<lparr>op_txid = txid, op_vout = snd utxo\<rparr>)"

text \<open>Collecting a list of results, the first error first.\<close>

fun collect_results :: "('a \<Rightarrow> 'e + 'b) \<Rightarrow> 'a list \<Rightarrow> 'e + 'b list" where
  "collect_results f [] = Inr []"
| "collect_results f (x # xs) = bindE (f x) (\<lambda>y. bindE (collect_results f xs) (\<lambda>ys. Inr (y # ys)))"

definition validate_destination :: "'a address_codec \<Rightarrow> network \<Rightarrow> string \<times> u64 \<Rightarrow> 'e rpc_error + 'a \<times> u64" where
  "validate_destination A net dest =
     bindE (parse_checked_address A net (fst dest)) (\<lambda>address.
     bindE (guardE (\<not> ac_is_dust A (snd dest) (ac_script A address))
       (ConnectErr InvalidArgument ''amount is below dust limit'')) (\<lambda>_.
     Inr (address, snd dest)))"

text \<open>The hash map of the validated destinations: a later entry of an address replaces an earlier one.\<close>

definition collect_map :: "('a \<times> u64) list \<Rightarrow> ('a \<times> u64) list" where
  "collect_map entries = foldl (\<lambda>m (a, v). AList.update a v m) [] entries"

definition send_params ::
  "rpc_codec \<Rightarrow> (u64 \<Rightarrow> u64 option) \<Rightarrow> 'a address_codec \<Rightarrow> network \<Rightarrow> send_request
    \<Rightarrow> 'e rpc_error + ('a \<times> u64) list \<times> create_transaction_params" where
  "send_params C from_sat_per_vb A net req =
     bindE (collect_results (required_utxo C) (sr_required_utxos req)) (\<lambda>required_utxos.
     bindE (collect_results (validate_destination A net) (sr_destinations req)) (\<lambda>validated.
     let destinations = collect_map validated in
     bindE (guardE (\<not> (destinations = [] \<and> sr_op_return_message req = None \<and> sr_drain_wallet_to req = None))
       (ConnectErr InvalidArgument ''no destinations or op_return_message provided'')) (\<lambda>_.
     bindE (case sr_drain_wallet_to req of
         None \<Rightarrow> Inr None
       | Some s \<Rightarrow> bindE (parse_checked_address A net s) (\<lambda>a. Inr (Some a))) (\<lambda>drain.
     bindE (guardE (\<not> (drain \<noteq> None \<and> required_utxos \<noteq> []))
       (ConnectErr InvalidArgument ''cannot provide both drain_wallet_to and required_utxos'')) (\<lambda>_.
     bindE (case sr_fee_rate req of
         None \<Rightarrow> Inr None
       | Some fee_rate \<Rightarrow> bindE (mapErr ProtoErr (fee_policy_of from_sat_per_vb fee_rate)) (\<lambda>p. Inr (Some p))) (\<lambda>fee_policy.
     bindE (case sr_op_return_message req of
         None \<Rightarrow> Inr None
       | Some m \<Rightarrow> bindE (mapErr ProtoErr (hex_field_decode (rc_hex_decode C)
           ''cusf.mainchain.v1.SendTransactionRequest'' ''op_return_message'' m)) (\<lambda>bs. Inr (Some bs))) (\<lambda>op_return.
     Inr (destinations,
       \<lparr>cp_fee_policy = fee_policy, cp_op_return_message = op_return, cp_required_utxos = required_utxos,
        cp_drain_wallet_to = map_option (ac_script A) drain\<rparr>))))))))"

definition rpc_send_transaction ::
  "rpc_codec \<Rightarrow> (u64 \<Rightarrow> u64 option) \<Rightarrow> 'a address_codec \<Rightarrow> network \<Rightarrow> libs \<Rightarrow> ('w, 'c, 'u) bdk \<Rightarrow> ('w, 'p) bdk_tx \<Rightarrow> tx_node
    \<Rightarrow> send_request \<Rightarrow> (('w, 'c, 'u) wallet_inner, send_transaction_error rpc_error, hex_field) st" where
  "rpc_send_transaction C from_sat_per_vb A net L K B N req =
     bindS (liftS (\<lambda>_. send_params C from_sat_per_vb A net req)) (\<lambda>(destinations, params).
     bindS (mapErrS (\<lambda>e. InnerErr (send_transaction_code e) e)
       (send_wallet_transaction L K B N (map (\<lambda>(a, v). (ac_script A a, v)) destinations) params)) (\<lambda>txid.
     returnS (encode_hash txid)))"

section \<open>Creating and unlocking\<close>

text \<open>\<open>str::split_whitespace\<close>, and the bytes of a string.\<close>

fun split_whitespace_from :: "string \<Rightarrow> string \<Rightarrow> string list" where
  "split_whitespace_from word [] = (if word = [] then [] else [word])"
| "split_whitespace_from word (c # cs) =
     (if is_space c then (if word = [] then split_whitespace_from [] cs else word # split_whitespace_from [] cs)
      else split_whitespace_from (word @ [c]) cs)"

definition split_whitespace :: "string \<Rightarrow> string list" where
  "split_whitespace s = split_whitespace_from [] s"

definition str_bytes :: "string \<Rightarrow> bytes" where
  "str_bytes s = map (\<lambda>c. word_of_nat (of_char c)) s"

record create_wallet_request =
  cr_mnemonic_words :: "string list"
  cr_mnemonic_path :: string
  cr_password :: string

text \<open>\<open>read\<close> reads the file of the mnemonic.\<close>

definition create_request_params ::
  "('m, 'w, 'd) seed_libs \<Rightarrow> (string \<Rightarrow> string option) \<Rightarrow> create_wallet_request
    \<Rightarrow> 'e rpc_error + 'm option \<times> bytes option" where
  "create_request_params L read req =
     bindE (guardE (\<not> (cr_mnemonic_words req \<noteq> [] \<and> cr_mnemonic_path req \<noteq> []))
       (ConnectErr InvalidArgument ''cannot provide both mnemonic and mnemonic path'')) (\<lambda>_.
     bindE (if cr_mnemonic_path req \<noteq> [] then
         bindE (ok_or (read (cr_mnemonic_path req)) (ConnectErr InvalidArgument ''failed to read mnemonic from '')) (\<lambda>contents.
         Inr (split_whitespace contents))
       else Inr (cr_mnemonic_words req)) (\<lambda>words.
     bindE (guardE (\<not> (words \<noteq> [] \<and> length words \<noteq> 12)) (ConnectErr InvalidArgument ''mnemonic must be 12 words'')) (\<lambda>_.
     bindE (if words = [] then Inr None
       else bindE (ok_or (sl_from_str L (str_bytes (join '' '' words)))
         (ConnectErr InvalidArgument ''failed to parse mnemonic: '')) (\<lambda>m. Inr (Some m))) (\<lambda>parsed.
     Inr (parsed, if cr_password req = [] then None else Some (str_bytes (cr_password req)))))))"

definition rpc_create_wallet ::
  "('m, 'w, 'd) seed_libs \<Rightarrow> seed_faults \<Rightarrow> network \<Rightarrow> error_code \<Rightarrow> (string \<Rightarrow> string option) \<Rightarrow> create_wallet_request
    \<Rightarrow> (('w, 'd) seed_wallet, create_new_wallet_error rpc_error, unit) st" where
  "rpc_create_wallet L F net rpc read req =
     bindS (liftS (\<lambda>s. guardE (\<not> is_initialized s)
       (ConnectErr AlreadyExists ''enforcer wallet already exists (but might not be initialized)''))) (\<lambda>_.
     bindS (liftS (\<lambda>_. create_request_params L read req)) (\<lambda>(parsed, password).
     mapErrS (\<lambda>e. InnerErr (create_wallet_code rpc e) e) (create_new_wallet L F net parsed password)))"

definition rpc_unlock_wallet ::
  "('m, 'w, 'd) seed_libs \<Rightarrow> seed_faults \<Rightarrow> network \<Rightarrow> string \<Rightarrow> (('w, 'd) seed_wallet, unlock_error rpc_error, unit) st" where
  "rpc_unlock_wallet L F net password =
     mapErrS (\<lambda>e. InnerErr (unlock_code e) e) (unlock_existing_wallet L F net (str_bytes password))"

section \<open>P2MR addresses and spends\<close>

record proto_p2mr_address =
  pa_address :: string
  pa_script_pubkey :: hex_field
  pa_scheme :: proto_p2mr_scheme

text \<open>The record's address may have no text; that is an error of the store.\<close>

definition create_p2mr_address ::
  "wallet_codec \<Rightarrow> libs \<Rightarrow> signing \<Rightarrow> (nat \<Rightarrow> bytes option) \<Rightarrow> address_libs \<Rightarrow> proto_p2mr_scheme option
    \<Rightarrow> (p2mr_disk, p2mr_store_error option rpc_error, proto_p2mr_address) st" where
  "create_p2mr_address C L G rng A scheme =
     bindS (liftS (\<lambda>_. map_scheme ''cusf.mainchain.v1.CreateP2mrAddressRequest'' scheme)) (\<lambda>store_scheme.
     bindS (mapErrS (\<lambda>e. InnerErr Unknown (Some e)) (create L G rng store_scheme)) (\<lambda>rec.
     bindS (liftS (\<lambda>_. ok_or (al_address A (ar_script_pubkey rec)) (InnerErr Unknown None))) (\<lambda>address.
     returnS \<lparr>pa_address = address, pa_script_pubkey = consensus_hex_encode (wc_ser_bytes C) (ar_script_pubkey rec),
              pa_scheme = store_scheme_to_proto store_scheme\<rparr>)))"

record proto_p2mr_output =
  pp_txid :: hex_field
  pp_vout :: u32
  pp_value_sats :: u64
  pp_script_pubkey :: hex_field
  pp_is_mine :: bool

definition rpc_list_p2mr_outputs ::
  "wallet_codec \<Rightarrow> p2mr_disk \<Rightarrow> (out_point \<times> tx_out) list \<Rightarrow> p2mr_store_error rpc_error + proto_p2mr_output list" where
  "rpc_list_p2mr_outputs C disk entries =
     bindE (mapErr (InnerErr Unknown) (list_p2mr_outputs disk entries)) (\<lambda>outputs.
     Inr (map (\<lambda>out. \<lparr>pp_txid = encode_hash (op_txid (po_outpoint out)), pp_vout = op_vout (po_outpoint out),
       pp_value_sats = txo_value (po_txout out),
       pp_script_pubkey = consensus_hex_encode (wc_ser_bytes C) (txo_script_pubkey (po_txout out)),
       pp_is_mine = po_is_mine out\<rparr>) outputs))"

record spend_request =
  sp_txid :: "hex_field option"
  sp_vout :: u32
  sp_destination :: string
  sp_amount_sats :: u64
  sp_fee_sats :: "u64 option"

definition rpc_spend_p2mr ::
  "rpc_codec \<Rightarrow> 'a address_codec \<Rightarrow> network \<Rightarrow> libs \<Rightarrow> signing \<Rightarrow> (nat \<Rightarrow> bytes option) \<Rightarrow> address_libs \<Rightarrow> spend_request
    \<Rightarrow> (p2mr_wallet, spend_p2mr_error rpc_error, hex_field \<times> string \<times> u64) st" where
  "rpc_spend_p2mr C A net L G rng AL req =
     bindS (liftS (\<lambda>_. required_field ''cusf.mainchain.v1.SpendP2mrRequest'' ''txid''
       (reverse_hex_decode (rc_hex_decode C) (array_decode 32) ''cusf.mainchain.v1.SpendP2mrRequest'' ''txid'')
       (sp_txid req))) (\<lambda>txid.
     bindS (liftS (\<lambda>_. ok_or (ac_parse A (sp_destination req)) (ConnectErr InvalidArgument ''invalid destination: ''))) (\<lambda>a.
     bindS (liftS (\<lambda>_. guardE (ac_on_network A a net) (ConnectErr InvalidArgument ''destination on wrong network: ''))) (\<lambda>_.
     bindS (mapErrS (InnerErr Unknown) (spend_p2mr L G rng AL \<lparr>op_txid = txid, op_vout = sp_vout req\<rparr> (ac_script A a)
       (sp_amount_sats req) (sp_fee_sats req))) (\<lambda>outcome.
     returnS (encode_hash (so_txid outcome), case so_change_address outcome of Some addr \<Rightarrow> addr | None \<Rightarrow> [],
              so_change_sats outcome)))))"

section \<open>What a send request pays\<close>

lemma collect_results_Inr: "collect_results f xs = Inr ys \<longleftrightarrow> list_all2 (\<lambda>x y. f x = Inr y) xs ys"
proof (induction xs arbitrary: ys)
  case (Cons x xs)
  then show ?case by (cases ys) auto
qed auto

lemma parse_checked_address_Inr [simp]:
  "parse_checked_address A net s = Inr a \<longleftrightarrow> ac_parse A s = Some a \<and> ac_on_network A a net"
  by (auto simp: parse_checked_address_def)

lemma validate_destination_Inr:
  "validate_destination A net (s, v) = Inr (a, u) \<longleftrightarrow>
     ac_parse A s = Some a \<and> ac_on_network A a net \<and> \<not> ac_is_dust A v (ac_script A a) \<and> u = v"
  by (auto simp: validate_destination_def)

lemma alist_update_set:
  "set (foldl (\<lambda>m (a, v). AList.update a v m) m es) \<subseteq> set m \<union> set es"
proof (induction es arbitrary: m)
  case (Cons e es)
  obtain a v where e: "e = (a, v)" by (cases e)
  have "set (AList.update a v m) \<subseteq> set m \<union> {(a, v)}"
    by (induction m) auto
  with Cons.IH [of "AList.update a v m"] show ?case by (auto simp: e)
qed simp

lemma collect_map_subset: "set (collect_map es) \<subseteq> set es"
  using alist_update_set [of "[]" es] by (simp add: collect_map_def)

lemma alist_update_fresh: "a \<notin> fst ` set m \<Longrightarrow> AList.update a v m = m @ [(a, v)]"
  by (induction m) auto

lemma collect_map_distinct_from:
  "distinct (map fst (m @ es)) \<Longrightarrow> foldl (\<lambda>m (a, v). AList.update a v m) m es = m @ es"
proof (induction es arbitrary: m)
  case (Cons e es)
  obtain a v where e: "e = (a, v)" by (cases e)
  from Cons.prems have "a \<notin> fst ` set m" by (auto simp: e)
  then have "AList.update a v m = m @ [(a, v)]" by (rule alist_update_fresh)
  with Cons.IH [of "m @ [(a, v)]"] Cons.prems show ?case by (simp add: e)
qed simp

lemma collect_map_distinct: "distinct (map fst es) \<Longrightarrow> collect_map es = es"
  using collect_map_distinct_from [of "[]" es] by (simp add: collect_map_def)

text \<open>The map of the validated destinations keeps one entry of every address.\<close>

lemma collect_map_keys_from:
  "fst ` set (foldl (\<lambda>m (a, v). AList.update a v m) m es) = fst ` set m \<union> fst ` set es"
proof (induction es arbitrary: m)
  case (Cons e es)
  then show ?case by (cases e) (simp add: AList.dom_update)
qed simp

lemma collect_map_keys: "fst ` set (collect_map es) = fst ` set es"
  using collect_map_keys_from [of "[]" es] by (simp add: collect_map_def)

text \<open>\<open>asked\<close> is what the destinations of a request ask to pay, address by address.\<close>

definition asked :: "'a address_codec \<Rightarrow> (string \<times> u64) list \<Rightarrow> ('a \<times> u64) list" where
  "asked A dests = map (\<lambda>(s, v). (the (ac_parse A s), v)) dests"

lemma asked_keys: "map fst (asked A dests) = map (\<lambda>(s, _). the (ac_parse A s)) dests"
  by (simp add: asked_def case_prod_beta)

lemma validated_asked:
  "list_all2 (\<lambda>x y. validate_destination A net x = (Inr y :: 'e rpc_error + 'a \<times> u64)) dests ys \<Longrightarrow> ys = asked A dests
     \<and> (\<forall>(s, v) \<in> set dests. \<exists>a. ac_parse A s = Some a \<and> ac_on_network A a net \<and> \<not> ac_is_dust A v (ac_script A a))"
proof (induction dests arbitrary: ys)
  case (Cons d dests)
  from Cons.prems obtain y zs where ys: "ys = y # zs" "validate_destination A net d = (Inr y :: 'e rpc_error + 'a \<times> u64)"
      "list_all2 (\<lambda>x y. validate_destination A net x = (Inr y :: 'e rpc_error + 'a \<times> u64)) dests zs"
    by (auto simp: list_all2_Cons1)
  obtain s v where d: "d = (s, v)" by (cases d)
  obtain a u where y: "y = (a, u)" by (cases y)
  show ?case using Cons.IH [OF ys(3)] ys(1,2) by (auto simp: d y validate_destination_Inr asked_def)
qed (simp add: asked_def)

lemma send_params_ok:
  fixes A :: "'a address_codec"
  assumes "send_params C fr A net req = (Inr (dests, params) :: 'e rpc_error + _)"
  shows "(\<forall>(s, v) \<in> set (sr_destinations req).
        \<exists>a. ac_parse A s = Some a \<and> ac_on_network A a net \<and> \<not> ac_is_dust A v (ac_script A a))
    \<and> dests = collect_map (asked A (sr_destinations req))
    \<and> length (cp_required_utxos params) = length (sr_required_utxos req)
    \<and> (cp_op_return_message params = None \<longleftrightarrow> sr_op_return_message req = None)
    \<and> (\<forall>s. sr_drain_wallet_to req = Some s \<longrightarrow> (\<exists>a. ac_parse A s = Some a \<and> ac_on_network A a net
         \<and> cp_drain_wallet_to params = Some (ac_script A a)) \<and> sr_required_utxos req = [])
    \<and> (sr_drain_wallet_to req = None \<longrightarrow> cp_drain_wallet_to params = None)
    \<and> \<not> (sr_destinations req = [] \<and> sr_op_return_message req = None \<and> sr_drain_wallet_to req = None)"
proof -
  from assms obtain utxos validated where
    utxos: "list_all2 (\<lambda>x y. required_utxo C x = (Inr y :: 'e rpc_error + out_point)) (sr_required_utxos req) utxos"
    and val: "list_all2 (\<lambda>x y. validate_destination A net x = (Inr y :: 'e rpc_error + _)) (sr_destinations req) validated"
    and dests: "dests = collect_map validated" and req: "cp_required_utxos params = utxos"
    by (auto simp: send_params_def collect_results_Inr Let_def)
  note v = validated_asked [OF val]
  from assms have some: "\<not> (dests = [] \<and> sr_op_return_message req = None \<and> sr_drain_wallet_to req = None)"
    and msg: "cp_op_return_message params = None \<longleftrightarrow> sr_op_return_message req = None"
    and nodrain: "sr_drain_wallet_to req = None \<longrightarrow> cp_drain_wallet_to params = None"
    and drain: "sr_drain_wallet_to req = Some s \<Longrightarrow> (\<exists>a. ac_parse A s = Some a \<and> ac_on_network A a net
         \<and> cp_drain_wallet_to params = Some (ac_script A a)) \<and> cp_required_utxos params = []" for s
    by (auto simp: send_params_def collect_results_Inr Let_def split: option.splits)
  have len: "length utxos = length (sr_required_utxos req)" using utxos by (simp add: list_all2_lengthD)
  have "dests = [] \<longleftrightarrow> sr_destinations req = []"
    using v dests collect_map_keys [of validated] by (cases validated) (auto simp: asked_def collect_map_def)
  then show ?thesis using v dests some msg nodrain drain len req by auto
qed

lemma rpc_send_ok:
  assumes "rpc_send_transaction C fr A net L K B N req inner = (Inr answer, inner')"
  obtains dests params txid where
    "send_params C fr A net req = (Inr (dests, params) :: send_transaction_error rpc_error + _)"
    "send_wallet_transaction L K B N (map (\<lambda>(a, v). (ac_script A a, v)) dests) params inner = (Inr txid, inner')"
    "answer = encode_hash txid"
  using assms by (auto simp: rpc_send_transaction_def bindS_eq_Inr returnS_def)


definition demo_send_request :: send_request where
  "demo_send_request = \<lparr>sr_destinations = [(''tb1q'', 5000), (''tb1p'', 330)], sr_fee_rate = None,
     sr_op_return_message = None, sr_required_utxos = [], sr_drain_wallet_to = None\<rparr>"


section \<open>What the wallet requests do not do\<close>

text \<open>
  The destinations of a request are strings and the map they are collected in is keyed by the address: two
  spellings of an address (upper and lower case bech32) are one entry, and one amount is not paid.
\<close>

theorem two_spellings_lose_an_amount:
  assumes "ac_parse A s = Some a" and "ac_parse A t = Some a"
  shows "collect_map (asked A [(s, v), (t, u)]) = [(a, u)]"
  using assms by (simp add: asked_def collect_map_def)

text \<open>A mnemonic of 24 words is rejected, although the request documents 12 or 24.\<close>

theorem long_mnemonic_rejected:
  assumes "length (cr_mnemonic_words req) = 24"
  shows "\<exists>msg. create_request_params L read req = Inl (ConnectErr InvalidArgument msg)"
  using assms by (auto simp: create_request_params_def bindE_eq_Inl guardE_def)

text \<open>
  A mnemonic file without a word is not an error: the wallet is created from a random mnemonic, as if
  no file had been named.
\<close>

theorem empty_mnemonic_file_is_ignored:
  assumes "read path = Some contents" and "list_all is_space contents" and "path \<noteq> []"
  shows "create_request_params L read \<lparr>cr_mnemonic_words = [], cr_mnemonic_path = path, cr_password = pw\<rparr>
    = create_request_params L read \<lparr>cr_mnemonic_words = [], cr_mnemonic_path = [], cr_password = pw\<rparr>"
proof -
  have "split_whitespace contents = []"
    using assms(2) by (induction contents) (auto simp: split_whitespace_def)
  then show ?thesis using assms by (simp add: create_request_params_def)
qed

text \<open>The mnemonic that reaches the wallet has twelve words or none; a request that does not gets no further.\<close>

lemma create_request_params_ok:
  assumes "create_request_params L read req = (Inr (mnemonic, password) :: 'e rpc_error + _)"
  shows "(mnemonic = None \<longleftrightarrow> cr_mnemonic_words req = []
            \<and> (cr_mnemonic_path req = [] \<or> (\<exists>c. read (cr_mnemonic_path req) = Some c \<and> split_whitespace c = [])))
    \<and> (mnemonic \<noteq> None \<and> cr_mnemonic_path req = [] \<longrightarrow> length (cr_mnemonic_words req) = 12)
    \<and> (password = None \<longleftrightarrow> cr_password req = [])"
  using assms by (auto simp: create_request_params_def split: if_splits)

lemma rpc_create_wallet_checks_first:
  assumes "rpc_create_wallet L F net rpc read req s = (Inl (ConnectErr c msg), s')"
  shows "s' = s"
  using assms by (auto simp: rpc_create_wallet_def bindS_eq_Inl mapErrS_eq_Inl split: prod.splits)

text \<open>A second \<open>UnlockWallet\<close> is an error, although the service declares the call idempotent.\<close>

theorem unlock_twice:
  assumes "rpc_unlock_wallet L F net password s = (Inr (), s')"
  shows "rpc_unlock_wallet L' F' net' password s'
    = (Inl (InnerErr (unlock_code (UnlockWalletInitialization AlreadyUnlocked)) (UnlockWalletInitialization AlreadyUnlocked)), s')"
proof -
  have "is_initialized s'"
    using assms by (auto simp: rpc_unlock_wallet_def unlock_existing_wallet_def install_wallet_def bindS_eq_Inr is_initialized_def)
  then show ?thesis
    by (auto simp: rpc_unlock_wallet_def unlock_existing_wallet_def bindS_def mapErrS_def liftS_def is_initialized_def)
qed

end
