(* ===== verification/Http_Server.thy ===== *)
theory Http_Server
  imports Text
begin

text \<open>
  The HTTP side of the RPC server (\<open>app/main.rs\<close>): the request ids, the defaults that are filled in
  for requests without a body or without query parameters, the access log with what it does to the
  response, and the services that are registered. The names of headers are in lower case; the first
  value of a header is the one that is read, and setting a header replaces all its values.
\<close>

section \<open>Requests and responses\<close>

record http_request =
  hr_method :: string
  hr_headers :: "(string \<times> string) list"
  hr_path :: "string option"
  hr_query :: "string option"
  hr_body :: string

record http_response =
  hs_status :: nat
  hs_headers :: "(string \<times> string) list"
  hs_body :: string

definition insert_header :: "string \<Rightarrow> string \<Rightarrow> (string \<times> string) list \<Rightarrow> (string \<times> string) list" where
  "insert_header name val headers = filter (\<lambda>(n, _). n \<noteq> name) headers @ [(name, val)]"

definition REQUEST_ID_HEADER :: string where "REQUEST_ID_HEADER = ''x-request-id''"

text \<open>\<open>uuid\<close> is a fresh identifier without dashes; \<open>is_header_value\<close> is the library's check.\<close>

definition make_request_id :: "(string \<Rightarrow> bool) \<Rightarrow> string \<Rightarrow> string option" where
  "make_request_id is_header_value uuid =
     (let rid = ''req_'' @ uuid in if is_header_value rid then Some rid else None)"

text \<open>The layer of the HTTP library keeps an id that the request brings.\<close>

definition set_request_id :: "string option \<Rightarrow> http_request \<Rightarrow> http_request" where
  "set_request_id fresh req =
     (if map_of (hr_headers req) REQUEST_ID_HEADER \<noteq> None then req
      else case fresh of
        None \<Rightarrow> req
      | Some rid \<Rightarrow> req\<lparr>hr_headers := insert_header REQUEST_ID_HEADER rid (hr_headers req)\<rparr>)"

section \<open>Defaults for missing parts of a request\<close>

definition parse_u64 :: "string \<Rightarrow> u64 option" where
  "parse_u64 s =
     (let digits = (case s of CHR ''+'' # rest \<Rightarrow> rest | _ \<Rightarrow> s) in
      if digits \<noteq> [] \<and> list_all is_digit digits \<and> digits_value digits < 2 ^ 64
      then Some (word_of_nat (digits_value digits)) else None)"

definition ascii_lower :: "char \<Rightarrow> char" where
  "ascii_lower c = (if 65 \<le> (of_char c :: nat) \<and> of_char c \<le> (90 :: nat) then char_of (of_char c + 32 :: nat) else c)"

definition eq_ignore_ascii_case :: "string \<Rightarrow> string \<Rightarrow> bool" where
  "eq_ignore_ascii_case a b = (map ascii_lower a = map ascii_lower b)"

text \<open>\<open>to_str\<close> is the library's view of a header value as text.\<close>

definition is_unary_json :: "(string \<Rightarrow> string option) \<Rightarrow> http_request \<Rightarrow> bool" where
  "is_unary_json to_str req =
     (hr_method req = ''POST''
      \<and> (case Option.bind (map_of (hr_headers req) ''content-type'') to_str of
           None \<Rightarrow> False
         | Some v \<Rightarrow> eq_ignore_ascii_case (trim (hd (split_on (CHR '';'') v))) ''application/json''))"

definition has_empty_length :: "(string \<Rightarrow> string option) \<Rightarrow> http_request \<Rightarrow> bool" where
  "has_empty_length to_str req =
     (case map_of (hr_headers req) ''content-length'' of
        None \<Rightarrow> True
      | Some v \<Rightarrow> Option.bind (to_str v) parse_u64 = Some 0)"

definition fill_empty_json_body :: "(string \<Rightarrow> string option) \<Rightarrow> http_request \<Rightarrow> http_request" where
  "fill_empty_json_body to_str req =
     (if \<not> is_unary_json to_str req \<or> \<not> has_empty_length to_str req then req
      else req\<lparr>hr_headers := insert_header ''content-length'' ''2'' (hr_headers req), hr_body := ''{}''\<rparr>)"

text \<open>The parts of a query that are not empty, and the key of a part.\<close>

definition query_parts :: "string \<Rightarrow> string list" where
  "query_parts q = filter (\<lambda>s. s \<noteq> []) (split_on (CHR ''&'') q)"

definition part_key :: "string \<Rightarrow> string" where
  "part_key part = hd (split_on (CHR ''='') part)"

definition push_part :: "bool \<Rightarrow> string \<Rightarrow> string \<Rightarrow> string" where
  "push_part present part q = (if present then q else (if q \<noteq> [] then q @ ''&'' else q) @ part)"

text \<open>
  \<open>serialize\<close> is the percent-encoding of the URL library. The new URI has the old path, and the new
  query.
\<close>

definition fill_connect_get_defaults :: "(string \<Rightarrow> string) \<Rightarrow> http_request \<Rightarrow> http_request" where
  "fill_connect_get_defaults serialize req =
     (if hr_method req \<noteq> ''GET'' then req
      else
        let existing = (case hr_query req of Some q \<Rightarrow> q | None \<Rightarrow> []);
            keys = map part_key (query_parts existing);
            has_encoding = ''encoding'' \<in> set keys;
            has_message = ''message'' \<in> set keys in
        if has_encoding \<and> has_message then req
        else
          let new_query = push_part has_message (''message='' @ serialize ''{}'')
                            (push_part has_encoding ''encoding=json'' existing) in
          req\<lparr>hr_path := Some (case hr_path req of Some p \<Rightarrow> p | None \<Rightarrow> ''/''), hr_query := Some new_query\<rparr>)"

section \<open>The access log\<close>

datatype log_level = LogInfo | LogWarn | LogError

record log_entry =
  le_level :: log_level
  le_procedure :: string
  le_code :: string
  le_message :: string
  le_request_id :: string

definition ERROR_BODY_LOG_LIMIT :: nat where "ERROR_BODY_LOG_LIMIT = 4 * 1024"

definition is_error_status :: "nat \<Rightarrow> bool" where
  "is_error_status status = (400 \<le> status \<and> status < 600)"

text \<open>
  \<open>parse_error\<close> reads the code and the message of a connect error; \<open>lossy\<close> reads bytes as text.
  Buffering a body fails when it is longer than the limit.
\<close>

definition connect_rpc_access_log ::
  "(string \<Rightarrow> string option) \<Rightarrow> (string \<Rightarrow> (string \<times> string option) option) \<Rightarrow> (string \<Rightarrow> string)
    \<Rightarrow> (http_request \<Rightarrow> http_response) \<Rightarrow> http_request \<Rightarrow> log_entry list \<times> http_response" where
  "connect_rpc_access_log to_str parse_error lossy next_service req =
     (let request_id = map_of (hr_headers req) REQUEST_ID_HEADER;
          response = next_service req;
          response = (case request_id of
             Some rid \<Rightarrow> response\<lparr>hs_headers := insert_header REQUEST_ID_HEADER rid (hs_headers response)\<rparr>
           | None \<Rightarrow> response);
          id_text = (case Option.bind request_id to_str of Some t \<Rightarrow> t | None \<Rightarrow> []);
          procedure = (case hr_path req of Some p \<Rightarrow> p | None \<Rightarrow> []) in
      if is_error_status (hs_status response) then
        let buffered = length (hs_body response) \<le> ERROR_BODY_LOG_LIMIT;
            body_bytes = (if buffered then hs_body response else ''{}'');
            (code, message) = (case parse_error body_bytes of
               Some (code, message) \<Rightarrow> (code, case message of Some m \<Rightarrow> m | None \<Rightarrow> [])
             | None \<Rightarrow> (''unknown'', lossy body_bytes));
            entry = \<lparr>le_level = if 500 \<le> hs_status response then LogError else LogWarn, le_procedure = procedure,
              le_code = code, le_message = message, le_request_id = id_text\<rparr>;
            warning = \<lparr>le_level = LogWarn, le_procedure = procedure, le_code = [],
              le_message = ''connect_rpc: failed to buffer error body: '', le_request_id = id_text\<rparr> in
        ((if buffered then [] else [warning]) @ [entry], response\<lparr>hs_body := body_bytes\<rparr>)
      else
        ([\<lparr>le_level = LogInfo, le_procedure = procedure, le_code = ''ok'', le_message = [], le_request_id = id_text\<rparr>],
         response))"

section \<open>The server\<close>

definition service_names :: "bool \<Rightarrow> bool \<Rightarrow> string list" where
  "service_names mining wallet =
     [''cusf.crypto.v1.CryptoService'', ''cusf.mainchain.v1.ValidatorService'']
     @ (if mining then [''cusf.mainchain.v1.MiningService''] else [])
     @ (if wallet then [''cusf.mainchain.v1.WalletService''] else [])"

text \<open>The layers from the outside to the router.\<close>

definition connect_app ::
  "(string \<Rightarrow> string option) \<Rightarrow> (string \<Rightarrow> string) \<Rightarrow> (string \<Rightarrow> (string \<times> string option) option) \<Rightarrow> (string \<Rightarrow> string)
    \<Rightarrow> string option \<Rightarrow> (http_request \<Rightarrow> http_response) \<Rightarrow> http_request \<Rightarrow> log_entry list \<times> http_response" where
  "connect_app to_str serialize parse_error lossy fresh_id router req =
     connect_rpc_access_log to_str parse_error lossy
       (\<lambda>r. router (fill_connect_get_defaults serialize (fill_empty_json_body to_str r)))
       (set_request_id fresh_id req)"

section \<open>What the router sees\<close>

lemma split_on_append: "split_on c (p @ c # s) = split_on c p @ split_on c s"
proof (induction p)
  case (Cons x xs)
  then show ?case by (cases "split_on c xs") auto
qed simp

lemma query_parts_append: "query_parts (q @ CHR ''&'' # part) = query_parts q @ query_parts part"
  by (simp add: query_parts_def split_on_append)

lemma query_parts_single: "CHR ''&'' \<notin> set part \<Longrightarrow> part \<noteq> [] \<Longrightarrow> query_parts part = [part]"
  by (simp add: query_parts_def split_on_single)

lemma push_part_parts:
  assumes "CHR ''&'' \<notin> set part" and "part \<noteq> []"
  shows "query_parts (push_part present part q) = query_parts q @ (if present then [] else [part])"
proof (cases "q = []")
  case True
  moreover have "query_parts [] = []" by (simp add: query_parts_def)
  ultimately show ?thesis using query_parts_single [OF assms] by (simp add: push_part_def)
next
  case False
  then show ?thesis
    using query_parts_append [of q part] query_parts_single [OF assms] by (simp add: push_part_def)
qed

text \<open>The value of a key: what follows the first part with this key and its equality sign.\<close>

definition query_value :: "string \<Rightarrow> string \<Rightarrow> string option" where
  "query_value key q =
     map_option (\<lambda>p. drop (Suc (length (part_key p))) p) (find (\<lambda>p. part_key p = key) (query_parts q))"

lemma find_append: "find P (xs @ ys) = (case find P xs of Some x \<Rightarrow> Some x | None \<Rightarrow> find P ys)"
  by (induction xs) auto

lemma find_key_None: "find (\<lambda>p. part_key p = key) ps = None \<longleftrightarrow> key \<notin> set (map part_key ps)"
  by (auto simp: find_None_iff)

lemma part_key_of: "CHR ''='' \<notin> set key \<Longrightarrow> part_key (key @ CHR ''='' # v) = key"
  by (simp add: part_key_def split_on_first)

text \<open>
  A GET request reaches the router with an encoding and a message. The value of each is the one
  that the client sent, or JSON and the encoded empty object where it sent none; every other
  parameter keeps its value, the parts the client sent stay in front, and method, headers and body
  are unchanged. Filling in twice is filling in once, and other methods pass as they are. The
  percent-encoding leaves no ampersand.
\<close>
theorem get_defaults_exact:
  assumes "CHR ''&'' \<notin> set (serialize ''{}'')"
  shows "(hr_method req = ''GET'' \<longrightarrow>
      (\<exists>q. hr_query (fill_connect_get_defaults serialize req) = Some q
        \<and> query_value ''encoding'' q = Some (case query_value ''encoding'' (case hr_query req of Some e \<Rightarrow> e | None \<Rightarrow> []) of
            Some v \<Rightarrow> v | None \<Rightarrow> ''json'')
        \<and> query_value ''message'' q = Some (case query_value ''message'' (case hr_query req of Some e \<Rightarrow> e | None \<Rightarrow> []) of
            Some v \<Rightarrow> v | None \<Rightarrow> serialize ''{}'')
        \<and> (\<forall>key. key \<noteq> ''encoding'' \<and> key \<noteq> ''message'' \<longrightarrow>
            query_value key q = query_value key (case hr_query req of Some e \<Rightarrow> e | None \<Rightarrow> []))
        \<and> (\<exists>new. query_parts q = query_parts (case hr_query req of Some e \<Rightarrow> e | None \<Rightarrow> []) @ new)))
    \<and> (hr_method req \<noteq> ''GET'' \<longrightarrow> fill_connect_get_defaults serialize req = req)
    \<and> hr_method (fill_connect_get_defaults serialize req) = hr_method req
    \<and> hr_headers (fill_connect_get_defaults serialize req) = hr_headers req
    \<and> hr_body (fill_connect_get_defaults serialize req) = hr_body req
    \<and> fill_connect_get_defaults serialize (fill_connect_get_defaults serialize req) = fill_connect_get_defaults serialize req"
proof (cases "hr_method req = ''GET''")
  case True
  define e where "e = (case hr_query req of Some e \<Rightarrow> e | None \<Rightarrow> [])"
  define enc where "enc = (''encoding'' \<in> set (map part_key (query_parts e)))"
  define msg where "msg = (''message'' \<in> set (map part_key (query_parts e)))"
  let ?m = "''message='' @ serialize ''{}''"
  define q where "q = push_part msg ?m (push_part enc ''encoding=json'' e)"
  have mkey: "part_key ?m = ''message''" using part_key_of [of "''message''" "serialize ''{}''"] by simp
  have ekey: "part_key ''encoding=json'' = ''encoding''" by (simp add: part_key_def)
  have parts: "query_parts q = query_parts e @ (if enc then [] else [''encoding=json'']) @ (if msg then [] else [?m])"
    unfolding q_def using assms by (simp add: push_part_parts)
  have fill: "fill_connect_get_defaults serialize req =
      (if enc \<and> msg then req else req\<lparr>hr_path := Some (case hr_path req of Some p \<Rightarrow> p | None \<Rightarrow> ''/''), hr_query := Some q\<rparr>)"
    using True by (simp add: fill_connect_get_defaults_def Let_def e_def [symmetric] enc_def msg_def q_def)
  have both: "enc \<and> msg \<Longrightarrow> q = e \<and> hr_query req = Some e"
    by (cases "hr_query req") (auto simp: q_def push_part_def e_def enc_def query_parts_def)
  have query: "hr_query (fill_connect_get_defaults serialize req) = Some q" using fill both by auto
  have enc': "query_value ''encoding'' q = Some (case query_value ''encoding'' e of Some v \<Rightarrow> v | None \<Rightarrow> ''json'')"
    using find_key_None [of "''encoding''" "query_parts e"] mkey ekey
    by (cases enc) (auto simp: query_value_def parts find_append enc_def split: option.splits)
  have msg': "query_value ''message'' q = Some (case query_value ''message'' e of Some v \<Rightarrow> v | None \<Rightarrow> serialize ''{}'')"
    using find_key_None [of "''message''" "query_parts e"] mkey ekey
    by (cases msg) (auto simp: query_value_def parts find_append msg_def split: option.splits)
  have rest: "query_value key q = query_value key e" if "key \<noteq> ''encoding''" "key \<noteq> ''message''" for key
    using that mkey ekey by (auto simp: query_value_def parts find_append split: option.splits)
  have keys: "''encoding'' \<in> set (map part_key (query_parts q))" "''message'' \<in> set (map part_key (query_parts q))"
    using mkey ekey by (auto simp: parts enc_def msg_def)
  have "hr_method (fill_connect_get_defaults serialize req) = ''GET''" using fill True by auto
  then have idem: "fill_connect_get_defaults serialize (fill_connect_get_defaults serialize req) = fill_connect_get_defaults serialize req"
    using keys query by (subst fill_connect_get_defaults_def) (simp add: Let_def)
  show ?thesis
    using True query enc' msg' rest parts fill idem unfolding e_def [symmetric] by auto
qed (simp add: fill_connect_get_defaults_def)

text \<open>
  A unary JSON request without a length has its body replaced, whatever it is; a body that is sent in
  chunks has no length and is lost.
\<close>

theorem chunked_body_is_replaced:
  assumes "is_unary_json to_str req" and "map_of (hr_headers req) ''content-length'' = None"
  shows "hr_body (fill_empty_json_body to_str req) = ''{}''"
  using assms by (simp add: fill_empty_json_body_def has_empty_length_def)

lemma empty_body_other:
  assumes "map_of (hr_headers req) ''content-length'' = Some v" and "to_str v = Some v" and "parse_u64 v = Some n" and "n \<noteq> 0"
  shows "fill_empty_json_body to_str req = req"
  using assms by (simp add: fill_empty_json_body_def has_empty_length_def)

section \<open>What the client sees\<close>

lemma map_of_insert_header: "map_of (insert_header name v hs) n = (if n = name then Some v else map_of hs n)"
proof -
  have "map_of (filter (\<lambda>(m, _). m \<noteq> name) hs) n = (if n = name then None else map_of hs n)"
    by (induction hs) auto
  then show ?thesis by (simp add: insert_header_def map_add_def split: option.splits)
qed

lemma request_id_after: "map_of (hr_headers (set_request_id fresh req)) REQUEST_ID_HEADER
    = (case map_of (hr_headers req) REQUEST_ID_HEADER of Some rid \<Rightarrow> Some rid | None \<Rightarrow> fresh)"
  by (auto simp: set_request_id_def map_of_insert_header split: option.splits)

lemma access_log_response:
  "snd (connect_rpc_access_log to_str parse_error lossy next_service req) =
     (next_service req)\<lparr>
       hs_headers := (case map_of (hr_headers req) REQUEST_ID_HEADER of
          Some rid \<Rightarrow> insert_header REQUEST_ID_HEADER rid (hs_headers (next_service req)) | None \<Rightarrow> hs_headers (next_service req)),
       hs_body := (if is_error_status (hs_status (next_service req)) \<and> ERROR_BODY_LOG_LIMIT < length (hs_body (next_service req))
          then ''{}'' else hs_body (next_service req))\<rparr>"
  by (auto simp: connect_rpc_access_log_def Let_def split: option.splits prod.splits)

text \<open>
  The log is transparent but for long errors: the client gets the status and the body of the router,
  with the id of its request, but the body of an error beyond the limit of the log is replaced by an
  empty object, under the headers of the original.
\<close>

theorem long_errors_are_replaced:
  assumes "connect_app to_str serialize parse_error lossy fresh router req = (entries, resp)"
  shows "\<exists>r. hs_status resp = hs_status (router r)
    \<and> (fresh \<noteq> None \<longrightarrow> (\<exists>rid. map_of (hs_headers resp) REQUEST_ID_HEADER = Some rid
         \<and> (map_of (hr_headers req) REQUEST_ID_HEADER = Some rid
            \<or> map_of (hr_headers req) REQUEST_ID_HEADER = None \<and> fresh = Some rid)))
    \<and> (\<forall>n. n \<noteq> REQUEST_ID_HEADER \<longrightarrow> map_of (hs_headers resp) n = map_of (hs_headers (router r)) n)
    \<and> hs_body resp = (if is_error_status (hs_status (router r)) \<and> ERROR_BODY_LOG_LIMIT < length (hs_body (router r))
         then ''{}'' else hs_body (router r))"
proof -
  have "resp = snd (connect_app to_str serialize parse_error lossy fresh router req)" using assms by simp
  then show ?thesis
    unfolding connect_app_def access_log_response request_id_after
    by (intro exI [of _ "fill_connect_get_defaults serialize (fill_empty_json_body to_str (set_request_id fresh req))"])
      (auto simp: map_of_insert_header split: option.splits)
qed

text \<open>Exactly one entry says how the call ended, at the level of its status.\<close>

lemma access_log_entries:
  assumes "connect_rpc_access_log to_str parse_error lossy next_service req = (entries, resp)"
  shows "entries \<noteq> [] \<and> length entries \<le> 2
    \<and> le_level (last entries) = (if \<not> is_error_status (hs_status resp) then LogInfo
         else if 500 \<le> hs_status resp then LogError else LogWarn)"
  using assms by (auto simp: connect_rpc_access_log_def Let_def split: option.splits prod.splits if_splits)

definition demo_get :: http_request where
  "demo_get = \<lparr>hr_method = ''GET'', hr_headers = [], hr_path = Some ''/svc/GetBalance'', hr_query = Some ''message=a&x=1'',
     hr_body = []\<rparr>"

theorem get_defaults_exact_witness:
  "\<exists>q. hr_query (fill_connect_get_defaults (\<lambda>_. ''%7B%7D'') demo_get) = Some q
    \<and> query_value ''encoding'' q = Some ''json'' \<and> query_value ''message'' q = Some ''a'' \<and> query_value ''x'' q = Some ''1''"
proof -
  have free: "CHR ''&'' \<notin> set ((\<lambda>_. ''%7B%7D'') ''{}'')" by simp
  have get: "hr_method demo_get = ''GET''" "hr_query demo_get = Some ''message=a&x=1''" by (simp_all add: demo_get_def)
  have old: "query_value ''encoding'' ''message=a&x=1'' = None" "query_value ''message'' ''message=a&x=1'' = Some ''a''"
    "query_value ''x'' ''message=a&x=1'' = Some ''1''"
    by (simp_all add: query_value_def query_parts_def part_key_def)
  note filled = mp [OF conjunct1 [OF get_defaults_exact [where serialize = "\<lambda>_. ''%7B%7D''" and req = demo_get, OF free]] get(1)]
  from filled obtain q where q: "hr_query (fill_connect_get_defaults (\<lambda>_. ''%7B%7D'') demo_get) = Some q"
      "query_value ''encoding'' q = Some ''json''" "query_value ''message'' q = Some ''a''"
      and rest: "\<And>key. key \<noteq> ''encoding'' \<Longrightarrow> key \<noteq> ''message'' \<Longrightarrow> query_value key q = query_value key ''message=a&x=1''"
    unfolding get(2) option.case old(1,2) by (elim exE conjE) metis
  have "query_value ''x'' q = Some ''1''" using rest [of "''x''"] old(3) by simp
  with q show ?thesis by (intro exI [of _ q] conjI)
qed

end
