(* ===== verification/Cli.thy ===== *)
theory Cli
  imports Wallet_Tx Signet_Mining "HOL-Library.Char_ord"
begin

text \<open>
  The configuration (\<open>lib/cli.rs\<close>): the options with the conflicts between them, where data and logs
  go, the client that the signet miner is given, and the dump of the configuration at start-up with
  its secrets masked. The parser of the command line is a library: what it read is the argument.
\<close>

section \<open>Options\<close>

datatype log_format = Compact | FullFormat | Json | Pretty
datatype log_rotation = Daily | Hourly | Minutely | Never

definition default_log_suffix :: "log_format \<Rightarrow> string" where
  "default_log_suffix f = (if f = Json then ''json'' else ''log'')"

record logger_config =
  lg_format :: log_format
  lg_level :: string
  lg_max_log_files :: nat
  lg_max_log_file_size_mb :: u64
  lg_directory :: "string option"
  lg_rotation :: log_rotation

record mining_config =
  mc_signet_mining_script_path :: "string option"
  mc_signet_mining_script_debug :: bool
  mc_bitcoin_util_path :: string
  mc_bitcoin_cli_path :: string

text \<open>Addresses of sockets are a host and a port; the node's is also kept as its full text in \<open>nr_addr\<close>.\<close>

record app_config =
  cf_data_dir :: string
  cf_enable_wallet :: bool
  cf_enable_mempool :: bool
  cf_enable_block_template_server :: bool
  cf_coinbase_recipient :: "string option"
  cf_logger_opts :: logger_config
  cf_gbt_cache_lifetime_s :: "u64 option"
  cf_mining_opts :: mining_config
  cf_node_rpc_opts :: node_rpc_config
  cf_node_rpc_ip :: string
  cf_node_rpc_port :: u16
  cf_node_blocks_dir :: "string option"
  cf_node_zmq_addr_sequence :: "string option"
  cf_p2p_broadcast_addr :: "(string \<times> u16) broadcast_addr list"
  cf_serve_rpc_addr :: "string \<times> u16"
  cf_serve_grpc_addr :: "string \<times> u16"
  cf_wallet_opts :: wallet_config
  cf_exit_after_sync :: "u32 option"
  cf_verify_consensus_state :: "string option"
  cf_freeze_at_height :: "u32 option"
  cf_expected_version :: "u32 option"
  cf_skip_version_check :: bool
  cf_activation_height :: u32
  cf_pqc_verify_budget_ms :: u64

text \<open>The conflicts and requirements that are declared on the options, and that the parser enforces.\<close>

definition options_allowed :: "app_config \<Rightarrow> bool" where
  "options_allowed c \<longleftrightarrow>
     (cf_enable_block_template_server c \<longrightarrow> cf_enable_mempool c)
     \<and> \<not> (wc_auto_create (cf_wallet_opts c) \<and> wc_mnemonic_path (cf_wallet_opts c) \<noteq> None)
     \<and> \<not> (cf_verify_consensus_state c \<noteq> None \<and> cf_exit_after_sync c \<noteq> None)
     \<and> \<not> (cf_freeze_at_height c \<noteq> None \<and> (cf_exit_after_sync c \<noteq> None \<or> cf_verify_consensus_state c \<noteq> None))
     \<and> \<not> (cf_skip_version_check c \<and> cf_expected_version c \<noteq> None)
     \<and> cf_gbt_cache_lifetime_s c \<noteq> Some 0"

section \<open>Where things are\<close>

text \<open>\<open>Path::join\<close>: an absolute path replaces what it is joined to.\<close>

definition path_join :: "string \<Rightarrow> string \<Rightarrow> string" where
  "path_join base p =
     (if starts_with p ''/'' then p
      else if base = [] \<or> last base = CHR ''/'' then base @ p
      else base @ ''/'' @ p)"

definition get_data_dir :: "string \<Rightarrow> (string \<Rightarrow> string option) \<Rightarrow> string + string" where
  "get_data_dir os env =
     (if os = ''linux'' then
        (case env ''XDG_DATA_HOME'' of
           Some xdg_data_home \<Rightarrow> Inr (path_join xdg_data_home ''bip360p_enforcer'')
         | None \<Rightarrow>
             bindE (ok_or (env ''HOME'') ''HOME environment variable not set'') (\<lambda>home.
             Inr (path_join (path_join (path_join home ''.local'') ''share'') ''bip360p_enforcer'')))
      else if os = ''macos'' then
        bindE (ok_or (env ''HOME'') ''HOME environment variable not set'') (\<lambda>home.
        Inr (path_join (path_join (path_join home ''Library'') ''Application Support'') ''bip360p_enforcer''))
      else if os = ''windows'' then
        bindE (ok_or (env ''APPDATA'') ''APPDATA environment variable not set'') (\<lambda>app_data.
        Inr (path_join app_data ''bip360p_enforcer''))
      else Inl (''Unsupported OS: '' @ os))"

definition default_data_dir :: "string \<Rightarrow> (string \<Rightarrow> string option) \<Rightarrow> string" where
  "default_data_dir os env = (case get_data_dir os env of Inr d \<Rightarrow> d | Inl _ \<Rightarrow> ''./datadir'')"

definition log_dir :: "app_config \<Rightarrow> string" where
  "log_dir c = (case lg_directory (cf_logger_opts c) of Some d \<Rightarrow> d | None \<Rightarrow> path_join (cf_data_dir c) ''logs'')"

definition log_filename_suffix :: "app_config \<Rightarrow> string option" where
  "log_filename_suffix c =
     (case lg_rotation (cf_logger_opts c) of
        Never \<Rightarrow> None
      | _ \<Rightarrow> Some (default_log_suffix (lg_format (cf_logger_opts c))))"

text \<open>What the log appender is built with: the directory, prefix, suffix, file count and size in bytes.\<close>

definition rolling_log_appender :: "app_config \<Rightarrow> string \<times> string \<times> string option \<times> log_rotation \<times> nat \<times> u64" where
  "rolling_log_appender c =
     (let lg = cf_logger_opts c in
      (log_dir c, ''bip360p_enforcer.log'', log_filename_suffix c, lg_rotation lg, lg_max_log_files lg,
       lg_max_log_file_size_mb lg * 1024 * 1024))"

text \<open>The lifetime of a cached template in seconds.\<close>

definition gbt_cache_lifetime :: "app_config \<Rightarrow> nat option" where
  "gbt_cache_lifetime c = map_option unat (cf_gbt_cache_lifetime_s c)"

definition config_bitcoin_cli :: "app_config \<Rightarrow> network \<Rightarrow> bitcoin_cli" where
  "config_bitcoin_cli c net =
     \<lparr>bc_path = mc_bitcoin_cli_path (cf_mining_opts c), bc_network = net,
      bc_rpc_user = nr_user (cf_node_rpc_opts c), bc_rpc_pass = nr_pass (cf_node_rpc_opts c),
      bc_rpc_cookie_path = nr_cookie_path (cf_node_rpc_opts c), bc_rpc_port = cf_node_rpc_port c,
      bc_rpc_host = cf_node_rpc_ip c, bc_rpc_wallet = None\<rparr>"

section \<open>The dump of the configuration\<close>

definition REDACTED :: string where "REDACTED = ''[redacted]''"
definition UNSET :: string where "UNSET = ''<unset>''"

text \<open>A secret is shown as the same text in every way of formatting it.\<close>

datatype secret_string = SecretString (expose: string)

definition show_secret :: "secret_string \<Rightarrow> string" where "show_secret s = REDACTED"

text \<open>URLs of the library: parsing, the password, replacing it, and the text.\<close>

record 'u url_libs =
  ul_parse :: "string \<Rightarrow> 'u option"
  ul_password :: "'u \<Rightarrow> string option"
  ul_set_password :: "string \<Rightarrow> 'u \<Rightarrow> 'u option"
  ul_text :: "'u \<Rightarrow> string"

definition redact_embedded_credentials :: "'u url_libs \<Rightarrow> string \<Rightarrow> string option" where
  "redact_embedded_credentials U s =
     Option.bind (ul_parse U s) (\<lambda>url.
     Option.bind (ul_password U url) (\<lambda>_.
     Option.bind (ul_set_password U ''redacted'' url) (\<lambda>url'.
     Some (ul_text U url'))))"

text \<open>The debug form of an ASCII string.\<close>

definition hex_text :: "nat \<Rightarrow> string" where
  "hex_text n = dropWhile (\<lambda>c. c = CHR ''0'') (hex_encode [word_of_nat n])"

definition debug_char :: "char \<Rightarrow> string" where
  "debug_char c =
     (if c = CHR 0x09 then [CHR 0x5C, CHR ''t'']
      else if c = CHR 0x0D then [CHR 0x5C, CHR ''r'']
      else if c = CHR 0x0A then [CHR 0x5C, CHR ''n'']
      else if c = CHR 0x00 then [CHR 0x5C, CHR ''0'']
      else if c = CHR 0x22 \<or> c = CHR 0x5C then [CHR 0x5C, c]
      else if (of_char c :: nat) < 32 \<or> c = CHR 0x7F then [CHR 0x5C, CHR ''u'', CHR 0x7B] @ hex_text (of_char c) @ [CHR 0x7D]
      else [c])"

definition debug_str :: "string \<Rightarrow> string" where
  "debug_str s = [CHR 0x22] @ concat (map debug_char s) @ [CHR 0x22]"

text \<open>
  An argument of the program: the long flag if it has one, its identifier, and whether its type is
  that of a secret. A run of the parser says where the value of an identifier comes from, and its raw
  values.
\<close>

record cli_arg =
  arg_long :: "string option"
  arg_id :: string
  arg_secret :: bool

datatype value_source = CommandLine | EnvVariable | DefaultValue

record arg_matches =
  am_source :: "string \<Rightarrow> value_source option"
  am_raw :: "string \<Rightarrow> string list option"

definition arg_name :: "cli_arg \<Rightarrow> string" where
  "arg_name a = (case arg_long a of Some l \<Rightarrow> ''--'' @ l | None \<Rightarrow> arg_id a)"

definition source_text :: "value_source option \<Rightarrow> string" where
  "source_text src =
     (case src of
        Some CommandLine \<Rightarrow> ''command line'' | Some EnvVariable \<Rightarrow> ''env'' | Some DefaultValue \<Rightarrow> ''default''
      | None \<Rightarrow> ''unset'')"

definition rendered_value :: "'u url_libs \<Rightarrow> bool \<Rightarrow> string list \<Rightarrow> string" where
  "rendered_value U secret vals =
     (if vals = [] then UNSET
      else if secret then REDACTED
      else
        let shown = map (\<lambda>v. debug_str (case redact_embedded_credentials U v of Some r \<Rightarrow> r | None \<Rightarrow> v)) vals in
        (case shown of [single] \<Rightarrow> single | many \<Rightarrow> ''['' @ join '', '' many @ '']''))"

definition config_line :: "'u url_libs \<Rightarrow> arg_matches \<Rightarrow> string \<times> string \<times> bool \<Rightarrow> string" where
  "config_line U M = (\<lambda>(name, ident, secret).
     let vals = (case am_raw M ident of Some vs \<Rightarrow> vs | None \<Rightarrow> []) in
     name @ ''='' @ rendered_value U secret vals @ '' ('' @ source_text (am_source M ident) @ '')'')"

definition dumped_arguments :: "cli_arg list \<Rightarrow> (string \<times> string \<times> bool) list" where
  "dumped_arguments args =
     sort (map (\<lambda>a. (arg_name a, arg_id a, arg_secret a)) (filter (\<lambda>a. arg_id a \<notin> {''help'', ''version''}) args))"

definition effective_config_lines :: "'u url_libs \<Rightarrow> cli_arg list \<Rightarrow> arg_matches \<Rightarrow> string list" where
  "effective_config_lines U args M = map (config_line U M) (dumped_arguments args)"

section \<open>What the dump shows\<close>

definition raw_values :: "arg_matches \<Rightarrow> cli_arg \<Rightarrow> string list" where
  "raw_values M a = (case am_raw M (arg_id a) of Some vs \<Rightarrow> vs | None \<Rightarrow> [])"

text \<open>Two values that are equal, or are URLs that differ in nothing but a password.\<close>

definition same_public :: "'u url_libs \<Rightarrow> string \<Rightarrow> string \<Rightarrow> bool" where
  "same_public U v w \<longleftrightarrow> v = w \<or>
     (\<exists>a b c. ul_parse U v = Some a \<and> ul_parse U w = Some b \<and> ul_password U a \<noteq> None \<and> ul_password U b \<noteq> None
        \<and> ul_set_password U ''redacted'' a = Some c \<and> ul_set_password U ''redacted'' b = Some c)"

text \<open>Two runs of the parser that differ in the values of secrets and in passwords of URLs only.\<close>

definition public_agree :: "'u url_libs \<Rightarrow> arg_matches \<Rightarrow> arg_matches \<Rightarrow> cli_arg \<Rightarrow> bool" where
  "public_agree U M M' a \<longleftrightarrow> am_source M (arg_id a) = am_source M' (arg_id a)
     \<and> (if arg_secret a then (raw_values M a = [] \<longleftrightarrow> raw_values M' a = [])
        else list_all2 (same_public U) (raw_values M a) (raw_values M' a))"

lemma same_public_shown:
  assumes "same_public U v w"
  shows "(case redact_embedded_credentials U v of Some r \<Rightarrow> r | None \<Rightarrow> v)
    = (case redact_embedded_credentials U w of Some r \<Rightarrow> r | None \<Rightarrow> w)"
  using assms by (auto simp: same_public_def redact_embedded_credentials_def)

lemma rendered_agree:
  assumes "list_all2 (same_public U) vs ws"
  shows "rendered_value U False vs = rendered_value U False ws"
proof -
  have "map (\<lambda>v. debug_str (case redact_embedded_credentials U v of Some r \<Rightarrow> r | None \<Rightarrow> v)) vs
      = map (\<lambda>v. debug_str (case redact_embedded_credentials U v of Some r \<Rightarrow> r | None \<Rightarrow> v)) ws"
    using assms by (induction rule: list_all2_induct) (auto dest: same_public_shown)
  moreover have "vs = [] \<longleftrightarrow> ws = []" using assms by auto
  ultimately show ?thesis by (simp add: rendered_value_def)
qed

lemma config_line_agree:
  assumes "public_agree U M M' a"
  shows "config_line U M (arg_name a, arg_id a, arg_secret a) = config_line U M' (arg_name a, arg_id a, arg_secret a)"
proof (cases "arg_secret a")
  case True
  then show ?thesis
    using assms unfolding public_agree_def raw_values_def config_line_def rendered_value_def by (simp add: Let_def)
next
  case False
  then show ?thesis
    using assms rendered_agree [of U "raw_values M a" "raw_values M' a"]
    unfolding public_agree_def raw_values_def config_line_def by (simp add: Let_def)
qed

lemma sorted_names:
  fixes xs :: "(string \<times> string \<times> bool) list"
  shows "sorted xs \<Longrightarrow> sorted (map fst xs)"
  by (induction xs) (auto simp: less_eq_prod_def)

text \<open>
  C40: the dump of the configuration tells nothing of its secrets. Two runs of the program whose
  arguments differ in the values of secret arguments and in the passwords of URLs, and in nothing
  else, write the same lines; there is one line for every argument but help and version, in the order
  of their flags; and a single value that is neither secret nor a URL with a password is written out.
\<close>
theorem config_dump_hides_secrets:
  assumes "\<forall>a\<in>set args. public_agree U M M' a"
  shows "effective_config_lines U args M = effective_config_lines U args M'
    \<and> mset (map (\<lambda>(name, ident, _). (name, ident)) (dumped_arguments args))
        = image_mset (\<lambda>a. (arg_name a, arg_id a)) (mset (filter (\<lambda>a. arg_id a \<notin> {''help'', ''version''}) args))
    \<and> sorted (map fst (dumped_arguments args))
    \<and> length (effective_config_lines U args M) = length (dumped_arguments args)
    \<and> (\<forall>a\<in>set args. \<forall>v. arg_id a \<notin> {''help'', ''version''} \<and> \<not> arg_secret a \<and> raw_values M a = [v]
          \<and> redact_embedded_credentials U v = None \<longrightarrow>
        arg_name a @ ''='' @ debug_str v @ '' ('' @ source_text (am_source M (arg_id a)) @ '')''
          \<in> set (effective_config_lines U args M))"
proof (intro conjI ballI allI impI)
  have "config_line U M t = config_line U M' t" if "t \<in> set (dumped_arguments args)" for t
    using that config_line_agree [of U M M'] assms by (auto simp: dumped_arguments_def)
  then show "effective_config_lines U args M = effective_config_lines U args M'"
    by (simp add: effective_config_lines_def)
  show "mset (map (\<lambda>(name, ident, _). (name, ident)) (dumped_arguments args))
      = image_mset (\<lambda>a. (arg_name a, arg_id a)) (mset (filter (\<lambda>a. arg_id a \<notin> {''help'', ''version''}) args))"
    by (simp add: dumped_arguments_def image_mset.compositionality o_def case_prod_beta)
  show "sorted (map fst (dumped_arguments args))" by (simp add: sorted_names dumped_arguments_def)
  show "length (effective_config_lines U args M) = length (dumped_arguments args)"
    by (simp add: effective_config_lines_def)
  fix a v
  assume a: "a \<in> set args"
    and v: "arg_id a \<notin> {''help'', ''version''} \<and> \<not> arg_secret a \<and> raw_values M a = [v]
      \<and> redact_embedded_credentials U v = None"
  have "(arg_name a, arg_id a, arg_secret a) \<in> set (dumped_arguments args)"
    using a v by (auto simp: dumped_arguments_def)
  then have "config_line U M (arg_name a, arg_id a, arg_secret a) \<in> set (effective_config_lines U args M)"
    by (simp add: effective_config_lines_def)
  moreover have "config_line U M (arg_name a, arg_id a, arg_secret a)
      = arg_name a @ ''='' @ debug_str v @ '' ('' @ source_text (am_source M (arg_id a)) @ '')''"
    using v by (simp add: config_line_def rendered_value_def raw_values_def Let_def)
  ultimately show "arg_name a @ ''='' @ debug_str v @ '' ('' @ source_text (am_source M (arg_id a)) @ '')''
      \<in> set (effective_config_lines U args M)" by simp
qed

definition demo_urls :: "(string \<times> string) url_libs" where
  "demo_urls = \<lparr>ul_parse = rsplit_once (CHR ''@''), ul_password = (\<lambda>(p, _). Some p),
     ul_set_password = (\<lambda>p (_, h). Some (p, h)), ul_text = (\<lambda>(p, h). p @ ''@'' @ h)\<rparr>"

definition demo_args :: "cli_arg list" where
  "demo_args = [\<lparr>arg_long = Some ''node-rpc-pass'', arg_id = ''pass'', arg_secret = True\<rparr>,
     \<lparr>arg_long = Some ''wallet-esplora-url'', arg_id = ''esplora_url'', arg_secret = False\<rparr>,
     \<lparr>arg_long = Some ''node-rpc-user'', arg_id = ''user'', arg_secret = False\<rparr>]"

definition demo_matches :: "string \<Rightarrow> arg_matches" where
  "demo_matches pw = \<lparr>am_source = (\<lambda>_. Some CommandLine), am_raw = (\<lambda>i.
     if i = ''pass'' then Some [pw] else if i = ''user'' then Some [''alice''] else Some [pw @ ''@host''])\<rparr>"

theorem config_dump_hides_secrets_witness:
  "effective_config_lines demo_urls demo_args (demo_matches ''hunter2'')
     = effective_config_lines demo_urls demo_args (demo_matches ''swordfish'')
   \<and> ''--node-rpc-user='' @ debug_str ''alice'' @ '' (command line)''
     \<in> set (effective_config_lines demo_urls demo_args (demo_matches ''hunter2''))"
proof -
  have url: "rsplit_once (CHR ''@'') (pw @ ''@host'') = Some (pw, ''host'')" for pw
    using rsplit_once_last [of "CHR ''@''" "''host''" pw] by simp
  have agree: "\<forall>a\<in>set demo_args. public_agree demo_urls (demo_matches ''hunter2'') (demo_matches ''swordfish'') a"
    using url [of "''hunter2''"] url [of "''swordfish''"]
    by (simp add: demo_args_def public_agree_def raw_values_def demo_matches_def same_public_def demo_urls_def)
  have user: "\<lparr>arg_long = Some ''node-rpc-user'', arg_id = ''user'', arg_secret = False\<rparr> \<in> set demo_args"
    by (simp add: demo_args_def)
  have alice: "redact_embedded_credentials demo_urls ''alice'' = None"
    by (simp add: redact_embedded_credentials_def demo_urls_def rsplit_once_def)
  note facts = config_dump_hides_secrets [OF agree]
  from facts have shown: "\<And>a v. a \<in> set demo_args \<Longrightarrow> arg_id a \<notin> {''help'', ''version''} \<and> \<not> arg_secret a
      \<and> raw_values (demo_matches ''hunter2'') a = [v] \<and> redact_embedded_credentials demo_urls v = None \<Longrightarrow>
    arg_name a @ ''='' @ debug_str v @ '' ('' @ source_text (am_source (demo_matches ''hunter2'') (arg_id a)) @ '')''
      \<in> set (effective_config_lines demo_urls demo_args (demo_matches ''hunter2''))" by blast
  have "raw_values (demo_matches ''hunter2'') \<lparr>arg_long = Some ''node-rpc-user'', arg_id = ''user'', arg_secret = False\<rparr> = [''alice'']"
    by (simp add: raw_values_def demo_matches_def)
  with shown [OF user, of "''alice''"] alice show ?thesis
    using conjunct1 [OF facts] by (simp add: arg_name_def source_text_def demo_matches_def)
qed

end
