(* ===== verification/App.thy ===== *)
theory App
  imports Rpc_Wallet Http_Server Cli
begin

text \<open>
  The process (\<open>app/main.rs\<close>): the checks and choices at start-up, the tasks that are spawned, the
  bounded synchronisation with the verification of its result, and how the process ends. Texts of
  errors are kept where the program composes them, and left out where they only name a library's error.
\<close>

section \<open>Modes\<close>

text \<open>Validator only, block producer, or wallet.\<close>

datatype enforcer_mode = ValidatorMode | ProducerMode | WalletMode

definition mining_enabled :: "network \<Rightarrow> bool" where
  "mining_enabled net = (net = Regtest \<or> net = Signet)"

definition select_mode :: "app_config \<Rightarrow> network \<Rightarrow> enforcer_mode" where
  "select_mode c net =
     (if cf_enable_wallet c then WalletMode
      else if cf_enable_block_template_server c \<or> mining_enabled net then ProducerMode
      else ValidatorMode)"

definition has_wallet :: "enforcer_mode \<Rightarrow> bool" where
  "has_wallet mode = (case mode of WalletMode \<Rightarrow> True | ValidatorMode \<Rightarrow> False | ProducerMode \<Rightarrow> False)"

section \<open>Errors of the start-up\<close>

datatype start_error =
  LoadReference | InvalidReference string
| RestWait rest_wait_error | ClientError rpc_client_error | NodeWait node_wait_error
| VersionError version_check_error | CreateDataDirs | OpenValidator
| TemplateRpc string | NoTemplateChallenge | StandardSignet
| InvalidCoinbaseRecipient | TemplateClient
| IndexInfo string | TxindexNotEnabled | WalletStart init_wallet
| ReadMnemonicFile string | InvalidMnemonic | CreateWallet create_new_wallet_error
| ZmqRpc string | ZmqNotificationMissing | FullScanFailed
| RecipientRequired

section \<open>The signet challenge\<close>

definition STANDARD_SIGNET_CHALLENGE_HEX :: string where
  "STANDARD_SIGNET_CHALLENGE_HEX = ''512103ad5e0edad18cb1f0fc0d28a3d4f1f3e445640337489abb10404f2d1e086be430''
     @ ''210359ef5021964fe22d6f8e05b2463c9540ce96883fe3b278760f048f5189f2e6c452ae''"

text \<open>The rules of a template request, after the default ones.\<close>

definition template_rules :: "string list \<Rightarrow> network \<Rightarrow> string list" where
  "template_rules rules net = (if net = Signet then rules @ [''signet''] else rules)"

text \<open>\<open>get_template\<close> asks for a template under some rules and gives its challenge, if it has one.\<close>

definition find_signet_challenge ::
  "(string list \<Rightarrow> string + bytes option) \<Rightarrow> string list \<Rightarrow> network \<Rightarrow> start_error + bytes option" where
  "find_signet_challenge get_template rules net =
     (if net = Signet then
        bindE (mapErr TemplateRpc (get_template (template_rules rules net))) (\<lambda>challenge.
        bindE (ok_or challenge NoTemplateChallenge) (\<lambda>signet_challenge.
        bindE (guardE (hex_encode signet_challenge \<noteq> STANDARD_SIGNET_CHALLENGE_HEX) StandardSignet) (\<lambda>_.
        Inr (Some signet_challenge))))
      else Inr None)"

section \<open>Directories and the recipient\<close>

definition chain_dir_name :: "(network \<Rightarrow> string) \<Rightarrow> network \<Rightarrow> network_params \<Rightarrow> string" where
  "chain_dir_name network_text net params =
     (case np_datadir_suffix params of
        Some suffix \<Rightarrow> network_text net @ ''-'' @ suffix
      | None \<Rightarrow> network_text net)"

definition validator_data_dir :: "(network \<Rightarrow> string) \<Rightarrow> app_config \<Rightarrow> network \<Rightarrow> string" where
  "validator_data_dir network_text c net =
     path_join (path_join (cf_data_dir c) ''validator'') (chain_dir_name network_text net (params_for_network net))"

definition wallet_data_dir :: "(network \<Rightarrow> string) \<Rightarrow> app_config \<Rightarrow> network \<Rightarrow> string" where
  "wallet_data_dir network_text c net =
     path_join (path_join (cf_data_dir c) ''wallet'') (chain_dir_name network_text net (params_for_network net))"

text \<open>The parser of the command line has read the address already; \<open>on_network\<close> is the library's check.\<close>

definition check_coinbase_recipient ::
  "(string \<Rightarrow> network \<Rightarrow> bool) \<Rightarrow> app_config \<Rightarrow> network \<Rightarrow> start_error + string option" where
  "check_coinbase_recipient on_network c net =
     (case cf_coinbase_recipient c of
        None \<Rightarrow> Inr None
      | Some a \<Rightarrow> bindE (guardE (on_network a net) InvalidCoinbaseRecipient) (\<lambda>_. Inr (Some a)))"

definition validator_new :: "dbs \<Rightarrow> app_config \<Rightarrow> validator" where
  "validator_new D c =
     \<lparr>vd_dbs = D, vd_events_tx = [], vd_header_sync_progress = None,
      vd_activation_height = cf_activation_height c, vd_pqc_verify_budget_ms = unat (cf_pqc_verify_budget_ms c)\<rparr>"

section \<open>The wallet at start-up\<close>

text \<open>The mnemonic to create a wallet from, and whether to create one.\<close>

definition choose_mnemonic ::
  "('m, 'w, 'd) seed_libs \<Rightarrow> (string \<Rightarrow> string option) \<Rightarrow> app_config \<Rightarrow> start_error + 'm option \<times> bool" where
  "choose_mnemonic L read c =
     (case wc_mnemonic_path (cf_wallet_opts c) of
        Some mnemonic_path \<Rightarrow>
          bindE (ok_or (read mnemonic_path) (ReadMnemonicFile mnemonic_path)) (\<lambda>mnemonic_str.
          bindE (ok_or (sl_parse_english L (str_bytes mnemonic_str)) InvalidMnemonic) (\<lambda>mnemonic.
          Inr (Some mnemonic, True)))
      | None \<Rightarrow> Inr (None, wc_auto_create (cf_wallet_opts c)))"

definition auto_create_wallet ::
  "('m, 'w, 'd) seed_libs \<Rightarrow> seed_faults \<Rightarrow> network \<Rightarrow> (string \<Rightarrow> string option) \<Rightarrow> app_config
    \<Rightarrow> (('w, 'd) seed_wallet, start_error, unit) st" where
  "auto_create_wallet L F net read c =
     bindS (liftS (\<lambda>_. choose_mnemonic L read c)) (\<lambda>(mnemonic, auto_create).
     (\<lambda>s. if \<not> is_initialized s \<and> auto_create then
        mapErrS CreateWallet (create_new_wallet L F net mnemonic None) s
      else (Inr (), s)))"

section \<open>Notifications of the node\<close>

text \<open>Notifications are a type and an address.\<close>

definition get_zmq_addr_sequence :: "string + (string \<times> string) list \<Rightarrow> start_error + string" where
  "get_zmq_addr_sequence notifications =
     bindE (mapErr ZmqRpc notifications) (\<lambda>ns.
     ok_or (map_option snd (find (\<lambda>(t, _). t = ''pubsequence'') ns)) ZmqNotificationMissing)"

text \<open>The outcome of connecting to an address within the timeout.\<close>

datatype connect_outcome = PortConnected | PortRefused | PortError | PortTimeout

definition is_address_port_open :: "(string \<Rightarrow> connect_outcome) \<Rightarrow> string \<Rightarrow> unit + bool" where
  "is_address_port_open connect address =
     (let address' = (case strip_prefix address ''tcp://'' of Some a \<Rightarrow> a | None \<Rightarrow> []) in
      case connect address' of
        PortConnected \<Rightarrow> Inr True
      | PortRefused \<Rightarrow> Inr False
      | PortError \<Rightarrow> Inl ()
      | PortTimeout \<Rightarrow> Inr False)"

datatype 'e mempool_task_error = InitialSyncFailed 'e | SyncTaskFailed 'e | ZmqCheck string | ZmqNotReachable string

text \<open>\<open>init\<close> is the initial synchronisation of the mempool library.\<close>

definition sync_mempool ::
  "(string \<Rightarrow> connect_outcome) \<Rightarrow> 'e + 'm \<Rightarrow> string \<Rightarrow> 'e mempool_task_error + 'm" where
  "sync_mempool connect init zmq_addr_sequence =
     (case is_address_port_open connect zmq_addr_sequence of
        Inr True \<Rightarrow> mapErr InitialSyncFailed init
      | Inr False \<Rightarrow> Inl (ZmqNotReachable zmq_addr_sequence)
      | Inl _ \<Rightarrow> Inl (ZmqCheck zmq_addr_sequence))"

text \<open>The loop that waits for a first template: \<open>answers n\<close> is the \<open>n\<close>-th answer of the node.\<close>

datatype sample_template_error = NotConnected | SampleTemplate client_error

partial_function (option) sample_block_template ::
  "(nat \<Rightarrow> client_error + 't) \<Rightarrow> nat \<Rightarrow> (sample_template_error + 't) option" where
  "sample_block_template answers n =
     (case answers n of
        Inr template \<Rightarrow> Some (Inr template)
      | Inl err \<Rightarrow>
          (case err of
             CallError code _ \<Rightarrow>
               if code = - 10 then sample_block_template answers (n + 1)
               else if code = - 9 then Some (Inl NotConnected)
               else Some (Inl (SampleTemplate err))
           | _ \<Rightarrow> Some (Inl (SampleTemplate err))))"

section \<open>Tasks\<close>

record gbt_config =
  gc_mining_reward_address :: string
  gc_network :: network
  gc_cache_lifetime :: "nat option"
  gc_serve_rpc_addr :: "string \<times> u16"

datatype app_task =
  NoMempoolTask
| ValidatorMempoolTask
| ProducerMempoolTask "gbt_config option"
| WalletMempoolTask "string option"
| ConnectServerTask bool bool "string \<times> u16"
| WalletSyncTask
| ExitAfterSyncTask u32 "sync_state_summary option" string
| FreezeAtHeightTask u32

definition gbt_config_of :: "app_config \<Rightarrow> network \<Rightarrow> string \<Rightarrow> gbt_config" where
  "gbt_config_of c net mining_reward_address =
     \<lparr>gc_mining_reward_address = mining_reward_address, gc_network = net, gc_cache_lifetime = gbt_cache_lifetime c,
      gc_serve_rpc_addr = cf_serve_rpc_addr c\<rparr>"

text \<open>The wallet's mempool task first finds out where the reward goes; \<open>new_address\<close> is the wallet's answer.\<close>

datatype wallet_task_error = WalletNotInitialized | RewardAddress get_new_address_error

definition wallet_mempool_gbt ::
  "app_config \<Rightarrow> network \<Rightarrow> string option \<Rightarrow> bool \<Rightarrow> get_new_address_error + string
    \<Rightarrow> wallet_task_error + gbt_config option" where
  "wallet_mempool_gbt c net coinbase_recipient initialized new_address =
     bindE (guardE initialized WalletNotInitialized) (\<lambda>_.
     if cf_enable_block_template_server c then
       bindE (case coinbase_recipient of Some addr \<Rightarrow> Inr addr | None \<Rightarrow> mapErr RewardAddress new_address) (\<lambda>addr.
       Inr (Some (gbt_config_of c net addr)))
     else Inr None)"

definition exit_after_sync_mode :: "app_config \<Rightarrow> bool" where
  "exit_after_sync_mode c = (cf_exit_after_sync c \<noteq> None \<or> cf_verify_consensus_state c \<noteq> None)"

definition bounded_sync_mode :: "app_config \<Rightarrow> bool" where
  "bounded_sync_mode c = (exit_after_sync_mode c \<or> cf_freeze_at_height c \<noteq> None)"

definition tip_task ::
  "app_config \<Rightarrow> network \<Rightarrow> enforcer_mode \<Rightarrow> string option \<Rightarrow> start_error + app_task" where
  "tip_task c net mode coinbase_recipient =
     (if \<not> cf_enable_mempool c then Inr NoMempoolTask
      else case mode of
        ValidatorMode \<Rightarrow> Inr ValidatorMempoolTask
      | ProducerMode \<Rightarrow>
          if cf_enable_block_template_server c then
            bindE (ok_or coinbase_recipient RecipientRequired) (\<lambda>addr.
            Inr (ProducerMempoolTask (Some (gbt_config_of c net addr))))
          else Inr (ProducerMempoolTask None)
      | WalletMode \<Rightarrow> Inr (WalletMempoolTask coinbase_recipient))"

text \<open>\<open>blocks\<close> is the height of the node's chain when the process started.\<close>

definition exit_after_sync_task :: "app_config \<Rightarrow> u32 \<Rightarrow> sync_state_summary option \<Rightarrow> app_task" where
  "exit_after_sync_task c blocks verify_reference =
     (let (goal_height, reference) =
        (case verify_reference of
           Some reference \<Rightarrow> (ss_tip_height reference, Some reference)
         | None \<Rightarrow>
             let exit_after_sync = (case cf_exit_after_sync c of Some n \<Rightarrow> n | None \<Rightarrow> 0) in
             (if exit_after_sync \<noteq> 0 then exit_after_sync else blocks, None)) in
      ExitAfterSyncTask goal_height reference (path_join (cf_data_dir c) ''consensus-state.json''))"

definition spawn_tasks ::
  "app_config \<Rightarrow> network \<Rightarrow> u32 \<Rightarrow> enforcer_mode \<Rightarrow> sync_state_summary option \<Rightarrow> string option
    \<Rightarrow> start_error + app_task list" where
  "spawn_tasks c net blocks mode verify_reference coinbase_recipient =
     bindE (if bounded_sync_mode c then Inr []
            else bindE (tip_task c net mode coinbase_recipient) (\<lambda>t. Inr [t])) (\<lambda>tip_tasks.
     let connect = [ConnectServerTask (mining_enabled net) (has_wallet mode) (cf_serve_grpc_addr c)];
         wallet_sync = (if has_wallet mode \<and> \<not> wc_skip_periodic_sync (cf_wallet_opts c)
             \<and> wc_sync_source (cf_wallet_opts c) \<noteq> SyncDisabled then [WalletSyncTask] else []);
         exit_task = (if exit_after_sync_mode c then [exit_after_sync_task c blocks verify_reference] else []);
         freeze = (case cf_freeze_at_height c of Some goal_height \<Rightarrow> [FreezeAtHeightTask goal_height] | None \<Rightarrow> []) in
     Inr (tip_tasks @ connect @ wallet_sync @ exit_task @ freeze))"

text \<open>
  The server of block templates: \<open>network_info\<close>, \<open>server_new\<close> and \<open>bind\<close> say whether the node, the
  library and the socket succeed; it does not return while the node answers that it is warming up.
\<close>

datatype template_server_error =
  NetworkInfoFailed | SampleFailed sample_template_error | ServerNew | ServerBind

definition spawn_block_template_server ::
  "bool \<Rightarrow> (nat \<Rightarrow> client_error + 't) \<Rightarrow> ('t \<Rightarrow> bool) \<Rightarrow> bool \<Rightarrow> (template_server_error + unit) option" where
  "spawn_block_template_server network_info answers server_new bind =
     (if \<not> network_info then Some (Inl NetworkInfoFailed)
      else map_option (\<lambda>r.
        bindE (mapErr SampleFailed r) (\<lambda>sample.
        bindE (guardE (server_new sample) ServerNew) (\<lambda>_.
        guardE bind ServerBind))) (sample_block_template answers 0))"

text \<open>A task waits for the first of a shutdown, an error of the mempool library, and its end.\<close>

datatype 'e wait_event = WaitCancelled | WaitError 'e | WaitSenderGone

definition wait_for_error_or_shutdown :: "'e wait_event \<Rightarrow> 'e + unit" where
  "wait_for_error_or_shutdown e =
     (case e of WaitCancelled \<Rightarrow> Inr () | WaitError err \<Rightarrow> Inl err | WaitSenderGone \<Rightarrow> Inr ())"

datatype 'e mempool_run_error = MempoolFailed "'e mempool_task_error" | TemplateServerFailed template_server_error

definition run_validator_mempool_task ::
  "(string \<Rightarrow> connect_outcome) \<Rightarrow> 'e + 'm \<Rightarrow> string \<Rightarrow> 'e wait_event \<Rightarrow> 'e mempool_run_error + unit" where
  "run_validator_mempool_task connect init zmq_addr_sequence event =
     bindE (mapErr MempoolFailed (sync_mempool connect init zmq_addr_sequence)) (\<lambda>_.
     mapErr (\<lambda>err. MempoolFailed (SyncTaskFailed err)) (wait_for_error_or_shutdown event))"

text \<open>\<open>serve\<close> brings up the template server with a configuration; it is stopped at the end.\<close>

definition run_block_producer_mempool_task ::
  "(string \<Rightarrow> connect_outcome) \<Rightarrow> 'e + 'm \<Rightarrow> (gbt_config \<Rightarrow> (template_server_error + unit) option)
    \<Rightarrow> gbt_config option \<Rightarrow> string \<Rightarrow> 'e wait_event \<Rightarrow> ('e mempool_run_error + unit) option" where
  "run_block_producer_mempool_task connect init serve gbt zmq_addr_sequence event =
     (case sync_mempool connect init zmq_addr_sequence of
        Inl err \<Rightarrow> Some (Inl (MempoolFailed err))
      | Inr _ \<Rightarrow>
          (let finish = mapErr (\<lambda>err. MempoolFailed (SyncTaskFailed err)) (wait_for_error_or_shutdown event) in
           case gbt of
             Some g \<Rightarrow> map_option (\<lambda>r. bindE (mapErr TemplateServerFailed r) (\<lambda>_. finish)) (serve g)
           | None \<Rightarrow> Some finish))"

text \<open>
  The wallet's own synchronisation (\<open>lib/wallet/mod.rs\<close>): at every tick of its timer, until the
  shutdown. The task is over when the result is \<open>True\<close>; a failed synchronisation is logged.
\<close>

datatype sync_signal = SyncTick wallet_node | SyncShutdown

definition sync_tick ::
  "('w, 'c, 'u) bdk \<Rightarrow> wallet_node \<Rightarrow> ('w, 'c, 'u) wallet_inner \<Rightarrow> ('w, 'c, 'u) wallet_inner" where
  "sync_tick B N w = (if wi_last_sync w = None then w else snd (wallet_sync B N w))"

fun sync_task ::
  "('w, 'c, 'u) bdk \<Rightarrow> sync_signal list \<Rightarrow> ('w, 'c, 'u) wallet_inner \<Rightarrow> bool \<times> ('w, 'c, 'u) wallet_inner" where
  "sync_task B [] w = (False, w)"
| "sync_task B (SyncShutdown # signals) w = (True, w)"
| "sync_task B (SyncTick N # signals) w = sync_task B signals (sync_tick B N w)"

text \<open>How the process ends: the first task that ends decides, or the interruption by a signal.\<close>

datatype process_event =
  TaskEnded app_task bool | TaskPanicked | NoTasks | Interrupted | SignalFailed

definition process_succeeds :: "process_event \<Rightarrow> bool" where
  "process_succeeds e =
     (case e of TaskEnded _ success \<Rightarrow> success | TaskPanicked \<Rightarrow> False | NoTasks \<Rightarrow> False
      | Interrupted \<Rightarrow> True | SignalFailed \<Rightarrow> False)"

section \<open>Start-up\<close>

text \<open>What start-up finds outside: files, the node, the directories, the sources of the wallet.\<close>

record ('m, 'w, 'c, 'u) outside =
  os_read :: "string \<Rightarrow> string option"
  os_from_json :: "string \<Rightarrow> sync_state_summary option"
  os_rest :: "nat \<Rightarrow> rest_answer"
  os_build_client :: "string \<Rightarrow> string \<Rightarrow> string \<Rightarrow> unit option"
  os_chain_info :: "nat \<Rightarrow> client_error + network \<times> u32"
  os_network_info :: "string + network_info_version"
  os_network_text :: "network \<Rightarrow> string"
  os_make_dir :: "string \<Rightarrow> bool"
  os_open_dbs :: "string \<Rightarrow> dbs option"
  os_get_template :: "string list \<Rightarrow> string + bytes option"
  os_default_rules :: "string list"
  os_on_network :: "string \<Rightarrow> network \<Rightarrow> bool"
  os_template_client :: bool
  os_index_info :: "string + string list"
  os_seed_libs :: "('m, 'w, 'w option) seed_libs"
  os_faults :: seed_faults
  os_sources :: "nat \<Rightarrow> ('w, 'c, 'u) chain_source source_services"
  os_database :: "'w option option"
  os_seed_dir :: seed_dir
  os_zmq :: "string + (string \<times> string) list"
  os_full_scan :: "('w, 'c, 'u) wallet_inner \<Rightarrow> ('w, 'c, 'u) wallet_inner option"

record ('w, 'c, 'u) started =
  sd_network :: network
  sd_mode :: enforcer_mode
  sd_validator :: validator
  sd_wallet :: "('w, 'c, 'u) wallet_inner option"
  sd_wallet_dir :: seed_dir
  sd_zmq_addr_sequence :: string
  sd_tasks :: "app_task list"

text \<open>Sequencing of steps that may fail or never return.\<close>

definition bindR :: "('e + 'a) option \<Rightarrow> ('a \<Rightarrow> ('e + 'b) option) \<Rightarrow> ('e + 'b) option" where
  "bindR m k = Option.bind m (\<lambda>r. case r of Inl e \<Rightarrow> Some (Inl e) | Inr x \<Rightarrow> k x)"

definition load_reference :: "('m, 'w, 'c, 'u) outside \<Rightarrow> app_config \<Rightarrow> start_error + sync_state_summary option" where
  "load_reference E c =
     (case cf_verify_consensus_state c of
        None \<Rightarrow> Inr None
      | Some path \<Rightarrow>
          bindE (ok_or (os_read E path) LoadReference) (\<lambda>contents.
          bindE (ok_or (os_from_json E contents) (InvalidReference path)) (\<lambda>reference.
          Inr (Some reference))))"

text \<open>The wallet: opened, and created if asked to; its seed and its database change together.\<close>

definition start_wallet ::
  "('m, 'w, 'c, 'u) outside \<Rightarrow> app_config \<Rightarrow> network \<Rightarrow> bytes option \<Rightarrow> producer
    \<Rightarrow> (start_error + ('w, 'c, 'u) wallet_inner \<times> seed_dir) option" where
  "start_wallet E c net signet_challenge p =
     bindR (Some (mapErr IndexInfo (os_index_info E))) (\<lambda>indexes.
     bindR (Some (guardE (''txindex'' \<in> set indexes) TxindexNotEnabled)) (\<lambda>_.
     bindR (map_option (mapErr WalletStart) (wallet_inner_new (os_seed_libs E) (os_faults E) (os_sources E)
         (cf_wallet_opts c) net signet_challenge p (os_database E) (os_seed_dir E))) (\<lambda>inner.
     case auto_create_wallet (os_seed_libs E) (os_faults E) net (os_read E) c
         \<lparr>sw_dir = os_seed_dir E, sw_bitcoin_wallet = wi_bitcoin_wallet inner, sw_bdk_db = wi_bdk_db inner\<rparr> of
       (Inl e, _) \<Rightarrow> Some (Inl e)
     | (Inr _, s) \<Rightarrow>
         Some (Inr (inner\<lparr>wi_bitcoin_wallet := sw_bitcoin_wallet s, wi_bdk_db := sw_bdk_db s\<rparr>, sw_dir s)))))"

definition start_enforcer ::
  "('m, 'w, 'c, 'u) outside \<Rightarrow> app_config \<Rightarrow> network \<Rightarrow> bytes option \<Rightarrow> enforcer_mode \<Rightarrow> producer
    \<Rightarrow> (start_error + ('w, 'c, 'u) wallet_inner option \<times> seed_dir) option" where
  "start_enforcer E c net signet_challenge mode p =
     (if mode = WalletMode
      then bindR (start_wallet E c net signet_challenge p) (\<lambda>(w, dir). Some (Inr (Some w, dir)))
      else Some (Inr (None, os_seed_dir E)))"

text \<open>The full scan that blocks the start-up, if it was asked for.\<close>

definition scan_at_start ::
  "('m, 'w, 'c, 'u) outside \<Rightarrow> app_config \<Rightarrow> ('w, 'c, 'u) wallet_inner option
    \<Rightarrow> start_error + ('w, 'c, 'u) wallet_inner option" where
  "scan_at_start E c wallet =
     (case wallet of
        Some w \<Rightarrow> if wc_full_scan (cf_wallet_opts c)
          then bindE (ok_or (os_full_scan E w) FullScanFailed) (\<lambda>w'. Inr (Some w')) else Inr (Some w)
      | None \<Rightarrow> Inr None)"

definition start :: "('m, 'w, 'c, 'u) outside \<Rightarrow> app_config \<Rightarrow> (start_error + ('w, 'c, 'u) started) option" where
  "start E c =
     bindR (Some (load_reference E c)) (\<lambda>verify_reference.
     bindR (Some (mapErr RestWait (wait_for_rest (os_rest E) 0))) (\<lambda>_.
     bindR (Some (mapErr ClientError (create_client (os_read E) (os_build_client E) (cf_node_rpc_opts c)))) (\<lambda>_.
     bindR (map_option (mapErr NodeWait) (wait_for_rpc (os_chain_info E) 0)) (\<lambda>(net, blocks).
     bindR (Some (mapErr VersionError (check_bitcoin_core_version (os_network_info E) (cf_expected_version c)
         (cf_skip_version_check c)))) (\<lambda>_.
     bindR (Some (guardE (os_make_dir E (validator_data_dir (os_network_text E) c net)
         \<and> os_make_dir E (wallet_data_dir (os_network_text E) c net)) CreateDataDirs)) (\<lambda>_.
     bindR (Some (ok_or (os_open_dbs E (validator_data_dir (os_network_text E) c net)) OpenValidator)) (\<lambda>D.
     bindR (Some (find_signet_challenge (os_get_template E) (os_default_rules E) net)) (\<lambda>signet_challenge.
     bindR (Some (check_coinbase_recipient (os_on_network E) c net)) (\<lambda>coinbase_recipient.
     bindR (Some (guardE (cf_enable_block_template_server c \<longrightarrow> os_template_client E) TemplateClient)) (\<lambda>_.
     let V = validator_new D c; mode = select_mode c net;
         p = \<lparr>bp_validator = V, bp_last_gbt_error = None, bp_pending = []\<rparr> in
     bindR (start_enforcer E c net signet_challenge mode p) (\<lambda>(wallet, dir).
     bindR (Some (case cf_node_zmq_addr_sequence c of
         Some addr \<Rightarrow> Inr addr | None \<Rightarrow> get_zmq_addr_sequence (os_zmq E))) (\<lambda>zmq.
     bindR (Some (scan_at_start E c wallet)) (\<lambda>wallet.
     bindR (Some (spawn_tasks c net blocks mode verify_reference coinbase_recipient)) (\<lambda>tasks.
     Some (Inr \<lparr>sd_network = net, sd_mode = mode, sd_validator = V, sd_wallet = wallet, sd_wallet_dir = dir,
       sd_zmq_addr_sequence = zmq, sd_tasks = tasks\<rparr>)))))))))))))))"

section \<open>Bounded synchronisation\<close>

datatype bounded_error =
  PastHeight u32 u32 | ResolveBlock client_error | BoundedSync sync_to_tip_error
| SummaryFailed summary_error | WriteSummary | ConsensusMismatch string

definition known_height :: "dbs \<Rightarrow> u32 option" where
  "known_height D = (case try_get_block_height D of Inr h \<Rightarrow> h | Inl _ \<Rightarrow> None)"

text \<open>\<open>getblockhash\<close> is the node's; \<open>shutdown\<close> is the interruption of the synchronisation.\<close>

definition sync_to_height ::
  "libs \<Rightarrow> block_file_libs \<Rightarrow> mainchain \<Rightarrow> network \<Rightarrow> blocks_dir option \<Rightarrow> sync_state option
    \<Rightarrow> (u32 \<Rightarrow> client_error + bytes) \<Rightarrow> u32 \<Rightarrow> validator \<Rightarrow> ((bounded_error + u32 option) \<times> validator) option" where
  "sync_to_height L B M net dir shutdown getblockhash goal_height V =
     (let past = (case known_height (vd_dbs V) of
        Some current \<Rightarrow> if current > goal_height then Some current else None | None \<Rightarrow> None) in
      case past of
        Some current \<Rightarrow> Some (Inl (PastHeight current goal_height), V)
      | None \<Rightarrow>
          (case getblockhash goal_height of
             Inl e \<Rightarrow> Some (Inl (ResolveBlock e), V)
           | Inr target_hash \<Rightarrow>
               Option.bind (enforcer_sync_to_tip L B M net dir shutdown target_hash V) (\<lambda>(r, V').
               Some (bindE (mapErr BoundedSync r) (\<lambda>_. Inr (known_height (vd_dbs V'))), V'))))"

text \<open>The summary that is written to the state file; \<open>save\<close> says whether that succeeds.\<close>

definition report_sync_state ::
  "(sync_state_summary \<Rightarrow> string) \<Rightarrow> (string \<Rightarrow> bool) \<Rightarrow> (out_point \<times> tx_out) list \<Rightarrow> dbs
    \<Rightarrow> bounded_error + sync_state_summary" where
  "report_sync_state json save entries D =
     bindE (mapErr SummaryFailed (sync_state_summary_of entries D)) (\<lambda>summary.
     bindE (guardE (save (json summary @ [CHR 0x0a])) WriteSummary) (\<lambda>_.
     Inr summary))"

definition short_text :: "string \<Rightarrow> string" where "short_text s = take 12 s"

text \<open>A hash is shown in hex with its bytes reversed; \<open>digest\<close> is the digest of a summary.\<close>

definition mismatch_report :: "(sync_state_summary \<Rightarrow> string) \<Rightarrow> sync_state_summary \<Rightarrow> sync_state_summary \<Rightarrow> string" where
  "mismatch_report digest produced reference =
     (let nl = [CHR 0x0a];
          tip_text = (\<lambda>s. ''height '' @ show_nat (unat (ss_tip_height s)) @ '' ('' @
            short_text (hex_encode (rev (ss_tip_hash s))) @ ''..)'') in
      ''consensus-state verification FAILED'' @ nl
      @ ''  current   tip:    '' @ tip_text produced @ nl
      @ ''  reference tip:    '' @ tip_text reference @ nl
      @ ''  current   digest: '' @ short_text (digest produced) @ ''..'' @ nl
      @ ''  reference digest: '' @ short_text (digest reference) @ ''..'')"

definition verify_against_reference ::
  "(sync_state_summary \<Rightarrow> string) \<Rightarrow> sync_state_summary \<Rightarrow> sync_state_summary option \<Rightarrow> bounded_error + unit" where
  "verify_against_reference digest produced reference =
     (case reference of
        None \<Rightarrow> Inr ()
      | Some reference \<Rightarrow>
          guardE (produced = reference) (ConsensusMismatch (mismatch_report digest produced reference)))"

text \<open>\<open>entries\<close> is the iteration of the database when the summary is made.\<close>

definition run_exit_after_sync ::
  "libs \<Rightarrow> block_file_libs \<Rightarrow> mainchain \<Rightarrow> network \<Rightarrow> blocks_dir option \<Rightarrow> sync_state option
    \<Rightarrow> (u32 \<Rightarrow> client_error + bytes) \<Rightarrow> (sync_state_summary \<Rightarrow> string) \<Rightarrow> (string \<Rightarrow> bool)
    \<Rightarrow> (sync_state_summary \<Rightarrow> string) \<Rightarrow> (dbs \<Rightarrow> (out_point \<times> tx_out) list)
    \<Rightarrow> u32 \<Rightarrow> sync_state_summary option \<Rightarrow> validator \<Rightarrow> ((bounded_error + unit) \<times> validator) option" where
  "run_exit_after_sync L B M net dir shutdown getblockhash json save digest entries goal_height reference V =
     Option.bind (sync_to_height L B M net dir shutdown getblockhash goal_height V) (\<lambda>(r, V').
     Some (bindE r (\<lambda>_.
       bindE (report_sync_state json save (entries (vd_dbs V')) (vd_dbs V')) (\<lambda>produced.
       verify_against_reference digest produced reference)), V'))"

text \<open>After the synchronisation the task waits for the shutdown; then it has succeeded.\<close>

definition run_freeze_at_height ::
  "libs \<Rightarrow> block_file_libs \<Rightarrow> mainchain \<Rightarrow> network \<Rightarrow> blocks_dir option \<Rightarrow> sync_state option
    \<Rightarrow> (u32 \<Rightarrow> client_error + bytes) \<Rightarrow> u32 \<Rightarrow> validator \<Rightarrow> ((bounded_error + unit) \<times> validator) option" where
  "run_freeze_at_height L B M net dir shutdown getblockhash goal_height V =
     map_option (\<lambda>(r, V'). (bindE r (\<lambda>_. Inr ()), V'))
       (sync_to_height L B M net dir shutdown getblockhash goal_height V)"

section \<open>What a started process is\<close>

lemma bindR_Inr: "bindR m k = Some (Inr y) \<longleftrightarrow> (\<exists>x. m = Some (Inr x) \<and> k x = Some (Inr y))"
  by (cases m) (auto simp: bindR_def split: sum.splits)

text \<open>The tasks that move the validator along the chain.\<close>

fun drives_validator :: "app_task \<Rightarrow> bool" where
  "drives_validator NoMempoolTask = True"
| "drives_validator ValidatorMempoolTask = True"
| "drives_validator (ProducerMempoolTask _) = True"
| "drives_validator (WalletMempoolTask _) = True"
| "drives_validator (ExitAfterSyncTask _ _ _) = True"
| "drives_validator (FreezeAtHeightTask _) = True"
| "drives_validator _ = False"

lemma tip_task_drives: "tip_task c net mode coinbase = Inr t \<Longrightarrow> drives_validator t"
  by (auto simp: tip_task_def split: enforcer_mode.splits if_splits)

lemma filter_bounded [simp]:
  "filter drives_validator (ConnectServerTask m w a # ts) = filter drives_validator ts"
  "drives_validator (exit_after_sync_task c blocks reference)"
  by (simp_all add: exit_after_sync_task_def Let_def split: option.splits)

lemma spawned_drivers:
  assumes "spawn_tasks c net blocks mode reference coinbase = Inr tasks" and "options_allowed c"
  shows "\<exists>t. filter drives_validator tasks = [t]
    \<and> (cf_freeze_at_height c \<noteq> None \<longrightarrow> t = FreezeAtHeightTask (the (cf_freeze_at_height c)))
    \<and> (exit_after_sync_mode c \<longrightarrow> t = exit_after_sync_task c blocks reference)
    \<and> (\<not> bounded_sync_mode c \<longrightarrow> tip_task c net mode coinbase = Inr t)"
proof (cases "bounded_sync_mode c")
  case True
  have one: "\<not> (exit_after_sync_mode c \<and> cf_freeze_at_height c \<noteq> None)"
    using assms(2) by (auto simp: options_allowed_def exit_after_sync_mode_def)
  show ?thesis
    using assms(1) True one by (cases "exit_after_sync_mode c"; cases "cf_freeze_at_height c")
      (auto simp: spawn_tasks_def bounded_sync_mode_def Let_def)
next
  case False
  then have no: "\<not> exit_after_sync_mode c" "cf_freeze_at_height c = None" by (simp_all add: bounded_sync_mode_def)
  with assms(1) False obtain t where t: "tip_task c net mode coinbase = Inr t"
    and tasks: "tasks = [t] @ [ConnectServerTask (mining_enabled net) (has_wallet mode) (cf_serve_grpc_addr c)] @
      (if has_wallet mode \<and> \<not> wc_skip_periodic_sync (cf_wallet_opts c)
             \<and> wc_sync_source (cf_wallet_opts c) \<noteq> SyncDisabled then [WalletSyncTask] else [])"
    by (auto simp: spawn_tasks_def Let_def)
  show ?thesis using tip_task_drives [OF t] t no False by (auto simp: tasks)
qed

lemma spawned_services:
  assumes "spawn_tasks c net blocks mode reference coinbase = Inr tasks"
  shows "filter (\<lambda>t. \<exists>m w a. t = ConnectServerTask m w a) tasks
      = [ConnectServerTask (mining_enabled net) (has_wallet mode) (cf_serve_grpc_addr c)]
    \<and> (WalletSyncTask \<in> set tasks \<longleftrightarrow> has_wallet mode \<and> \<not> wc_skip_periodic_sync (cf_wallet_opts c)
         \<and> wc_sync_source (cf_wallet_opts c) \<noteq> SyncDisabled)"
proof -
  have tip: "\<not> (\<exists>m w a. t = ConnectServerTask m w a) \<and> t \<noteq> WalletSyncTask"
    if "tip_task c net mode coinbase = Inr t" for t
    using that by (auto simp: tip_task_def split: enforcer_mode.splits if_splits)
  have ends: "\<not> (\<exists>m w a. exit_after_sync_task c blocks reference = ConnectServerTask m w a)
      \<and> exit_after_sync_task c blocks reference \<noteq> WalletSyncTask"
    by (auto simp: exit_after_sync_task_def Let_def split: option.splits)
  from assms obtain tips where tips: "\<forall>t\<in>set tips. \<not> (\<exists>m w a. t = ConnectServerTask m w a) \<and> t \<noteq> WalletSyncTask"
    and tasks: "tasks = tips @ [ConnectServerTask (mining_enabled net) (has_wallet mode) (cf_serve_grpc_addr c)]
       @ (if has_wallet mode \<and> \<not> wc_skip_periodic_sync (cf_wallet_opts c)
             \<and> wc_sync_source (cf_wallet_opts c) \<noteq> SyncDisabled then [WalletSyncTask] else [])
       @ (if exit_after_sync_mode c then [exit_after_sync_task c blocks reference] else [])
       @ (case cf_freeze_at_height c of Some goal_height \<Rightarrow> [FreezeAtHeightTask goal_height] | None \<Rightarrow> [])"
    using tip by (fastforce simp: spawn_tasks_def Let_def split: if_splits)
  have no: "filter (\<lambda>t. \<exists>m w a. t = ConnectServerTask m w a) tips = []" "WalletSyncTask \<notin> set tips"
    using tips by (auto simp: filter_empty_conv)
  show ?thesis
    using no ends by (auto simp: tasks split: option.splits)
qed

lemma started_steps:
  assumes "start E c = Some (Inr st)"
  obtains reference net blocks version D challenge coinbase wallet wallet' where
    "load_reference E c = Inr reference" "wait_for_rpc (os_chain_info E) 0 = Some (Inr (net, blocks))"
    "check_bitcoin_core_version (os_network_info E) (cf_expected_version c) (cf_skip_version_check c) = Inr version"
    "find_signet_challenge (os_get_template E) (os_default_rules E) net = Inr challenge"
    "check_coinbase_recipient (os_on_network E) c net = Inr coinbase"
    "start_enforcer E c net challenge (select_mode c net)
       \<lparr>bp_validator = validator_new D c, bp_last_gbt_error = None, bp_pending = []\<rparr> = Some (Inr (wallet, sd_wallet_dir st))"
    "scan_at_start E c wallet = Inr wallet'"
    "spawn_tasks c net blocks (select_mode c net) reference coinbase = Inr (sd_tasks st)"
    "sd_network st = net" "sd_mode st = select_mode c net" "sd_wallet st = wallet'" "sd_validator st = validator_new D c"
  using assms unfolding start_def Let_def split_beta bindR_Inr by (auto simp: prod_eq_iff)

lemma created_is_initialized:
  assumes "create_new_wallet L F net mnemonic password s = (Inr (), s')"
  shows "is_initialized s'"
  using assms by (auto simp: create_new_wallet_def install_wallet_def bindS_eq_Inr is_initialized_def)

lemma start_wallet_ok:
  assumes "start_wallet E c net challenge p = Some (Inr (w, dir))"
  shows "(\<exists>indexes. os_index_info E = Inr indexes \<and> ''txindex'' \<in> set indexes)
    \<and> (wc_mnemonic_path (cf_wallet_opts c) \<noteq> None \<or> wc_auto_create (cf_wallet_opts c) \<longrightarrow> wi_bitcoin_wallet w \<noteq> None)"
proof -
  from assms obtain indexes inner where idx: "os_index_info E = Inr indexes" "''txindex'' \<in> set indexes"
    and open': "(case auto_create_wallet (os_seed_libs E) (os_faults E) net (os_read E) c
         \<lparr>sw_dir = os_seed_dir E, sw_bitcoin_wallet = wi_bitcoin_wallet inner, sw_bdk_db = wi_bdk_db inner\<rparr> of
       (Inl e, _) \<Rightarrow> Some (Inl e)
     | (Inr _, s) \<Rightarrow>
         Some (Inr (inner\<lparr>wi_bitcoin_wallet := sw_bitcoin_wallet s, wi_bdk_db := sw_bdk_db s\<rparr>, sw_dir s))) = Some (Inr (w, dir))"
    unfolding start_wallet_def bindR_Inr by auto
  then obtain s where auto': "auto_create_wallet (os_seed_libs E) (os_faults E) net (os_read E) c
         \<lparr>sw_dir = os_seed_dir E, sw_bitcoin_wallet = wi_bitcoin_wallet inner, sw_bdk_db = wi_bdk_db inner\<rparr> = (Inr (), s)"
    and w: "wi_bitcoin_wallet w = sw_bitcoin_wallet s"
    by (auto split: sum.splits prod.splits)
  have "is_initialized s" if k: "wc_mnemonic_path (cf_wallet_opts c) \<noteq> None \<or> wc_auto_create (cf_wallet_opts c)"
  proof -
    have auto_true: "auto_create" if "choose_mnemonic (os_seed_libs E) (os_read E) c = Inr (m, auto_create)" for m auto_create
      using that k by (auto simp: choose_mnemonic_def split: option.splits)
    show ?thesis
      using auto' auto_true created_is_initialized
      by (auto simp: auto_create_wallet_def bindS_eq_Inr split: if_splits)
  qed
  then show ?thesis using idx w by (auto simp: is_initialized_def)
qed

lemma accepted_version:
  assumes "check_bitcoin_core_version answer expected skip = Inr version"
  shows "\<exists>info. answer = Inr info \<and> (skip
    \<or> (case expected of Some m \<Rightarrow> major_from_version_int (ni_version info) = m
         | None \<Rightarrow> major_from_version_int (ni_version info) \<in> {31, 30, 29}))"
proof (cases answer)
  case (Inr info)
  then have "is_ok (check_bitcoin_core_version (Inr info) expected skip)"
    using assms by (simp add: is_ok_iff)
  then show ?thesis unfolding Inr check_version_iff by blast
qed (use assms in \<open>simp add: check_bitcoin_core_version_def\<close>)

text \<open>There is a wallet exactly if it was asked for, and then the node has its index.\<close>

lemma started_wallet:
  assumes "start_enforcer E c net challenge (select_mode c net) p = Some (Inr (wallet, dir))"
    and "scan_at_start E c wallet = Inr wallet'"
  shows "(wallet' \<noteq> None \<longleftrightarrow> cf_enable_wallet c)
    \<and> (cf_enable_wallet c \<longrightarrow> (\<exists>indexes. os_index_info E = Inr indexes \<and> ''txindex'' \<in> set indexes))
    \<and> (cf_enable_wallet c \<and> \<not> wc_full_scan (cf_wallet_opts c)
         \<and> (wc_mnemonic_path (cf_wallet_opts c) \<noteq> None \<or> wc_auto_create (cf_wallet_opts c))
         \<longrightarrow> (\<exists>w. wallet' = Some w \<and> wi_bitcoin_wallet w \<noteq> None))"
proof (cases "cf_enable_wallet c")
  case True
  with assms(1) obtain w where w: "wallet = Some w" "start_wallet E c net challenge p = Some (Inr (w, dir))"
    by (auto simp: start_enforcer_def select_mode_def bindR_Inr)
  show ?thesis
    using start_wallet_ok [OF w(2)] assms(2) True w(1) by (auto simp: scan_at_start_def split: if_splits)
next
  case False
  then have "wallet = None" using assms(1) by (auto simp: start_enforcer_def select_mode_def split: if_splits)
  then show ?thesis using assms(2) False by (simp add: scan_at_start_def)
qed

text \<open>
  C38: what a process that has started has checked, and what it runs. The node has an accepted version
  (unless the check is skipped); on signet there is a challenge and it is not the standard one; a
  recipient of rewards is an address of the node's network; with a wallet the node has its
  transaction index, and the wallet is unlocked if it was to be created. Exactly one task
  moves the validator: the bounded synchronisation to its height if one was asked for, else the
  task of the mode; one server runs, with the mining service exactly on regtest and signet and the
  wallet service exactly with a wallet; and the wallet's own synchronisation runs unless it is
  disabled or skipped.
\<close>
theorem started_process_checked:
  assumes "start E c = Some (Inr st)" and "options_allowed c"
  shows "(\<exists>info. os_network_info E = Inr info \<and> (cf_skip_version_check c
        \<or> (case cf_expected_version c of Some m \<Rightarrow> major_from_version_int (ni_version info) = m
             | None \<Rightarrow> major_from_version_int (ni_version info) \<in> {31, 30, 29})))
    \<and> (sd_network st = Signet \<longrightarrow> (\<exists>challenge. os_get_template E (os_default_rules E @ [''signet'']) = Inr (Some challenge)
        \<and> hex_encode challenge \<noteq> STANDARD_SIGNET_CHALLENGE_HEX))
    \<and> (\<forall>a. cf_coinbase_recipient c = Some a \<longrightarrow> os_on_network E a (sd_network st))
    \<and> (sd_wallet st \<noteq> None \<longleftrightarrow> cf_enable_wallet c)
    \<and> (cf_enable_wallet c \<longrightarrow> (\<exists>indexes. os_index_info E = Inr indexes \<and> ''txindex'' \<in> set indexes))
    \<and> (cf_enable_wallet c \<and> \<not> wc_full_scan (cf_wallet_opts c)
         \<and> (wc_mnemonic_path (cf_wallet_opts c) \<noteq> None \<or> wc_auto_create (cf_wallet_opts c))
         \<longrightarrow> (\<exists>w. sd_wallet st = Some w \<and> wi_bitcoin_wallet w \<noteq> None))
    \<and> (\<exists>t. filter drives_validator (sd_tasks st) = [t]
         \<and> (\<forall>h. cf_freeze_at_height c = Some h \<longrightarrow> t = FreezeAtHeightTask h)
         \<and> (exit_after_sync_mode c \<longrightarrow> (\<exists>goal r out. t = ExitAfterSyncTask goal r out
              \<and> (r \<noteq> None \<longleftrightarrow> cf_verify_consensus_state c \<noteq> None) \<and> (\<forall>s. r = Some s \<longrightarrow> goal = ss_tip_height s)))
         \<and> (\<not> bounded_sync_mode c \<longrightarrow>
              tip_task c (sd_network st) (select_mode c (sd_network st)) (cf_coinbase_recipient c) = Inr t))
    \<and> filter (\<lambda>t. \<exists>m w a. t = ConnectServerTask m w a) (sd_tasks st)
        = [ConnectServerTask (sd_network st \<in> {Regtest, Signet}) (cf_enable_wallet c) (cf_serve_grpc_addr c)]
    \<and> (WalletSyncTask \<in> set (sd_tasks st) \<longleftrightarrow> cf_enable_wallet c \<and> \<not> wc_skip_periodic_sync (cf_wallet_opts c)
         \<and> wc_sync_source (cf_wallet_opts c) \<noteq> SyncDisabled)"
proof (rule started_steps [OF assms(1)])
  fix reference net blocks version D challenge coinbase wallet wallet'
  assume ref: "load_reference E c = Inr reference"
    and ver: "check_bitcoin_core_version (os_network_info E) (cf_expected_version c) (cf_skip_version_check c) = Inr version"
    and sig: "find_signet_challenge (os_get_template E) (os_default_rules E) net = Inr challenge"
    and cb: "check_coinbase_recipient (os_on_network E) c net = Inr coinbase"
    and wal: "start_enforcer E c net challenge (select_mode c net)
       \<lparr>bp_validator = validator_new D c, bp_last_gbt_error = None, bp_pending = []\<rparr> = Some (Inr (wallet, sd_wallet_dir st))"
    and scan: "scan_at_start E c wallet = Inr wallet'"
    and tasks: "spawn_tasks c net blocks (select_mode c net) reference coinbase = Inr (sd_tasks st)"
    and st: "sd_network st = net" "sd_mode st = select_mode c net" "sd_wallet st = wallet'"
  have hw: "has_wallet (select_mode c net) \<longleftrightarrow> cf_enable_wallet c"
    by (simp add: select_mode_def has_wallet_def)
  have s: "net = Signet \<longrightarrow> (\<exists>challenge. os_get_template E (os_default_rules E @ [''signet'']) = Inr (Some challenge)
      \<and> hex_encode challenge \<noteq> STANDARD_SIGNET_CHALLENGE_HEX)"
    using sig by (auto simp: find_signet_challenge_def template_rules_def)
  have a: "\<forall>a. cf_coinbase_recipient c = Some a \<longrightarrow> os_on_network E a net" "coinbase = cf_coinbase_recipient c"
    using cb by (auto simp: check_coinbase_recipient_def split: option.splits)
  have refs: "reference \<noteq> None \<longleftrightarrow> cf_verify_consensus_state c \<noteq> None"
    using ref by (auto simp: load_reference_def split: option.splits)
  have driver: "\<exists>t. filter drives_validator (sd_tasks st) = [t]
         \<and> (\<forall>h. cf_freeze_at_height c = Some h \<longrightarrow> t = FreezeAtHeightTask h)
         \<and> (exit_after_sync_mode c \<longrightarrow> (\<exists>goal r out. t = ExitAfterSyncTask goal r out
              \<and> (r \<noteq> None \<longleftrightarrow> cf_verify_consensus_state c \<noteq> None) \<and> (\<forall>s. r = Some s \<longrightarrow> goal = ss_tip_height s)))
         \<and> (\<not> bounded_sync_mode c \<longrightarrow> tip_task c net (select_mode c net) (cf_coinbase_recipient c) = Inr t)"
    using spawned_drivers [OF tasks assms(2)] refs
    by (auto simp: a(2) exit_after_sync_task_def Let_def split: option.splits)
  show ?thesis
    using accepted_version [OF ver] s a(1) started_wallet [OF wal scan] driver spawned_services [OF tasks] hw
    by (simp add: st mining_enabled_def)
qed

text \<open>
  With a wallet directory that holds an encrypted seed, a start that is asked to create a wallet fails:
  the wallet is locked and not missing, and creating another one is refused.
\<close>

theorem auto_create_fails_on_locked_wallet:
  assumes "wc_mnemonic_path (cf_wallet_opts c) = None" and "wc_auto_create (cf_wallet_opts c)"
    and "sd_seed (sw_dir s) \<noteq> None" and "\<not> is_initialized s"
  shows "\<exists>e. auto_create_wallet L F net read c s = (Inl (CreateWallet e), s)"
proof -
  have "\<exists>e. create_new_wallet L F net None None s = (Inl e, s)"
  proof (cases "new_mnemonic L")
    case (Some m)
    then show ?thesis
      by (cases "sl_block_count L")
        (auto simp: create_new_wallet_def bindS_def liftS_def mapErrS_def on_dir_def insert_seed_exists [OF assms(3)])
  qed (simp add: create_new_wallet_def bindS_def liftS_def)
  then show ?thesis
    using assms(1,2,4) by (auto simp: auto_create_wallet_def choose_mnemonic_def bindS_def liftS_def mapErrS_def)
qed

text \<open>The loop for a first template goes on while the node is warming up, and ends with the first other answer.\<close>

lemma sample_template_skips:
  "(\<And>i. n \<le> i \<Longrightarrow> i < n + k \<Longrightarrow> \<exists>message. answers i = Inl (CallError (- 10) message))
    \<Longrightarrow> sample_block_template answers n = sample_block_template answers (n + k)"
proof (induction k)
  case (Suc k)
  have "\<exists>message. answers (n + k) = Inl (CallError (- 10) message)" using Suc.prems [of "n + k"] by simp
  then have "sample_block_template answers (n + k) = sample_block_template answers (n + Suc k)"
    by (subst sample_block_template.simps) auto
  then show ?case using Suc by simp
qed simp

text \<open>
  Before the initial synchronisation the wallet's task changes nothing; it never touches the validator
  and the queue, and what it persists is the wallet it then holds.
\<close>

lemma sync_tick_keeps:
  "wi_producer (sync_tick B N w) = wi_producer w"
  "wi_last_sync w = None \<Longrightarrow> sync_tick B N w = w"
  "wi_bdk_db (sync_tick B N w) = wi_bdk_db w
    \<or> wi_bdk_db (sync_tick B N w) = wi_bitcoin_wallet (sync_tick B N w) \<and> wi_last_sync (sync_tick B N w) = Some (wn_now N)"
  by (auto simp: sync_tick_def wallet_sync_def split: option.splits)

theorem sync_task_keeps:
  "wi_producer (snd (sync_task B signals w)) = wi_producer w
   \<and> (wi_last_sync w = None \<longrightarrow> snd (sync_task B signals w) = w)
   \<and> (fst (sync_task B signals w) \<longleftrightarrow> SyncShutdown \<in> set signals)"
  by (induction B signals w rule: sync_task.induct) (auto simp: sync_tick_keeps)

text \<open>
  A task over the mempool succeeds only after the initial synchronisation, and fails for good when the
  address of the notifications does not take connections.
\<close>

theorem producer_task_needs_mempool:
  assumes "run_block_producer_mempool_task connect init serve gbt zmq event = Some (Inr ())"
  shows "(\<exists>m. init = Inr m) \<and> is_address_port_open connect zmq = Inr True \<and> (\<forall>err. event \<noteq> WaitError err)
    \<and> (\<forall>g. gbt = Some g \<longrightarrow> serve g = Some (Inr ()))"
  using assms
  by (auto simp: run_block_producer_mempool_task_def sync_mempool_def wait_for_error_or_shutdown_def Let_def
      split: sum.splits option.splits bool.splits wait_event.splits)

section \<open>Verification against a reference\<close>

lemma known_height_new [simp]: "known_height dbs_new = None"
  by (simp add: known_height_def try_get_block_height_def dbs_new_def)

text \<open>From empty databases the bounded synchronisation reaches the block at its height.\<close>

lemma sync_to_height_fresh:
  assumes "serves_chain L M (map blk_header blks)" and "header_chain L (map blk_header blks)"
    and "\<And>n. \<not> mc_blocks_cancelled M n"
    and "\<And>bs. set bs \<subseteq> set blks \<Longrightarrow> fetch_blocks_batch M (map (block_hash_of L) bs) = Inr bs"
    and "\<And>D. sync_headers L M (block_hash_of L (last blks)) dbs_new = Some (Inr (), D)
      \<Longrightarrow> extends L (handler_of (validator_new dbs_new c) Map.empty) D [] blks"
    and "getblockhash goal_height = Inr (block_hash_of L (last blks))"
  shows "\<exists>V'. sync_to_height L B M net None None getblockhash goal_height (validator_new dbs_new c)
      = Some (Inr (known_height (vd_dbs V')), V')
    \<and> tracks L (vd_dbs V') (rev blks) \<and> db_tip (vd_dbs V') = Some (block_hash_of L (last blks))"
proof -
  let ?V = "validator_new dbs_new c"
  from sync_to_tip_fresh [OF assms(1-5), of B net] obtain D es where
    run: "sync_to_tip L (handler_of ?V Map.empty) B M net None (block_hash_of L (last blks)) (dbs_new, [])
        = Some (Inr None, D, es)"
    and D: "tracks L D (rev blks)" "db_tip D = Some (block_hash_of L (last blks))" by blast
  have sel: "vd_dbs ?V = dbs_new" "vd_events_tx ?V = []" "vd_header_sync_progress ?V = None"
    by (simp_all add: validator_new_def)
  show ?thesis
    by (intro exI [of _ "?V\<lparr>vd_dbs := D, vd_events_tx := es, vd_header_sync_progress := None\<rparr>"])
      (simp add: sync_to_height_def enforcer_sync_to_tip_def sel assms(6) run D)
qed


section \<open>A concrete start\<close>

text \<open>A start on signet with a wallet that is created, and one synchronisation to height 1.\<close>

definition demo_app_config :: app_config where
  "demo_app_config = \<lparr>cf_data_dir = ''/data'', cf_enable_wallet = True, cf_enable_mempool = False,
     cf_enable_block_template_server = False, cf_coinbase_recipient = Some ''tb1'',
     cf_logger_opts = \<lparr>lg_format = Json, lg_level = ''DEBUG'', lg_max_log_files = 3, lg_max_log_file_size_mb = 10,
       lg_directory = None, lg_rotation = Daily\<rparr>,
     cf_gbt_cache_lifetime_s = None,
     cf_mining_opts = \<lparr>mc_signet_mining_script_path = None, mc_signet_mining_script_debug = False,
       mc_bitcoin_util_path = ''bitcoin-util'', mc_bitcoin_cli_path = ''bitcoin-cli''\<rparr>,
     cf_node_rpc_opts = \<lparr>nr_addr = ''127.0.0.1:38332'', nr_user = Some ''u'', nr_pass = Some ''p'', nr_cookie_path = None\<rparr>,
     cf_node_rpc_ip = ''127.0.0.1'', cf_node_rpc_port = 38332, cf_node_blocks_dir = None,
     cf_node_zmq_addr_sequence = None, cf_p2p_broadcast_addr = [],
     cf_serve_rpc_addr = (''127.0.0.1'', 8122), cf_serve_grpc_addr = (''127.0.0.1'', 50051),
     cf_wallet_opts = \<lparr>wc_sync_source = SyncDisabled, wc_esplora_url = None, wc_electrum_host = None,
       wc_electrum_port = None, wc_mnemonic_path = None, wc_auto_create = True, wc_full_scan = False,
       wc_skip_periodic_sync = False\<rparr>,
     cf_exit_after_sync = Some 1, cf_verify_consensus_state = None, cf_freeze_at_height = None,
     cf_expected_version = None, cf_skip_version_check = False, cf_activation_height = 0,
     cf_pqc_verify_budget_ms = 100\<rparr>"

definition demo_start_libs :: "(unit, string, string option) seed_libs" where
  "demo_start_libs = \<lparr>
     sl_json_encode = demo_json_encode, sl_json_decode = demo_json_decode,
     sl_words = (\<lambda>_. [97, 98]), sl_parse_english = (\<lambda>_. Some ()), sl_from_str = (\<lambda>_. Some ()),
     sl_generate = Some (), sl_random_salt = Some [1, 2], sl_random_nonce = [3],
     sl_argon2 = (\<lambda>pw salt. Some (pw @ salt)), sl_aes_encrypt = (\<lambda>key _ text. Some (key @ text)),
     sl_aes_decrypt = (\<lambda>key _ c. if take (length key) c = key then Some (drop (length key) c) else None),
     sl_extended_key = (\<lambda>_. Some [7]), sl_xprv = (\<lambda>_ _. Some ''xprv''),
     sl_load_wallet = (\<lambda>_ _ _ db. Inr db),
     sl_create_wallet = (\<lambda>ext _ _ _. Some (ext, Some ext)),
     sl_now = 1700000000, sl_block_count = Some 100\<rparr>"

definition demo_outside :: "(unit, string, unit, unit) outside" where
  "demo_outside = \<lparr>os_read = (\<lambda>_. None), os_from_json = (\<lambda>_. None),
     os_rest = (\<lambda>n. if n < 2 then RestHttpStatus 503 else RestOk), os_build_client = (\<lambda>_ _ _. Some ()),
     os_chain_info = (\<lambda>_. Inr (Signet, 7)),
     os_network_info = Inr \<lparr>ni_version = 300000, ni_subversion = ''/Satoshi:30.0.0/''\<rparr>,
     os_network_text = (\<lambda>_. ''signet''), os_make_dir = (\<lambda>_. True), os_open_dbs = (\<lambda>_. Some dbs_new),
     os_get_template = (\<lambda>_. Inr (Some [0x51])), os_default_rules = [''segwit''], os_on_network = (\<lambda>_ _. True),
     os_template_client = True, os_index_info = Inr [''txindex''], os_seed_libs = demo_start_libs,
     os_faults = no_faults,
     os_sources = (\<lambda>_. \<lparr>ss_parse_url = (\<lambda>_. None), ss_build_esplora = (\<lambda>_. None), ss_esplora_height = (\<lambda>_. None),
       ss_connect_electrum = (\<lambda>_. None), ss_first_block = (\<lambda>_. None), ss_chain_hash = (\<lambda>_. [])\<rparr>),
     os_database = Some None, os_seed_dir = \<lparr>sd_seed = None, sd_seed_on_disk = None, sd_tmp = None\<rparr>,
     os_zmq = Inr [(''pubsequence'', ''tcp://127.0.0.1:29000'')], os_full_scan = (\<lambda>_. None)\<rparr>"

lemma demo_start_create:
  "is_ok (fst (create_new_wallet demo_start_libs no_faults Signet None None
     \<lparr>sw_dir = \<lparr>sd_seed = None, sd_seed_on_disk = None, sd_tmp = None\<rparr>, sw_bitcoin_wallet = None, sw_bdk_db = None\<rparr>))"
  by (simp add: create_new_wallet_def new_mnemonic_def demo_start_libs_def
      bindS_def liftS_def mapErrS_def on_dir_def insert_seed_def write_seed_file_def write_steps_def
      write_step_run_def no_faults_def throwS_def install_wallet_def on_bdk_db_def
      initialize_wallet_from_mnemonic_def modifyS_def returnS_def Let_def)

lemma demo_rest: "wait_for_rest (os_rest demo_outside) 0 = Inr ()"
  by (simp add: demo_outside_def wait_for_rest.simps MAX_RETRIES_def)

lemma demo_start_wallet:
  "\<exists>w dir. start_wallet demo_outside demo_app_config Signet (Some [0x51]) p = Some (Inr (w, dir))"
proof -
  let ?s = "\<lparr>sw_dir = \<lparr>sd_seed = None, sd_seed_on_disk = None, sd_tmp = None\<rparr>, sw_bitcoin_wallet = None :: string option,
    sw_bdk_db = None :: string option\<rparr>"
  obtain s' where s': "create_new_wallet demo_start_libs no_faults Signet None None ?s = (Inr (), s')"
    using demo_start_create by (cases "create_new_wallet demo_start_libs no_faults Signet None None ?s") (auto simp: is_ok_iff)
  have "auto_create_wallet demo_start_libs no_faults Signet (\<lambda>_. None) demo_app_config ?s = (Inr (), s')"
    using s' by (simp add: auto_create_wallet_def choose_mnemonic_def demo_app_config_def bindS_def liftS_def
        is_initialized_def mapErrS_def)
  then show ?thesis
    by (simp add: start_wallet_def demo_outside_def demo_app_config_def bindR_def wallet_inner_new_def
        init_chain_source_client_def open_wallet_def read_mnemonic_def read_seed_file_def no_faults_def)
qed

lemma demo_starts: "\<exists>st. start demo_outside demo_app_config = Some (Inr st) \<and> sd_network st = Signet"
proof -
  obtain w dir where w: "start_wallet demo_outside demo_app_config Signet (Some [0x51])
      \<lparr>bp_validator = validator_new dbs_new demo_app_config, bp_last_gbt_error = None, bp_pending = []\<rparr>
      = Some (Inr (w, dir))" using demo_start_wallet by blast
  have load: "load_reference demo_outside demo_app_config = Inr None"
    by (simp add: load_reference_def demo_app_config_def)
  have client: "create_client (os_read demo_outside) (os_build_client demo_outside) (cf_node_rpc_opts demo_app_config) = Inr ()"
    by (simp add: create_client_def demo_outside_def demo_app_config_def)
  have rpc: "wait_for_rpc (os_chain_info demo_outside) 0 = Some (Inr (Signet, 7))"
    by (simp add: wait_for_rpc.simps demo_outside_def)
  have version: "\<exists>v. check_bitcoin_core_version (os_network_info demo_outside) (cf_expected_version demo_app_config)
      (cf_skip_version_check demo_app_config) = Inr v"
    by (simp add: check_bitcoin_core_version_def demo_outside_def demo_app_config_def Let_def
        SUPPORTED_BITCOIN_CORE_MAJORS_def major_from_version_int_def)
  have challenge: "find_signet_challenge (os_get_template demo_outside) (os_default_rules demo_outside) Signet = Inr (Some [0x51])"
    by (simp add: find_signet_challenge_def demo_outside_def STANDARD_SIGNET_CHALLENGE_HEX_def hex_encode_def)
  have recipient: "check_coinbase_recipient (os_on_network demo_outside) demo_app_config Signet = Inr (Some ''tb1'')"
    by (simp add: check_coinbase_recipient_def demo_outside_def demo_app_config_def)
  have mode: "select_mode demo_app_config Signet = WalletMode" by (simp add: select_mode_def demo_app_config_def)
  have zmq: "cf_node_zmq_addr_sequence demo_app_config = None"
    "get_zmq_addr_sequence (os_zmq demo_outside) = Inr ''tcp://127.0.0.1:29000''"
    by (simp_all add: get_zmq_addr_sequence_def demo_outside_def demo_app_config_def)
  have dirs: "os_make_dir demo_outside d" "os_open_dbs demo_outside d = Some dbs_new" "os_template_client demo_outside" for d
    by (simp_all add: demo_outside_def)
  have scan: "scan_at_start demo_outside demo_app_config (Some w) = Inr (Some w)"
    by (simp add: scan_at_start_def demo_app_config_def)
  have tasks: "\<exists>ts. spawn_tasks demo_app_config Signet 7 WalletMode None (Some ''tb1'') = Inr ts"
    by (simp add: spawn_tasks_def bounded_sync_mode_def exit_after_sync_mode_def demo_app_config_def Let_def)
  show ?thesis
    using version tasks
    by (auto simp: start_def bindR_def load demo_rest client rpc challenge recipient mode zmq dirs scan
        start_enforcer_def w Let_def)
qed

theorem started_process_checked_witness:
  "\<exists>st. start demo_outside demo_app_config = Some (Inr st) \<and> sd_wallet st \<noteq> None
    \<and> (\<exists>w. sd_wallet st = Some w \<and> wi_bitcoin_wallet w \<noteq> None)
    \<and> (\<exists>goal out. filter drives_validator (sd_tasks st) = [ExitAfterSyncTask goal None out])"
proof -
  from demo_starts obtain st where st: "start demo_outside demo_app_config = Some (Inr st)" "sd_network st = Signet" by blast
  have ok: "options_allowed demo_app_config" by (simp add: options_allowed_def demo_app_config_def)
  have c: "cf_enable_wallet demo_app_config" "\<not> wc_full_scan (cf_wallet_opts demo_app_config)"
    "wc_auto_create (cf_wallet_opts demo_app_config)" "cf_verify_consensus_state demo_app_config = None"
    "exit_after_sync_mode demo_app_config"
    by (simp_all add: demo_app_config_def exit_after_sync_mode_def)
  have "\<exists>t goal r out. filter drives_validator (sd_tasks st) = [t] \<and> t = ExitAfterSyncTask goal r out \<and> r = None"
    using started_process_checked [OF st(1) ok] c(4,5) by (elim conjE exE) auto
  moreover have "sd_wallet st \<noteq> None" using started_process_checked [OF st(1) ok] c(1) by blast
  moreover have "\<exists>w. sd_wallet st = Some w \<and> wi_bitcoin_wallet w \<noteq> None"
    using started_process_checked [OF st(1) ok] c(1-3) by blast
  ultimately show ?thesis using st(1) by (intro exI [of _ st] conjI) auto
qed


lemma demo_final_utxos: "replay_chain sample_libs [second_block, genesis] = Map.empty"
  unfolding replay_chain.simps(2) [of sample_libs second_block] replay_block_def [of _ _ second_block] genesis_chain
  by (simp add: replay_tx_def second_block_def demo_node_inputs demo_node_outpoints replay_sample_in
      replay_output_def is_p2mr_out_def is_p2mr_script_def sample_out_def
      del: replicate.simps replay_chain.simps)

lemma demo_run_handler: "handler_of (validator_new dbs_new demo_app_config) Map.empty = demo_handler"
  by (simp add: handler_of_def validator_new_def demo_handler_def demo_app_config_def)


end
