(* ===== verification/Spec2Isabelle.thy ===== *)
theory Spec2Isabelle
  imports Tapscript_Witnesses App
begin

text \<open>
  A verification development for the BIP 360 enforcer, a service that runs beside a Bitcoin Core
  node, checks pay-to-Merkle-root (P2MR) spends with post-quantum signatures and a set of
  covenant opcodes, and makes the node reject the blocks and transactions that break them.
  The root theory holds no definitions; the paths below are relative to \<open>src/\<close>.

  The program. A transaction is accepted if its P2MR inputs are authorised by the overloaded
  signature opcodes of their leaf scripts (\<open>lib/validator/pqc\<close>) and if every tapscript leaf that
  uses an enforced opcode runs successfully (\<open>lib/validator/tapscript\<close>). A block is accepted if its
  transactions are, against the set of unspent P2MR outputs that the enforcer keeps in a database
  (\<open>lib/validator/dbs\<close>). A handler connects and disconnects blocks (\<open>lib/validator/task/mod.rs\<close>),
  and the synchronisation downloads headers, rewinds to the last common ancestor, and connects
  blocks from the node's block files (\<open>lib/validator/parse_block_files.rs\<close>,
  \<open>lib/validator/task/block_files.rs\<close>) and from its JSON-RPC interface.

  The theories, in the order of their imports.
  \<^item> \<open>Prelude\<close>: results as sums with \<open>Inl\<close> the error, state and error computations \<open>st\<close>, the fallible
    loop \<open>foldE\<close>; the interfaces \<open>fallible_loop\<close> (invariants of loops) and \<open>reversible\<close> (stores whose
    changes can be taken back); little-endian encodings and checked arithmetic.
  \<^item> \<open>Tx_Model\<close>: transactions, headers and blocks of the bitcoin crate, and the record \<open>libs\<close> of the
    third-party functions the code calls (hashing, sighashes, signature verification, script
    decoding). \<open>Sample_Libs\<close> is one concrete instance, used by the witnesses only.
  \<^item> \<open>Leaf_Script\<close>, \<open>P2mr\<close>, \<open>Schemes\<close>, \<open>Spend\<close>: the files of \<open>lib/validator/pqc\<close>: the leaf script
    parser, output scripts and Merkle paths, signature schemes with the verification budget, and
    the checks of an input and of a transaction.
  \<^item> \<open>Script_Codec\<close>, \<open>Script_Hash\<close>, \<open>Interp\<close>, \<open>Interp_Deferred\<close>, \<open>Interp_Ops\<close>, \<open>Interp_Rules\<close>,
    \<open>Tapscript\<close>, \<open>Tapscript_Witnesses\<close>: \<open>lib/validator/tapscript\<close>: script numbers, template hashes,
    the interpreter with its opcodes, the deferred value checks of the vault opcodes, and the run
    over the inputs of a transaction.
  \<^item> \<open>P2mr_Utxo\<close>, \<open>Pqc\<close>: the per-block diff of the P2MR set, plain indexing and validation, and the
    validation of blocks and of mempool transactions (\<open>pqc/p2mr_utxo.rs\<close>, \<open>pqc/mod.rs\<close>).
  \<^item> \<open>Block_Dbs\<close>, \<open>Block_Handler\<close>, \<open>Node_State\<close>: the databases as maps, connecting and disconnecting
    blocks, and the reachable states \<open>node_run\<close> with the abstract state, the list of connected
    blocks; \<open>tracks\<close> is the abstraction relation.
  \<^item> \<open>Disk_Index\<close>, \<open>Parse_Block_Files\<close>: block index entries and block files, with what Core writes
    as the specification.
  \<^item> \<open>Sync\<close>, \<open>Block_Files\<close>, \<open>Sync_Blocks\<close>: header download, the search for the best known ancestor,
    block batches, the rewind, the cache of early blocks (interface \<open>bounded_cache\<close>), and the whole
    synchronisation.
  \<^item> \<open>Enforcer\<close>: the calls of the driver (\<open>lib/validator/enforcer.rs\<close>) on the record \<open>validator\<close>: the
    header write and the block write in their two nested transactions, the prevouts fetched from the
    node, disconnecting, mempool admission, the dry run, and the synchronisation with its progress
    and shutdown; \<open>enforcer_run\<close> are its reachable states.
  \<^item> \<open>Queries\<close>: what the validator answers from the databases (\<open>lib/validator/mod.rs\<close>), the state
    summary, the schema marker of the database directory and the headers of the REST service.
  \<^item> \<open>Signer\<close>, \<open>P2mr_Store\<close>: leaves, outputs and signed spends (\<open>lib/validator/pqc/signer.rs\<close>), and the
    wallet's key file (\<open>lib/wallet/p2mr_store.rs\<close>); key generation and signing are the record
    \<open>signing\<close>, and \<open>signing_laws\<close> and \<open>script_laws\<close> say that what is signed verifies and what is
    pushed decodes. \<open>sample_signing\<close> satisfies them.
  \<^item> \<open>Block_Producer\<close>, \<open>Mine\<close>: the queue of pending spends and the block templates
    (\<open>lib/block_producer/mod.rs\<close>), the wallet's P2MR listing and spending (\<open>lib/wallet/mod.rs\<close>), and
    the mining of a local block (\<open>lib/block_producer/mine.rs\<close>).
  \<^item> \<open>Wallet_Sync\<close>: the driver's calls in wallet mode, following the validator to its tip, connecting
    missing blocks and the full scan (\<open>lib/wallet/block_producer.rs\<close>, \<open>lib/wallet/sync.rs\<close>), over the
    record \<open>bdk\<close> of the BDK wallet's operations; \<open>bdk_follows\<close> is what is assumed of them.
  \<^item> \<open>Text\<close>, \<open>Node_Connection\<close>: strings of the standard library; the version check, the credentials,
    tolerated rejections, the broadcast to peers and the waits at start-up (\<open>lib/version.rs\<close>,
    \<open>lib/rpc_client.rs\<close>, \<open>lib/p2p.rs\<close>, \<open>app/main.rs\<close>).
  \<^item> \<open>Wallet_Seed\<close>: the seed file with its atomic write and what a crash leaves of it, the encryption of
    mnemonics, and creating, opening and unlocking a wallet (\<open>lib/wallet/seed_store.rs\<close>,
    \<open>lib/wallet/mnemonic.rs\<close>, \<open>lib/wallet/mod.rs\<close>); \<open>wallet_step\<close> are its reachable states and
    \<open>seed_laws\<close> what is assumed of the codec, the cipher and the BDK wallet.
  \<^item> \<open>Wallet_Tx\<close>: the chain source with its retries, the start of the wallet, the list of its
    transactions, sending, addresses and the summary (\<open>lib/wallet/mod.rs\<close>).
  \<^item> \<open>Signet_Mining\<close>: the child processes with their command lines (\<open>lib/bins.rs\<close>), the signet miner and
    its script, the wait until a submitted block is connected, and the checks before mining
    (\<open>lib/block_producer/mine.rs\<close>). What the child prints and what is polled are parameters.
  \<^item> \<open>Rpc_Status\<close>, \<open>Rpc_Node\<close>, \<open>Rpc_Wallet\<close>: the statuses and hex fields of answers and the conversion of
    messages (\<open>lib/proto.rs\<close>, \<open>lib/errors.rs\<close>), and every handler of the validator, mining, crypto and
    wallet services (\<open>lib/server\<close>), as functions from the decoded request and the state to the answer.
  \<^item> \<open>Http_Server\<close>, \<open>Cli\<close>, \<open>App\<close>: the layers around the services, the options with the dump of the
    configuration, and the process: its start with every check in the order of the code, the tasks it
    spawns, the tasks over the mempool and of the wallet's timer, and the bounded synchronisation with
    its verification (\<open>app/main.rs\<close>, \<open>lib/cli.rs\<close>). The
    record \<open>outside\<close> of \<open>App\<close> holds what start-up finds on disk and asks the node.

  What the lemmas show. Soundness of acceptance: what an accepted input, leaf, transaction and
  block has satisfied, opcode by opcode. Exactness where the code decides a condition: script
  numbers, Merkle paths, spends within the budget, deferred checks, mempool admission, blocks that
  extend the tip. Agreement of the two computations of a block diff, and of the databases with the
  replay of the connected blocks from genesis. Round trips of block files and index entries.
  Termination and progress of every loop of the synchronisation, up to reaching the tip of a node
  that serves a chain. For the enforcer as a whole: a subscriber that follows its events holds the
  accepted chain, a rejected block changes header storage at most, the node is asked for exactly the
  prevouts that validation cannot find, and the dry run agrees with connecting. For the wallet and
  the producer: what is signed and queued passes the enforcer, values add up, a mined spend is not
  injected again, a mined block extends the tip, connecting through the wallet changes validator
  and queue as the producer alone would, and the wallet catches up with the validator's chain. A created
  wallet opens again as the same wallet and its seed survives any faults and crashes, the listed
  amounts of a transaction balance, and what is sent is taken by the node, recorded and persisted.
  For the services: the answers decode to the connected chain, a request to mine is answered by one hash
  for each block, a request to send pays what it asks for, and a block of the signet miner is connected
  before it is reported. For the process: what has been checked once it runs, that one task alone moves
  the validator, that the verification against a reference passes exactly for the same state, and that
  the dump of the configuration does not depend on secrets.

  Conventions. Machine integers keep their width; \<open>usize\<close> counters, file offsets and accumulated
  work are natural numbers, as they count things in memory or on disk. Hash maps are maps or
  association lists with distinct keys. A database transaction is the state of an \<open>st\<close> computation;
  where the code drops a transaction, the definition returns the old state. Events are collected
  in the order in which they are broadcast. Loops that end on every input are functions with a
  termination proof; loops that end only if a service behaves are partial functions into \<open>option\<close>,
  with a theorem that they return when it does. There is no fuel; the search for a nonce
  may run for ever, and is shown to end whenever some nonce has the proof of work. The measured time of a signature
  verification is a parameter.

  Not modelled: the formatting of log events and the list of open files; the protocol code that is
  generated from the service definitions, with the routing, health and reflection libraries of the
  server; the parser of the command line; the scheduling of tasks, their shared locks and the drain of
  the remaining tasks at the end; the mempool library that calls the enforcer; the SQLite connection
  behind the BDK wallet; the LMDB engine below the maps and its I/O errors; the conversion between two
  types of one hash and the wrapper of a formatting closure (\<open>lib/convert.rs\<close>, \<open>lib/display.rs\<close>); the
  integration tests. Third-party code (BDK, Argon2, AES, BIP 39, JSON, HTTP, DNS, sockets, child processes) is a
  parameter.
\<close>

end
